(* ===== verification/Prelude.thy ===== *)
theory Prelude
  imports Main "HOL-Library.Signed_Division"
begin

text \<open>
  Shared vocabulary of the development: the errors the TypeScript code throws, the result
  type of an operation that may throw, truncating BigInt division, ASCII case folding, and
  the arithmetic facts on integer quotients that the money-handling components share.

  A thrown exception is a value of \<open>js_error\<close>; an operation that may throw returns
  \<open>js_error + 'a\<close> (\<open>Inl\<close> is the exception).  A \<open>bigint\<close> is an \<open>int\<close>; a JavaScript
  \<open>number\<close> that only ever holds integers (timestamps, ticks, counters) is an \<open>int\<close> too.
\<close>

named_theorems res_simps \<open>unfolding rules for results of operations that may throw\<close>

named_theorems quot_simps \<open>facts about truncating integer quotients\<close>

section \<open>Errors and results\<close>

datatype strategy_error_code =
  E_CONFIG | E_CHAIN | E_OWNER | E_POOL_IDENTITY | E_POSITION_CHANGED
| E_APR_UNAVAILABLE | E_PLAN_STALE | E_SLIPPAGE | E_DAILY_LIMIT | E_VAULT_LOCKED

datatype js_error =
  JsError string                              \<comment> \<open>\<open>new Error(message)\<close>\<close>
| StrategyError strategy_error_code string    \<comment> \<open>\<open>new StrategyError(code, message)\<close>\<close>
| RangeError                                  \<comment> \<open>BigInt division by zero\<close>
| UniqueFailed                                \<comment> \<open>SQLite: UNIQUE constraint failed\<close>
| ForeignKeyFailed                            \<comment> \<open>SQLite: FOREIGN KEY constraint failed\<close>

type_synonym 'a res = "js_error + 'a"

definition bindR :: "'e + 'a \<Rightarrow> ('a \<Rightarrow> 'e + 'b) \<Rightarrow> 'e + 'b" where
  "bindR m f = (case m of Inl e \<Rightarrow> Inl e | Inr x \<Rightarrow> f x)"

lemma bindR_simps [simp, res_simps]:
  "bindR (Inl e) f = Inl e" "bindR (Inr x) f = f x"
  by (simp_all add: bindR_def)

lemma bindR_eq_Inr [res_simps]:
  "bindR m f = Inr y \<longleftrightarrow> (\<exists>x. m = Inr x \<and> f x = Inr y)"
  by (cases m) auto

lemma bindR_eq_Inl [res_simps]:
  "bindR m f = Inl e \<longleftrightarrow> m = Inl e \<or> (\<exists>x. m = Inr x \<and> f x = Inl e)"
  by (cases m) auto

lemma bindR_cong [fundef_cong]:
  "m = m' \<Longrightarrow> (\<And>x. m' = Inr x \<Longrightarrow> f x = f' x) \<Longrightarrow> bindR m f = bindR m' f'"
  by (cases m') auto

fun isInr :: "'e + 'a \<Rightarrow> bool" where
  "isInr (Inl _) = False"
| "isInr (Inr _) = True"

lemma isInr_iff: "isInr m \<longleftrightarrow> (\<exists>x. m = Inr x)"
  by (cases m) auto

text \<open>Mapping a throwing function over an array: the first exception wins.\<close>

fun mapR :: "('a \<Rightarrow> 'e + 'b) \<Rightarrow> 'a list \<Rightarrow> 'e + 'b list" where
  "mapR f [] = Inr []"
| "mapR f (x # xs) = bindR (f x) (\<lambda>y. bindR (mapR f xs) (\<lambda>ys. Inr (y # ys)))"

text \<open>Running a throwing update over an array, the state threaded through.\<close>

fun foldR :: "('a \<Rightarrow> 's \<Rightarrow> 'e + 's) \<Rightarrow> 'a list \<Rightarrow> 's \<Rightarrow> 'e + 's" where
  "foldR f [] s = Inr s"
| "foldR f (x # xs) s = bindR (f x s) (foldR f xs)"

lemma foldR_inv:
  assumes "foldR f xs s = Inr s'" and "I s"
    and "\<And>x s s'. x \<in> set xs \<Longrightarrow> I s \<Longrightarrow> f x s = Inr s' \<Longrightarrow> I s'"
  shows "I s'"
  using assms
proof (induction xs arbitrary: s)
  case Nil
  then show ?case by simp
next
  case (Cons x xs)
  from Cons.prems(1) obtain t where t: "f x s = Inr t" and rest: "foldR f xs t = Inr s'"
    by (auto simp: bindR_eq_Inr)
  have "I t" using Cons.prems(2,3) t by (metis list.set_intros(1))
  with rest show ?case using Cons.IH Cons.prems(3) by (metis list.set_intros(2))
qed

section \<open>BigInt division\<close>

text \<open>The \<open>/\<close> of BigInt truncates towards zero and throws a RangeError on a zero divisor.\<close>

definition bdiv :: "int \<Rightarrow> int \<Rightarrow> int res" where
  "bdiv a b = (if b = 0 then Inl RangeError else Inr (a sdiv b))"

lemma sdiv_nonneg [quot_simps]: "0 \<le> a \<Longrightarrow> 0 \<le> b \<Longrightarrow> (a::int) sdiv b = a div b"
  by (cases "a = 0"; cases "b = 0") (auto simp: signed_divide_int_def sgn_if)

lemma bdiv_pos [quot_simps]: "0 \<le> a \<Longrightarrow> 0 < b \<Longrightarrow> bdiv a b = Inr (a div b)"
  by (simp add: bdiv_def sdiv_nonneg)

lemma bdiv_nonzero: "b \<noteq> 0 \<Longrightarrow> bdiv a b = Inr (a sdiv b)"
  by (simp add: bdiv_def)

lemma bdiv_zero [simp]: "bdiv a 0 = Inl RangeError"
  by (simp add: bdiv_def)

lemma sdiv_ge_0: "0 \<le> a \<Longrightarrow> 0 \<le> b \<Longrightarrow> 0 \<le> (a::int) sdiv b"
  by (simp add: sdiv_nonneg div_int_pos_iff)

lemma div_mult_le: "0 < b \<Longrightarrow> (a::int) div b * b \<le> a"
  by (metis div_mult_mod_eq le_add_same_cancel1 pos_mod_sign)

lemma div_mult_gt: "0 < b \<Longrightarrow> (a::int) < (a div b + 1) * b"
proof -
  assume b: "0 < b"
  have "a = a div b * b + a mod b" by simp
  moreover have "a mod b < b" using b by simp
  moreover have "(a div b + 1) * b = a div b * b + b" by (simp add: distrib_right)
  ultimately show ?thesis by linarith
qed

lemma le_div_iff:
  assumes "0 < b"
  shows "x \<le> (a::int) div b \<longleftrightarrow> x * b \<le> a"
proof
  assume "x \<le> a div b"
  then have "x * b \<le> a div b * b" using assms by (simp add: mult_right_mono)
  also have "\<dots> \<le> a" using assms by (rule div_mult_le)
  finally show "x * b \<le> a" .
next
  assume le: "x * b \<le> a"
  show "x \<le> a div b"
  proof (rule ccontr)
    assume "\<not> x \<le> a div b"
    then have "(a div b + 1) * b \<le> x * b" using assms by (intro mult_right_mono) simp_all
    with le div_mult_gt [OF assms, of a] show False by linarith
  qed
qed

lemma div_less_iff: "0 < b \<Longrightarrow> (a::int) div b < x \<longleftrightarrow> a < x * b"
  using le_div_iff [of b x a] by linarith

text \<open>A pro-rata share of \<open>x\<close> never exceeds \<open>x\<close>: \<open>x * w / t \<le> x\<close> when \<open>w \<le> t\<close>.\<close>

lemma share_le: "0 \<le> x \<Longrightarrow> 0 \<le> w \<Longrightarrow> w \<le> t \<Longrightarrow> 0 < t \<Longrightarrow> (x::int) * w div t \<le> x"
proof -
  assume a: "0 \<le> x" "0 \<le> w" "w \<le> t" "0 < t"
  have "x * w \<le> x * t" using a by (simp add: mult_left_mono)
  then have "x * w div t \<le> x * t div t" using a by (simp only: zdiv_mono1)
  moreover have "x * t div t = x" using a by simp
  ultimately show ?thesis by linarith
qed

lemma share_ge_0: "0 \<le> x \<Longrightarrow> 0 \<le> w \<Longrightarrow> 0 < t \<Longrightarrow> 0 \<le> (x::int) * w div t"
  by (simp add: pos_imp_zdiv_nonneg_iff)

text \<open>Rounding-up division, written \<open>(a + b - 1) / b\<close> in the code, is the least multiple.\<close>

lemma ceil_div_least: "0 < b \<Longrightarrow> (a::int) \<le> q * b \<longleftrightarrow> (a + b - 1) div b \<le> q"
proof -
  assume b: "0 < b"
  have "(a + b - 1) div b \<le> q \<longleftrightarrow> (a + b - 1) div b < q + 1" by linarith
  also have "\<dots> \<longleftrightarrow> a + b - 1 < (q + 1) * b" by (rule div_less_iff [OF b])
  also have "\<dots> \<longleftrightarrow> a \<le> q * b" by (simp add: algebra_simps) linarith
  finally show ?thesis by simp
qed

lemma ceil_div_covers: "0 < b \<Longrightarrow> (a::int) \<le> ((a + b - 1) div b) * b"
  by (simp add: ceil_div_least)

section \<open>Strings\<close>

text \<open>
  \<open>String.prototype.toLowerCase\<close> on the ASCII strings the code folds (hex addresses,
  token keys).
\<close>

definition lower_char :: "char \<Rightarrow> char" where
  "lower_char c =
     (let n = of_char c :: nat in if 65 \<le> n \<and> n \<le> 90 then char_of (n + 32) else c)"

definition toLower :: "string \<Rightarrow> string" where
  "toLower s = map lower_char s"

lemma lower_char_idem [simp]: "lower_char (lower_char c) = lower_char c"
  by (auto simp: lower_char_def Let_def of_char_of)

lemma toLower_idem [simp]: "toLower (toLower s) = toLower s"
  by (simp add: toLower_def)

lemma toLower_Nil [simp]: "toLower [] = []"
  by (simp add: toLower_def)

end
