(* ===== verification/JsNumber.thy ===== *)
theory JsNumber
  imports Prelude Complex_Main
begin

text \<open>
  JavaScript \<open>number\<close> arithmetic where the code really computes with fractions.  A finite
  double is the rational it denotes; every arithmetic operation is the exact one followed by
  \<open>fl\<close>, IEEE 754 rounding to 53 significant bits, ties to even.  Values below the normal
  range, overflow and NaN are outside the model: the code using these operations works on
  validated configuration numbers between \<open>10\<^sup>-\<^sup>3\<close> and \<open>10\<^sup>1\<^sup>5\<close>.
\<close>

section \<open>Rounding to 53 bits\<close>

function ilog2 :: "int \<Rightarrow> int" where
  "ilog2 n = (if n < 2 then 0 else 1 + ilog2 (n div 2))"
  by pat_completeness auto
termination
  by (relation "measure nat") auto

declare ilog2.simps [simp del]

lemma ilog2_ge_0: "0 \<le> ilog2 n"
  by (induction n rule: ilog2.induct) (simp add: ilog2.simps)

lemma ilog2_bounds: "0 < n \<Longrightarrow> 2 ^ nat (ilog2 n) \<le> n \<and> n < 2 ^ Suc (nat (ilog2 n))"
proof (induction n rule: ilog2.induct)
  case (1 n)
  show ?case
  proof (cases "n < 2")
    case True
    with "1.prems" show ?thesis by (simp add: ilog2.simps [of n])
  next
    case False
    define l where "l = nat (ilog2 (n div 2))"
    have IH: "2 ^ l \<le> n div 2 \<and> n div 2 < 2 ^ Suc l"
      unfolding l_def using "1.IH" False by simp
    have "n = 2 * (n div 2) + n mod 2" and "n mod 2 < 2" and "0 \<le> n mod 2" by simp_all
    with IH have "2 * 2 ^ l \<le> n \<and> n < 2 * 2 ^ Suc l" by linarith
    moreover have "nat (ilog2 n) = Suc l"
      unfolding ilog2.simps [of n] l_def using False ilog2_ge_0 [of "n div 2"] by simp
    ultimately show ?thesis by simp
  qed
qed

text \<open>The binary exponent of a positive rational.\<close>

definition exp2 :: "rat \<Rightarrow> int" where
  "exp2 x = (let (p, q) = quotient_of x;
                 e = ilog2 p - ilog2 q
             in if 2 powi e \<le> x then e else e - 1)"

definition round_half_even :: "rat \<Rightarrow> int" where
  "round_half_even x =
     (let f = \<lfloor>x\<rfloor>; d = x - of_int f
      in if d < 1 / 2 then f else if 1 / 2 < d then f + 1 else if even f then f else f + 1)"

definition fl_pos :: "rat \<Rightarrow> rat" where
  "fl_pos x = (let e = exp2 x in of_int (round_half_even (x * 2 powi (52 - e))) * 2 powi (e - 52))"

definition fl :: "rat \<Rightarrow> rat" where
  "fl x = (if x = 0 then 0 else if x < 0 then - fl_pos (- x) else fl_pos x)"

definition nadd :: "rat \<Rightarrow> rat \<Rightarrow> rat" where "nadd a b = fl (a + b)"
definition nsub :: "rat \<Rightarrow> rat \<Rightarrow> rat" where "nsub a b = fl (a - b)"
definition nmul :: "rat \<Rightarrow> rat \<Rightarrow> rat" where "nmul a b = fl (a * b)"
definition ndiv :: "rat \<Rightarrow> rat \<Rightarrow> rat" where "ndiv a b = fl (a / b)"

text \<open>\<open>Math.floor\<close>, \<open>Math.ceil\<close> and \<open>Math.round\<close> (halves round up) on a finite number.\<close>

definition math_floor :: "rat \<Rightarrow> int" where "math_floor x = \<lfloor>x\<rfloor>"
definition math_ceil :: "rat \<Rightarrow> int" where "math_ceil x = \<lceil>x\<rceil>"
definition math_round :: "rat \<Rightarrow> int" where "math_round x = \<lfloor>x + 1 / 2\<rfloor>"

definition is_integer :: "rat \<Rightarrow> bool" where "is_integer x \<longleftrightarrow> of_int \<lfloor>x\<rfloor> = x"

section \<open>Square root\<close>

text \<open>
  \<open>Math.sqrt\<close> is correctly rounded.  The integer root of \<open>x * 4 ^ 120\<close> carries far more than
  54 bits; a half is added when the root is not exact, so that rounding sees on which side of
  a tie the real root lies.
\<close>

function isqrt :: "int \<Rightarrow> int" where
  "isqrt n = (if n \<le> 0 then 0
              else let r = 2 * isqrt (n div 4) in if (r + 1) * (r + 1) \<le> n then r + 1 else r)"
  by pat_completeness auto
termination
  by (relation "measure nat") auto

declare isqrt.simps [simp del]

lemma isqrt_bounds:
  "0 \<le> n \<Longrightarrow> 0 \<le> isqrt n \<and> isqrt n * isqrt n \<le> n \<and> n < (isqrt n + 1) * (isqrt n + 1)"
proof (induction n rule: isqrt.induct)
  case (1 n)
  show ?case
  proof (cases "n \<le> 0")
    case True
    with "1.prems" show ?thesis by (simp add: isqrt.simps)
  next
    case False
    define s where "s = isqrt (n div 4)"
    have IH: "0 \<le> s" "s * s \<le> n div 4" "n div 4 < (s + 1) * (s + 1)"
      using "1.IH" [OF False] False by (simp_all add: s_def)
    have low: "4 * (s * s) \<le> n" using IH(2) by linarith
    have high: "n < 4 * ((s + 1) * (s + 1))" using IH(3) by linarith
    show ?thesis
      unfolding isqrt.simps [of n] using False low high IH(1)
      by (auto simp: Let_def s_def [symmetric] algebra_simps)
  qed
qed

definition nsqrt :: "rat \<Rightarrow> rat" where
  "nsqrt x =
     (if x \<le> 0 then 0
      else let y = x * 4 ^ 120; r = isqrt \<lfloor>y\<rfloor>;
               t = (if of_int (r * r) = y then of_int r else of_int r + 1 / 2)
           in fl (t / 2 ^ 120))"

section \<open>Integers are exact\<close>

lemma exp2_bounds:
  assumes "0 < x"
  shows "2 powi exp2 x \<le> x \<and> x < 2 powi (exp2 x + 1)"
proof -
  obtain p q where pq: "quotient_of x = (p, q)" by fastforce
  have q: "0 < q" using pq by (rule quotient_of_denom_pos)
  have x: "x = of_int p / of_int q" using pq by (rule quotient_of_div)
  have p: "0 < p" using assms q x by (simp add: zero_less_divide_iff)
  define a b where "a = nat (ilog2 p)" and "b = nat (ilog2 q)"
  have "2 ^ a \<le> p \<and> p < 2 ^ Suc a" unfolding a_def using p by (rule ilog2_bounds)
  then have P: "(2::rat) ^ a \<le> of_int p" "of_int p < (2::rat) ^ Suc a"
    by (metis of_int_le_iff of_int_less_iff of_int_numeral of_int_power)+
  have "2 ^ b \<le> q \<and> q < 2 ^ Suc b" unfolding b_def using q by (rule ilog2_bounds)
  then have Q: "(2::rat) ^ b \<le> of_int q" "of_int q < (2::rat) ^ Suc b"
    by (metis of_int_le_iff of_int_less_iff of_int_numeral of_int_power)+
  define e where "e = int a - int b"
  have pe: "(2::rat) powi e = 2 ^ a / 2 ^ b"
    unfolding e_def by (simp add: power_int_diff)
  have up: "x < 2 powi (e + 1)"
  proof -
    have "x < 2 ^ Suc a / 2 ^ b"
      unfolding x using P Q q p by (intro frac_less) simp_all
    then show ?thesis by (simp add: power_int_add pe mult.commute)
  qed
  have lo: "2 powi (e - 1) \<le> x"
  proof -
    have "2 ^ a / 2 ^ Suc b \<le> x"
      unfolding x using P Q q p by (intro frac_le) simp_all
    then show ?thesis by (simp add: power_int_diff pe)
  qed
  show ?thesis
  proof -
    have "ilog2 p - ilog2 q = e"
      using ilog2_ge_0 [of p] ilog2_ge_0 [of q] by (simp add: e_def a_def b_def)
    then show ?thesis using up lo by (auto simp: exp2_def pq Let_def)
  qed
qed

lemma round_half_even_int [simp]: "round_half_even (of_int n) = n"
  by (simp add: round_half_even_def)

lemma exp2_less:
  assumes "0 < x" and "x < 2 powi k"
  shows "exp2 x < k"
proof (rule ccontr)
  assume "\<not> exp2 x < k"
  then have "(2::rat) powi k \<le> 2 powi exp2 x" by (intro power_int_increasing) simp_all
  with exp2_bounds [OF assms(1)] assms(2) show False by simp
qed

lemma fl_pos_int:
  assumes "0 < n" and "n < 2 ^ 53"
  shows "fl_pos (of_int n) = of_int n"
proof -
  define e where "e = exp2 (of_int n)"
  have "(of_int n :: rat) < 2 powi 53"
    using assms(2) by (simp add: power_int_def)
  then have e: "e < 53" unfolding e_def using assms(1) by (intro exp2_less) simp_all
  define k where "k = nat (52 - e)"
  have k: "52 - e = int k" using e by (simp add: k_def)
  have "(of_int n :: rat) * 2 powi (52 - e) = of_int (n * 2 ^ k)"
    unfolding k by (simp add: power_int_def)
  then have "round_half_even (of_int n * 2 powi (52 - e)) = n * 2 ^ k"
    by (simp only: round_half_even_int)
  then have "fl_pos (of_int n) = of_int (n * 2 ^ k) * 2 powi (e - 52)"
    unfolding fl_pos_def Let_def e_def [symmetric] by simp
  also have "e - 52 = - int k" using k by simp
  also have "of_int (n * 2 ^ k) * (2::rat) powi (- int k) = of_int n"
    by (simp add: power_int_minus)
  finally show ?thesis .
qed

lemma fl_int: "\<bar>n\<bar> < 2 ^ 53 \<Longrightarrow> fl (of_int n) = of_int n"
  using fl_pos_int [of n] fl_pos_int [of "- n"] by (auto simp: fl_def)

lemma nmul_int: "\<bar>m * n\<bar> < 2 ^ 53 \<Longrightarrow> nmul (of_int m) (of_int n) = of_int (m * n)"
  unfolding nmul_def by (metis fl_int of_int_mult)

lemma math_floor_int [simp]: "math_floor (of_int n) = n"
  by (simp add: math_floor_def)

lemma math_ceil_int [simp]: "math_ceil (of_int n) = n"
  by (simp add: math_ceil_def)

end
