(* ===== verification/BigText.thy ===== *)
theory BigText
  imports Prelude
begin

text \<open>
  Decimal text of BigInts: \<open>BigInt(string)\<close> and \<open>toString()\<close>.  The strings the code converts
  are optional-sign decimal digit strings; the other spellings \<open>BigInt()\<close> accepts (hexadecimal
  and binary literals, surrounding blanks) do not occur in the data modelled here and are
  rejected by \<open>big_of_string\<close>.  A rejected string is \<open>None\<close>, where JavaScript throws a
  SyntaxError.
\<close>

definition digit_val :: "char \<Rightarrow> int option" where
  "digit_val c = (let n = of_char c in if 48 \<le> n \<and> n \<le> 57 then Some (n - 48) else None)"

fun digits_val :: "int \<Rightarrow> string \<Rightarrow> int option" where
  "digits_val acc [] = Some acc"
| "digits_val acc (c # cs) =
     (case digit_val c of None \<Rightarrow> None | Some d \<Rightarrow> digits_val (acc * 10 + d) cs)"

definition big_of_string :: "string \<Rightarrow> int option" where
  "big_of_string s =
     (case s of
        [] \<Rightarrow> Some 0
      | c # cs \<Rightarrow>
          if c = CHR ''-'' then (if cs = [] then None else map_option uminus (digits_val 0 cs))
          else if c = CHR ''+'' then (if cs = [] then None else digits_val 0 cs)
          else digits_val 0 (c # cs))"

definition digit_char :: "int \<Rightarrow> char" where
  "digit_char d = char_of (d + 48)"

function nat_text :: "int \<Rightarrow> string" where
  "nat_text n = (if n < 10 then [digit_char n] else nat_text (n div 10) @ [digit_char (n mod 10)])"
  by pat_completeness auto
termination
  by (relation "measure nat") auto

declare nat_text.simps [simp del]

definition big_to_string :: "int \<Rightarrow> string" where
  "big_to_string n = (if n < 0 then CHR ''-'' # nat_text (- n) else nat_text n)"

section \<open>Reading back what was written\<close>

lemma digit_val_char [simp]: "0 \<le> d \<Longrightarrow> d \<le> 9 \<Longrightarrow> digit_val (digit_char d) = Some d"
proof -
  assume d: "0 \<le> d" "d \<le> 9"
  have "of_char (char_of (d + 48) :: char) = (d + 48) mod 256" by simp
  also have "\<dots> = d + 48" using d by simp
  finally show ?thesis using d by (simp add: digit_val_def digit_char_def Let_def)
qed

lemma digits_val_append:
  "digits_val acc (xs @ ys) = (case digits_val acc xs of None \<Rightarrow> None | Some v \<Rightarrow> digits_val v ys)"
  by (induction xs arbitrary: acc) (auto split: option.splits)

lemma digits_val_nat_text: "0 \<le> n \<Longrightarrow> digits_val 0 (nat_text n) = Some n"
proof (induction n rule: nat_text.induct)
  case (1 n)
  show ?case
  proof (cases "n < 10")
    case True
    with "1.prems" show ?thesis by (simp add: nat_text.simps [of n])
  next
    case False
    then have "digits_val 0 (nat_text (n div 10)) = Some (n div 10)" using "1.IH" by simp
    moreover have "0 \<le> n mod 10" "n mod 10 \<le> 9" by simp_all
    ultimately show ?thesis
      using False by (simp add: nat_text.simps [of n] digits_val_append)
  qed
qed

lemma nat_text_head:
  "0 \<le> n \<Longrightarrow> \<exists>d cs. nat_text n = digit_char d # cs \<and> 0 \<le> d \<and> d \<le> 9"
proof (induction n rule: nat_text.induct)
  case (1 n)
  show ?case
  proof (cases "n < 10")
    case True
    then have "nat_text n = digit_char n # []" by (simp add: nat_text.simps [of n])
    moreover have "n \<le> 9" using True by simp
    ultimately show ?thesis using "1.prems" by blast
  next
    case False
    then obtain d cs where "nat_text (n div 10) = digit_char d # cs" "0 \<le> d" "d \<le> 9"
      using "1.IH" by (auto simp: pos_imp_zdiv_nonneg_iff)
    then have "nat_text n = digit_char d # (cs @ [digit_char (n mod 10)])"
      using False by (simp add: nat_text.simps [of n])
    then show ?thesis using \<open>0 \<le> d\<close> \<open>d \<le> 9\<close> by blast
  qed
qed

lemma digit_char_sign: "0 \<le> d \<Longrightarrow> d \<le> 9 \<Longrightarrow> digit_char d \<noteq> CHR ''-'' \<and> digit_char d \<noteq> CHR ''+''"
  using digit_val_char [of d] by (auto simp: digit_val_def Let_def)

lemma big_of_big_to_string [simp]: "big_of_string (big_to_string n) = Some n"
proof (cases "n < 0")
  case True
  then show ?thesis
    using digits_val_nat_text [of "- n"] nat_text_head [of "- n"]
    by (auto simp: big_of_string_def big_to_string_def)
next
  case False
  then obtain d cs where d: "nat_text n = digit_char d # cs" "0 \<le> d" "d \<le> 9"
    using nat_text_head [of n] by auto
  with False show ?thesis
    using digits_val_nat_text [of n] digit_char_sign [of d]
    by (simp add: big_of_string_def big_to_string_def)
qed

end
