(* ===== verification/ClMath.thy ===== *)
theory ClMath
  imports JsNumber BigText
begin

unbundle bit_operations_syntax

text \<open>
  \<open>src/lib/clmath.ts\<close>: concentrated-liquidity arithmetic on BigInts.  The tick to
  square-root-price conversion, the amounts a position holds, the liquidity an amount funds,
  deposits, slippage bounds and tick alignment, each with the exceptions BigInt division
  can throw.  The display-only float helpers (\<open>tickToPrice\<close>, \<open>sqrtPriceToPrice\<close>,
  \<open>priceToTick\<close>, \<open>tickDeltaForPct\<close>) are not modelled.
\<close>

section \<open>Constants and tick to price\<close>

definition MAX_UINT256 :: int where "MAX_UINT256 = 2 ^ 256 - 1"
definition Q96 :: int where "Q96 = 2 ^ 96"
definition MIN_TICK :: int where "MIN_TICK = -887272"
definition MAX_TICK :: int where "MAX_TICK = 887272"

text \<open>The masks and Q128 factors of the twenty conditional multiplications.\<close>

definition ratio_factors :: "(int \<times> int) list" where
  "ratio_factors =
    [(0x2, 0xfff97272373d413259a46990580e213a),
     (0x4, 0xfff2e50f5f656932ef12357cf3c7fdcc),
     (0x8, 0xffe5caca7e10e4e61c3624eaa0941cd0),
     (0x10, 0xffcb9843d60f6159c9db58835c926644),
     (0x20, 0xff973b41fa98c081472e6896dfb254c0),
     (0x40, 0xff2ea16466c96a3843ec78b326b52861),
     (0x80, 0xfe5dee046a99a2a811c461f1969c3053),
     (0x100, 0xfcbe86c7900a88aedcffc83b479aa3a4),
     (0x200, 0xf987a7253ac413176f2b074cf7815e54),
     (0x400, 0xf3392b0822b70005940c7a398e4b70f3),
     (0x800, 0xe7159475a2c29b7443b29c7fa6e889d9),
     (0x1000, 0xd097f3bdfd2022b8845ad8f792aa5825),
     (0x2000, 0xa9f746462d870fdf8a65dc1f90e061e5),
     (0x4000, 0x70d869a156d2a1b890bb3df62baf32f7),
     (0x8000, 0x31be135f97d08fd981231505542fcfa6),
     (0x10000, 0x9aa508b5b7a84e1c677de54f3e99bc9),
     (0x20000, 0x5d6af8dedb81196699c329225ee604),
     (0x40000, 0x2216e584f5fa1ea926041bedfe98),
     (0x80000, 0x48a170391f7dc42444e8fa2)]"

definition ratio_step :: "int \<Rightarrow> int \<Rightarrow> int \<times> int \<Rightarrow> int" where
  "ratio_step absTick ratio mf =
     (if absTick AND fst mf \<noteq> 0 then drop_bit 128 (ratio * snd mf) else ratio)"

definition getSqrtRatioAtTick :: "int \<Rightarrow> int res" where
  "getSqrtRatioAtTick tick =
     (let absTick = (if tick < 0 then - tick else tick) in
      if absTick > MAX_TICK then Inl (JsError (''tick '' @ big_to_string tick @ '' out of range''))
      else
        let ratio = (if absTick AND 0x1 \<noteq> 0 then 0xfffcb933bd6fad37aa2d162d1a594001
                     else 0x100000000000000000000000000000000);
            ratio = foldl (ratio_step absTick) ratio ratio_factors in
        bindR (if tick > 0 then bdiv MAX_UINT256 ratio else Inr ratio) (\<lambda>ratio.
          Inr (drop_bit 32 ratio + (if ratio AND 0xffffffff = 0 then 0 else 1))))"

section \<open>Amounts and liquidity\<close>

record amounts =
  amount0 :: int
  amount1 :: int

definition amount0For :: "int \<Rightarrow> int \<Rightarrow> int \<Rightarrow> int res" where
  "amount0For sqrtA sqrtB L =
     bindR (bdiv (L * Q96 * (sqrtB - sqrtA)) sqrtB) (\<lambda>x. bdiv x sqrtA)"

definition amount1For :: "int \<Rightarrow> int \<Rightarrow> int \<Rightarrow> int" where
  "amount1For sqrtA sqrtB L = (L * (sqrtB - sqrtA)) sdiv Q96"

definition getAmountsForLiquidity :: "int \<Rightarrow> int \<Rightarrow> int \<Rightarrow> int \<Rightarrow> amounts res" where
  "getAmountsForLiquidity sqrtP sqrtA0 sqrtB0 liquidity =
     (let (sqrtA, sqrtB) = (if sqrtA0 > sqrtB0 then (sqrtB0, sqrtA0) else (sqrtA0, sqrtB0)) in
      if liquidity = 0 then Inr \<lparr>amount0 = 0, amount1 = 0\<rparr>
      else if sqrtP \<le> sqrtA then
        bindR (amount0For sqrtA sqrtB liquidity) (\<lambda>x. Inr \<lparr>amount0 = x, amount1 = 0\<rparr>)
      else if sqrtP \<ge> sqrtB then
        Inr \<lparr>amount0 = 0, amount1 = amount1For sqrtA sqrtB liquidity\<rparr>
      else
        bindR (amount0For sqrtP sqrtB liquidity) (\<lambda>x.
          Inr \<lparr>amount0 = x, amount1 = amount1For sqrtA sqrtP liquidity\<rparr>))"

definition liquidity0 :: "int \<Rightarrow> int \<Rightarrow> int \<Rightarrow> int" where
  "liquidity0 sqrtA sqrtB a0 =
     (if sqrtB = sqrtA then 0 else (a0 * sqrtA * sqrtB) sdiv Q96 sdiv (sqrtB - sqrtA))"

definition liquidity1 :: "int \<Rightarrow> int \<Rightarrow> int \<Rightarrow> int" where
  "liquidity1 sqrtA sqrtB a1 =
     (if sqrtB = sqrtA then 0 else (a1 * Q96) sdiv (sqrtB - sqrtA))"

definition getLiquidityForAmounts :: "int \<Rightarrow> int \<Rightarrow> int \<Rightarrow> int \<Rightarrow> int \<Rightarrow> int" where
  "getLiquidityForAmounts sqrtP sqrtA0 sqrtB0 a0 a1 =
     (let (sqrtA, sqrtB) = (if sqrtA0 > sqrtB0 then (sqrtB0, sqrtA0) else (sqrtA0, sqrtB0)) in
      if sqrtP \<le> sqrtA then liquidity0 sqrtA sqrtB a0
      else if sqrtP \<ge> sqrtB then liquidity1 sqrtA sqrtB a1
      else let l0 = liquidity0 sqrtP sqrtB a0; l1 = liquidity1 sqrtA sqrtP a1
           in if l0 < l1 then l0 else l1)"

record deposit = amounts +
  liquidity :: int

definition previewDeposit :: "int \<Rightarrow> int \<Rightarrow> int \<Rightarrow> int \<Rightarrow> bool \<Rightarrow> deposit option res" where
  "previewDeposit sqrtP tickLower tickUpper input inputIsToken0 =
     bindR (getSqrtRatioAtTick tickLower) (\<lambda>sqrtA.
     bindR (getSqrtRatioAtTick tickUpper) (\<lambda>sqrtB.
       if sqrtP \<le> sqrtA then
         (if \<not> inputIsToken0 then Inr None
          else Inr (Some \<lparr>amount0 = input, amount1 = 0, liquidity = liquidity0 sqrtA sqrtB input\<rparr>))
       else if sqrtP \<ge> sqrtB then
         (if inputIsToken0 then Inr None
          else Inr (Some \<lparr>amount0 = 0, amount1 = input, liquidity = liquidity1 sqrtA sqrtB input\<rparr>))
       else if inputIsToken0 then
         (let L = liquidity0 sqrtP sqrtB input in
          Inr (Some \<lparr>amount0 = input, amount1 = amount1For sqrtA sqrtP L, liquidity = L\<rparr>))
       else
         (let L = liquidity1 sqrtA sqrtP input in
          bindR (amount0For sqrtP sqrtB L) (\<lambda>x.
            Inr (Some \<lparr>amount0 = x, amount1 = input, liquidity = L\<rparr>)))))"

section \<open>Ticks\<close>

datatype align_mode = Floor | Ceil

text \<open>
  The quotients of two integers below \<open>2 ^ 53\<close> are rounded doubles; at tick magnitudes their
  floor and ceiling are those of the exact quotient, which is what is written here.
\<close>

definition floor_div :: "int \<Rightarrow> int \<Rightarrow> int" where "floor_div a b = a div b"
definition ceil_div :: "int \<Rightarrow> int \<Rightarrow> int" where "ceil_div a b = - ((- a) div b)"

definition alignTick :: "int \<Rightarrow> int \<Rightarrow> align_mode \<Rightarrow> int" where
  "alignTick tick spacing mode =
     (let aligned = (if mode = Floor then floor_div tick spacing else ceil_div tick spacing) * spacing
      in min (max aligned (ceil_div MIN_TICK spacing * spacing)) (floor_div MAX_TICK spacing * spacing))"

definition fullRangeTicks :: "int \<Rightarrow> int \<times> int" where
  "fullRangeTicks spacing = (ceil_div MIN_TICK spacing * spacing, floor_div MAX_TICK spacing * spacing)"

section \<open>Slippage\<close>

definition applySlippage :: "int \<Rightarrow> int \<Rightarrow> int" where
  "applySlippage x bps = (x * (10000 - bps)) sdiv 10000"

definition SCALE :: int where "SCALE = 1000000000"

text \<open>\<open>BigInt(Math.round(Math.sqrt(1 \<plusminus> slipBps / 10_000) * 1e9))\<close>, in doubles.\<close>

definition slip_up :: "rat \<Rightarrow> int" where
  "slip_up slipBps = math_round (nmul (nsqrt (nadd 1 (ndiv slipBps 10000))) 1000000000)"

definition slip_dn :: "rat \<Rightarrow> int" where
  "slip_dn slipBps = math_round (nmul (nsqrt (max 0 (nsub 1 (ndiv slipBps 10000)))) 1000000000)"

definition UNBOUNDED :: int where "UNBOUNDED = 2 ^ 224"

definition liquidityForAmountsWithSlippage :: "int \<Rightarrow> int \<Rightarrow> int \<Rightarrow> int \<Rightarrow> int \<Rightarrow> rat \<Rightarrow> int" where
  "liquidityForAmountsWithSlippage sqrtP sqrtA0 sqrtB0 a0 a1 slipBps =
     (let (sqrtA, sqrtB) = (if sqrtA0 > sqrtB0 then (sqrtB0, sqrtA0) else (sqrtA0, sqrtB0));
          up = slip_up slipBps; dn = slip_dn slipBps;
          lo = (sqrtP * dn) sdiv SCALE; hi = (sqrtP * up) sdiv SCALE;
          (lo, hi) = (if sqrtP \<le> sqrtA then (sqrtA, sqrtA)
                      else if sqrtP \<ge> sqrtB then (sqrtB, sqrtB)
                      else (if lo < sqrtA then sqrtA else lo, if hi > sqrtB then sqrtB else hi));
          l0 = getLiquidityForAmounts lo sqrtA sqrtB a0 UNBOUNDED;
          l1 = getLiquidityForAmounts hi sqrtA sqrtB UNBOUNDED a1
      in if l0 < l1 then l0 else l1)"

definition minAmountsForLiquidity :: "int \<Rightarrow> int \<Rightarrow> int \<Rightarrow> int \<Rightarrow> rat \<Rightarrow> (int \<times> int) res" where
  "minAmountsForLiquidity sqrtP sqrtA0 sqrtB0 liq slipBps =
     (let (sqrtA, sqrtB) = (if sqrtA0 > sqrtB0 then (sqrtB0, sqrtA0) else (sqrtA0, sqrtB0));
          up = slip_up slipBps; dn = slip_dn slipBps;
          hi = (sqrtP * up) sdiv SCALE; lo = (sqrtP * dn) sdiv SCALE;
          hi = (if hi > sqrtB then sqrtB else hi);
          lo = (if lo < sqrtA then sqrtA else lo)
      in bindR (getAmountsForLiquidity hi sqrtA sqrtB liq) (\<lambda>h.
         bindR (getAmountsForLiquidity lo sqrtA sqrtB liq) (\<lambda>l.
           Inr (amount0 h, amount1 l))))"

section \<open>The tick to price table is strictly increasing\<close>

text \<open>
  The conditional multiplications, reading the bits of the tick one after the other.  A gap
  between two ratios survives a multiplication in proportion, so a gap at the lowest bit in
  which two neighbouring ticks differ can be followed through the remaining factors.
\<close>

abbreviation D :: int where "D \<equiv> 0x100000000000000000000000000000000"

fun mulfold :: "int list \<Rightarrow> int \<Rightarrow> int \<Rightarrow> int" where
  "mulfold [] q r = r"
| "mulfold (c # cs) q r = mulfold cs (q div 2) (if odd q then r * c div D else r)"

fun gap_ok :: "int \<Rightarrow> int list \<Rightarrow> bool" where
  "gap_ok g [] = (2 ^ 34 \<le> g)"
| "gap_ok g (c # cs) = (0 \<le> g \<and> gap_ok (g * c div D) cs)"

fun steps_ok :: "int list \<Rightarrow> int \<Rightarrow> bool" where
  "steps_ok [] a = True"
| "steps_ok (c # cs) a = (gap_ok (a - c) cs \<and> steps_ok cs (a * c div D))"

definition factors :: "int list" where
  "factors = 0xfffcb933bd6fad37aa2d162d1a594001 # map snd ratio_factors"

lemma factors_bounded: "\<forall>c \<in> set factors. 0 \<le> c \<and> c \<le> D"
  by (simp add: factors_def ratio_factors_def)

lemma length_factors: "length factors = 20"
  by (simp add: factors_def ratio_factors_def)

lemma steps_ok_factors: "steps_ok factors D"
  by code_simp

lemma div_super: "0 < d \<Longrightarrow> (a::int) div d + b div d \<le> (a + b) div d"
  using div_mult_le [of d a] div_mult_le [of d b] by (simp add: le_div_iff distrib_right)

lemma mulfold_gap:
  assumes "gap_ok g cs" and "\<forall>c \<in> set cs. 0 \<le> c \<and> c \<le> D" and "y + g \<le> x"
  shows "mulfold cs q y + 2 ^ 34 \<le> mulfold cs q x"
  using assms
proof (induction cs arbitrary: g q x y)
  case Nil
  then show ?case by simp
next
  case (Cons c cs)
  then have g: "0 \<le> g" "gap_ok (g * c div D) cs" and c: "0 \<le> c" "c \<le> D" by simp_all
  have keep: "g * c div D \<le> g" using share_le [OF g(1) c] by simp
  have "(y + g) * c div D \<le> x * c div D"
    using Cons.prems(3) c by (intro zdiv_mono1 mult_right_mono) simp_all
  moreover have "y * c div D + g * c div D \<le> (y + g) * c div D"
    using div_super [of D "y * c" "g * c"] by (simp add: distrib_right)
  ultimately have "y * c div D + g * c div D \<le> x * c div D" by linarith
  with keep Cons.prems(3)
  have "(if odd q then y * c div D else y) + g * c div D \<le> (if odd q then x * c div D else x)"
    by (cases "odd q") simp_all
  with Cons.IH [OF g(2)] Cons.prems(2) show ?case by simp
qed

lemma mulfold_adjacent:
  assumes "steps_ok cs a" and "\<forall>c \<in> set cs. 0 \<le> c \<and> c \<le> D"
    and "0 \<le> q" and "q + 1 < 2 ^ length cs"
  shows "mulfold cs (q + 1) D + 2 ^ 34 \<le> mulfold cs q a"
  using assms
proof (induction cs arbitrary: a q)
  case Nil
  then show ?case by simp
next
  case (Cons c cs)
  show ?case
  proof (cases "odd q")
    case False
    then have "(q + 1) div 2 = q div 2" by presburger
    moreover have "mulfold cs (q div 2) c + 2 ^ 34 \<le> mulfold cs (q div 2) a"
      using Cons.prems by (intro mulfold_gap [of "a - c"]) simp_all
    ultimately show ?thesis using False by simp
  next
    case True
    then have q: "(q + 1) div 2 = q div 2 + 1" by presburger
    have "q div 2 + 1 < 2 ^ length cs" using Cons.prems(4) q by simp
    then have "mulfold cs (q div 2 + 1) D + 2 ^ 34 \<le> mulfold cs (q div 2) (a * c div D)"
      using Cons.prems by (intro Cons.IH) simp_all
    with q True show ?thesis by simp
  qed
qed

text \<open>The Q128 ratio of a tick's absolute value, and its two neighbours compared.\<close>

definition ratio_of :: "int \<Rightarrow> int" where
  "ratio_of n = mulfold factors n D"

lemma ratio_of_0: "ratio_of 0 = D"
  by (simp add: ratio_of_def factors_def ratio_factors_def)

lemma ratio_of_adjacent: "0 \<le> n \<Longrightarrow> n + 1 < 2 ^ 20 \<Longrightarrow> ratio_of (n + 1) + 2 ^ 34 \<le> ratio_of n"
  unfolding ratio_of_def
  by (rule mulfold_adjacent [OF steps_ok_factors factors_bounded]) (simp_all add: length_factors)

lemma ratio_of_less:
  assumes "0 \<le> n" and "n < m" and "m < 2 ^ 20"
  shows "ratio_of m + 2 ^ 34 \<le> ratio_of n"
proof -
  have "n + 1 + int k < 2 ^ 20 \<Longrightarrow> ratio_of (n + 1 + int k) + 2 ^ 34 \<le> ratio_of n" for k
  proof (induction k)
    case 0
    then show ?case using ratio_of_adjacent [OF assms(1)] by simp
  next
    case (Suc k)
    then show ?case using ratio_of_adjacent [of "n + 1 + int k"] assms(1) by (simp add: add_ac)
  qed
  from this [of "nat (m - n - 1)"] assms show ?thesis by simp
qed

lemma ratio_of_le_D: "0 \<le> n \<Longrightarrow> n < 2 ^ 20 \<Longrightarrow> ratio_of n \<le> D"
  using ratio_of_less [of 0 n] ratio_of_0 by (cases "n = 0") auto

lemma ratio_of_MAX_TICK: "ratio_of 887272 = 18447437462383981825"
  by (simp add: ratio_of_def factors_def ratio_factors_def)

end
