(* ===== verification/TickPrice.thy ===== *)
theory TickPrice
  imports ClMath
begin

text \<open>
  What \<open>getSqrtRatioAtTick\<close> guarantees its callers: it fails exactly outside the protocol's
  tick range, it is strictly increasing on it, and its values lie between the protocol's
  minimum and maximum square-root prices.  Positivity and strict growth are what keeps every
  division in the liquidity formulas away from zero.
\<close>

section \<open>The mask loop reads the bits of the tick\<close>

lemma ratio_factors_masks:
  "ratio_factors = zip (map (\<lambda>i. 2 ^ i) [1..<20]) (map snd ratio_factors)"
  by code_simp

lemma and_mask_iff: "0 \<le> n \<Longrightarrow> ((n::int) AND 2 ^ k \<noteq> 0) = odd (n div 2 ^ k)"
  by (simp add: and_exp_eq_0_iff_not_bit bit_iff_odd)

lemma foldl_ratio_step:
  assumes "0 \<le> n"
  shows "foldl (ratio_step n) r (zip (map (\<lambda>i. 2 ^ i) [k..<k + length cs]) cs)
         = mulfold cs (n div 2 ^ k) r"
proof (induction cs arbitrary: k r)
  case Nil
  then show ?case by simp
next
  case (Cons c cs)
  have "[k..<k + length (c # cs)] = k # [Suc k..<Suc k + length cs]"
    by (simp add: upt_conv_Cons del: upt_Suc)
  moreover have "n div 2 ^ k div 2 = n div 2 ^ Suc k"
    by (simp add: power_Suc2 zdiv_zmult2_eq del: power_Suc)
  moreover have "ratio_step n r (2 ^ k, c) = (if odd (n div 2 ^ k) then r * c div D else r)"
    using and_mask_iff [OF assms, of k] by (simp add: ratio_step_def drop_bit_eq_div)
  ultimately show ?case
    using Cons.IH [where k = "Suc k"] by (simp del: upt_Suc power_Suc)
qed

lemma loop_eq_ratio_of:
  assumes "0 \<le> n"
  shows "foldl (ratio_step n)
           (if n AND 0x1 \<noteq> 0 then 0xfffcb933bd6fad37aa2d162d1a594001
            else 0x100000000000000000000000000000000) ratio_factors = ratio_of n"
proof -
  have len: "1 + length (map snd ratio_factors) = 20" by (simp add: ratio_factors_def)
  have bit0: "(n AND 0x1 \<noteq> 0) = odd n" using and_mask_iff [OF assms, of 0] by simp
  have "foldl (ratio_step n) r ratio_factors = mulfold (map snd ratio_factors) (n div 2) r" for r
    using foldl_ratio_step [OF assms, of r 1 "map snd ratio_factors"]
    unfolding len ratio_factors_masks [symmetric] by simp
  then show ?thesis by (simp add: ratio_of_def factors_def bit0)
qed

definition ceil32 :: "int \<Rightarrow> int" where
  "ceil32 x = x div 2 ^ 32 + (if x mod 2 ^ 32 = 0 then 0 else 1)"

lemma ceil32_code: "drop_bit 32 x + (if x AND 0xffffffff = 0 then 0 else 1) = ceil32 x"
proof -
  have "x AND 0xffffffff = take_bit 32 x"
    by (simp add: take_bit_eq_mask mask_eq_exp_minus_1)
  then show ?thesis by (simp add: ceil32_def drop_bit_eq_div take_bit_eq_mod)
qed

lemma ceil32_alt: "ceil32 x = - ((- x) div 2 ^ 32)"
  by (simp add: ceil32_def zdiv_zminus1_eq_if)

lemma ceil32_mono: "x \<le> y \<Longrightarrow> ceil32 x \<le> ceil32 y"
  by (simp add: ceil32_alt zdiv_mono1)

lemma ceil32_less: "y + 2 ^ 32 \<le> x \<Longrightarrow> ceil32 y < ceil32 x"
proof -
  assume "y + 2 ^ 32 \<le> x"
  then have "ceil32 (y + 2 ^ 32) \<le> ceil32 x" by (rule ceil32_mono)
  moreover have "ceil32 (y + 2 ^ 32) = ceil32 y + 1" by (simp add: ceil32_def)
  ultimately show ?thesis by simp
qed

section \<open>Closed form\<close>

definition q128_of_tick :: "int \<Rightarrow> int" where
  "q128_of_tick t = (if t \<le> 0 then ratio_of (- t) else MAX_UINT256 div ratio_of t)"

lemma ratio_of_pos: "0 \<le> n \<Longrightarrow> n \<le> 887272 \<Longrightarrow> 18447437462383981825 \<le> ratio_of n"
  using ratio_of_less [of n 887272] ratio_of_MAX_TICK by (cases "n = 887272") auto

lemma getSqrtRatioAtTick_eq:
  assumes "\<bar>t\<bar> \<le> 887272"
  shows "getSqrtRatioAtTick t = Inr (ceil32 (q128_of_tick t))"
proof -
  have pos: "0 < ratio_of \<bar>t\<bar>" using ratio_of_pos [of "\<bar>t\<bar>"] assms by simp
  have ab: "(if t < 0 then - t else t) = \<bar>t\<bar>" by simp
  have "bindR (if t > 0 then bdiv MAX_UINT256 (ratio_of \<bar>t\<bar>) else Inr (ratio_of \<bar>t\<bar>)) f
        = f (q128_of_tick t)" for f :: "int \<Rightarrow> int res"
    using pos by (cases "t > 0") (simp_all add: bdiv_pos MAX_UINT256_def q128_of_tick_def)
  then show ?thesis
    unfolding getSqrtRatioAtTick_def ab Let_def
      loop_eq_ratio_of [OF abs_ge_zero, of t] ceil32_code
    using assms by (simp only: MAX_TICK_def) simp
qed

lemma getSqrtRatioAtTick_error:
  "\<bar>t\<bar> > 887272 \<Longrightarrow> getSqrtRatioAtTick t = Inl (JsError (''tick '' @ big_to_string t @ '' out of range''))"
  by (auto simp: getSqrtRatioAtTick_def MAX_TICK_def abs_if)

text \<open>Reciprocals of ratios \<open>2\<^sup>3\<^sup>4\<close> apart stay \<open>2\<^sup>3\<^sup>2\<close> apart.\<close>

lemma reciprocal_gap:
  assumes "0 < y" and "y + 2 ^ 34 \<le> x" and "x \<le> D"
  shows "MAX_UINT256 div x + 2 ^ 32 \<le> MAX_UINT256 div y"
proof -
  define k where "k = MAX_UINT256 div x"
  have x: "0 < x" using assms by simp
  have k: "k * x \<le> MAX_UINT256" unfolding k_def using x by (rule div_mult_le)
  have "(D - 1) * x \<le> (D - 1) * D" using assms(3) by (intro mult_left_mono) simp_all
  also have "\<dots> \<le> MAX_UINT256" by (simp add: MAX_UINT256_def)
  finally have kD: "D - 1 \<le> k" unfolding k_def using x by (simp add: le_div_iff)
  have "(k + 2 ^ 32) * y \<le> (k + 2 ^ 32) * (x - 2 ^ 34)"
    using assms kD by (intro mult_left_mono) simp_all
  also have "\<dots> = k * x - k * 2 ^ 34 + 2 ^ 32 * x - 2 ^ 66" by (simp add: algebra_simps)
  also have "\<dots> \<le> MAX_UINT256" using k kD assms(3) by simp
  finally show ?thesis unfolding k_def [symmetric] using assms(1) by (simp add: le_div_iff)
qed

lemma q128_of_tick_nonneg: "0 \<le> t \<Longrightarrow> ceil32 (q128_of_tick t) = ceil32 (MAX_UINT256 div ratio_of t)"
  by (cases "t = 0") (simp_all add: q128_of_tick_def ratio_of_0 MAX_UINT256_def ceil32_def)

lemma q128_of_tick_less:
  assumes "-887272 \<le> a" and "a < b" and "b \<le> 887272"
  shows "ceil32 (q128_of_tick a) < ceil32 (q128_of_tick b)"
proof -
  consider "b \<le> 0" | "0 \<le> a" | "a < 0" "0 < b" by linarith
  then show ?thesis
  proof cases
    case 1
    then have "q128_of_tick a + 2 ^ 34 \<le> q128_of_tick b"
      using ratio_of_less [of "- b" "- a"] assms by (simp add: q128_of_tick_def)
    then show ?thesis by (intro ceil32_less) simp
  next
    case 2
    have "MAX_UINT256 div ratio_of a + 2 ^ 32 \<le> MAX_UINT256 div ratio_of b"
      using ratio_of_less [of a b] ratio_of_pos [of b] ratio_of_le_D [of a] assms 2
      by (intro reciprocal_gap) simp_all
    then have "ceil32 (MAX_UINT256 div ratio_of a) < ceil32 (MAX_UINT256 div ratio_of b)"
      by (rule ceil32_less)
    with 2 assms(2) show ?thesis by (simp add: q128_of_tick_nonneg)
  next
    case 3
    have "q128_of_tick a + 2 ^ 34 \<le> D"
      using ratio_of_less [of 0 "- a"] assms 3 by (simp add: q128_of_tick_def ratio_of_0)
    moreover have "MAX_UINT256 div D + 2 ^ 32 \<le> MAX_UINT256 div ratio_of b"
      using ratio_of_less [of 0 b] ratio_of_pos [of b] assms 3
      by (intro reciprocal_gap) (simp_all add: ratio_of_0)
    ultimately have "q128_of_tick a + 2 ^ 32 \<le> q128_of_tick b"
      using 3 by (simp add: q128_of_tick_def MAX_UINT256_def)
    then show ?thesis by (rule ceil32_less)
  qed
qed

lemma q128_extremes:
  "ceil32 (q128_of_tick (-887272)) = 4295128739"
  "ceil32 (q128_of_tick 887272) = 1461446703485210103287273052203988822378723970342"
  by (simp_all add: q128_of_tick_def ratio_of_MAX_TICK ceil32_def MAX_UINT256_def)

lemma q128_range:
  assumes "\<bar>t\<bar> \<le> 887272"
  shows "4295128739 \<le> ceil32 (q128_of_tick t)"
    and "ceil32 (q128_of_tick t) \<le> 1461446703485210103287273052203988822378723970342"
proof -
  show "4295128739 \<le> ceil32 (q128_of_tick t)"
    using q128_of_tick_less [of "-887272" t] assms q128_extremes
    by (cases "t = -887272") (auto simp: abs_if split: if_splits)
  show "ceil32 (q128_of_tick t) \<le> 1461446703485210103287273052203988822378723970342"
    using q128_of_tick_less [of t 887272] assms q128_extremes
    by (cases "t = 887272") (auto simp: abs_if split: if_splits)
qed

section \<open>Properties\<close>

text \<open>
  The tick to square-root-price conversion is total exactly on the protocol's tick range
  (an error outside it), strictly increasing there, and its values are bounded by the
  protocol's minimum and maximum square-root prices.
\<close>

theorem getSqrtRatioAtTick_strict_mono:
  assumes "MIN_TICK \<le> a" and "a < b" and "b \<le> MAX_TICK"
  shows "\<exists>x y. getSqrtRatioAtTick a = Inr x \<and> getSqrtRatioAtTick b = Inr y \<and>
           4295128739 \<le> x \<and> x < y \<and> y \<le> 1461446703485210103287273052203988822378723970342 \<and>
           getSqrtRatioAtTick (MAX_TICK + 1)
             = Inl (JsError (''tick '' @ big_to_string (MAX_TICK + 1) @ '' out of range'')) \<and>
           getSqrtRatioAtTick (MIN_TICK - 1)
             = Inl (JsError (''tick '' @ big_to_string (MIN_TICK - 1) @ '' out of range''))"
proof -
  have r: "-887272 \<le> a" "b \<le> 887272" using assms by (simp_all add: MIN_TICK_def MAX_TICK_def)
  with assms(2) have ab: "\<bar>a\<bar> \<le> 887272" "\<bar>b\<bar> \<le> 887272" by simp_all
  show ?thesis
    using q128_of_tick_less [OF r(1) assms(2) r(2)] q128_range(1) [OF ab(1)] q128_range(2) [OF ab(2)]
    by (simp add: getSqrtRatioAtTick_eq [OF ab(1)] getSqrtRatioAtTick_eq [OF ab(2)]
        getSqrtRatioAtTick_error MIN_TICK_def MAX_TICK_def)
qed

theorem getSqrtRatioAtTick_strict_mono_witness:
  "\<exists>x y. getSqrtRatioAtTick (-60) = Inr x \<and> getSqrtRatioAtTick 120 = Inr y \<and> x < y"
proof -
  have h: "MIN_TICK \<le> -60" "(-60::int) < 120" "120 \<le> MAX_TICK"
    by (simp_all add: MIN_TICK_def MAX_TICK_def)
  show ?thesis using getSqrtRatioAtTick_strict_mono [OF h] by blast
qed

end
