(* ===== verification/LiquidityMath.thy ===== *)
theory LiquidityMath
  imports TickPrice
begin

text \<open>
  What the liquidity formulas of \<open>src/lib/clmath.ts\<close> promise: an amount never funds more
  liquidity than it can pay for, the slippage minimums hold at every price of the band, a
  deposit sized with slippage never pulls more than was typed, and previewing a deposit on a
  valid range never divides by zero.
\<close>

section \<open>Normal forms on a clamped price\<close>

definition clamp :: "int \<Rightarrow> int \<Rightarrow> int \<Rightarrow> int" where
  "clamp A B p = max A (min p B)"

definition amt0 :: "int \<Rightarrow> int \<Rightarrow> int \<Rightarrow> int \<Rightarrow> int" where
  "amt0 A B L p = L * Q96 * (B - clamp A B p) div (B * clamp A B p)"

definition amt1 :: "int \<Rightarrow> int \<Rightarrow> int \<Rightarrow> int \<Rightarrow> int" where
  "amt1 A B L p = L * (clamp A B p - A) div Q96"

lemma Q96_pos [simp]: "0 < Q96" "0 \<le> Q96" "Q96 \<noteq> 0" by (simp_all add: Q96_def)

lemma clamp_bounds: "A \<le> B \<Longrightarrow> A \<le> clamp A B p \<and> clamp A B p \<le> B"
  by (simp add: clamp_def)

lemma clamp_mono: "p \<le> q \<Longrightarrow> clamp A B p \<le> clamp A B q"
  by (auto simp: clamp_def)

lemma amount0For_eq:
  assumes "0 < A" and "A \<le> B" and "0 \<le> L"
  shows "amount0For A B L = Inr (L * Q96 * (B - A) div (B * A))"
proof -
  have B: "0 < B" and n: "0 \<le> L * Q96 * (B - A)" using assms by simp_all
  then have "0 \<le> L * Q96 * (B - A) div B" by (simp only: pos_imp_zdiv_nonneg_iff)
  with B n assms(1) show ?thesis
    by (simp only: amount0For_def bdiv_pos bindR_simps) (simp add: zdiv_zmult2_eq)
qed

lemma amount1For_eq: "A \<le> B \<Longrightarrow> 0 \<le> L \<Longrightarrow> amount1For A B L = L * (B - A) div Q96"
  by (simp add: amount1For_def sdiv_nonneg less_imp_le)

lemma getAmounts_eq:
  assumes "0 < A" and "A \<le> B" and "0 \<le> L"
  shows "getAmountsForLiquidity p A B L = Inr \<lparr>amount0 = amt0 A B L p, amount1 = amt1 A B L p\<rparr>"
proof -
  consider "L = 0" | "L \<noteq> 0" "p \<le> A" | "L \<noteq> 0" "A < p" "B \<le> p" | "L \<noteq> 0" "A < p" "p < B"
    by linarith
  then show ?thesis
  proof cases
    case 1
    then show ?thesis using assms by (simp add: getAmountsForLiquidity_def amt0_def amt1_def)
  next
    case 2
    then have "clamp A B p = A" using assms by (simp add: clamp_def)
    with 2 show ?thesis
      using assms by (simp add: getAmountsForLiquidity_def amt0_def amt1_def amount0For_eq)
  next
    case 3
    then have "clamp A B p = B" using assms by (simp add: clamp_def)
    with 3 show ?thesis
      using assms by (simp add: getAmountsForLiquidity_def amt0_def amt1_def amount1For_eq)
  next
    case 4
    then have "clamp A B p = p" using assms by (simp add: clamp_def)
    with 4 show ?thesis
      using assms
      by (simp add: getAmountsForLiquidity_def amt0_def amt1_def amount0For_eq amount1For_eq)
  qed
qed

lemma getAmounts_swap: "getAmountsForLiquidity p A B L = getAmountsForLiquidity p B A L"
  by (cases "A = B") (auto simp: getAmountsForLiquidity_def)

lemma getLiquidity_swap: "getLiquidityForAmounts p A B a b = getLiquidityForAmounts p B A a b"
  by (cases "A = B") (auto simp: getLiquidityForAmounts_def)

section \<open>Monotonicity\<close>

lemma amt0_antimono:
  assumes "0 < A" and "A \<le> B" and "0 \<le> L" and "p \<le> q"
  shows "amt0 A B L q \<le> amt0 A B L p"
proof -
  define c d where "c = clamp A B p" and "d = clamp A B q"
  have c: "0 < c" "c \<le> d" "d \<le> B"
    using assms clamp_bounds [of A B p] clamp_bounds [of A B q] clamp_mono [OF assms(4), of A B]
    by (simp_all add: c_def d_def)
  then have B: "0 < B * c" "0 < B * d" using assms by simp_all
  define k where "k = L * Q96 * (B - d) div (B * d)"
  have k0: "0 \<le> k" unfolding k_def using assms c B by (simp add: pos_imp_zdiv_nonneg_iff)
  have "k * (B * c) \<le> k * (B * d)" using k0 assms c by (intro mult_left_mono) simp_all
  also have "\<dots> \<le> L * Q96 * (B - d)" unfolding k_def using B(2) by (rule div_mult_le)
  also have "\<dots> \<le> L * Q96 * (B - c)" using assms c by (intro mult_left_mono) (simp_all add: less_imp_le)
  finally have "k \<le> L * Q96 * (B - c) div (B * c)" using B(1) by (simp add: le_div_iff)
  then show ?thesis by (simp add: amt0_def k_def c_def d_def)
qed

lemma amt1_mono:
  assumes "A \<le> B" and "0 \<le> L" and "p \<le> q"
  shows "amt1 A B L p \<le> amt1 A B L q"
  unfolding amt1_def using assms clamp_mono [OF assms(3), of A B]
  by (intro zdiv_mono1 mult_left_mono) simp_all

lemma amt0_mono_L:
  "0 < A \<Longrightarrow> A \<le> B \<Longrightarrow> L \<le> M \<Longrightarrow> amt0 A B L p \<le> amt0 A B M p"
  unfolding amt0_def using clamp_bounds [of A B p]
  by (intro zdiv_mono1 mult_right_mono) (simp_all add: less_imp_le)

lemma amt1_mono_L: "A \<le> B \<Longrightarrow> L \<le> M \<Longrightarrow> amt1 A B L p \<le> amt1 A B M p"
  unfolding amt1_def using clamp_bounds [of A B p]
  by (intro zdiv_mono1 mult_right_mono) simp_all

lemma amt_ge_0: "0 < A \<Longrightarrow> A \<le> B \<Longrightarrow> 0 \<le> L \<Longrightarrow> 0 \<le> amt0 A B L p \<and> 0 \<le> amt1 A B L p"
  unfolding amt0_def amt1_def using clamp_bounds [of A B p]
  by (simp add: pos_imp_zdiv_nonneg_iff)

section \<open>Liquidity an amount can pay for\<close>

lemma liquidity0_eq:
  "0 < A \<Longrightarrow> A < B \<Longrightarrow> 0 \<le> a \<Longrightarrow> liquidity0 A B a = a * A * B div (Q96 * (B - A))"
  by (simp add: liquidity0_def sdiv_nonneg pos_imp_zdiv_nonneg_iff zdiv_zmult2_eq less_imp_le)

lemma liquidity1_eq: "A < B \<Longrightarrow> 0 \<le> a \<Longrightarrow> liquidity1 A B a = a * Q96 div (B - A)"
  by (simp add: liquidity1_def sdiv_nonneg less_imp_le)

lemma liquidity0_ge_0: "0 < A \<Longrightarrow> A \<le> B \<Longrightarrow> 0 \<le> a \<Longrightarrow> 0 \<le> liquidity0 A B a"
  by (cases "A = B") (simp_all add: liquidity0_def sdiv_ge_0 less_imp_le)

lemma liquidity1_ge_0: "A \<le> B \<Longrightarrow> 0 \<le> a \<Longrightarrow> 0 \<le> liquidity1 A B a"
  by (cases "A = B") (simp_all add: liquidity1_def sdiv_ge_0 less_imp_le)

lemma pays0:
  assumes "0 < A" and "A < B" and "0 \<le> a" and "0 \<le> L" and "L \<le> liquidity0 A B a"
  shows "L * Q96 * (B - A) div (B * A) \<le> a"
proof -
  have d: "0 < Q96 * (B - A)" using assms by simp
  have "L * (Q96 * (B - A)) \<le> a * A * B"
    using assms(5) unfolding liquidity0_eq [OF assms(1-3)] using d by (simp add: le_div_iff)
  moreover have pos: "0 < B * A" using assms by simp
  moreover have "(a + 1) * (B * A) = a * A * B + B * A" by (simp add: distrib_right)
  ultimately have "L * Q96 * (B - A) < (a + 1) * (B * A)" by (simp add: mult.assoc)
  then have "L * Q96 * (B - A) div (B * A) < a + 1" using pos by (simp only: div_less_iff)
  then show ?thesis by simp
qed

lemma pays1:
  assumes "A < B" and "0 \<le> a" and "0 \<le> L" and "L \<le> liquidity1 A B a"
  shows "L * (B - A) div Q96 \<le> a"
proof -
  have "L * (B - A) \<le> a * Q96"
    using assms(4) unfolding liquidity1_eq [OF assms(1,2)] using assms(1) by (simp add: le_div_iff)
  then have "L * (B - A) div Q96 \<le> a * Q96 div Q96" by (intro zdiv_mono1) simp_all
  then show ?thesis by simp
qed

text \<open>The liquidity two amounts fund, on an ordered range, pays for itself with them.\<close>

lemma getLiquidity_pays:
  assumes "0 < A" and "A \<le> B" and "0 \<le> a" and "0 \<le> b"
    and L_def: "L = getLiquidityForAmounts p A B a b"
  shows "0 \<le> L \<and> amt0 A B L p \<le> a \<and> amt1 A B L p \<le> b"
proof (cases "A = B")
  case True
  then have c: "clamp A B p = B" by (simp add: clamp_def)
  have "L = 0" unfolding L_def getLiquidityForAmounts_def liquidity0_def liquidity1_def using True
    by simp
  then show ?thesis using assms(3,4) by (simp add: amt0_def amt1_def)
next
  case False
  with assms(2) have AB: "A < B" by simp
  consider "p \<le> A" | "A < p" "B \<le> p" | "A < p" "p < B" by linarith
  then show ?thesis
  proof cases
    case 1
    then have L: "L = liquidity0 A B a" and c: "clamp A B p = A"
      using AB by (simp_all add: L_def getLiquidityForAmounts_def clamp_def)
    then show ?thesis
      using pays0 [OF assms(1) AB assms(3), of L] liquidity0_ge_0 [of A B a] assms AB
      by (simp add: amt0_def amt1_def)
  next
    case 2
    then have L: "L = liquidity1 A B b" and c: "clamp A B p = B"
      using AB by (simp_all add: L_def getLiquidityForAmounts_def clamp_def)
    then show ?thesis
      using pays1 [OF AB assms(4), of L] liquidity1_ge_0 [of A B b] assms AB
      by (simp add: amt0_def amt1_def)
  next
    case 3
    then have c: "clamp A B p = p" by (simp add: clamp_def)
    have L: "L \<le> liquidity0 p B a" "L \<le> liquidity1 A p b" "0 \<le> L"
      using AB 3 assms liquidity0_ge_0 [of p B a] liquidity1_ge_0 [of A p b]
      by (auto simp: L_def getLiquidityForAmounts_def Let_def)
    show ?thesis
      using pays0 [of p B a L] pays1 [of A p b L] L 3 assms
      by (simp add: amt0_def amt1_def c)
  qed
qed

section \<open>The slippage band\<close>

lemma SCALE_pos: "0 < SCALE" by (simp add: SCALE_def)

text \<open>The two rounded edges of a band enclose every price of it.\<close>

lemma band_lo:
  assumes "p * dn \<le> q * SCALE" and "0 \<le> q"
  shows "(p * dn) sdiv SCALE \<le> q"
proof (cases "0 \<le> p * dn")
  case True
  have "p * dn div SCALE \<le> q"
    using div_mult_le [OF SCALE_pos, of "p * dn"] assms(1) SCALE_pos
    by (metis mult_le_cancel_right_pos order_trans)
  with True show ?thesis using SCALE_pos by (simp add: sdiv_nonneg)
next
  case False
  then have "(p * dn) sdiv SCALE \<le> 0"
    using SCALE_pos by (simp add: signed_divide_int_def sgn_if div_int_pos_iff)
  with assms(2) show ?thesis by linarith
qed

lemma band_hi:
  assumes "q * SCALE \<le> p * up" and "0 \<le> q"
  shows "q \<le> (p * up) sdiv SCALE"
proof -
  have "0 \<le> q * SCALE" using assms(2) SCALE_pos by simp
  with assms(1) have "0 \<le> p * up" by linarith
  then have "(p * up) sdiv SCALE = p * up div SCALE" using SCALE_pos by (simp add: sdiv_nonneg)
  with assms(1) SCALE_pos show ?thesis by (simp add: le_div_iff)
qed

lemma amt_clamp_hi: "A \<le> B \<Longrightarrow> amt0 A B L (if B < h then B else h) = amt0 A B L h"
  by (auto simp: amt0_def clamp_def)

lemma amt_clamp_lo: "A \<le> B \<Longrightarrow> amt1 A B L (if l < A then A else l) = amt1 A B L l"
  by (auto simp: amt1_def clamp_def)

text \<open>Liquidity sized at one edge is paid for at every price above, respectively below, it.\<close>

lemma sized_lo:
  assumes "0 < A" and "A < B" and "A \<le> l" and "l \<le> q" and "0 \<le> a" and "0 \<le> L"
    and "L \<le> getLiquidityForAmounts l A B a u"
  shows "amt0 A B L q \<le> a"
proof (cases "l < B")
  case True
  have "L \<le> liquidity0 l B a"
    using assms True by (auto simp: getLiquidityForAmounts_def Let_def split: if_splits)
  then have "amt0 A B L l \<le> a"
    using pays0 [of l B a L] assms True by (simp add: amt0_def clamp_def max_def min_def)
  moreover have "amt0 A B L q \<le> amt0 A B L l"
    using assms by (intro amt0_antimono) simp_all
  ultimately show ?thesis by linarith
next
  case False
  then have "clamp A B q = B" using assms by (simp add: clamp_def)
  then show ?thesis using assms by (simp add: amt0_def)
qed

lemma sized_hi:
  assumes "0 < A" and "A < B" and "h \<le> B" and "q \<le> h" and "0 \<le> b" and "0 \<le> L"
    and "L \<le> getLiquidityForAmounts h A B u b"
  shows "amt1 A B L q \<le> b"
proof (cases "A < h")
  case True
  have "L \<le> liquidity1 A h b"
    using assms True by (auto simp: getLiquidityForAmounts_def Let_def split: if_splits)
  then have "amt1 A B L h \<le> b"
    using pays1 [of A h b L] assms True by (simp add: amt1_def clamp_def max_def min_def)
  moreover have "amt1 A B L q \<le> amt1 A B L h"
    using assms by (intro amt1_mono) simp_all
  ultimately show ?thesis by linarith
next
  case False
  then have "clamp A B q = A" using assms by (simp add: clamp_def)
  then show ?thesis using assms by (simp add: amt1_def)
qed

lemma getLiquidity_ge_0:
  assumes "0 < A" and "A < B" and "0 \<le> a" and "0 \<le> b"
  shows "0 \<le> getLiquidityForAmounts p A B a b"
  using assms liquidity0_ge_0 [of A B a] liquidity1_ge_0 [of A B b]
    liquidity0_ge_0 [of p B a] liquidity1_ge_0 [of A p b]
  by (auto simp: getLiquidityForAmounts_def Let_def)

lemma slippage_le:
  "liquidityForAmountsWithSlippage p A B a b s \<le> getLiquidityForAmounts l A B a UNBOUNDED"
  "liquidityForAmountsWithSlippage p A B a b s \<le> getLiquidityForAmounts h A B UNBOUNDED b"
  if "A < B"
    and "(l, h) = (if p \<le> A then (A, A) else if B \<le> p then (B, B)
                   else (max A ((p * slip_dn s) sdiv SCALE), min B ((p * slip_up s) sdiv SCALE)))"
  using that
  by (auto simp: liquidityForAmountsWithSlippage_def Let_def max_def min_def not_less not_le
      split: if_splits)

lemma slippage_ge_0:
  assumes "0 < A" and "A < B" and "0 \<le> a" and "0 \<le> b"
  shows "0 \<le> liquidityForAmountsWithSlippage p A B a b s"
proof -
  have "0 \<le> UNBOUNDED" by (simp add: UNBOUNDED_def)
  with getLiquidity_ge_0 [OF assms(1,2)] assms(3,4) show ?thesis
    using assms(2) by (auto simp: liquidityForAmountsWithSlippage_def Let_def)
qed

section \<open>Properties\<close>

text \<open>
  C18. No overspend: whatever the order of the two range bounds and wherever the price is,
  the liquidity the code says two amounts fund costs at most those amounts when it is
  converted back at the same price, and converting it back never throws.
\<close>

theorem liquidity_roundtrip_no_overspend:
  assumes "0 < A" and "0 < B" and "0 \<le> a" and "0 \<le> b"
  shows "\<exists>m. getAmountsForLiquidity p A B (getLiquidityForAmounts p A B a b) = Inr m \<and>
           0 \<le> amount0 m \<and> amount0 m \<le> a \<and> 0 \<le> amount1 m \<and> amount1 m \<le> b"
proof -
  have main: "\<exists>m. getAmountsForLiquidity p X Y (getLiquidityForAmounts p X Y a b) = Inr m \<and>
      0 \<le> amount0 m \<and> amount0 m \<le> a \<and> 0 \<le> amount1 m \<and> amount1 m \<le> b"
    if "0 < X" "X \<le> Y" for X Y
    using getLiquidity_pays [OF that assms(3,4) refl, of p] amt_ge_0 [OF that]
    by (simp add: getAmounts_eq [OF that])
  show ?thesis
  proof (cases "A \<le> B")
    case True
    then show ?thesis using main [of A B] assms(1) by simp
  next
    case False
    then show ?thesis
      using main [of B A] assms(2)
      by (simp add: getAmounts_swap [of p A B] getLiquidity_swap [of p A B])
  qed
qed

theorem liquidity_roundtrip_no_overspend_witness:
  "\<exists>m. getAmountsForLiquidity Q96 (2 * Q96) 1 (getLiquidityForAmounts Q96 (2 * Q96) 1 1000 999)
       = Inr m \<and> amount0 m \<le> 1000 \<and> amount1 m \<le> 999"
  using liquidity_roundtrip_no_overspend [of "2 * Q96" 1 1000 999 Q96] by auto

text \<open>
  The slippage minimums hold on the whole band: at every price the rounded band edges
  allow, the amounts the liquidity is worth are at least the two minimums the transaction
  carries, so a price move inside the tolerance cannot make the pool operation revert.
\<close>

theorem minAmounts_hold_in_band:
  assumes "0 < A" and "A \<le> B" and "0 \<le> L" and "0 \<le> q"
    and "p * slip_dn s \<le> q * SCALE" and "q * SCALE \<le> p * slip_up s"
  shows "\<exists>mins m. minAmountsForLiquidity p A B L s = Inr mins \<and>
           getAmountsForLiquidity q A B L = Inr m \<and>
           0 \<le> fst mins \<and> fst mins \<le> amount0 m \<and> 0 \<le> snd mins \<and> snd mins \<le> amount1 m"
proof -
  define h l where "h = (p * slip_up s) sdiv SCALE" and "l = (p * slip_dn s) sdiv SCALE"
  have lq: "l \<le> q" "q \<le> h"
    using band_lo [OF assms(5,4)] band_hi [OF assms(6,4)] by (simp_all add: l_def h_def)
  have "minAmountsForLiquidity p A B L s = Inr (amt0 A B L h, amt1 A B L l)"
    using assms(2) getAmounts_eq [OF assms(1-3)] amt_clamp_hi [OF assms(2)] amt_clamp_lo [OF assms(2)]
    by (simp add: minAmountsForLiquidity_def Let_def h_def l_def)
  moreover have "amt0 A B L h \<le> amt0 A B L q" "amt1 A B L l \<le> amt1 A B L q"
    using amt0_antimono [OF assms(1-3) lq(2)] amt1_mono [OF assms(2,3) lq(1)] .
  ultimately show ?thesis
    using getAmounts_eq [OF assms(1-3)] amt_ge_0 [OF assms(1-3)] by simp
qed

theorem minAmounts_hold_in_band_witness:
  "\<exists>mins m. minAmountsForLiquidity 1000000 990000 1010000 (10 ^ 9) 50 = Inr mins \<and>
     getAmountsForLiquidity 1001000 990000 1010000 (10 ^ 9) = Inr m \<and>
     fst mins \<le> amount0 m \<and> snd mins \<le> amount1 m"
proof -
  have h: "1000000 * slip_dn 50 \<le> 1001000 * SCALE" "1001000 * SCALE \<le> 1000000 * slip_up 50"
    by code_simp+
  show ?thesis using minAmounts_hold_in_band [OF _ _ _ _ h, of 990000 1010000 "10 ^ 9"] by auto
qed

text \<open>
  A deposit sized with slippage never pulls more than was typed: at every price of the
  band on the side of the range the price was on (inside, below or above it), the amounts of
  the computed liquidity are at most the two typed amounts.
\<close>

theorem slippage_deposit_capped:
  assumes "0 < A" and "A < B" and "0 \<le> a" and "0 \<le> b" and "0 \<le> q"
    and "p * slip_dn s \<le> q * SCALE" and "q * SCALE \<le> p * slip_up s"
    and "p \<le> A \<Longrightarrow> q \<le> A" and "B \<le> p \<Longrightarrow> B \<le> q"
  shows "\<exists>m. getAmountsForLiquidity q A B (liquidityForAmountsWithSlippage p A B a b s) = Inr m \<and>
           amount0 m \<le> a \<and> amount1 m \<le> b"
proof -
  define L where "L = liquidityForAmountsWithSlippage p A B a b s"
  have L0: "0 \<le> L" unfolding L_def using assms by (intro slippage_ge_0)
  obtain l h where lh: "(l, h) = (if p \<le> A then (A, A) else if B \<le> p then (B, B)
      else (max A ((p * slip_dn s) sdiv SCALE), min B ((p * slip_up s) sdiv SCALE)))"
    by (metis surj_pair)
  note le = slippage_le [OF assms(2) lh, of a b, folded L_def]
  have band: "(p * slip_dn s) sdiv SCALE \<le> q" "q \<le> (p * slip_up s) sdiv SCALE"
    using band_lo [OF assms(6,5)] band_hi [OF assms(7,5)] .
  have c: "clamp A B q = clamp A B (max q l)" "clamp A B q = clamp A B (min q h)"
    "A \<le> l" "h \<le> B"
    using lh band assms(2,8,9) by (auto simp: clamp_def max_def min_def split: if_splits)
  have "amt0 A B L (max q l) \<le> a" "amt1 A B L (min q h) \<le> b"
    using sized_lo [OF assms(1,2) c(3) _ assms(3) L0 le(1)]
      sized_hi [OF assms(1,2) c(4) _ assms(4) L0 le(2)] by simp_all
  then have "amt0 A B L q \<le> a" "amt1 A B L q \<le> b"
    using c(1,2) by (simp_all add: amt0_def amt1_def)
  then show ?thesis using getAmounts_eq [of A B L q] assms(1,2) L0 by (simp add: L_def)
qed

theorem slippage_deposit_capped_witness:
  "\<exists>m. getAmountsForLiquidity 999000 990000 1010000
         (liquidityForAmountsWithSlippage 1000000 990000 1010000 5000 7000 50) = Inr m \<and>
       amount0 m \<le> 5000 \<and> amount1 m \<le> 7000"
proof -
  have h: "1000000 * slip_dn 50 \<le> 999000 * SCALE" "999000 * SCALE \<le> 1000000 * slip_up 50"
    by code_simp+
  show ?thesis
    using slippage_deposit_capped [OF _ _ _ _ _ h, of 990000 1010000 5000 7000] by simp
qed

text \<open>
  Previewing a deposit on a valid tick range never throws; it answers nothing exactly when
  the typed token is the one the range does not take at that price, and otherwise the typed
  amount is kept as it is and the previewed liquidity costs at most the two shown amounts.
\<close>

theorem previewDeposit_total:
  assumes "MIN_TICK \<le> lo" and "lo < up" and "up \<le> MAX_TICK" and "0 \<le> x"
  shows "\<exists>sa sb r. getSqrtRatioAtTick lo = Inr sa \<and> getSqrtRatioAtTick up = Inr sb \<and>
           previewDeposit p lo up x is0 = Inr r \<and>
           (r = None \<longleftrightarrow> (p \<le> sa \<and> \<not> is0) \<or> (sb \<le> p \<and> is0)) \<and>
           (case r of None \<Rightarrow> True
            | Some d \<Rightarrow> (if is0 then amount0 d = x else amount1 d = x) \<and>
                (case getAmountsForLiquidity p sa sb (liquidity d) of
                   Inl _ \<Rightarrow> False
                 | Inr m \<Rightarrow> amount0 m \<le> amount0 d \<and> amount1 m \<le> amount1 d))"
proof -
  have ticks: "-887272 \<le> lo" "up \<le> 887272" using assms by (simp_all add: MIN_TICK_def MAX_TICK_def)
  with assms(2) have abs: "\<bar>lo\<bar> \<le> 887272" "\<bar>up\<bar> \<le> 887272" by simp_all
  obtain sa sb where sa: "getSqrtRatioAtTick lo = Inr sa" and sb: "getSqrtRatioAtTick up = Inr sb"
    and ord: "0 < sa" "sa < sb"
    using getSqrtRatioAtTick_eq [OF abs(1)] getSqrtRatioAtTick_eq [OF abs(2)]
      q128_of_tick_less [OF ticks(1) assms(2) ticks(2)] q128_range(1) [OF abs(1)] by auto
  consider "p \<le> sa" | "sa < p" "sb \<le> p" | "sa < p" "p < sb" by linarith
  then show ?thesis
  proof cases
    case 1
    define L where "L = liquidity0 sa sb x"
    have "0 \<le> L" "amt0 sa sb L p \<le> x" "amt1 sa sb L p = 0"
      using liquidity0_ge_0 [of sa sb x] pays0 [of sa sb x L] ord 1 assms(4)
      by (simp_all add: L_def amt0_def amt1_def clamp_def)
    then show ?thesis
      using 1 ord sa sb
      by (cases is0) (simp_all add: previewDeposit_def getAmounts_eq L_def [symmetric])
  next
    case 2
    define L where "L = liquidity1 sa sb x"
    have "0 \<le> L" "amt1 sa sb L p \<le> x" "amt0 sa sb L p = 0"
      using liquidity1_ge_0 [of sa sb x] pays1 [of sa sb x L] ord 2 assms(4)
      by (simp_all add: L_def amt0_def amt1_def clamp_def)
    then show ?thesis
      using 2 ord sa sb
      by (cases is0) (simp_all add: previewDeposit_def getAmounts_eq L_def [symmetric])
  next
    case 3
    define L0 L1 where "L0 = liquidity0 p sb x" and "L1 = liquidity1 sa p x"
    have L: "0 \<le> L0" "amt0 sa sb L0 p \<le> x" "0 \<le> L1" "amt1 sa sb L1 p \<le> x"
      using liquidity0_ge_0 [of p sb x] pays0 [of p sb x L0]
        liquidity1_ge_0 [of sa p x] pays1 [of sa p x L1] ord 3 assms(4)
      by (simp_all add: L0_def L1_def amt0_def amt1_def clamp_def)
    then have "amount1For sa p L0 = amt1 sa sb L0 p" "amount0For p sb L1 = Inr (amt0 sa sb L1 p)"
      using 3 ord by (simp_all add: amount1For_eq amount0For_eq amt1_def amt0_def clamp_def)
    then show ?thesis
      using 3 ord sa sb L
      by (cases is0)
        (simp_all add: previewDeposit_def getAmounts_eq Let_def L0_def [symmetric] L1_def [symmetric])
  qed
qed

theorem previewDeposit_total_witness:
  "\<exists>r. previewDeposit Q96 (-600) 600 (10 ^ 18) True = Inr r"
proof -
  have h: "MIN_TICK \<le> -600" "(-600::int) < 600" "600 \<le> MAX_TICK" "(0::int) \<le> 10 ^ 18"
    by (simp_all add: MIN_TICK_def MAX_TICK_def)
  show ?thesis using previewDeposit_total [OF h, of Q96 True] by blast
qed

text \<open>
  Tick alignment: for every spacing the protocol's tick range can hold, the aligned tick
  is a multiple of the spacing inside the full range of that spacing; a tick inside the full
  range moves by less than one spacing, down in floor mode and up in ceil mode.
\<close>

theorem alignTick_aligned:
  assumes "0 < spacing" and "spacing \<le> MAX_TICK"
  shows "spacing dvd alignTick t spacing mode \<and>
         fst (fullRangeTicks spacing) \<le> alignTick t spacing mode \<and>
         alignTick t spacing mode \<le> snd (fullRangeTicks spacing) \<and>
         MIN_TICK \<le> fst (fullRangeTicks spacing) \<and> snd (fullRangeTicks spacing) \<le> MAX_TICK \<and>
         (fst (fullRangeTicks spacing) \<le> t \<and> t \<le> snd (fullRangeTicks spacing) \<longrightarrow>
            (if mode = Floor then alignTick t spacing mode \<le> t \<and> t < alignTick t spacing mode + spacing
             else t \<le> alignTick t spacing mode \<and> alignTick t spacing mode < t + spacing))"
proof -
  have fl: "floor_div x spacing * spacing \<le> x \<and> x < floor_div x spacing * spacing + spacing" for x
    using div_mult_le [OF assms(1), of x] div_mult_gt [OF assms(1), of x]
    by (simp add: floor_div_def distrib_right)
  have ce: "x \<le> ceil_div x spacing * spacing \<and> ceil_div x spacing * spacing < x + spacing" for x
    using div_mult_le [OF assms(1), of "- x"] div_mult_gt [OF assms(1), of "- x"]
    by (simp add: ceil_div_def distrib_right)
  have top: "0 \<le> floor_div MAX_TICK spacing * spacing" and bot: "ceil_div MIN_TICK spacing * spacing \<le> 0"
    using assms by (auto simp: floor_div_def ceil_div_def MIN_TICK_def MAX_TICK_def
        pos_imp_zdiv_nonneg_iff mult_le_0_iff)
  have dvd: "spacing dvd floor_div x spacing * spacing" "spacing dvd ceil_div x spacing * spacing" for x
    by simp_all
  have below: "floor_div t spacing * spacing \<ge> ceil_div MIN_TICK spacing * spacing"
    if "ceil_div MIN_TICK spacing * spacing \<le> t"
  proof -
    have "ceil_div MIN_TICK spacing \<le> t div spacing" using that assms(1) by (simp add: le_div_iff)
    then show ?thesis using assms(1) by (simp add: floor_div_def)
  qed
  have above: "ceil_div t spacing * spacing \<le> floor_div MAX_TICK spacing * spacing"
    if "t \<le> floor_div MAX_TICK spacing * spacing"
  proof -
    have "- floor_div MAX_TICK spacing \<le> (- t) div spacing" using that assms(1) by (simp add: le_div_iff)
    then have "ceil_div t spacing \<le> floor_div MAX_TICK spacing" by (simp add: ceil_div_def)
    then show ?thesis using assms(1) by simp
  qed
  define F C l h where "F = floor_div t spacing * spacing" and "C = ceil_div t spacing * spacing"
    and "l = ceil_div MIN_TICK spacing * spacing" and "h = floor_div MAX_TICK spacing * spacing"
  note abb = F_def [symmetric] C_def [symmetric] l_def [symmetric] h_def [symmetric]
  have "l \<le> h" using top bot unfolding abb by linarith
  moreover have "MIN_TICK \<le> l" "h \<le> MAX_TICK" "F \<le> t" "t < F + spacing" "t \<le> C" "C < t + spacing"
    "l \<le> t \<Longrightarrow> l \<le> F" "t \<le> h \<Longrightarrow> C \<le> h" "spacing dvd F" "spacing dvd C" "spacing dvd l" "spacing dvd h"
    using top bot fl [of t] ce [of t] fl [of MAX_TICK] ce [of MIN_TICK] below above
    unfolding abb by (auto simp: F_def C_def l_def h_def)
  ultimately show ?thesis
    unfolding alignTick_def fullRangeTicks_def Let_def
    by (cases mode) (simp_all add: abb max_def min_def)
qed

theorem alignTick_aligned_witness:
  "(60::int) dvd alignTick 887271 60 Ceil \<and> alignTick 887271 60 Ceil \<le> 887220"
proof -
  have h: "(0::int) < 60" "60 \<le> MAX_TICK" by (simp_all add: MAX_TICK_def)
  show ?thesis
    using alignTick_aligned [OF h, of 887271 Ceil] by (simp add: fullRangeTicks_def floor_div_def MAX_TICK_def)
qed

end
