(* ===== verification/Types.thy ===== *)
theory Types
  imports JsNumber
begin

text \<open>
  The data model of \<open>shared/strategy/types.ts\<close>: strategy configurations, chain-derived
  position snapshots, execution plans, trigger decisions and ledger entries, with the
  source's field order and the source's string unions as datatypes.

  Addresses, hashes and identifiers are \<open>string\<close>.  A field of type \<open>number\<close> that holds
  ticks, seconds, counters or basis points is an \<open>int\<close>; one that may hold a fraction is a
  \<open>rat\<close> (every finite double is a rational).  A decimal string that the code only writes
  with \<open>toString()\<close> and reads with \<open>BigInt()\<close> is the \<open>int\<close> it denotes.  An optional field is
  an \<open>option\<close>.  Record fields are prefixed where two records share a field name.
\<close>

section \<open>Configuration\<close>

datatype strategy_preset = Original | FeeGuarded | Defensive | Custom
datatype execution_mode = NotifyOnly | WalletConfirm | ExecutorAuto
datatype boundary_action = Recenter | SkewRecenter | HoldQuote | PauseAction
datatype plan_action = Boundary boundary_action | CollectFees
datatype boundary_condition = Always | FeeBreakEven | ManualConfirm
datatype fee_handling = ConvertToQuote | Reinvest | HoldTokens
datatype trigger_source = Spot | SampledTwap
datatype fee_timing = OnRebalance | Threshold | Interval
datatype range_mode = Symmetric | Asymmetric | FixedTicks

record boundary_policy =
  condition :: boundary_condition
  action :: boundary_action

record strategy_range =
  mode :: range_mode
  lowerPct :: rat
  upperPct :: rat
  range_tickLower :: "int option"
  range_tickUpper :: "int option"
  defensiveLowerPct :: "rat option"
  defensiveUpperPct :: "rat option"

record staking_config =
  staking_enabled :: bool
  staking_gauge :: "string option"
  rewardToken :: "string option"
  rewardQuoteToken :: "string option"

record trigger_config =
  source :: trigger_source
  pollSeconds :: int
  confirmationSeconds :: int
  cooldownMinutes :: int

record boundary_config =
  lower :: boundary_policy
  upper :: boundary_policy

record fees_config =
  handling :: fee_handling
  timing :: fee_timing
  thresholdQuote :: "string option"
  intervalMinutes :: "rat option"

record capital_protection =
  protection_enabled :: bool
  profitThresholdUsdg :: string

record adaptive_range =
  adaptive_enabled :: bool
  targetMinutes :: rat
  maxMultiplier :: rat
  recoveryDecay :: rat
  contractionReviewMinutes :: rat
  contractionStabilityMinutes :: rat
  contractionMaxVolatilityBps :: rat
  contractionFeeCoverage :: rat

record safeguards =
  safeguards_enabled :: bool
  minCrossingMinutes :: "rat option"
  minNetAprPct :: "rat option"
  minCycleFeeCoverage :: "rat option"
  economicsHoldMinutes :: "rat option"
  maxRebalancesPerDay :: "rat option"
  maxConsecutiveLowerBreaks :: "rat option"
  lowerBreakWindowMinutes :: "rat option"
  maxRiskAssetPct :: "rat option"
  maxSwapImpactBps :: "rat option"
  volatilityWindowSeconds :: "rat option"
  maxVolatilityBps :: "rat option"
  maxSpotTwapDeviationBps :: "rat option"
  stableMarketSeconds :: "rat option"
  burstWindowMinutes :: "rat option"
  burstTriggerCount :: "rat option"
  burstCooldownMinutes :: "rat option"
  maxSlippageBps :: rat
  maxPlanAgeSeconds :: int

record execution_config =
  execution_mode :: execution_mode
  executorId :: "string option"
  walletId :: "string option"
  signerAddress :: "string option"
  dryRun :: bool
  maxGasPriceWei :: "string option"
  maxGasQuotePerTx :: "string option"
  maxDailyTurnoverQuote :: "int option"
  gasReserveMultiplier :: rat
  lowTransactionMode :: bool

record strategy_config =
  cfg_id :: string
  cfg_name :: string
  preset :: strategy_preset
  sourcePreset :: strategy_preset
  enabled :: bool
  chainId :: int
  owner :: string
  protocol :: string
  pool :: string
  poolId :: "string option"
  hooks :: "string option"
  positionManager :: string
  activeTokenId :: "string option"
  riskToken :: string
  quoteToken :: string
  staking :: "staking_config option"
  range :: strategy_range
  trigger :: trigger_config
  boundary :: boundary_config
  fees :: fees_config
  capitalProtection :: capital_protection
  adaptiveRange :: adaptive_range
  safeguards :: safeguards
  execution :: execution_config
  revision :: int
  createdAt :: int
  updatedAt :: int

section \<open>Fables share-range strategies\<close>

record fables_position_ref =
  ref_poolId :: string
  ref_hook :: string
  rangeId :: string
  ref_tickLower :: int
  ref_tickUpper :: int

record fables_safeguards =
  f_maxSlippageBps :: rat
  f_maxSwapImpactBps :: rat
  f_maxRebalancesPerDay :: int
  f_maxPlanAgeSeconds :: int
  f_maxClaimFeeBps :: int
  f_allowLegacyUnboundedFeeExit :: bool
  f_minNativeGasReserveWei :: int

record fables_execution =
  f_mode :: execution_mode
  f_walletId :: "string option"
  f_signerAddress :: "string option"
  f_dryRun :: bool
  f_maxGasPriceWei :: "string option"
  f_maxDailyTurnoverQuote :: "int option"

record fables_strategy_config =
  f_id :: string
  f_name :: string
  f_enabled :: bool
  f_owner :: string
  f_poolManager :: string
  positionRef :: fables_position_ref
  f_riskToken :: string
  f_quoteToken :: string
  f_lowerPct :: rat
  f_upperPct :: rat
  f_pollSeconds :: int
  f_confirmationSeconds :: int
  f_cooldownMinutes :: int
  f_fees :: fee_handling
  f_safeguards :: fables_safeguards
  f_execution :: fables_execution
  f_revision :: int
  f_createdAt :: int
  f_updatedAt :: int

record fables_snapshot =
  fs_owner :: string
  fs_poolManager :: string
  fs_positionRef :: fables_position_ref
  currency0 :: string
  currency1 :: string
  currency0Decimals :: int
  currency1Decimals :: int
  fs_tickSpacing :: int
  observedBlock :: int
  fs_observedAt :: int
  fs_tick :: int
  fs_sqrtPriceX96 :: int
  shares :: int
  effectiveLiquidity :: int
  principal0 :: int
  principal1 :: int
  claimable0 :: int
  claimable1 :: int
  staked_shares :: int
  claimFeeBps :: int
  claimPaused :: bool

section \<open>Triggers, snapshots and plans\<close>

datatype trigger_side = Lower | Upper | Manual | AdaptiveContraction

datatype none_reason = InRange | Confirming | Cooldown | GuardNotMet

text \<open>The detail of a pause is the one string the code puts in it, when it puts one.\<close>

datatype trigger_decision =
  NoTrigger none_reason
| PauseTrigger strategy_error_code "(string \<times> string) option"
| ExecuteTrigger trigger_side boundary_action int

record position_snapshot =
  snap_chainId :: int
  observedAt :: int
  blockNumber :: int
  snap_owner :: string
  snap_protocol :: string
  snap_pool :: string
  snap_poolId :: "string option"
  snap_hooks :: "string option"
  snap_positionManager :: string
  tokenId :: string
  token0 :: string
  token1 :: string
  token0Decimals :: int
  token1Decimals :: int
  tickSpacing :: int
  feePpm :: int
  unstakedFeePpm :: int
  tick :: int
  sqrtPriceX96 :: int
  tickLower :: int
  tickUpper :: int
  snap_liquidity :: int
  tokensOwed0 :: int
  tokensOwed1 :: int
  staked :: "bool option"
  snap_gauge :: "string option"
  nftOwner :: "string option"
  rewardOwed :: "int option"
  rewardReadError :: "string option"

datatype step_kind =
  Precheck | Decrease | CollectStep | Burn | ApproveSwap | Swap | Approve0 | Approve1 | MintStep
| Revoke0 | Revoke1 | Commit | Unstake | ApproveReward | SwapReward | ApproveNft | Stake

text \<open>An intent maps names to strings, numbers and booleans; it is for the audit, not calldata.\<close>

datatype intent_value = IStr string | INum rat | IBool bool

record plan_step =
  step_index :: int
  step_kind :: step_kind
  step_intent :: "(string \<times> intent_value) list"

record execution_plan =
  plan_id :: string
  plan_hash :: string
  plan_strategyId :: string
  strategyRevision :: int
  plan_createdAt :: int
  expiresAt :: int
  triggerSide :: trigger_side
  manualExecution :: bool
  plan_action :: plan_action
  snapshot :: position_snapshot
  nextLower :: int
  nextUpper :: int
  rangeScale :: rat
  steps :: "plan_step list"
  plan_maxSlippageBps :: rat
  plan_maxPlanAgeSeconds :: int
  plan_dryRun :: bool

section \<open>Ledger\<close>

datatype ledger_kind =
  Deposit | Withdrawal | PrincipalExit | FeeGross | ProtocolFee | IncomeTax | SwapIn | SwapOut
| SwapCost | Gas | MintPrincipal | ProfitHarvest | ProfitWithdrawalSwapIn
| ProfitWithdrawalSwapOut | ProfitWithdrawal | ExternalCollect | StakingReward | Adjustment

fun kind_name :: "ledger_kind \<Rightarrow> string" where
  "kind_name Deposit = ''deposit''"
| "kind_name Withdrawal = ''withdrawal''"
| "kind_name PrincipalExit = ''principal_exit''"
| "kind_name FeeGross = ''fee_gross''"
| "kind_name ProtocolFee = ''protocol_fee''"
| "kind_name IncomeTax = ''income_tax''"
| "kind_name SwapIn = ''swap_in''"
| "kind_name SwapOut = ''swap_out''"
| "kind_name SwapCost = ''swap_cost''"
| "kind_name Gas = ''gas''"
| "kind_name MintPrincipal = ''mint_principal''"
| "kind_name ProfitHarvest = ''profit_harvest''"
| "kind_name ProfitWithdrawalSwapIn = ''profit_withdrawal_swap_in''"
| "kind_name ProfitWithdrawalSwapOut = ''profit_withdrawal_swap_out''"
| "kind_name ProfitWithdrawal = ''profit_withdrawal''"
| "kind_name ExternalCollect = ''external_collect''"
| "kind_name StakingReward = ''staking_reward''"
| "kind_name Adjustment = ''adjustment''"

text \<open>The free-form \<open>meta\<close> object of an entry is kept as a list of its string fields.\<close>

record ledger_entry =
  entry_id :: string
  entry_strategyId :: string
  entry_cycleId :: "string option"
  entry_jobId :: "string option"
  entry_ts :: int
  entry_blockNumber :: "string option"
  entry_txHash :: "string option"
  kind :: ledger_kind
  token :: "string option"
  amount :: "int option"
  quoteValue :: "int option"
  estimated :: "bool option"
  meta :: "(string \<times> string) list"

section \<open>Sample instances\<close>

text \<open>A valid configuration, snapshot and plan at which the witnesses evaluate the operations.\<close>

definition sample_policy :: boundary_policy where
  "sample_policy = \<lparr>condition = Always, action = Recenter\<rparr>"

definition sample_safeguards :: safeguards where
  "sample_safeguards = \<lparr>safeguards_enabled = True, minCrossingMinutes = None, minNetAprPct = None,
     minCycleFeeCoverage = Some 1, economicsHoldMinutes = Some 60, maxRebalancesPerDay = Some 4,
     maxConsecutiveLowerBreaks = Some 3, lowerBreakWindowMinutes = Some 1440,
     maxRiskAssetPct = None, maxSwapImpactBps = Some 100, volatilityWindowSeconds = None,
     maxVolatilityBps = None, maxSpotTwapDeviationBps = None, stableMarketSeconds = None,
     burstWindowMinutes = Some 60, burstTriggerCount = Some 3, burstCooldownMinutes = Some 30,
     maxSlippageBps = 50, maxPlanAgeSeconds = 120\<rparr>"

definition sample_execution :: execution_config where
  "sample_execution = \<lparr>execution_mode = ExecutorAuto, executorId = None, walletId = Some ''w1'',
     signerAddress = None, dryRun = False, maxGasPriceWei = None, maxGasQuotePerTx = None,
     maxDailyTurnoverQuote = Some 1000000, gasReserveMultiplier = 2, lowTransactionMode = False\<rparr>"

definition sample_config :: strategy_config where
  "sample_config = \<lparr>cfg_id = ''s1'', cfg_name = ''demo'', preset = Original, sourcePreset = Original,
     enabled = True, chainId = 4663, owner = ''0xaa'', protocol = ''uniswap-v3'', pool = ''0xp'',
     poolId = None, hooks = None, positionManager = ''0xnpm'', activeTokenId = Some ''7'',
     riskToken = ''0xr'', quoteToken = ''0xq'', staking = None,
     range = \<lparr>mode = Symmetric, lowerPct = 5, upperPct = 5, range_tickLower = None,
       range_tickUpper = None, defensiveLowerPct = None, defensiveUpperPct = None\<rparr>,
     trigger = \<lparr>source = Spot, pollSeconds = 15, confirmationSeconds = 60, cooldownMinutes = 5\<rparr>,
     boundary = \<lparr>lower = sample_policy, upper = sample_policy\<rparr>,
     fees = \<lparr>handling = ConvertToQuote, timing = OnRebalance, thresholdQuote = None, intervalMinutes = None\<rparr>,
     capitalProtection = \<lparr>protection_enabled = True, profitThresholdUsdg = ''10''\<rparr>,
     adaptiveRange = \<lparr>adaptive_enabled = True, targetMinutes = 60, maxMultiplier = 4, recoveryDecay = 1 / 2,
       contractionReviewMinutes = 60, contractionStabilityMinutes = 30,
       contractionMaxVolatilityBps = 100, contractionFeeCoverage = 1\<rparr>,
     safeguards = sample_safeguards, execution = sample_execution,
     revision = 1, createdAt = 1, updatedAt = 1\<rparr>"

definition sample_snapshot :: position_snapshot where
  "sample_snapshot = \<lparr>snap_chainId = 4663, observedAt = 1000, blockNumber = 10, snap_owner = ''0xaa'',
     snap_protocol = ''uniswap-v3'', snap_pool = ''0xp'', snap_poolId = None, snap_hooks = None,
     snap_positionManager = ''0xnpm'', tokenId = ''7'', token0 = ''0xr'', token1 = ''0xq'',
     token0Decimals = 18, token1Decimals = 6, tickSpacing = 60, feePpm = 3000, unstakedFeePpm = 0,
     tick = 0, sqrtPriceX96 = 79228162514264337593543950336, tickLower = -600, tickUpper = 600,
     snap_liquidity = 1000000, tokensOwed0 = 0, tokensOwed1 = 0, staked = None, snap_gauge = None,
     nftOwner = None, rewardOwed = None, rewardReadError = None\<rparr>"

definition sample_plan :: execution_plan where
  "sample_plan = \<lparr>plan_id = ''p1'', plan_hash = ''0x1'', plan_strategyId = ''s1'', strategyRevision = 1,
     plan_createdAt = 1000, expiresAt = 1120, triggerSide = Lower, manualExecution = False,
     plan_action = Boundary Recenter, snapshot = sample_snapshot, nextLower = -600, nextUpper = 600,
     rangeScale = 1, steps = [\<lparr>step_index = 0, step_kind = Precheck, step_intent = []\<rparr>,
       \<lparr>step_index = 1, step_kind = Decrease, step_intent = []\<rparr>],
     plan_maxSlippageBps = 50, plan_maxPlanAgeSeconds = 120, plan_dryRun = False\<rparr>"

end
