(* ===== verification/Accounting.thy ===== *)
theory Accounting
  imports Types BigText
begin

text \<open>
  \<open>shared/strategy/accounting.ts\<close> and \<open>shared/strategy/capital.ts\<close>: attribution of collect
  receipts, the withheld levy, execution shortfall, pro-rata allocation, income retention and
  the proportional capital harvest.
\<close>

section \<open>Fees, shortfall and allocation\<close>

definition amount_of :: "string \<Rightarrow> string \<Rightarrow> int res" where
  "amount_of v name =
     (case big_of_string v of
        Some parsed \<Rightarrow>
          if parsed < 0 then Inl (StrategyError E_CONFIG (name @ '' must be an unsigned integer string''))
          else Inr parsed
      | None \<Rightarrow> Inl (StrategyError E_CONFIG (name @ '' must be an unsigned integer string'')))"

text \<open>The gross fee and the levy.\<close>

definition estimateUnstakedLevy :: "int \<Rightarrow> rat \<Rightarrow> (int \<times> int) res" where
  "estimateUnstakedLevy netFee levyPpm =
     (if \<not> is_integer levyPpm \<or> levyPpm < 0 \<or> levyPpm \<ge> 1000000
      then Inl (StrategyError E_CONFIG ''invalid levy ppm'')
      else if netFee = 0 \<or> levyPpm = 0 then Inr (netFee, 0)
      else
        let denominator = 1000000 - \<lfloor>levyPpm\<rfloor> in
        bindR (bdiv (netFee * 1000000 + denominator - 1) denominator) (\<lambda>grossFee.
          Inr (grossFee, grossFee - netFee)))"

record shortfall =
  amountOut :: int
  impactBps :: "rat option"

definition executionShortfall :: "int \<Rightarrow> int option \<Rightarrow> int \<Rightarrow> shortfall res" where
  "executionShortfall spotOut quotedOut actualOut =
     (if spotOut < 0 \<or> actualOut < 0 \<or> (case quotedOut of None \<Rightarrow> False | Some q \<Rightarrow> q < 0)
      then Inl (StrategyError E_CONFIG ''swap accounting amounts must be unsigned'')
      else
        let quoted = (case quotedOut of None \<Rightarrow> 0 | Some q \<Rightarrow> q);
            baselineOut = (if quoted > spotOut then quoted else spotOut)
        in if baselineOut = 0 \<or> actualOut \<ge> baselineOut then Inr \<lparr>amountOut = 0, impactBps = None\<rparr>
           else let out = baselineOut - actualOut in
                bindR (bdiv (out * 1000000) baselineOut) (\<lambda>k.
                  Inr \<lparr>amountOut = out, impactBps = Some (ndiv (fl (of_int k)) 100)\<rparr>))"

text \<open>
  The mapped callback of \<open>allocateProRata\<close> with the three variables it closes over: what is
  left of the total, of the weight, and the weighted rows still to come.
\<close>

fun pro_rata_rows :: "int list \<Rightarrow> int \<Rightarrow> int \<Rightarrow> int \<Rightarrow> int list res" where
  "pro_rata_rows [] remainingTotal remainingWeight weightedRows = Inr []"
| "pro_rata_rows (weight # ws) remainingTotal remainingWeight weightedRows =
     (if weight = 0
      then bindR (pro_rata_rows ws remainingTotal remainingWeight weightedRows) (\<lambda>r. Inr (0 # r))
      else
        bindR (if weightedRows - 1 = 0 then Inr remainingTotal
               else bdiv (remainingTotal * weight) remainingWeight) (\<lambda>allocated.
        bindR (pro_rata_rows ws (remainingTotal - allocated) (remainingWeight - weight)
                 (weightedRows - 1)) (\<lambda>r. Inr (allocated # r))))"

definition allocateProRata :: "int \<Rightarrow> int list \<Rightarrow> int list res" where
  "allocateProRata amt weights =
     (if amt < 0 \<or> list_ex (\<lambda>w. w < 0) weights
      then Inl (StrategyError E_CONFIG ''pro-rata accounting amounts must be unsigned'')
      else
        let weightTotal = foldl (+) 0 weights in
        if weightTotal = 0 then
          (if amt \<noteq> 0 then Inl (StrategyError E_CONFIG ''non-zero total requires a pro-rata basis'')
           else Inr (map (\<lambda>_. 0) weights))
        else pro_rata_rows weights amt weightTotal (int (length (filter (\<lambda>w. w > 0) weights))))"

definition distributionAdjustedPnl :: "int \<Rightarrow> int \<Rightarrow> int \<Rightarrow> int \<Rightarrow> int" where
  "distributionAdjustedPnl currentValue withdrawnValue baselineValue gasCost =
     currentValue + withdrawnValue - baselineValue - gasCost"

section \<open>Ledger entries\<close>

definition incomeTaxRetentionEntry ::
  "string \<Rightarrow> string \<Rightarrow> string option \<Rightarrow> string \<Rightarrow> int \<Rightarrow> string \<Rightarrow> int \<Rightarrow> string option \<Rightarrow>
   string option \<Rightarrow> ledger_entry option res" where
  "incomeTaxRetentionEntry eid strategyId cycleId jobId ts tok amt txHash blockNo =
     (if amt < 0 then Inl (StrategyError E_CONFIG ''income retention must be unsigned'')
      else if amt = 0 then Inr None
      else Inr (Some \<lparr>entry_id = eid, entry_strategyId = strategyId, entry_cycleId = cycleId,
        entry_jobId = Some jobId, entry_ts = ts, entry_blockNumber = blockNo,
        entry_txHash = txHash, kind = IncomeTax, token = Some tok, amount = Some amt,
        quoteValue = None, estimated = None,
        meta = [(''purpose'', ''fee_tax''), (''source'', ''direct_retention''),
                (''rateBps'', ''1000''), (''custody'', ''owner_wallet''),
                (''platformRevenue'', ''false'')]\<rparr>))"

record collect_args =
  ca_strategyId :: string
  ca_cycleId :: "string option"
  ca_ts :: int
  ca_token0 :: string
  ca_token1 :: string
  ca_principal0 :: string
  ca_principal1 :: string
  ca_collected0 :: string
  ca_collected1 :: string
  unstakedLevyPpm :: "rat option"
  ca_txHash :: "string option"
  ca_blockNumber :: "string option"

definition add_entry ::
  "collect_args \<Rightarrow> ledger_kind \<Rightarrow> string \<Rightarrow> int \<Rightarrow> bool \<Rightarrow> ledger_entry list \<Rightarrow> ledger_entry list" where
  "add_entry args k tok raw est entries =
     (if raw > 0 then
        entries @ [\<lparr>entry_id = kind_name k @ ''-'' @ toLower tok @ ''-'' @ nat_text (int (length entries)),
          entry_strategyId = ca_strategyId args, entry_cycleId = ca_cycleId args,
          entry_jobId = None, entry_ts = ca_ts args, entry_blockNumber = ca_blockNumber args,
          entry_txHash = ca_txHash args, kind = k, token = Some tok, amount = Some raw,
          quoteValue = None, estimated = Some est, meta = []\<rparr>]
      else entries)"

definition add_fee ::
  "collect_args \<Rightarrow> string \<times> int \<Rightarrow> ledger_entry list \<Rightarrow> ledger_entry list res" where
  "add_fee args tn entries =
     bindR (estimateUnstakedLevy (snd tn) (case unstakedLevyPpm args of None \<Rightarrow> 0 | Some p \<Rightarrow> p))
       (\<lambda>(grossFee, levy).
          Inr (add_entry args ProtocolFee (fst tn) levy True
                (add_entry args FeeGross (fst tn) grossFee (levy > 0) entries)))"

definition attributeCollect :: "collect_args \<Rightarrow> ledger_entry list res" where
  "attributeCollect args =
     bindR (amount_of (ca_principal0 args) ''principal0'') (\<lambda>p0.
     bindR (amount_of (ca_principal1 args) ''principal1'') (\<lambda>p1.
     bindR (amount_of (ca_collected0 args) ''collected0'') (\<lambda>c0.
     bindR (amount_of (ca_collected1 args) ''collected1'') (\<lambda>c1.
       if c0 < p0 \<or> c1 < p1
       then Inl (StrategyError E_POSITION_CHANGED ''collect receipt is less than principal decrease'')
       else
         let entries = add_entry args PrincipalExit (ca_token1 args) p1 False
                         (add_entry args PrincipalExit (ca_token0 args) p0 False [])
         in foldR (add_fee args) [(ca_token0 args, c0 - p0), (ca_token1 args, c1 - p1)] entries))))"

section \<open>Capital harvest\<close>

record capital_harvest_plan =
  triggered :: bool
  deploy0 :: int
  deploy1 :: int
  profit0 :: int
  profit1 :: int
  activeValueQuote :: int
  capitalCapQuote :: int
  excessValueQuote :: int
  excessValueUsdg :: int

definition planCapitalHarvest ::
  "int \<Rightarrow> int \<Rightarrow> int \<Rightarrow> int \<Rightarrow> int \<Rightarrow> int \<Rightarrow> capital_harvest_plan res" where
  "planCapitalHarvest amt0 amt1 active cap excessUsdg thresholdUsdg =
     (if list_ex (\<lambda>value. value < 0) [amt0, amt1, active, cap, excessUsdg, thresholdUsdg]
      then Inl (JsError ''E_CAPITAL_AMOUNT'')
      else
        let excess = (if active > cap then active - cap else 0);
            trig = (active > 0 \<and> cap > 0 \<and> excess > 0 \<and> excessUsdg \<ge> thresholdUsdg);
            idle = \<lparr>triggered = False, deploy0 = amt0, deploy1 = amt1, profit0 = 0, profit1 = 0,
                    activeValueQuote = active, capitalCapQuote = cap, excessValueQuote = excess,
                    excessValueUsdg = excessUsdg\<rparr>
        in if \<not> trig then Inr idle
           else
             bindR (bdiv (amt0 * cap) active) (\<lambda>d0.
             bindR (bdiv (amt1 * cap) active) (\<lambda>d1.
               if d0 = 0 \<or> d1 = 0 then Inr idle
               else Inr \<lparr>triggered = True, deploy0 = d0, deploy1 = d1, profit0 = amt0 - d0,
                         profit1 = amt1 - d1, activeValueQuote = active, capitalCapQuote = cap,
                         excessValueQuote = excess, excessValueUsdg = excessUsdg\<rparr>)))"

section \<open>Lemmas\<close>

lemma foldl_sum: "foldl (+) s xs = s + sum_list (xs :: int list)"
  by (induction xs arbitrary: s) (simp_all add: add.assoc)

lemma sum_list_ge_0: "\<forall>w \<in> set ws. 0 \<le> w \<Longrightarrow> 0 \<le> sum_list (ws :: int list)"
  by (induction ws) auto

lemma sum_list_eq_0:
  "\<forall>w \<in> set ws. 0 \<le> w \<Longrightarrow> sum_list (ws :: int list) = 0 \<longleftrightarrow> filter (\<lambda>w. 0 < w) ws = []"
proof (induction ws)
  case (Cons w ws)
  then show ?case using sum_list_ge_0 [of ws] by (cases "w = 0") auto
qed simp

text \<open>
  Every row gets at least the floor of its exact share of the original total \<open>t\<close> over the
  original weight \<open>u\<close>: truncation only ever leaves more per unit of weight for later rows.
\<close>

lemma pro_rata_step:
  fixes t u r rw w :: int
  assumes "0 < u" and "0 < w" and "w \<le> rw" and "0 \<le> r" and "0 \<le> t" and "t * rw \<le> r * u"
  shows "t * w div u \<le> r * w div rw" and "0 \<le> r * w div rw" and "r * w div rw \<le> r"
    and "t * (rw - w) \<le> (r - r * w div rw) * u"
proof -
  have rw: "0 < rw" using assms by simp
  show "0 \<le> r * w div rw" using assms rw by (simp add: pos_imp_zdiv_nonneg_iff)
  show "r * w div rw \<le> r" using assms rw by (intro share_le) simp_all
  define q where "q = t * w div u"
  have "q * u \<le> t * w" unfolding q_def by (rule div_mult_le [OF assms(1)])
  then have "q * u * rw \<le> t * w * rw" using rw by (simp add: mult_right_mono)
  also have "\<dots> = t * rw * w" by simp
  also have "\<dots> \<le> r * u * w" using assms by (simp add: mult_right_mono)
  finally have "(q * rw) * u \<le> (r * w) * u" by (simp add: mult.commute mult.left_commute)
  then have "q * rw \<le> r * w" using assms(1) by simp
  then show "t * w div u \<le> r * w div rw" using rw by (simp add: q_def le_div_iff)
  define a where "a = r * w div rw"
  have "a * rw \<le> r * w" unfolding a_def by (rule div_mult_le [OF rw])
  then have "a * rw * u \<le> r * w * u" using assms by (simp add: mult_right_mono)
  moreover have "t * rw * (rw - w) \<le> r * u * (rw - w)"
    using assms by (intro mult_right_mono) simp_all
  ultimately have "t * (rw - w) * rw \<le> (r - a) * u * rw"
    by (simp add: algebra_simps)
  then show "t * (rw - w) \<le> (r - r * w div rw) * u" using rw by (simp add: a_def)
qed

lemma pro_rata_rows_ok:
  fixes t u :: int
  assumes "\<forall>w \<in> set ws. 0 \<le> w" and "0 < u" and "0 \<le> t" and "0 \<le> r"
    and "t * sum_list ws \<le> r * u" and "sum_list ws = 0 \<Longrightarrow> r = 0"
  shows "\<exists>as. pro_rata_rows ws r (sum_list ws) (int (length (filter (\<lambda>w. 0 < w) ws))) = Inr as \<and>
           sum_list as = r \<and> list_all2 (\<lambda>w a. t * w div u \<le> a \<and> (w = 0 \<longrightarrow> a = 0)) ws as"
  using assms
proof (induction ws arbitrary: r)
  case Nil
  then show ?case by simp
next
  case (Cons w ws)
  then have w: "0 \<le> w" and ws: "\<forall>w \<in> set ws. 0 \<le> w" by simp_all
  have ws0: "0 \<le> sum_list ws" by (rule sum_list_ge_0 [OF ws])
  show ?case
  proof (cases "w = 0")
    case True
    with Cons.IH [OF ws] Cons.prems show ?thesis by fastforce
  next
    case False
    with w have pos: "0 < w" by simp
    let ?rw = "sum_list (w # ws)"
    have le: "w \<le> ?rw" using ws0 by simp
    define a where "a = r * w div ?rw"
    note st = pro_rata_step [OF Cons.prems(2) pos le Cons.prems(4,3,5), folded a_def]
    have last: "a = r" if "filter (\<lambda>w. 0 < w) ws = []"
      using that sum_list_eq_0 [OF ws] pos by (simp add: a_def)
    have zero: "r - a = 0" if "sum_list ws = 0"
      using last that sum_list_eq_0 [OF ws] by simp
    obtain as where as: "pro_rata_rows ws (r - a) (sum_list ws) (int (length (filter (\<lambda>w. 0 < w) ws))) = Inr as"
      "sum_list as = r - a" "list_all2 (\<lambda>w a. t * w div u \<le> a \<and> (w = 0 \<longrightarrow> a = 0)) ws as"
      using Cons.IH [OF ws Cons.prems(2,3), of "r - a"] st zero by auto
    have alloc: "(if int (length (filter (\<lambda>w. 0 < w) (w # ws))) - 1 = 0 then Inr r
        else bdiv (r * w) ?rw) = (Inr a :: int res)"
      using last pos le Cons.prems(4) by (auto simp: a_def bdiv_pos)
    have "pro_rata_rows (w # ws) r ?rw (int (length (filter (\<lambda>w. 0 < w) (w # ws)))) = Inr (a # as)"
      unfolding pro_rata_rows.simps alloc using False pos as(1) by simp
    then show ?thesis using as(2,3) st(1) False by (intro exI [of _ "a # as"]) simp
  qed
qed

lemma allocateProRata_Inr:
  assumes "0 \<le> amt" and "\<forall>w \<in> set ws. 0 \<le> w" and "sum_list ws = 0 \<Longrightarrow> amt = 0"
  shows "\<exists>as. allocateProRata amt ws = Inr as \<and> sum_list as = amt \<and>
           list_all2 (\<lambda>w a. amt * w div sum_list ws \<le> a \<and> (w = 0 \<longrightarrow> a = 0)) ws as"
proof (cases "sum_list ws = 0")
  case True
  with assms(3) have "amt = 0" by simp
  with True show ?thesis
    using assms(2) by (auto simp: allocateProRata_def foldl_sum list_ex_iff not_less list_all2_conv_all_nth
        intro!: exI [of _ "map (\<lambda>_. 0) ws"] sum_list_0)
next
  case False
  with sum_list_ge_0 [OF assms(2)] have "0 < sum_list ws" by simp
  then show ?thesis
    using pro_rata_rows_ok [OF assms(2) _ assms(1) assms(1), of "sum_list ws"] assms(1,2) False
    by (auto simp: allocateProRata_def foldl_sum list_ex_iff not_less)
qed

text \<open>The recorded amount of one kind of entry for one token.\<close>

definition tok_sum :: "ledger_kind \<Rightarrow> string \<Rightarrow> ledger_entry list \<Rightarrow> int" where
  "tok_sum k t es = sum_list (map (\<lambda>e. case amount e of None \<Rightarrow> 0 | Some a \<Rightarrow> a)
     (filter (\<lambda>e. kind e = k \<and> token e = Some t) es))"

lemma tok_sum_Nil [simp]: "tok_sum k t [] = 0"
  by (simp add: tok_sum_def)

lemma tok_sum_add [simp]:
  "0 \<le> raw \<Longrightarrow> tok_sum k t (add_entry args k' t' raw est es)
     = tok_sum k t es + (if k = k' \<and> t = t' then raw else 0)"
  by (auto simp: tok_sum_def add_entry_def)

lemma estimateUnstakedLevy_Inr:
  assumes "0 \<le> net" and "estimateUnstakedLevy net ppm = Inr (g, l)"
  shows "g - l = net" and "0 \<le> l" and "0 \<le> g"
proof -
  have *: "g - l = net \<and> 0 \<le> l"
  proof (cases "net = 0 \<or> ppm = 0")
    case True
    with assms show ?thesis by (auto simp: estimateUnstakedLevy_def split: if_splits)
  next
    case False
    define d where "d = 1000000 - \<lfloor>ppm\<rfloor>"
    from False assms have i: "is_integer ppm" "0 \<le> ppm" "ppm < 1000000"
      by (auto simp: estimateUnstakedLevy_def split: if_splits)
    then have "0 \<le> \<lfloor>ppm\<rfloor>" "\<lfloor>ppm\<rfloor> < 1000000" by (simp_all add: floor_less_iff)
    then have d: "0 < d" "d \<le> 1000000" by (simp_all add: d_def)
    then have "0 \<le> net * 1000000 + d - 1" using assms(1) by simp
    then have g: "g = (net * 1000000 + d - 1) div d" "l = g - net"
      using assms(2) False i d
      by (auto simp: estimateUnstakedLevy_def Let_def d_def [symmetric] bdiv_pos)
    have "net * d \<le> net * 1000000" using assms(1) d by (simp add: mult_left_mono)
    then have "net * d \<le> net * 1000000 + d - 1" using d by linarith
    then have "net \<le> g" unfolding g(1) using d by (simp add: le_div_iff)
    with g show ?thesis by simp
  qed
  then show "g - l = net" "0 \<le> l" "0 \<le> g" using assms(1) by simp_all
qed

lemma add_fee_Inr:
  assumes "add_fee args (t, net) es = Inr es'" and "0 \<le> net"
  shows "tok_sum PrincipalExit u es' = tok_sum PrincipalExit u es"
    and "tok_sum FeeGross u es' - tok_sum ProtocolFee u es'
       = tok_sum FeeGross u es - tok_sum ProtocolFee u es + (if u = t then net else 0)"
proof -
  obtain g l where gl: "estimateUnstakedLevy net (case unstakedLevyPpm args of None \<Rightarrow> 0 | Some p \<Rightarrow> p)
      = Inr (g, l)"
    and es': "es' = add_entry args ProtocolFee t l True (add_entry args FeeGross t g (l > 0) es)"
    using assms(1) by (auto simp: add_fee_def bindR_eq_Inr)
  note * = estimateUnstakedLevy_Inr [OF assms(2) gl]
  show "tok_sum PrincipalExit u es' = tok_sum PrincipalExit u es"
    using * by (simp add: es')
  show "tok_sum FeeGross u es' - tok_sum ProtocolFee u es'
       = tok_sum FeeGross u es - tok_sum ProtocolFee u es + (if u = t then net else 0)"
    using * by (simp add: es')
qed

lemma amount_of_Inr: "amount_of v n = Inr x \<longleftrightarrow> big_of_string v = Some x \<and> 0 \<le> x"
  by (auto simp: amount_of_def split: option.splits)

section \<open>Properties\<close>

text \<open>
  The reconstructed gross fee is the smallest one whose net receipt covers what was
  received: for an integer levy rate below 100%, a non-negative net receipt gives a gross fee
  and a levy that differ by exactly the net, and any gross fee covers the receipt if and only
  if it is at least the reconstructed one.  A rate that is fractional, negative or at least
  100% is a configuration error.
\<close>

theorem estimateUnstakedLevy_least_gross:
  assumes "0 \<le> net"
  shows "case estimateUnstakedLevy net ppm of
           Inl e \<Rightarrow> e = StrategyError E_CONFIG ''invalid levy ppm'' \<and>
                    \<not> (is_integer ppm \<and> 0 \<le> ppm \<and> ppm < 1000000)
         | Inr (gross, levy) \<Rightarrow> is_integer ppm \<and> 0 \<le> ppm \<and> ppm < 1000000 \<and>
             gross - levy = net \<and> 0 \<le> levy \<and>
             (\<forall>g. net * 1000000 \<le> g * (1000000 - \<lfloor>ppm\<rfloor>) \<longleftrightarrow> gross \<le> g)"
proof (cases "is_integer ppm \<and> 0 \<le> ppm \<and> ppm < 1000000")
  case False
  then show ?thesis by (auto simp: estimateUnstakedLevy_def)
next
  case True
  define d where "d = 1000000 - \<lfloor>ppm\<rfloor>"
  have fl: "of_int \<lfloor>ppm\<rfloor> = ppm" "0 \<le> \<lfloor>ppm\<rfloor>" using True by (simp_all add: is_integer_def)
  then have "\<lfloor>ppm\<rfloor> < 1000000" using True by (simp add: floor_less_iff)
  then have d: "0 < d" "d \<le> 1000000" using fl by (simp_all add: d_def)
  define g0 where "g0 = (net * 1000000 + d - 1) div d"
  have least: "net * 1000000 \<le> g * d \<longleftrightarrow> g0 \<le> g" for g
    unfolding g0_def by (rule ceil_div_least [OF d(1)])
  have "g0 * d \<le> g0 * 1000000" if "0 \<le> g0" using that d by (simp add: mult_left_mono)
  moreover have "0 \<le> g0" unfolding g0_def using assms d by (simp add: pos_imp_zdiv_nonneg_iff)
  ultimately have cover: "net \<le> g0" using least [of g0] by linarith
  consider "net = 0" | "ppm = 0" | "net \<noteq> 0" "ppm \<noteq> 0" by blast
  then show ?thesis
  proof cases
    case 1
    then have "(0::int) \<le> g * d \<longleftrightarrow> 0 \<le> g" for g using d by (simp add: zero_le_mult_iff)
    with 1 True show ?thesis by (simp add: estimateUnstakedLevy_def d_def [symmetric])
  next
    case 2
    then show ?thesis using True by (simp add: estimateUnstakedLevy_def)
  next
    case 3
    have "0 \<le> net * 1000000 + d - 1" using assms d by simp
    with 3 True show ?thesis
      using d cover least
      by (simp add: estimateUnstakedLevy_def Let_def d_def [symmetric] bdiv_pos g0_def [symmetric])
  qed
qed

theorem estimateUnstakedLevy_least_gross_witness:
  "case estimateUnstakedLevy 950 50000 of Inl e \<Rightarrow> False | Inr (g, l) \<Rightarrow> g - l = 950"
  using estimateUnstakedLevy_least_gross [of 950 50000]
  by (auto simp: is_integer_def split: sum.splits)

text \<open>
  Pro-rata allocation loses nothing: for a non-negative total and non-negative weights it
  answers one amount per weight, the amounts sum to exactly the total, a zero weight gets
  nothing and every row gets at least the floor of its exact share.  It is an error exactly
  when an input is negative or a non-zero total has no positive weight.
\<close>

theorem allocateProRata_exact:
  "case allocateProRata amt ws of
     Inl e \<Rightarrow> amt < 0 \<or> (\<exists>w. w \<in> set ws \<and> w < 0) \<or> (amt \<noteq> 0 \<and> sum_list ws = 0)
   | Inr as \<Rightarrow> 0 \<le> amt \<and> sum_list as = amt \<and>
       list_all2 (\<lambda>w a. 0 \<le> w \<and> amt * w div sum_list ws \<le> a \<and> (w = 0 \<longrightarrow> a = 0)) ws as"
proof (cases "0 \<le> amt \<and> (\<forall>w \<in> set ws. 0 \<le> w)")
  case False
  then show ?thesis by (auto simp: allocateProRata_def list_ex_iff not_le)
next
  case True
  show ?thesis
  proof (cases "sum_list ws = 0 \<and> amt \<noteq> 0")
    case bad: True
    then have "allocateProRata amt ws
        = Inl (StrategyError E_CONFIG ''non-zero total requires a pro-rata basis'')"
      using True by (auto simp: allocateProRata_def foldl_sum list_ex_iff not_less)
    with bad show ?thesis by simp
  next
    case False
    with allocateProRata_Inr [of amt ws] True obtain as where
      "allocateProRata amt ws = Inr as" "sum_list as = amt"
      "list_all2 (\<lambda>w a. amt * w div sum_list ws \<le> a \<and> (w = 0 \<longrightarrow> a = 0)) ws as" by blast
    with True show ?thesis by (auto simp: list_all2_conv_all_nth)
  qed
qed

theorem allocateProRata_exact_witness:
  "case allocateProRata 100 [1, 0, 1, 1] of Inl e \<Rightarrow> False | Inr as \<Rightarrow> sum_list as = 100"
  using allocateProRata_exact [of 100 "[1, 0, 1, 1]"] by (auto split: sum.splits)

text \<open>
  Splitting a collect receipt conserves value: when the two pool tokens differ and the
  split succeeds, the collected amounts are at least the principal, each token's recorded
  principal exit is exactly the decreased principal, and its gross fee less the protocol fee
  is exactly what was collected beyond the principal.
\<close>

theorem attributeCollect_conserves:
  assumes "attributeCollect args = Inr es" and "ca_token0 args \<noteq> ca_token1 args"
  shows "\<exists>p0 p1 c0 c1.
           big_of_string (ca_principal0 args) = Some p0 \<and> big_of_string (ca_collected0 args) = Some c0 \<and>
           big_of_string (ca_principal1 args) = Some p1 \<and> big_of_string (ca_collected1 args) = Some c1 \<and>
           0 \<le> p0 \<and> p0 \<le> c0 \<and> 0 \<le> p1 \<and> p1 \<le> c1 \<and>
           tok_sum PrincipalExit (ca_token0 args) es = p0 \<and>
           tok_sum PrincipalExit (ca_token1 args) es = p1 \<and>
           tok_sum FeeGross (ca_token0 args) es - tok_sum ProtocolFee (ca_token0 args) es = c0 - p0 \<and>
           tok_sum FeeGross (ca_token1 args) es - tok_sum ProtocolFee (ca_token1 args) es = c1 - p1"
proof -
  obtain p0 p1 c0 c1 e1 where
    p: "big_of_string (ca_principal0 args) = Some p0" "0 \<le> p0"
       "big_of_string (ca_principal1 args) = Some p1" "0 \<le> p1"
       "big_of_string (ca_collected0 args) = Some c0" "big_of_string (ca_collected1 args) = Some c1"
    and le: "p0 \<le> c0" "p1 \<le> c1"
    and f0: "add_fee args (ca_token0 args, c0 - p0)
        (add_entry args PrincipalExit (ca_token1 args) p1 False
          (add_entry args PrincipalExit (ca_token0 args) p0 False [])) = Inr e1"
    and f1: "add_fee args (ca_token1 args, c1 - p1) e1 = Inr es"
    using assms(1) by (auto simp: attributeCollect_def bindR_eq_Inr amount_of_Inr split: if_splits)
  have "0 \<le> c0 - p0" "0 \<le> c1 - p1" using le by simp_all
  note a = add_fee_Inr [OF f0 this(1)] and b = add_fee_Inr [OF f1 this(2)]
  show ?thesis
    using p le assms(2) a [of "ca_token0 args"] a [of "ca_token1 args"]
      b [of "ca_token0 args"] b [of "ca_token1 args"]
    by auto
qed

definition sample_collect :: collect_args where
  "sample_collect = \<lparr>ca_strategyId = ''s'', ca_cycleId = None, ca_ts = 1, ca_token0 = ''0xa'',
     ca_token1 = ''0xb'', ca_principal0 = ''100'', ca_principal1 = ''0'', ca_collected0 = ''195'',
     ca_collected1 = ''7'', unstakedLevyPpm = Some 50000, ca_txHash = None, ca_blockNumber = None\<rparr>"

theorem attributeCollect_conserves_witness:
  "\<exists>es. attributeCollect sample_collect = Inr es \<and> tok_sum PrincipalExit ''0xa'' es = 100 \<and>
     tok_sum FeeGross ''0xa'' es - tok_sum ProtocolFee ''0xa'' es = 95"
proof -
  have "isInr (attributeCollect sample_collect)" by code_simp
  then obtain es where es: "attributeCollect sample_collect = Inr es" by (auto simp: isInr_iff)
  have ne: "ca_token0 sample_collect \<noteq> ca_token1 sample_collect" by (simp add: sample_collect_def)
  have v: "big_of_string ''100'' = Some 100" "big_of_string ''195'' = Some 195" by code_simp+
  show ?thesis
    using attributeCollect_conserves [OF es ne] es v by (auto simp: sample_collect_def)
qed

text \<open>
  The execution shortfall is measured against the better of the two baselines: for
  non-negative amounts the lost output is exactly what the actual output falls short of the
  larger of spot and quote, never negative, and an impact is reported exactly when something
  was lost.
\<close>

theorem executionShortfall_vs_better_baseline:
  assumes "0 \<le> spot" and "0 \<le> actual" and "case q of None \<Rightarrow> True | Some x \<Rightarrow> 0 \<le> x"
  shows "\<exists>r. executionShortfall spot q actual = Inr r \<and>
           amountOut r = max 0 (max spot (case q of None \<Rightarrow> 0 | Some x \<Rightarrow> x) - actual) \<and>
           (impactBps r = None \<longleftrightarrow> amountOut r = 0)"
  using assms
  by (auto simp: executionShortfall_def Let_def max_def bdiv_def split: option.splits)

theorem executionShortfall_vs_better_baseline_witness:
  "\<exists>r. executionShortfall 1000 (Some 1010) 1003 = Inr r \<and> amountOut r = 7"
  using executionShortfall_vs_better_baseline [of 1000 1003 "Some 1010"] by auto

text \<open>
  A capital harvest only splits what there is: for non-negative inputs it never throws,
  the deployed and the harvested part of each leg sum to the leg and are both non-negative,
  it triggers only above the cap with the excess worth at least the threshold, and a triggered
  harvest deploys a positive amount of both legs and at most the cap's share of each.
\<close>

theorem planCapitalHarvest_conserves:
  assumes "0 \<le> a0" and "0 \<le> a1" and "0 \<le> active" and "0 \<le> cap" and "0 \<le> usd" and "0 \<le> thr"
  shows "\<exists>r. planCapitalHarvest a0 a1 active cap usd thr = Inr r \<and>
           deploy0 r + profit0 r = a0 \<and> deploy1 r + profit1 r = a1 \<and>
           0 \<le> deploy0 r \<and> 0 \<le> deploy1 r \<and> 0 \<le> profit0 r \<and> 0 \<le> profit1 r \<and>
           (if triggered r
            then cap < active \<and> thr \<le> usd \<and> 0 < deploy0 r \<and> 0 < deploy1 r \<and>
                 deploy0 r * active \<le> a0 * cap \<and> deploy1 r * active \<le> a1 * cap
            else profit0 r = 0 \<and> profit1 r = 0)"
proof (cases "0 < active \<and> 0 < cap \<and> cap < active \<and> thr \<le> usd")
  case False
  then show ?thesis using assms by (auto simp: planCapitalHarvest_def Let_def)
next
  case True
  have share: "0 \<le> a * cap div active \<and> a * cap div active \<le> a \<and> a * cap div active * active \<le> a * cap"
    if "0 \<le> a" for a
    using that True assms share_le [of a cap active] share_ge_0 [of a cap active]
      div_mult_le [of active "a * cap"] by simp
  show ?thesis
    using True assms share [OF assms(1)] share [OF assms(2)]
    by (auto simp: planCapitalHarvest_def Let_def bdiv_pos)
qed

theorem planCapitalHarvest_conserves_witness:
  "\<exists>r. planCapitalHarvest 1000 3000 1200 1000 200 100 = Inr r \<and> deploy0 r + profit0 r = 1000"
  using planCapitalHarvest_conserves [of 1000 3000 1200 1000 200 100] by auto

end
