(* ===== verification/Rebalance.thy ===== *)
theory Rebalance
  imports ClMath Types
begin

text \<open>
  \<open>shared/strategy/rebalance.ts\<close> and \<open>executor/rebalance.ts\<close>: the target token ratio of a
  range, the exact swap input for a quoted rate, the quoting loop, the swaps of a cycle and
  the split of an executed swap between principal and fees.

  Quotes come from an aggregator service.  A quote is an argument of the definitions: a
  function of the world state \<open>'w\<close>, so that consecutive calls may answer differently, which
  may throw.  Nothing is assumed of it.
\<close>

section \<open>Target ratio and swap input\<close>

definition UNIT_LIQUIDITY :: int where "UNIT_LIQUIDITY = 2 ^ 120"

text \<open>The target units are an \<open>amounts\<close> record.\<close>

definition targetUnits :: "int \<Rightarrow> int \<Rightarrow> int \<Rightarrow> amounts res" where
  "targetUnits sqrtP lo up =
     bindR (getSqrtRatioAtTick lo) (\<lambda>sqrtA.
     bindR (getSqrtRatioAtTick up) (\<lambda>sqrtB.
     bindR (getAmountsForLiquidity sqrtP sqrtA sqrtB UNIT_LIQUIDITY) (\<lambda>units.
       if amount0 units \<le> 0 \<or> amount1 units \<le> 0
       then Inl (StrategyError E_CONFIG ''recenter target must contain current price'')
       else Inr units)))"

datatype swap_direction = Token0ToToken1 | Token1ToToken0

definition solveSwapInput ::
  "int \<Rightarrow> int \<Rightarrow> int \<Rightarrow> int \<Rightarrow> int \<Rightarrow> int \<Rightarrow> swap_direction \<Rightarrow> int res" where
  "solveSwapInput a0 a1 u0 u1 qi qo direction =
     (if list_ex (\<lambda>x. x < 0) [a0, a1, u0, u1, qi, qo] \<or> u0 = 0 \<or> u1 = 0 \<or> qi = 0 \<or> qo = 0
      then Inl (StrategyError E_CONFIG ''invalid rebalance solve input'')
      else if direction = Token0ToToken1 then
        (let excess = a0 * u1 - a1 * u0 in
         if excess \<le> 0 then Inr 0
         else bindR (bdiv (excess * qi) (u1 * qi + qo * u0)) (\<lambda>result.
                Inr (if result > a0 then a0 else result)))
      else
        (let excess = a1 * u0 - a0 * u1 in
         if excess \<le> 0 then Inr 0
         else bindR (bdiv (excess * qi) (u0 * qi + qo * u1)) (\<lambda>result.
                Inr (if result > a1 then a1 else result))))"

definition chooseSwapDirection :: "int \<Rightarrow> int \<Rightarrow> amounts \<Rightarrow> swap_direction option" where
  "chooseSwapDirection balance0 balance1 units =
     (let left = balance1 * amount0 units; right = balance0 * amount1 units in
      if left = right then None
      else if left < right then Some Token0ToToken1 else Some Token1ToToken0)"

section \<open>Quoting\<close>

text \<open>A quote function: token in, token out and amount, threading the world.\<close>

type_synonym ('w, 'r) quote = "string \<Rightarrow> string \<Rightarrow> int \<Rightarrow> 'w \<Rightarrow> ((int \<times> 'r) \<times> 'w) res"

record 'r rebalance_quote =
  rq_tokenIn :: string
  rq_tokenOut :: string
  rq_amountIn :: int
  rq_amountOut :: int
  rq_route :: 'r

text \<open>The loop of \<open>planBalanceSwap\<close>: at most \<open>n\<close> more quotes; \<open>None\<close> is its early return.\<close>

fun balance_loop ::
  "nat \<Rightarrow> ('w, 'r) quote \<Rightarrow> string \<Rightarrow> string \<Rightarrow> int \<Rightarrow> int \<Rightarrow> amounts \<Rightarrow> swap_direction \<Rightarrow> int \<Rightarrow>
   int \<Rightarrow> 'w \<Rightarrow> (int option \<times> 'w) res" where
  "balance_loop 0 quote tin tout b0 b1 units direction available amountIn w = Inr (Some amountIn, w)"
| "balance_loop (Suc n) quote tin tout b0 b1 units direction available amountIn w =
     bindR (quote tin tout amountIn w) (\<lambda>((out, route), w).
       if out \<le> 0 then Inl (StrategyError E_SLIPPAGE ''zero swap quote'')
       else
         bindR (solveSwapInput b0 b1 (amount0 units) (amount1 units) amountIn out direction) (\<lambda>solved.
           if solved = 0 then Inr (None, w)
           else
             let drift = (if solved > amountIn then solved - amountIn else amountIn - solved) in
             if drift * 500 \<le> available then Inr (Some solved, w)
             else balance_loop n quote tin tout b0 b1 units direction available solved w))"

definition planBalanceSwap ::
  "string \<Rightarrow> string \<Rightarrow> int \<Rightarrow> int \<Rightarrow> amounts \<Rightarrow> ('w, 'r) quote \<Rightarrow> 'w \<Rightarrow>
   ('r rebalance_quote option \<times> 'w) res" where
  "planBalanceSwap t0 t1 b0 b1 units quote w =
     (case chooseSwapDirection b0 b1 units of
        None \<Rightarrow> Inr (None, w)
      | Some direction \<Rightarrow>
          let tin = (if direction = Token0ToToken1 then t0 else t1);
              tout = (if direction = Token0ToToken1 then t1 else t0);
              available = (if direction = Token0ToToken1 then b0 else b1);
              amountIn = available sdiv 2
          in if amountIn = 0 then Inr (None, w)
             else
               bindR (balance_loop 3 quote tin tout b0 b1 units direction available amountIn w)
                 (\<lambda>(solved, w).
                    case solved of
                      None \<Rightarrow> Inr (None, w)
                    | Some amountIn \<Rightarrow>
                        bindR (quote tin tout amountIn w) (\<lambda>((out, route), w).
                          Inr (Some \<lparr>rq_tokenIn = tin, rq_tokenOut = tout, rq_amountIn = amountIn,
                                     rq_amountOut = out, rq_route = route\<rparr>, w))))"

section \<open>The swaps of a cycle\<close>

record cycle_funds =
  f_principal0 :: int
  f_principal1 :: int
  f_fee0 :: int
  f_fee1 :: int

text \<open>An intent before it is quoted; the purpose is always \<open>strategy\<close> here.\<close>

record swap_draft =
  sw_tokenIn :: string
  sw_tokenOut :: string
  sw_amountIn :: int
  principalIn :: int
  feeIn :: int

record 'r swap_intent = swap_draft +
  quotedOut :: int
  routeSummary :: 'r

record 'r cycle_swaps =
  lp0 :: int
  lp1 :: int
  held0 :: int
  held1 :: int
  swaps :: "'r swap_intent list"

text \<open>
  Merging the risk-token fee into a list of intents: the first one with the same two tokens
  grows, otherwise a new intent is appended.
\<close>

fun merge_fee :: "string \<Rightarrow> string \<Rightarrow> int \<Rightarrow> swap_draft list \<Rightarrow> swap_draft list" where
  "merge_fee risk quot fee [] =
     [\<lparr>sw_tokenIn = risk, sw_tokenOut = quot, sw_amountIn = fee, principalIn = 0, feeIn = fee\<rparr>]"
| "merge_fee risk quot fee (x # xs) =
     (if toLower (sw_tokenIn x) = toLower risk \<and> toLower (sw_tokenOut x) = toLower quot
      then x\<lparr>sw_amountIn := sw_amountIn x + fee, feeIn := feeIn x + fee\<rparr> # xs
      else x # merge_fee risk quot fee xs)"

fun quote_intents ::
  "('w, 'r) quote \<Rightarrow> swap_draft list \<Rightarrow> 'w \<Rightarrow> ('r swap_intent list \<times> 'w) res" where
  "quote_intents quote [] w = Inr ([], w)"
| "quote_intents quote (x # xs) w =
     bindR (quote (sw_tokenIn x) (sw_tokenOut x) (sw_amountIn x) w) (\<lambda>((out, route), w).
     bindR (quote_intents quote xs w) (\<lambda>(rest, w).
       Inr (\<lparr>sw_tokenIn = sw_tokenIn x, sw_tokenOut = sw_tokenOut x, sw_amountIn = sw_amountIn x,
             principalIn = principalIn x, feeIn = feeIn x, quotedOut = out, routeSummary = route\<rparr>
            # rest, w)))"

definition cycle_drafts ::
  "strategy_config \<Rightarrow> position_snapshot \<Rightarrow> cycle_funds \<Rightarrow> 'r rebalance_quote option \<Rightarrow> swap_draft list" where
  "cycle_drafts config snap funds prin =
     (let intents = (case prin of
            None \<Rightarrow> []
          | Some p \<Rightarrow> [\<lparr>sw_tokenIn = rq_tokenIn p, sw_tokenOut = rq_tokenOut p,
                       sw_amountIn = rq_amountIn p, principalIn = rq_amountIn p, feeIn = 0\<rparr>])
      in if handling (fees config) = ConvertToQuote then
           let feeRisk = (if toLower (riskToken config) = toLower (token0 snap)
                          then f_fee0 funds else f_fee1 funds)
           in if feeRisk > 0 then merge_fee (riskToken config) (quoteToken config) feeRisk intents
              else intents
         else intents)"

definition planCycleSwaps ::
  "strategy_config \<Rightarrow> position_snapshot \<Rightarrow> int \<Rightarrow> int \<Rightarrow> int \<Rightarrow> cycle_funds \<Rightarrow> ('w, 'r) quote \<Rightarrow> 'w \<Rightarrow>
   ('r cycle_swaps \<times> 'w) res" where
  "planCycleSwaps config snap sqrtP lo up funds quote w =
     (let reinvest = (handling (fees config) = Reinvest);
          l0 = f_principal0 funds + (if reinvest then f_fee0 funds else 0);
          l1 = f_principal1 funds + (if reinvest then f_fee1 funds else 0);
          h0 = (if reinvest then 0 else f_fee0 funds);
          h1 = (if reinvest then 0 else f_fee1 funds)
      in bindR (targetUnits sqrtP lo up) (\<lambda>units.
         bindR (planBalanceSwap (token0 snap) (token1 snap) l0 l1 units quote w) (\<lambda>(prin, w).
         bindR (quote_intents quote (cycle_drafts config snap funds prin) w) (\<lambda>(sws, w).
           Inr (\<lparr>lp0 = l0, lp1 = l1, held0 = h0, held1 = h1, swaps = sws\<rparr>, w)))))"

section \<open>Splitting an executed swap\<close>

definition allocateSwapOutput :: "swap_draft \<Rightarrow> int \<Rightarrow> (int \<times> int) res" where
  "allocateSwapOutput intent actualOut =
     (if sw_amountIn intent \<le> 0 \<or> actualOut < 0 then Inl (JsError ''E_SWAP_ACCOUNTING'')
      else bindR (bdiv (actualOut * principalIn intent) (sw_amountIn intent)) (\<lambda>principalOut.
             Inr (principalOut, actualOut - principalOut)))"

record swap_allocation =
  spent :: int
  gained :: int
  principalSpent :: int
  feeSpent :: int
  principalOut :: int
  feeOut :: int
  unspentPrincipal :: int
  unspentFee :: int

definition allocateSwapExecution :: "swap_draft \<Rightarrow> int \<Rightarrow> int \<Rightarrow> int \<Rightarrow> swap_allocation res" where
  "allocateSwapExecution intent sp gn minOut =
     (if sw_amountIn intent \<le> 0 \<or> principalIn intent < 0 \<or> feeIn intent < 0 \<or>
         principalIn intent + feeIn intent \<noteq> sw_amountIn intent \<or>
         sp \<le> 0 \<or> sp > sw_amountIn intent \<or> gn < minOut
      then Inl (JsError ''E_UNSUPPORTED_TOKEN'')
      else
        bindR (bdiv (sp * principalIn intent) (sw_amountIn intent)) (\<lambda>ps.
        bindR (bdiv (gn * ps) sp) (\<lambda>po.
          Inr \<lparr>spent = sp, gained = gn, principalSpent = ps, feeSpent = sp - ps,
               principalOut = po, feeOut = gn - po,
               unspentPrincipal = principalIn intent - ps,
               unspentFee = feeIn intent - (sp - ps)\<rparr>)))"

section \<open>Lemmas\<close>

text \<open>The exact input solved for, written once for both directions.\<close>

lemma solve_core:
  fixes a b u v qi qo :: int
  assumes "0 \<le> a" and "0 \<le> b" and "0 < u" and "0 < v" and "0 < qi" and "0 < qo"
    and e: "e = a * v - b * u" and "0 < e"
    and x: "x = (let r = e * qi div (v * qi + qo * u) in if r > a then a else r)"
  shows "0 \<le> x \<and> x \<le> a \<and> (y \<le> x \<longleftrightarrow> (b * qi + y * qo) * u \<le> (a - y) * v * qi)"
proof -
  define d where "d = v * qi + qo * u"
  have d: "0 < d" using assms by (simp add: d_def add_pos_pos)
  define r where "r = e * qi div d"
  have iff: "z \<le> r \<longleftrightarrow> (b * qi + z * qo) * u \<le> (a - z) * v * qi" for z
  proof -
    have "z \<le> r \<longleftrightarrow> z * d \<le> e * qi" unfolding r_def by (rule le_div_iff [OF d])
    also have "\<dots> \<longleftrightarrow> (b * qi + z * qo) * u \<le> (a - z) * v * qi"
      by (simp add: d_def e algebra_simps)
    finally show ?thesis .
  qed
  have "r < a + 1"
  proof -
    have "a * v * qi \<le> a * d" using assms by (simp add: d_def algebra_simps)
    moreover have "e * qi \<le> a * v * qi" using assms by (simp add: e mult_right_mono)
    ultimately have "e * qi \<le> a * d" by linarith
    also have "\<dots> < (a + 1) * d" using d by (simp add: distrib_right)
    finally show ?thesis unfolding r_def by (simp only: div_less_iff d)
  qed
  moreover have "0 \<le> r" unfolding r_def using assms d by (simp add: pos_imp_zdiv_nonneg_iff)
  moreover have "x = r" using x \<open>r < a + 1\<close> by (simp add: r_def d_def Let_def)
  ultimately show ?thesis using iff [of y] by simp
qed

lemma solveSwapInput_flip:
  "solveSwapInput a0 a1 u0 u1 qi qo Token1ToToken0 = solveSwapInput a1 a0 u1 u0 qi qo Token0ToToken1"
  by (auto simp: solveSwapInput_def Let_def)

lemma solveSwapInput_bounds:
  assumes "solveSwapInput a0 a1 u0 u1 qi qo dir = Inr x"
  shows "0 \<le> x \<and> x \<le> (if dir = Token0ToToken1 then a0 else a1)"
proof -
  have main: "0 \<le> x \<and> x \<le> a" if "solveSwapInput a b u v qi qo Token0ToToken1 = Inr x" for a b u v
  proof (cases "0 < a * v - b * u")
    case True
    with that have ok: "0 \<le> a" "0 \<le> b" "0 < u" "0 < v" "0 < qi" "0 < qo"
      by (auto simp: solveSwapInput_def Let_def split: if_splits)
    have d: "0 < v * qi + qo * u" using ok by (simp add: add_pos_pos)
    have "x = (let r = (a * v - b * u) * qi div (v * qi + qo * u) in if r > a then a else r)"
      using that True ok d by (simp add: solveSwapInput_def Let_def bdiv_pos split: if_splits)
    from solve_core [OF ok refl True this, of 0] show ?thesis by simp
  next
    case False
    with that show ?thesis by (auto simp: solveSwapInput_def Let_def split: if_splits)
  qed
  show ?thesis
    using assms main [of a0 a1 u0 u1] main [of a1 a0 u1 u0]
    by (cases dir) (simp_all add: solveSwapInput_flip)
qed

lemma balance_loop_bounds:
  assumes "balance_loop n quote tin tout b0 b1 units dir available amt w = Inr (Some x, w')"
    and "available = (if dir = Token0ToToken1 then b0 else b1)" and "0 < amt" and "amt \<le> available"
  shows "0 < x \<and> x \<le> available"
  using assms
proof (induction n arbitrary: amt w)
  case 0
  then show ?case by simp
next
  case (Suc n)
  from Suc.prems(1) obtain out route v s where
    q: "quote tin tout amt w = Inr ((out, route), v)" and
    s: "solveSwapInput b0 b1 (amount0 units) (amount1 units) amt out dir = Inr s" "s \<noteq> 0" and
    r: "s = x \<or> balance_loop n quote tin tout b0 b1 units dir available s v = Inr (Some x, w')"
    by (fastforce simp: bindR_eq_Inr Let_def split: if_splits)
  from solveSwapInput_bounds [OF s(1)] s(2) have "0 < s" "s \<le> available"
    using Suc.prems(2) by (auto split: if_splits)
  with r Suc.IH [of s v] Suc.prems(2) show ?case by blast
qed

lemma planBalanceSwap_Some:
  assumes "planBalanceSwap t0 t1 b0 b1 units quote w = Inr (Some q, w')" and "0 \<le> b0" and "0 \<le> b1"
  shows "\<exists>v. quote (rq_tokenIn q) (rq_tokenOut q) (rq_amountIn q) v
             = Inr ((rq_amountOut q, rq_route q), w') \<and>
           0 < rq_amountIn q \<and>
           (if b1 * amount0 units < b0 * amount1 units
            then rq_tokenIn q = t0 \<and> rq_tokenOut q = t1 \<and> rq_amountIn q \<le> b0
            else b0 * amount1 units < b1 * amount0 units \<and>
                 rq_tokenIn q = t1 \<and> rq_tokenOut q = t0 \<and> rq_amountIn q \<le> b1)"
proof -
  obtain dir where dir: "chooseSwapDirection b0 b1 units = Some dir"
    using assms(1) by (auto simp: planBalanceSwap_def split: option.splits)
  define tin tout av where "tin = (if dir = Token0ToToken1 then t0 else t1)"
    and "tout = (if dir = Token0ToToken1 then t1 else t0)"
    and "av = (if dir = Token0ToToken1 then b0 else b1)"
  have av: "0 \<le> av" "av sdiv 2 = av div 2" using assms(2,3) by (simp_all add: av_def sdiv_nonneg)
  obtain x v out route where
    loop: "balance_loop 3 quote tin tout b0 b1 units dir av (av sdiv 2) w = Inr (Some x, v)"
    and nz: "av sdiv 2 \<noteq> 0"
    and qt: "quote tin tout x v = Inr ((out, route), w')"
    and q: "q = \<lparr>rq_tokenIn = tin, rq_tokenOut = tout, rq_amountIn = x, rq_amountOut = out, rq_route = route\<rparr>"
    using assms(1) dir
    by (fastforce simp: planBalanceSwap_def Let_def bindR_eq_Inr tin_def tout_def av_def
        split: if_splits option.splits)
  have "0 < x \<and> x \<le> av"
    using balance_loop_bounds [OF loop av_def] nz av by auto
  with qt q dir show ?thesis
    by (cases dir) (auto simp: chooseSwapDirection_def Let_def tin_def tout_def av_def split: if_splits)
qed

text \<open>What every drafted intent satisfies.\<close>

definition draft_ok :: "(string \<Rightarrow> int) \<Rightarrow> int \<Rightarrow> swap_draft \<Rightarrow> bool" where
  "draft_ok cap fee d \<longleftrightarrow>
     0 < sw_amountIn d \<and> 0 \<le> principalIn d \<and> 0 \<le> feeIn d \<and>
     principalIn d + feeIn d = sw_amountIn d \<and> principalIn d \<le> cap (sw_tokenIn d) \<and> feeIn d \<le> fee"

lemma allocateSwapExecution_accepts:
  assumes "draft_ok cap fee d" and "0 < sp" and "sp \<le> sw_amountIn d" and "m \<le> gn"
  shows "isInr (allocateSwapExecution d sp gn m)"
  using assms by (auto simp: allocateSwapExecution_def draft_ok_def isInr_iff bdiv_def)

lemma quote_intents_drafts:
  "quote_intents quote ds w = Inr (xs, w') \<Longrightarrow> map swap_draft.truncate xs = ds"
proof (induction ds arbitrary: w xs)
  case (Cons d ds)
  then obtain out route v rest where
    "quote_intents quote ds v = Inr (rest, w')" and
    "xs = \<lparr>sw_tokenIn = sw_tokenIn d, sw_tokenOut = sw_tokenOut d, sw_amountIn = sw_amountIn d,
       principalIn = principalIn d, feeIn = feeIn d, quotedOut = out, routeSummary = route\<rparr> # rest"
    by (fastforce simp: bindR_eq_Inr)
  with Cons.IH show ?case by (simp add: swap_draft.truncate_def)
qed simp

lemma merge_fee_ok:
  assumes "\<forall>d \<in> set ds. draft_ok cap 0 d" and "0 < fee" and "0 \<le> cap risk" and "length ds \<le> 1"
  shows "length (merge_fee risk quot fee ds) \<le> 2 \<and>
         (\<forall>d \<in> set (merge_fee risk quot fee ds). draft_ok cap fee d)"
  using assms by (cases ds) (auto simp: draft_ok_def)

section \<open>Properties\<close>

text \<open>
  The solved swap input is the exact balance point at the quoted rate: it lies between
  zero and the available balance, and a positive input is at most the answer if and only if,
  after swapping it at the quoted rate, the balances have not passed the target ratio of the
  range.  So the answer never overshoots and no larger input would do.
\<close>

theorem solveSwapInput_exact:
  assumes "0 \<le> a0" and "0 \<le> a1" and "0 < u0" and "0 < u1" and "0 < qi" and "0 < qo" and "0 < y"
  shows "\<exists>x z. solveSwapInput a0 a1 u0 u1 qi qo Token0ToToken1 = Inr x \<and> 0 \<le> x \<and> x \<le> a0 \<and>
           (y \<le> x \<longleftrightarrow> (a1 * qi + y * qo) * u0 \<le> (a0 - y) * u1 * qi) \<and>
           solveSwapInput a0 a1 u0 u1 qi qo Token1ToToken0 = Inr z \<and> 0 \<le> z \<and> z \<le> a1 \<and>
           (y \<le> z \<longleftrightarrow> (a0 * qi + y * qo) * u1 \<le> (a1 - y) * u0 * qi)"
proof -
  have main: "\<exists>x. solveSwapInput a b u v qi qo Token0ToToken1 = Inr x \<and> 0 \<le> x \<and> x \<le> a \<and>
      (y \<le> x \<longleftrightarrow> (b * qi + y * qo) * u \<le> (a - y) * v * qi)"
    if ok: "0 \<le> a" "0 \<le> b" "0 < u" "0 < v" for a b u v
  proof (cases "0 < a * v - b * u")
    case True
    have d: "0 < v * qi + qo * u" using ok assms by (simp add: add_pos_pos)
    have "solveSwapInput a b u v qi qo Token0ToToken1
        = Inr (let r = (a * v - b * u) * qi div (v * qi + qo * u) in if r > a then a else r)"
      using ok assms True d by (simp add: solveSwapInput_def Let_def bdiv_pos)
    with solve_core [OF ok assms(5,6) refl True refl, of y] show ?thesis by simp
  next
    case False
    have "(a * v - b * u) * qi \<le> 0" using False assms(5) by (simp add: mult_le_0_iff)
    moreover have "0 < y * qo * u" "0 < y * v * qi" using assms ok by simp_all
    ultimately have "(a - y) * v * qi < (b * qi + y * qo) * u" by (simp add: algebra_simps)
    with False show ?thesis
      using ok assms by (simp add: solveSwapInput_def)
  qed
  show ?thesis
    using main [OF assms(1-4)] main [OF assms(2,1,4,3)] by (simp add: solveSwapInput_flip)
qed

theorem solveSwapInput_exact_witness:
  "\<exists>x. solveSwapInput 1000 0 1 1 1 1 Token0ToToken1 = Inr x \<and> x \<le> 1000"
  using solveSwapInput_exact [of 1000 0 1 1 1 1 500] by auto

text \<open>
  A planned balancing swap is always backed by the quote that prices it: whatever the
  quote service answers, a returned swap has a positive input within the balance of the
  over-weight token, goes in the direction that reduces the imbalance, and its output and
  route are those of a quote for exactly that input.
\<close>

theorem planBalanceSwap_backed_by_quote:
  assumes "planBalanceSwap t0 t1 b0 b1 units quote w = Inr (Some q, w')" and "0 \<le> b0" and "0 \<le> b1"
  shows "\<exists>v. quote (rq_tokenIn q) (rq_tokenOut q) (rq_amountIn q) v
             = Inr ((rq_amountOut q, rq_route q), w') \<and>
           0 < rq_amountIn q \<and>
           (if b1 * amount0 units < b0 * amount1 units
            then rq_tokenIn q = t0 \<and> rq_tokenOut q = t1 \<and> rq_amountIn q \<le> b0
            else b0 * amount1 units < b1 * amount0 units \<and>
                 rq_tokenIn q = t1 \<and> rq_tokenOut q = t0 \<and> rq_amountIn q \<le> b1)"
  using assms by (rule planBalanceSwap_Some)

text \<open>A quote service that pays 99% and counts its calls.\<close>

definition sample_quote :: "(nat, unit) quote" where
  "sample_quote tin tout amt n = Inr ((amt * 99 div 100, ()), Suc n)"

theorem planBalanceSwap_backed_by_quote_witness:
  "\<exists>q n. planBalanceSwap ''a'' ''b'' 1000 0 \<lparr>amount0 = 1, amount1 = 1\<rparr> sample_quote 0 = Inr (Some q, n) \<and>
     rq_tokenIn q = ''a'' \<and> rq_amountIn q \<le> 1000"
proof -
  have "(case planBalanceSwap ''a'' ''b'' 1000 0 \<lparr>amount0 = 1, amount1 = 1\<rparr> sample_quote 0 of
      Inr (Some q, n) \<Rightarrow> True | _ \<Rightarrow> False)" by code_simp
  then obtain q n where
    q: "planBalanceSwap ''a'' ''b'' 1000 0 \<lparr>amount0 = 1, amount1 = 1\<rparr> sample_quote 0 = Inr (Some q, n)"
    by (auto split: sum.splits option.splits)
  with planBalanceSwap_backed_by_quote [OF q] show ?thesis by auto
qed

text \<open>
  C19. The swaps of a cycle are accountable: with non-negative funds and differing pool tokens,
  a cycle plans at most two swaps, each one's input is exactly its principal part plus its fee
  part, the principal part is within the deployable balance of its token and the fee part
  within the held fees, and every execution that spends at most the input and pays at least
  the minimum passes the accounting guard of the execution split.
\<close>

theorem planCycleSwaps_accountable:
  assumes "planCycleSwaps config snap sqrtP lo up funds quote w = Inr (r, w')"
    and "0 \<le> f_principal0 funds" and "0 \<le> f_principal1 funds" and "0 \<le> f_fee0 funds" and "0 \<le> f_fee1 funds"
  shows "length (swaps r) \<le> 2 \<and>
         lp0 r + held0 r = f_principal0 funds + f_fee0 funds \<and>
         lp1 r + held1 r = f_principal1 funds + f_fee1 funds \<and>
         (\<forall>d \<in> set (map swap_draft.truncate (swaps r)).
            draft_ok (\<lambda>t. if t = token0 snap \<and> t = token1 snap then max (lp0 r) (lp1 r)
                         else if t = token0 snap then lp0 r else if t = token1 snap then lp1 r else 0)
              (if toLower (riskToken config) = toLower (token0 snap) then held0 r else held1 r) d \<and>
            (\<forall>sp gn m. 0 < sp \<longrightarrow> sp \<le> sw_amountIn d \<longrightarrow> m \<le> gn \<longrightarrow>
               isInr (allocateSwapExecution d sp gn m)))"
proof -
  obtain units prin v sws where
    plan: "planBalanceSwap (token0 snap) (token1 snap) (lp0 r) (lp1 r) units quote w = Inr (prin, v)"
    and qi: "quote_intents quote (cycle_drafts config snap funds prin) v = Inr (sws, w')"
    and r: "r = \<lparr>lp0 = lp0 r, lp1 = lp1 r, held0 = held0 r, held1 = held1 r, swaps = sws\<rparr>"
    and l: "lp0 r = f_principal0 funds + (if handling (fees config) = Reinvest then f_fee0 funds else 0)"
      "lp1 r = f_principal1 funds + (if handling (fees config) = Reinvest then f_fee1 funds else 0)"
      "held0 r = (if handling (fees config) = Reinvest then 0 else f_fee0 funds)"
      "held1 r = (if handling (fees config) = Reinvest then 0 else f_fee1 funds)"
    using assms(1) by (fastforce simp: planCycleSwaps_def Let_def bindR_eq_Inr)
  define cap where "cap = (\<lambda>t. if t = token0 snap \<and> t = token1 snap then max (lp0 r) (lp1 r)
      else if t = token0 snap then lp0 r else if t = token1 snap then lp1 r else 0)"
  define fee where "fee = (if toLower (riskToken config) = toLower (token0 snap) then held0 r else held1 r)"
  have nn: "0 \<le> lp0 r" "0 \<le> lp1 r" "0 \<le> held0 r" "0 \<le> held1 r" using l assms by simp_all
  then have cap0: "0 \<le> cap t" for t by (auto simp: cap_def max_def)
  define ds where "ds = (case prin of None \<Rightarrow> [] | Some p \<Rightarrow>
      [\<lparr>sw_tokenIn = rq_tokenIn p, sw_tokenOut = rq_tokenOut p, sw_amountIn = rq_amountIn p,
        principalIn = rq_amountIn p, feeIn = 0\<rparr>])"
  have ds: "\<forall>d \<in> set ds. draft_ok cap 0 d" "length ds \<le> 1"
    using planBalanceSwap_Some [of "token0 snap" "token1 snap" "lp0 r" "lp1 r" units quote w _ v]
      plan nn
    by (auto simp: ds_def draft_ok_def cap_def split: option.splits if_splits)
  have weaken: "draft_ok cap 0 d \<Longrightarrow> draft_ok cap fee d" for d
    using nn by (auto simp: draft_ok_def fee_def split: if_splits)
  have drafts: "cycle_drafts config snap funds prin =
      (if handling (fees config) = ConvertToQuote \<and> fee > 0
       then merge_fee (riskToken config) (quoteToken config) fee ds else ds)"
    using l by (auto simp: cycle_drafts_def Let_def ds_def fee_def)
  have ok: "length (cycle_drafts config snap funds prin) \<le> 2 \<and>
      (\<forall>d \<in> set (cycle_drafts config snap funds prin). draft_ok cap fee d)"
    using merge_fee_ok [OF ds(1) _ cap0 ds(2), of fee] ds weaken unfolding drafts by auto
  have sw: "map swap_draft.truncate (swaps r) = cycle_drafts config snap funds prin"
    using quote_intents_drafts [OF qi] r by (metis cycle_swaps.select_convs(5))
  have "length (swaps r) \<le> 2" using ok sw by (metis length_map)
  moreover have "lp0 r + held0 r = f_principal0 funds + f_fee0 funds"
    "lp1 r + held1 r = f_principal1 funds + f_fee1 funds" using l by simp_all
  ultimately show ?thesis
    unfolding cap_def [symmetric] fee_def [symmetric] sw
    using ok allocateSwapExecution_accepts by blast
qed

theorem planCycleSwaps_accountable_witness:
  "\<exists>r n. planCycleSwaps sample_config sample_snapshot Q96 (-600) 600
       \<lparr>f_principal0 = 1000, f_principal1 = 0, f_fee0 = 50, f_fee1 = 0\<rparr> sample_quote 0 = Inr (r, n) \<and>
     length (swaps r) \<le> 2 \<and> lp0 r + held0 r = 1050"
proof -
  have "isInr (planCycleSwaps sample_config sample_snapshot Q96 (-600) 600
       \<lparr>f_principal0 = 1000, f_principal1 = 0, f_fee0 = 50, f_fee1 = 0\<rparr> sample_quote 0)" by code_simp
  then obtain r n where r: "planCycleSwaps sample_config sample_snapshot Q96 (-600) 600
       \<lparr>f_principal0 = 1000, f_principal1 = 0, f_fee0 = 50, f_fee1 = 0\<rparr> sample_quote 0 = Inr (r, n)"
    by (auto simp: isInr_iff)
  from planCycleSwaps_accountable [OF r] have "length (swaps r) \<le> 2 \<and> lp0 r + held0 r = 1050" by simp
  with r show ?thesis by blast
qed

text \<open>
  Splitting an executed swap conserves value: the split is accepted exactly under its
  guard; what was spent, gained and left unspent is divided between principal and fees with
  nothing lost or created, and no part is negative.
\<close>

theorem allocateSwapExecution_conserves:
  assumes "allocateSwapExecution d sp gn m = Inr r" and "0 \<le> gn"
  shows "principalSpent r + feeSpent r = sp \<and> principalOut r + feeOut r = gn \<and>
         unspentPrincipal r + unspentFee r = sw_amountIn d - sp \<and>
         principalSpent r + unspentPrincipal r = principalIn d \<and> feeSpent r + unspentFee r = feeIn d \<and>
         0 \<le> principalSpent r \<and> 0 \<le> feeSpent r \<and> 0 \<le> principalOut r \<and> 0 \<le> feeOut r \<and>
         0 \<le> unspentPrincipal r \<and> 0 \<le> unspentFee r"
proof -
  define A P F where "A = sw_amountIn d" and "P = principalIn d" and "F = feeIn d"
  have g: "0 < A" "0 \<le> P" "0 \<le> F" "P + F = A" "0 < sp" "sp \<le> A" "m \<le> gn"
    using assms(1) by (auto simp: allocateSwapExecution_def A_def P_def F_def split: if_splits)
  define ps where "ps = sp * P div A"
  have ps: "0 \<le> ps" "ps \<le> sp" "ps \<le> P"
    using g share_le [of sp P A] share_le [of P sp A] share_ge_0 [of sp P A]
    by (simp_all add: ps_def mult.commute)
  have fs: "sp - ps \<le> F"
  proof -
    have "(sp - F) * A \<le> sp * P"
    proof -
      have "sp * F \<le> A * F" using g by (simp add: mult_right_mono)
      then have "sp * (A - P) \<le> A * F" using g by (metis add_diff_cancel_left')
      then show ?thesis by (simp add: algebra_simps)
    qed
    then have "sp - F \<le> ps" unfolding ps_def using g by (simp add: le_div_iff)
    then show ?thesis by linarith
  qed
  define po where "po = gn * ps div sp"
  have po: "0 \<le> po" "po \<le> gn"
    using g ps assms(2) share_le [of gn ps sp] share_ge_0 [of gn ps sp] by (simp_all add: po_def)
  have "0 \<le> sp * P" "0 \<le> gn * ps" using g ps assms(2) by simp_all
  then have "r = \<lparr>spent = sp, gained = gn, principalSpent = ps, feeSpent = sp - ps, principalOut = po,
      feeOut = gn - po, unspentPrincipal = P - ps, unspentFee = F - (sp - ps)\<rparr>"
    using assms(1) g
    by (auto simp: allocateSwapExecution_def A_def [symmetric] P_def [symmetric] F_def [symmetric]
        bdiv_pos ps_def po_def split: if_splits)
  then show ?thesis using ps po fs g by (simp add: A_def P_def F_def)
qed

definition sample_draft :: swap_draft where
  "sample_draft = \<lparr>sw_tokenIn = ''a'', sw_tokenOut = ''b'', sw_amountIn = 100, principalIn = 70, feeIn = 30\<rparr>"

theorem allocateSwapExecution_conserves_witness:
  "\<exists>r. allocateSwapExecution sample_draft 99 51 50 = Inr r \<and> principalOut r + feeOut r = 51 \<and>
     principalSpent r + unspentPrincipal r = 70"
proof -
  have "isInr (allocateSwapExecution sample_draft 99 51 50)" by code_simp
  then obtain r where r: "allocateSwapExecution sample_draft 99 51 50 = Inr r" by (auto simp: isInr_iff)
  with allocateSwapExecution_conserves [OF r] show ?thesis by (auto simp: sample_draft_def)
qed

end
