(* ===== verification/Triggers.thy ===== *)
theory Triggers
  imports Types ClMath
begin

text \<open>
  The pure decisions of \<open>shared/strategy/\<close>: which side of its range a position is on, whether
  a boundary trigger executes, whether a planned job's trigger still holds, the economics
  gate, the cycle caps and their release times, burst waits, the adaptive range rules and the
  block search of the cost basis.
\<close>

section \<open>Range side and fixed ranges (range.ts)\<close>

datatype range_side = SideIn | SideLower | SideUpper

definition rangeSide :: "rat \<Rightarrow> int \<Rightarrow> int \<Rightarrow> range_side" where
  "rangeSide t lo up =
     (if t < of_int lo then SideLower else if t \<ge> of_int up then SideUpper else SideIn)"

definition fixedTickRange :: "int option \<Rightarrow> int option \<Rightarrow> int \<Rightarrow> (int \<times> int) res" where
  "fixedTickRange lo up spacing =
     (case (lo, up) of
        (Some l, Some u) \<Rightarrow>
          if spacing \<le> 0 then Inl (JsError ''invalid tick spacing'')
          else if l < MIN_TICK \<or> u > MAX_TICK \<or> l \<ge> u then Inl (JsError ''invalid fixed tick range'')
          else if l smod spacing \<noteq> 0 \<or> u smod spacing \<noteq> 0
          then Inl (JsError ''fixed ticks must align to pool tick spacing'')
          else Inr (l, u)
      | _ \<Rightarrow> Inl (JsError ''fixed tick range requires integer ticks''))"

section \<open>Boundary trigger (trigger.ts)\<close>

record boundary_args =
  ba_tick :: int
  ba_tickLower :: int
  ba_tickUpper :: int
  ba_lower :: boundary_policy
  ba_upper :: boundary_policy
  ba_now :: int
  outOfRangeSince :: "int option"
  ba_confirmationSeconds :: int
  cooldownUntil :: "int option"
  netAprPct :: "rat option"
  ba_minNetAprPct :: "rat option"

text \<open>An optional number used as a condition: absent and zero are both false.\<close>

definition truthy :: "int option \<Rightarrow> bool" where
  "truthy x \<longleftrightarrow> (case x of None \<Rightarrow> False | Some n \<Rightarrow> n \<noteq> 0)"

definition side_name :: "range_side \<Rightarrow> string" where
  "side_name s = (case s of SideIn \<Rightarrow> ''in'' | SideLower \<Rightarrow> ''lower'' | SideUpper \<Rightarrow> ''upper'')"

definition decideBoundaryTrigger :: "boundary_args \<Rightarrow> trigger_decision" where
  "decideBoundaryTrigger args =
     (let side = rangeSide (of_int (ba_tick args)) (ba_tickLower args) (ba_tickUpper args) in
      if side = SideIn then NoTrigger InRange
      else if truthy (cooldownUntil args) \<and> ba_now args < the (cooldownUntil args) then NoTrigger Cooldown
      else
        let policy = (if side = SideLower then ba_lower args else ba_upper args) in
        if condition policy = ManualConfirm
        then PauseTrigger E_PLAN_STALE (Some (''reason'', ''manual_confirm''))
        else if ba_confirmationSeconds args > 0 \<and> truthy (outOfRangeSince args) \<and>
                ba_now args - the (outOfRangeSince args) < ba_confirmationSeconds args
        then NoTrigger Confirming
        else if condition policy = FeeBreakEven \<and> netAprPct args = None
        then PauseTrigger E_APR_UNAVAILABLE None
        else if condition policy = FeeBreakEven \<and> ba_minNetAprPct args \<noteq> None \<and>
                the (netAprPct args) < the (ba_minNetAprPct args)
        then NoTrigger GuardNotMet
        else if action policy = PauseAction
        then PauseTrigger E_PLAN_STALE (Some (''side'', side_name side))
        else ExecuteTrigger (if side = SideLower then Lower else Upper) (action policy) (ba_now args))"

section \<open>Entry trigger (entry-trigger.ts)\<close>

record trigger_average =
  avg_tick :: rat
  firstTs :: int
  lastTs :: int
  avg_count :: int

definition expected_side :: "trigger_side \<Rightarrow> range_side" where
  "expected_side s = (case s of Lower \<Rightarrow> SideLower | Upper \<Rightarrow> SideUpper | _ \<Rightarrow> SideIn)"

definition assertEntryTrigger ::
  "strategy_config \<Rightarrow> execution_plan \<Rightarrow> position_snapshot \<Rightarrow> int \<Rightarrow> trigger_average option \<Rightarrow> unit res" where
  "assertEntryTrigger config plan snap now average =
     (if plan_action plan = CollectFees \<or> manualExecution plan \<or> triggerSide plan = Manual then Inr ()
      else if observedAt snap > now \<or> now - observedAt snap > maxPlanAgeSeconds (safeguards config)
      then Inl (JsError ''E_TRIGGER_UNAVAILABLE'')
      else
        let poll = pollSeconds (trigger config);
            window = max 60 (max (confirmationSeconds (trigger config)) (poll * 3));
            sampled = (triggerSide plan \<noteq> AdaptiveContraction \<and> source (trigger config) = SampledTwap)
        in bindR
             (if sampled then
                (case average of
                   None \<Rightarrow> Inl (JsError ''E_TRIGGER_UNAVAILABLE'')
                 | Some a \<Rightarrow>
                     if avg_count a < 2 \<or> firstTs a > now - window + poll * 2 \<or>
                        lastTs a < now - poll * 2 \<or> lastTs a > now
                     then Inl (JsError ''E_TRIGGER_UNAVAILABLE'')
                     else Inr (avg_tick a))
              else Inr (of_int (tick snap))) (\<lambda>t.
           if \<not> is_integer t \<or> tickLower snap \<ge> tickUpper snap
           then Inl (JsError ''E_TRIGGER_UNAVAILABLE'')
           else if rangeSide t (tickLower snap) (tickUpper snap) \<noteq> expected_side (triggerSide plan)
           then Inl (JsError ''E_TRIGGER_CHANGED'')
           else Inr ()))"

section \<open>Economics gate (economics-gate.ts)\<close>

datatype economics_decision =
  EconExecute
| EconWait int int int   \<comment> \<open>\<open>waitUntil\<close>, \<open>feesQuoteRaw\<close>, \<open>costQuoteRaw\<close>\<close>

definition required_fees :: "int \<Rightarrow> rat \<Rightarrow> int" where
  "required_fees cost coverage = (cost * math_ceil (nmul coverage 1000000)) sdiv 1000000"

definition decideCycleEconomics ::
  "int \<Rightarrow> int option \<Rightarrow> int \<Rightarrow> int option \<Rightarrow> rat option \<Rightarrow> rat \<Rightarrow> economics_decision" where
  "decideCycleEconomics now outSince collectable lastCost coverage holdSeconds =
     (case coverage of
        None \<Rightarrow> EconExecute
      | Some cov \<Rightarrow>
          if cov \<le> 0 then EconExecute
          else (case lastCost of
             None \<Rightarrow> EconExecute
           | Some cost \<Rightarrow>
               if cost \<le> 0 then EconExecute
               else if collectable < 0 then EconExecute
               else if collectable \<ge> required_fees cost cov then EconExecute
               else
                 let waitUntil = (case outSince of None \<Rightarrow> now | Some s \<Rightarrow> s)
                                   + max 0 (math_floor holdSeconds)
                 in if waitUntil \<le> now then EconExecute
                    else EconWait waitUntil collectable cost))"

section \<open>Cycle caps (cycle-caps.ts)\<close>

record completed_cycle =
  cc_triggerSide :: "string option"
  completedAt :: int

definition DEFAULT_LOWER_BREAK_WINDOW_MINUTES :: rat where
  "DEFAULT_LOWER_BREAK_WINDOW_MINUTES = 1440"

definition lowerBreakWindowSeconds :: "safeguards \<Rightarrow> int" where
  "lowerBreakWindowSeconds s =
     (let minutes = (case lowerBreakWindowMinutes s of
                       None \<Rightarrow> DEFAULT_LOWER_BREAK_WINDOW_MINUTES | Some m \<Rightarrow> m)
      in max 60 (math_floor (nmul minutes 60)))"

fun countConsecutiveLowerBreaks :: "completed_cycle list \<Rightarrow> int \<Rightarrow> int \<Rightarrow> nat" where
  "countConsecutiveLowerBreaks [] now windowSeconds = 0"
| "countConsecutiveLowerBreaks (c # cs) now windowSeconds =
     (if cc_triggerSide c \<noteq> Some ''lower'' then 0
      else if completedAt c < now - windowSeconds then 0
      else 1 + countConsecutiveLowerBreaks cs now windowSeconds)"

definition consecutiveLowerBreakResetAt ::
  "completed_cycle list \<Rightarrow> int \<Rightarrow> int \<Rightarrow> int \<Rightarrow> int option" where
  "consecutiveLowerBreakResetAt cycles now windowSeconds threshold =
     (if threshold \<le> 0 then None
      else if int (countConsecutiveLowerBreaks cycles now windowSeconds) < threshold then None
      else if nat (threshold - 1) \<ge> length cycles then None
      else
        let releasing = cycles ! nat (threshold - 1) in
        if cc_triggerSide releasing \<noteq> Some ''lower'' then None
        else Some (completedAt releasing + windowSeconds))"

definition nextUtcDayStart :: "int \<Rightarrow> int" where
  "nextUtcDayStart now = now div 86400 * 86400 + 86400"

section \<open>Market guard and adaptive range\<close>

text \<open>
  \<open>tickDistanceBps\<close> is \<open>Math.expm1\<close> of a multiple of \<open>Math.log(1.0001)\<close>; it is the argument
  \<open>bps\<close> of the rules that call it.
\<close>

datatype market_reason = MarketVolatility | SpotTwapDeviation

record market_quality =
  healthy :: bool
  reason :: "market_reason option"
  volatilityBps :: rat
  spotTwapDeviationBps :: rat

definition evaluateMarketQuality ::
  "(rat \<Rightarrow> rat \<Rightarrow> rat) \<Rightarrow> rat \<Rightarrow> rat \<Rightarrow> rat \<Rightarrow> rat \<Rightarrow> rat option \<Rightarrow> rat option \<Rightarrow> market_quality" where
  "evaluateMarketQuality bps spotTick averageTick minTick maxTick maxVol maxDev =
     (let vol = bps minTick maxTick; dev = bps spotTick averageTick in
      if (case maxVol of None \<Rightarrow> False | Some m \<Rightarrow> vol > m)
      then \<lparr>healthy = False, reason = Some MarketVolatility, volatilityBps = vol, spotTwapDeviationBps = dev\<rparr>
      else if (case maxDev of None \<Rightarrow> False | Some m \<Rightarrow> dev > m)
      then \<lparr>healthy = False, reason = Some SpotTwapDeviation, volatilityBps = vol, spotTwapDeviationBps = dev\<rparr>
      else \<lparr>healthy = True, reason = None, volatilityBps = vol, spotTwapDeviationBps = dev\<rparr>)"

definition shouldStartBurstWait :: "rat \<Rightarrow> rat \<Rightarrow> bool" where
  "shouldStartBurstWait recentCompleted triggerCount \<longleftrightarrow>
     is_integer recentCompleted \<and> is_integer triggerCount \<and>
     recentCompleted \<ge> 0 \<and> triggerCount \<ge> 2 \<and> recentCompleted \<ge> triggerCount - 1"

record adaptive_input =
  ai_enabled :: bool
  ai_now :: int
  positionStartedAt :: int
  previousScale :: rat
  targetSeconds :: rat
  ai_maxMultiplier :: rat
  ai_recoveryDecay :: rat
  allowWiden :: "bool option"

definition rounded :: "rat \<Rightarrow> rat" where
  "rounded v = ndiv (of_int (math_round (nmul v 1000000))) 1000000"

definition nextAdaptiveRangeScale :: "adaptive_input \<Rightarrow> rat" where
  "nextAdaptiveRangeScale input =
     (if \<not> ai_enabled input then 1
      else
        let previous = min (max (previousScale input) 1) (ai_maxMultiplier input);
            age = max 1 (ai_now input - positionStartedAt input)
        in if of_int age < targetSeconds input then
             (if allowWiden input = Some False then previous
              else rounded (min (ai_maxMultiplier input)
                     (nmul previous (nsqrt (ndiv (targetSeconds input) (of_int age))))))
           else rounded (max 1 (nadd 1 (nmul (nsub previous 1) (ai_recoveryDecay input)))))"

definition shouldWidenAdaptiveRange :: "int option \<Rightarrow> int option \<Rightarrow> int option \<Rightarrow> bool" where
  "shouldWidenAdaptiveRange pnl netFees lastCost =
     (case pnl of None \<Rightarrow> False | Some p \<Rightarrow>
        if p \<ge> 0 then False
        else (case netFees of None \<Rightarrow> False | Some f \<Rightarrow>
          f < (case lastCost of None \<Rightarrow> 0 | Some c \<Rightarrow> c)))"

definition shouldContractAdaptiveRange :: "int option \<Rightarrow> int option \<Rightarrow> int option \<Rightarrow> rat \<Rightarrow> bool" where
  "shouldContractAdaptiveRange pnl currentFees priorCost multiplier =
     (case pnl of None \<Rightarrow> False | Some p \<Rightarrow>
        if p < 0 then False
        else (case currentFees of None \<Rightarrow> False | Some f \<Rightarrow>
          let cost = (case priorCost of None \<Rightarrow> 0 | Some c \<Rightarrow> c) in
          if cost \<le> 0 then False
          else f * 1000000 \<ge> cost * math_ceil (nmul multiplier 1000000)))"

record adaptive_stability =
  stable :: bool
  stayedInRange :: bool
  stab_volatilityBps :: rat

definition evaluateAdaptiveRangeStability ::
  "(rat \<Rightarrow> rat \<Rightarrow> rat) \<Rightarrow> rat \<Rightarrow> rat \<Rightarrow> int \<Rightarrow> int \<Rightarrow> rat \<Rightarrow> adaptive_stability" where
  "evaluateAdaptiveRangeStability bps minTick maxTick lo up maxVol =
     (let stayed = (minTick \<ge> of_int lo \<and> maxTick < of_int up); vol = bps minTick maxTick in
      \<lparr>stable = (stayed \<and> vol \<le> maxVol), stayedInRange = stayed, stab_volatilityBps = vol\<rparr>)"

definition scaledRangePcts :: "rat \<Rightarrow> rat \<Rightarrow> rat \<Rightarrow> rat \<times> rat" where
  "scaledRangePcts lowerP upperP scale =
     (let safeScale = (if scale \<ge> 1 then scale else 1) in
      (min (nsub 99 (fl (1 / 1000000000))) (nmul lowerP safeScale), min 500 (nmul upperP safeScale)))"

section \<open>Calendar and cost basis\<close>

definition shanghaiDay :: "int \<Rightarrow> int" where
  "shanghaiDay unixSeconds = (unixSeconds + 8 * 60 * 60) div (24 * 60 * 60)"

definition rawDelta :: "int option \<Rightarrow> int option \<Rightarrow> int option" where
  "rawDelta opening closing =
     (case (opening, closing) of (Some a, Some b) \<Rightarrow> Some (b - a) | _ \<Rightarrow> None)"

text \<open>The loop of \<open>firstExistingBlock\<close>; both bounds are non-negative when it runs.\<close>

function search_block :: "(int \<Rightarrow> bool res) \<Rightarrow> int \<Rightarrow> int \<Rightarrow> int res" where
  "search_block existsAt lo up =
     (if lo < up then
        let middle = (lo + up) div 2 in
        bindR (existsAt middle) (\<lambda>here.
          if here then search_block existsAt lo middle else search_block existsAt (middle + 1) up)
      else Inr lo)"
  by pat_completeness auto
termination
  by (relation "measure (\<lambda>(_, lo, up). nat (up - lo))") auto

declare search_block.simps [simp del]

definition firstExistingBlock :: "int \<Rightarrow> (int \<Rightarrow> bool res) \<Rightarrow> int res" where
  "firstExistingBlock upperBlock existsAt =
     bindR (existsAt upperBlock) (\<lambda>here.
       if \<not> here then Inl (JsError ''position did not exist at the accounting snapshot'')
       else search_block existsAt 0 upperBlock)"

section \<open>Lemmas\<close>

lemma rangeSide_int [simp]:
  "rangeSide (of_int t) lo up = SideLower \<longleftrightarrow> t < lo"
  "rangeSide (of_int t) lo up = SideUpper \<longleftrightarrow> lo \<le> t \<and> up \<le> t"
  "rangeSide (of_int t) lo up = SideIn \<longleftrightarrow> lo \<le> t \<and> t < up"
  by (auto simp: rangeSide_def not_less not_le)

lemma is_integer_int [simp]: "is_integer (of_int n)"
  by (simp add: is_integer_def)

text \<open>The streak blocks exactly when its first \<open>k\<close> cycles are lower ones inside the window.\<close>

lemma count_ge_iff:
  "k \<le> countConsecutiveLowerBreaks cs now w \<longleftrightarrow>
     k \<le> length cs \<and> (\<forall>i < k. cc_triggerSide (cs ! i) = Some ''lower'' \<and> now - w \<le> completedAt (cs ! i))"
proof (induction cs arbitrary: k)
  case Nil
  then show ?case by auto
next
  case (Cons c cs)
  show ?case
  proof (cases k)
    case 0
    then show ?thesis by simp
  next
    case (Suc n)
    have "(\<forall>i < Suc n. P ((c # cs) ! i)) \<longleftrightarrow> P c \<and> (\<forall>i < n. P (cs ! i))" for P
      by (auto simp: less_Suc_eq_0_disj)
    from this [of "\<lambda>c. cc_triggerSide c = Some ''lower'' \<and> now - w \<le> completedAt c"]
    show ?thesis using Suc Cons.IH [of n] by (auto simp: not_less)
  qed
qed

lemma search_block_spec:
  assumes "search_block ex lo up = Inr b" and "lo \<le> up" and "ex up = Inr True"
    and "\<forall>x. lo \<le> x \<longrightarrow> x \<le> up \<longrightarrow> ex x = Inr (first \<le> x)"
  shows "b = max lo first"
  using assms
proof (induction ex lo up rule: search_block.induct)
  case (1 ex lo up)
  have up: "first \<le> up" using "1.prems"(2-4) by simp
  show ?case
  proof (cases "lo < up")
    case False
    with "1.prems" up show ?thesis by (simp add: search_block.simps [of ex lo up])
  next
    case True
    define m where "m = (lo + up) div 2"
    have m: "lo \<le> m" "m < up" using True by (simp_all add: m_def)
    have em: "ex m = Inr (first \<le> m)" using "1.prems"(4) m by simp
    show ?thesis
    proof (cases "first \<le> m")
      case True
      with \<open>lo < up\<close> "1.prems"(1) em have "search_block ex lo m = Inr b"
        by (simp add: search_block.simps [of ex lo up] m_def [symmetric])
      with "1.IH"(1) [OF \<open>lo < up\<close> m_def em] True m em "1.prems"(4) show ?thesis by simp
    next
      case False
      with \<open>lo < up\<close> "1.prems"(1) em have "search_block ex (m + 1) up = Inr b"
        by (simp add: search_block.simps [of ex lo up] m_def [symmetric])
      with "1.IH"(2) [OF \<open>lo < up\<close> m_def em] False m "1.prems"(3,4) show ?thesis by simp
    qed
  qed
qed

lemma search_block_total:
  assumes "lo \<le> up" and "\<forall>x. lo \<le> x \<longrightarrow> x \<le> up \<longrightarrow> isInr (ex x)"
  shows "isInr (search_block ex lo up)"
  using assms
proof (induction ex lo up rule: search_block.induct)
  case (1 ex lo up)
  show ?case
  proof (cases "lo < up")
    case False
    then show ?thesis by (simp add: search_block.simps [of ex lo up])
  next
    case True
    define m where "m = (lo + up) div 2"
    have m: "lo \<le> m" "m < up" using True by (simp_all add: m_def)
    with "1.prems"(2) obtain here where em: "ex m = Inr here" by (auto simp: isInr_iff)
    show ?thesis
      using "1.IH" [OF True m_def em] "1.prems" m em True
      by (cases here) (simp_all add: search_block.simps [of ex lo up] m_def [symmetric])
  qed
qed

section \<open>Properties\<close>

text \<open>
  A boundary trigger executes exactly when it may: the position is out of range, no
  cooldown is running, the side's policy needs no manual confirmation, the confirmation time
  has passed, the fee guard (when the policy has one) has a known yield that is not below its
  minimum, and the policy's action is not a pause; then the side, the policy's action and the
  observation time are those of the trigger.
\<close>

theorem decideBoundaryTrigger_executes_iff:
  "decideBoundaryTrigger a = ExecuteTrigger s act tm \<longleftrightarrow>
     (\<exists>p. (s = Lower \<and> ba_tick a < ba_tickLower a \<and> p = ba_lower a \<or>
           s = Upper \<and> ba_tickLower a \<le> ba_tick a \<and> ba_tickUpper a \<le> ba_tick a \<and> p = ba_upper a) \<and>
       \<not> (\<exists>c. cooldownUntil a = Some c \<and> c \<noteq> 0 \<and> ba_now a < c) \<and>
       condition p \<noteq> ManualConfirm \<and>
       \<not> (\<exists>z. outOfRangeSince a = Some z \<and> z \<noteq> 0 \<and> 0 < ba_confirmationSeconds a \<and>
            ba_now a < z + ba_confirmationSeconds a) \<and>
       (condition p = Always \<or>
          (\<exists>apr. netAprPct a = Some apr \<and> \<not> (\<exists>m. ba_minNetAprPct a = Some m \<and> apr < m))) \<and>
       action p = act \<and> act \<noteq> PauseAction \<and> tm = ba_now a)"
proof -
  have side: "decideBoundaryTrigger a = ExecuteTrigger s act tm \<longleftrightarrow>
     (\<exists>p. (s = Lower \<and> ba_tick a < ba_tickLower a \<and> p = ba_lower a \<or>
           s = Upper \<and> ba_tickLower a \<le> ba_tick a \<and> ba_tickUpper a \<le> ba_tick a \<and> p = ba_upper a) \<and>
       \<not> (truthy (cooldownUntil a) \<and> ba_now a < the (cooldownUntil a)) \<and>
       condition p \<noteq> ManualConfirm \<and>
       \<not> (ba_confirmationSeconds a > 0 \<and> truthy (outOfRangeSince a) \<and>
          ba_now a - the (outOfRangeSince a) < ba_confirmationSeconds a) \<and>
       \<not> (condition p = FeeBreakEven \<and> netAprPct a = None) \<and>
       \<not> (condition p = FeeBreakEven \<and> ba_minNetAprPct a \<noteq> None \<and>
            the (netAprPct a) < the (ba_minNetAprPct a)) \<and>
       action p = act \<and> act \<noteq> PauseAction \<and> tm = ba_now a)"
  proof (cases "rangeSide (of_int (ba_tick a)) (ba_tickLower a) (ba_tickUpper a)")
    case SideIn
    then show ?thesis by (auto simp: decideBoundaryTrigger_def Let_def)
  next
    case SideLower
    then show ?thesis by (auto simp: decideBoundaryTrigger_def Let_def)
  next
    case SideUpper
    then show ?thesis by (auto simp: decideBoundaryTrigger_def Let_def)
  qed
  have cond: "c \<noteq> ManualConfirm \<Longrightarrow> c = Always \<or> c = FeeBreakEven" for c
    by (cases c) simp_all
  show ?thesis
    unfolding side truthy_def
    by (intro arg_cong [where f = Ex] ext)
      (auto split: option.splits dest!: cond simp: algebra_simps)
qed

text \<open>
  A decision and its execution agree: when the boundary decision executes on a snapshot,
  the automatic spot-triggered plan made for that side passes the entry check on the same
  snapshot as long as the snapshot is not from the future and not older than the maximum plan
  age.  An automatic plan that passes was made for the side the position is still on.
\<close>

theorem entry_check_agrees_with_decision:
  assumes "ba_tick a = tick snap" and "ba_tickLower a = tickLower snap" and "ba_tickUpper a = tickUpper snap"
    and "tickLower snap < tickUpper snap" and "source (trigger config) = Spot"
    and "\<not> manualExecution plan" and "plan_action plan \<noteq> CollectFees"
    and "observedAt snap \<le> now" and "now - observedAt snap \<le> maxPlanAgeSeconds (safeguards config)"
    and "triggerSide plan \<in> {Lower, Upper}"
  shows "(decideBoundaryTrigger a = ExecuteTrigger (triggerSide plan) act t \<longrightarrow>
            assertEntryTrigger config plan snap now avg = Inr ()) \<and>
         (assertEntryTrigger config plan snap now avg = Inr () \<longleftrightarrow>
            (triggerSide plan = Lower \<and> tick snap < tickLower snap \<or>
             triggerSide plan = Upper \<and> tickUpper snap \<le> tick snap))"
proof -
  have entry: "assertEntryTrigger config plan snap now avg = Inr () \<longleftrightarrow>
      rangeSide (of_int (tick snap)) (tickLower snap) (tickUpper snap) = expected_side (triggerSide plan)"
    using assms by (auto simp: assertEntryTrigger_def Let_def)
  have sides: "expected_side (triggerSide plan) = (if triggerSide plan = Lower then SideLower else SideUpper)"
    using assms(10) by (auto simp: expected_side_def)
  have dec: "rangeSide (of_int (tick snap)) (tickLower snap) (tickUpper snap) = expected_side (triggerSide plan)"
    if "decideBoundaryTrigger a = ExecuteTrigger (triggerSide plan) act t"
    using that assms(1-3) unfolding sides decideBoundaryTrigger_def Let_def
    by (cases "rangeSide (of_int (tick snap)) (tickLower snap) (tickUpper snap)") (auto split: if_splits)
  show ?thesis
    using entry dec assms(4,10) sides by (auto split: if_splits)
qed

definition sample_boundary :: boundary_args where
  "sample_boundary = \<lparr>ba_tick = -700, ba_tickLower = -600, ba_tickUpper = 600, ba_lower = sample_policy,
     ba_upper = sample_policy, ba_now = 1060, outOfRangeSince = Some 900, ba_confirmationSeconds = 60,
     cooldownUntil = None, netAprPct = None, ba_minNetAprPct = None\<rparr>"

theorem entry_check_agrees_with_decision_witness:
  "assertEntryTrigger sample_config sample_plan (sample_snapshot\<lparr>tick := -700\<rparr>) 1060 None = Inr ()"
proof -
  have d: "decideBoundaryTrigger sample_boundary = ExecuteTrigger (triggerSide sample_plan) Recenter 1060"
    by code_simp
  show ?thesis
    using entry_check_agrees_with_decision [of sample_boundary "sample_snapshot\<lparr>tick := -700\<rparr>" sample_config
        sample_plan 1060 Recenter 1060 None] d
    by (simp add: sample_boundary_def sample_snapshot_def sample_config_def sample_plan_def
        sample_safeguards_def)
qed

text \<open>
  The economics gate only defers, and only for a bounded time: a deferral happens only
  with a positive coverage and cost and with fees below the requirement, its release time is
  in the future and is exactly the start of the out-of-range stretch plus the whole-second
  hold, and once that time has come the gate executes whatever the fees are.
\<close>

theorem economics_gate_bounded:
  "(\<forall>u f c. decideCycleEconomics now (Some since) fee cost cov hold = EconWait u f c \<longrightarrow>
      now < u \<and> u = since + max 0 \<lfloor>hold\<rfloor> \<and> f = fee \<and> cost = Some c \<and> 0 < c \<and> 0 \<le> fee \<and>
      (\<exists>k. cov = Some k \<and> 0 < k \<and> fee < required_fees c k)) \<and>
   (since + max 0 \<lfloor>hold\<rfloor> \<le> now \<longrightarrow>
      decideCycleEconomics now (Some since) fee cost cov hold = EconExecute)"
  by (auto simp: decideCycleEconomics_def math_floor_def Let_def not_le split: option.splits if_splits)

theorem economics_gate_bounded_witness:
  "decideCycleEconomics 5000 (Some 1000) 3 (Some 10) (Some 1) 3600 = EconExecute \<and>
   decideCycleEconomics 2000 (Some 1000) 3 (Some 10) (Some 1) 3600 = EconWait 4600 3 10"
proof -
  have "decideCycleEconomics 2000 (Some 1000) 3 (Some 10) (Some 1) 3600 = EconWait 4600 3 10" by code_simp
  moreover have "decideCycleEconomics 5000 (Some 1000) 3 (Some 10) (Some 1) 3600 = EconExecute"
    using economics_gate_bounded [of 5000 1000 3 "Some 10" "Some 1" 3600, THEN conjunct2] by simp
  ultimately show ?thesis by blast
qed

text \<open>
  The lower-break cap releases itself at a known time: for cycles listed newest first, if
  the streak blocks now then a release time is reported, the cap keeps blocking at every
  instant up to and including that time, and it no longer blocks at any later instant.  (It
  is one second later than the time reported as the release.)
\<close>

theorem lower_break_cap_releases:
  assumes "0 < k" and "k \<le> int (countConsecutiveLowerBreaks cs now w)"
    and "\<forall>i j. i \<le> j \<and> j < length cs \<longrightarrow> completedAt (cs ! j) \<le> completedAt (cs ! i)"
  shows "\<exists>r. consecutiveLowerBreakResetAt cs now w k = Some r \<and> now \<le> r \<and>
           (\<forall>t. now \<le> t \<longrightarrow> (k \<le> int (countConsecutiveLowerBreaks cs t w) \<longleftrightarrow> t \<le> r))"
proof -
  define n where "n = nat k"
  have n: "0 < n" "k = int n" "nat (k - 1) = n - 1" using assms(1) by (simp_all add: n_def)
  have blocked: "n \<le> length cs" "\<forall>i < n. cc_triggerSide (cs ! i) = Some ''lower'' \<and> now - w \<le> completedAt (cs ! i)"
    using assms(2) count_ge_iff [of n cs now w] n by simp_all
  define r where "r = completedAt (cs ! (n - 1)) + w"
  have last: "cc_triggerSide (cs ! (n - 1)) = Some ''lower''" "now - w \<le> completedAt (cs ! (n - 1))"
    using blocked(2) n(1) by simp_all
  have "consecutiveLowerBreakResetAt cs now w k = Some r"
    using assms(1,2) last blocked(1) n by (simp add: consecutiveLowerBreakResetAt_def r_def not_le)
  moreover have "now \<le> r" using last(2) by (simp add: r_def)
  moreover have "k \<le> int (countConsecutiveLowerBreaks cs t w) \<longleftrightarrow> t \<le> r" for t
  proof -
    have "(\<forall>i < n. t - w \<le> completedAt (cs ! i)) \<longleftrightarrow> t - w \<le> completedAt (cs ! (n - 1))"
    proof
      assume "\<forall>i < n. t - w \<le> completedAt (cs ! i)"
      with n(1) show "t - w \<le> completedAt (cs ! (n - 1))" by simp
    next
      assume le: "t - w \<le> completedAt (cs ! (n - 1))"
      show "\<forall>i < n. t - w \<le> completedAt (cs ! i)"
      proof (intro allI impI)
        fix i assume "i < n"
        then have "i \<le> n - 1 \<and> n - 1 < length cs" using blocked(1) by auto
        then have "completedAt (cs ! (n - 1)) \<le> completedAt (cs ! i)" using assms(3) by blast
        with le show "t - w \<le> completedAt (cs ! i)" by linarith
      qed
    qed
    with blocked n show ?thesis by (auto simp: count_ge_iff r_def)
  qed
  ultimately show ?thesis by blast
qed

definition sample_cycles :: "completed_cycle list" where
  "sample_cycles = [\<lparr>cc_triggerSide = Some ''lower'', completedAt = 900\<rparr>,
                    \<lparr>cc_triggerSide = Some ''lower'', completedAt = 500\<rparr>]"

theorem lower_break_cap_releases_witness:
  "\<exists>r. consecutiveLowerBreakResetAt sample_cycles 1000 600 2 = Some r \<and>
       2 \<le> int (countConsecutiveLowerBreaks sample_cycles r 600) \<and>
       \<not> 2 \<le> int (countConsecutiveLowerBreaks sample_cycles (r + 1) 600)"
proof -
  have h: "2 \<le> int (countConsecutiveLowerBreaks sample_cycles 1000 600)"
    by (simp add: sample_cycles_def)
  have s: "\<forall>i j. i \<le> j \<and> j < length sample_cycles \<longrightarrow>
      completedAt (sample_cycles ! j) \<le> completedAt (sample_cycles ! i)"
    by (auto simp: sample_cycles_def less_Suc_eq nth_Cons split: nat.splits)
  from lower_break_cap_releases [OF _ h s] show ?thesis by fastforce
qed

text \<open>
  The cost-basis search finds the first block: when the state exists exactly from block
  first on and the chain can be read at every block up to the snapshot, the binary search
  returns that first block, and it is an error exactly when the state does not exist at the
  snapshot.
\<close>

theorem firstExistingBlock_least:
  assumes "0 \<le> hi" and "0 \<le> first"
    and "\<forall>x. 0 \<le> x \<longrightarrow> x \<le> hi \<longrightarrow> ex x = Inr (first \<le> x)"
  shows "firstExistingBlock hi ex =
    (if first \<le> hi then Inr first
     else Inl (JsError ''position did not exist at the accounting snapshot''))"
proof -
  have up: "ex hi = Inr (first \<le> hi)" using assms by simp
  show ?thesis
  proof (cases "first \<le> hi")
    case True
    have "isInr (search_block ex 0 hi)"
      using assms by (intro search_block_total) (simp_all)
    then obtain b where b: "search_block ex 0 hi = Inr b" by (auto simp: isInr_iff)
    have "b = max 0 first"
      using True up assms by (intro search_block_spec [OF b]) simp_all
    with True up b assms(2) show ?thesis by (simp add: firstExistingBlock_def)
  next
    case False
    with up show ?thesis by (simp add: firstExistingBlock_def)
  qed
qed

theorem firstExistingBlock_least_witness:
  "firstExistingBlock 100 (\<lambda>x. Inr (37 \<le> x)) = Inr 37"
  using firstExistingBlock_least [of 100 37 "\<lambda>x. Inr (37 \<le> x)"] by simp

end
