(* ===== verification/Sqlite.thy ===== *)
theory Sqlite
  imports Prelude
begin

text \<open>
  The part of SQLite the stores rely on.  A table is the list of its rows in insertion order.
  A statement is one of the functions below: \<open>UPDATE ... WHERE\<close>, \<open>DELETE ... WHERE\<close>,
  \<open>INSERT\<close> under a key, \<open>INSERT OR IGNORE\<close>, \<open>INSERT OR REPLACE\<close> and
  \<open>INSERT ... ON CONFLICT DO UPDATE\<close>.  A violated UNIQUE or FOREIGN KEY constraint is the
  error value SQLite raises; the code's \<open>BEGIN ... ROLLBACK\<close> blocks re-throw it, so an
  operation that answers \<open>Inl\<close> leaves the database as it was.
\<close>

section \<open>Statements\<close>

definition select_where :: "('r \<Rightarrow> bool) \<Rightarrow> 'r list \<Rightarrow> 'r list" where
  "select_where p t = filter p t"

definition get_where :: "('r \<Rightarrow> bool) \<Rightarrow> 'r list \<Rightarrow> 'r option" where
  "get_where p t = find p t"

definition exists_where :: "('r \<Rightarrow> bool) \<Rightarrow> 'r list \<Rightarrow> bool" where
  "exists_where p t = list_ex p t"

definition update_where :: "('r \<Rightarrow> bool) \<Rightarrow> ('r \<Rightarrow> 'r) \<Rightarrow> 'r list \<Rightarrow> 'r list" where
  "update_where p f t = map (\<lambda>r. if p r then f r else r) t"

definition delete_where :: "('r \<Rightarrow> bool) \<Rightarrow> 'r list \<Rightarrow> 'r list" where
  "delete_where p t = filter (\<lambda>r. \<not> p r) t"

definition count_where :: "('r \<Rightarrow> bool) \<Rightarrow> 'r list \<Rightarrow> int" where
  "count_where p t = int (length (filter p t))"

definition insert_row :: "('r \<Rightarrow> 'k) \<Rightarrow> 'r \<Rightarrow> 'r list \<Rightarrow> 'r list res" where
  "insert_row key r t = (if list_ex (\<lambda>x. key x = key r) t then Inl UniqueFailed else Inr (t @ [r]))"

definition insert_or_ignore :: "('r \<Rightarrow> 'k) \<Rightarrow> 'r \<Rightarrow> 'r list \<Rightarrow> 'r list" where
  "insert_or_ignore key r t = (if list_ex (\<lambda>x. key x = key r) t then t else t @ [r])"

definition insert_or_replace :: "('r \<Rightarrow> 'k) \<Rightarrow> 'r \<Rightarrow> 'r list \<Rightarrow> 'r list" where
  "insert_or_replace key r t = delete_where (\<lambda>x. key x = key r) t @ [r]"

text \<open>\<open>ON CONFLICT(key) DO UPDATE\<close>: \<open>f\<close> changes the row that is already there.\<close>

definition upsert :: "('r \<Rightarrow> 'k) \<Rightarrow> ('r \<Rightarrow> 'r) \<Rightarrow> 'r \<Rightarrow> 'r list \<Rightarrow> 'r list" where
  "upsert key f r t =
     (if list_ex (\<lambda>x. key x = key r) t then update_where (\<lambda>x. key x = key r) f t else t @ [r])"

definition sum_where :: "('r \<Rightarrow> bool) \<Rightarrow> ('r \<Rightarrow> int) \<Rightarrow> 'r list \<Rightarrow> int" where
  "sum_where p v t = sum_list (map v (filter p t))"

text \<open>\<open>MAX(column)\<close> over the matching rows, \<open>None\<close> for SQL's NULL.\<close>

definition max_where :: "('r \<Rightarrow> bool) \<Rightarrow> ('r \<Rightarrow> int) \<Rightarrow> 'r list \<Rightarrow> int option" where
  "max_where p v t = (case filter p t of [] \<Rightarrow> None | r # rs \<Rightarrow> Some (foldl max (v r) (map v rs)))"

text \<open>\<open>COALESCE(a, b)\<close>.\<close>

definition coalesce :: "'a option \<Rightarrow> 'a option \<Rightarrow> 'a option" where
  "coalesce a b = (case a of None \<Rightarrow> b | Some x \<Rightarrow> Some x)"

lemma coalesce_simps [simp]: "coalesce None b = b" "coalesce (Some x) b = Some x"
  by (simp_all add: coalesce_def)

section \<open>Keys\<close>

definition keys_ok :: "('r \<Rightarrow> 'k) \<Rightarrow> 'r list \<Rightarrow> bool" where
  "keys_ok key t \<longleftrightarrow> distinct (map key t)"

named_theorems table_intros \<open>statements keep the key constraint of their table\<close>

lemma keys_ok_Nil [simp]: "keys_ok key []"
  by (simp add: keys_ok_def)

lemma map_update_where [simp]: "(\<And>r. key (f r) = key r) \<Longrightarrow> map key (update_where p f t) = map key t"
  by (induction t) (simp_all add: update_where_def)

lemma keys_ok_update [table_intros]:
  "keys_ok key t \<Longrightarrow> (\<And>r. key (f r) = key r) \<Longrightarrow> keys_ok key (update_where p f t)"
  by (simp add: keys_ok_def)

lemma keys_ok_delete [table_intros]: "keys_ok key t \<Longrightarrow> keys_ok key (delete_where p t)"
  by (simp add: keys_ok_def delete_where_def distinct_map_filter)

lemma keys_ok_snoc: "keys_ok key (t @ [r]) \<longleftrightarrow> keys_ok key t \<and> (\<forall>x \<in> set t. key x \<noteq> key r)"
  by (auto simp: keys_ok_def image_iff)

lemma keys_ok_insert: "insert_row key r t = Inr t' \<Longrightarrow> keys_ok key t \<Longrightarrow> keys_ok key t'"
  by (auto simp: insert_row_def keys_ok_snoc list_ex_iff split: if_splits)

lemma keys_ok_insert_or_ignore [table_intros]: "keys_ok key t \<Longrightarrow> keys_ok key (insert_or_ignore key r t)"
  by (auto simp: insert_or_ignore_def keys_ok_snoc list_ex_iff)

lemma keys_ok_insert_or_replace [table_intros]: "keys_ok key t \<Longrightarrow> keys_ok key (insert_or_replace key r t)"
  by (auto simp: insert_or_replace_def keys_ok_snoc delete_where_def keys_ok_def distinct_map_filter)

lemma keys_ok_upsert [table_intros]:
  "keys_ok key t \<Longrightarrow> (\<And>x. key (f x) = key x) \<Longrightarrow> keys_ok key (upsert key f r t)"
  by (auto simp: upsert_def list_ex_iff keys_ok_snoc intro: keys_ok_update)

section \<open>Reading back\<close>

lemma get_where_Some_iff:
  "keys_ok key t \<Longrightarrow> get_where (\<lambda>r. key r = k) t = Some r \<longleftrightarrow> r \<in> set t \<and> key r = k"
  by (induction t) (auto simp: get_where_def keys_ok_def)

lemma get_where_SomeD: "get_where p t = Some r \<Longrightarrow> r \<in> set t \<and> p r"
  by (auto simp: get_where_def find_Some_iff)

lemma get_where_None_iff: "get_where p t = None \<longleftrightarrow> (\<forall>r \<in> set t. \<not> p r)"
  by (auto simp: get_where_def find_None_iff)

lemma get_where_append:
  "get_where p (t @ u) = (case get_where p t of None \<Rightarrow> get_where p u | Some r \<Rightarrow> Some r)"
  by (induction t) (auto simp: get_where_def)

lemma get_where_single [simp]: "get_where p [r] = (if p r then Some r else None)"
  by (simp add: get_where_def)

lemma set_update_where: "set (update_where p f t) = (\<lambda>r. if p r then f r else r) ` set t"
  by (simp add: update_where_def)

lemma update_where_id: "(\<And>r. r \<in> set t \<Longrightarrow> \<not> p r) \<Longrightarrow> update_where p f t = t"
  by (induction t) (auto simp: update_where_def)

lemma get_update_same:
  "(\<And>r. key (f r) = key r) \<Longrightarrow>
   get_where (\<lambda>r. key r = k) (update_where (\<lambda>r. key r = k) f t) = map_option f (get_where (\<lambda>r. key r = k) t)"
  by (induction t) (auto simp: get_where_def update_where_def)

lemma get_update_other:
  "(\<And>r. key (f r) = key r) \<Longrightarrow> (\<And>r. key r = k \<Longrightarrow> \<not> p r) \<Longrightarrow>
   get_where (\<lambda>r. key r = k) (update_where p f t) = get_where (\<lambda>r. key r = k) t"
  by (induction t) (auto simp: get_where_def update_where_def)

lemma get_insert_same:
  "insert_row key r t = Inr t' \<Longrightarrow> get_where (\<lambda>x. key x = key r) t' = Some r"
  by (auto simp: insert_row_def get_where_def list_ex_iff find_Some_iff split: if_splits)
    (metis (no_types, lifting) length_append_singleton lessI less_antisym nth_append nth_append_length nth_mem)

lemma get_upsert:
  assumes "\<And>x. key (f x) = key x"
  shows "get_where (\<lambda>x. key x = k) (upsert key f r t)
     = (if k = key r then (case get_where (\<lambda>x. key x = k) t of None \<Rightarrow> Some r | Some x \<Rightarrow> Some (f x))
        else get_where (\<lambda>x. key x = k) t)"
proof (cases "list_ex (\<lambda>x. key x = key r) t")
  case True
  then obtain y where "get_where (\<lambda>x. key x = key r) t = Some y"
    by (cases "get_where (\<lambda>x. key x = key r) t") (auto simp: get_where_None_iff list_ex_iff)
  with True show ?thesis
    using get_update_same [of key f "key r" t] get_update_other [of key f k "\<lambda>x. key x = key r" t]
    by (auto simp: upsert_def assms)
next
  case False
  then have "get_where (\<lambda>x. key x = key r) t = None" by (auto simp: get_where_None_iff list_ex_iff)
  with False show ?thesis by (auto simp: upsert_def get_where_append split: option.splits)
qed

lemma insert_row_Inr: "insert_row key r t = Inr t' \<longleftrightarrow> (\<forall>x \<in> set t. key x \<noteq> key r) \<and> t' = t @ [r]"
  by (auto simp: insert_row_def list_ex_iff)

section \<open>Sums\<close>

lemma sum_where_Nil [simp]: "sum_where p v [] = 0"
  by (simp add: sum_where_def)

lemma sum_where_Cons [simp]: "sum_where p v (r # t) = (if p r then v r else 0) + sum_where p v t"
  by (simp add: sum_where_def)

lemma sum_where_append [simp]: "sum_where p v (t @ u) = sum_where p v t + sum_where p v u"
  by (simp add: sum_where_def)

lemma sum_where_nonneg: "(\<And>r. r \<in> set t \<Longrightarrow> p r \<Longrightarrow> 0 \<le> v r) \<Longrightarrow> 0 \<le> sum_where p v t"
  by (induction t) (simp_all add: add_nonneg_nonneg)

lemma sum_where_mono:
  "(\<And>r. r \<in> set t \<Longrightarrow> p r \<Longrightarrow> q r) \<Longrightarrow> (\<And>r. r \<in> set t \<Longrightarrow> q r \<Longrightarrow> 0 \<le> v r) \<Longrightarrow>
   sum_where p v t \<le> sum_where q v t"
  by (induction t) (auto simp: add_mono add_increasing)

lemma sum_where_cong:
  "(\<And>r. r \<in> set t \<Longrightarrow> p r \<longleftrightarrow> q r) \<Longrightarrow> sum_where p v t = sum_where q v t"
  by (induction t) auto

lemma sum_where_update_le:
  assumes "\<And>r. r \<in> set t \<Longrightarrow> u r \<Longrightarrow> (if p (f r) then v (f r) else 0) \<le> (if p r then v r else 0)"
  shows "sum_where p v (update_where u f t) \<le> sum_where p v t"
  using assms
proof (induction t)
  case (Cons a t)
  then have "sum_where p v (update_where u f t) \<le> sum_where p v t" by simp
  with Cons.prems [of a] show ?case
    by (cases "u a") (simp_all add: update_where_def add_mono del: if_split)
qed (simp add: update_where_def)

lemma sum_where_update_eq:
  assumes "\<And>r. r \<in> set t \<Longrightarrow> u r \<Longrightarrow> (if p (f r) then v (f r) else 0) = (if p r then v r else 0)"
  shows "sum_where p v (update_where u f t) = sum_where p v t"
  using assms
proof (induction t)
  case (Cons a t)
  then have "sum_where p v (update_where u f t) = sum_where p v t" by simp
  with Cons.prems [of a] show ?case
    by (cases "u a") (simp_all add: update_where_def del: if_split)
qed (simp add: update_where_def)

text \<open>Changing the one row of a key: the sum without that row, plus its new value.\<close>

lemma sum_where_absent:
  "(\<And>r. r \<in> set t \<Longrightarrow> key r \<noteq> k) \<Longrightarrow> sum_where (\<lambda>r. p r \<and> key r \<noteq> k) v t = sum_where p v t"
  by (rule sum_where_cong) auto

lemma sum_where_update_one:
  assumes "keys_ok key t" and "get_where (\<lambda>r. key r = k) t = Some x" and "\<And>r. key (f r) = key r"
  shows "sum_where p v (update_where (\<lambda>r. key r = k) f t)
           = sum_where (\<lambda>r. p r \<and> key r \<noteq> k) v t + (if p (f x) then v (f x) else 0)"
  using assms(1,2)
proof (induction t)
  case Nil
  then show ?case by (simp add: get_where_def)
next
  case (Cons r t)
  show ?case
  proof (cases "key r = k")
    case True
    then have "x = r" and "\<forall>y \<in> set t. key y \<noteq> k"
      using Cons.prems by (auto simp: get_where_def keys_ok_def image_iff)
    then have "update_where (\<lambda>r. key r = k) f t = t"
      and "sum_where (\<lambda>r. p r \<and> key r \<noteq> k) v t = sum_where p v t"
      by (simp_all add: update_where_id sum_where_absent)
    with True \<open>x = r\<close> show ?thesis by (simp add: update_where_def)
  next
    case False
    with Cons show ?thesis by (auto simp: update_where_def keys_ok_def get_where_def)
  qed
qed

lemma sum_where_split_key:
  assumes "keys_ok key t" and "get_where (\<lambda>r. key r = k) t = Some x"
  shows "sum_where p v t = sum_where (\<lambda>r. p r \<and> key r \<noteq> k) v t + (if p x then v x else 0)"
proof -
  have "update_where (\<lambda>r. key r = k) (\<lambda>r. r) t = t" by (simp add: update_where_def)
  with sum_where_update_one [OF assms, of "\<lambda>r. r" p v] show ?thesis by simp
qed

text \<open>Sums over rows selected by their key, before and after writing one key.\<close>

lemma sum_upsert:
  assumes "keys_ok key t" and "\<And>x. key (f x) = key x" and "\<And>x. v (f x) = n" and "v r = n"
  shows "sum_where (\<lambda>x. p (key x)) v (upsert key f r t)
     = sum_where (\<lambda>x. p (key x) \<and> key x \<noteq> key r) v t + (if p (key r) then n else 0)"
proof (cases "list_ex (\<lambda>x. key x = key r) t")
  case True
  then obtain y where y: "get_where (\<lambda>x. key x = key r) t = Some y"
    by (cases "get_where (\<lambda>x. key x = key r) t") (auto simp: get_where_None_iff list_ex_iff)
  have "key y = key r" using get_where_SomeD [OF y] by simp
  with sum_where_update_one [OF assms(1) y assms(2), of "\<lambda>x. p (key x)" v] True show ?thesis
    by (simp add: upsert_def assms)
next
  case False
  then have "sum_where (\<lambda>x. p (key x) \<and> key x \<noteq> key r) v t = sum_where (\<lambda>x. p (key x)) v t"
    by (intro sum_where_absent) (auto simp: list_ex_iff)
  with False assms(4) show ?thesis by (simp add: upsert_def)
qed

end
