(* ===== verification/StoreState.thy ===== *)
theory StoreState
  imports Sqlite Types BigText
begin

text \<open>
  The durable state of the executor: the tables of \<open>executor/store.ts\<close>,
  \<open>executor/fablesStore.ts\<close> and \<open>executor/fablesJobs.ts\<close> (one SQLite file), their keys, unique
  indexes and references, and the redaction of URLs in stored text.

  Columns holding the decimal text of a BigInt are \<open>int\<close>; a JSON column is the value it
  encodes.  A NULL column is \<open>None\<close>.
\<close>

section \<open>Column types\<close>

datatype json = JNull | JBool bool | JNum rat | JStr string | JArr "json list" | JObj "(string \<times> json) list"

datatype job_state = Planned | Running | Recovery | Completed | Failed | Cancelled

definition is_open :: "job_state \<Rightarrow> bool" where
  "is_open s \<longleftrightarrow> s \<in> {Planned, Running, Recovery}"

datatype tx_state = Pending | Sending | Sent | Confirmed | FailedTx | Reviewed

definition in_flight :: "tx_state \<Rightarrow> bool" where
  "in_flight s \<longleftrightarrow> s \<in> {Sending, Sent}"

datatype reservation = Reserved | Counted | Released

definition counts :: "reservation \<Rightarrow> bool" where
  "counts s \<longleftrightarrow> s \<in> {Reserved, Counted}"

text \<open>What \<open>plan_json\<close> holds: a rebalance plan or the description of a profit withdrawal.\<close>

datatype job_payload = PlanPayload execution_plan | ProfitPayload string string

section \<open>Rows\<close>

record wallet_row =
  w_id :: string
  w_label :: string
  w_address :: string
  w_vault_path :: string
  w_created :: int
  w_updated :: int

record strategy_row =
  st_id :: string
  st_wallet_id :: "string option"
  st_config :: strategy_config
  st_state :: string
  st_updated :: int

record job_row =
  job_id :: string
  job_strategy_id :: string
  job_plan :: job_payload
  job_state :: job_state
  job_created :: int
  job_updated :: int
  recovery_attempts :: int
  recovery_error_streak :: int
  recovery_last_error :: "string option"
  recovery_next_at :: "int option"
  recovery_quarantined_at :: "int option"
  recovery_fail_streak :: int

record step_row =
  sr_job_id :: string
  sr_index :: int
  sr_kind :: string
  sr_state :: tx_state
  sr_nonce :: "int option"
  sr_tx_hash :: "string option"
  sr_tx_to :: "string option"
  sr_calldata_hash :: "string option"
  sr_sent_at :: "int option"
  sr_confirmed_at :: "int option"
  sr_block_number :: "int option"
  sr_result :: "json option"
  sr_error :: "string option"

record tx_row =
  t_job_id :: string
  t_step_index :: int
  t_tx_index :: int
  t_state :: tx_state
  t_nonce :: "int option"
  t_tx_hash :: "string option"
  t_tx_to :: string
  t_calldata_hash :: string
  t_sent_at :: "int option"
  t_confirmed_at :: "int option"
  t_block_number :: "int option"
  t_result :: "json option"
  t_error :: "string option"

record alloc_row =
  al_strategy_id :: string
  al_token :: string
  al_amount :: int
  al_updated :: int

record component_row =
  cp_strategy_id :: string
  cp_token :: string
  cp_principal :: int
  cp_held_fee :: int
  cp_held_profit :: int
  cp_updated :: int

record ledger_row =
  le_id :: string
  le_strategy_id :: string
  le_cycle_id :: "string option"
  le_job_id :: "string option"
  le_ts :: int
  le_block_number :: "string option"
  le_tx_hash :: "string option"
  le_kind :: ledger_kind
  le_token :: "string option"
  le_amount :: "int option"
  le_quote_value :: "int option"
  le_meta :: "(string \<times> json) list"
  le_estimated :: bool

record gas_row =
  gv_tx_hash :: string
  gv_strategy_id :: string
  gv_job_id :: string
  gv_block_number :: string
  gv_observed_at :: int
  gv_gas_wei :: int
  gv_quote_token :: string
  gv_quote_value :: "int option"
  gv_settlement_token :: string
  gv_settlement_value :: "int option"
  gv_version :: int
  gv_quote_source :: "string option"
  gv_settlement_source :: "string option"
  gv_error :: "string option"

record cycle_row =
  cy_id :: string
  cy_strategy_id :: string
  cy_old_token_id :: "string option"
  cy_new_token_id :: "string option"
  cy_started :: int
  cy_completed :: int
  cy_trigger_side :: string
  cy_range_scale :: rat
  cy_status :: string
  cy_tx_hashes :: "string list"

record turnover_row =
  tr_job_id :: string
  tr_wallet_id :: string
  tr_token :: string
  tr_day :: int
  tr_amount :: int
  tr_state :: reservation
  tr_updated :: int

record context_row =
  cx_job_id :: string
  cx_key :: string
  cx_value :: json
  cx_updated :: int

record monitor_row =
  mo_strategy_id :: string
  mo_revision :: int
  mo_out_side :: "string option"
  mo_out_since :: "int option"
  mo_cooldown_until :: "int option"
  mo_guard_reason :: "string option"
  mo_guard_stable_since :: "int option"
  mo_burst_wait_until :: "int option"
  mo_burst_reset_at :: "int option"
  mo_econ_wait_until :: "int option"
  mo_econ_fees_quote :: "string option"
  mo_econ_cost_quote :: "string option"
  mo_last_tick :: "int option"
  mo_last_liquidity :: "string option"
  mo_last_token_id :: "string option"
  mo_updated :: int

record price_row =
  pr_strategy_id :: string
  pr_ts :: int
  pr_tick :: int
  pr_block_number :: string

record audit_row =
  au_ts :: int
  au_actor :: string
  au_action :: string
  au_target_type :: "string option"
  au_target_id :: "string option"
  au_detail :: "(string \<times> string) list"

record baseline_row =
  bl_strategy_id :: string
  bl_value_quote :: int
  bl_value_usdg :: "int option"
  bl_quote_token :: string
  bl_observed_at :: int
  bl_block_number :: string
  bl_token_id :: "string option"
  bl_tick :: int
  bl_source :: string

record history_row =
  hi_strategy_id :: string
  hi_archived_at :: int
  hi_asset_location :: string
  hi_performance :: "json option"

record daily_row =
  da_strategy_id :: string
  da_day :: int
  da_first_observed_at :: int
  da_last_observed_at :: int
  da_quote_token :: string
  da_quote_symbol :: string
  da_quote_decimals :: int
  da_opening_pnl :: "int option"
  da_closing_pnl :: "int option"
  da_opening_pnl_usdg :: "int option"
  da_closing_pnl_usdg :: "int option"
  da_opening_fees :: int
  da_closing_fees :: int
  da_opening_gas :: int
  da_closing_gas :: int
  da_opening_execution :: int
  da_closing_execution :: int
  da_opening_assets :: "int option"
  da_closing_assets :: "int option"
  da_opening_assets_usdg :: "int option"
  da_closing_assets_usdg :: "int option"
  da_opening_reopens :: int
  da_closing_reopens :: int

record pnl_row =
  pn_strategy_id :: string
  pn_bucket_at :: int
  pn_observed_at :: int
  pn_quote_token :: string
  pn_quote_symbol :: string
  pn_quote_decimals :: int
  pn_pnl :: "int option"
  pn_pnl_usdg :: "int option"

text \<open>The Fables tables.\<close>

datatype fables_stage =
  FPrecheck | FExit | FClaim | FBalance | FFeeConversionApproval | FFeeConversion
| FSwapApproval | FSwap | FDepositApproval | FDeposit | FVerify

record fables_strategy_row =
  fst_id :: string
  fst_owner :: string
  fst_pool_id :: string
  fst_hook :: string
  fst_range_id :: string
  fst_wallet_id :: "string option"
  fst_config :: fables_strategy_config
  fst_enabled :: bool
  fst_state :: string
  fst_updated :: int

record fables_monitor_row =
  fm_strategy_id :: string
  fm_revision :: int
  fm_out_side :: "string option"
  fm_out_since :: "int option"
  fm_cooldown_until :: "int option"
  fm_last_tick :: "int option"
  fm_last_block :: "int option"
  fm_error :: "string option"
  fm_updated :: int

record fables_job_row =
  fj_id :: string
  fj_strategy_id :: string
  fj_wallet_id :: string
  fj_config :: fables_strategy_config
  fj_state :: job_state
  fj_stage :: fables_stage
  fj_context :: json
  fj_error :: "string option"
  fj_created :: int
  fj_updated :: int

record fables_tx_row =
  ft_job_id :: string
  ft_ordinal :: int
  ft_stage :: fables_stage
  ft_state :: tx_state
  ft_nonce :: int
  ft_tx_hash :: string
  ft_tx_to :: string
  ft_calldata_hash :: string
  ft_signed_tx :: "string option"
  ft_block_number :: "int option"
  ft_gas_used :: "int option"
  ft_gas_price :: "int option"
  ft_error :: "string option"
  ft_updated :: int

record fables_ledger_row =
  fl_strategy_id :: string
  fl_job_id :: string
  fl_ts :: int
  fl_block_number :: "int option"
  fl_tx_hash :: "string option"
  fl_kind :: string
  fl_token :: "string option"
  fl_amount :: "int option"
  fl_meta :: json

record fables_turnover_row =
  fr_job_id :: string
  fr_ordinal :: int
  fr_wallet_id :: string
  fr_token :: string
  fr_day :: int
  fr_amount :: int
  fr_state :: reservation
  fr_updated :: int

section \<open>The database\<close>

record db =
  wallets :: "wallet_row list"
  strategies :: "strategy_row list"
  jobs :: "job_row list"
  job_steps :: "step_row list"
  job_transactions :: "tx_row list"
  allocations :: "alloc_row list"
  components :: "component_row list"
  ledger :: "ledger_row list"
  gas_valuations :: "gas_row list"
  cycles :: "cycle_row list"
  turnover :: "turnover_row list"
  contexts :: "context_row list"
  monitors :: "monitor_row list"
  prices :: "price_row list"
  audits :: "audit_row list"
  paused_flag :: "bool option"
  baselines :: "baseline_row list"
  history :: "history_row list"
  daily :: "daily_row list"
  pnl :: "pnl_row list"
  fables_strategies :: "fables_strategy_row list"
  fables_monitors :: "fables_monitor_row list"
  fables_jobs :: "fables_job_row list"
  fables_txs :: "fables_tx_row list"
  fables_ledger :: "fables_ledger_row list"
  fables_turnover :: "fables_turnover_row list"

definition empty_db :: db where
  "empty_db = \<lparr>wallets = [], strategies = [], jobs = [], job_steps = [], job_transactions = [],
     allocations = [], components = [], ledger = [], gas_valuations = [], cycles = [], turnover = [],
     contexts = [], monitors = [], prices = [], audits = [], paused_flag = None, baselines = [],
     history = [], daily = [], pnl = [], fables_strategies = [], fables_monitors = [],
     fables_jobs = [], fables_txs = [], fables_ledger = [], fables_turnover = []\<rparr>"

text \<open>Primary keys made of several columns.\<close>

definition step_key :: "step_row \<Rightarrow> string \<times> int" where
  "step_key r = (sr_job_id r, sr_index r)"

definition tx_key :: "tx_row \<Rightarrow> string \<times> int \<times> int" where
  "tx_key r = (t_job_id r, t_step_index r, t_tx_index r)"

definition alloc_key :: "alloc_row \<Rightarrow> string \<times> string" where
  "alloc_key r = (al_strategy_id r, al_token r)"

definition component_key :: "component_row \<Rightarrow> string \<times> string" where
  "component_key r = (cp_strategy_id r, cp_token r)"

definition turnover_key :: "turnover_row \<Rightarrow> string \<times> string" where
  "turnover_key r = (tr_job_id r, tr_token r)"

definition context_key :: "context_row \<Rightarrow> string \<times> string" where
  "context_key r = (cx_job_id r, cx_key r)"

definition price_key :: "price_row \<Rightarrow> string \<times> int" where
  "price_key r = (pr_strategy_id r, pr_ts r)"

definition daily_key :: "daily_row \<Rightarrow> string \<times> int" where
  "daily_key r = (da_strategy_id r, da_day r)"

definition pnl_key :: "pnl_row \<Rightarrow> string \<times> int" where
  "pnl_key r = (pn_strategy_id r, pn_bucket_at r)"

definition fables_tx_key :: "fables_tx_row \<Rightarrow> string \<times> int" where
  "fables_tx_key r = (ft_job_id r, ft_ordinal r)"

definition fables_turnover_key :: "fables_turnover_row \<Rightarrow> string \<times> int" where
  "fables_turnover_key r = (fr_job_id r, fr_ordinal r)"

section \<open>Unique indexes on open jobs\<close>

text \<open>\<open>one_open_job_per_strategy\<close> and its two Fables counterparts.\<close>

definition one_open_job_per_strategy :: "job_row list \<Rightarrow> bool" where
  "one_open_job_per_strategy js \<longleftrightarrow>
     distinct (map job_strategy_id (filter (\<lambda>j. is_open (job_state j)) js))"

definition one_open_fables_job :: "fables_job_row list \<Rightarrow> bool" where
  "one_open_fables_job js \<longleftrightarrow>
     distinct (map fj_strategy_id (filter (\<lambda>j. is_open (fj_state j)) js)) \<and>
     distinct (map fj_wallet_id (filter (\<lambda>j. is_open (fj_state j)) js))"

text \<open>Every statement that writes \<open>jobs\<close> is checked against the index.\<close>

definition write_jobs :: "job_row list \<Rightarrow> db \<Rightarrow> db res" where
  "write_jobs js d = (if one_open_job_per_strategy js then Inr (d\<lparr>jobs := js\<rparr>) else Inl UniqueFailed)"

definition update_jobs :: "(job_row \<Rightarrow> bool) \<Rightarrow> (job_row \<Rightarrow> job_row) \<Rightarrow> db \<Rightarrow> db res" where
  "update_jobs p f d = write_jobs (update_where p f (jobs d)) d"

definition write_fables_jobs :: "fables_job_row list \<Rightarrow> db \<Rightarrow> db res" where
  "write_fables_jobs js d =
     (if one_open_fables_job js then Inr (d\<lparr>fables_jobs := js\<rparr>) else Inl UniqueFailed)"

definition update_fables_jobs ::
  "(fables_job_row \<Rightarrow> bool) \<Rightarrow> (fables_job_row \<Rightarrow> fables_job_row) \<Rightarrow> db \<Rightarrow> db res" where
  "update_fables_jobs p f d = write_fables_jobs (update_where p f (fables_jobs d)) d"

text \<open>A reference that must exist.\<close>

definition fk :: "bool \<Rightarrow> 'a res \<Rightarrow> 'a res" where
  "fk present m = (if present then m else Inl ForeignKeyFailed)"

definition strategy_exists :: "string \<Rightarrow> db \<Rightarrow> bool" where
  "strategy_exists s d = exists_where (\<lambda>r. st_id r = s) (strategies d)"

definition job_exists :: "string \<Rightarrow> db \<Rightarrow> bool" where
  "job_exists j d = exists_where (\<lambda>r. job_id r = j) (jobs d)"

definition wallet_exists :: "string \<Rightarrow> db \<Rightarrow> bool" where
  "wallet_exists w d = exists_where (\<lambda>r. w_id r = w) (wallets d)"

text \<open>The wallet of a job, through its strategy (\<open>JOIN strategies s ON s.id = j.strategy_id\<close>).\<close>

definition strategy_of :: "job_row \<Rightarrow> db \<Rightarrow> strategy_row option" where
  "strategy_of j d = get_where (\<lambda>s. st_id s = job_strategy_id j) (strategies d)"

definition job_wallet :: "job_row \<Rightarrow> db \<Rightarrow> string option" where
  "job_wallet j d = (case strategy_of j d of None \<Rightarrow> None | Some s \<Rightarrow> st_wallet_id s)"

section \<open>Objects used as dictionaries\<close>

text \<open>
  A \<open>Record<string, V>\<close>: its entries in insertion order, each key once.  \<open>rec_set\<close> is
  \<open>o[k] = v\<close>, \<open>from_entries\<close> is \<open>Object.fromEntries\<close>, \<open>map_of o k\<close> is \<open>o[k]\<close>.
\<close>

definition rec_set :: "string \<Rightarrow> 'v \<Rightarrow> (string \<times> 'v) list \<Rightarrow> (string \<times> 'v) list" where
  "rec_set k v xs = (if k \<in> set (map fst xs) then map (\<lambda>e. if fst e = k then (k, v) else e) xs else xs @ [(k, v)])"

definition from_entries :: "(string \<times> 'v) list \<Rightarrow> (string \<times> 'v) list" where
  "from_entries xs = foldl (\<lambda>acc e. rec_set (fst e) (snd e) acc) [] xs"

definition rec_or :: "'v \<Rightarrow> (string \<times> 'v) list \<Rightarrow> string \<Rightarrow> 'v" where
  "rec_or dflt xs k = (case map_of xs k of None \<Rightarrow> dflt | Some v \<Rightarrow> v)"

lemma map_of_replace:
  "map_of (map (\<lambda>e. if fst e = k then (k, v) else e) xs) = (if k \<in> set (map fst xs) then (map_of xs)(k \<mapsto> v) else map_of xs)"
  by (induction xs) (auto simp: fun_eq_iff)

lemma map_of_rec_set [simp]: "map_of (rec_set k v xs) = (map_of xs)(k \<mapsto> v)"
proof (cases "k \<in> set (map fst xs)")
  case True
  then show ?thesis by (simp only: rec_set_def map_of_replace if_True)
next
  case False
  then have "map_of xs k = None" by (simp add: map_of_eq_None_iff)
  then have "map_of (xs @ [(k, v)]) = (map_of xs)(k \<mapsto> v)"
    by (auto simp: fun_eq_iff map_add_def split: option.splits)
  with False show ?thesis by (simp only: rec_set_def if_False)
qed

lemma map_fst_rec_set:
  "map fst (rec_set k v xs) = (if k \<in> set (map fst xs) then map fst xs else map fst xs @ [k])"
  by (auto simp: rec_set_def comp_def intro!: map_cong)

lemma from_entries_snoc: "from_entries (xs @ [(k, v)]) = rec_set k v (from_entries xs)"
  by (simp add: from_entries_def)

lemma map_of_from_entries: "map_of (from_entries xs) = map_of (rev xs)"
proof (induction xs rule: rev_induct)
  case Nil
  then show ?case by (simp add: from_entries_def)
next
  case (snoc x xs)
  then show ?case by (cases x) (simp add: from_entries_snoc)
qed

lemma distinct_from_entries: "distinct (map fst (from_entries xs))"
proof (induction xs rule: rev_induct)
  case Nil
  then show ?case by (simp add: from_entries_def)
next
  case (snoc x xs)
  then show ?case by (cases x) (simp add: from_entries_snoc map_fst_rec_set del: set_map)
qed

lemma from_entries_distinct: "distinct (map fst xs) \<Longrightarrow> from_entries xs = xs"
proof (induction xs rule: rev_induct)
  case Nil
  then show ?case by (simp add: from_entries_def)
next
  case (snoc x xs)
  then show ?case by (cases x) (simp add: from_entries_snoc rec_set_def)
qed

section \<open>Redaction\<close>

text \<open>
  \<open>redactUrls\<close>: every match of \<open>https?://\<close> followed by characters other than blanks, quotes
  and backslashes loses everything after its host.
\<close>

definition url_stop :: "char \<Rightarrow> bool" where
  "url_stop c \<longleftrightarrow> of_char c \<in> {9, 10, 11, 12, 13, 32, 34, 39, 92, 160 :: nat}"

fun strip_prefix :: "string \<Rightarrow> string \<Rightarrow> string option" where
  "strip_prefix [] s = Some s"
| "strip_prefix (p # ps) [] = None"
| "strip_prefix (p # ps) (c # s) = (if p = c then strip_prefix ps s else None)"

text \<open>A match at the head of the text: the scheme, the matched rest and what follows.\<close>

definition url_body :: "string \<Rightarrow> string \<Rightarrow> (string \<times> string \<times> string) option" where
  "url_body scheme s =
     (case strip_prefix scheme s of
        None \<Rightarrow> None
      | Some r \<Rightarrow> (let body = takeWhile (\<lambda>c. \<not> url_stop c) r in
                   if body = [] then None else Some (scheme, body, dropWhile (\<lambda>c. \<not> url_stop c) r)))"

definition url_at :: "string \<Rightarrow> (string \<times> string \<times> string) option" where
  "url_at s = (case url_body ''https://'' s of Some m \<Rightarrow> Some m | None \<Rightarrow> url_body ''http://'' s)"

definition redact_body :: "string \<Rightarrow> string" where
  "redact_body body =
     (if CHR ''/'' \<in> set body then takeWhile (\<lambda>c. c \<noteq> CHR ''/'') body @ ''/[redacted]'' else body)"

lemma strip_prefix_length: "strip_prefix p s = Some r \<Longrightarrow> length s = length p + length r"
  by (induction p s rule: strip_prefix.induct) (auto split: if_splits)

lemma url_at_shorter: "url_at s = Some (scheme, body, rest) \<Longrightarrow> length rest < length s"
  by (auto simp: url_at_def url_body_def Let_def dest!: strip_prefix_length
      split: option.splits if_splits
      intro: le_less_trans [OF length_dropWhile_le])

function redactUrls :: "string \<Rightarrow> string" where
  "redactUrls s =
     (case s of
        [] \<Rightarrow> []
      | c # cs \<Rightarrow>
          (case url_at s of
             None \<Rightarrow> c # redactUrls cs
           | Some (scheme, body, rest) \<Rightarrow> scheme @ redact_body body @ redactUrls rest))"
  by pat_completeness auto
termination
  by (relation "measure length") (auto dest: url_at_shorter)

declare redactUrls.simps [simp del]

text \<open>Appending an audit event; its detail is redacted before it is stored.\<close>

definition audit ::
  "string \<Rightarrow> string \<Rightarrow> string option \<Rightarrow> string option \<Rightarrow> (string \<times> string) list \<Rightarrow> int \<Rightarrow> db \<Rightarrow> db" where
  "audit actor act ttype tid detail now d =
     d\<lparr>audits := audits d @ [\<lparr>au_ts = now, au_actor = actor, au_action = act, au_target_type = ttype,
       au_target_id = tid, au_detail = map (\<lambda>(k, v). (k, redactUrls v)) detail\<rparr>]\<rparr>"

end
