(* ===== verification/Redaction.thy ===== *)
theory Redaction
  imports StoreState
begin

text \<open>
  \<open>redactUrls\<close> of \<open>executor/store.ts\<close>: what is stored in audit rows and error columns keeps
  at most the host of a URL, and redacting stored text again changes nothing.
\<close>

lemma redactUrls_Nil [simp]: "redactUrls [] = []"
  by (subst redactUrls.simps) simp

lemma redactUrls_None: "url_at (c # cs) = None \<Longrightarrow> redactUrls (c # cs) = c # redactUrls cs"
  by (subst redactUrls.simps) simp

lemma redactUrls_Some:
  "url_at s = Some (scheme, body, rest) \<Longrightarrow> redactUrls s = scheme @ redact_body body @ redactUrls rest"
  by (cases s; subst redactUrls.simps) (simp_all add: url_at_def url_body_def)

lemma strip_prefix_append: "strip_prefix p (p @ r) = Some r"
  by (induction p) auto

lemma strip_prefix_Some: "strip_prefix p s = Some r \<longleftrightarrow> s = p @ r"
  by (induction p s rule: strip_prefix.induct) auto

lemma url_body_Some:
  "url_body scheme s = Some (sc, body, rest) \<longleftrightarrow>
     sc = scheme \<and> (\<exists>r. s = scheme @ r \<and> body = takeWhile (\<lambda>c. \<not> url_stop c) r \<and> body \<noteq> [] \<and>
       rest = dropWhile (\<lambda>c. \<not> url_stop c) r)"
  by (auto simp: url_body_def strip_prefix_Some strip_prefix_append Let_def split: option.splits)

lemma url_at_None: "url_at s = None \<longleftrightarrow> url_body ''https://'' s = None \<and> url_body ''http://'' s = None"
  by (auto simp: url_at_def split: option.splits)

lemma url_body_None:
  "url_body scheme s = None \<longleftrightarrow> \<not> (\<exists>x r. s = scheme @ x # r \<and> \<not> url_stop x)"
proof
  assume none: "url_body scheme s = None"
  show "\<not> (\<exists>x r. s = scheme @ x # r \<and> \<not> url_stop x)"
  proof
    assume "\<exists>x r. s = scheme @ x # r \<and> \<not> url_stop x"
    then obtain x r where "s = scheme @ x # r" "\<not> url_stop x" by blast
    with none show False by (simp add: url_body_def strip_prefix_append Let_def)
  qed
next
  assume none: "\<not> (\<exists>x r. s = scheme @ x # r \<and> \<not> url_stop x)"
  show "url_body scheme s = None"
  proof (rule ccontr)
    assume "url_body scheme s \<noteq> None"
    then obtain r where r: "s = scheme @ r" "takeWhile (\<lambda>c. \<not> url_stop c) r \<noteq> []"
      by (auto simp: url_body_def strip_prefix_Some Let_def split: option.splits if_splits)
    then obtain x r' where "r = x # r'" "\<not> url_stop x" by (cases r) (auto split: if_splits)
    with r none show False by blast
  qed
qed

lemma scheme_prefix_take:
  "length scheme \<le> 8 \<Longrightarrow> (\<exists>x r. s = scheme @ x # r \<and> \<not> url_stop x)
     \<longleftrightarrow> (\<exists>x r. take 9 s = scheme @ x # r \<and> \<not> url_stop x)"
proof
  assume len: "length scheme \<le> 8" and "\<exists>x r. s = scheme @ x # r \<and> \<not> url_stop x"
  then obtain x r where s: "s = scheme @ x # r" "\<not> url_stop x" by blast
  have "take 9 s = scheme @ x # take (8 - length scheme) r"
    using s len by (simp add: take_Cons' )
  with s show "\<exists>x r. take 9 s = scheme @ x # r \<and> \<not> url_stop x" by blast
next
  assume "\<exists>x r. take 9 s = scheme @ x # r \<and> \<not> url_stop x"
  then obtain x r where s: "take 9 s = scheme @ x # r" "\<not> url_stop x" by blast
  have "s = take 9 s @ drop 9 s" by simp
  with s have "s = scheme @ x # (r @ drop 9 s)" by simp
  with s(2) show "\<exists>x r. s = scheme @ x # r \<and> \<not> url_stop x" by blast
qed

lemma url_at_None_take: "url_at s = None \<longleftrightarrow> url_at (take 9 s) = None"
proof -
  have "url_body p s = None \<longleftrightarrow> url_body p (take 9 s) = None" if "length p \<le> 8" for p
    using scheme_prefix_take [OF that, of s] by (simp add: url_body_None)
  from this [of "''https://''"] this [of "''http://''"] show ?thesis
    unfolding url_at_None by simp
qed

lemma url_at_cases:
  assumes "url_at s = Some (scheme, body, rest)"
  shows "scheme = ''https://'' \<or> scheme = ''http://''" and "s = scheme @ body @ rest" and "body \<noteq> []"
    and "\<forall>c \<in> set body. \<not> url_stop c" and "rest = [] \<or> url_stop (hd rest)"
proof -
  have "\<exists>p. (p = ''https://'' \<or> p = ''http://'') \<and> url_body p s = Some (scheme, body, rest)"
    using assms by (auto simp: url_at_def split: option.splits)
  then obtain r where r: "scheme = ''https://'' \<or> scheme = ''http://''" "s = scheme @ r"
    "body = takeWhile (\<lambda>c. \<not> url_stop c) r" "body \<noteq> []" "rest = dropWhile (\<lambda>c. \<not> url_stop c) r"
    unfolding url_body_Some by blast
  show "scheme = ''https://'' \<or> scheme = ''http://''" "body \<noteq> []" by (rule r(1), rule r(4))
  show "s = scheme @ body @ rest" by (simp add: r(2,3,5))
  show "\<forall>c \<in> set body. \<not> url_stop c" unfolding r(3) by (auto dest: set_takeWhileD)
  show "rest = [] \<or> url_stop (hd rest)" unfolding r(5) using hd_dropWhile by blast
qed

lemma redact_body_hd: "body \<noteq> [] \<Longrightarrow> redact_body body \<noteq> [] \<and> hd (redact_body body) = hd body"
  by (cases body) (auto simp: redact_body_def)

lemma redact_body_idem: "redact_body (redact_body body) = redact_body body"
proof (cases "CHR ''/'' \<in> set body")
  case True
  define h where "h = takeWhile (\<lambda>c. c \<noteq> CHR ''/'') body"
  have "CHR ''/'' \<notin> set h" unfolding h_def using set_takeWhileD by fastforce
  then have "takeWhile (\<lambda>c. c \<noteq> CHR ''/'') (h @ ''/[redacted]'') = h"
    by (subst takeWhile_append2) auto
  with True show ?thesis by (simp add: redact_body_def h_def)
next
  case False
  then show ?thesis by (simp add: redact_body_def)
qed

lemma redact_body_plain:
  assumes "\<forall>c \<in> set body. \<not> url_stop c" and "c \<in> set (redact_body body)"
  shows "\<not> url_stop c"
proof -
  have "\<forall>c \<in> set ''/[redacted]''. \<not> url_stop c" by code_simp
  with assms show ?thesis
    by (auto simp: redact_body_def split: if_splits dest: set_takeWhileD)
qed

text \<open>The first eight characters survive, so redaction cannot create a new match before it.\<close>

lemma redactUrls_take: "take 8 (redactUrls s) = take 8 s"
proof (induction s rule: redactUrls.induct)
  case (1 s)
  show ?case
  proof (cases s)
    case Nil
    then show ?thesis by (simp add: redactUrls.simps [of s])
  next
    case (Cons c cs)
    show ?thesis
    proof (cases "url_at s")
      case None
      with "1.IH"(1) Cons have "take 8 (redactUrls cs) = take 8 cs" by simp
      then have "take 7 (take 8 (redactUrls cs)) = take 7 (take 8 cs)" by (rule arg_cong)
      then have "take 7 (redactUrls cs) = take 7 cs" by (simp add: take_take)
      with None Cons show ?thesis by (simp add: redactUrls_None)
    next
      case (Some m)
      obtain scheme body rest where m: "m = (scheme, body, rest)" by (cases m)
      note u = url_at_cases [OF Some [unfolded m]]
      obtain x b where b: "body = x # b" using u(3) by (cases body) auto
      obtain b' where b': "redact_body body = x # b'"
        using redact_body_hd [OF u(3)] b by (cases "redact_body body") auto
      have "take 8 (scheme @ redact_body body @ redactUrls rest) = take 8 (scheme @ body @ rest)"
        using u(1) b b' by auto
      also have "scheme @ redact_body body @ redactUrls rest = redactUrls s"
        by (rule redactUrls_Some [OF Some [unfolded m], symmetric])
      also have "scheme @ body @ rest = s" by (rule u(2) [symmetric])
      finally show ?thesis .
    qed
  qed
qed

lemma redactUrls_hd: "redactUrls s = [] \<longleftrightarrow> s = []" "s \<noteq> [] \<Longrightarrow> hd (redactUrls s) = hd s"
proof -
  show "redactUrls s = [] \<longleftrightarrow> s = []"
    using redactUrls_take [of s] by (metis take_eq_Nil zero_neq_numeral)
  assume "s \<noteq> []"
  moreover have "redactUrls s \<noteq> []" using \<open>redactUrls s = [] \<longleftrightarrow> s = []\<close> \<open>s \<noteq> []\<close> by simp
  ultimately show "hd (redactUrls s) = hd s"
    using redactUrls_take [of s] by (metis hd_take zero_less_numeral)
qed

lemma url_at_redacted:
  assumes "url_at s = Some (scheme, body, rest)"
  shows "url_at (scheme @ redact_body body @ redactUrls rest) = Some (scheme, redact_body body, redactUrls rest)"
proof -
  note u = url_at_cases [OF assms]
  have stop: "redactUrls rest = [] \<or> url_stop (hd (redactUrls rest))"
    using u(5) redactUrls_hd [of rest] by auto
  have plain: "\<forall>c \<in> set (redact_body body). \<not> url_stop c" using redact_body_plain [OF u(4)] by blast
  then have tw: "takeWhile (\<lambda>c. \<not> url_stop c) (redact_body body @ redactUrls rest) = redact_body body"
    and dw: "dropWhile (\<lambda>c. \<not> url_stop c) (redact_body body @ redactUrls rest) = redactUrls rest"
    using stop by (cases "redactUrls rest"; simp)+
  have ne: "redact_body body \<noteq> []" using redact_body_hd [OF u(3)] by simp
  have body: "url_body scheme (scheme @ redact_body body @ redactUrls rest)
      = Some (scheme, redact_body body, redactUrls rest)"
    unfolding url_body_Some using tw dw ne by auto
  have "url_body ''https://'' (''http://'' @ redact_body body @ redactUrls rest) = None"
    by (simp add: url_body_def)
  with body u(1) show ?thesis by (auto simp: url_at_def)
qed

lemma redactUrls_idem: "redactUrls (redactUrls s) = redactUrls s"
proof (induction s rule: redactUrls.induct)
  case (1 s)
  show ?case
  proof (cases s)
    case Nil
    then show ?thesis by (simp add: redactUrls.simps [of s])
  next
    case (Cons c cs)
    show ?thesis
    proof (cases "url_at s")
      case None
      have "take 9 (c # redactUrls cs) = take 9 s" using redactUrls_take [of cs] Cons by simp
      then have "url_at (c # redactUrls cs) = None"
        using None url_at_None_take [of s] url_at_None_take [of "c # redactUrls cs"] by simp
      then have "redactUrls (c # redactUrls cs) = c # redactUrls (redactUrls cs)"
        by (rule redactUrls_None)
      moreover have "redactUrls s = c # redactUrls cs"
        using None Cons by (simp add: redactUrls_None)
      ultimately show ?thesis using Cons None "1.IH"(1) by simp
    next
      case (Some m)
      obtain scheme body rest where m: "m = (scheme, body, rest)" by (cases m)
      let ?o = "scheme @ redact_body body @ redactUrls rest"
      have out: "redactUrls s = ?o" by (rule redactUrls_Some [OF Some [unfolded m]])
      have "redactUrls (redactUrls rest) = redactUrls rest" using "1.IH"(2) Some m Cons by simp
      then show ?thesis
        unfolding out redactUrls_Some [OF url_at_redacted [OF Some [unfolded m]]]
        by (simp add: redact_body_idem)
    qed
  qed
qed

section \<open>Property\<close>

text \<open>
  Redaction hides the path of a URL and is complete in one pass: everything after the
  host of a credentialed endpoint is replaced by the placeholder, and redacting text that was
  already redacted changes nothing.
\<close>

theorem redactUrls_hides_paths:
  assumes "host \<noteq> []" and "CHR ''/'' \<notin> set host" and "\<forall>c \<in> set (host @ secret). \<not> url_stop c"
  shows "redactUrls (''https://'' @ host @ ''/'' @ secret) = ''https://'' @ host @ ''/[redacted]'' \<and>
         redactUrls (redactUrls s) = redactUrls s"
proof
  let ?body = "host @ ''/'' @ secret"
  have plain: "\<forall>c \<in> set ?body. \<not> url_stop c" using assms(3) by (auto simp: url_stop_def)
  have tw: "takeWhile (\<lambda>c. \<not> url_stop c) ?body = ?body"
    using plain by (simp only: takeWhile_eq_all_conv)
  have dw: "dropWhile (\<lambda>c. \<not> url_stop c) ?body = []"
    using plain by (simp only: dropWhile_eq_Nil_conv)
  have "url_body ''https://'' (''https://'' @ ?body) = Some (''https://'', ?body, [])"
    unfolding url_body_Some using assms(1)
    by (intro conjI exI [of _ ?body] refl tw [symmetric] dw [symmetric]) simp_all
  then have "url_at (''https://'' @ ?body) = Some (''https://'', ?body, [])" by (simp add: url_at_def)
  then have "redactUrls (''https://'' @ ?body) = ''https://'' @ redact_body ?body @ redactUrls []"
    by (rule redactUrls_Some)
  moreover have "takeWhile (\<lambda>c. c \<noteq> CHR ''/'') ?body = host"
    using assms(2) by (subst takeWhile_append2) auto
  ultimately show "redactUrls (''https://'' @ host @ ''/'' @ secret) = ''https://'' @ host @ ''/[redacted]''"
    by (simp add: redact_body_def)
  show "redactUrls (redactUrls s) = redactUrls s" by (rule redactUrls_idem)
qed

theorem redactUrls_hides_paths_witness:
  "redactUrls (''https://'' @ ''rpc.io'' @ ''/'' @ ''v2/key'') = ''https://'' @ ''rpc.io'' @ ''/[redacted]''"
proof -
  have h: "\<forall>c \<in> set (''rpc.io'' @ ''v2/key''). \<not> url_stop c" by code_simp
  show ?thesis using redactUrls_hides_paths [OF _ _ h, of "''x''"] by simp
qed

end
