(* ===== verification/StoreJobs.thy ===== *)
theory StoreJobs
  imports StoreState
begin

text \<open>
  \<open>executor/store.ts\<close>, the wallets, strategies and job life cycle: creating planned and
  profit-withdrawal jobs, completing, failing, abandoning and quarantining them, their steps
  and transactions, and the queries the runner and the recovery supervisor read.

  Every operation takes the current time \<open>now\<close> (\<open>ts()\<close> in seconds) and the database; one that
  may throw answers \<open>db res\<close>, and \<open>Inl\<close> means that the transaction was rolled back.
  \<open>parse\<close> is \<open>parseStrategyConfig\<close>.
\<close>

type_synonym 'c parser = "'c \<Rightarrow> 'c res"

section \<open>Flags, wallets and strategies\<close>

definition executorPaused :: "db \<Rightarrow> bool" where
  "executorPaused d = (paused_flag d = Some True)"

definition setExecutorPaused :: "bool \<Rightarrow> int \<Rightarrow> db \<Rightarrow> db" where
  "setExecutorPaused p now d =
     audit ''api'' (if p then ''executor_paused'' else ''executor_resumed'') (Some ''executor'') None [] now
       (d\<lparr>paused_flag := Some p\<rparr>)"

definition addWallet :: "wallet_row \<Rightarrow> db \<Rightarrow> db res" where
  "addWallet w d =
     (let row = w\<lparr>w_address := toLower (w_address w)\<rparr> in
      if exists_where (\<lambda>r. w_id r = w_id row \<or> w_address r = w_address row \<or>
                          w_vault_path r = w_vault_path row) (wallets d)
      then Inl UniqueFailed
      else Inr (d\<lparr>wallets := wallets d @ [row]\<rparr>))"

definition walletById :: "string \<Rightarrow> db \<Rightarrow> wallet_row option" where
  "walletById i d = map_option (\<lambda>r. r\<lparr>w_label := (if w_label r = [] then ''Account'' else w_label r)\<rparr>)
     (get_where (\<lambda>r. w_id r = i) (wallets d))"

definition walletByAddress :: "string \<Rightarrow> db \<Rightarrow> wallet_row option" where
  "walletByAddress a d = map_option (\<lambda>r. r\<lparr>w_label := (if w_label r = [] then ''Account'' else w_label r)\<rparr>)
     (get_where (\<lambda>r. w_address r = toLower a) (wallets d))"

definition updateWalletLabel :: "string \<Rightarrow> string \<Rightarrow> int \<Rightarrow> db \<Rightarrow> bool \<times> db" where
  "updateWalletLabel i l now d =
     (count_where (\<lambda>r. w_id r = i) (wallets d) = 1,
      d\<lparr>wallets := update_where (\<lambda>r. w_id r = i) (\<lambda>r. r\<lparr>w_label := l, w_updated := now\<rparr>) (wallets d)\<rparr>)"

definition upsertStrategy :: "strategy_config \<Rightarrow> int \<Rightarrow> db \<Rightarrow> db res" where
  "upsertStrategy config now d =
     (let row = \<lparr>st_id = cfg_id config, st_wallet_id = walletId (execution config), st_config = config,
                 st_state = (if enabled config then ''monitoring'' else ''disabled''), st_updated = now\<rparr>
      in fk (case walletId (execution config) of None \<Rightarrow> True | Some w \<Rightarrow> wallet_exists w d)
           (Inr (d\<lparr>strategies := upsert st_id (\<lambda>_. row) row (strategies d)\<rparr>)))"

text \<open>\<open>collate\<close> ranks two strategies created at the same time (\<open>localeCompare\<close> of their ids).\<close>

definition listStrategies ::
  "(string \<Rightarrow> int) \<Rightarrow> strategy_config parser \<Rightarrow> db \<Rightarrow> (strategy_config \<times> string \<times> int) list res" where
  "listStrategies collate parse d =
     bindR (mapR (\<lambda>r. bindR (parse (st_config r)) (\<lambda>c. Inr (c, st_state r, st_updated r)))
              (filter (\<lambda>r. st_state r \<noteq> ''archived'') (strategies d))) (\<lambda>rows.
       Inr (sort_key (\<lambda>(c, _). - createdAt c) (sort_key (\<lambda>(c, _). collate (cfg_id c)) rows)))"

definition strategyById ::
  "(string \<Rightarrow> int) \<Rightarrow> strategy_config parser \<Rightarrow> string \<Rightarrow> db \<Rightarrow> (strategy_config \<times> string \<times> int) option res" where
  "strategyById collate parse i d =
     bindR (listStrategies collate parse d) (\<lambda>rows. Inr (find (\<lambda>(c, _). cfg_id c = i) rows))"

definition enabledExecutorStrategies ::
  "(string \<Rightarrow> int) \<Rightarrow> strategy_config parser \<Rightarrow> db \<Rightarrow> (strategy_config \<times> string \<times> int) list res" where
  "enabledExecutorStrategies collate parse d =
     bindR (listStrategies collate parse d) (\<lambda>rows.
       Inr (filter (\<lambda>(c, st, _). enabled c \<and> execution_mode (execution c) = ExecutorAuto \<and>
              st \<in> {''monitoring'', ''guard_wait'', ''paused_guard'', ''awaiting_manual''}) rows))"

definition setStrategyState :: "string \<Rightarrow> string \<Rightarrow> int \<Rightarrow> db \<Rightarrow> db" where
  "setStrategyState i s now d =
     d\<lparr>strategies := update_where (\<lambda>r. st_id r = i \<and> st_state r \<noteq> s)
         (\<lambda>r. r\<lparr>st_state := s, st_updated := now\<rparr>) (strategies d)\<rparr>"

text \<open>\<open>UPDATE strategies SET state=?,updated_at=? WHERE id=?\<close>, used inside larger operations.\<close>

definition set_strategy :: "string \<Rightarrow> string \<Rightarrow> int \<Rightarrow> db \<Rightarrow> db" where
  "set_strategy i s now d =
     d\<lparr>strategies := update_where (\<lambda>r. st_id r = i) (\<lambda>r. r\<lparr>st_state := s, st_updated := now\<rparr>) (strategies d)\<rparr>"

section \<open>Open jobs and the wallet lock\<close>

definition max_by :: "('a \<Rightarrow> 'k::linorder) \<Rightarrow> 'a list \<Rightarrow> 'a option" where
  "max_by k xs = (case rev (sort_key k xs) of [] \<Rightarrow> None | x # _ \<Rightarrow> Some x)"

text \<open>
  \<open>ORDER BY created_at DESC,id DESC LIMIT 1\<close> among the open jobs of a strategy, of which the
  unique index allows one.
\<close>

definition activeJobForStrategy :: "string \<Rightarrow> db \<Rightarrow> (string \<times> job_state) option" where
  "activeJobForStrategy s d =
     map_option (\<lambda>j. (job_id j, job_state j))
       (max_by job_created (filter (\<lambda>j. job_strategy_id j = s \<and> is_open (job_state j)) (jobs d)))"

definition job_has_tx :: "(tx_row \<Rightarrow> bool) \<Rightarrow> string \<Rightarrow> db \<Rightarrow> bool" where
  "job_has_tx p j d = exists_where (\<lambda>t. t_job_id t = j \<and> p t) (job_transactions d)"

definition walletHasUnfinishedMutation :: "string \<Rightarrow> db \<Rightarrow> bool" where
  "walletHasUnfinishedMutation w d =
     exists_where (\<lambda>j. job_wallet j d = Some w \<and> job_state j = Recovery \<and>
        job_has_tx (\<lambda>t. in_flight (t_state t)) (job_id j) d) (jobs d)"

definition wallet_fables_open :: "string \<Rightarrow> db \<Rightarrow> bool" where
  "wallet_fables_open w d = exists_where (\<lambda>j. fj_wallet_id j = w \<and> is_open (fj_state j)) (fables_jobs d)"

definition wallet_job_open :: "string \<Rightarrow> db \<Rightarrow> bool" where
  "wallet_job_open w d = exists_where (\<lambda>j. job_wallet j d = Some w \<and> is_open (job_state j)) (jobs d)"

section \<open>Creating jobs\<close>

definition new_job :: "string \<Rightarrow> string \<Rightarrow> job_payload \<Rightarrow> job_state \<Rightarrow> int \<Rightarrow> job_row" where
  "new_job i s payload st now =
     \<lparr>job_id = i, job_strategy_id = s, job_plan = payload, job_state = st, job_created = now,
      job_updated = now, recovery_attempts = 0, recovery_error_streak = 0, recovery_last_error = None,
      recovery_next_at = None, recovery_quarantined_at = None, recovery_fail_streak = 0\<rparr>"

definition new_step :: "string \<Rightarrow> int \<times> string \<Rightarrow> step_row" where
  "new_step j ik =
     \<lparr>sr_job_id = j, sr_index = fst ik, sr_kind = snd ik, sr_state = Pending, sr_nonce = None,
      sr_tx_hash = None, sr_tx_to = None, sr_calldata_hash = None, sr_sent_at = None,
      sr_confirmed_at = None, sr_block_number = None, sr_result = None, sr_error = None\<rparr>"

definition insert_step :: "string \<Rightarrow> int \<times> string \<Rightarrow> db \<Rightarrow> db res" where
  "insert_step j ik d =
     fk (job_exists j d)
       (bindR (insert_row step_key (new_step j ik) (job_steps d)) (\<lambda>t. Inr (d\<lparr>job_steps := t\<rparr>)))"

definition insert_job :: "job_row \<Rightarrow> db \<Rightarrow> db res" where
  "insert_job r d =
     fk (strategy_exists (job_strategy_id r) d)
       (bindR (insert_row job_id r (jobs d)) (\<lambda>t. write_jobs t d))"

text \<open>
  The shared transaction of \<open>createPlannedJob\<close> and \<open>createProfitWithdrawalJob\<close>.  The caught
  messages (a UNIQUE violation, a wallet in unfinished recovery, an open Fables job on the
  wallet) answer \<open>false\<close> with the database unchanged; any other error is thrown.
\<close>

definition create_job_tx ::
  "string \<Rightarrow> string \<Rightarrow> job_payload \<Rightarrow> job_state \<Rightarrow> (int \<times> string) list \<Rightarrow> int \<Rightarrow> db \<Rightarrow> db res" where
  "create_job_tx i s payload st stps now d =
     (case get_where (\<lambda>r. st_id r = s) (strategies d) of
        None \<Rightarrow> Inl (JsError ''E_WALLET'')
      | Some r \<Rightarrow>
          (case st_wallet_id r of
             None \<Rightarrow> Inl (JsError ''E_WALLET'')
           | Some w \<Rightarrow>
               if w = [] then Inl (JsError ''E_WALLET'')
               else if walletHasUnfinishedMutation w d then Inl (JsError ''E_WALLET_RECOVERY'')
               else if wallet_fables_open w d then Inl (JsError ''E_WALLET_FABLES_JOB'')
               else bindR (insert_job (new_job i s payload st now) d) (foldR (insert_step i) stps)))"

definition caught :: "js_error \<Rightarrow> bool" where
  "caught e \<longleftrightarrow> e \<in> {UniqueFailed, JsError ''E_WALLET_RECOVERY'', JsError ''E_WALLET_FABLES_JOB''}"

definition catch_job :: "db \<Rightarrow> db res \<Rightarrow> (bool \<times> db) res" where
  "catch_job d r =
     (case r of Inr d' \<Rightarrow> Inr (True, d') | Inl e \<Rightarrow> if caught e then Inr (False, d) else Inl e)"

fun step_kind_name :: "step_kind \<Rightarrow> string" where
  "step_kind_name Precheck = ''precheck''"
| "step_kind_name Decrease = ''decrease''"
| "step_kind_name CollectStep = ''collect''"
| "step_kind_name Burn = ''burn''"
| "step_kind_name ApproveSwap = ''approve_swap''"
| "step_kind_name Swap = ''swap''"
| "step_kind_name Approve0 = ''approve0''"
| "step_kind_name Approve1 = ''approve1''"
| "step_kind_name MintStep = ''mint''"
| "step_kind_name Revoke0 = ''revoke0''"
| "step_kind_name Revoke1 = ''revoke1''"
| "step_kind_name Commit = ''commit''"
| "step_kind_name Unstake = ''unstake''"
| "step_kind_name ApproveReward = ''approve_reward''"
| "step_kind_name SwapReward = ''swap_reward''"
| "step_kind_name ApproveNft = ''approve_nft''"
| "step_kind_name Stake = ''stake''"

definition createPlannedJob :: "execution_plan \<Rightarrow> int \<Rightarrow> db \<Rightarrow> (bool \<times> db) res" where
  "createPlannedJob plan now d =
     catch_job d (create_job_tx (plan_id plan) (plan_strategyId plan) (PlanPayload plan) Planned
       (map (\<lambda>s. (step_index s, step_kind_name (step_kind s))) (steps plan)) now d)"

definition createProfitWithdrawalJob ::
  "string \<Rightarrow> string \<Rightarrow> string \<Rightarrow> (int \<times> string) list \<Rightarrow> int \<Rightarrow> db \<Rightarrow> (bool \<times> db) res" where
  "createProfitWithdrawalJob i s target stps now d =
     catch_job d (create_job_tx i s (ProfitPayload s target) Running stps now d)"

section \<open>Job state changes\<close>

definition setJobState :: "string \<Rightarrow> job_state \<Rightarrow> int \<Rightarrow> db \<Rightarrow> db res" where
  "setJobState i s now d = update_jobs (\<lambda>j. job_id j = i) (\<lambda>j. j\<lparr>job_state := s, job_updated := now\<rparr>) d"

definition confirm_commit_step :: "string \<Rightarrow> json \<Rightarrow> int \<Rightarrow> db \<Rightarrow> db" where
  "confirm_commit_step j result now d =
     d\<lparr>job_steps := update_where (\<lambda>r. sr_job_id r = j \<and> sr_index r = 11)
         (\<lambda>r. r\<lparr>sr_state := Confirmed, sr_confirmed_at := Some now, sr_result := Some result, sr_error := None\<rparr>)
         (job_steps d)\<rparr>"

definition fail_pending_steps :: "string \<Rightarrow> string \<Rightarrow> db \<Rightarrow> db" where
  "fail_pending_steps j code d =
     d\<lparr>job_steps := update_where (\<lambda>r. sr_job_id r = j \<and> sr_state r = Pending)
         (\<lambda>r. r\<lparr>sr_state := FailedTx, sr_error := Some code\<rparr>) (job_steps d)\<rparr>"

text \<open>\<open>UPDATE strategies SET state='monitoring' WHERE id=? AND state IN (...)\<close>.\<close>

definition resume_monitoring :: "string \<Rightarrow> int \<Rightarrow> db \<Rightarrow> db" where
  "resume_monitoring s now d =
     d\<lparr>strategies := update_where
         (\<lambda>r. st_id r = s \<and> st_state r \<in> {''executing'', ''recovery'', ''recovery_quarantined''})
         (\<lambda>r. r\<lparr>st_state := ''monitoring'', st_updated := now\<rparr>) (strategies d)\<rparr>"

definition release_turnover :: "string \<Rightarrow> int \<Rightarrow> db \<Rightarrow> db" where
  "release_turnover j now d =
     d\<lparr>turnover := update_where (\<lambda>r. tr_job_id r = j \<and> tr_state r = Reserved)
         (\<lambda>r. r\<lparr>tr_state := Released, tr_updated := now\<rparr>) (turnover d)\<rparr>"

definition confirm_turnover :: "string \<Rightarrow> int \<Rightarrow> db \<Rightarrow> db" where
  "confirm_turnover j now d =
     d\<lparr>turnover := update_where (\<lambda>r. tr_job_id r = j \<and> tr_state r = Reserved)
         (\<lambda>r. r\<lparr>tr_state := Counted, tr_updated := now\<rparr>) (turnover d)\<rparr>"

definition completeProfitWithdrawalJob :: "string \<Rightarrow> json \<Rightarrow> int \<Rightarrow> db \<Rightarrow> db res" where
  "completeProfitWithdrawalJob i result now d0 =
     (let d = confirm_commit_step i result now d0 in
      case get_where (\<lambda>j. job_id j = i \<and> job_state j \<in> {Running, Recovery}) (jobs d) of
        None \<Rightarrow> Inl (JsError ''E_PROFIT_WITHDRAWAL_JOB'')
      | Some row \<Rightarrow>
          bindR (update_jobs (\<lambda>j. job_id j = i)
                   (\<lambda>j. j\<lparr>job_state := Completed, job_updated := now, recovery_last_error := None,
                          recovery_next_at := None, recovery_quarantined_at := None\<rparr>) d) (\<lambda>d.
            Inr (resume_monitoring (job_strategy_id row) now d)))"

definition failProfitWithdrawalJob :: "string \<Rightarrow> string \<Rightarrow> int \<Rightarrow> db \<Rightarrow> (job_state \<times> db) res" where
  "failProfitWithdrawalJob i code now d =
     (let unfinished = job_has_tx (\<lambda>t. in_flight (t_state t)) i d;
          confirmedMutation = exists_where (\<lambda>r. sr_job_id r = i \<and>
             sr_kind r \<in> {''profit_swap'', ''profit_unwrap''} \<and> sr_state r = Confirmed) (job_steps d);
          st = (if unfinished \<or> confirmedMutation then Recovery else Failed)
      in bindR (update_jobs (\<lambda>j. job_id j = i)
                  (\<lambda>j. j\<lparr>job_state := st, job_updated := now, recovery_last_error := Some (redactUrls code)\<rparr>) d) (\<lambda>d.
         let d = fail_pending_steps i (redactUrls code) d in
         Inr (st, if st = Recovery then
                    (case get_where (\<lambda>j. job_id j = i) (jobs d) of
                       None \<Rightarrow> d
                     | Some row \<Rightarrow> set_strategy (job_strategy_id row) ''recovery'' now d)
                  else d)))"

definition abandonProfitWithdrawalJob :: "string \<Rightarrow> string \<Rightarrow> int \<Rightarrow> db \<Rightarrow> db res" where
  "abandonProfitWithdrawalJob i code now d =
     (case get_where (\<lambda>j. job_id j = i \<and> job_state j \<in> {Running, Recovery}) (jobs d) of
        None \<Rightarrow> Inl (JsError ''E_PROFIT_WITHDRAWAL_JOB'')
      | Some row \<Rightarrow>
          bindR (update_jobs (\<lambda>j. job_id j = i)
                   (\<lambda>j. j\<lparr>job_state := Failed, job_updated := now,
                          recovery_last_error := Some (redactUrls code),
                          recovery_next_at := None, recovery_quarantined_at := None\<rparr>) d) (\<lambda>d.
            Inr (resume_monitoring (job_strategy_id row) now d)))"

text \<open>A runnable job: its identifier, payload, parsed configuration and wallet.\<close>

record runnable_job =
  rj_id :: string
  rj_plan :: job_payload
  rj_config :: strategy_config
  rj_wallet_id :: string

definition runnable_of :: "strategy_config parser \<Rightarrow> db \<Rightarrow> job_row \<Rightarrow> runnable_job list" where
  "runnable_of parse d j =
     (case strategy_of j d of
        None \<Rightarrow> []
      | Some s \<Rightarrow>
          (case parse (st_config s) of
             Inl _ \<Rightarrow> []
           | Inr config \<Rightarrow>
               (case st_wallet_id s of
                  None \<Rightarrow> []
                | Some w \<Rightarrow>
                    if w = [] \<or> walletId (execution config) \<noteq> Some w then []
                    else [\<lparr>rj_id = job_id j, rj_plan = job_plan j, rj_config = config, rj_wallet_id = w\<rparr>])))"

definition runnableJobs :: "strategy_config parser \<Rightarrow> db \<Rightarrow> runnable_job list" where
  "runnableJobs parse d =
     concat (map (runnable_of parse d)
       (sort_key job_created
          (filter (\<lambda>j. job_state j = Planned \<and>
             (case strategy_of j d of None \<Rightarrow> False | Some s \<Rightarrow> st_state s = ''planned'')) (jobs d))))"

definition quarantine_one :: "int \<Rightarrow> job_row \<Rightarrow> db \<Rightarrow> db res" where
  "quarantine_one now row d =
     bindR (update_jobs (\<lambda>j. job_id j = job_id row) (\<lambda>j. j\<lparr>job_state := Recovery, job_updated := now\<rparr>) d)
       (\<lambda>d. Inr (set_strategy (job_strategy_id row) ''recovery'' now d))"

definition quarantineInterruptedJobs :: "int \<Rightarrow> db \<Rightarrow> (int \<times> db) res" where
  "quarantineInterruptedJobs now d =
     (let rows = filter (\<lambda>j. job_state j = Running) (jobs d) in
      bindR (foldR (quarantine_one now) rows d) (\<lambda>d. Inr (int (length rows), d)))"

record mark_args =
  m_state :: tx_state
  m_nonce :: "int option"
  m_txHash :: "string option"
  m_txTo :: "string option"
  m_calldataHash :: "string option"
  m_blockNumber :: "int option"
  m_result :: "json option"
  m_errorCode :: "string option"

definition markStep :: "string \<Rightarrow> int \<Rightarrow> mark_args \<Rightarrow> int \<Rightarrow> db \<Rightarrow> db" where
  "markStep j i a now d =
     d\<lparr>job_steps := update_where (\<lambda>r. sr_job_id r = j \<and> sr_index r = i)
         (\<lambda>r. r\<lparr>sr_state := m_state a, sr_nonce := coalesce (m_nonce a) (sr_nonce r),
            sr_tx_hash := coalesce (m_txHash a) (sr_tx_hash r),
            sr_tx_to := coalesce (m_txTo a) (sr_tx_to r),
            sr_calldata_hash := coalesce (m_calldataHash a) (sr_calldata_hash r),
            sr_sent_at := (if m_state a = Sent then Some now else sr_sent_at r),
            sr_confirmed_at := (if m_state a = Confirmed then Some now else sr_confirmed_at r),
            sr_block_number := coalesce (m_blockNumber a) (sr_block_number r),
            sr_result := coalesce (m_result a) (sr_result r),
            sr_error := (if m_state a = FailedTx then coalesce (m_errorCode a) (sr_error r) else None)\<rparr>)
         (job_steps d)\<rparr>"

text \<open>
  \<open>markTransaction\<close>: the upsert of a transaction slot.  The second unique constraint of the
  table, on the hash, is checked after the write.
\<close>

definition tx_hashes_ok :: "tx_row list \<Rightarrow> bool" where
  "tx_hashes_ok t \<longleftrightarrow> distinct (map t_tx_hash (filter (\<lambda>r. t_tx_hash r \<noteq> None) t))"

definition write_txs :: "tx_row list \<Rightarrow> db \<Rightarrow> db res" where
  "write_txs t d = (if tx_hashes_ok t then Inr (d\<lparr>job_transactions := t\<rparr>) else Inl UniqueFailed)"

definition markTransaction ::
  "string \<Rightarrow> int \<Rightarrow> int \<Rightarrow> string \<Rightarrow> string \<Rightarrow> mark_args \<Rightarrow> int \<Rightarrow> db \<Rightarrow> db res" where
  "markTransaction j si ti txTo calldata a now d =
     (let row = \<lparr>t_job_id = j, t_step_index = si, t_tx_index = ti, t_state = m_state a,
                 t_nonce = m_nonce a, t_tx_hash = m_txHash a, t_tx_to = txTo, t_calldata_hash = calldata,
                 t_sent_at = (if m_state a = Sent then Some now else None),
                 t_confirmed_at = (if m_state a = Confirmed then Some now else None),
                 t_block_number = m_blockNumber a, t_result = m_result a, t_error = m_errorCode a\<rparr>
      in fk (job_exists j d)
           (write_txs (upsert tx_key
              (\<lambda>r. r\<lparr>t_state := m_state a, t_nonce := coalesce (m_nonce a) (t_nonce r),
                 t_tx_hash := coalesce (m_txHash a) (t_tx_hash r), t_tx_to := txTo,
                 t_calldata_hash := calldata,
                 t_sent_at := coalesce (t_sent_at row) (t_sent_at r),
                 t_confirmed_at := coalesce (t_confirmed_at row) (t_confirmed_at r),
                 t_block_number := coalesce (m_blockNumber a) (t_block_number r),
                 t_result := coalesce (m_result a) (t_result r),
                 t_error := (if m_state a = FailedTx then coalesce (m_errorCode a) (t_error r) else None)\<rparr>)
              row (job_transactions d)) d))"

definition nextTransactionIndex :: "string \<Rightarrow> int \<Rightarrow> db \<Rightarrow> int" where
  "nextTransactionIndex j si d =
     (let slots = filter (\<lambda>t. t_job_id t = j \<and> t_step_index t = si) (job_transactions d) in
      case sort (map t_tx_index (filter (\<lambda>t. t_state t \<in> {Sending, FailedTx}) slots)) of
        i # _ \<Rightarrow> i
      | [] \<Rightarrow> (case max_where (\<lambda>_. True) t_tx_index slots of None \<Rightarrow> 0 | Some n \<Rightarrow> n + 1))"

definition confirmedTransactionsAtNonce :: "int \<Rightarrow> db \<Rightarrow> tx_row list" where
  "confirmedTransactionsAtNonce n d =
     select_where (\<lambda>t. t_nonce t = Some n \<and> t_state t = Confirmed \<and> t_tx_hash t \<noteq> None) (job_transactions d)"

definition reconcileJobTransaction ::
  "string \<Rightarrow> int \<Rightarrow> int \<Rightarrow> tx_state \<Rightarrow> int option \<Rightarrow> string option \<Rightarrow> int \<Rightarrow> db \<Rightarrow> db" where
  "reconcileJobTransaction j si ti st block err now d =
     d\<lparr>job_transactions := update_where (\<lambda>t. tx_key t = (j, si, ti))
         (\<lambda>t. t\<lparr>t_state := st,
            t_confirmed_at := (if st = Confirmed then coalesce (t_confirmed_at t) (Some now) else t_confirmed_at t),
            t_block_number := coalesce block (t_block_number t),
            t_error := (if st = FailedTx then err else None)\<rparr>) (job_transactions d)\<rparr>"

definition jobSteps :: "string \<Rightarrow> db \<Rightarrow> step_row list" where
  "jobSteps j d = sort_key sr_index (select_where (\<lambda>r. sr_job_id r = j) (job_steps d))"

definition jobTransactions :: "string \<Rightarrow> db \<Rightarrow> tx_row list" where
  "jobTransactions j d =
     sort_key t_step_index (sort_key t_tx_index (select_where (\<lambda>r. t_job_id r = j) (job_transactions d)))"

definition setJobContext :: "string \<Rightarrow> string \<Rightarrow> json \<Rightarrow> int \<Rightarrow> db \<Rightarrow> db res" where
  "setJobContext j k v now d =
     fk (job_exists j d)
       (Inr (d\<lparr>contexts := upsert context_key (\<lambda>r. r\<lparr>cx_value := v, cx_updated := now\<rparr>)
          \<lparr>cx_job_id = j, cx_key = k, cx_value = v, cx_updated = now\<rparr> (contexts d)\<rparr>))"

definition getJobContext :: "string \<Rightarrow> string \<Rightarrow> db \<Rightarrow> json option" where
  "getJobContext j k d = map_option cx_value (get_where (\<lambda>r. context_key r = (j, k)) (contexts d))"

section \<open>Archiving\<close>

definition set_allocation :: "string \<Rightarrow> int \<Rightarrow> string \<times> int \<Rightarrow> db \<Rightarrow> db res" where
  "set_allocation s now ta d =
     fk (strategy_exists s d)
       (Inr (d\<lparr>allocations := upsert alloc_key (\<lambda>r. r\<lparr>al_amount := snd ta, al_updated := now\<rparr>)
          \<lparr>al_strategy_id = s, al_token = toLower (fst ta), al_amount = snd ta, al_updated = now\<rparr>
          (allocations d)\<rparr>))"

definition archive_job :: "string \<Rightarrow> string \<Rightarrow> int \<Rightarrow> db \<Rightarrow> db res" where
  "archive_job s j now d =
     (case get_where (\<lambda>r. job_id r = j \<and> job_strategy_id r = s) (jobs d) of
        None \<Rightarrow> Inl (JsError ''E_STRATEGY_BUSY'')
      | Some row \<Rightarrow>
          if job_state row \<notin> {Planned, Recovery} then Inl (JsError ''E_STRATEGY_BUSY'')
          else
            bindR (update_jobs (\<lambda>r. job_id r = j) (\<lambda>r. r\<lparr>job_state := Cancelled, job_updated := now\<rparr>) d)
              (\<lambda>d. Inr (release_turnover j now (fail_pending_steps j ''E_USER_STOPPED'' d))))"

definition archiveStrategy ::
  "strategy_config parser \<Rightarrow> string \<Rightarrow> string option \<Rightarrow> (string \<times> int) list option \<Rightarrow> string option \<Rightarrow>
   json option \<Rightarrow> int \<Rightarrow> db \<Rightarrow> db res" where
  "archiveStrategy parse s jobId allocs loc perf now d =
     (case get_where (\<lambda>r. st_id r = s) (strategies d) of
        None \<Rightarrow> Inl (JsError ''E_STRATEGY_MISSING'')
      | Some row \<Rightarrow>
          bindR (parse (st_config row)) (\<lambda>current.
          let archived = current\<lparr>enabled := False, revision := revision current + 1, updatedAt := now\<rparr>;
              location = (case loc of None \<Rightarrow> ''unknown'' | Some l \<Rightarrow> l) in
          bindR (case jobId of None \<Rightarrow> Inr d | Some j \<Rightarrow> if j = [] then Inr d else archive_job s j now d) (\<lambda>d.
          bindR (case allocs of None \<Rightarrow> Inr d | Some as \<Rightarrow> foldR (set_allocation s now) as d) (\<lambda>d.
            Inr (audit ''api'' ''strategy_archived'' (Some ''strategy'') (Some s) [(''assetLocation'', location)] now
              (d\<lparr>strategies := update_where (\<lambda>r. st_id r = s)
                   (\<lambda>r. r\<lparr>st_config := archived, st_state := ''archived'', st_updated := now\<rparr>) (strategies d),
                 history := upsert hi_strategy_id
                   (\<lambda>h. h\<lparr>hi_archived_at := now, hi_asset_location := location,
                          hi_performance := coalesce (hi_performance h) perf\<rparr>)
                   \<lparr>hi_strategy_id = s, hi_archived_at = now, hi_asset_location = location,
                    hi_performance = perf\<rparr> (history d)\<rparr>))))))"

end
