(* ===== verification/JobLifecycle.thy ===== *)
theory JobLifecycle
  imports StoreJobs
begin

text \<open>
  What the job life cycle of \<open>executor/store.ts\<close> promises: which jobs may be created, that a
  job with a broadcast in flight is never failed, that interrupted jobs are quarantined
  together, and which transaction slot a retry may use.
\<close>

section \<open>Jobs and the open-job index\<close>

lemma update_jobs_Inr:
  "update_jobs p f d = Inr d' \<longleftrightarrow>
     one_open_job_per_strategy (update_where p f (jobs d)) \<and> d' = d\<lparr>jobs := update_where p f (jobs d)\<rparr>"
  by (auto simp: update_jobs_def write_jobs_def)

lemma one_open_update:
  assumes "one_open_job_per_strategy js" and "\<And>j. job_strategy_id (f j) = job_strategy_id j"
    and "\<And>j. p j \<Longrightarrow> is_open (job_state (f j)) \<Longrightarrow> is_open (job_state j)"
  shows "one_open_job_per_strategy (update_where p f js)"
proof -
  have "set (map job_strategy_id (filter (\<lambda>j. is_open (job_state j)) (update_where p f js)))
      \<subseteq> set (map job_strategy_id (filter (\<lambda>j. is_open (job_state j)) js))" for js
    using assms(2,3) by (induction js) (auto simp: update_where_def)
  with assms show ?thesis
    unfolding one_open_job_per_strategy_def
    by (induction js) (fastforce simp: update_where_def split: if_splits)+
qed

lemma update_jobs_keep_open:
  assumes "one_open_job_per_strategy (jobs d)" and "\<And>j. job_strategy_id (f j) = job_strategy_id j"
    and "\<And>j. p j \<Longrightarrow> is_open (job_state (f j)) \<Longrightarrow> is_open (job_state j)"
  shows "update_jobs p f d = Inr (d\<lparr>jobs := update_where p f (jobs d)\<rparr>)"
  using one_open_update [OF assms] by (simp add: update_jobs_Inr)

lemma one_open_two:
  assumes "one_open_job_per_strategy js" and "i \<in> set js" and "j \<in> set js"
    and "is_open (job_state i)" and "is_open (job_state j)" and "job_strategy_id i = job_strategy_id j"
  shows "i = j"
  using assms unfolding one_open_job_per_strategy_def distinct_map inj_on_def by simp

section \<open>Creating a job\<close>

lemma foldR_insert_step:
  "foldR (insert_step i) stps d = Inr d' \<Longrightarrow>
     \<exists>s. d' = d\<lparr>job_steps := s\<rparr> \<and> s = job_steps d @ map (new_step i) stps"
proof (induction stps arbitrary: d)
  case Nil
  then show ?case by simp
next
  case (Cons x stps)
  then obtain e where e: "insert_step i x d = Inr e" "foldR (insert_step i) stps e = Inr d'"
    by (auto simp: bindR_eq_Inr)
  then have "e = d\<lparr>job_steps := job_steps d @ [new_step i x]\<rparr>"
    by (auto simp: insert_step_def fk_def bindR_eq_Inr insert_row_Inr split: if_splits)
  with Cons.IH [OF e(2)] show ?case by simp
qed

lemma create_job_tx_Inr:
  assumes "create_job_tx i s payload st stps now d = Inr d'"
  shows "\<exists>r w. get_where (\<lambda>r. st_id r = s) (strategies d) = Some r \<and> st_wallet_id r = Some w \<and>
           \<not> walletHasUnfinishedMutation w d \<and> \<not> wallet_fables_open w d \<and>
           (\<forall>j \<in> set (jobs d). job_id j \<noteq> i) \<and>
           one_open_job_per_strategy (jobs d @ [new_job i s payload st now]) \<and>
           d' = d\<lparr>jobs := jobs d @ [new_job i s payload st now],
                  job_steps := job_steps d @ map (new_step i) stps\<rparr>"
proof -
  obtain r w where r: "get_where (\<lambda>r. st_id r = s) (strategies d) = Some r" "st_wallet_id r = Some w"
    "\<not> walletHasUnfinishedMutation w d" "\<not> wallet_fables_open w d"
    and b: "bindR (insert_job (new_job i s payload st now) d) (foldR (insert_step i) stps) = Inr d'"
    using assms by (auto simp: create_job_tx_def split: option.splits if_splits)
  from b obtain e where e: "insert_job (new_job i s payload st now) d = Inr e"
    "foldR (insert_step i) stps e = Inr d'" by (auto simp: bindR_eq_Inr)
  from e(1) have "(\<forall>j \<in> set (jobs d). job_id j \<noteq> i) \<and>
      one_open_job_per_strategy (jobs d @ [new_job i s payload st now]) \<and>
      e = d\<lparr>jobs := jobs d @ [new_job i s payload st now]\<rparr>"
    by (auto simp: insert_job_def fk_def bindR_eq_Inr insert_row_Inr write_jobs_def new_job_def
        split: if_splits)
  with r foldR_insert_step [OF e(2)] show ?thesis by auto
qed

lemma one_open_snoc:
  "one_open_job_per_strategy (js @ [j]) \<longleftrightarrow> one_open_job_per_strategy js \<and>
     (is_open (job_state j) \<longrightarrow> (\<forall>k \<in> set js. is_open (job_state k) \<longrightarrow> job_strategy_id k \<noteq> job_strategy_id j))"
  by (auto simp: one_open_job_per_strategy_def image_iff)

section \<open>Quarantine\<close>

lemma quarantine_fold:
  assumes "one_open_job_per_strategy (jobs d)" and "keys_ok job_id (jobs d)"
    and "\<forall>r \<in> set rows. is_open (job_state r) \<and> (\<exists>j \<in> set (jobs d). job_id j = job_id r \<and> is_open (job_state j))"
  shows "foldR (quarantine_one now) rows d = Inr (d\<lparr>
    jobs := update_where (\<lambda>j. job_id j \<in> job_id ` set rows)
                (\<lambda>j. j\<lparr>job_state := Recovery, job_updated := now\<rparr>) (jobs d),
    strategies := update_where (\<lambda>s. st_id s \<in> job_strategy_id ` set rows)
                (\<lambda>s. s\<lparr>st_state := ''recovery'', st_updated := now\<rparr>) (strategies d)\<rparr>)"
  using assms
proof (induction rows arbitrary: d)
  case Nil
  then show ?case by (simp add: update_where_def)
next
  case (Cons r rows)
  define f where "f = (\<lambda>j::job_row. j\<lparr>job_state := Recovery, job_updated := now\<rparr>)"
  define g where "g = (\<lambda>s::strategy_row. s\<lparr>st_state := ''recovery'', st_updated := now\<rparr>)"
  have fopen: "is_open (job_state (f j))" for j by (simp add: f_def is_open_def)
  have fkeep: "job_id (f j) = job_id j" "job_strategy_id (f j) = job_strategy_id j" "f (f j) = f j" for j
    by (simp_all add: f_def)
  have gkeep: "st_id (g s) = st_id s" "g (g s) = g s" for s by (simp_all add: g_def)
  have wasopen: "is_open (job_state j)" if "j \<in> set (jobs d)" "job_id j = job_id r" for j
  proof -
    from Cons.prems(3) obtain k where k: "k \<in> set (jobs d)" "job_id k = job_id r" "is_open (job_state k)" by auto
    with that Cons.prems(2) have "j = k" by (auto simp: keys_ok_def distinct_map inj_on_def)
    with k show ?thesis by simp
  qed
  let ?js = "update_where (\<lambda>j. job_id j = job_id r) f (jobs d)"
  have eqopen: "map job_strategy_id (filter (\<lambda>j. is_open (job_state j)) ?js)
      = map job_strategy_id (filter (\<lambda>j. is_open (job_state j)) (jobs d))"
  proof -
    have "map job_strategy_id (filter (\<lambda>j. is_open (job_state j)) (update_where (\<lambda>j. job_id j = job_id r) f ys))
        = map job_strategy_id (filter (\<lambda>j. is_open (job_state j)) ys)"
      if "set ys \<subseteq> set (jobs d)" for ys
      using that by (induction ys) (auto simp: update_where_def fopen fkeep wasopen)
    then show ?thesis by simp
  qed
  then have one: "one_open_job_per_strategy ?js"
    using Cons.prems(1) by (simp add: one_open_job_per_strategy_def)
  define e where "e = set_strategy (job_strategy_id r) ''recovery'' now (d\<lparr>jobs := ?js\<rparr>)"
  have step: "quarantine_one now r d = Inr e"
    using one by (simp add: quarantine_one_def update_jobs_def write_jobs_def f_def e_def)
  have ej: "jobs e = ?js" and es: "strategies e = update_where (\<lambda>s. st_id s = job_strategy_id r) g (strategies d)"
    by (simp_all add: e_def set_strategy_def g_def)
  have "\<forall>q \<in> set rows. is_open (job_state q) \<and> (\<exists>j \<in> set (jobs e). job_id j = job_id q \<and> is_open (job_state j))"
  proof
    fix q assume "q \<in> set rows"
    with Cons.prems(3) obtain j where j: "j \<in> set (jobs d)" "job_id j = job_id q" "is_open (job_state j)"
      and q: "is_open (job_state q)" by auto
    let ?j = "if job_id j = job_id r then f j else j"
    have "?j \<in> set (jobs e)" using j(1) by (auto simp: ej set_update_where)
    moreover have "job_id ?j = job_id q" "is_open (job_state ?j)" using j fopen by (simp_all add: fkeep)
    ultimately show "is_open (job_state q) \<and> (\<exists>j \<in> set (jobs e). job_id j = job_id q \<and> is_open (job_state j))"
      using q by blast
  qed
  moreover have "keys_ok job_id (jobs e)"
    unfolding ej using Cons.prems(2) fkeep(1) by (rule keys_ok_update)
  ultimately have IH: "foldR (quarantine_one now) rows e = Inr (e\<lparr>
      jobs := update_where (\<lambda>j. job_id j \<in> job_id ` set rows) f (jobs e),
      strategies := update_where (\<lambda>s. st_id s \<in> job_strategy_id ` set rows) g (strategies e)\<rparr>)"
    using Cons.IH [of e] one by (simp add: ej f_def g_def)
  have "update_where (\<lambda>j. job_id j \<in> job_id ` set rows) f (jobs e)
      = update_where (\<lambda>j. job_id j \<in> job_id ` set (r # rows)) f (jobs d)"
    unfolding ej by (auto simp: update_where_def fkeep)
  moreover have "update_where (\<lambda>s. st_id s \<in> job_strategy_id ` set rows) g (strategies e)
      = update_where (\<lambda>s. st_id s \<in> job_strategy_id ` set (r # rows)) g (strategies d)"
    unfolding es by (auto simp: update_where_def gkeep)
  ultimately show ?case
    using step IH by (simp add: f_def [symmetric] g_def [symmetric] e_def set_strategy_def)
qed

section \<open>Transaction slots\<close>

lemma foldl_max: "x \<in> set (a # xs) \<Longrightarrow> x \<le> foldl max (a::int) xs" "foldl max (a::int) xs \<in> set (a # xs)"
proof -
  have "a \<le> foldl max (a::int) xs \<and> (\<forall>x \<in> set xs. x \<le> foldl max a xs) \<and> foldl max a xs \<in> set (a # xs)" for a xs
  proof (induction xs arbitrary: a)
    case (Cons y ys)
    have m: "a \<le> max a y" "y \<le> max a y" by simp_all
    from Cons.IH [of "max a y"] have k: "max a y \<le> foldl max (max a y) ys"
      "\<forall>x \<in> set ys. x \<le> foldl max (max a y) ys" "foldl max (max a y) ys \<in> {max a y} \<union> set ys" by auto
    have "a \<le> foldl max (max a y) ys" "y \<le> foldl max (max a y) ys" using m k(1) by linarith+
    moreover have "max a y \<in> {a, y}" by (simp add: max_def)
    ultimately show ?case using k(2,3) by auto
  qed simp
  then show "x \<in> set (a # xs) \<Longrightarrow> x \<le> foldl max a xs" "foldl max a xs \<in> set (a # xs)" by auto
qed

lemma max_where_None: "max_where p v t = None \<longleftrightarrow> (\<forall>r \<in> set t. \<not> p r)"
  by (cases "filter p t") (auto simp: max_where_def filter_empty_conv dest: filter_eq_ConsD)

lemma max_where_Some: "max_where p v t = Some n \<Longrightarrow> r \<in> set t \<Longrightarrow> p r \<Longrightarrow> v r \<le> n"
proof -
  assume m: "max_where p v t = Some n" and r: "r \<in> set t" "p r"
  then obtain x xs where f: "filter p t = x # xs" "n = foldl max (v x) (map v xs)"
    by (auto simp: max_where_def split: list.splits)
  have "r \<in> set (x # xs)" using r by (simp add: f(1) [symmetric])
  then have "v r \<in> set (v x # map v xs)" by auto
  then show "v r \<le> n" unfolding f(2) by (rule foldl_max(1))
qed

lemma nextTransactionIndex_cases:
  fixes d j si
  defines "slots \<equiv> filter (\<lambda>t. t_job_id t = j \<and> t_step_index t = si) (job_transactions d)"
  shows "(\<exists>t \<in> set slots. t_tx_index t = nextTransactionIndex j si d \<and> t_state t \<in> {Sending, FailedTx} \<and>
            (\<forall>u \<in> set slots. t_state u \<in> {Sending, FailedTx} \<longrightarrow> t_tx_index t \<le> t_tx_index u)) \<or>
         (\<forall>u \<in> set slots. t_state u \<notin> {Sending, FailedTx} \<and> t_tx_index u < nextTransactionIndex j si d)"
proof (cases "sort (map t_tx_index (filter (\<lambda>t. t_state t \<in> {Sending, FailedTx}) slots))")
  case Nil
  then have "filter (\<lambda>t. t_state t \<in> {Sending, FailedTx}) slots = []"
    by (metis length_0_conv length_map length_sort)
  then have none: "\<forall>u \<in> set slots. t_state u \<notin> {Sending, FailedTx}" by (simp add: filter_empty_conv)
  have n: "nextTransactionIndex j si d
      = (case max_where (\<lambda>_. True) t_tx_index slots of None \<Rightarrow> 0 | Some n \<Rightarrow> n + 1)"
    unfolding nextTransactionIndex_def Let_def slots_def [symmetric] Nil by simp
  have "\<forall>u \<in> set slots. t_tx_index u < nextTransactionIndex j si d"
  proof
    fix u assume u: "u \<in> set slots"
    then obtain m where m: "max_where (\<lambda>_. True) t_tx_index slots = Some m"
      using max_where_None [of "\<lambda>_. True" t_tx_index slots] by fastforce
    from max_where_Some [OF m u] show "t_tx_index u < nextTransactionIndex j si d" by (simp add: n m)
  qed
  with none show ?thesis by blast
next
  case (Cons i rest)
  let ?un = "filter (\<lambda>t. t_state t \<in> {Sending, FailedTx}) slots"
  have n: "nextTransactionIndex j si d = i"
    unfolding nextTransactionIndex_def Let_def slots_def [symmetric] Cons by simp
  have set: "set (i # rest) = t_tx_index ` set ?un" using Cons by (metis set_sort set_map)
  have "sorted (i # rest)" using Cons by (metis sorted_sort)
  then have "\<forall>x \<in> set (i # rest). i \<le> x" by simp
  then have "\<forall>u \<in> set ?un. i \<le> t_tx_index u" unfolding set by blast
  moreover obtain t where "t \<in> set ?un" "t_tx_index t = i" using set by (metis imageE list.set_intros(1))
  ultimately show ?thesis using n by auto
qed

section \<open>A sample database\<close>

definition sample_wallet :: wallet_row where
  "sample_wallet = \<lparr>w_id = ''w1'', w_label = ''main'', w_address = ''0xaa'', w_vault_path = ''/v/1'',
     w_created = 1, w_updated = 1\<rparr>"

definition sample_strategy :: strategy_row where
  "sample_strategy = \<lparr>st_id = ''s1'', st_wallet_id = Some ''w1'', st_config = sample_config,
     st_state = ''monitoring'', st_updated = 1\<rparr>"

definition sample_db :: db where
  "sample_db = empty_db\<lparr>wallets := [sample_wallet], strategies := [sample_strategy]\<rparr>"

text \<open>The same database with a running job of the strategy and a confirmed first transaction.\<close>

definition sample_job :: job_row where
  "sample_job = (new_job ''j1'' ''s1'' (PlanPayload sample_plan) Running 900)"

definition sample_tx :: tx_row where
  "sample_tx = \<lparr>t_job_id = ''j1'', t_step_index = 1, t_tx_index = 0, t_state = Confirmed,
     t_nonce = Some 5, t_tx_hash = Some ''0xh'', t_tx_to = ''0xto'', t_calldata_hash = ''0xc'',
     t_sent_at = Some 900, t_confirmed_at = Some 905, t_block_number = Some 11, t_result = None,
     t_error = None\<rparr>"

definition busy_db :: db where
  "busy_db = sample_db\<lparr>jobs := [sample_job], job_transactions := [sample_tx],
     job_steps := [new_step ''j1'' (1, ''decrease'')]\<rparr>"

section \<open>Properties\<close>

text \<open>
  C1. Creating a planned job is exclusive and atomic.  When it succeeds, the strategy had a
  wallet, no open job, no broadcast in flight in another recovery of that wallet and no open
  Fables job on that wallet; afterwards the strategy's active job is exactly the planned one
  and one pending step per plan step was added.  When it answers false, nothing changed.
\<close>

theorem createPlannedJob_exclusive:
  assumes "createPlannedJob plan now d = Inr (created, d')"
  shows "if created
         then (\<exists>r w. get_where (\<lambda>r. st_id r = plan_strategyId plan) (strategies d) = Some r \<and>
                 st_wallet_id r = Some w \<and> \<not> walletHasUnfinishedMutation w d \<and>
                 \<not> wallet_fables_open w d) \<and>
              activeJobForStrategy (plan_strategyId plan) d = None \<and>
              activeJobForStrategy (plan_strategyId plan) d' = Some (plan_id plan, Planned) \<and>
              job_steps d' = job_steps d @
                map (\<lambda>s. new_step (plan_id plan) (step_index s, step_kind_name (step_kind s))) (steps plan) \<and>
              d' = d\<lparr>jobs := jobs d', job_steps := job_steps d'\<rparr>
         else d' = d"
proof (cases created)
  case False
  with assms show ?thesis by (auto simp: createPlannedJob_def catch_job_def split: sum.splits if_splits)
next
  case True
  define s where "s = plan_strategyId plan"
  define j where "j = new_job (plan_id plan) s (PlanPayload plan) Planned now"
  from assms True obtain r w where r: "get_where (\<lambda>r. st_id r = s) (strategies d) = Some r"
    "st_wallet_id r = Some w" "\<not> walletHasUnfinishedMutation w d" "\<not> wallet_fables_open w d"
    and one: "one_open_job_per_strategy (jobs d @ [j])"
    and d': "d' = d\<lparr>jobs := jobs d @ [j], job_steps := job_steps d @
        map (\<lambda>s. new_step (plan_id plan) (step_index s, step_kind_name (step_kind s))) (steps plan)\<rparr>"
    by (auto simp: createPlannedJob_def catch_job_def s_def j_def o_def split: sum.splits if_splits
        dest!: create_job_tx_Inr)
  have j: "job_id j = plan_id plan" "job_state j = Planned" "job_strategy_id j = s"
    by (simp_all add: j_def new_job_def)
  have "filter (\<lambda>k. job_strategy_id k = s \<and> is_open (job_state k)) (jobs d) = []"
    using one j by (auto simp: one_open_snoc filter_empty_conv is_open_def)
  then show ?thesis
    using True r j by (simp add: d' activeJobForStrategy_def max_by_def s_def [symmetric] is_open_def)
qed

theorem createPlannedJob_exclusive_witness:
  "\<exists>d'. createPlannedJob sample_plan 1000 sample_db = Inr (True, d') \<and>
     activeJobForStrategy ''s1'' d' = Some (''p1'', Planned)"
proof -
  have "(case createPlannedJob sample_plan 1000 sample_db of Inr (True, d') \<Rightarrow> True | _ \<Rightarrow> False)"
    by code_simp
  then obtain d' where d': "createPlannedJob sample_plan 1000 sample_db = Inr (True, d')"
    by (auto split: sum.splits prod.splits bool.splits)
  from createPlannedJob_exclusive [OF d'] d' show ?thesis by (simp add: sample_plan_def)
qed

text \<open>
  C35. A profit withdrawal with money in motion is never written off: failing a job leaves it
  failed exactly when none of its transactions is being sent or was sent without a receipt and
  no swap or unwrap step of it is confirmed; otherwise the job and its strategy enter
  recovery.  No transaction is touched.
\<close>

theorem failProfitWithdrawalJob_keeps_inflight:
  assumes "failProfitWithdrawalJob i code now d = Inr (st, d')" and "j \<in> set (jobs d)" and "job_id j = i"
    and "keys_ok job_id (jobs d)"
  shows "(st = Failed \<longleftrightarrow>
            \<not> (\<exists>t \<in> set (job_transactions d). t_job_id t = i \<and> in_flight (t_state t)) \<and>
            \<not> (\<exists>r \<in> set (job_steps d). sr_job_id r = i \<and> sr_kind r \<in> {''profit_swap'', ''profit_unwrap''} \<and>
                 sr_state r = Confirmed)) \<and>
         (st = Failed \<or> st = Recovery) \<and>
         (\<exists>k \<in> set (jobs d'). job_id k = i \<and> job_state k = st) \<and>
         job_transactions d' = job_transactions d \<and>
         (st = Recovery \<longrightarrow> (\<forall>s \<in> set (strategies d'). st_id s = job_strategy_id j \<longrightarrow> st_state s = ''recovery''))"
proof -
  define st' where "st' = (if job_has_tx (\<lambda>t. in_flight (t_state t)) i d \<or>
      exists_where (\<lambda>r. sr_job_id r = i \<and> sr_kind r \<in> {''profit_swap'', ''profit_unwrap''} \<and>
        sr_state r = Confirmed) (job_steps d) then Recovery else Failed)"
  define f where "f = (\<lambda>j::job_row. j\<lparr>job_state := st', job_updated := now,
      recovery_last_error := Some (redactUrls code)\<rparr>)"
  define e where "e = fail_pending_steps i (redactUrls code)
      (d\<lparr>jobs := update_where (\<lambda>j. job_id j = i) f (jobs d)\<rparr>)"
  have key: "job_id (f k) = job_id k" "job_strategy_id (f k) = job_strategy_id k" "job_state (f k) = st'" for k
    by (simp_all add: f_def)
  have "failProfitWithdrawalJob i code now d = bindR (update_jobs (\<lambda>j. job_id j = i) f d) (\<lambda>d.
      Inr (st', if st' = Recovery then
        (case get_where (\<lambda>j. job_id j = i) (jobs (fail_pending_steps i (redactUrls code) d)) of
           None \<Rightarrow> fail_pending_steps i (redactUrls code) d
         | Some row \<Rightarrow> set_strategy (job_strategy_id row) ''recovery'' now
                         (fail_pending_steps i (redactUrls code) d))
        else fail_pending_steps i (redactUrls code) d))"
    unfolding failProfitWithdrawalJob_def f_def st'_def Let_def by (rule refl)
  with assms(1) obtain y where y: "update_jobs (\<lambda>j. job_id j = i) f d = Inr y"
    and res: "(st, d') = (st', if st' = Recovery then
        (case get_where (\<lambda>j. job_id j = i) (jobs (fail_pending_steps i (redactUrls code) y)) of
           None \<Rightarrow> fail_pending_steps i (redactUrls code) y
         | Some row \<Rightarrow> set_strategy (job_strategy_id row) ''recovery'' now
                         (fail_pending_steps i (redactUrls code) y))
        else fail_pending_steps i (redactUrls code) y)"
    by (auto simp only: bindR_eq_Inr sum.inject)
  have "fail_pending_steps i (redactUrls code) y = e"
    using y by (simp add: update_jobs_Inr e_def)
  from res [unfolded this] have r: "st = st'" "d' = (if st' = Recovery then
      (case get_where (\<lambda>j. job_id j = i) (jobs e) of None \<Rightarrow> e
       | Some row \<Rightarrow> set_strategy (job_strategy_id row) ''recovery'' now e) else e)"
    by (simp_all only: prod.inject)
  have "get_where (\<lambda>j. job_id j = i) (jobs d) = Some j"
    using assms(2-4) by (simp add: get_where_Some_iff)
  then have g: "get_where (\<lambda>j. job_id j = i) (jobs e) = Some (f j)"
    using get_update_same [of job_id f i "jobs d"] by (simp add: e_def fail_pending_steps_def key)
  have "f j \<in> set (jobs d')" and tx: "job_transactions d' = job_transactions d"
    using r(2) g get_where_SomeD [OF g]
    by (auto simp: set_strategy_def e_def fail_pending_steps_def)
  then have "\<exists>k \<in> set (jobs d'). job_id k = i \<and> job_state k = st"
    using assms(3) r(1) key by (intro bexI [of _ "f j"]) simp_all
  moreover have "st = Recovery \<longrightarrow> (\<forall>s \<in> set (strategies d'). st_id s = job_strategy_id j \<longrightarrow> st_state s = ''recovery'')"
    using r g by (auto simp: set_strategy_def set_update_where key)
  moreover have "st = Failed \<longleftrightarrow>
      \<not> (\<exists>t \<in> set (job_transactions d). t_job_id t = i \<and> in_flight (t_state t)) \<and>
      \<not> (\<exists>r \<in> set (job_steps d). sr_job_id r = i \<and> sr_kind r \<in> {''profit_swap'', ''profit_unwrap''} \<and>
           sr_state r = Confirmed)"
    unfolding r(1) st'_def by (simp add: job_has_tx_def exists_where_def list_ex_iff)
  moreover have "st = Failed \<or> st = Recovery" by (simp add: r(1) st'_def)
  ultimately show ?thesis using tx by blast
qed

theorem failProfitWithdrawalJob_keeps_inflight_witness:
  "\<exists>d'. failProfitWithdrawalJob ''j1'' ''E_X'' 1000 busy_db = Inr (Failed, d') \<and>
     job_transactions d' = [sample_tx]"
proof -
  have "(case failProfitWithdrawalJob ''j1'' ''E_X'' 1000 busy_db of Inr (Failed, d') \<Rightarrow> True | _ \<Rightarrow> False)"
    by code_simp
  then obtain d' where d': "failProfitWithdrawalJob ''j1'' ''E_X'' 1000 busy_db = Inr (Failed, d')"
    by (auto split: sum.splits prod.splits job_state.splits)
  have h: "sample_job \<in> set (jobs busy_db)" "job_id sample_job = ''j1''" "keys_ok job_id (jobs busy_db)"
    by (simp_all add: busy_db_def sample_db_def sample_job_def new_job_def keys_ok_def)
  from failProfitWithdrawalJob_keeps_inflight [OF d' h] d' show ?thesis by (auto simp: busy_db_def)
qed

text \<open>
  A restart quarantines every interrupted job together: in a database that satisfies the
  open-job index, quarantining cannot fail; afterwards no job is running, exactly the jobs
  that were running are in recovery with their strategies, and nothing else changed.
\<close>

theorem quarantineInterruptedJobs_total:
  assumes "one_open_job_per_strategy (jobs d)" and "keys_ok job_id (jobs d)"
  shows "\<exists>d'. quarantineInterruptedJobs now d
             = Inr (int (length (filter (\<lambda>j. job_state j = Running) (jobs d))), d') \<and>
           (\<forall>j \<in> set (jobs d'). job_state j \<noteq> Running) \<and>
           jobs d' = map (\<lambda>j. if job_state j = Running then j\<lparr>job_state := Recovery, job_updated := now\<rparr> else j)
                       (jobs d) \<and>
           strategies d' = map (\<lambda>s. if \<exists>j \<in> set (jobs d). job_state j = Running \<and> job_strategy_id j = st_id s
                                    then s\<lparr>st_state := ''recovery'', st_updated := now\<rparr> else s) (strategies d) \<and>
           d' = d\<lparr>jobs := jobs d', strategies := strategies d'\<rparr>"
proof -
  let ?rows = "filter (\<lambda>j. job_state j = Running) (jobs d)"
  let ?f = "\<lambda>j::job_row. j\<lparr>job_state := Recovery, job_updated := now\<rparr>"
  have rows: "\<forall>r \<in> set ?rows. is_open (job_state r) \<and> (\<exists>j \<in> set (jobs d). job_id j = job_id r \<and> is_open (job_state j))"
    by (auto simp: is_open_def)
  have "j \<in> set (jobs d) \<Longrightarrow> job_id j \<in> job_id ` set ?rows \<longleftrightarrow> job_state j = Running" for j
    using assms(2) by (auto simp: keys_ok_def distinct_map inj_on_def)
  then have js: "update_where (\<lambda>j. job_id j \<in> job_id ` set ?rows) ?f (jobs d)
      = map (\<lambda>j. if job_state j = Running then ?f j else j) (jobs d)"
    unfolding update_where_def by (intro map_cong) simp_all
  have ss: "update_where (\<lambda>s. st_id s \<in> job_strategy_id ` set ?rows)
        (\<lambda>s. s\<lparr>st_state := ''recovery'', st_updated := now\<rparr>) (strategies d)
      = map (\<lambda>s. if \<exists>j \<in> set (jobs d). job_state j = Running \<and> job_strategy_id j = st_id s
                 then s\<lparr>st_state := ''recovery'', st_updated := now\<rparr> else s) (strategies d)"
    unfolding update_where_def by (intro map_cong) (auto simp: image_iff)
  show ?thesis
    unfolding quarantineInterruptedJobs_def Let_def quarantine_fold [OF assms rows] bindR_simps js ss
    by auto
qed

theorem quarantineInterruptedJobs_total_witness:
  "\<exists>d'. quarantineInterruptedJobs 1000 busy_db = Inr (1, d') \<and> (\<forall>j \<in> set (jobs d'). job_state j \<noteq> Running)"
proof -
  have h: "one_open_job_per_strategy (jobs busy_db)" "keys_ok job_id (jobs busy_db)"
    by (simp_all add: busy_db_def sample_db_def sample_job_def new_job_def keys_ok_def
        one_open_job_per_strategy_def is_open_def)
  have n: "length (filter (\<lambda>j. job_state j = Running) (jobs busy_db)) = 1"
    by (simp add: busy_db_def sample_job_def new_job_def)
  from quarantineInterruptedJobs_total [OF h, of 1000] show ?thesis by (auto simp: n)
qed

text \<open>
  A retry never reuses a transaction that may have landed: the slot chosen for the next
  transaction of a step either holds that step's lowest transaction that is still being
  prepared or has failed, or is free and above every slot of the step.  A sent, confirmed or
  reviewed transaction is never in the chosen slot.
\<close>

theorem nextTransactionIndex_never_reuses:
  assumes "keys_ok tx_key (job_transactions d)" and "t \<in> set (job_transactions d)"
    and "t_job_id t = j" and "t_step_index t = si"
  shows "(t_tx_index t = nextTransactionIndex j si d \<longrightarrow> t_state t = Sending \<or> t_state t = FailedTx) \<and>
         (t_state t = Sending \<or> t_state t = FailedTx \<longrightarrow> nextTransactionIndex j si d \<le> t_tx_index t)"
proof -
  let ?slots = "filter (\<lambda>t. t_job_id t = j \<and> t_step_index t = si) (job_transactions d)"
  have t: "t \<in> set ?slots" using assms by simp
  from nextTransactionIndex_cases [of j si d] show ?thesis
  proof
    assume "\<forall>u \<in> set ?slots. t_state u \<notin> {Sending, FailedTx} \<and> t_tx_index u < nextTransactionIndex j si d"
    with t have "t_state t \<notin> {Sending, FailedTx} \<and> t_tx_index t < nextTransactionIndex j si d" by blast
    then show ?thesis by auto
  next
    assume "\<exists>u \<in> set ?slots. t_tx_index u = nextTransactionIndex j si d \<and> t_state u \<in> {Sending, FailedTx} \<and>
      (\<forall>v \<in> set ?slots. t_state v \<in> {Sending, FailedTx} \<longrightarrow> t_tx_index u \<le> t_tx_index v)"
    then obtain u where u: "u \<in> set ?slots" "t_tx_index u = nextTransactionIndex j si d"
      "t_state u \<in> {Sending, FailedTx}"
      and least: "\<forall>v \<in> set ?slots. t_state v \<in> {Sending, FailedTx} \<longrightarrow> t_tx_index u \<le> t_tx_index v" by blast
    have "u = t" if "t_tx_index t = nextTransactionIndex j si d"
      using assms u that by (auto simp: keys_ok_def distinct_map inj_on_def tx_key_def)
    then show ?thesis using u least t by auto
  qed
qed

theorem nextTransactionIndex_never_reuses_witness:
  "t_tx_index sample_tx \<noteq> nextTransactionIndex ''j1'' 1 busy_db"
proof -
  have h: "keys_ok tx_key (job_transactions busy_db)" "sample_tx \<in> set (job_transactions busy_db)"
    "t_job_id sample_tx = ''j1''" "t_step_index sample_tx = 1"
    by (simp_all add: busy_db_def sample_tx_def keys_ok_def)
  from nextTransactionIndex_never_reuses [OF h] show ?thesis by (simp add: sample_tx_def)
qed

end
