(* ===== verification/Transition.thy ===== *)
theory Transition
  imports Prelude
begin

text \<open>
  Generic interfaces used by several components: transition systems with an invariant, a
  budget that is reserved against a limit, and a bounded retry delay.  Each is interpreted on
  the model's own definitions in the theory of the component that provides it.
\<close>

section \<open>Reachable states\<close>

inductive reachable :: "('s \<Rightarrow> bool) \<Rightarrow> ('s \<Rightarrow> 's \<Rightarrow> bool) \<Rightarrow> 's \<Rightarrow> bool"
  for init :: "'s \<Rightarrow> bool" and step :: "'s \<Rightarrow> 's \<Rightarrow> bool" where
  start: "init s \<Longrightarrow> reachable init step s"
| more: "reachable init step s \<Longrightarrow> step s t \<Longrightarrow> reachable init step t"

locale invariant_system =
  fixes init :: "'s \<Rightarrow> bool" and step :: "'s \<Rightarrow> 's \<Rightarrow> bool" and inv :: "'s \<Rightarrow> bool"
  assumes init_inv: "init s \<Longrightarrow> inv s"
    and step_inv: "inv s \<Longrightarrow> step s t \<Longrightarrow> inv t"
begin

lemma reachable_inv: "reachable init step s \<Longrightarrow> inv s"
  by (induction rule: reachable.induct) (auto intro: init_inv step_inv)

end

section \<open>Budgets\<close>

text \<open>
  A store of reservations.  A request belongs to a bucket; \<open>used\<close> is what a bucket already
  holds.  The provider promises that a successful reservation leaves the request's own bucket
  within the limit it was given or no fuller than before, and that a request that \<open>fit\<close>s the
  store (it does not take over a reservation made for another bucket) fills no other bucket.
\<close>

locale budget =
  fixes ok :: "'d \<Rightarrow> bool" and used :: "'b \<Rightarrow> 'd \<Rightarrow> int" and bucket_of :: "'a \<Rightarrow> 'd \<Rightarrow> 'b"
    and fit :: "'a \<Rightarrow> 'd \<Rightarrow> bool" and reserve :: "'a \<Rightarrow> int \<Rightarrow> int \<Rightarrow> 'd \<Rightarrow> 'd res"
  assumes reserve_ok: "ok d \<Longrightarrow> reserve a amount limit d = Inr d' \<Longrightarrow> ok d'"
    and reserve_within: "ok d \<Longrightarrow> reserve a amount limit d = Inr d' \<Longrightarrow>
      used (bucket_of a d) d' \<le> limit \<or> used (bucket_of a d) d' \<le> used (bucket_of a d) d"
    and reserve_other: "ok d \<Longrightarrow> fit a d \<Longrightarrow> reserve a amount limit d = Inr d' \<Longrightarrow>
      b \<noteq> bucket_of a d \<Longrightarrow> used b d' \<le> used b d"
begin

text \<open>A sequence of requests, each against the limit of its bucket, skipping refused ones.\<close>

fun reserve_all :: "('b \<Rightarrow> int) \<Rightarrow> ('a \<times> int) list \<Rightarrow> 'd \<Rightarrow> 'd" where
  "reserve_all L [] d = d"
| "reserve_all L ((a, amount) # xs) d =
     (case reserve a amount (L (bucket_of a d)) d of
        Inl _ \<Rightarrow> reserve_all L xs d
      | Inr d' \<Rightarrow> reserve_all L xs d')"

fun all_fit :: "('b \<Rightarrow> int) \<Rightarrow> ('a \<times> int) list \<Rightarrow> 'd \<Rightarrow> bool" where
  "all_fit L [] d = True"
| "all_fit L ((a, amount) # xs) d =
     (fit a d \<and>
      (case reserve a amount (L (bucket_of a d)) d of
         Inl _ \<Rightarrow> all_fit L xs d
       | Inr d' \<Rightarrow> all_fit L xs d'))"

lemma reserve_keeps_limits:
  assumes "ok d" and "fit a d" and "reserve a amount (L (bucket_of a d)) d = Inr d'" and "\<forall>b. used b d \<le> L b"
  shows "\<forall>b. used b d' \<le> L b"
proof
  fix b
  show "used b d' \<le> L b"
  proof (cases "b = bucket_of a d")
    case True
    from reserve_within [OF assms(1,3)] assms(4) [rule_format, of b] True show ?thesis by auto
  next
    case False
    from reserve_other [OF assms(1-3) False] assms(4) [rule_format, of b] show ?thesis by linarith
  qed
qed

lemma reserve_all_within:
  "ok d \<Longrightarrow> all_fit L xs d \<Longrightarrow> \<forall>b. used b d \<le> L b \<Longrightarrow> ok (reserve_all L xs d) \<and> (\<forall>b. used b (reserve_all L xs d) \<le> L b)"
proof (induction xs arbitrary: d)
  case Nil
  then show ?case by simp
next
  case (Cons x xs)
  obtain a amount where x: "x = (a, amount)" by (cases x)
  show ?case
  proof (cases "reserve a amount (L (bucket_of a d)) d")
    case (Inl e)
    with Cons x show ?thesis by simp
  next
    case (Inr d')
    have "fit a d" "all_fit L xs d'" using Cons.prems(2) x Inr by simp_all
    with Cons.IH [of d'] reserve_ok [OF Cons.prems(1) Inr]
      reserve_keeps_limits [OF Cons.prems(1) _ Inr Cons.prems(3)] show ?thesis
      by (simp add: x Inr)
  qed
qed

end

section \<open>Retry delays\<close>

text \<open>
  A delay as a function of the number of failed attempts: positive, bounded and never
  shrinking while failures continue.
\<close>

locale backoff =
  fixes delay :: "int \<Rightarrow> int" and floor_delay cap_delay :: int
  assumes delay_lower: "1 \<le> n \<Longrightarrow> floor_delay \<le> delay n"
    and delay_upper: "1 \<le> n \<Longrightarrow> delay n \<le> cap_delay"
    and delay_step: "1 \<le> n \<Longrightarrow> delay n \<le> delay (n + 1)"
begin

lemma delay_mono: "1 \<le> n \<Longrightarrow> n \<le> m \<Longrightarrow> delay n \<le> delay m"
proof -
  assume n: "1 \<le> n" and le: "n \<le> m"
  have "delay n \<le> delay (n + int k)" for k
  proof (induction k)
    case (Suc k)
    then show ?case using delay_step [of "n + int k"] n by (simp add: add_ac)
  qed simp
  from this [of "nat (m - n)"] le show ?thesis by simp
qed

lemma delay_total: "1 \<le> n \<Longrightarrow> n \<le> m \<Longrightarrow> floor_delay \<le> delay n \<and> delay n \<le> delay m \<and> delay m \<le> cap_delay"
  using delay_lower [of n] delay_upper [of m] delay_mono [of n m] by simp

end

end
