(* ===== verification/Turnover.thy ===== *)
theory Turnover
  imports JobLifecycle Transition
begin

text \<open>
  Daily turnover reservations of \<open>executor/store.ts\<close>: what a strategy used of its quote-token
  allowance today, reserving before the first approval or swap, confirming and releasing.
\<close>

section \<open>Operations\<close>

definition utcDay :: "int \<Rightarrow> int" where
  "utcDay timestamp = timestamp div 86400 * 86400"

text \<open>The strategy of a reservation (\<open>JOIN jobs j ON j.id = r.job_id\<close>).\<close>

definition turnover_strategy :: "turnover_row \<Rightarrow> db \<Rightarrow> string option" where
  "turnover_strategy r d = map_option job_strategy_id (get_where (\<lambda>j. job_id j = tr_job_id r) (jobs d))"

text \<open>The rows of one bucket: wallet, token, day and, when one is given, strategy.\<close>

definition in_bucket :: "string \<Rightarrow> string \<Rightarrow> int \<Rightarrow> string option \<Rightarrow> db \<Rightarrow> turnover_row \<Rightarrow> bool" where
  "in_bucket w t day s d r \<longleftrightarrow>
     tr_wallet_id r = w \<and> tr_token r = t \<and> tr_day r = day \<and> counts (tr_state r) \<and>
     (case s of None \<Rightarrow> True | Some i \<Rightarrow> turnover_strategy r d = Some i)"

definition dailyTurnoverUsed :: "string \<Rightarrow> string \<Rightarrow> int \<Rightarrow> string option \<Rightarrow> db \<Rightarrow> int" where
  "dailyTurnoverUsed w quot now s d =
     sum_where (in_bucket w (toLower quot) (utcDay now) (if s = Some [] then None else s) d) tr_amount (turnover d)"

record turnover_request =
  tq_jobId :: string
  tq_walletId :: string
  tq_quoteToken :: string
  tq_now :: int

definition reserveDailyTurnover :: "turnover_request \<Rightarrow> int \<Rightarrow> int \<Rightarrow> db \<Rightarrow> db res" where
  "reserveDailyTurnover q amt limit d =
     (if amt < 0 \<or> limit < 0 then Inl (JsError ''E_DAILY_LIMIT'')
      else if amt = 0 then Inr d
      else
        let day = utcDay (tq_now q); t = toLower (tq_quoteToken q); k = (tq_jobId q, t) in
        (case get_where (\<lambda>j. job_id j = tq_jobId q) (jobs d) of
           None \<Rightarrow> Inl (JsError ''E_JOB_MISSING'')
         | Some job \<Rightarrow>
             let bucket = in_bucket (tq_walletId q) t day (Some (job_strategy_id job)) d in
             (case get_where (\<lambda>r. turnover_key r = k) (turnover d) of
                Some existing \<Rightarrow>
                  if \<not> counts (tr_state existing) then Inl (JsError ''E_DAILY_LIMIT'')
                  else if tr_state existing = Counted then
                    (if tr_day existing \<noteq> day \<or> tr_amount existing \<noteq> amt
                     then Inl (JsError ''E_DAILY_LIMIT'') else Inr d)
                  else if sum_where (\<lambda>r. bucket r \<and> turnover_key r \<noteq> k) tr_amount (turnover d) + amt > limit
                  then Inl (JsError ''E_DAILY_LIMIT'')
                  else Inr (d\<lparr>turnover := update_where (\<lambda>r. turnover_key r = k)
                         (\<lambda>r. r\<lparr>tr_day := day, tr_amount := amt, tr_updated := tq_now q\<rparr>) (turnover d)\<rparr>)
              | None \<Rightarrow>
                  if sum_where bucket tr_amount (turnover d) + amt > limit then Inl (JsError ''E_DAILY_LIMIT'')
                  else fk (wallet_exists (tq_walletId q) d)
                    (Inr (d\<lparr>turnover := turnover d @ [\<lparr>tr_job_id = tq_jobId q, tr_wallet_id = tq_walletId q,
                       tr_token = t, tr_day = day, tr_amount = amt, tr_state = Reserved,
                       tr_updated = tq_now q\<rparr>]\<rparr>)))))"

definition confirmDailyTurnover :: "string \<Rightarrow> int \<Rightarrow> db \<Rightarrow> db" where
  "confirmDailyTurnover j now d = confirm_turnover j now d"

definition releaseDailyTurnover :: "string \<Rightarrow> int \<Rightarrow> db \<Rightarrow> db" where
  "releaseDailyTurnover j now d = release_turnover j now d"

section \<open>The reservations as a budget\<close>

text \<open>What the table keeps: one row per job and token, no negative amount.\<close>

definition turnover_ok :: "db \<Rightarrow> bool" where
  "turnover_ok d \<longleftrightarrow> keys_ok turnover_key (turnover d) \<and> (\<forall>r \<in> set (turnover d). 0 \<le> tr_amount r)"

type_synonym bucket = "string \<times> string \<times> int \<times> string"

definition bucket_used :: "bucket \<Rightarrow> db \<Rightarrow> int" where
  "bucket_used b d = (case b of (w, t, day, s) \<Rightarrow> sum_where (in_bucket w t day (Some s) d) tr_amount (turnover d))"

definition request_bucket :: "turnover_request \<Rightarrow> db \<Rightarrow> bucket" where
  "request_bucket q d = (tq_walletId q, toLower (tq_quoteToken q), utcDay (tq_now q),
     case get_where (\<lambda>j. job_id j = tq_jobId q) (jobs d) of None \<Rightarrow> [] | Some j \<Rightarrow> job_strategy_id j)"

text \<open>A request fits when the job's reservation, if there is one, was made for the same wallet.\<close>

definition request_fits :: "turnover_request \<Rightarrow> db \<Rightarrow> bool" where
  "request_fits q d \<longleftrightarrow>
     (\<forall>r \<in> set (turnover d). turnover_key r = (tq_jobId q, toLower (tq_quoteToken q)) \<longrightarrow> tr_wallet_id r = tq_walletId q)"

lemma in_bucket_turnover [simp]: "in_bucket w t day s (d\<lparr>turnover := x\<rparr>) = in_bucket w t day s d"
  by (rule ext) (simp add: in_bucket_def turnover_strategy_def cong: option.case_cong)

lemma reserve_cases:
  assumes "reserveDailyTurnover q amt limit d = Inr d'"
  obtains (same) "d' = d"
  | (insert) job where "0 < amt" "get_where (\<lambda>j. job_id j = tq_jobId q) (jobs d) = Some job"
      "\<forall>r \<in> set (turnover d). turnover_key r \<noteq> (tq_jobId q, toLower (tq_quoteToken q))"
      "bucket_used (request_bucket q d) d + amt \<le> limit"
      "d' = d\<lparr>turnover := turnover d @ [\<lparr>tr_job_id = tq_jobId q, tr_wallet_id = tq_walletId q,
         tr_token = toLower (tq_quoteToken q), tr_day = utcDay (tq_now q), tr_amount = amt, tr_state = Reserved,
         tr_updated = tq_now q\<rparr>]\<rparr>"
  | (update) job r where "0 < amt" "get_where (\<lambda>j. job_id j = tq_jobId q) (jobs d) = Some job"
      "get_where (\<lambda>r. turnover_key r = (tq_jobId q, toLower (tq_quoteToken q))) (turnover d) = Some r"
      "tr_state r = Reserved"
      "sum_where (\<lambda>r. in_bucket (tq_walletId q) (toLower (tq_quoteToken q)) (utcDay (tq_now q))
           (Some (job_strategy_id job)) d r \<and> turnover_key r \<noteq> (tq_jobId q, toLower (tq_quoteToken q)))
         tr_amount (turnover d) + amt \<le> limit"
      "d' = d\<lparr>turnover := update_where (\<lambda>r. turnover_key r = (tq_jobId q, toLower (tq_quoteToken q)))
         (\<lambda>r. r\<lparr>tr_day := utcDay (tq_now q), tr_amount := amt, tr_updated := tq_now q\<rparr>) (turnover d)\<rparr>"
proof -
  consider "amt = 0" | "0 < amt" | "amt < 0" by linarith
  then show thesis
  proof cases
    case 1
    with assms same show ?thesis by (auto simp: reserveDailyTurnover_def split: if_splits)
  next
    case 3
    with assms show ?thesis by (simp add: reserveDailyTurnover_def)
  next
    case 2
    from assms 2 obtain job where job: "get_where (\<lambda>j. job_id j = tq_jobId q) (jobs d) = Some job"
      by (auto simp: reserveDailyTurnover_def Let_def split: option.splits if_splits)
    show ?thesis
    proof (cases "get_where (\<lambda>r. turnover_key r = (tq_jobId q, toLower (tq_quoteToken q))) (turnover d)")
      case None
      then have free: "\<forall>r \<in> set (turnover d). turnover_key r \<noteq> (tq_jobId q, toLower (tq_quoteToken q))"
        by (simp only: get_where_None_iff not_False_eq_True)
      show ?thesis
        by (rule insert [OF 2 job free]; use assms 2 job None in
          \<open>simp add: reserveDailyTurnover_def Let_def fk_def bucket_used_def request_bucket_def split: if_splits\<close>)
    next
      case (Some r)
      show ?thesis
      proof (cases "tr_state r")
        case Reserved
        show ?thesis
          by (rule update [OF 2 job Some Reserved]; use assms 2 job Some Reserved in
            \<open>simp add: reserveDailyTurnover_def Let_def counts_def split: if_splits\<close>)
      next
        case Counted
        with assms 2 job Some show ?thesis
          by (intro same) (auto simp: reserveDailyTurnover_def Let_def counts_def split: if_splits)
      next
        case Released
        with assms 2 job Some show ?thesis
          by (auto simp: reserveDailyTurnover_def Let_def counts_def split: if_splits)
      qed
    qed
  qed
qed

lemma turnover_ok_nonneg: "turnover_ok d \<Longrightarrow> r \<in> set (turnover d) \<Longrightarrow> 0 \<le> tr_amount r"
  by (simp add: turnover_ok_def)

lemma turnover_ok_reserve:
  assumes "turnover_ok d" and "reserveDailyTurnover q amt limit d = Inr d'"
  shows "turnover_ok d'"
  using assms(2)
proof (cases rule: reserve_cases)
  case same
  with assms show ?thesis by simp
next
  case (insert job)
  with assms show ?thesis by (auto simp: turnover_ok_def keys_ok_snoc turnover_key_def)
next
  case (update job r)
  then have t: "turnover d' = update_where (\<lambda>r. turnover_key r = (tq_jobId q, toLower (tq_quoteToken q)))
      (\<lambda>r. r\<lparr>tr_day := utcDay (tq_now q), tr_amount := amt, tr_updated := tq_now q\<rparr>) (turnover d)" by simp
  have "keys_ok turnover_key (turnover d')"
    unfolding t using assms(1) by (intro keys_ok_update) (simp_all add: turnover_ok_def turnover_key_def)
  moreover have "\<forall>r \<in> set (turnover d'). 0 \<le> tr_amount r"
    unfolding t set_update_where using assms(1) update(1) by (auto simp: turnover_ok_def)
  ultimately show ?thesis by (simp add: turnover_ok_def)
qed

lemma reserve_bucket:
  assumes ok: "turnover_ok d" and r: "reserveDailyTurnover q amt limit d = Inr d'"
  shows "bucket_used (request_bucket q d) d' \<le> limit \<or>
         bucket_used (request_bucket q d) d' \<le> bucket_used (request_bucket q d) d"
  using r
proof (cases rule: reserve_cases)
  case same
  then show ?thesis by simp
next
  case (insert job)
  then show ?thesis
    by (simp add: bucket_used_def request_bucket_def in_bucket_def turnover_strategy_def counts_def split: if_splits)
next
  case (update job x)
  let ?k = "(tq_jobId q, toLower (tq_quoteToken q))"
  let ?p = "in_bucket (tq_walletId q) (toLower (tq_quoteToken q)) (utcDay (tq_now q)) (Some (job_strategy_id job)) d"
  let ?f = "\<lambda>r. r\<lparr>tr_day := utcDay (tq_now q), tr_amount := amt, tr_updated := tq_now q\<rparr>"
  have "bucket_used (request_bucket q d) d' = sum_where ?p tr_amount (update_where (\<lambda>r. turnover_key r = ?k) ?f (turnover d))"
    using update by (simp add: bucket_used_def request_bucket_def)
  also have "\<dots> = sum_where (\<lambda>r. ?p r \<and> turnover_key r \<noteq> ?k) tr_amount (turnover d) +
      (if ?p (?f x) then tr_amount (?f x) else 0)"
    by (rule sum_where_update_one [OF conjunct1 [OF ok [unfolded turnover_ok_def]] update(3)])
      (simp add: turnover_key_def)
  also have "\<dots> \<le> limit" using update(1,5) by simp
  finally show ?thesis by simp
qed

lemma reserve_other_buckets:
  assumes ok: "turnover_ok d" and fit: "request_fits q d" and r: "reserveDailyTurnover q amt limit d = Inr d'"
    and b: "b \<noteq> request_bucket q d"
  shows "bucket_used b d' \<le> bucket_used b d"
  using r
proof (cases rule: reserve_cases)
  case same
  then show ?thesis by simp
next
  case (insert job)
  with b show ?thesis
    by (cases b) (auto simp: bucket_used_def request_bucket_def in_bucket_def turnover_strategy_def)
next
  case (update job x)
  obtain w t day s where bb: "b = (w, t, day, s)" by (cases b)
  have x: "x \<in> set (turnover d)" "turnover_key x = (tq_jobId q, toLower (tq_quoteToken q))"
    using get_where_SomeD [OF update(3)] by simp_all
  then have w: "tr_wallet_id x = tq_walletId q" using fit by (simp add: request_fits_def)
  show ?thesis
    unfolding bucket_used_def bb prod.case update(6) in_bucket_turnover db.select_convs db.update_convs
  proof (simp, rule sum_where_update_le)
    fix y
    assume y: "y \<in> set (turnover d)" "turnover_key y = (tq_jobId q, toLower (tq_quoteToken q))"
    then have "y = x" using x ok by (auto simp: turnover_ok_def keys_ok_def distinct_map inj_on_def)
    with x w b bb y update(2) turnover_ok_nonneg [OF ok x(1)] show
      "(if in_bucket w t day (Some s) d (y\<lparr>tr_day := utcDay (tq_now q), tr_amount := amt, tr_updated := tq_now q\<rparr>)
        then tr_amount (y\<lparr>tr_day := utcDay (tq_now q), tr_amount := amt, tr_updated := tq_now q\<rparr>) else 0)
       \<le> (if in_bucket w t day (Some s) d y then tr_amount y else 0)"
      by (auto simp: in_bucket_def turnover_strategy_def request_bucket_def turnover_key_def)
  qed
qed

interpretation turnover_budget: budget turnover_ok bucket_used request_bucket request_fits reserveDailyTurnover
proof unfold_locales
  fix d q amt limit d'
  assume "turnover_ok d" "reserveDailyTurnover q amt limit d = Inr d'"
  then show "turnover_ok d'" by (rule turnover_ok_reserve)
next
  fix d q amt limit d'
  assume "turnover_ok d" "reserveDailyTurnover q amt limit d = Inr d'"
  then show "bucket_used (request_bucket q d) d' \<le> limit \<or>
      bucket_used (request_bucket q d) d' \<le> bucket_used (request_bucket q d) d" by (rule reserve_bucket)
next
  fix d q amt limit d' b
  assume "turnover_ok d" "request_fits q d" "reserveDailyTurnover q amt limit d = Inr d'" "b \<noteq> request_bucket q d"
  then show "bucket_used b d' \<le> bucket_used b d" by (rule reserve_other_buckets)
qed

section \<open>Properties\<close>

text \<open>The reading the executor shows is the sum over its bucket.\<close>

lemma dailyTurnoverUsed_bucket:
  "s \<noteq> [] \<Longrightarrow> dailyTurnoverUsed w quot now (Some s) d = bucket_used (w, toLower quot, utcDay now, s) d"
  by (simp add: dailyTurnoverUsed_def bucket_used_def)

text \<open>
  The daily quote-token cap of a strategy holds: reserving a positive amount for a job is
  refused, leaving the database unchanged, or afterwards the strategy has used at most the
  limit it was given today, or no more than before.  A refused or accepted reservation never
  writes anything but the reservation table.
\<close>

theorem reserveDailyTurnover_within_limit:
  assumes "turnover_ok d" and "reserveDailyTurnover q amt limit d = Inr d'"
    and "j \<in> set (jobs d)" and "job_id j = tq_jobId q" and "keys_ok job_id (jobs d)" and "job_strategy_id j \<noteq> []"
  shows "(let used = dailyTurnoverUsed (tq_walletId q) (tq_quoteToken q) (tq_now q) (Some (job_strategy_id j))
          in used d' \<le> limit \<or> used d' \<le> used d) \<and>
         d' = d\<lparr>turnover := turnover d'\<rparr> \<and> turnover_ok d'"
proof -
  have "get_where (\<lambda>j. job_id j = tq_jobId q) (jobs d) = Some j"
    using assms(3-5) by (simp add: get_where_Some_iff)
  then have b: "request_bucket q d = (tq_walletId q, toLower (tq_quoteToken q), utcDay (tq_now q), job_strategy_id j)"
    by (simp add: request_bucket_def)
  have "d' = d\<lparr>turnover := turnover d'\<rparr>" using assms(2) by (cases rule: reserve_cases) simp_all
  then show ?thesis
    using turnover_budget.reserve_within [OF assms(1,2)] turnover_budget.reserve_ok [OF assms(1,2)] assms(6)
    by (simp add: Let_def dailyTurnoverUsed_bucket b)
qed

definition sample_request :: turnover_request where
  "sample_request = \<lparr>tq_jobId = ''j1'', tq_walletId = ''w1'', tq_quoteToken = ''0xQQ'', tq_now = 90000\<rparr>"

theorem reserveDailyTurnover_within_limit_witness:
  "\<exists>d'. reserveDailyTurnover sample_request 60 100 busy_db = Inr d' \<and>
     (let used = dailyTurnoverUsed ''w1'' ''0xQQ'' 90000 (Some ''s1'') in used d' \<le> 100 \<or> used d' \<le> used busy_db)"
proof -
  have "isInr (reserveDailyTurnover sample_request 60 100 busy_db)" by code_simp
  then obtain d' where d': "reserveDailyTurnover sample_request 60 100 busy_db = Inr d'"
    by (auto simp: isInr_iff)
  have h: "turnover_ok busy_db" "sample_job \<in> set (jobs busy_db)" "job_id sample_job = tq_jobId sample_request"
    "keys_ok job_id (jobs busy_db)" "job_strategy_id sample_job \<noteq> []"
    by (simp_all add: turnover_ok_def busy_db_def sample_db_def empty_db_def sample_job_def new_job_def
        sample_request_def keys_ok_def)
  from reserveDailyTurnover_within_limit [OF h(1) d' h(2-5)] d' show ?thesis
    by (auto simp: sample_request_def sample_job_def new_job_def)
qed

text \<open>
  C4. The caps of all strategies hold together: over any sequence of reservations in which a
  job keeps its wallet, each checked against its strategy's limit and skipped when refused,
  no strategy's daily use ever exceeds its limit if none exceeded it at the start.
\<close>

theorem reservations_never_exceed_limits:
  assumes "turnover_ok d" and "turnover_budget.all_fit L xs d"
    and "\<forall>w t day s. bucket_used (w, t, day, s) d \<le> L (w, t, day, s)"
  shows "bucket_used (w, t, day, s) (turnover_budget.reserve_all L xs d) \<le> L (w, t, day, s)"
  using turnover_budget.reserve_all_within [of d L xs] assms by auto

lemma bucket_used_empty: "turnover d = [] \<Longrightarrow> bucket_used b d = 0"
  by (cases b) (simp add: bucket_used_def)

theorem reservations_never_exceed_limits_witness:
  "bucket_used (''w1'', ''0xqq'', 86400, ''s1'')
     (turnover_budget.reserve_all (\<lambda>_. 100) [(sample_request, 60), (sample_request, 120)] busy_db) \<le> 100"
proof (rule reservations_never_exceed_limits)
  show "turnover_ok busy_db" by (simp add: turnover_ok_def busy_db_def sample_db_def empty_db_def)
  have "turnover busy_db = []" by (simp add: busy_db_def sample_db_def empty_db_def)
  then show "\<forall>w t day s. bucket_used (w, t, day, s) busy_db \<le> 100" by (simp add: bucket_used_empty)
  show "turnover_budget.all_fit (\<lambda>_. 100) [(sample_request, 60), (sample_request, 120)] busy_db"
  proof -
    have tok: "toLower (tq_quoteToken sample_request) = ''0xqq''" by code_simp
    have fit: "request_fits sample_request e \<longleftrightarrow> (\<forall>r \<in> set (turnover e).
      turnover_key r = (''j1'', ''0xqq'') \<longrightarrow> tr_wallet_id r = ''w1'')" for e
      by (simp only: request_fits_def tok) (simp add: sample_request_def)
    show ?thesis
      unfolding turnover_budget.all_fit.simps fit by code_simp
  qed
qed

end
