(* ===== verification/StoreLedger.thy ===== *)
theory StoreLedger
  imports JobLifecycle
begin

text \<open>
  \<open>executor/store.ts\<close>, the append-only facts: ledger entries and the gas valuation marks, with
  the backfill of legacy gas rows, and what makes them immutable.
\<close>

section \<open>Ledger entries\<close>

text \<open>
  One row of \<open>ledger_entries\<close>.  The stored \<open>meta_json\<close> is the entry's meta object with the
  \<open>estimated\<close> flag written over it; the flag is kept as a field of its own.
\<close>

definition ledger_row_of :: "string option \<Rightarrow> string option \<Rightarrow> ledger_entry \<Rightarrow> ledger_row" where
  "ledger_row_of cycle job e =
     \<lparr>le_id = entry_id e, le_strategy_id = entry_strategyId e, le_cycle_id = cycle, le_job_id = job,
      le_ts = entry_ts e, le_block_number = entry_blockNumber e, le_tx_hash = entry_txHash e,
      le_kind = kind e, le_token = token e, le_amount = amount e, le_quote_value = quoteValue e,
      le_meta = map (\<lambda>(k, v). (k, JStr v)) (filter (\<lambda>(k, v). k \<noteq> ''estimated'') (meta e)),
      le_estimated = (estimated e = Some True)\<rparr>"

text \<open>\<open>INSERT OR IGNORE\<close>: a known identifier is skipped, a missing strategy is an error.\<close>

definition insert_ledger :: "ledger_row \<Rightarrow> db \<Rightarrow> db res" where
  "insert_ledger r d =
     (if exists_where (\<lambda>x. le_id x = le_id r) (ledger d) then Inr d
      else fk (strategy_exists (le_strategy_id r) d) (Inr (d\<lparr>ledger := ledger d @ [r]\<rparr>)))"

definition appendLedger :: "ledger_entry list \<Rightarrow> db \<Rightarrow> db res" where
  "appendLedger entries d =
     foldR insert_ledger (map (\<lambda>e. ledger_row_of (entry_cycleId e) (entry_jobId e) e) entries) d"

section \<open>Gas valuations\<close>

record gas_mark =
  gm_txHash :: string
  gm_strategyId :: string
  gm_jobId :: string
  gm_blockNumber :: string
  gm_observedAt :: int
  gm_gasWei :: int
  gm_quoteToken :: string
  gm_quoteValue :: "int option"
  gm_settlementToken :: string
  gm_settlementValue :: "int option"
  gm_version :: int
  gm_quoteSource :: "string option"
  gm_settlementSource :: "string option"
  gm_error :: "string option"

definition recordGasReceipt :: "gas_mark \<Rightarrow> db \<Rightarrow> db res" where
  "recordGasReceipt m d =
     (if exists_where (\<lambda>r. gv_tx_hash r = gm_txHash m) (gas_valuations d) then Inr d
      else fk (strategy_exists (gm_strategyId m) d \<and> job_exists (gm_jobId m) d)
        (Inr (d\<lparr>gas_valuations := gas_valuations d @
           [\<lparr>gv_tx_hash = gm_txHash m, gv_strategy_id = gm_strategyId m, gv_job_id = gm_jobId m,
             gv_block_number = gm_blockNumber m, gv_observed_at = gm_observedAt m, gv_gas_wei = gm_gasWei m,
             gv_quote_token = gm_quoteToken m, gv_quote_value = None,
             gv_settlement_token = gm_settlementToken m, gv_settlement_value = None,
             gv_version = gm_version m, gv_quote_source = None, gv_settlement_source = None,
             gv_error = None\<rparr>]\<rparr>)))"

definition gas_open :: "gas_row \<Rightarrow> bool" where
  "gas_open r \<longleftrightarrow> gv_quote_value r = None \<and> gv_settlement_value r = None \<and> gv_quote_source r = None \<and>
     gv_settlement_source r = None \<and> gv_error r = None"

definition completeGasValuation :: "gas_mark \<Rightarrow> db \<Rightarrow> db" where
  "completeGasValuation m d =
     d\<lparr>gas_valuations := update_where
        (\<lambda>r. gv_tx_hash r = gm_txHash m \<and> gv_version r = gm_version m \<and> gv_job_id r = gm_jobId m \<and>
             gv_block_number r = gm_blockNumber m \<and> gv_observed_at r = gm_observedAt m \<and>
             gv_gas_wei r = gm_gasWei m \<and> gas_open r)
        (\<lambda>r. r\<lparr>gv_quote_value := coalesce (gv_quote_value r) (gm_quoteValue m),
               gv_settlement_value := coalesce (gv_settlement_value r) (gm_settlementValue m),
               gv_quote_source := coalesce (gv_quote_source r) (gm_quoteSource m),
               gv_settlement_source := coalesce (gv_settlement_source r) (gm_settlementSource m),
               gv_error := gm_error m\<rparr>)
        (gas_valuations d)\<rparr>"

definition gasValuation :: "string \<Rightarrow> db \<Rightarrow> gas_mark option" where
  "gasValuation h d =
     (case get_where (\<lambda>r. gv_tx_hash r = h) (gas_valuations d) of
        None \<Rightarrow> None
      | Some r \<Rightarrow>
          if gv_version r \<noteq> 1 then None
          else Some \<lparr>gm_txHash = gv_tx_hash r, gm_strategyId = gv_strategy_id r, gm_jobId = gv_job_id r,
            gm_blockNumber = gv_block_number r, gm_observedAt = gv_observed_at r, gm_gasWei = gv_gas_wei r,
            gm_quoteToken = gv_quote_token r, gm_quoteValue = gv_quote_value r,
            gm_settlementToken = gv_settlement_token r, gm_settlementValue = gv_settlement_value r,
            gm_version = 1, gm_quoteSource = gv_quote_source r,
            gm_settlementSource = gv_settlement_source r, gm_error = gv_error r\<rparr>)"

section \<open>Backfilling legacy gas rows\<close>

record legacy_gas =
  lg_ledgerId :: string
  lg_strategyId :: string
  lg_jobId :: string
  lg_txHash :: string
  lg_blockNumber :: string
  lg_observedAt :: int
  lg_gasWei :: int
  lg_quoteToken :: string
  lg_quoteValue :: int
  lg_settlementToken :: string
  lg_settlementValue :: int

definition all_digits :: "string \<Rightarrow> bool" where
  "all_digits s \<longleftrightarrow> s \<noteq> [] \<and> list_all (\<lambda>c. digit_val c \<noteq> None) s"

text \<open>The versioned meta fields, and whether a meta object already carries this very mark.\<close>

definition legacy_meta :: "legacy_gas \<Rightarrow> (string \<times> json) list" where
  "legacy_meta m =
     [(''gasValuationVersion'', JNum 1), (''observedAt'', JNum (of_int (lg_observedAt m))),
      (''quoteToken'', JStr (lg_quoteToken m)), (''quoteSource'', JStr ''exact_native''),
      (''settlementToken'', JStr (lg_settlementToken m)),
      (''settlementValueRaw'', JStr (big_to_string (lg_settlementValue m))),
      (''settlementSource'', JStr ''historical_block_close'')]"

fun same_text :: "json option \<Rightarrow> string \<Rightarrow> bool" where
  "same_text (Some (JStr s)) t = (toLower s = toLower t)"
| "same_text _ t = False"

definition legacy_conflict :: "legacy_gas \<Rightarrow> ledger_row \<Rightarrow> bool" where
  "legacy_conflict m row =
     (let meta = map_of (le_meta row) in
      le_quote_value row \<noteq> Some (lg_quoteValue m) \<or>
      meta ''observedAt'' \<noteq> Some (JNum (of_int (lg_observedAt m))) \<or>
      \<not> same_text (meta ''quoteToken'') (lg_quoteToken m) \<or>
      meta ''quoteSource'' \<noteq> Some (JStr ''exact_native'') \<or>
      \<not> same_text (meta ''settlementToken'') (lg_settlementToken m) \<or>
      meta ''settlementValueRaw'' \<noteq> Some (JStr (big_to_string (lg_settlementValue m))) \<or>
      meta ''settlementSource'' \<noteq> Some (JStr ''historical_block_close''))"

definition gas_conflict :: "legacy_gas \<Rightarrow> gas_mark \<Rightarrow> bool" where
  "gas_conflict m e \<longleftrightarrow>
     gm_strategyId e \<noteq> lg_strategyId m \<or> gm_jobId e \<noteq> lg_jobId m \<or>
     gm_blockNumber e \<noteq> lg_blockNumber m \<or> gm_observedAt e \<noteq> lg_observedAt m \<or>
     gm_gasWei e \<noteq> lg_gasWei m \<or> toLower (gm_quoteToken e) \<noteq> toLower (lg_quoteToken m) \<or>
     gm_quoteValue e \<noteq> Some (lg_quoteValue m) \<or>
     toLower (gm_settlementToken e) \<noteq> toLower (lg_settlementToken m) \<or>
     gm_settlementValue e \<noteq> Some (lg_settlementValue m)"

definition legacy_facts :: "legacy_gas \<Rightarrow> ledger_row \<Rightarrow> bool" where
  "legacy_facts m row \<longleftrightarrow>
     le_kind row = Gas \<and> le_strategy_id row = lg_strategyId m \<and> le_job_id row = Some (lg_jobId m) \<and>
     le_ts row = lg_observedAt m \<and> le_block_number row = Some (lg_blockNumber m) \<and>
     map_option toLower (le_tx_hash row) = Some (toLower (lg_txHash m)) \<and> le_amount row = Some (lg_gasWei m)"

definition legacy_mark_row :: "legacy_gas \<Rightarrow> gas_row" where
  "legacy_mark_row m =
     \<lparr>gv_tx_hash = lg_txHash m, gv_strategy_id = lg_strategyId m, gv_job_id = lg_jobId m,
      gv_block_number = lg_blockNumber m, gv_observed_at = lg_observedAt m, gv_gas_wei = lg_gasWei m,
      gv_quote_token = lg_quoteToken m, gv_quote_value = Some (lg_quoteValue m),
      gv_settlement_token = lg_settlementToken m, gv_settlement_value = Some (lg_settlementValue m),
      gv_version = 1, gv_quote_source = Some ''exact_native'',
      gv_settlement_source = Some ''historical_block_close'', gv_error = None\<rparr>"

definition backfillLegacyGasValuation :: "legacy_gas \<Rightarrow> db \<Rightarrow> (bool \<times> db) res" where
  "backfillLegacyGasValuation m d =
     (if \<not> all_digits (lg_blockNumber m) \<or> lg_gasWei m < 0 \<or> lg_quoteValue m < 0 \<or> lg_settlementValue m < 0
      then Inl (JsError ''legacy gas valuation contains a non-integer amount'')
      else
        (case get_where (\<lambda>r. le_id r = lg_ledgerId m) (ledger d) of
           None \<Rightarrow> Inl (JsError ''legacy gas ledger facts changed before backfill'')
         | Some row \<Rightarrow>
             if \<not> legacy_facts m row then Inl (JsError ''legacy gas ledger facts changed before backfill'')
             else if map_of (le_meta row) ''gasValuationVersion'' = Some (JNum 1) then
               (if legacy_conflict m row
                then Inl (JsError ''versioned gas ledger conflicts with historical mark'')
                else Inr (False, d))
             else if le_quote_value row \<noteq> None \<and> le_quote_value row \<noteq> Some (lg_quoteValue m)
             then Inl (JsError ''legacy gas quote value conflicts with historical mark'')
             else
               let existing = gasValuation (lg_txHash m) d in
               if (case existing of None \<Rightarrow> False | Some e \<Rightarrow> gas_conflict m e)
               then Inl (JsError ''existing gas valuation conflicts with historical mark'')
               else
                 let nextMeta = foldl (\<lambda>acc e. rec_set (fst e) (snd e) acc) (le_meta row) (legacy_meta m);
                     d1 = d\<lparr>ledger := update_where (\<lambda>r. le_id r = lg_ledgerId m \<and> le_meta r = le_meta row)
                             (\<lambda>r. r\<lparr>le_quote_value := Some (lg_quoteValue m), le_meta := nextMeta\<rparr>) (ledger d)\<rparr>
                 in if count_where (\<lambda>r. le_id r = lg_ledgerId m \<and> le_meta r = le_meta row) (ledger d) \<noteq> 1
                    then Inl (JsError ''legacy gas ledger changed during backfill'')
                    else if existing = None then
                      bindR (insert_row gv_tx_hash (legacy_mark_row m) (gas_valuations d1)) (\<lambda>t.
                        fk (strategy_exists (lg_strategyId m) d1 \<and> job_exists (lg_jobId m) d1)
                          (Inr (True, d1\<lparr>gas_valuations := t\<rparr>)))
                    else Inr (True, d1)))"

section \<open>What the marks promise\<close>

lemma map_of_spread:
  "map_of (foldl (\<lambda>acc e. rec_set (fst e) (snd e) acc) base xs) k
     = (case map_of (rev xs) k of None \<Rightarrow> map_of base k | Some v \<Rightarrow> Some v)"
  by (induction xs rule: rev_induct) (auto split: option.splits)

lemma legacy_meta_written:
  assumes "le_meta row = foldl (\<lambda>acc e. rec_set (fst e) (snd e) acc) base (legacy_meta m)"
    and "le_quote_value row = Some (lg_quoteValue m)"
  shows "map_of (le_meta row) ''gasValuationVersion'' = Some (JNum 1) \<and> \<not> legacy_conflict m row"
  unfolding legacy_conflict_def Let_def assms(1) map_of_spread by (simp add: legacy_meta_def assms(2))

lemma backfill_cases:
  assumes "backfillLegacyGasValuation m d = Inr (True, d')"
  obtains row where "get_where (\<lambda>r. le_id r = lg_ledgerId m) (ledger d) = Some row" and "legacy_facts m row"
    and "all_digits (lg_blockNumber m)" "0 \<le> lg_gasWei m" "0 \<le> lg_quoteValue m" "0 \<le> lg_settlementValue m"
    and "ledger d' = update_where (\<lambda>r. le_id r = lg_ledgerId m \<and> le_meta r = le_meta row)
           (\<lambda>r. r\<lparr>le_quote_value := Some (lg_quoteValue m),
              le_meta := foldl (\<lambda>acc e. rec_set (fst e) (snd e) acc) (le_meta row) (legacy_meta m)\<rparr>) (ledger d)"
    and "gas_valuations d' = gas_valuations d \<or> gas_valuations d' = gas_valuations d @ [legacy_mark_row m]"
  using assms unfolding backfillLegacyGasValuation_def Let_def
  by (auto split: option.splits if_splits simp: bindR_eq_Inr fk_def insert_row_Inr not_less)

lemma ledger_key_update:
  assumes "keys_ok le_id t" and "get_where (\<lambda>r. le_id r = i) t = Some row"
  shows "update_where (\<lambda>r. le_id r = i \<and> le_meta r = le_meta row) f t = update_where (\<lambda>r. le_id r = i) f t"
proof -
  have "r = row" if "r \<in> set t" "le_id r = i" for r
    using assms that by (auto simp: get_where_Some_iff keys_ok_def distinct_map inj_on_def)
  then show ?thesis unfolding update_where_def by (intro map_cong) auto
qed

text \<open>
  Interrupted backfills are resumable: once the historical mark of a gas row is written, a
  second run with the same mark succeeds, reports that there was nothing to do and leaves the
  database as it is.
\<close>

theorem backfillLegacyGasValuation_idempotent:
  assumes "backfillLegacyGasValuation m d = Inr (True, d')" and "keys_ok le_id (ledger d)"
  shows "backfillLegacyGasValuation m d' = Inr (False, d')"
proof -
  let ?f = "\<lambda>row r. r\<lparr>le_quote_value := Some (lg_quoteValue m),
      le_meta := foldl (\<lambda>acc e. rec_set (fst e) (snd e) acc) (le_meta row) (legacy_meta m)\<rparr>"
  from assms(1) obtain row where row: "get_where (\<lambda>r. le_id r = lg_ledgerId m) (ledger d) = Some row"
    and facts: "legacy_facts m row" and valid: "all_digits (lg_blockNumber m)" "0 \<le> lg_gasWei m"
    "0 \<le> lg_quoteValue m" "0 \<le> lg_settlementValue m"
    and led: "ledger d' = update_where (\<lambda>r. le_id r = lg_ledgerId m \<and> le_meta r = le_meta row) (?f row) (ledger d)"
    by (rule backfill_cases)
  have "ledger d' = update_where (\<lambda>r. le_id r = lg_ledgerId m) (?f row) (ledger d)"
    unfolding led by (rule ledger_key_update [OF assms(2) row])
  then have g: "get_where (\<lambda>r. le_id r = lg_ledgerId m) (ledger d') = Some (?f row row)"
    using get_update_same [of le_id "?f row" "lg_ledgerId m" "ledger d"] row by simp
  have "legacy_facts m (?f row row)" using facts by (simp add: legacy_facts_def)
  moreover have "map_of (le_meta (?f row row)) ''gasValuationVersion'' = Some (JNum 1)"
    "\<not> legacy_conflict m (?f row row)"
    using legacy_meta_written [of "?f row row" "le_meta row" m] by simp_all
  ultimately show ?thesis
    using valid unfolding backfillLegacyGasValuation_def g option.case by simp
qed

definition sample_gas_row :: ledger_row where
  "sample_gas_row = \<lparr>le_id = ''g1'', le_strategy_id = ''s1'', le_cycle_id = None, le_job_id = Some ''j1'',
     le_ts = 905, le_block_number = Some ''11'', le_tx_hash = Some ''0xH'', le_kind = Gas, le_token = None,
     le_amount = Some 21000, le_quote_value = None, le_meta = [(''note'', JStr ''legacy'')], le_estimated = False\<rparr>"

definition sample_legacy :: legacy_gas where
  "sample_legacy = \<lparr>lg_ledgerId = ''g1'', lg_strategyId = ''s1'', lg_jobId = ''j1'', lg_txHash = ''0xh'',
     lg_blockNumber = ''11'', lg_observedAt = 905, lg_gasWei = 21000, lg_quoteToken = ''0xqq'',
     lg_quoteValue = 21000, lg_settlementToken = ''0xuu'', lg_settlementValue = 7\<rparr>"

definition gas_db :: db where
  "gas_db = busy_db\<lparr>ledger := [sample_gas_row]\<rparr>"

theorem backfillLegacyGasValuation_idempotent_witness:
  "\<exists>d'. backfillLegacyGasValuation sample_legacy gas_db = Inr (True, d') \<and>
     backfillLegacyGasValuation sample_legacy d' = Inr (False, d')"
proof -
  have "(case backfillLegacyGasValuation sample_legacy gas_db of Inr (True, d') \<Rightarrow> True | _ \<Rightarrow> False)"
    by code_simp
  then obtain d' where d': "backfillLegacyGasValuation sample_legacy gas_db = Inr (True, d')"
    by (auto split: sum.splits prod.splits bool.splits)
  have "keys_ok le_id (ledger gas_db)" by (simp add: gas_db_def keys_ok_def)
  from backfillLegacyGasValuation_idempotent [OF d' this] d' show ?thesis by auto
qed

text \<open>
  Gas marks are immutable: a mark that carries a valuation or an error is still in the
  table, unchanged, after recording any receipt, completing any valuation and backfilling any
  legacy row.
\<close>

theorem gas_marks_immutable:
  assumes "r \<in> set (gas_valuations d)" and "\<not> gas_open r"
  shows "(\<forall>d'. recordGasReceipt m d = Inr d' \<longrightarrow> r \<in> set (gas_valuations d')) \<and>
         r \<in> set (gas_valuations (completeGasValuation m d)) \<and>
         (\<forall>b d'. backfillLegacyGasValuation l d = Inr (b, d') \<longrightarrow> r \<in> set (gas_valuations d'))"
proof (intro conjI allI impI)
  fix d' assume "recordGasReceipt m d = Inr d'"
  then show "r \<in> set (gas_valuations d')" using assms(1)
    by (auto simp: recordGasReceipt_def fk_def split: if_splits)
next
  show "r \<in> set (gas_valuations (completeGasValuation m d))"
    using assms by (auto simp: completeGasValuation_def set_update_where image_iff intro!: bexI [of _ r])
next
  fix b d' assume b: "backfillLegacyGasValuation l d = Inr (b, d')"
  show "r \<in> set (gas_valuations d')"
  proof (cases b)
    case True
    with b have "backfillLegacyGasValuation l d = Inr (True, d')" by simp
    then show ?thesis by (rule backfill_cases) (use assms(1) in auto)
  next
    case False
    with b have "d' = d" unfolding backfillLegacyGasValuation_def Let_def
      by (auto split: option.splits if_splits simp: bindR_eq_Inr fk_def)
    with assms(1) show ?thesis by simp
  qed
qed

definition sample_mark :: gas_mark where
  "sample_mark = \<lparr>gm_txHash = ''0xh'', gm_strategyId = ''s1'', gm_jobId = ''j1'', gm_blockNumber = ''11'',
     gm_observedAt = 905, gm_gasWei = 21000, gm_quoteToken = ''0xqq'', gm_quoteValue = Some 99,
     gm_settlementToken = ''0xuu'', gm_settlementValue = None, gm_version = 1,
     gm_quoteSource = Some ''confirmation_quote'', gm_settlementSource = None, gm_error = None\<rparr>"

theorem gas_marks_immutable_witness:
  "legacy_mark_row sample_legacy \<in> set (gas_valuations (completeGasValuation sample_mark
     (busy_db\<lparr>gas_valuations := [legacy_mark_row sample_legacy]\<rparr>)))"
  using gas_marks_immutable [of "legacy_mark_row sample_legacy"
      "busy_db\<lparr>gas_valuations := [legacy_mark_row sample_legacy]\<rparr>" sample_mark]
  by (simp add: legacy_mark_row_def gas_open_def)

end
