(* ===== verification/StoreMonitor.thy ===== *)
theory StoreMonitor
  imports JobLifecycle Triggers "HOL-Library.List_Lexorder"
begin

text \<open>
  \<open>executor/store.ts\<close>, what the monitor and the accounting record about a strategy: its
  immutable P/L baseline, the daily and five-minute marks, the monitor's state, price samples
  and the questions asked about completed cycles.
\<close>

section \<open>Baselines\<close>

text \<open>A nullable field of an audit detail; null is left out.\<close>

definition opt_field :: "string \<Rightarrow> string option \<Rightarrow> (string \<times> string) list" where
  "opt_field k v = (case v of None \<Rightarrow> [] | Some t \<Rightarrow> [(k, t)])"

definition strategyBaseline :: "string \<Rightarrow> db \<Rightarrow> baseline_row option" where
  "strategyBaseline s d =
     map_option (\<lambda>r. r\<lparr>bl_source := (if bl_source r = ''baseline_backfill'' then ''baseline_backfill''
                                       else ''strategy_start'')\<rparr>)
       (get_where (\<lambda>r. bl_strategy_id r = s) (baselines d))"

definition setStrategyBaselineIfAbsent :: "baseline_row \<Rightarrow> int \<Rightarrow> db \<Rightarrow> bool \<times> db" where
  "setStrategyBaselineIfAbsent b now d =
     (if exists_where (\<lambda>r. bl_strategy_id r = bl_strategy_id b) (baselines d) then (False, d)
      else (True, audit ''executor'' ''strategy_baseline_recorded'' (Some ''strategy'') (Some (bl_strategy_id b))
        ([(''valueQuoteRaw'', big_to_string (bl_value_quote b))] @
         opt_field ''valueUsdgRaw'' (map_option big_to_string (bl_value_usdg b)) @
         [(''quoteToken'', bl_quote_token b), (''blockNumber'', bl_block_number b)] @
         opt_field ''tokenId'' (bl_token_id b) @ [(''source'', bl_source b)]) now
        (d\<lparr>baselines := insert_or_ignore bl_strategy_id (b\<lparr>bl_quote_token := toLower (bl_quote_token b)\<rparr>)
             (baselines d)\<rparr>)))"

definition setStrategyBaselineUsdgIfAbsent :: "string \<Rightarrow> int \<Rightarrow> int \<Rightarrow> db \<Rightarrow> bool \<times> db" where
  "setStrategyBaselineUsdgIfAbsent s v now d =
     (let missing = (\<lambda>r. bl_strategy_id r = s \<and> bl_value_usdg r = None);
          d1 = d\<lparr>baselines := update_where missing (\<lambda>r. r\<lparr>bl_value_usdg := Some v\<rparr>) (baselines d)\<rparr>
      in if exists_where missing (baselines d)
         then (True, audit ''accounting'' ''strategy_baseline_usdg_backfilled'' (Some ''strategy'') (Some s)
                 [(''valueUsdgRaw'', big_to_string v)] now d1)
         else (False, d1))"

definition replaceStrategyBaselineQuote :: "baseline_row \<Rightarrow> int \<Rightarrow> db \<Rightarrow> bool \<times> db" where
  "replaceStrategyBaselineQuote b now d =
     (case strategyBaseline (bl_strategy_id b) d of
        None \<Rightarrow> (False, d)
      | Some previous \<Rightarrow>
          if toLower (bl_quote_token previous) = toLower (bl_quote_token b) then (False, d)
          else (True, audit ''accounting'' ''strategy_baseline_quote_rebased'' (Some ''strategy'')
            (Some (bl_strategy_id b))
            [(''previousQuoteToken'', bl_quote_token previous), (''quoteToken'', bl_quote_token b),
             (''valueQuoteRaw'', big_to_string (bl_value_quote b))] now
            (d\<lparr>baselines := update_where (\<lambda>r. bl_strategy_id r = bl_strategy_id b)
                 (\<lambda>r. b\<lparr>bl_strategy_id := bl_strategy_id r, bl_quote_token := toLower (bl_quote_token b)\<rparr>)
                 (baselines d)\<rparr>)))"

section \<open>Daily marks\<close>

record daily_point =
  dp_strategyId :: string
  dp_observedAt :: int
  dp_day :: int
  dp_quoteToken :: string
  dp_quoteSymbol :: string
  dp_quoteDecimals :: int
  dp_pnl :: "int option"
  dp_pnlUsdg :: "int option"
  dp_fees :: int
  dp_gas :: int
  dp_execution :: int
  dp_assets :: "int option"
  dp_assetsUsdg :: "int option"
  dp_reopens :: int

definition daily_row_of :: "daily_point \<Rightarrow> daily_row" where
  "daily_row_of p =
     \<lparr>da_strategy_id = dp_strategyId p, da_day = dp_day p, da_first_observed_at = dp_observedAt p,
      da_last_observed_at = dp_observedAt p, da_quote_token = toLower (dp_quoteToken p),
      da_quote_symbol = dp_quoteSymbol p, da_quote_decimals = dp_quoteDecimals p,
      da_opening_pnl = dp_pnl p, da_closing_pnl = dp_pnl p,
      da_opening_pnl_usdg = dp_pnlUsdg p, da_closing_pnl_usdg = dp_pnlUsdg p,
      da_opening_fees = dp_fees p, da_closing_fees = dp_fees p,
      da_opening_gas = dp_gas p, da_closing_gas = dp_gas p,
      da_opening_execution = dp_execution p, da_closing_execution = dp_execution p,
      da_opening_assets = dp_assets p, da_closing_assets = dp_assets p,
      da_opening_assets_usdg = dp_assetsUsdg p, da_closing_assets_usdg = dp_assetsUsdg p,
      da_opening_reopens = dp_reopens p, da_closing_reopens = dp_reopens p\<rparr>"

definition close_day :: "daily_point \<Rightarrow> daily_row \<Rightarrow> daily_row" where
  "close_day p r =
     (if dp_observedAt p \<ge> da_last_observed_at r
      then r\<lparr>da_last_observed_at := dp_observedAt p, da_closing_pnl := dp_pnl p,
             da_closing_pnl_usdg := dp_pnlUsdg p, da_closing_fees := dp_fees p,
             da_closing_gas := dp_gas p, da_closing_execution := dp_execution p,
             da_closing_assets := dp_assets p, da_closing_assets_usdg := dp_assetsUsdg p,
             da_closing_reopens := dp_reopens p\<rparr>
      else r)"

definition recordStrategyDailyPoint :: "daily_point \<Rightarrow> db \<Rightarrow> db res" where
  "recordStrategyDailyPoint p d =
     fk (strategy_exists (dp_strategyId p) d)
       (Inr (d\<lparr>daily := upsert daily_key (close_day p) (daily_row_of p) (daily d)\<rparr>))"

record stable_repair =
  re_strategyId :: string
  re_day :: int
  re_opening :: bool
  re_observedAt :: int
  re_pnl :: int
  re_assets :: int
  re_pnlUsdg :: "int option"
  re_assetsUsdg :: "int option"
  re_source :: string
  re_blockNumber :: "string option"

text \<open>The columns of one endpoint of the day.\<close>

definition end_pnl :: "bool \<Rightarrow> daily_row \<Rightarrow> int option" where
  "end_pnl b r = (if b then da_opening_pnl r else da_closing_pnl r)"
definition end_assets :: "bool \<Rightarrow> daily_row \<Rightarrow> int option" where
  "end_assets b r = (if b then da_opening_assets r else da_closing_assets r)"
definition end_pnl_usdg :: "bool \<Rightarrow> daily_row \<Rightarrow> int option" where
  "end_pnl_usdg b r = (if b then da_opening_pnl_usdg r else da_closing_pnl_usdg r)"
definition end_assets_usdg :: "bool \<Rightarrow> daily_row \<Rightarrow> int option" where
  "end_assets_usdg b r = (if b then da_opening_assets_usdg r else da_closing_assets_usdg r)"
definition end_at :: "bool \<Rightarrow> daily_row \<Rightarrow> int" where
  "end_at b r = (if b then da_first_observed_at r else da_last_observed_at r)"

definition fill_stable :: "stable_repair \<Rightarrow> daily_row \<Rightarrow> daily_row" where
  "fill_stable m r =
     (if re_opening m
      then r\<lparr>da_opening_pnl_usdg := coalesce (da_opening_pnl_usdg r) (re_pnlUsdg m),
             da_opening_assets_usdg := coalesce (da_opening_assets_usdg r) (re_assetsUsdg m)\<rparr>
      else r\<lparr>da_closing_pnl_usdg := coalesce (da_closing_pnl_usdg r) (re_pnlUsdg m),
             da_closing_assets_usdg := coalesce (da_closing_assets_usdg r) (re_assetsUsdg m)\<rparr>)"

definition repairStrategyDailyStableEndpoint :: "stable_repair \<Rightarrow> int \<Rightarrow> db \<Rightarrow> (bool \<times> db) res" where
  "repairStrategyDailyStableEndpoint m now d =
     (if re_pnlUsdg m = None \<and> re_assetsUsdg m = None
      then Inl (JsError ''daily stable repair has no values'')
      else if (case re_assetsUsdg m of None \<Rightarrow> False | Some v \<Rightarrow> v < 0)
      then Inl (JsError ''daily stable repair contains an invalid amount'')
      else
        let b = re_opening m; k = (re_strategyId m, re_day m) in
        (case get_where (\<lambda>r. daily_key r = k) (daily d) of
           None \<Rightarrow> Inl (JsError ''daily snapshot facts changed before stable repair'')
         | Some row \<Rightarrow>
             if end_at b row \<noteq> re_observedAt m \<or> end_pnl b row \<noteq> Some (re_pnl m) \<or>
                end_assets b row \<noteq> Some (re_assets m)
             then Inl (JsError ''daily snapshot facts changed before stable repair'')
             else if end_pnl_usdg b row \<noteq> None \<and> re_pnlUsdg m \<noteq> None \<and> end_pnl_usdg b row \<noteq> re_pnlUsdg m
             then Inl (JsError ''daily P/L stable value conflicts with repair'')
             else if end_assets_usdg b row \<noteq> None \<and> re_assetsUsdg m \<noteq> None \<and>
                     end_assets_usdg b row \<noteq> re_assetsUsdg m
             then Inl (JsError ''daily asset stable value conflicts with repair'')
             else if (end_pnl_usdg b row \<noteq> None \<or> re_pnlUsdg m = None) \<and>
                     (end_assets_usdg b row \<noteq> None \<or> re_assetsUsdg m = None)
             then Inr (False, d)
             else
               let hit = (\<lambda>r. daily_key r = k \<and> end_at b r = re_observedAt m \<and>
                            end_pnl b r = Some (re_pnl m) \<and> end_assets b r = Some (re_assets m)) in
               if count_where hit (daily d) \<noteq> 1
               then Inl (JsError ''daily snapshot changed during stable repair'')
               else Inr (True, audit ''accounting'' ''daily_stable_endpoint_repaired'' (Some ''strategy'')
                 (Some (re_strategyId m))
                 ([(''day'', big_to_string (re_day m)), (''endpoint'', if b then ''opening'' else ''closing''),
                   (''observedAt'', big_to_string (re_observedAt m))] @
                  opt_field ''blockNumber'' (re_blockNumber m) @
                  opt_field ''pnlUsdgRaw'' (map_option big_to_string (re_pnlUsdg m)) @
                  opt_field ''assetsUsdgRaw'' (map_option big_to_string (re_assetsUsdg m)) @
                  [(''source'', re_source m)]) now
                 (d\<lparr>daily := update_where hit (fill_stable m) (daily d)\<rparr>))))"

section \<open>Five-minute P/L marks\<close>

definition PNL_SNAPSHOT_SECONDS :: int where "PNL_SNAPSHOT_SECONDS = 300"
definition PNL_SNAPSHOT_RETENTION_SECONDS :: int where "PNL_SNAPSHOT_RETENTION_SECONDS = 7776000"

definition recordStrategyPnlSnapshot :: "daily_point \<Rightarrow> db \<Rightarrow> db res" where
  "recordStrategyPnlSnapshot p d =
     (let bucketAt = dp_observedAt p div PNL_SNAPSHOT_SECONDS * PNL_SNAPSHOT_SECONDS;
          row = \<lparr>pn_strategy_id = dp_strategyId p, pn_bucket_at = bucketAt, pn_observed_at = dp_observedAt p,
                 pn_quote_token = toLower (dp_quoteToken p), pn_quote_symbol = dp_quoteSymbol p,
                 pn_quote_decimals = dp_quoteDecimals p, pn_pnl = dp_pnl p, pn_pnl_usdg = dp_pnlUsdg p\<rparr>
      in fk (strategy_exists (dp_strategyId p) d)
           (Inr (d\<lparr>pnl := delete_where (\<lambda>r. pn_strategy_id r = dp_strategyId p \<and>
                                     pn_bucket_at r < bucketAt - PNL_SNAPSHOT_RETENTION_SECONDS)
              (upsert pnl_key (\<lambda>r. if pn_observed_at row \<ge> pn_observed_at r then row else r) row (pnl d))\<rparr>)))"

definition strategyPnlSnapshots :: "int \<Rightarrow> int \<Rightarrow> db \<Rightarrow> pnl_row list" where
  "strategyPnlSnapshots from until d =
     sort_key pn_bucket_at (select_where (\<lambda>r. from \<le> pn_bucket_at r \<and> pn_bucket_at r \<le> until) (pnl d))"

section \<open>The monitor's state\<close>

definition monitorState :: "string \<Rightarrow> db \<Rightarrow> monitor_row option" where
  "monitorState s d = get_where (\<lambda>r. mo_strategy_id r = s) (monitors d)"

definition updateMonitorState :: "string \<Rightarrow> monitor_row \<Rightarrow> int \<Rightarrow> db \<Rightarrow> db res" where
  "updateMonitorState s m now d =
     (let row = m\<lparr>mo_strategy_id := s, mo_updated := now\<rparr>
      in fk (strategy_exists s d) (Inr (d\<lparr>monitors := upsert mo_strategy_id (\<lambda>_. row) row (monitors d)\<rparr>)))"

section \<open>Audit questions\<close>

definition recordPrecheckGuard :: "string \<Rightarrow> string \<Rightarrow> int option \<Rightarrow> int \<Rightarrow> db \<Rightarrow> db" where
  "recordPrecheckGuard s code until now d =
     audit ''monitor'' ''precheck_guard_wait'' (Some ''strategy'') (Some s)
       ((''code'', code) # opt_field ''until'' (map_option big_to_string until)) now d"

record precheck_guard =
  pg_code :: string
  pg_until :: "int option"
  pg_at :: int

definition latestPrecheckGuard :: "string \<Rightarrow> db \<Rightarrow> precheck_guard option" where
  "latestPrecheckGuard s d =
     map_option (\<lambda>r.
       \<lparr>pg_code = rec_or ''E_PRECHECK'' (au_detail r) ''code'',
        pg_until = (case map_of (au_detail r) ''until'' of None \<Rightarrow> None | Some t \<Rightarrow> big_of_string t),
        pg_at = au_ts r\<rparr>)
     (get_where (\<lambda>r. au_action r = ''precheck_guard_wait'' \<and> au_target_type r = Some ''strategy'' \<and>
                     au_target_id r = Some s) (rev (audits d)))"

section \<open>Price samples\<close>

definition recordPriceSample :: "string \<Rightarrow> int \<Rightarrow> int \<Rightarrow> string \<Rightarrow> db \<Rightarrow> db res" where
  "recordPriceSample s t tk blk d =
     fk (strategy_exists s d)
       (Inr (d\<lparr>prices := delete_where (\<lambda>r. pr_strategy_id r = s \<and> pr_ts r < t - 86400)
          (insert_or_replace price_key
             \<lparr>pr_strategy_id = s, pr_ts = t, pr_tick = tk, pr_block_number = blk\<rparr> (prices d))\<rparr>))"

record tick_stats =
  ts_tick :: int
  ts_minTick :: int
  ts_maxTick :: int
  ts_firstTs :: int
  ts_lastTs :: int
  ts_count :: int

text \<open>
  \<open>AVG\<close> divides the exact integer sum by the count in double precision; the code rounds the
  quotient with \<open>Math.round\<close>.
\<close>

definition average_tick :: "int list \<Rightarrow> int" where
  "average_tick ticks = math_round (ndiv (of_int (sum_list ticks)) (of_nat (length ticks)))"

definition sampledTickStats :: "string \<Rightarrow> int \<Rightarrow> db \<Rightarrow> tick_stats option" where
  "sampledTickStats s since d =
     (let rows = select_where (\<lambda>r. pr_strategy_id r = s \<and> pr_ts r \<ge> since) (prices d);
          ticks = map pr_tick rows; times = map pr_ts rows
      in if rows = [] then None
         else Some \<lparr>ts_tick = average_tick ticks,
                ts_minTick = foldl min (hd ticks) ticks, ts_maxTick = foldl max (hd ticks) ticks,
                ts_firstTs = foldl min (hd times) times, ts_lastTs = foldl max (hd times) times,
                ts_count = int (length rows)\<rparr>)"

text \<open>Its answer is the \<open>tick\<close>, \<open>firstTs\<close>, \<open>lastTs\<close> and \<open>count\<close> of the same rows.\<close>

definition sampledAverageTick :: "string \<Rightarrow> int \<Rightarrow> db \<Rightarrow> (int \<times> int \<times> int \<times> int) option" where
  "sampledAverageTick s since d =
     (let rows = select_where (\<lambda>r. pr_strategy_id r = s \<and> pr_ts r \<ge> since) (prices d);
          times = map pr_ts rows
      in if rows = [] then None
         else Some (average_tick (map pr_tick rows), foldl min (hd times) times,
                    foldl max (hd times) times, int (length rows)))"

section \<open>Completed cycles\<close>

definition completed :: "string \<Rightarrow> cycle_row \<Rightarrow> bool" where
  "completed s r \<longleftrightarrow> cy_strategy_id r = s \<and> cy_status r = ''completed''"

definition completedCyclesSince :: "string \<Rightarrow> int \<Rightarrow> db \<Rightarrow> int" where
  "completedCyclesSince s since d = count_where (\<lambda>r. completed s r \<and> cy_completed r \<ge> since) (cycles d)"

definition recentCycleSides :: "string \<Rightarrow> db \<Rightarrow> completed_cycle list" where
  "recentCycleSides s d =
     take 1000 (map (\<lambda>r. \<lparr>cc_triggerSide = Some (cy_trigger_side r), completedAt = cy_completed r\<rparr>)
       (sort_key (\<lambda>r. - cy_completed r) (select_where (completed s) (cycles d))))"

definition consecutiveLowerBreaks :: "string \<Rightarrow> int \<Rightarrow> int \<Rightarrow> db \<Rightarrow> nat" where
  "consecutiveLowerBreaks s now windowSeconds d =
     countConsecutiveLowerBreaks (recentCycleSides s d) now windowSeconds"

definition storeLowerBreakResetAt :: "string \<Rightarrow> int \<Rightarrow> int \<Rightarrow> int \<Rightarrow> db \<Rightarrow> int option" where
  "storeLowerBreakResetAt s now windowSeconds threshold d =
     consecutiveLowerBreakResetAt (recentCycleSides s d) now windowSeconds threshold"

definition latestCompletedCycleAt :: "string \<Rightarrow> db \<Rightarrow> int option" where
  "latestCompletedCycleAt s d = max_where (completed s) cy_completed (cycles d)"

text \<open>\<open>ORDER BY completed_at DESC,id DESC\<close>; ties on the time fall to the greater identifier.\<close>

definition latestCompletedCycleRange :: "string \<Rightarrow> db \<Rightarrow> (int \<times> rat) option" where
  "latestCompletedCycleRange s d =
     map_option (\<lambda>r. (cy_completed r, if cy_range_scale r = 0 then 1 else cy_range_scale r))
       (max_by cy_completed (sort_key (\<lambda>r. map (of_char :: char \<Rightarrow> nat) (cy_id r))
          (select_where (\<lambda>r. completed s r \<and> cy_new_token_id r \<noteq> None) (cycles d))))"

definition latestFeeCollectionAt :: "string \<Rightarrow> db \<Rightarrow> int option" where
  "latestFeeCollectionAt s d =
     max_where (\<lambda>r. le_strategy_id r = s \<and> le_kind r = FeeGross) le_ts (ledger d)"

section \<open>Daily marks keep their opening\<close>

definition opening_of :: "daily_row \<Rightarrow> int \<times> int option \<times> int option \<times> int \<times> int \<times> int \<times> int option \<times> int option \<times> int" where
  "opening_of r = (da_first_observed_at r, da_opening_pnl r, da_opening_pnl_usdg r, da_opening_fees r,
     da_opening_gas r, da_opening_execution r, da_opening_assets r, da_opening_assets_usdg r, da_opening_reopens r)"

definition closing_of :: "daily_row \<Rightarrow> int \<times> int option \<times> int option \<times> int \<times> int \<times> int \<times> int option \<times> int option \<times> int" where
  "closing_of r = (da_last_observed_at r, da_closing_pnl r, da_closing_pnl_usdg r, da_closing_fees r,
     da_closing_gas r, da_closing_execution r, da_closing_assets r, da_closing_assets_usdg r, da_closing_reopens r)"

lemma close_day_key [simp]: "daily_key (close_day p r) = daily_key r"
  by (simp add: close_day_def daily_key_def)

lemma opening_close_day [simp]: "opening_of (close_day p r) = opening_of r"
  by (simp add: close_day_def opening_of_def)

lemma closing_close_day:
  "closing_of (close_day p r) = (if dp_observedAt p \<ge> da_last_observed_at r then closing_of (daily_row_of p) else closing_of r)"
  by (simp add: close_day_def closing_of_def daily_row_of_def)

lemma daily_row_key [simp]: "daily_key (daily_row_of p) = (dp_strategyId p, dp_day p)"
  by (simp add: daily_row_of_def daily_key_def)

lemma closing_last: "closing_of r = closing_of r' \<Longrightarrow> da_last_observed_at r = da_last_observed_at r'"
  by (simp add: closing_of_def)

lemma record_daily_existing:
  assumes "recordStrategyDailyPoint p d = Inr d'"
    and "get_where (\<lambda>r. daily_key r = (dp_strategyId p, dp_day p)) (daily d) = Some r"
  shows "get_where (\<lambda>r. daily_key r = (dp_strategyId p, dp_day p)) (daily d') = Some (close_day p r)"
proof -
  have "list_ex (\<lambda>x. daily_key x = (dp_strategyId p, dp_day p)) (daily d)"
    using get_where_SomeD [OF assms(2)] by (auto simp: list_ex_iff)
  with assms(1) have "daily d' = update_where (\<lambda>x. daily_key x = (dp_strategyId p, dp_day p)) (close_day p) (daily d)"
    by (auto simp: recordStrategyDailyPoint_def upsert_def fk_def split: if_splits)
  then show ?thesis
    using get_update_same [of daily_key "close_day p" "(dp_strategyId p, dp_day p)" "daily d"] assms(2) by simp
qed

lemma record_daily_first:
  assumes "recordStrategyDailyPoint p d = Inr d'"
    and "get_where (\<lambda>r. daily_key r = (dp_strategyId p, dp_day p)) (daily d) = None"
  shows "get_where (\<lambda>r. daily_key r = (dp_strategyId p, dp_day p)) (daily d') = Some (daily_row_of p)"
proof -
  have none: "\<forall>x \<in> set (daily d). daily_key x \<noteq> (dp_strategyId p, dp_day p)"
    using assms(2) by (simp only: get_where_None_iff)
  then have "daily d' = daily d @ [daily_row_of p]"
    using assms(1) by (auto simp: recordStrategyDailyPoint_def upsert_def fk_def list_ex_iff split: if_splits)
  then show ?thesis using assms(2) by (simp add: get_where_append)
qed

lemma daily_fold:
  assumes "foldR recordStrategyDailyPoint ps d = Inr d'"
    and "\<forall>p \<in> set ps. dp_strategyId p = s \<and> dp_day p = day"
    and "get_where (\<lambda>r. daily_key r = (s, day)) (daily d) = Some r"
    and "closing_of r = closing_of (daily_row_of q)"
  shows "\<exists>r' q'. get_where (\<lambda>r. daily_key r = (s, day)) (daily d') = Some r' \<and> opening_of r' = opening_of r \<and>
           q' \<in> insert q (set ps) \<and> closing_of r' = closing_of (daily_row_of q') \<and>
           (\<forall>x \<in> insert q (set ps). dp_observedAt x \<le> dp_observedAt q')"
  using assms
proof (induction ps arbitrary: d r q)
  case Nil
  then show ?case by auto
next
  case (Cons p ps)
  from Cons.prems(1) obtain e where e: "recordStrategyDailyPoint p d = Inr e"
    and rest: "foldR recordStrategyDailyPoint ps e = Inr d'" by (auto simp: bindR_eq_Inr)
  have k: "dp_strategyId p = s" "dp_day p = day" using Cons.prems(2) by simp_all
  have g: "get_where (\<lambda>r. daily_key r = (s, day)) (daily e) = Some (close_day p r)"
    using record_daily_existing [OF e] Cons.prems(3) k by simp
  have last: "da_last_observed_at r = dp_observedAt q"
    using closing_last [OF Cons.prems(4)] by (simp add: daily_row_of_def)
  define q1 where "q1 = (if dp_observedAt p \<ge> dp_observedAt q then p else q)"
  have c: "closing_of (close_day p r) = closing_of (daily_row_of q1)"
    using Cons.prems(4) last by (simp add: closing_close_day q1_def)
  from Cons.IH [OF rest _ g c] Cons.prems(2) obtain r' q' where
    r': "get_where (\<lambda>r. daily_key r = (s, day)) (daily d') = Some r'" "opening_of r' = opening_of r"
    "q' \<in> insert q1 (set ps)" "closing_of r' = closing_of (daily_row_of q')"
    "\<forall>x \<in> insert q1 (set ps). dp_observedAt x \<le> dp_observedAt q'" by auto
  have "\<forall>x \<in> insert q (set (p # ps)). dp_observedAt x \<le> dp_observedAt q'"
    using r'(5) by (auto simp: q1_def split: if_splits)
  moreover have "q' \<in> insert q (set (p # ps))" using r'(3) by (auto simp: q1_def split: if_splits)
  ultimately show ?case using r' by blast
qed

text \<open>
  The daily mark keeps the day's first valuation and ends with its latest one: however
  many points of a strategy and day are recorded, in whatever order they arrive, the row's
  opening columns are those of the first point recorded and its closing columns those of a
  point with the greatest observation time.
\<close>

theorem daily_mark_opening_and_close:
  assumes "foldR recordStrategyDailyPoint (p # ps) d = Inr d'"
    and "\<forall>q \<in> set (p # ps). dp_strategyId q = s \<and> dp_day q = day"
    and "\<forall>r \<in> set (daily d). daily_key r \<noteq> (s, day)"
  shows "\<exists>r q. get_where (\<lambda>r. daily_key r = (s, day)) (daily d') = Some r \<and>
           opening_of r = opening_of (daily_row_of p) \<and>
           q \<in> set (p # ps) \<and> closing_of r = closing_of (daily_row_of q) \<and>
           (\<forall>x \<in> set (p # ps). dp_observedAt x \<le> dp_observedAt q)"
proof -
  from assms(1) obtain e where e: "recordStrategyDailyPoint p d = Inr e"
    and rest: "foldR recordStrategyDailyPoint ps e = Inr d'" by (auto simp: bindR_eq_Inr)
  have k: "dp_strategyId p = s" "dp_day p = day" using assms(2) by simp_all
  have none: "get_where (\<lambda>r. daily_key r = (s, day)) (daily d) = None"
    using assms(3) by (simp only: get_where_None_iff not_False_eq_True)
  have "get_where (\<lambda>r. daily_key r = (s, day)) (daily e) = Some (daily_row_of p)"
    using record_daily_first [OF e, unfolded k, OF none] .
  from daily_fold [OF rest _ this refl] assms(2) show ?thesis by auto
qed

definition sample_point :: "int \<Rightarrow> int \<Rightarrow> daily_point" where
  "sample_point t v = \<lparr>dp_strategyId = ''s1'', dp_observedAt = t, dp_day = 1, dp_quoteToken = ''0xQQ'',
     dp_quoteSymbol = ''Q'', dp_quoteDecimals = 6, dp_pnl = Some v, dp_pnlUsdg = None, dp_fees = v,
     dp_gas = 1, dp_execution = 0, dp_assets = Some v, dp_assetsUsdg = None, dp_reopens = 0\<rparr>"

theorem daily_mark_opening_and_close_witness:
  "\<exists>d' r. foldR recordStrategyDailyPoint [sample_point 20 5, sample_point 40 9, sample_point 30 7] sample_db = Inr d' \<and>
     get_where (\<lambda>r. daily_key r = (''s1'', 1)) (daily d') = Some r \<and>
     opening_of r = opening_of (daily_row_of (sample_point 20 5))"
proof -
  have "isInr (foldR recordStrategyDailyPoint [sample_point 20 5, sample_point 40 9, sample_point 30 7] sample_db)"
    by code_simp
  then obtain d' where d': "foldR recordStrategyDailyPoint
      [sample_point 20 5, sample_point 40 9, sample_point 30 7] sample_db = Inr d'" by (auto simp: isInr_iff)
  have "\<forall>q \<in> set [sample_point 20 5, sample_point 40 9, sample_point 30 7]. dp_strategyId q = ''s1'' \<and> dp_day q = 1"
    by (simp add: sample_point_def)
  moreover have "\<forall>r \<in> set (daily sample_db). daily_key r \<noteq> (''s1'', 1)" by (simp add: sample_db_def empty_db_def)
  ultimately show ?thesis using daily_mark_opening_and_close [OF d'] d' by blast
qed

end
