(* ===== verification/Allocations.thy ===== *)
theory Allocations
  imports StoreLedger "HOL-Library.List_Lexorder"
begin

text \<open>
  \<open>executor/store.ts\<close>, who owns what in a shared wallet: the strategies' token allocations, their
  split into principal, held fees and held profit, the checks that the wallet covers them, and
  the atomic update after a profit withdrawal.
\<close>

section \<open>Reading allocations\<close>

definition strategyAllocations :: "string \<Rightarrow> db \<Rightarrow> (string \<times> int) list" where
  "strategyAllocations s d =
     from_entries (map (\<lambda>r. (al_token r, al_amount r)) (select_where (\<lambda>r. al_strategy_id r = s) (allocations d)))"

record allocation_component =
  ac_principal :: int
  ac_heldFee :: int
  ac_heldProfit :: int

definition component_total :: "allocation_component \<Rightarrow> int" where
  "component_total c = ac_principal c + ac_heldFee c + ac_heldProfit c"

definition component_ok :: "allocation_component \<Rightarrow> bool" where
  "component_ok c \<longleftrightarrow> 0 \<le> ac_principal c \<and> 0 \<le> ac_heldFee c \<and> 0 \<le> ac_heldProfit c"

definition sameAllocationComponent :: "allocation_component option \<Rightarrow> allocation_component option \<Rightarrow> bool" where
  "sameAllocationComponent a b \<longleftrightarrow>
     (case a of None \<Rightarrow> False | Some x \<Rightarrow>
        (case b of None \<Rightarrow> False | Some y \<Rightarrow>
           ac_principal x = ac_principal y \<and> ac_heldFee x = ac_heldFee y \<and> ac_heldProfit x = ac_heldProfit y))"

definition component_of_row :: "component_row \<Rightarrow> allocation_component" where
  "component_of_row r = \<lparr>ac_principal = cp_principal r, ac_heldFee = cp_held_fee r, ac_heldProfit = cp_held_profit r\<rparr>"

definition stored_components :: "string \<Rightarrow> db \<Rightarrow> (string \<times> allocation_component) list" where
  "stored_components s d =
     from_entries (map (\<lambda>r. (toLower (cp_token r), component_of_row r))
       (select_where (\<lambda>r. cp_strategy_id r = s) (components d)))"

text \<open>An unclassified or inconsistent balance is held as a fee, never spent as principal.\<close>

definition held :: "int \<Rightarrow> allocation_component" where
  "held n = \<lparr>ac_principal = 0, ac_heldFee = n, ac_heldProfit = 0\<rparr>"

definition classify :: "(string \<times> allocation_component) list \<Rightarrow> string \<Rightarrow> int \<Rightarrow> allocation_component" where
  "classify stored t n =
     (case map_of stored t of
        None \<Rightarrow> held n
      | Some c \<Rightarrow> if component_ok c \<and> component_total c = n then c else held n)"

definition strategyAllocationComponents :: "string \<Rightarrow> db \<Rightarrow> (string \<times> allocation_component) list" where
  "strategyAllocationComponents s d =
     from_entries (map (\<lambda>(t, n). (t, classify (stored_components s d) t n)) (strategyAllocations s d))"

section \<open>Reclassifying\<close>

definition compoundHeldAllocations :: "string \<Rightarrow> int \<Rightarrow> db \<Rightarrow> db" where
  "compoundHeldAllocations s now d =
     audit ''accounting'' ''held_income_marked_for_compounding'' (Some ''strategy'') (Some s)
       (map (\<lambda>r. (''tokens'', cp_token r))
          (filter (\<lambda>r. cp_strategy_id r = s \<and> 0 < cp_held_fee r) (components d))) now
       (d\<lparr>components := update_where (\<lambda>r. cp_strategy_id r = s)
            (\<lambda>r. r\<lparr>cp_principal := cp_principal r + cp_held_fee r, cp_held_fee := 0, cp_updated := now\<rparr>)
            (components d)\<rparr>)"

definition set_component :: "string \<Rightarrow> int \<Rightarrow> string \<times> allocation_component \<Rightarrow> db \<Rightarrow> db res" where
  "set_component s now tc d =
     (let c = snd tc in
      if \<not> component_ok c then Inl (JsError ''E_ALLOCATION_MISMATCH'')
      else fk (strategy_exists s d)
        (Inr (d\<lparr>components := upsert component_key
           (\<lambda>r. r\<lparr>cp_principal := ac_principal c, cp_held_fee := ac_heldFee c,
                  cp_held_profit := ac_heldProfit c, cp_updated := now\<rparr>)
           \<lparr>cp_strategy_id = s, cp_token = toLower (fst tc), cp_principal = ac_principal c,
            cp_held_fee = ac_heldFee c, cp_held_profit = ac_heldProfit c, cp_updated = now\<rparr> (components d)\<rparr>)))"

definition setAllocationComponents :: "string \<Rightarrow> (string \<times> allocation_component) list \<Rightarrow> int \<Rightarrow> db \<Rightarrow> db res" where
  "setAllocationComponents s cs now d = foldR (set_component s now) cs d"

section \<open>Wallet checks\<close>

text \<open>The rows a wallet must cover: allocations of its strategies that are not archived.\<close>

definition covered :: "string \<Rightarrow> db \<Rightarrow> string \<Rightarrow> bool" where
  "covered w d i \<longleftrightarrow>
     (case get_where (\<lambda>s. st_id s = i) (strategies d) of
        None \<Rightarrow> False
      | Some s \<Rightarrow> st_wallet_id s = Some w \<and> st_state s \<noteq> ''archived'')"

definition covered_row :: "string \<Rightarrow> db \<Rightarrow> alloc_row \<Rightarrow> bool" where
  "covered_row w d r \<longleftrightarrow> covered w d (al_strategy_id r)"

definition walletAllocationTokens :: "string \<Rightarrow> db \<Rightarrow> string list" where
  "walletAllocationTokens w d =
     map toLower (sort_key (map (of_char :: char \<Rightarrow> nat)) (remdups (map al_token (select_where (covered_row w d) (allocations d)))))"

definition add_to :: "(string \<times> int) list \<Rightarrow> string \<times> int \<Rightarrow> (string \<times> int) list" where
  "add_to acc e = rec_set (fst e) (rec_or 0 acc (fst e) + snd e) acc"

definition totals_of :: "(string \<times> int) list \<Rightarrow> (string \<times> int) list" where
  "totals_of es = foldl add_to [] es"

definition assertWalletAllocations :: "string \<Rightarrow> (string \<times> int) list \<Rightarrow> db \<Rightarrow> unit res" where
  "assertWalletAllocations w balances d =
     (let totals = totals_of (map (\<lambda>r. (al_token r, al_amount r)) (select_where (covered_row w d) (allocations d)))
      in if list_ex (\<lambda>(t, n). n > rec_or 0 balances (toLower t)) totals
         then Inl (JsError ''E_ALLOCATION_MISMATCH'') else Inr ())"

definition apply_next :: "(string \<times> int) list \<Rightarrow> (string \<times> int) list \<Rightarrow> string \<times> int \<Rightarrow> (string \<times> int) list" where
  "apply_next current totals e =
     (let t = toLower (fst e) in rec_set t (rec_or 0 totals t - rec_or 0 current t + snd e) totals)"

definition assertWalletAllocationUpdate ::
  "string \<Rightarrow> string \<Rightarrow> (string \<times> int) list \<Rightarrow> (string \<times> int) list \<Rightarrow> db \<Rightarrow> unit res" where
  "assertWalletAllocationUpdate w s balances nextAllocations d =
     (let rows = select_where (covered_row w d) (allocations d);
          low = (\<lambda>r. (toLower (al_token r), al_amount r));
          totals = totals_of (map low rows);
          current = totals_of (map low (filter (\<lambda>r. al_strategy_id r = s) rows));
          totals = foldl (apply_next current) totals nextAllocations
      in if list_ex (\<lambda>(t, _). let n = rec_or 0 totals (toLower t) in n < 0 \<or> n > rec_or 0 balances (toLower t))
              nextAllocations
         then Inl (JsError ''E_ALLOCATION_MISMATCH'') else Inr ())"

section \<open>Committing a profit withdrawal\<close>

record profit_mutation =
  pf_strategyId :: string
  pf_walletId :: string
  pf_expected :: "(string \<times> allocation_component) list"
  pf_next :: "(string \<times> allocation_component) list"
  pf_balances :: "(string \<times> int) list"
  pf_ledger :: "ledger_entry list"

definition unchanged ::
  "(string \<Rightarrow> allocation_component) \<Rightarrow> (string \<times> allocation_component) list \<Rightarrow> bool" where
  "unchanged actual expected \<longleftrightarrow>
     list_all (\<lambda>(t, c). sameAllocationComponent (Some (actual (toLower t))) (Some c)) expected"

text \<open>The recheck under the write transaction classifies without testing the signs.\<close>

definition recheck_component :: "string \<Rightarrow> db \<Rightarrow> string \<Rightarrow> allocation_component" where
  "recheck_component s d t =
     (let n = rec_or 0 (strategyAllocations s d) t in
      case map_of (stored_components s d) t of
        None \<Rightarrow> held n
      | Some c \<Rightarrow> if component_total c = n then c else held n)"

definition next_totals :: "(string \<times> allocation_component) list \<Rightarrow> (string \<times> int) list res" where
  "next_totals nxt =
     bindR (mapR (\<lambda>(t, c). if \<not> component_ok c then Inl (JsError ''E_ALLOCATION_MISMATCH'')
                           else Inr (toLower t, component_total c)) nxt) (\<lambda>es. Inr (from_entries es))"

definition commitProfitAllocationMutation :: "profit_mutation \<Rightarrow> int \<Rightarrow> db \<Rightarrow> db res" where
  "commitProfitAllocationMutation a now d =
     (let s = pf_strategyId a; current = strategyAllocationComponents s d in
      if \<not> unchanged (rec_or (held 0) current) (pf_expected a) then Inl (JsError ''E_ALLOCATION_CHANGED'')
      else
        bindR (next_totals (pf_next a)) (\<lambda>nextTotals.
        bindR (assertWalletAllocationUpdate (pf_walletId a) s (pf_balances a) nextTotals d) (\<lambda>_.
        if \<not> unchanged (recheck_component s d) (pf_expected a) then Inl (JsError ''E_ALLOCATION_CHANGED'')
        else
          bindR (foldR (set_allocation s now) nextTotals d) (\<lambda>d.
          bindR (setAllocationComponents s
                   (from_entries (map (\<lambda>(t, c). (toLower t, c)) (pf_next a))) now d) (\<lambda>d.
            appendLedger (pf_ledger a) d)))))"

section \<open>Reading back what was written\<close>

lemma map_of_rows:
  "map_of (map (\<lambda>r. (snd (key r), f r)) (filter (\<lambda>r. fst (key r) = s) t)) k
     = map_option f (get_where (\<lambda>r. key r = (s, k)) t)"
  by (induction t) (auto simp: get_where_def prod_eq_iff)

lemma distinct_rows:
  "keys_ok key t \<Longrightarrow> distinct (map (\<lambda>r. snd (key r)) (filter (\<lambda>r. fst (key r) = s) t))"
  by (induction t) (auto simp: keys_ok_def image_iff prod_eq_iff)

lemma map_of_strategyAllocations:
  assumes "keys_ok alloc_key (allocations d)"
  shows "map_of (strategyAllocations s d) k = map_option al_amount (get_where (\<lambda>r. alloc_key r = (s, k)) (allocations d))"
proof -
  have "distinct (map fst (map (\<lambda>r. (al_token r, al_amount r)) (select_where (\<lambda>r. al_strategy_id r = s) (allocations d))))"
    using distinct_rows [OF assms, of s] by (simp add: select_where_def alloc_key_def comp_def)
  then show ?thesis
    using map_of_rows [of alloc_key al_amount s "allocations d" k]
    by (simp add: strategyAllocations_def from_entries_distinct select_where_def) (simp add: alloc_key_def)
qed

text \<open>Tokens are stored in lower case.\<close>

definition tokens_lower :: "db \<Rightarrow> bool" where
  "tokens_lower d \<longleftrightarrow> (\<forall>r \<in> set (allocations d). toLower (al_token r) = al_token r) \<and>
     (\<forall>r \<in> set (components d). toLower (cp_token r) = cp_token r)"

lemma map_of_stored_components:
  assumes "keys_ok component_key (components d)" and "tokens_lower d"
  shows "map_of (stored_components s d) k
    = map_option component_of_row (get_where (\<lambda>r. component_key r = (s, k)) (components d))"
proof -
  have low: "map (\<lambda>r. (toLower (cp_token r), component_of_row r)) (filter (\<lambda>r. cp_strategy_id r = s) (components d))
      = map (\<lambda>r. (cp_token r, component_of_row r)) (filter (\<lambda>r. cp_strategy_id r = s) (components d))"
    using assms(2) by (auto simp: tokens_lower_def)
  have "distinct (map fst (map (\<lambda>r. (cp_token r, component_of_row r)) (filter (\<lambda>r. cp_strategy_id r = s) (components d))))"
    using distinct_rows [OF assms(1), of s] by (simp add: component_key_def comp_def)
  then show ?thesis
    using map_of_rows [of component_key component_of_row s "components d" k]
    by (simp add: stored_components_def from_entries_distinct select_where_def low) (simp add: component_key_def)
qed

lemma fst_strategyAllocationComponents [simp]:
  "map fst (strategyAllocationComponents s d) = map fst (strategyAllocations s d)"
proof -
  have "distinct (map fst (map (\<lambda>(t, n). (t, classify (stored_components s d) t n)) (strategyAllocations s d)))"
    by (simp add: strategyAllocations_def comp_def case_prod_unfold distinct_from_entries)
  then show ?thesis
    unfolding strategyAllocationComponents_def by (simp add: from_entries_distinct comp_def case_prod_unfold)
qed

lemma map_of_components:
  "map_of (strategyAllocationComponents s d) k
     = map_option (classify (stored_components s d) k) (map_of (strategyAllocations s d) k)"
proof -
  have "map_of (map (\<lambda>(t, n). (t, f t n)) xs) k = map_option (f k) (map_of xs k)" for f and xs :: "(string \<times> int) list"
    by (induction xs) auto
  moreover have "distinct (map fst (map (\<lambda>(t, n). (t, classify (stored_components s d) t n)) (strategyAllocations s d)))"
    by (simp add: strategyAllocations_def comp_def case_prod_unfold distinct_from_entries)
  ultimately show ?thesis
    unfolding strategyAllocationComponents_def by (simp add: from_entries_distinct)
qed

lemma classify_total: "component_total (classify st k n) = n"
  by (auto simp: classify_def held_def component_total_def split: option.splits)

text \<open>
  Idle money fails closed: the split of a strategy's allocations names the same tokens, each
  split adds up to the token's allocation, and anything but a stored split that is non-negative
  and adds up is held as a fee in full, so no unclassified balance counts as deployable
  principal.
\<close>

theorem allocation_split_fails_closed:
  assumes "map_of (strategyAllocationComponents s d) k = Some c"
  shows "map_of (strategyAllocations s d) k = Some (component_total c) \<and>
         (ac_principal c \<noteq> 0 \<or> ac_heldProfit c \<noteq> 0 \<longrightarrow>
            component_ok c \<and> map_of (stored_components s d) k = Some c)"
proof -
  from assms obtain n where n: "map_of (strategyAllocations s d) k = Some n" "c = classify (stored_components s d) k n"
    by (auto simp: map_of_components)
  then show ?thesis
    by (auto simp: classify_total) (auto simp: classify_def held_def split: option.splits if_splits)
qed

section \<open>Writing allocations\<close>

lemma get_set_allocation:
  assumes "set_allocation s now (k, n) d = Inr d'" and "toLower k = k"
  shows "map_option al_amount (get_where (\<lambda>r. alloc_key r = (i, t)) (allocations d'))
    = (if (i, t) = (s, k) then Some n else map_option al_amount (get_where (\<lambda>r. alloc_key r = (i, t)) (allocations d)))"
proof -
  let ?f = "\<lambda>r. r\<lparr>al_amount := n, al_updated := now\<rparr>"
  have "allocations d' = upsert alloc_key ?f
      \<lparr>al_strategy_id = s, al_token = k, al_amount = n, al_updated = now\<rparr> (allocations d)"
    using assms by (auto simp: set_allocation_def fk_def split: if_splits)
  moreover have "alloc_key (?f r) = alloc_key r" for r by (simp add: alloc_key_def)
  ultimately show ?thesis
    by (simp add: get_upsert [of alloc_key ?f]) (auto simp: alloc_key_def split: option.splits)
qed

lemma set_allocation_Inr:
  "set_allocation s now e d = Inr d' \<Longrightarrow> d' = d\<lparr>allocations := allocations d'\<rparr>"
  by (auto simp: set_allocation_def fk_def split: if_splits)

lemma set_allocation_ok:
  assumes "set_allocation s now (k, n) d = Inr d'" and "toLower k = k"
    and "keys_ok alloc_key (allocations d)" and "tokens_lower d"
  shows "keys_ok alloc_key (allocations d') \<and> tokens_lower d'"
proof -
  have d': "d' = d\<lparr>allocations := upsert alloc_key (\<lambda>r. r\<lparr>al_amount := n, al_updated := now\<rparr>)
      \<lparr>al_strategy_id = s, al_token = k, al_amount = n, al_updated = now\<rparr> (allocations d)\<rparr>"
    using assms by (auto simp: set_allocation_def fk_def split: if_splits)
  have "keys_ok alloc_key (allocations d')"
    unfolding d' using assms(3) by (simp add: keys_ok_upsert alloc_key_def)
  moreover have "tokens_lower d'"
    using assms(2,4) unfolding d' tokens_lower_def by (auto simp: upsert_def set_update_where)
  ultimately show ?thesis ..
qed

definition lower_keys :: "(string \<times> 'a) list \<Rightarrow> bool" where
  "lower_keys ns \<longleftrightarrow> distinct (map fst ns) \<and> (\<forall>e \<in> set ns. toLower (fst e) = fst e)"

lemma lower_keys_Cons: "lower_keys ((k, n) # ns) \<longleftrightarrow> toLower k = k \<and> k \<notin> fst ` set ns \<and> lower_keys ns"
  by (auto simp: lower_keys_def)

text \<open>Writing a list of amounts: what is read back, the sums, and what is left alone.\<close>

lemma set_allocations:
  assumes "foldR (set_allocation s now) ns d = Inr d'" and "lower_keys ns"
    and "keys_ok alloc_key (allocations d)" and "tokens_lower d"
  shows "keys_ok alloc_key (allocations d') \<and> tokens_lower d' \<and> d' = d\<lparr>allocations := allocations d'\<rparr> \<and>
     map_option al_amount (get_where (\<lambda>r. alloc_key r = (i, t)) (allocations d'))
       = (case (if i = s then map_of ns t else None) of Some n \<Rightarrow> Some n
          | None \<Rightarrow> map_option al_amount (get_where (\<lambda>r. alloc_key r = (i, t)) (allocations d)))"
  using assms
proof (induction ns arbitrary: d)
  case Nil
  then show ?case by simp
next
  case (Cons e ns)
  obtain k n where e: "e = (k, n)" by (cases e)
  from Cons.prems(1) e obtain d1 where d1: "set_allocation s now (k, n) d = Inr d1"
    and rest: "foldR (set_allocation s now) ns d1 = Inr d'" by (auto simp: bindR_eq_Inr)
  have low: "toLower k = k" "lower_keys ns" "k \<notin> fst ` set ns"
    using Cons.prems(2) by (simp_all add: e lower_keys_Cons)
  from set_allocation_ok [OF d1 low(1) Cons.prems(3,4)] have "keys_ok alloc_key (allocations d1)" "tokens_lower d1"
    by simp_all
  note IH = Cons.IH [OF rest low(2) this]
  have "map_of ns k = None" using low(3) by (simp add: map_of_eq_None_iff)
  then have "map_option al_amount (get_where (\<lambda>r. alloc_key r = (i, t)) (allocations d'))
       = (case (if i = s then map_of (e # ns) t else None) of Some n \<Rightarrow> Some n
          | None \<Rightarrow> map_option al_amount (get_where (\<lambda>r. alloc_key r = (i, t)) (allocations d)))"
    using IH get_set_allocation [OF d1 low(1), of i t] by (auto simp: e split: option.splits)
  moreover have "d' = d\<lparr>allocations := allocations d'\<rparr>"
  proof -
    have "d1\<lparr>allocations := y\<rparr> = d\<lparr>allocations := y\<rparr>" for y by (subst set_allocation_Inr [OF d1]) simp
    moreover have "d' = d1\<lparr>allocations := allocations d'\<rparr>" using IH by blast
    ultimately show ?thesis by (rule subst)
  qed
  ultimately show ?case using IH by blast
qed

lemma strategyAllocations_written:
  assumes "foldR (set_allocation s now) ns d = Inr d'" and "lower_keys ns"
    and "keys_ok alloc_key (allocations d)" and "tokens_lower d" and "map_of ns t = Some n"
  shows "map_of (strategyAllocations s d') t = Some n"
  using set_allocations [OF assms(1-4), of s t] assms(5) by (simp add: map_of_strategyAllocations)

lemma get_set_component:
  assumes "set_component s now (k, c) d = Inr d'" and "toLower k = k"
  shows "map_option component_of_row (get_where (\<lambda>r. component_key r = (i, t)) (components d'))
    = (if (i, t) = (s, k) then Some c
       else map_option component_of_row (get_where (\<lambda>r. component_key r = (i, t)) (components d)))"
proof -
  let ?f = "\<lambda>r. r\<lparr>cp_principal := ac_principal c, cp_held_fee := ac_heldFee c,
                  cp_held_profit := ac_heldProfit c, cp_updated := now\<rparr>"
  have "components d' = upsert component_key ?f
      \<lparr>cp_strategy_id = s, cp_token = k, cp_principal = ac_principal c, cp_held_fee = ac_heldFee c,
       cp_held_profit = ac_heldProfit c, cp_updated = now\<rparr> (components d)"
    using assms by (auto simp: set_component_def fk_def Let_def split: if_splits)
  moreover have "component_key (?f r) = component_key r" for r by (simp add: component_key_def)
  ultimately show ?thesis
    by (simp add: get_upsert [of component_key ?f])
      (auto simp: component_key_def component_of_row_def split: option.splits)
qed

lemma set_component_ok:
  assumes "set_component s now (k, c) d = Inr d'" and "toLower k = k"
    and "keys_ok component_key (components d)" and "tokens_lower d"
  shows "keys_ok component_key (components d') \<and> tokens_lower d' \<and> component_ok c \<and> d' = d\<lparr>components := components d'\<rparr>"
proof -
  have d': "d' = d\<lparr>components := upsert component_key
      (\<lambda>r. r\<lparr>cp_principal := ac_principal c, cp_held_fee := ac_heldFee c,
                  cp_held_profit := ac_heldProfit c, cp_updated := now\<rparr>)
      \<lparr>cp_strategy_id = s, cp_token = k, cp_principal = ac_principal c, cp_held_fee = ac_heldFee c,
       cp_held_profit = ac_heldProfit c, cp_updated = now\<rparr> (components d)\<rparr>" and ok: "component_ok c"
    using assms by (auto simp: set_component_def fk_def Let_def split: if_splits)
  have "keys_ok component_key (components d')"
    unfolding d' using assms(3) by (simp add: keys_ok_upsert component_key_def)
  moreover have "tokens_lower d'"
    using assms(2,4) unfolding d' tokens_lower_def by (auto simp: upsert_def set_update_where)
  ultimately show ?thesis using ok by (simp add: d')
qed

lemma set_components:
  assumes "setAllocationComponents s cs now d = Inr d'" and "lower_keys cs"
    and "keys_ok component_key (components d)" and "tokens_lower d"
  shows "keys_ok component_key (components d') \<and> tokens_lower d' \<and> d' = d\<lparr>components := components d'\<rparr> \<and>
     (\<forall>e \<in> set cs. component_ok (snd e)) \<and>
     map_option component_of_row (get_where (\<lambda>r. component_key r = (s, t)) (components d'))
       = (case map_of cs t of Some c \<Rightarrow> Some c
          | None \<Rightarrow> map_option component_of_row (get_where (\<lambda>r. component_key r = (s, t)) (components d)))"
  using assms unfolding setAllocationComponents_def
proof (induction cs arbitrary: d)
  case Nil
  then show ?case by simp
next
  case (Cons e cs)
  obtain k c where e: "e = (k, c)" by (cases e)
  from Cons.prems(1) e obtain d1 where d1: "set_component s now (k, c) d = Inr d1"
    and rest: "foldR (set_component s now) cs d1 = Inr d'" by (auto simp: bindR_eq_Inr)
  have low: "toLower k = k" "lower_keys cs" "k \<notin> fst ` set cs"
    using Cons.prems(2) by (simp_all add: e lower_keys_Cons)
  note ok = set_component_ok [OF d1 low(1) Cons.prems(3,4)]
  then have "keys_ok component_key (components d1)" "tokens_lower d1" by simp_all
  note IH = Cons.IH [OF rest low(2) this]
  have "map_of cs k = None" using low(3) by (simp add: map_of_eq_None_iff)
  then have "map_option component_of_row (get_where (\<lambda>r. component_key r = (s, t)) (components d'))
       = (case map_of (e # cs) t of Some c \<Rightarrow> Some c
          | None \<Rightarrow> map_option component_of_row (get_where (\<lambda>r. component_key r = (s, t)) (components d)))"
    using IH get_set_component [OF d1 low(1), of s t] by (auto simp: e split: option.splits)
  moreover have "d' = d\<lparr>components := components d'\<rparr>"
  proof -
    have "d1 = d\<lparr>components := components d1\<rparr>" using ok by blast
    then have "d1\<lparr>components := y\<rparr> = d\<lparr>components := y\<rparr>" for y by (rule ssubst) simp
    moreover have "d' = d1\<lparr>components := components d'\<rparr>" using IH by blast
    ultimately show ?thesis by (rule subst)
  qed
  moreover have "\<forall>x \<in> set (e # cs). component_ok (snd x)" using IH ok by (simp add: e)
  ultimately show ?case using IH by blast
qed

section \<open>What a wallet must cover\<close>

definition covered_total :: "string \<Rightarrow> string \<Rightarrow> db \<Rightarrow> int" where
  "covered_total w t d = sum_where (\<lambda>r. covered_row w d r \<and> toLower (al_token r) = t) al_amount (allocations d)"

lemma rec_or_rec_set [simp]: "rec_or z (rec_set k v xs) t = (if t = k then v else rec_or z xs t)"
  by (simp add: rec_or_def)

lemma totals_of_value: "rec_or 0 (totals_of es) t = sum_list (map snd (filter (\<lambda>e. fst e = t) es))"
proof (induction es rule: rev_induct)
  case Nil
  then show ?case by (simp add: totals_of_def rec_or_def)
next
  case (snoc e es)
  then show ?case by (cases "t = fst e") (simp_all add: totals_of_def add_to_def)
qed

lemma totals_of_rows:
  "rec_or 0 (totals_of (map (\<lambda>r. (toLower (al_token r), al_amount r)) (filter p rows))) t
     = sum_where (\<lambda>r. p r \<and> toLower (al_token r) = t) al_amount rows"
  unfolding totals_of_value by (induction rows) auto

lemma apply_next_value:
  "lower_keys ns \<Longrightarrow> rec_or 0 (foldl (apply_next cur) tot ns) t
     = (case map_of ns t of None \<Rightarrow> rec_or 0 tot t | Some n \<Rightarrow> rec_or 0 tot t - rec_or 0 cur t + n)"
proof (induction ns arbitrary: tot)
  case (Cons e ns)
  obtain k n where e: "e = (k, n)" by (cases e)
  have low: "toLower k = k" "lower_keys ns" "map_of ns k = None"
    using Cons.prems by (simp_all add: e lower_keys_Cons map_of_eq_None_iff)
  show ?case using Cons.IH [OF low(2)] low by (auto simp: e apply_next_def split: option.splits)
qed simp

lemma sum_set_allocations:
  assumes "foldR (set_allocation s now) ns d = Inr d'" and "lower_keys ns"
    and "keys_ok alloc_key (allocations d)" and "tokens_lower d"
  shows "sum_where (\<lambda>r. p (alloc_key r)) al_amount (allocations d')
    = sum_where (\<lambda>r. p (alloc_key r) \<and> \<not> (al_strategy_id r = s \<and> al_token r \<in> fst ` set ns)) al_amount (allocations d)
      + sum_list (map snd (filter (\<lambda>e. p (s, fst e)) ns))"
  using assms
proof (induction ns arbitrary: d)
  case Nil
  then show ?case by simp
next
  case (Cons e ns)
  obtain k n where e: "e = (k, n)" by (cases e)
  from Cons.prems(1) e obtain d1 where d1: "set_allocation s now (k, n) d = Inr d1"
    and rest: "foldR (set_allocation s now) ns d1 = Inr d'" by (auto simp: bindR_eq_Inr)
  have low: "toLower k = k" "lower_keys ns" "k \<notin> fst ` set ns"
    using Cons.prems(2) by (simp_all add: e lower_keys_Cons)
  from set_allocation_ok [OF d1 low(1) Cons.prems(3,4)] have "keys_ok alloc_key (allocations d1)" "tokens_lower d1"
    by simp_all
  note IH = Cons.IH [OF rest low(2) this]
  let ?q = "\<lambda>ik. p ik \<and> \<not> (fst ik = s \<and> snd ik \<in> fst ` set ns)"
  let ?f = "\<lambda>r. r\<lparr>al_amount := n, al_updated := now\<rparr>"
  let ?row = "\<lparr>al_strategy_id = s, al_token = k, al_amount = n, al_updated = now\<rparr>"
  have row: "alloc_key ?row = (s, k)" "alloc_key r = (al_strategy_id r, al_token r)" for r
    by (simp_all add: alloc_key_def)
  have "allocations d1 = upsert alloc_key ?f ?row (allocations d)"
    using d1 low(1) by (auto simp: set_allocation_def fk_def split: if_splits)
  moreover have "sum_where (\<lambda>r. ?q (alloc_key r)) al_amount (upsert alloc_key ?f ?row (allocations d))
      = sum_where (\<lambda>r. ?q (alloc_key r) \<and> alloc_key r \<noteq> alloc_key ?row) al_amount (allocations d)
        + (if ?q (alloc_key ?row) then n else 0)"
    by (rule sum_upsert [OF Cons.prems(3)]) (simp_all add: alloc_key_def)
  ultimately have "sum_where (\<lambda>r. ?q (alloc_key r)) al_amount (allocations d1)
      = sum_where (\<lambda>r. ?q (alloc_key r) \<and> alloc_key r \<noteq> (s, k)) al_amount (allocations d) + (if p (s, k) then n else 0)"
    using low(3) by (simp add: row(1))
  moreover have "sum_where (\<lambda>r. ?q (alloc_key r) \<and> alloc_key r \<noteq> (s, k)) al_amount (allocations d)
      = sum_where (\<lambda>r. p (alloc_key r) \<and> \<not> (al_strategy_id r = s \<and> al_token r \<in> fst ` set (e # ns))) al_amount (allocations d)"
    by (rule sum_where_cong) (auto simp: row(2) e)
  ultimately show ?case using IH by (simp add: e row(2))
qed

lemma sum_where_split:
  "sum_where p v t = sum_where (\<lambda>r. p r \<and> q r) v t + sum_where (\<lambda>r. p r \<and> \<not> q r) v t"
  by (induction t) auto

lemma sum_one_key: "distinct (map fst ns) \<Longrightarrow> map_of ns t = Some n \<Longrightarrow> sum_list (map snd (filter (\<lambda>e. fst e = t) ns)) = n"
proof (induction ns)
  case (Cons e ns)
  show ?case
  proof (cases "fst e = t")
    case True
    then have "filter (\<lambda>e. fst e = t) ns = []" using Cons.prems(1) by (auto simp: filter_empty_conv image_iff)
    with True Cons.prems(2) show ?thesis by (cases e) simp
  next
    case False
    with Cons show ?thesis by (cases e) auto
  qed
qed simp

lemma set_allocations_frame:
  assumes "foldR (set_allocation s now) ns d = Inr d'"
  shows "components d' = components d \<and> strategies d' = strategies d"
  by (rule foldR_inv [OF assms, of "\<lambda>x. components x = components d \<and> strategies x = strategies d"])
    (auto simp: set_allocation_def fk_def split: if_splits)

text \<open>After the allocations are written, the wallet owes exactly what the assertion computed.\<close>

lemma covered_after_writes:
  assumes "foldR (set_allocation s now) ns d = Inr d'" and "lower_keys ns"
    and "keys_ok alloc_key (allocations d)" and "tokens_lower d"
    and "covered w d s" and "map_of ns t = Some n"
  shows "covered_total w t d' = rec_or 0
     (foldl (apply_next (totals_of (map (\<lambda>r. (toLower (al_token r), al_amount r))
                (filter (\<lambda>r. al_strategy_id r = s) (filter (covered_row w d) (allocations d))))))
        (totals_of (map (\<lambda>r. (toLower (al_token r), al_amount r)) (filter (covered_row w d) (allocations d)))) ns) t"
proof -
  let ?p = "\<lambda>ik. covered w d (fst ik) \<and> toLower (snd ik) = t"
  let ?S = "\<lambda>q. sum_where (\<lambda>r. covered_row w d r \<and> toLower (al_token r) = t \<and> q r) al_amount (allocations d)"
  have tk: "t \<in> fst ` set ns" and low: "\<And>e. e \<in> set ns \<Longrightarrow> toLower (fst e) = fst e"
    using assms(2,6) by (force dest: map_of_SomeD simp: lower_keys_def)+
  have "strategies d' = strategies d" using set_allocations_frame [OF assms(1)] by simp
  then have "covered_total w t d' = sum_where (\<lambda>r. ?p (alloc_key r)) al_amount (allocations d')"
    by (simp add: covered_total_def covered_row_def covered_def alloc_key_def)
  also have "\<dots> = ?S (\<lambda>r. al_strategy_id r \<noteq> s) + sum_list (map snd (filter (\<lambda>e. fst e = t) ns))"
  proof -
    have "filter (\<lambda>e. ?p (s, fst e)) ns = filter (\<lambda>e. fst e = t) ns"
      using low assms(5) by (intro filter_cong) auto
    moreover have "sum_where (\<lambda>r. ?p (alloc_key r) \<and> \<not> (al_strategy_id r = s \<and> al_token r \<in> fst ` set ns)) al_amount (allocations d)
        = ?S (\<lambda>r. al_strategy_id r \<noteq> s)"
      using assms(4) tk by (intro sum_where_cong) (auto simp: alloc_key_def covered_row_def tokens_lower_def)
    ultimately show ?thesis using sum_set_allocations [OF assms(1-4), of ?p] by simp
  qed
  also have "sum_list (map snd (filter (\<lambda>e. fst e = t) ns)) = n"
    using assms(2,6) by (intro sum_one_key) (simp_all add: lower_keys_def)
  also have "?S (\<lambda>r. al_strategy_id r \<noteq> s) = ?S (\<lambda>r. True) - ?S (\<lambda>r. al_strategy_id r = s)"
    using sum_where_split [of "\<lambda>r. covered_row w d r \<and> toLower (al_token r) = t" al_amount "allocations d"
        "\<lambda>r. al_strategy_id r = s"] by (simp add: conj_assoc)
  finally show ?thesis
    using assms(6) unfolding apply_next_value [OF assms(2)] filter_filter totals_of_rows
    by (simp add: conj_ac)
qed

section \<open>The profit withdrawal commit\<close>

lemma next_totals_Inr:
  assumes "next_totals nxt = Inr ns" and "distinct (map (\<lambda>e. toLower (fst e)) nxt)"
  shows "ns = map (\<lambda>e. (toLower (fst e), component_total (snd e))) nxt \<and> lower_keys ns"
proof -
  let ?f = "\<lambda>(t, c). if \<not> component_ok c then Inl (JsError ''E_ALLOCATION_MISMATCH'')
                         else Inr (toLower t, component_total c)"
  have "mapR ?f xs = Inr ys \<Longrightarrow> ys = map (\<lambda>e. (toLower (fst e), component_total (snd e))) xs" for xs ys
    by (induction xs arbitrary: ys) (auto simp: bindR_eq_Inr split: if_splits)
  then have "ns = from_entries (map (\<lambda>e. (toLower (fst e), component_total (snd e))) nxt)"
    using assms(1) by (auto simp: next_totals_def bindR_eq_Inr)
  moreover have "distinct (map fst (map (\<lambda>e. (toLower (fst e), component_total (snd e))) nxt))"
    using assms(2) by (simp add: comp_def)
  ultimately show ?thesis by (auto simp: from_entries_distinct lower_keys_def)
qed

lemma appendLedger_only_ledger:
  assumes "appendLedger es d = Inr d'"
  shows "allocations d' = allocations d \<and> components d' = components d \<and> strategies d' = strategies d"
proof -
  let ?I = "\<lambda>x. allocations x = allocations d \<and> components x = components d \<and> strategies x = strategies d"
  show ?thesis
    by (rule foldR_inv [OF assms [unfolded appendLedger_def], of ?I])
      (auto simp: insert_ledger_def fk_def split: if_splits)
qed

lemma set_components_frame:
  assumes "setAllocationComponents s cs now d = Inr d'"
  shows "allocations d' = allocations d \<and> strategies d' = strategies d"
  by (rule foldR_inv [OF assms [unfolded setAllocationComponents_def],
        of "\<lambda>x. allocations x = allocations d \<and> strategies x = strategies d"])
    (auto simp: set_component_def fk_def Let_def split: if_splits)

lemma same_component: "sameAllocationComponent (Some x) (Some y) \<longleftrightarrow> x = y"
  by (cases x; cases y) (simp add: sameAllocationComponent_def)

lemma map_of_map_lower:
  "map_of (map (\<lambda>e. (toLower (fst e), f (snd e))) nxt) t = map_option f (map_of (map (\<lambda>e. (toLower (fst e), snd e)) nxt) t)"
  by (induction nxt) auto

lemma commit_steps:
  assumes "commitProfitAllocationMutation a now d = Inr d'"
  obtains ns d1 d2 where "unchanged (rec_or (held 0) (strategyAllocationComponents (pf_strategyId a) d)) (pf_expected a)"
    and "next_totals (pf_next a) = Inr ns"
    and "assertWalletAllocationUpdate (pf_walletId a) (pf_strategyId a) (pf_balances a) ns d = Inr ()"
    and "foldR (set_allocation (pf_strategyId a) now) ns d = Inr d1"
    and "setAllocationComponents (pf_strategyId a) (from_entries (map (\<lambda>(t, c). (toLower t, c)) (pf_next a))) now d1 = Inr d2"
    and "appendLedger (pf_ledger a) d2 = Inr d'"
  using assms unfolding commitProfitAllocationMutation_def Let_def
  by (auto simp: bindR_eq_Inr split: if_splits)


definition sample_split :: "int \<Rightarrow> allocation_component" where
  "sample_split n = \<lparr>ac_principal = 40, ac_heldFee = 10, ac_heldProfit = n\<rparr>"

definition alloc_db :: db where
  "alloc_db = sample_db\<lparr>allocations := [\<lparr>al_strategy_id = ''s1'', al_token = ''0xqq'', al_amount = 100, al_updated = 1\<rparr>],
     components := [\<lparr>cp_strategy_id = ''s1'', cp_token = ''0xqq'', cp_principal = 40, cp_held_fee = 10,
       cp_held_profit = 50, cp_updated = 1\<rparr>]\<rparr>"

definition sample_mutation :: profit_mutation where
  "sample_mutation = \<lparr>pf_strategyId = ''s1'', pf_walletId = ''w1'', pf_expected = [(''0xqq'', sample_split 50)],
     pf_next = [(''0xqq'', sample_split 20)], pf_balances = [(''0xqq'', 80)], pf_ledger = []\<rparr>"

theorem allocation_split_fails_closed_witness:
  "map_of (strategyAllocations ''s1'' alloc_db) ''0xqq'' = Some (component_total (sample_split 50))"
proof -
  have "map_of (strategyAllocationComponents ''s1'' alloc_db) ''0xqq'' = Some (sample_split 50)" by code_simp
  from allocation_split_fails_closed [OF this] show ?thesis by simp
qed


end
