(* ===== verification/StoreCommit.thy ===== *)
theory StoreCommit
  imports Allocations
begin

text \<open>
  \<open>executor/store.ts\<close>, the transactions that end a cycle: \<open>commitRebalance\<close> with its
  replacement position, \<open>commitHoldQuote\<close> that exits to the quote token and
  \<open>commitFeeCollection\<close>.  Each one writes the strategy, its allocations, the cycle, the ledger,
  the commit step, the turnover and the job, or nothing.
\<close>

section \<open>Operations\<close>

record commit_args =
  co_jobId :: string
  co_config :: strategy_config
  co_oldTokenId :: string
  co_newTokenId :: string
  co_triggerSide :: string
  co_rangeScale :: "rat option"
  co_allocations :: "(string \<times> int) list"
  co_components :: "(string \<times> allocation_component) list option"
  co_ledger :: "ledger_entry list"
  co_txHashes :: "string list"
  co_result :: json

definition cycle_id :: "string \<Rightarrow> string" where
  "cycle_id j = ''cycle-'' @ j"

definition write_strategy :: "strategy_config \<Rightarrow> string \<Rightarrow> string \<Rightarrow> int \<Rightarrow> db \<Rightarrow> db" where
  "write_strategy config i s now d =
     d\<lparr>strategies := update_where (\<lambda>r. st_id r = i)
         (\<lambda>r. r\<lparr>st_config := config, st_state := s, st_updated := now\<rparr>) (strategies d)\<rparr>"

text \<open>
  The split must add up to the amount written for the token:
  \<open>allocations[token.toLowerCase()] ?? allocations[token]\<close>, where a missing amount equals none.
\<close>

definition split_matches :: "(string \<times> int) list \<Rightarrow> string \<times> allocation_component \<Rightarrow> bool" where
  "split_matches allocs tc \<longleftrightarrow>
     coalesce (map_of allocs (toLower (fst tc))) (map_of allocs (fst tc)) = Some (component_total (snd tc))"

definition write_components ::
  "string \<Rightarrow> (string \<times> int) list \<Rightarrow> (string \<times> allocation_component) list option \<Rightarrow> int \<Rightarrow> db \<Rightarrow> db res" where
  "write_components s allocs cs now d =
     (case cs of
        None \<Rightarrow> Inr d
      | Some cs \<Rightarrow>
          if \<not> list_all (split_matches allocs) cs then Inl (JsError ''E_ALLOCATION_MISMATCH'')
          else setAllocationComponents s cs now d)"

definition insert_cycle :: "cycle_row \<Rightarrow> db \<Rightarrow> db res" where
  "insert_cycle c d =
     bindR (insert_row cy_id c (cycles d)) (\<lambda>t.
       fk (strategy_exists (cy_strategy_id c) d) (Inr (d\<lparr>cycles := t\<rparr>)))"

text \<open>The last statements: commit step, turnover, job.\<close>

definition finish_job :: "string \<Rightarrow> json \<Rightarrow> int \<Rightarrow> db \<Rightarrow> db res" where
  "finish_job j result now d =
     update_jobs (\<lambda>r. job_id r = j) (\<lambda>r. r\<lparr>job_state := Completed, job_updated := now\<rparr>)
       (confirm_turnover j now (confirm_commit_step j result now d))"

definition cycle_of :: "commit_args \<Rightarrow> string option \<Rightarrow> rat \<Rightarrow> int \<Rightarrow> int \<Rightarrow> cycle_row" where
  "cycle_of a newToken scale created now =
     \<lparr>cy_id = cycle_id (co_jobId a), cy_strategy_id = cfg_id (co_config a),
      cy_old_token_id = Some (co_oldTokenId a), cy_new_token_id = newToken, cy_started = created,
      cy_completed = now, cy_trigger_side = co_triggerSide a, cy_range_scale = scale,
      cy_status = ''completed'', cy_tx_hashes = co_txHashes a\<rparr>"

definition cycle_ledger :: "commit_args \<Rightarrow> ledger_row list" where
  "cycle_ledger a =
     map (\<lambda>e. ledger_row_of (coalesce (entry_cycleId e) (Some (cycle_id (co_jobId a)))) (Some (co_jobId a)) e)
       (co_ledger a)"

definition end_cycle :: "commit_args \<Rightarrow> string option \<Rightarrow> rat \<Rightarrow> int \<Rightarrow> db \<Rightarrow> db res" where
  "end_cycle a newToken scale now d =
     (case get_where (\<lambda>j. job_id j = co_jobId a) (jobs d) of
        None \<Rightarrow> Inl (JsError ''E_JOB_MISSING'')
      | Some job \<Rightarrow>
          bindR (insert_cycle (cycle_of a newToken scale (job_created job) now) d) (\<lambda>d.
          bindR (foldR insert_ledger (cycle_ledger a) d) (\<lambda>d.
            finish_job (co_jobId a) (co_result a) now d)))"

definition commitRebalance :: "commit_args \<Rightarrow> int \<Rightarrow> db \<Rightarrow> db res" where
  "commitRebalance a now d =
     (let config = co_config a; s = cfg_id config;
          nextConfig = config\<lparr>activeTokenId := Some (co_newTokenId a), revision := revision config + 1,
                              updatedAt := now\<rparr>
      in bindR (foldR (set_allocation s now) (co_allocations a) (write_strategy nextConfig s ''monitoring'' now d)) (\<lambda>d.
         bindR (write_components s (co_allocations a) (co_components a) now d) (\<lambda>d.
           end_cycle a (Some (co_newTokenId a)) (case co_rangeScale a of None \<Rightarrow> 1 | Some x \<Rightarrow> x) now d)))"

text \<open>The exit to the quote token leaves \<open>range_scale\<close> at its column default 1.\<close>

definition commitHoldQuote :: "commit_args \<Rightarrow> int \<Rightarrow> db \<Rightarrow> db res" where
  "commitHoldQuote a now d =
     (let config = co_config a; s = cfg_id config;
          nextConfig = config\<lparr>activeTokenId := None, enabled := False, revision := revision config + 1,
                              updatedAt := now\<rparr>
      in bindR (foldR (set_allocation s now) (co_allocations a)
                  (write_strategy nextConfig s ''paused_hold_quote'' now d)) (\<lambda>d.
           end_cycle a None 1 now d))"

definition commitFeeCollection :: "commit_args \<Rightarrow> int \<Rightarrow> db \<Rightarrow> db res" where
  "commitFeeCollection a now d =
     (let s = cfg_id (co_config a) in
      bindR (foldR (set_allocation s now) (co_allocations a) d) (\<lambda>d.
      bindR (write_components s (co_allocations a) (co_components a) now d) (\<lambda>d.
      bindR (foldR insert_ledger (map (ledger_row_of None (Some (co_jobId a))) (co_ledger a)) d) (\<lambda>d.
      bindR (finish_job (co_jobId a) (co_result a) now d) (\<lambda>d.
        Inr (set_strategy s ''monitoring'' now d))))))"

section \<open>What the writes leave alone\<close>

lemma foldR_keeps:
  assumes "foldR f xs s = Inr s'" and "\<And>x s s'. f x s = Inr s' \<Longrightarrow> g s' = g s"
  shows "g s' = g s"
  by (rule foldR_inv [OF assms(1), of "\<lambda>t. g t = g s"]) (simp_all add: assms(2))

lemma set_allocation_keeps:
  "set_allocation s now e d = Inr d' \<Longrightarrow> cycles d' = cycles d \<and> jobs d' = jobs d \<and> strategies d' = strategies d"
  by (auto simp: set_allocation_def fk_def split: if_splits)

lemma set_component_keeps:
  "set_component s now e d = Inr d' \<Longrightarrow> cycles d' = cycles d \<and> jobs d' = jobs d \<and> strategies d' = strategies d"
  by (auto simp: set_component_def fk_def Let_def split: if_splits)

lemma insert_ledger_keeps:
  "insert_ledger r d = Inr d' \<Longrightarrow> cycles d' = cycles d \<and> jobs d' = jobs d \<and> strategies d' = strategies d"
  by (auto simp: insert_ledger_def fk_def split: if_splits)

lemmas writes_keep =
  foldR_keeps [where f = "set_allocation s now" and g = "\<lambda>d. (cycles d, jobs d, strategies d)" for s now]
  foldR_keeps [where f = "set_component s now" and g = "\<lambda>d. (cycles d, jobs d, strategies d)" for s now]
  foldR_keeps [where f = insert_ledger and g = "\<lambda>d. (cycles d, jobs d, strategies d)"]

lemma allocations_keep:
  "foldR (set_allocation s now) es d = Inr d' \<Longrightarrow> cycles d' = cycles d \<and> jobs d' = jobs d \<and> strategies d' = strategies d"
  using writes_keep(1) [of s now es d d'] set_allocation_keeps by (metis prod.inject)

lemma components_keep:
  "write_components s allocs cs now d = Inr d' \<Longrightarrow> cycles d' = cycles d \<and> jobs d' = jobs d \<and> strategies d' = strategies d"
  using writes_keep(2) [of s now _ d d'] set_component_keeps
  unfolding write_components_def setAllocationComponents_def
  by (auto split: option.splits if_splits)

lemma ledger_keeps:
  "foldR insert_ledger rs d = Inr d' \<Longrightarrow> cycles d' = cycles d \<and> jobs d' = jobs d \<and> strategies d' = strategies d"
  using writes_keep(3) [of rs d d'] insert_ledger_keeps by (metis prod.inject)

lemma finish_job_Inr:
  assumes "finish_job j result now d = Inr d'"
  shows "cycles d' = cycles d \<and> strategies d' = strategies d \<and>
    jobs d' = update_where (\<lambda>r. job_id r = j) (\<lambda>r. r\<lparr>job_state := Completed, job_updated := now\<rparr>) (jobs d)"
  using assms by (auto simp: finish_job_def update_jobs_Inr confirm_turnover_def confirm_commit_step_def)

lemma end_cycle_Inr:
  assumes "end_cycle a newToken scale now d = Inr d'"
  shows "\<exists>job. get_where (\<lambda>j. job_id j = co_jobId a) (jobs d) = Some job \<and>
    (\<forall>c \<in> set (cycles d). cy_id c \<noteq> cycle_id (co_jobId a)) \<and>
    cycles d' = cycles d @ [cycle_of a newToken scale (job_created job) now] \<and> strategies d' = strategies d \<and>
    jobs d' = update_where (\<lambda>r. job_id r = co_jobId a) (\<lambda>r. r\<lparr>job_state := Completed, job_updated := now\<rparr>) (jobs d)"
proof -
  from assms obtain job d1 d2 where job: "get_where (\<lambda>j. job_id j = co_jobId a) (jobs d) = Some job"
    and c: "insert_cycle (cycle_of a newToken scale (job_created job) now) d = Inr d1"
    and l: "foldR insert_ledger (cycle_ledger a) d1 = Inr d2"
    and f: "finish_job (co_jobId a) (co_result a) now d2 = Inr d'"
    by (auto simp: end_cycle_def bindR_eq_Inr split: option.splits)
  from c have "(\<forall>c \<in> set (cycles d). cy_id c \<noteq> cycle_id (co_jobId a)) \<and>
      d1 = d\<lparr>cycles := cycles d @ [cycle_of a newToken scale (job_created job) now]\<rparr>"
    by (auto simp: insert_cycle_def bindR_eq_Inr insert_row_Inr fk_def cycle_of_def split: if_splits)
  with job ledger_keeps [OF l] finish_job_Inr [OF f] show ?thesis by simp
qed

lemma end_cycle_once:
  assumes "c \<in> set (cycles d)" and "cy_id c = cycle_id (co_jobId a)"
  shows "\<not> isInr (end_cycle a newToken scale now d)"
  using end_cycle_Inr [of a newToken scale now d] assms by (auto simp: isInr_iff)

lemma commits_end_cycle:
  assumes "commitRebalance b now d = Inr d' \<or> commitHoldQuote b now d = Inr d'"
  shows "\<exists>e newToken scale. cycles e = cycles d \<and> end_cycle b newToken scale now e = Inr d'"
  using assms
proof
  assume "commitRebalance b now d = Inr d'"
  then show ?thesis
    unfolding commitRebalance_def Let_def bindR_eq_Inr
    by (auto dest!: allocations_keep components_keep simp: write_strategy_def; blast)
next
  assume "commitHoldQuote b now d = Inr d'"
  then show ?thesis
    unfolding commitHoldQuote_def Let_def bindR_eq_Inr
    by (auto dest!: allocations_keep simp: write_strategy_def; blast)
qed

text \<open>
  C7. A cycle is committed exactly once and as a whole: when the commit of a rebalance
  succeeds, no cycle of that job existed before; afterwards its cycle is there, its job is
  completed, and its strategy monitors the new position under the next revision.  Any further
  commit of the same job, as a rebalance or as an exit to quote, is refused.
\<close>

theorem commitRebalance_exactly_once:
  assumes "commitRebalance a now d = Inr d'" and "keys_ok job_id (jobs d)"
  shows "(\<forall>c \<in> set (cycles d). cy_id c \<noteq> cycle_id (co_jobId a)) \<and>
         (\<exists>c \<in> set (cycles d'). cy_id c = cycle_id (co_jobId a) \<and> cy_new_token_id c = Some (co_newTokenId a)) \<and>
         (\<exists>j \<in> set (jobs d'). job_id j = co_jobId a \<and> job_state j = Completed) \<and>
         (\<forall>r \<in> set (strategies d'). st_id r = cfg_id (co_config a) \<longrightarrow> st_state r = ''monitoring'' \<and>
            activeTokenId (st_config r) = Some (co_newTokenId a) \<and>
            revision (st_config r) = revision (co_config a) + 1) \<and>
         (\<forall>b t. co_jobId b = co_jobId a \<longrightarrow> \<not> isInr (commitRebalance b t d') \<and> \<not> isInr (commitHoldQuote b t d'))"
proof -
  define cfg where "cfg = (co_config a)\<lparr>activeTokenId := Some (co_newTokenId a),
      revision := revision (co_config a) + 1, updatedAt := now\<rparr>"
  define scale where "scale = (case co_rangeScale a of None \<Rightarrow> 1 | Some x \<Rightarrow> x)"
  from assms(1) obtain d1 d2 where
    w: "foldR (set_allocation (cfg_id (co_config a)) now) (co_allocations a)
          (write_strategy cfg (cfg_id (co_config a)) ''monitoring'' now d) = Inr d1"
    and c: "write_components (cfg_id (co_config a)) (co_allocations a) (co_components a) now d1 = Inr d2"
    and e: "end_cycle a (Some (co_newTokenId a)) scale now d2 = Inr d'"
    unfolding commitRebalance_def Let_def bindR_eq_Inr cfg_def scale_def by blast
  have d2: "cycles d2 = cycles d" "jobs d2 = jobs d"
    "strategies d2 = strategies (write_strategy cfg (cfg_id (co_config a)) ''monitoring'' now d)"
    using allocations_keep [OF w] components_keep [OF c] by (simp_all add: write_strategy_def)
  from end_cycle_Inr [OF e] obtain job where job: "get_where (\<lambda>j. job_id j = co_jobId a) (jobs d) = Some job"
    and fresh: "\<forall>c \<in> set (cycles d). cy_id c \<noteq> cycle_id (co_jobId a)"
    and cyc: "cycles d' = cycles d @ [cycle_of a (Some (co_newTokenId a)) scale (job_created job) now]"
    and st: "strategies d' = strategies d2"
    and js: "jobs d' = update_where (\<lambda>r. job_id r = co_jobId a) (\<lambda>r. r\<lparr>job_state := Completed, job_updated := now\<rparr>) (jobs d)"
    unfolding d2 by blast
  let ?c = "cycle_of a (Some (co_newTokenId a)) scale (job_created job) now"
  have c: "?c \<in> set (cycles d')" "cy_id ?c = cycle_id (co_jobId a)" "cy_new_token_id ?c = Some (co_newTokenId a)"
    by (simp_all add: cyc cycle_of_def)
  have "\<exists>j \<in> set (jobs d'). job_id j = co_jobId a \<and> job_state j = Completed"
    using get_where_SomeD [OF job] unfolding js set_update_where
    by (intro bexI [of _ "job\<lparr>job_state := Completed, job_updated := now\<rparr>"]) (auto simp: image_iff)
  moreover have "\<forall>r \<in> set (strategies d'). st_id r = cfg_id (co_config a) \<longrightarrow> st_state r = ''monitoring'' \<and>
      activeTokenId (st_config r) = Some (co_newTokenId a) \<and> revision (st_config r) = revision (co_config a) + 1"
    by (auto simp: st d2(3) write_strategy_def set_update_where cfg_def)
  moreover have "\<not> isInr (commitRebalance b t d') \<and> \<not> isInr (commitHoldQuote b t d')" if "co_jobId b = co_jobId a" for b t
    using commits_end_cycle [of b t d'] end_cycle_once [of ?c _ b] c that by (fastforce simp: isInr_iff)
  ultimately show ?thesis using fresh c by blast
qed

definition sample_commit :: commit_args where
  "sample_commit = \<lparr>co_jobId = ''j1'', co_config = sample_config, co_oldTokenId = ''7'', co_newTokenId = ''8'',
     co_triggerSide = ''lower'', co_rangeScale = None, co_allocations = [(''0xqq'', 70)],
     co_components = Some [(''0xqq'', sample_split 20)], co_ledger = [], co_txHashes = [''0xh''], co_result = JNull\<rparr>"

theorem commitRebalance_exactly_once_witness:
  "\<exists>d'. commitRebalance sample_commit 1000 busy_db = Inr d' \<and>
     \<not> isInr (commitRebalance sample_commit 1001 d')"
proof -
  have "isInr (commitRebalance sample_commit 1000 busy_db)" by code_simp
  then obtain d' where d': "commitRebalance sample_commit 1000 busy_db = Inr d'" by (auto simp: isInr_iff)
  have "keys_ok job_id (jobs busy_db)" by (simp add: busy_db_def keys_ok_def)
  from commitRebalance_exactly_once [OF d' this] d' show ?thesis by blast
qed

end
