(* ===== verification/FablesCycle.thy ===== *)
theory FablesCycle
  imports Accounting Rebalance Triggers
begin

text \<open>
  The decisions and amounts of a Fables cycle: \<open>executor/fablesTrigger.ts\<close>,
  \<open>executor/fablesCycle.ts\<close> and \<open>executor/fablesLimits.ts\<close>.  Decoding a receipt's logs is
  viem's; a decoded event of the hook is \<open>hook_event\<close>.
\<close>

section \<open>Trigger (fablesTrigger.ts)\<close>

record fables_monitor =
  mon_revision :: int
  mon_outSide :: "range_side option"
  mon_outSince :: "int option"
  mon_cooldownUntil :: "int option"
  mon_lastTick :: "int option"
  mon_lastBlock :: "int option"
  mon_error :: "string option"

datatype fables_state = FMonitoring | FConfirming | FReady | FPaused

record fables_observation =
  ob_tick :: int
  ob_block :: int
  ob_now :: int
  ob_claimPaused :: bool

definition evaluateFablesTrigger ::
  "fables_strategy_config \<Rightarrow> fables_monitor option \<Rightarrow> fables_observation \<Rightarrow> fables_state \<times> fables_monitor" where
  "evaluateFablesTrigger config prior ob =
     (let side = rangeSide (of_int (ob_tick ob)) (ref_tickLower (positionRef config)) (ref_tickUpper (positionRef config));
          same = (case prior of None \<Rightarrow> False | Some p \<Rightarrow> mon_revision p = f_revision config);
          base = \<lparr>mon_revision = f_revision config, mon_outSide = None, mon_outSince = None,
                  mon_cooldownUntil = (if same then (case prior of None \<Rightarrow> None | Some p \<Rightarrow> mon_cooldownUntil p) else None),
                  mon_lastTick = Some (ob_tick ob), mon_lastBlock = Some (ob_block ob), mon_error = None\<rparr>
      in if ob_claimPaused ob then (FPaused, base\<lparr>mon_error := Some ''E_FABLES_CLAIM_PAUSED''\<rparr>)
         else if side = SideIn then (FMonitoring, base)
         else
           let outSince = (case prior of
                  None \<Rightarrow> ob_now ob
                | Some p \<Rightarrow> if same \<and> mon_outSide p = Some side
                            then (case mon_outSince p of None \<Rightarrow> ob_now ob | Some z \<Rightarrow> z) else ob_now ob);
               monitor = base\<lparr>mon_outSide := Some side, mon_outSince := Some outSince\<rparr>
           in if ob_now ob < (case mon_cooldownUntil base of None \<Rightarrow> 0 | Some c \<Rightarrow> c) \<or>
                 ob_now ob - outSince < f_confirmationSeconds config
              then (FConfirming, monitor) else (FReady, monitor))"

section \<open>Amounts (fablesCycle.ts)\<close>

definition zeroAddress :: string where
  "zeroAddress = ''0x0000000000000000000000000000000000000000''"

definition fablesTargetValueBps :: "amounts \<Rightarrow> int \<Rightarrow> (int \<times> int) res" where
  "fablesTargetValueBps units sqrtP =
     (if amount0 units \<le> 0 \<or> amount1 units \<le> 0 \<or> sqrtP \<le> 0 then Inl (JsError ''E_FABLES_TARGET_RATIO'')
      else
        let value0 = amount0 units * sqrtP * sqrtP; value1 = amount1 units * 2 ^ 192 in
        bindR (bdiv (value0 * 10000) (value0 + value1)) (\<lambda>token0. Inr (token0, 10000 - token0)))"

definition allocateFablesFees :: "amounts \<Rightarrow> amounts \<Rightarrow> fee_handling \<Rightarrow> amounts \<times> amounts" where
  "allocateFablesFees funds claimed how =
     (if how = Reinvest then (funds, \<lparr>amount0 = 0, amount1 = 0\<rparr>)
      else
        let held = \<lparr>amount0 = (if amount0 claimed < amount0 funds then amount0 claimed else amount0 funds),
                    amount1 = (if amount1 claimed < amount1 funds then amount1 claimed else amount1 funds)\<rparr>
        in (\<lparr>amount0 = amount0 funds - amount0 held, amount1 = amount1 funds - amount1 held\<rparr>, held))"

definition cycleOwnedAmounts :: "string \<Rightarrow> string \<Rightarrow> amounts \<Rightarrow> amounts \<Rightarrow> amounts res" where
  "cycleOwnedAmounts c0 c1 baseline current =
     (let delta0 = amount0 current - amount0 baseline; delta1 = amount1 current - amount1 baseline;
          native0 = (toLower c0 = zeroAddress); native1 = (toLower c1 = zeroAddress)
      in if (\<not> native0 \<and> delta0 < 0) \<or> (\<not> native1 \<and> delta1 < 0)
         then Inl (JsError ''E_FABLES_WALLET_BALANCE_FELL'')
         else Inr \<lparr>amount0 = (if delta0 < 0 then 0 else delta0), amount1 = (if delta1 < 0 then 0 else delta1)\<rparr>)"

definition cycleSpendableAmounts :: "string \<Rightarrow> string \<Rightarrow> amounts \<Rightarrow> int \<Rightarrow> amounts res" where
  "cycleSpendableAmounts c0 c1 current nativeGasReserve =
     (if nativeGasReserve < 0 then Inl (JsError ''E_FABLES_GAS_RESERVE'')
      else
        let aboveReserve = (\<lambda>x. if x > nativeGasReserve then x - nativeGasReserve else 0) in
        Inr \<lparr>amount0 = (if toLower c0 = zeroAddress then aboveReserve (amount0 current) else amount0 current),
             amount1 = (if toLower c1 = zeroAddress then aboveReserve (amount1 current) else amount1 current)\<rparr>)"

definition fablesSweepFloor :: "int \<Rightarrow> int \<Rightarrow> int res" where
  "fablesSweepFloor minNativeGasReserveWei estimatedGas =
     (if minNativeGasReserveWei < 0 \<or> estimatedGas < 0 then Inl (JsError ''E_FABLES_GAS_RESERVE'')
      else Inr (minNativeGasReserveWei + estimatedGas * 3))"

datatype hook_event =
  FeesClaimed string int int int       \<comment> \<open>owner, rangeId, amount0, amount1\<close>
| TransferSingle string string int int \<comment> \<open>\<open>Transfer\<close>: from, to, id, amount\<close>

text \<open>A log: its address and, when the ABI decodes it, its event.\<close>

type_synonym hook_log = "string \<times> hook_event option"

fun claimed_of :: "string \<Rightarrow> int \<Rightarrow> hook_event option \<Rightarrow> int \<times> int" where
  "claimed_of own rid (Some (FeesClaimed ow i a0 a1)) =
     (if toLower ow = toLower own \<and> i = rid then (a0, a1) else (0, 0))"
| "claimed_of own rid _ = (0, 0)"

definition claimedFablesFees :: "hook_log list \<Rightarrow> string \<Rightarrow> string \<Rightarrow> int \<Rightarrow> amounts" where
  "claimedFablesFees logs hook own rid =
     foldl (\<lambda>acc l. if toLower (fst l) \<noteq> toLower hook then acc
                    else \<lparr>amount0 = amount0 acc + fst (claimed_of own rid (snd l)),
                          amount1 = amount1 acc + snd (claimed_of own rid (snd l))\<rparr>)
       \<lparr>amount0 = 0, amount1 = 0\<rparr> logs"

fun minted_of :: "string \<Rightarrow> int \<Rightarrow> hook_event option \<Rightarrow> int" where
  "minted_of own rid (Some (TransferSingle frm dest i amt)) =
     (if toLower frm = zeroAddress \<and> toLower dest = toLower own \<and> i = rid then amt else 0)"
| "minted_of own rid _ = 0"

definition mintedFablesShares :: "hook_log list \<Rightarrow> string \<Rightarrow> string \<Rightarrow> int \<Rightarrow> int" where
  "mintedFablesShares logs hook own rid =
     foldl (\<lambda>acc l. if toLower (fst l) \<noteq> toLower hook then acc else acc + minted_of own rid (snd l)) 0 logs"

definition fablesSwapImpactBps :: "int \<Rightarrow> int \<Rightarrow> string \<Rightarrow> string \<Rightarrow> int \<Rightarrow> int res" where
  "fablesSwapImpactBps amtIn quoted tokIn c0 sqrtP =
     (if amtIn \<le> 0 \<or> quoted \<le> 0 \<or> sqrtP \<le> 0 then Inl (JsError ''E_FABLES_SWAP_QUOTE'')
      else
        let priceX192 = sqrtP * sqrtP; q192 = 2 ^ 192 in
        bindR (if toLower tokIn = toLower c0 then bdiv (amtIn * priceX192) q192
               else bdiv (amtIn * q192) priceX192) (\<lambda>spotOut.
        if spotOut \<le> 0 then Inl (JsError ''E_FABLES_SWAP_SPOT'')
        else if quoted \<ge> spotOut then Inr 0 else bdiv ((spotOut - quoted) * 10000) spotOut))"

section \<open>Limits (fablesLimits.ts)\<close>

definition NATIVE :: string where "NATIVE = ''0xEeeeeEeeeEeEeeEeEeEeeEEEeeeeEeeeeeeeEEeE''"

definition directBuildCurrency :: "string \<Rightarrow> string" where
  "directBuildCurrency a = (if toLower a = zeroAddress then NATIVE else a)"

text \<open>\<open>parseUnits\<close> is viem's and may throw.\<close>

definition validateFablesDailyTurnover :: "(string \<Rightarrow> int \<Rightarrow> int res) \<Rightarrow> string \<Rightarrow> rat \<Rightarrow> int res" where
  "validateFablesDailyTurnover parseUnits v decimals =
     (if \<not> is_integer decimals \<or> decimals < 0 \<or> decimals > 36 then Inl (JsError ''E_FABLES_QUOTE_DECIMALS'')
      else bindR (parseUnits v \<lfloor>decimals\<rfloor>) (\<lambda>x.
        if x \<le> 0 then Inl (JsError ''E_FABLES_DAILY_LIMIT'') else Inr x))"

definition FABLES_APPROVAL_PAD_BPS :: int where "FABLES_APPROVAL_PAD_BPS = 500"
definition FABLES_APPROVAL_LIMIT :: int where "FABLES_APPROVAL_LIMIT = 8"

definition fablesApprovalAmount :: "int \<Rightarrow> int res" where
  "fablesApprovalAmount amt =
     (if amt \<le> 0 then Inl (JsError ''E_FABLES_APPROVAL_AMOUNT'')
      else bindR (bdiv (amt * FABLES_APPROVAL_PAD_BPS + 9999) 10000) (\<lambda>pad. Inr (amt + pad)))"

section \<open>The trigger over a sequence of polls\<close>

text \<open>The monitor row after a sequence of polls, each evaluated on the row before it.\<close>

fun polls :: "fables_strategy_config \<Rightarrow> fables_monitor option \<Rightarrow> fables_observation list \<Rightarrow> fables_monitor option" where
  "polls c m [] = m"
| "polls c m (x # xs) = polls c (Some (snd (evaluateFablesTrigger c m x))) xs"

definition side_of :: "fables_strategy_config \<Rightarrow> fables_observation \<Rightarrow> range_side" where
  "side_of c x = rangeSide (of_int (ob_tick x)) (ref_tickLower (positionRef c)) (ref_tickUpper (positionRef c))"

text \<open>The unbroken stretch of polls on one side at the end of a sequence.\<close>

definition excursion :: "fables_strategy_config \<Rightarrow> range_side \<Rightarrow> fables_observation list \<Rightarrow> fables_observation list" where
  "excursion c sd xs = rev (takeWhile (\<lambda>x. \<not> ob_claimPaused x \<and> side_of c x = sd) (rev xs))"

lemma excursion_snoc:
  "excursion c sd (xs @ [x]) = (if \<not> ob_claimPaused x \<and> side_of c x = sd then excursion c sd xs @ [x] else [])"
  by (simp add: excursion_def)

lemma excursion_Nil [simp]: "excursion c sd [] = []"
  by (simp add: excursion_def)

lemma excursion_single: "excursion c sd [x] = (if \<not> ob_claimPaused x \<and> side_of c x = sd then [x] else [])"
  by (simp add: excursion_def)

lemma polls_snoc: "polls c m (xs @ [x]) = Some (snd (evaluateFablesTrigger c (polls c m xs) x))"
  by (induction xs arbitrary: m) simp_all

text \<open>What the row remembers: the side of the last poll and when its excursion began.\<close>

definition remembers :: "fables_strategy_config \<Rightarrow> fables_observation list \<Rightarrow> fables_monitor option \<Rightarrow> bool" where
  "remembers c xs m \<longleftrightarrow>
     (case m of
        None \<Rightarrow> xs = []
      | Some r \<Rightarrow> mon_revision r = f_revision c \<and> mon_cooldownUntil r = None \<and>
          (\<forall>sd. sd \<noteq> SideIn \<longrightarrow>
             (if excursion c sd xs = [] then mon_outSide r \<noteq> Some sd
              else mon_outSide r = Some sd \<and> mon_outSince r = Some (ob_now (hd (excursion c sd xs))))))"

lemma remembers_snoc:
  assumes "remembers c xs m"
  shows "remembers c (xs @ [x]) (Some (snd (evaluateFablesTrigger c m x)))"
  using assms
  by (cases m)
    (auto simp: remembers_def evaluateFablesTrigger_def Let_def excursion_snoc excursion_single side_of_def hd_append
      split: if_splits option.splits)

lemma remembers_polls: "remembers c xs (polls c None xs)"
proof (induction xs rule: rev_induct)
  case Nil
  then show ?case by (simp add: remembers_def)
next
  case (snoc x xs)
  then show ?case unfolding polls_snoc by (rule remembers_snoc)
qed

lemma evaluate_ready:
  assumes "mon_cooldownUntil (snd (evaluateFablesTrigger c m x)) = None" and "0 \<le> ob_now x"
  shows "fst (evaluateFablesTrigger c m x) = FReady \<longleftrightarrow>
     \<not> ob_claimPaused x \<and> side_of c x \<noteq> SideIn \<and>
     f_confirmationSeconds c \<le> ob_now x - the (mon_outSince (snd (evaluateFablesTrigger c m x)))"
  using assms by (auto simp: evaluateFablesTrigger_def Let_def side_of_def split: if_splits option.splits)

text \<open>
  A Fables job starts only on a full, unbroken excursion: polling a new strategy, the trigger
  is ready at a poll exactly when claims are not paused, the tick is out of range, and the
  unbroken stretch of polls on that same side that ends here began at least the confirmation
  time ago.  A return into the range, a switch of side or a claim pause restarts the wait.
\<close>

theorem fables_trigger_ready_iff:
  assumes "0 \<le> ob_now x"
  shows "fst (evaluateFablesTrigger c (polls c None xs) x) = FReady \<longleftrightarrow>
     \<not> ob_claimPaused x \<and> side_of c x \<noteq> SideIn \<and>
     f_confirmationSeconds c \<le> ob_now x - ob_now (hd (excursion c (side_of c x) (xs @ [x])))"
proof -
  let ?e = "evaluateFablesTrigger c (polls c None xs) x"
  let ?ex = "excursion c (side_of c x) (xs @ [x])"
  have r: "remembers c (xs @ [x]) (Some (snd ?e))"
    by (rule remembers_snoc) (rule remembers_polls)
  have cool: "mon_cooldownUntil (snd ?e) = None" using r by (simp add: remembers_def)
  have since: "mon_outSince (snd ?e) = Some (ob_now (hd ?ex))" if "\<not> ob_claimPaused x" "side_of c x \<noteq> SideIn"
  proof -
    have "?ex \<noteq> []" using that by (simp add: excursion_snoc)
    then show ?thesis using r that by (simp add: remembers_def)
  qed
  have "fst ?e = FReady \<longleftrightarrow> \<not> ob_claimPaused x \<and> side_of c x \<noteq> SideIn \<and>
      f_confirmationSeconds c \<le> ob_now x - the (mon_outSince (snd ?e))"
    by (rule evaluate_ready [OF cool assms])
  then show ?thesis using since by auto
qed

section \<open>Amounts\<close>

text \<open>
  The approval pad is the least whole amount that covers a 5% larger spend: for a positive
  planned amount the approval exists, and a spend is within it exactly when it is at most 105%
  of the plan, rounded up.
\<close>

theorem fables_approval_covers_five_percent:
  assumes "0 < n"
  shows "\<exists>a. fablesApprovalAmount n = Inr a \<and> n < a \<and> n * 10500 \<le> a * 10000 \<and> (a - 1) * 10000 < n * 10500"
proof -
  define p where "p = (n * 500 + 9999) div 10000"
  have "(n * 500 + 9999) div 10000 * 10000 \<le> n * 500 + 9999" by (rule div_mult_le) simp
  moreover have "n * 500 + 9999 < ((n * 500 + 9999) div 10000 + 1) * 10000" by (rule div_mult_gt) simp
  ultimately have "p * 10000 \<le> n * 500 + 9999" "n * 500 + 9999 < p * 10000 + 10000"
    by (simp_all add: p_def algebra_simps)
  moreover have "fablesApprovalAmount n = Inr (n + p)"
    using assms by (simp add: fablesApprovalAmount_def bdiv_pos FABLES_APPROVAL_PAD_BPS_def p_def)
  ultimately show ?thesis using assms by (intro exI [of _ "n + p"]) auto
qed

theorem fables_approval_covers_five_percent_witness:
  "\<exists>a. fablesApprovalAmount 101 = Inr a \<and> 101 < a"
  using fables_approval_covers_five_percent [of 101] by auto

lemma allocateFablesFees_conserves:
  assumes "0 \<le> amount0 claimed" and "0 \<le> amount1 claimed" and "0 \<le> amount0 funds" and "0 \<le> amount1 funds"
  shows "let (lp, kept) = allocateFablesFees funds claimed how in
     amount0 lp + amount0 kept = amount0 funds \<and> amount1 lp + amount1 kept = amount1 funds \<and>
     0 \<le> amount0 lp \<and> 0 \<le> amount1 lp \<and> 0 \<le> amount0 kept \<and> 0 \<le> amount1 kept"
  using assms by (simp add: allocateFablesFees_def Let_def)

lemma div_less_of_mult: "0 < d \<Longrightarrow> n < c * d \<Longrightarrow> n div d < (c::int)"
  by (simp add: div_less_iff)

lemma fablesSwapImpactBps_range:
  assumes "fablesSwapImpactBps x q ti c0 sp = Inr r"
  shows "0 \<le> r \<and> r < 10000"
proof -
  have q: "\<not> (x \<le> 0 \<or> q \<le> 0 \<or> sp \<le> 0)"
    using assms unfolding fablesSwapImpactBps_def by (cases "x \<le> 0 \<or> q \<le> 0 \<or> sp \<le> 0") simp_all
  obtain spot where "\<not> spot \<le> 0"
    and r: "(if spot \<le> q then Inr 0 else bdiv ((spot - q) * 10000) spot) = Inr r"
    using assms unfolding fablesSwapImpactBps_def Let_def if_not_P [OF q] bindR_eq_Inr
    by (metis Inl_Inr_False)
  then have "0 < q" "0 < spot" "spot \<le> q \<or> bdiv ((spot - q) * 10000) spot = Inr r" "spot \<le> q \<longrightarrow> r = 0"
    using q by (simp_all split: if_split_asm)
  then show ?thesis
    by (cases "spot \<le> q") (auto simp: bdiv_pos pos_imp_zdiv_nonneg_iff intro!: div_less_of_mult)
qed

definition sample_ref :: fables_position_ref where
  "sample_ref = \<lparr>ref_poolId = ''0xp'', ref_hook = ''0xhk'', rangeId = ''5'', ref_tickLower = -10, ref_tickUpper = 10\<rparr>"

definition sample_fables :: fables_strategy_config where
  "sample_fables = \<lparr>f_id = ''f1'', f_name = ''n'', f_enabled = True, f_owner = ''0xaa'', f_poolManager = ''0xpm'',
     positionRef = sample_ref, f_riskToken = ''0xrr'', f_quoteToken = ''0xqq'', f_lowerPct = 10, f_upperPct = 10,
     f_pollSeconds = 30, f_confirmationSeconds = 60, f_cooldownMinutes = 5, f_fees = HoldTokens,
     f_safeguards = \<lparr>f_maxSlippageBps = 50, f_maxSwapImpactBps = 50, f_maxRebalancesPerDay = 4,
       f_maxPlanAgeSeconds = 60, f_maxClaimFeeBps = 100, f_allowLegacyUnboundedFeeExit = False,
       f_minNativeGasReserveWei = 0\<rparr>,
     f_execution = \<lparr>f_mode = ExecutorAuto, f_walletId = Some ''w1'', f_signerAddress = Some ''0xaa'',
       f_dryRun = False, f_maxGasPriceWei = None, f_maxDailyTurnoverQuote = Some 100\<rparr>,
     f_revision = 1, f_createdAt = 1, f_updatedAt = 1\<rparr>"

definition poll_at :: "int \<Rightarrow> int \<Rightarrow> fables_observation" where
  "poll_at t tk = \<lparr>ob_tick = tk, ob_block = t, ob_now = t, ob_claimPaused = False\<rparr>"

theorem fables_trigger_ready_iff_witness:
  "fst (evaluateFablesTrigger sample_fables (polls sample_fables None [poll_at 100 0, poll_at 130 20]) (poll_at 200 20)) = FReady"
proof -
  have "\<not> ob_claimPaused (poll_at 200 20) \<and> side_of sample_fables (poll_at 200 20) \<noteq> SideIn \<and>
     f_confirmationSeconds sample_fables \<le> ob_now (poll_at 200 20) -
       ob_now (hd (excursion sample_fables (side_of sample_fables (poll_at 200 20)) ([poll_at 100 0, poll_at 130 20] @ [poll_at 200 20])))"
    by code_simp
  moreover have "0 \<le> ob_now (poll_at 200 20)" by (simp add: poll_at_def)
  ultimately show ?thesis by (rule fables_trigger_ready_iff [THEN iffD2, rotated])
qed

end
