(* ===== verification/FablesStore.thy ===== *)
theory FablesStore
  imports JobLifecycle Transition
begin

text \<open>
  The durable side of the Fables engine: \<open>executor/fablesStore.ts\<close> (share-range strategies and
  their monitor rows) and \<open>executor/fablesJobs.ts\<close> (jobs, transaction intents, ledger facts,
  turnover).  \<open>parse\<close> is \<open>parseFablesStrategyConfig\<close>, \<open>parseSaved\<close> the same without the
  automatic-approval requirement; a fresh identifier (\<open>randomUUID\<close>) is an argument.
\<close>

section \<open>Strategies\<close>

definition fables_range_key :: "fables_strategy_row \<Rightarrow> string \<times> string \<times> string \<times> string" where
  "fables_range_key r = (fst_owner r, fst_pool_id r, fst_hook r, fst_range_id r)"

text \<open>\<open>one_enabled_fables_strategy_per_range\<close>, checked after every write of the table.\<close>

definition write_fables_strategies :: "fables_strategy_row list \<Rightarrow> db \<Rightarrow> db res" where
  "write_fables_strategies t d =
     (if distinct (map fables_range_key (filter fst_enabled t)) then Inr (d\<lparr>fables_strategies := t\<rparr>)
      else Inl UniqueFailed)"

definition fablesStrategyById ::
  "fables_strategy_config parser \<Rightarrow> string \<Rightarrow> db \<Rightarrow> (fables_strategy_config \<times> string \<times> int) option res" where
  "fablesStrategyById parseSaved i d =
     (case get_where (\<lambda>r. fst_id r = i) (fables_strategies d) of
        None \<Rightarrow> Inr None
      | Some r \<Rightarrow> bindR (parseSaved (fst_config r)) (\<lambda>c. Inr (Some (c, fst_state r, fst_updated r))))"

definition listFablesStrategies ::
  "fables_strategy_config parser \<Rightarrow> string option \<Rightarrow> db \<Rightarrow> (fables_strategy_config \<times> string \<times> int) list res" where
  "listFablesStrategies parseSaved own d =
     mapR (\<lambda>r. bindR (parseSaved (fst_config r)) (\<lambda>c. Inr (c, fst_state r, fst_updated r)))
       (sort_key (\<lambda>r. - fst_updated r)
         (select_where (\<lambda>r. case own of None \<Rightarrow> True | Some a \<Rightarrow> a = [] \<or> fst_owner r = toLower a)
           (fables_strategies d)))"

definition upsert_allowed ::
  "fables_strategy_config parser \<Rightarrow> fables_strategy_config \<Rightarrow> db \<Rightarrow> unit res" where
  "upsert_allowed parseSaved clean d =
     (case get_where (\<lambda>r. fst_id r = f_id clean) (fables_strategies d) of
        None \<Rightarrow> if f_revision clean \<noteq> 1 then Inl (JsError ''E_FABLES_REVISION_CONFLICT'') else Inr ()
      | Some current \<Rightarrow>
          bindR (parseSaved (fst_config current)) (\<lambda>old.
            if f_revision clean \<noteq> f_revision old + 1 then Inl (JsError ''E_FABLES_REVISION_CONFLICT'')
            else if toLower (f_owner old) \<noteq> toLower (f_owner clean) then Inl (JsError ''E_FABLES_OWNER_CHANGE'')
            else if fst_state current \<in> {''executing'', ''recovery''} then Inl (JsError ''E_FABLES_JOB_OPEN'')
            else Inr ()))"

definition upsertFablesStrategy ::
  "fables_strategy_config parser \<Rightarrow> fables_strategy_config parser \<Rightarrow> fables_strategy_config \<Rightarrow> int \<Rightarrow> db \<Rightarrow> db res" where
  "upsertFablesStrategy parse parseSaved config now d =
     bindR (parse config) (\<lambda>clean.
     bindR (upsert_allowed parseSaved clean d) (\<lambda>_.
     let row = \<lparr>fst_id = f_id clean, fst_owner = toLower (f_owner clean),
                fst_pool_id = toLower (ref_poolId (positionRef clean)),
                fst_hook = toLower (ref_hook (positionRef clean)), fst_range_id = rangeId (positionRef clean),
                fst_wallet_id = f_walletId (f_execution clean), fst_config = clean,
                fst_enabled = f_enabled clean,
                fst_state = (if f_enabled clean then ''monitoring'' else ''disabled''), fst_updated = now\<rparr>
     in bindR (write_fables_strategies (upsert fst_id (\<lambda>r. row\<lparr>fst_owner := fst_owner r\<rparr>) row (fables_strategies d)) d) (\<lambda>d.
          Inr (d\<lparr>fables_monitors := delete_where (\<lambda>m. fm_strategy_id m = f_id clean) (fables_monitors d)\<rparr>))))"

text \<open>\<open>UPDATE fables_strategies SET state=?,updated_at=? WHERE id=?\<close>.\<close>

definition set_fables_strategy :: "string \<Rightarrow> string \<Rightarrow> int \<Rightarrow> db \<Rightarrow> db" where
  "set_fables_strategy i s now d =
     d\<lparr>fables_strategies := update_where (\<lambda>r. fst_id r = i) (\<lambda>r. r\<lparr>fst_state := s, fst_updated := now\<rparr>)
         (fables_strategies d)\<rparr>"

definition fables_strategy_exists :: "string \<Rightarrow> db \<Rightarrow> bool" where
  "fables_strategy_exists i d = exists_where (\<lambda>r. fst_id r = i) (fables_strategies d)"

definition fablesMonitorState :: "string \<Rightarrow> db \<Rightarrow> fables_monitor_row option" where
  "fablesMonitorState i d =
     map_option (\<lambda>r. r\<lparr>fm_out_side := (if fm_out_side r \<in> {Some ''lower'', Some ''upper''} then fm_out_side r else None)\<rparr>)
       (get_where (\<lambda>r. fm_strategy_id r = i) (fables_monitors d))"

definition upsert_monitor ::
  "(fables_monitor_row \<Rightarrow> fables_monitor_row) \<Rightarrow> fables_monitor_row \<Rightarrow> db \<Rightarrow> db res" where
  "upsert_monitor f row d =
     fk (fables_strategy_exists (fm_strategy_id row) d)
       (Inr (d\<lparr>fables_monitors := upsert fm_strategy_id f row (fables_monitors d)\<rparr>))"

definition updateFablesMonitorState :: "string \<Rightarrow> fables_monitor_row \<Rightarrow> string \<Rightarrow> int \<Rightarrow> db \<Rightarrow> db res" where
  "updateFablesMonitorState i m strategyState now d =
     (let row = m\<lparr>fm_strategy_id := i, fm_updated := now\<rparr>
      in bindR (upsert_monitor (\<lambda>_. row) row d) (\<lambda>d. Inr (set_fables_strategy i strategyState now d)))"

section \<open>Jobs\<close>

text \<open>Reading a job parses its stored configuration.\<close>

definition fablesJobById :: "fables_strategy_config parser \<Rightarrow> string \<Rightarrow> db \<Rightarrow> fables_job_row option res" where
  "fablesJobById parseSaved i d =
     (case get_where (\<lambda>j. fj_id j = i) (fables_jobs d) of
        None \<Rightarrow> Inr None
      | Some j \<Rightarrow> bindR (parseSaved (fj_config j)) (\<lambda>c. Inr (Some (j\<lparr>fj_config := c\<rparr>))))"

definition read_jobs :: "fables_strategy_config parser \<Rightarrow> fables_job_row list \<Rightarrow> fables_job_row list res" where
  "read_jobs parseSaved = mapR (\<lambda>j. bindR (parseSaved (fj_config j)) (\<lambda>c. Inr (j\<lparr>fj_config := c\<rparr>)))"

definition activeFablesJobs :: "fables_strategy_config parser \<Rightarrow> db \<Rightarrow> fables_job_row list res" where
  "activeFablesJobs parseSaved d =
     read_jobs parseSaved (sort_key fj_created (select_where (\<lambda>j. is_open (fj_state j)) (fables_jobs d)))"

definition recentFablesJobs :: "fables_strategy_config parser \<Rightarrow> string option \<Rightarrow> db \<Rightarrow> fables_job_row list res" where
  "recentFablesJobs parseSaved own d =
     read_jobs parseSaved (take 50 (sort_key (\<lambda>j. - fj_created j)
       (select_where (\<lambda>j. case own of None \<Rightarrow> True
          | Some a \<Rightarrow> a = [] \<or> exists_where (\<lambda>s. fst_id s = fj_strategy_id j \<and> fst_owner s = toLower a) (fables_strategies d))
         (fables_jobs d))))"

definition new_fables_job :: "string \<Rightarrow> fables_strategy_config \<Rightarrow> string \<Rightarrow> int \<Rightarrow> fables_job_row" where
  "new_fables_job i c w now =
     \<lparr>fj_id = i, fj_strategy_id = f_id c, fj_wallet_id = w, fj_config = c, fj_state = Planned, fj_stage = FPrecheck,
      fj_context = JObj [], fj_error = None, fj_created = now, fj_updated = now\<rparr>"

definition insert_fables_job :: "fables_job_row \<Rightarrow> db \<Rightarrow> db res" where
  "insert_fables_job r d =
     fk (fables_strategy_exists (fj_strategy_id r) d \<and> wallet_exists (fj_wallet_id r) d)
       (bindR (insert_row fj_id r (fables_jobs d)) (\<lambda>t. write_fables_jobs t d))"

definition createFablesJob ::
  "fables_strategy_config parser \<Rightarrow> string \<Rightarrow> fables_strategy_config \<Rightarrow> int \<Rightarrow> db \<Rightarrow> db res" where
  "createFablesJob parse fresh config now d =
     bindR (parse config) (\<lambda>clean.
     (case f_walletId (f_execution clean) of
        None \<Rightarrow> Inl (JsError ''E_FABLES_AUTO_DISABLED'')
      | Some w \<Rightarrow>
          if \<not> f_enabled clean \<or> f_mode (f_execution clean) \<noteq> ExecutorAuto \<or> w = []
          then Inl (JsError ''E_FABLES_AUTO_DISABLED'')
          else if (case walletById w d of None \<Rightarrow> True | Some a \<Rightarrow> toLower (w_address a) \<noteq> toLower (f_owner clean))
          then Inl (JsError ''E_FABLES_WALLET'')
          else
            (case get_where (\<lambda>r. fst_id r = f_id clean) (fables_strategies d) of
               None \<Rightarrow> Inl (JsError ''E_FABLES_NOT_READY'')
             | Some strategy \<Rightarrow>
                 if fst_state strategy \<noteq> ''dry_run_ready'' then Inl (JsError ''E_FABLES_NOT_READY'')
                 else bindR (parse (fst_config strategy)) (\<lambda>saved.
                   if saved \<noteq> clean then Inl (JsError ''E_FABLES_CONFIG_CHANGED'')
                   else if wallet_job_open w d then Inl (JsError ''E_FABLES_WALLET_BUSY'')
                   else if wallet_fables_open w d then Inl (JsError ''E_FABLES_WALLET_BUSY'')
                   else bindR (insert_fables_job (new_fables_job fresh clean w now) d) (\<lambda>d.
                     Inr (set_fables_strategy (f_id clean) ''executing'' now d))))))"

record fables_progress =
  pr_state :: "job_state option"
  pr_stage :: "fables_stage option"
  pr_context :: "json option"
  pr_error :: "string option option"

text \<open>The argument's \<open>errorCode\<close>: absent keeps the code, \<open>null\<close> clears it.\<close>

definition setFablesJobProgress ::
  "fables_strategy_config parser \<Rightarrow> string \<Rightarrow> fables_progress \<Rightarrow> int \<Rightarrow> db \<Rightarrow> db res" where
  "setFablesJobProgress parseSaved i a now d =
     bindR (fablesJobById parseSaved i d) (\<lambda>job.
     (case job of
        None \<Rightarrow> Inl (JsError ''E_FABLES_JOB_CLOSED'')
      | Some row \<Rightarrow>
          if \<not> is_open (fj_state row) then Inl (JsError ''E_FABLES_JOB_CLOSED'')
          else
            let st = (case pr_state a of None \<Rightarrow> fj_state row | Some s \<Rightarrow> s) in
            bindR (update_fables_jobs (\<lambda>j. fj_id j = i)
              (\<lambda>j. j\<lparr>fj_state := st,
                     fj_stage := (case pr_stage a of None \<Rightarrow> fj_stage row | Some s \<Rightarrow> s),
                     fj_context := (case pr_context a of None \<Rightarrow> fj_context row | Some c \<Rightarrow> c),
                     fj_error := (case pr_error a of None \<Rightarrow> fj_error row | Some e \<Rightarrow> e), fj_updated := now\<rparr>) d) (\<lambda>d.
            Inr (if st = Recovery then set_fables_strategy (fj_strategy_id row) ''recovery'' now d
                 else if st = Running then set_fables_strategy (fj_strategy_id row) ''executing'' now d
                 else d))))"

definition quarantine_fables :: "int \<Rightarrow> fables_job_row \<Rightarrow> db \<Rightarrow> db res" where
  "quarantine_fables now row d =
     bindR (update_fables_jobs (\<lambda>j. fj_id j = fj_id row)
              (\<lambda>j. j\<lparr>fj_state := Recovery, fj_error := Some ''E_FABLES_INTERRUPTED'', fj_updated := now\<rparr>) d)
       (\<lambda>d. Inr (set_fables_strategy (fj_strategy_id row) ''recovery'' now d))"

definition quarantineInterruptedFablesJobs :: "int \<Rightarrow> db \<Rightarrow> (int \<times> db) res" where
  "quarantineInterruptedFablesJobs now d =
     (let rows = filter (\<lambda>j. fj_state j = Running) (fables_jobs d) in
      bindR (foldR (quarantine_fables now) rows d) (\<lambda>d. Inr (int (length rows), d)))"

section \<open>Transactions\<close>

definition fablesJobTransactions :: "string \<Rightarrow> db \<Rightarrow> fables_tx_row list" where
  "fablesJobTransactions i d = sort_key ft_ordinal (select_where (\<lambda>t. ft_job_id t = i) (fables_txs d))"

record tx_intent =
  ti_jobId :: string
  ti_ordinal :: int
  ti_stage :: fables_stage
  ti_nonce :: int
  ti_hash :: string
  ti_to :: string
  ti_calldataHash :: string
  ti_signedTx :: "string option"

text \<open>\<open>keccak\<close> is the hash of viem.\<close>

definition recordFablesTxIntent ::
  "fables_strategy_config parser \<Rightarrow> (string \<Rightarrow> string) \<Rightarrow> tx_intent \<Rightarrow> int \<Rightarrow> db \<Rightarrow> db res" where
  "recordFablesTxIntent parseSaved keccak tx now d =
     bindR (fablesJobById parseSaved (ti_jobId tx) d) (\<lambda>job.
     if (case job of None \<Rightarrow> True | Some j \<Rightarrow> fj_state j \<notin> {Running, Recovery})
     then Inl (JsError ''E_FABLES_JOB_NOT_RUNNING'')
     else if (case ti_signedTx tx of None \<Rightarrow> False | Some raw \<Rightarrow> raw \<noteq> [] \<and> toLower (keccak raw) \<noteq> toLower (ti_hash tx))
     then Inl (JsError ''E_FABLES_SIGNED_HASH_MISMATCH'')
     else if list_ex (\<lambda>r. ft_ordinal r = ti_ordinal tx \<or> ft_stage r = ti_stage tx \<and> in_flight (ft_state r))
               (fablesJobTransactions (ti_jobId tx) d)
     then Inl (JsError ''E_FABLES_TX_ALREADY_SENT'')
     else
       bindR (insert_row fables_tx_key
         \<lparr>ft_job_id = ti_jobId tx, ft_ordinal = ti_ordinal tx, ft_stage = ti_stage tx, ft_state = Sending,
          ft_nonce = ti_nonce tx, ft_tx_hash = ti_hash tx, ft_tx_to = ti_to tx,
          ft_calldata_hash = ti_calldataHash tx, ft_signed_tx = ti_signedTx tx, ft_block_number = None,
          ft_gas_used = None, ft_gas_price = None, ft_error = None, ft_updated = now\<rparr> (fables_txs d)) (\<lambda>t.
       if distinct (map ft_tx_hash t) then Inr (d\<lparr>fables_txs := t\<rparr>) else Inl UniqueFailed))"

definition updateFablesTx ::
  "string \<Rightarrow> int \<Rightarrow> tx_state \<Rightarrow> int option \<Rightarrow> int option \<Rightarrow> int option \<Rightarrow> string option \<Rightarrow> int \<Rightarrow> db \<Rightarrow> db res" where
  "updateFablesTx i ordinal st blk gasUsed gasPrice err now d =
     (let hit = (\<lambda>t. fables_tx_key t = (i, ordinal)) in
      if count_where hit (fables_txs d) \<noteq> 1 then Inl (JsError ''E_FABLES_TX_MISSING'')
      else Inr (d\<lparr>fables_txs := update_where hit
        (\<lambda>t. t\<lparr>ft_state := st, ft_block_number := coalesce blk (ft_block_number t),
               ft_gas_used := coalesce gasUsed (ft_gas_used t), ft_gas_price := coalesce gasPrice (ft_gas_price t),
               ft_error := err, ft_updated := now\<rparr>) (fables_txs d)\<rparr>))"

definition resumeFablesJob :: "fables_strategy_config parser \<Rightarrow> string \<Rightarrow> int \<Rightarrow> db \<Rightarrow> db res" where
  "resumeFablesJob parseSaved i now d =
     bindR (fablesJobById parseSaved i d) (\<lambda>job.
     (case job of
        None \<Rightarrow> Inl (JsError ''E_FABLES_NOT_IN_RECOVERY'')
      | Some row \<Rightarrow>
          if fj_state row \<noteq> Recovery then Inl (JsError ''E_FABLES_NOT_IN_RECOVERY'')
          else if list_ex (\<lambda>t. in_flight (ft_state t)) (fablesJobTransactions i d)
          then Inl (JsError ''E_FABLES_TX_UNRESOLVED'')
          else
            let d1 = d\<lparr>fables_txs := update_where (\<lambda>t. ft_job_id t = i \<and> ft_state t = FailedTx)
                       (\<lambda>t. t\<lparr>ft_state := Reviewed, ft_updated := now\<rparr>) (fables_txs d)\<rparr>
            in bindR (update_fables_jobs (\<lambda>j. fj_id j = i)
                        (\<lambda>j. j\<lparr>fj_state := Running, fj_error := None, fj_updated := now\<rparr>) d1) (\<lambda>d.
                 Inr (set_fables_strategy (fj_strategy_id row) ''executing'' now d))))"

section \<open>Ledger facts\<close>

text \<open>\<open>one_fables_ledger_fact_per_receipt\<close>: a fact with a receipt is stored once.\<close>

definition fables_fact_key :: "fables_ledger_row \<Rightarrow> string \<times> string option \<times> string \<times> string" where
  "fables_fact_key r = (fl_job_id r, fl_tx_hash r, fl_kind r, case fl_token r of None \<Rightarrow> [] | Some t \<Rightarrow> t)"

definition appendFablesLedger :: "fables_ledger_row \<Rightarrow> db \<Rightarrow> db res" where
  "appendFablesLedger r d =
     (let row = r\<lparr>fl_token := map_option toLower (fl_token r)\<rparr> in
      if fl_tx_hash row \<noteq> None \<and>
         exists_where (\<lambda>x. fl_tx_hash x \<noteq> None \<and> fables_fact_key x = fables_fact_key row) (fables_ledger d)
      then Inr d
      else fk (fables_strategy_exists (fl_strategy_id row) d \<and> exists_where (\<lambda>j. fj_id j = fl_job_id row) (fables_jobs d))
        (Inr (d\<lparr>fables_ledger := fables_ledger d @ [row]\<rparr>)))"

definition recentFablesLedger :: "string \<Rightarrow> db \<Rightarrow> fables_ledger_row list" where
  "recentFablesLedger s d =
     take 100 (sort_key (\<lambda>r. - fl_ts r) (rev (select_where (\<lambda>r. fl_strategy_id r = s) (fables_ledger d))))"

definition completedFablesCyclesSince :: "string \<Rightarrow> int \<Rightarrow> db \<Rightarrow> int" where
  "completedFablesCyclesSince s since d =
     count_where (\<lambda>j. fj_strategy_id j = s \<and> fj_state j = Completed \<and> fj_updated j \<ge> since) (fables_jobs d)"

section \<open>Turnover\<close>

record fables_request =
  fq_jobId :: string
  fq_ordinal :: int
  fq_walletId :: string
  fq_quoteToken :: string
  fq_now :: int

definition fables_bucket :: "string \<Rightarrow> string \<Rightarrow> int \<Rightarrow> fables_turnover_row \<Rightarrow> bool" where
  "fables_bucket w t day r \<longleftrightarrow> fr_wallet_id r = w \<and> fr_token r = t \<and> fr_day r = day \<and> counts (fr_state r)"

definition reserveFablesTurnover :: "fables_request \<Rightarrow> int \<Rightarrow> int \<Rightarrow> db \<Rightarrow> db res" where
  "reserveFablesTurnover q amt limit d =
     (if amt < 0 \<or> limit \<le> 0 then Inl (JsError ''E_FABLES_DAILY_LIMIT'')
      else
        let day = fq_now q div 86400; t = toLower (fq_quoteToken q); k = (fq_jobId q, fq_ordinal q);
            used = sum_where (\<lambda>r. fables_bucket (fq_walletId q) t day r \<and> fables_turnover_key r \<noteq> k) fr_amount
                     (fables_turnover d)
        in if used + amt > limit then Inl (JsError ''E_FABLES_DAILY_LIMIT'')
           else
             (case get_where (\<lambda>r. fables_turnover_key r = k) (fables_turnover d) of
                Some existing \<Rightarrow>
                  if fr_state existing \<noteq> Reserved then Inl (JsError ''E_FABLES_TURNOVER_FINAL'')
                  else Inr (d\<lparr>fables_turnover := update_where (\<lambda>r. fables_turnover_key r = k)
                         (\<lambda>r. r\<lparr>fr_day := day, fr_amount := amt, fr_state := Reserved, fr_updated := fq_now q\<rparr>)
                         (fables_turnover d)\<rparr>)
              | None \<Rightarrow>
                  fk (exists_where (\<lambda>j. fj_id j = fq_jobId q) (fables_jobs d) \<and> wallet_exists (fq_walletId q) d)
                    (Inr (d\<lparr>fables_turnover := fables_turnover d @
                       [\<lparr>fr_job_id = fq_jobId q, fr_ordinal = fq_ordinal q, fr_wallet_id = fq_walletId q,
                         fr_token = t, fr_day = day, fr_amount = amt, fr_state = Reserved,
                         fr_updated = fq_now q\<rparr>]\<rparr>))))"

definition markFablesTurnover :: "string \<Rightarrow> int \<Rightarrow> reservation \<Rightarrow> int \<Rightarrow> db \<Rightarrow> db res" where
  "markFablesTurnover j ordinal st now d =
     (let hit = (\<lambda>r. fables_turnover_key r = (j, ordinal)) in
      if count_where hit (fables_turnover d) \<noteq> 1 then Inl (JsError ''E_FABLES_TURNOVER_MISSING'')
      else Inr (d\<lparr>fables_turnover := update_where hit (\<lambda>r. r\<lparr>fr_state := st, fr_updated := now\<rparr>)
             (fables_turnover d)\<rparr>))"

section \<open>Ending a job\<close>

definition new_monitor :: "string \<Rightarrow> int \<Rightarrow> int option \<Rightarrow> string option \<Rightarrow> int \<Rightarrow> fables_monitor_row" where
  "new_monitor s rv cooldown err now =
     \<lparr>fm_strategy_id = s, fm_revision = rv, fm_out_side = None, fm_out_since = None,
      fm_cooldown_until = cooldown, fm_last_tick = None, fm_last_block = None, fm_error = err, fm_updated = now\<rparr>"

definition mutation_exists :: "string \<Rightarrow> db \<Rightarrow> bool" where
  "mutation_exists i d \<longleftrightarrow>
     list_ex (\<lambda>t. in_flight (ft_state t) \<or>
        ft_state t = Confirmed \<and> ft_stage t \<notin> {FFeeConversionApproval, FSwapApproval, FDepositApproval})
       (fablesJobTransactions i d)"

definition failFablesJobBeforeMutation ::
  "fables_strategy_config parser \<Rightarrow> string \<Rightarrow> string \<Rightarrow> int \<Rightarrow> db \<Rightarrow> db res" where
  "failFablesJobBeforeMutation parseSaved i code now d =
     bindR (fablesJobById parseSaved i d) (\<lambda>job.
     (case job of
        None \<Rightarrow> Inl (JsError ''E_FABLES_JOB_CLOSED'')
      | Some row \<Rightarrow>
          if \<not> is_open (fj_state row) then Inl (JsError ''E_FABLES_JOB_CLOSED'')
          else if mutation_exists i d then Inl (JsError ''E_FABLES_MUTATION_EXISTS'')
          else
            let short = take 160 code; s = fj_strategy_id row; rv = f_revision (fj_config row);
                until = now + max 300 (f_cooldownMinutes (fj_config row) * 60) in
            bindR (update_fables_jobs (\<lambda>j. fj_id j = i)
                     (\<lambda>j. j\<lparr>fj_state := Failed, fj_error := Some short, fj_updated := now\<rparr>) d) (\<lambda>d.
            bindR (upsert_monitor
                     (\<lambda>m. m\<lparr>fm_revision := rv, fm_out_side := None, fm_out_since := None,
                            fm_cooldown_until := Some until, fm_error := Some short, fm_updated := now\<rparr>)
                     (new_monitor s rv (Some until) (Some short) now) d) (\<lambda>d.
            Inr (set_fables_strategy s ''paused'' now d)))))"

definition cancelFablesJobBackInRange :: "fables_strategy_config parser \<Rightarrow> string \<Rightarrow> int \<Rightarrow> db \<Rightarrow> db res" where
  "cancelFablesJobBackInRange parseSaved i now d =
     bindR (fablesJobById parseSaved i d) (\<lambda>job.
     (case job of
        None \<Rightarrow> Inl (JsError ''E_FABLES_JOB_STAGE'')
      | Some row \<Rightarrow>
          if \<not> is_open (fj_state row) \<or> fj_stage row \<noteq> FPrecheck then Inl (JsError ''E_FABLES_JOB_STAGE'')
          else if fablesJobTransactions i d \<noteq> [] then Inl (JsError ''E_FABLES_MUTATION_EXISTS'')
          else
            let s = fj_strategy_id row; rv = f_revision (fj_config row) in
            bindR (update_fables_jobs (\<lambda>j. fj_id j = i)
                     (\<lambda>j. j\<lparr>fj_state := Cancelled, fj_error := Some ''E_FABLES_BACK_IN_RANGE'', fj_updated := now\<rparr>) d) (\<lambda>d.
            bindR (upsert_monitor (\<lambda>_. new_monitor s rv None None now) (new_monitor s rv None None now) d) (\<lambda>d.
            Inr (set_fables_strategy s ''monitoring'' now d)))))"

definition completeFablesJob ::
  "fables_strategy_config parser \<Rightarrow> string \<Rightarrow> fables_position_ref \<Rightarrow> fables_ledger_row list \<Rightarrow> int \<Rightarrow> db \<Rightarrow>
   (fables_strategy_config \<times> db) res" where
  "completeFablesJob parseSaved i newRef facts now d =
     bindR (fablesJobById parseSaved i d) (\<lambda>job.
     (case job of
        None \<Rightarrow> Inl (JsError ''E_FABLES_JOB_STAGE'')
      | Some row \<Rightarrow>
          if fj_state row \<notin> {Running, Recovery} \<or> fj_stage row \<noteq> FVerify then Inl (JsError ''E_FABLES_JOB_STAGE'')
          else if list_ex (\<lambda>t. in_flight (ft_state t)) (fablesJobTransactions i d)
          then Inl (JsError ''E_FABLES_TX_UNRESOLVED'')
          else
            let s = fj_strategy_id row in
            (case get_where (\<lambda>r. fst_id r = s) (fables_strategies d) of
               None \<Rightarrow> Inl (JsError ''E_FABLES_STRATEGY_MISSING'')
             | Some strategy \<Rightarrow>
                 bindR (parseSaved (fst_config strategy)) (\<lambda>current.
                 if f_revision current \<noteq> f_revision (fj_config row) \<or>
                    toLower (ref_poolId (positionRef current)) \<noteq> toLower (ref_poolId (positionRef (fj_config row))) \<or>
                    rangeId (positionRef current) \<noteq> rangeId (positionRef (fj_config row))
                 then Inl (JsError ''E_FABLES_CONFIG_CHANGED'')
                 else
                   bindR (parseSaved (current\<lparr>positionRef := newRef, f_revision := f_revision current + 1,
                                              f_updatedAt := now\<rparr>)) (\<lambda>nxt.
                   bindR (foldR appendFablesLedger
                            (map (\<lambda>f. f\<lparr>fl_strategy_id := s, fl_job_id := i, fl_ts := now\<rparr>) facts) d) (\<lambda>d.
                   bindR (write_fables_strategies (update_where (\<lambda>r. fst_id r = s)
                            (\<lambda>r. r\<lparr>fst_config := nxt, fst_pool_id := toLower (ref_poolId newRef),
                                   fst_hook := toLower (ref_hook newRef), fst_range_id := rangeId newRef,
                                   fst_state := ''monitoring'', fst_updated := now\<rparr>) (fables_strategies d)) d) (\<lambda>d.
                   let m = new_monitor s (f_revision nxt) (Some (now + f_cooldownMinutes nxt * 60)) None now in
                   bindR (upsert_monitor (\<lambda>_. m) m d) (\<lambda>d.
                   bindR (update_fables_jobs (\<lambda>j. fj_id j = i)
                            (\<lambda>j. j\<lparr>fj_state := Completed, fj_error := None, fj_updated := now\<rparr>) d) (\<lambda>d.
                     Inr (nxt, d))))))))))"

end
