(* ===== verification/FablesLifecycle.thy ===== *)
theory FablesLifecycle
  imports FablesStore FablesCycle
begin

text \<open>
  What \<open>executor/fablesJobs.ts\<close> promises: the daily turnover budget of a wallet, one open job
  per wallet across both engines, no failure after a mutation, and the completion that moves the
  strategy, its monitor, its job and its ledger together.
\<close>

section \<open>The turnover reservations as a budget\<close>

definition fables_turnover_ok :: "db \<Rightarrow> bool" where
  "fables_turnover_ok d \<longleftrightarrow>
     keys_ok fables_turnover_key (fables_turnover d) \<and> (\<forall>r \<in> set (fables_turnover d). 0 \<le> fr_amount r)"

type_synonym fables_bucket_id = "string \<times> string \<times> int"

definition fables_used :: "fables_bucket_id \<Rightarrow> db \<Rightarrow> int" where
  "fables_used b d = (case b of (w, t, day) \<Rightarrow> sum_where (fables_bucket w t day) fr_amount (fables_turnover d))"

definition fables_request_bucket :: "fables_request \<Rightarrow> db \<Rightarrow> fables_bucket_id" where
  "fables_request_bucket q d = (fq_walletId q, toLower (fq_quoteToken q), fq_now q div 86400)"

text \<open>A job's reservation, when it is repeated, is for the same wallet and token.\<close>

definition fables_request_fits :: "fables_request \<Rightarrow> db \<Rightarrow> bool" where
  "fables_request_fits q d \<longleftrightarrow>
     (\<forall>r \<in> set (fables_turnover d). fables_turnover_key r = (fq_jobId q, fq_ordinal q) \<longrightarrow>
        fr_wallet_id r = fq_walletId q \<and> fr_token r = toLower (fq_quoteToken q))"

definition fables_reservation :: "fables_request \<Rightarrow> int \<Rightarrow> fables_turnover_row" where
  "fables_reservation q amt =
     \<lparr>fr_job_id = fq_jobId q, fr_ordinal = fq_ordinal q, fr_wallet_id = fq_walletId q,
      fr_token = toLower (fq_quoteToken q), fr_day = fq_now q div 86400, fr_amount = amt, fr_state = Reserved,
      fr_updated = fq_now q\<rparr>"

definition fables_renew :: "fables_request \<Rightarrow> int \<Rightarrow> fables_turnover_row \<Rightarrow> fables_turnover_row" where
  "fables_renew q amt r =
     r\<lparr>fr_day := fq_now q div 86400, fr_amount := amt, fr_state := Reserved, fr_updated := fq_now q\<rparr>"

lemma fables_turnover_key_simps [simp]:
  "fables_turnover_key (fables_renew q amt r) = fables_turnover_key r"
  "fables_turnover_key (fables_reservation q amt) = (fq_jobId q, fq_ordinal q)"
  by (simp_all add: fables_turnover_key_def fables_renew_def fables_reservation_def)

lemma fables_reserve_cases:
  assumes "reserveFablesTurnover q amt limit d = Inr d'"
  obtains (insert) "0 \<le> amt" "\<forall>r \<in> set (fables_turnover d). fables_turnover_key r \<noteq> (fq_jobId q, fq_ordinal q)"
      "fables_used (fables_request_bucket q d) d + amt \<le> limit"
      "d' = d\<lparr>fables_turnover := fables_turnover d @ [fables_reservation q amt]\<rparr>"
  | (update) r where "0 \<le> amt"
      "get_where (\<lambda>r. fables_turnover_key r = (fq_jobId q, fq_ordinal q)) (fables_turnover d) = Some r"
      "fr_state r = Reserved"
      "sum_where (\<lambda>r. fables_bucket (fq_walletId q) (toLower (fq_quoteToken q)) (fq_now q div 86400) r \<and>
           fables_turnover_key r \<noteq> (fq_jobId q, fq_ordinal q)) fr_amount (fables_turnover d) + amt \<le> limit"
      "d' = d\<lparr>fables_turnover := update_where (\<lambda>r. fables_turnover_key r = (fq_jobId q, fq_ordinal q))
         (fables_renew q amt) (fables_turnover d)\<rparr>"
proof (cases "get_where (\<lambda>r. fables_turnover_key r = (fq_jobId q, fq_ordinal q)) (fables_turnover d)")
  case None
  then have free: "\<forall>r \<in> set (fables_turnover d). fables_turnover_key r \<noteq> (fq_jobId q, fq_ordinal q)"
    by (simp only: get_where_None_iff not_False_eq_True)
  have "sum_where (\<lambda>r. fables_bucket (fq_walletId q) (toLower (fq_quoteToken q)) (fq_now q div 86400) r \<and>
      fables_turnover_key r \<noteq> (fq_jobId q, fq_ordinal q)) fr_amount (fables_turnover d)
    = fables_used (fables_request_bucket q d) d"
    unfolding fables_used_def fables_request_bucket_def prod.case using free by (intro sum_where_absent) auto
  with assms None show ?thesis
    by (intro insert [OF _ free])
      (auto simp: reserveFablesTurnover_def Let_def fk_def fables_reservation_def split: if_split_asm)
next
  case (Some r)
  show ?thesis
    by (rule update [OF _ Some]; use assms Some in
      \<open>simp add: reserveFablesTurnover_def Let_def fables_renew_def [abs_def] split: if_split_asm\<close>)
qed

lemma fables_reserve_ok:
  assumes "fables_turnover_ok d" and "reserveFablesTurnover q amt limit d = Inr d'"
  shows "fables_turnover_ok d'"
  using assms(2)
proof (cases rule: fables_reserve_cases)
  case insert
  with assms(1) show ?thesis
    by (auto simp: fables_turnover_ok_def keys_ok_snoc) (simp add: fables_reservation_def)
next
  case (update r)
  have "keys_ok fables_turnover_key (fables_turnover d')"
    using update assms(1) by (auto simp: fables_turnover_ok_def intro: keys_ok_update)
  moreover have "\<forall>r \<in> set (fables_turnover d'). 0 \<le> fr_amount r"
    using update assms(1) by (auto simp: fables_turnover_ok_def set_update_where fables_renew_def)
  ultimately show ?thesis by (simp add: fables_turnover_ok_def)
qed

lemma fables_reserve_within:
  assumes "fables_turnover_ok d" and "reserveFablesTurnover q amt limit d = Inr d'"
  shows "fables_used (fables_request_bucket q d) d' \<le> limit"
  using assms(2)
proof (cases rule: fables_reserve_cases)
  case insert
  then show ?thesis
    by (simp add: fables_used_def fables_request_bucket_def fables_reservation_def)
next
  case (update r)
  let ?k = "(fq_jobId q, fq_ordinal q)"
  let ?p = "fables_bucket (fq_walletId q) (toLower (fq_quoteToken q)) (fq_now q div 86400)"
  have "fables_used (fables_request_bucket q d) d'
      = sum_where ?p fr_amount (update_where (\<lambda>r. fables_turnover_key r = ?k) (fables_renew q amt) (fables_turnover d))"
    using update by (simp add: fables_used_def fables_request_bucket_def)
  also have "\<dots> = sum_where (\<lambda>r. ?p r \<and> fables_turnover_key r \<noteq> ?k) fr_amount (fables_turnover d) +
      (if ?p (fables_renew q amt r) then fr_amount (fables_renew q amt r) else 0)"
    by (rule sum_where_update_one [OF conjunct1 [OF assms(1) [unfolded fables_turnover_ok_def]] update(2)]) simp
  also have "\<dots> \<le> limit" using update(1,4) by (simp add: fables_renew_def)
  finally show ?thesis .
qed

lemma fables_reserve_other:
  assumes ok: "fables_turnover_ok d" and fit: "fables_request_fits q d"
    and r: "reserveFablesTurnover q amt limit d = Inr d'" and b: "b \<noteq> fables_request_bucket q d"
  shows "fables_used b d' \<le> fables_used b d"
  using r
proof (cases rule: fables_reserve_cases)
  case insert
  with b show ?thesis
    by (cases b) (auto simp: fables_used_def fables_request_bucket_def fables_reservation_def fables_bucket_def)
next
  case (update r)
  obtain w t day where bb: "b = (w, t, day)" by (cases b)
  have "sum_where (fables_bucket w t day) fr_amount
        (update_where (\<lambda>r. fables_turnover_key r = (fq_jobId q, fq_ordinal q)) (fables_renew q amt) (fables_turnover d))
      \<le> sum_where (fables_bucket w t day) fr_amount (fables_turnover d)"
  proof (rule sum_where_update_le)
    fix y
    assume y: "y \<in> set (fables_turnover d)" "fables_turnover_key y = (fq_jobId q, fq_ordinal q)"
    then have "fr_wallet_id y = fq_walletId q" "fr_token y = toLower (fq_quoteToken q)"
      using fit by (simp_all add: fables_request_fits_def)
    moreover have "0 \<le> fr_amount y" using ok y by (simp add: fables_turnover_ok_def)
    ultimately show "(if fables_bucket w t day (fables_renew q amt y) then fr_amount (fables_renew q amt y) else 0)
        \<le> (if fables_bucket w t day y then fr_amount y else 0)"
      using b bb by (auto simp: fables_bucket_def fables_renew_def fables_request_bucket_def)
  qed
  then show ?thesis by (simp add: fables_used_def bb update(5))
qed

interpretation fables_budget:
  budget fables_turnover_ok fables_used fables_request_bucket fables_request_fits reserveFablesTurnover
  by unfold_locales (fact fables_reserve_ok fables_reserve_within [THEN disjI1] fables_reserve_other)+


text \<open>
  The daily caps of all Fables wallets hold together: over any sequence of reservations in
  which a repeated reservation keeps its wallet and token, each checked against its wallet's
  limit and skipped when refused, no wallet ever uses more of a token on one day than its limit
  if none did at the start.
\<close>

theorem fables_reservations_never_exceed_limits:
  assumes "fables_turnover_ok d" and "fables_budget.all_fit L xs d"
    and "\<forall>w t day. fables_used (w, t, day) d \<le> L (w, t, day)"
  shows "fables_used (w, t, day) (fables_budget.reserve_all L xs d) \<le> L (w, t, day)"
  using fables_budget.reserve_all_within [of d L xs] assms by auto

section \<open>Creating a job\<close>

lemma set_fables_strategy_frame [simp]:
  "jobs (set_fables_strategy i s now d) = jobs d"
  "strategies (set_fables_strategy i s now d) = strategies d"
  "wallets (set_fables_strategy i s now d) = wallets d"
  "fables_jobs (set_fables_strategy i s now d) = fables_jobs d"
  "fables_txs (set_fables_strategy i s now d) = fables_txs d"
  "fables_ledger (set_fables_strategy i s now d) = fables_ledger d"
  "fables_turnover (set_fables_strategy i s now d) = fables_turnover d"
  "fables_monitors (set_fables_strategy i s now d) = fables_monitors d"
  by (simp_all add: set_fables_strategy_def)

lemma get_set_fables_strategy:
  "get_where (\<lambda>r. fst_id r = i) (fables_strategies (set_fables_strategy i s now d))
   = map_option (\<lambda>r. r\<lparr>fst_state := s, fst_updated := now\<rparr>) (get_where (\<lambda>r. fst_id r = i) (fables_strategies d))"
  unfolding set_fables_strategy_def by (simp add: get_update_same)

lemma wallet_job_open_cong:
  "jobs d' = jobs d \<Longrightarrow> strategies d' = strategies d \<Longrightarrow> wallet_job_open w d' = wallet_job_open w d"
  by (simp add: wallet_job_open_def job_wallet_def strategy_of_def)

lemma wallet_fables_open_filter:
  "\<not> wallet_fables_open w d \<longleftrightarrow> filter (\<lambda>j. fj_wallet_id j = w \<and> is_open (fj_state j)) (fables_jobs d) = []"
  by (auto simp: wallet_fables_open_def exists_where_def list_ex_iff filter_empty_conv)

lemma insert_fables_job_Inr:
  "insert_fables_job r d = Inr d' \<Longrightarrow> d' = d\<lparr>fables_jobs := fables_jobs d @ [r]\<rparr> \<and>
     (\<forall>j \<in> set (fables_jobs d). fj_id j \<noteq> fj_id r) \<and> one_open_fables_job (fables_jobs d @ [r])"
  by (auto simp: insert_fables_job_def fk_def write_fables_jobs_def insert_row_Inr bindR_eq_Inr split: if_split_asm)

text \<open>
  C12. A Fables job is created only for a strategy that is ready under exactly the submitted
  configuration, and it takes its wallet exclusively: when creation succeeds, the wallet's owner
  is the strategy's, no ordinary job of that wallet is open, the new job in state planned is the
  only open Fables job of that wallet, the strategy is executing, and nothing else was written.
\<close>

theorem createFablesJob_exclusive:
  assumes "createFablesJob parse fresh config now d = Inr d'"
  shows "\<exists>c w a r. parse config = Inr c \<and> f_walletId (f_execution c) = Some w \<and>
     walletById w d = Some a \<and> toLower (w_address a) = toLower (f_owner c) \<and>
     get_where (\<lambda>r. fst_id r = f_id c) (fables_strategies d) = Some r \<and> fst_state r = ''dry_run_ready'' \<and>
     parse (fst_config r) = Inr c \<and> \<not> wallet_job_open w d' \<and>
     filter (\<lambda>j. fj_wallet_id j = w \<and> is_open (fj_state j)) (fables_jobs d') = [new_fables_job fresh c w now] \<and>
     d' = set_fables_strategy (f_id c) ''executing'' now
            (d\<lparr>fables_jobs := fables_jobs d @ [new_fables_job fresh c w now]\<rparr>)"
proof -
  obtain c where c: "parse config = Inr c" using assms by (auto simp: createFablesJob_def bindR_eq_Inr)
  obtain w where w: "f_walletId (f_execution c) = Some w"
    using assms c by (cases "f_walletId (f_execution c)") (simp_all add: createFablesJob_def)
  obtain a where a: "walletById w d = Some a" "toLower (w_address a) = toLower (f_owner c)"
    using assms c w by (cases "walletById w d") (auto simp: createFablesJob_def split: if_split_asm)
  obtain r where r: "get_where (\<lambda>r. fst_id r = f_id c) (fables_strategies d) = Some r"
    using assms c w a by (cases "get_where (\<lambda>r. fst_id r = f_id c) (fables_strategies d)")
      (simp_all add: createFablesJob_def split: if_split_asm)
  have st: "fst_state r = ''dry_run_ready''" and pr: "parse (fst_config r) = Inr c"
    and free: "\<not> wallet_job_open w d" "\<not> wallet_fables_open w d"
    and ins: "bindR (insert_fables_job (new_fables_job fresh c w now) d)
        (\<lambda>d. Inr (set_fables_strategy (f_id c) ''executing'' now d)) = Inr d'"
    using assms c w a r by (auto simp: createFablesJob_def bindR_eq_Inr split: if_split_asm)
  then have d': "d' = set_fables_strategy (f_id c) ''executing'' now
            (d\<lparr>fables_jobs := fables_jobs d @ [new_fables_job fresh c w now]\<rparr>)"
    by (auto simp: bindR_eq_Inr dest!: insert_fables_job_Inr)
  have "filter (\<lambda>j. fj_wallet_id j = w \<and> is_open (fj_state j)) (fables_jobs d') = [new_fables_job fresh c w now]"
    using free(2) by (simp add: d' wallet_fables_open_filter new_fables_job_def is_open_def)
  moreover have "\<not> wallet_job_open w d'" using free(1) wallet_job_open_cong [of d' d w] by (simp add: d')
  ultimately show ?thesis using c w a r st pr d' by blast
qed


section \<open>Ending a job\<close>

lemma fablesJobById_Inr:
  "fablesJobById parse i d = Inr (Some row) \<longleftrightarrow>
     (\<exists>j c. get_where (\<lambda>j. fj_id j = i) (fables_jobs d) = Some j \<and> parse (fj_config j) = Inr c \<and>
        row = j\<lparr>fj_config := c\<rparr>)"
  by (auto simp: fablesJobById_def bindR_eq_Inr split: option.splits)

lemma update_fables_jobs_Inr:
  "update_fables_jobs p f d = Inr d' \<longleftrightarrow>
     one_open_fables_job (update_where p f (fables_jobs d)) \<and> d' = d\<lparr>fables_jobs := update_where p f (fables_jobs d)\<rparr>"
  by (auto simp: update_fables_jobs_def write_fables_jobs_def)

lemma filter_update_where_closed:
  assumes "\<And>j. p j \<Longrightarrow> \<not> q (f j)"
  shows "filter q (update_where p f js) = filter (\<lambda>j. q j \<and> \<not> p j) js"
  using assms by (induction js) (auto simp: update_where_def)

text \<open>Closing jobs never conflicts with the indexes on open jobs.\<close>

lemma close_fables_jobs:
  assumes "one_open_fables_job (fables_jobs d)" and "\<And>j. p j \<Longrightarrow> \<not> is_open (fj_state (f j))"
  shows "update_fables_jobs p f d = Inr (d\<lparr>fables_jobs := update_where p f (fables_jobs d)\<rparr>)"
proof -
  have "filter (\<lambda>j. is_open (fj_state j) \<and> \<not> p j) js = filter (\<lambda>j. \<not> p j) (filter (\<lambda>j. is_open (fj_state j)) js)" for js
    by simp
  then have "one_open_fables_job (update_where p f (fables_jobs d))"
    using assms(1) unfolding one_open_fables_job_def
    by (simp only: filter_update_where_closed [of p "\<lambda>j. is_open (fj_state j)" f, OF assms(2)] distinct_map_filter)
  then show ?thesis by (simp add: update_fables_jobs_Inr)
qed

text \<open>Writing a whole row under its key.\<close>

lemma get_upsert_row: "get_where (\<lambda>x. key x = key r) (upsert key (\<lambda>_. r) r t) = Some r"
  by (induction t) (auto simp: upsert_def get_where_def update_where_def)

lemma upsert_monitor_Inr:
  "upsert_monitor f row d = Inr d' \<longleftrightarrow> fables_strategy_exists (fm_strategy_id row) d \<and>
     d' = d\<lparr>fables_monitors := upsert fm_strategy_id f row (fables_monitors d)\<rparr>"
  by (auto simp: upsert_monitor_def fk_def)

lemma fables_strategy_exists_frame [simp]:
  "fables_strategy_exists s (d\<lparr>fables_jobs := x\<rparr>) = fables_strategy_exists s d"
  "fables_strategy_exists s (d\<lparr>fables_monitors := y\<rparr>) = fables_strategy_exists s d"
  "fables_strategy_exists s (d\<lparr>fables_ledger := z\<rparr>) = fables_strategy_exists s d"
  by (simp_all add: fables_strategy_exists_def)

text \<open>
  C32. A Fables job is failed exactly when nothing irrevocable happened: for an open job with a
  readable configuration, failing succeeds if and only if none of its transactions is in flight
  and none but token approvals is confirmed.  It then closes the job with the (shortened) code,
  pauses the strategy, arms a cooldown of at least five minutes, and leaves every transaction,
  ledger fact and turnover reservation as it was.
\<close>

theorem failFablesJobBeforeMutation_iff:
  assumes "get_where (\<lambda>j. fj_id j = i) (fables_jobs d) = Some j" and "parseSaved (fj_config j) = Inr c"
    and "one_open_fables_job (fables_jobs d)" and "fables_strategy_exists (fj_strategy_id j) d"
  shows "case failFablesJobBeforeMutation parseSaved i code now d of
      Inl e \<Rightarrow> e \<in> {JsError ''E_FABLES_JOB_CLOSED'', JsError ''E_FABLES_MUTATION_EXISTS''} \<and>
        (\<not> is_open (fj_state j) \<or>
         (\<exists>t \<in> set (fablesJobTransactions i d). in_flight (ft_state t) \<or> ft_state t = Confirmed \<and>
            ft_stage t \<notin> {FFeeConversionApproval, FSwapApproval, FDepositApproval}))
    | Inr d' \<Rightarrow> is_open (fj_state j) \<and>
        (\<forall>t \<in> set (fablesJobTransactions i d). \<not> in_flight (ft_state t) \<and> (ft_state t = Confirmed \<longrightarrow>
            ft_stage t \<in> {FFeeConversionApproval, FSwapApproval, FDepositApproval})) \<and>
        get_where (\<lambda>j. fj_id j = i) (fables_jobs d')
          = Some (j\<lparr>fj_state := Failed, fj_error := Some (take 160 code), fj_updated := now\<rparr>) \<and>
        (\<exists>m r. get_where (\<lambda>m. fm_strategy_id m = fj_strategy_id j) (fables_monitors d') = Some m \<and>
           fm_cooldown_until m = Some (now + max 300 (f_cooldownMinutes c * 60)) \<and> fm_out_since m = None \<and>
           get_where (\<lambda>r. fst_id r = fj_strategy_id j) (fables_strategies d') = Some r \<and> fst_state r = ''paused'') \<and>
        fables_txs d' = fables_txs d \<and> fables_ledger d' = fables_ledger d \<and> fables_turnover d' = fables_turnover d"
proof -
  let ?s = "fj_strategy_id j" and ?u = "now + max 300 (f_cooldownMinutes c * 60)"
  let ?f = "\<lambda>m. m\<lparr>fm_revision := f_revision c, fm_out_side := None, fm_out_since := None,
      fm_cooldown_until := Some ?u, fm_error := Some (take 160 code), fm_updated := now\<rparr>"
  let ?row = "new_monitor ?s (f_revision c) (Some ?u) (Some (take 160 code)) now"
  let ?g = "\<lambda>j. j\<lparr>fj_state := Failed, fj_error := Some (take 160 code), fj_updated := now\<rparr>"
  have job: "fablesJobById parseSaved i d = Inr (Some (j\<lparr>fj_config := c\<rparr>))"
    using assms(1,2) by (auto simp: fablesJobById_Inr)
  have upd: "update_fables_jobs (\<lambda>j. fj_id j = i) ?g d
      = Inr (d\<lparr>fables_jobs := update_where (\<lambda>j. fj_id j = i) ?g (fables_jobs d)\<rparr>)"
    by (rule close_fables_jobs [OF assms(3)]) (simp add: is_open_def)
  have run: "failFablesJobBeforeMutation parseSaved i code now d =
    (if \<not> is_open (fj_state j) then Inl (JsError ''E_FABLES_JOB_CLOSED'')
     else if mutation_exists i d then Inl (JsError ''E_FABLES_MUTATION_EXISTS'')
     else Inr (set_fables_strategy ?s ''paused'' now
       (d\<lparr>fables_jobs := update_where (\<lambda>j. fj_id j = i) ?g (fables_jobs d),
          fables_monitors := upsert fm_strategy_id ?f ?row (fables_monitors d)\<rparr>)))"
    using assms(4) by (simp add: failFablesJobBeforeMutation_def job upd Let_def upsert_monitor_def fk_def new_monitor_def)
  have mon: "\<exists>m. get_where (\<lambda>m. fm_strategy_id m = ?s) (upsert fm_strategy_id ?f ?row (fables_monitors d)) = Some m \<and>
      fm_cooldown_until m = Some ?u \<and> fm_out_since m = None"
    by (subst get_upsert) (auto simp: new_monitor_def split: option.splits)
  obtain r where "get_where (\<lambda>r. fst_id r = ?s) (fables_strategies d) = Some r"
    using assms(4) by (cases "get_where (\<lambda>r. fst_id r = ?s) (fables_strategies d)")
      (auto simp: get_where_None_iff fables_strategy_exists_def exists_where_def list_ex_iff)
  moreover have "get_where (\<lambda>j. fj_id j = i) (update_where (\<lambda>j. fj_id j = i) ?g (fables_jobs d)) = Some (?g j)"
    using assms(1) by (subst get_update_same) simp_all
  ultimately show ?thesis
    using mon by (auto simp: run mutation_exists_def list_ex_iff get_set_fables_strategy)
qed


section \<open>Ledger facts and completion\<close>

text \<open>\<open>one_fables_ledger_fact_per_receipt\<close>.\<close>

definition fables_facts_once :: "fables_ledger_row list \<Rightarrow> bool" where
  "fables_facts_once t \<longleftrightarrow> distinct (map fables_fact_key (filter (\<lambda>r. fl_tx_hash r \<noteq> None) t))"

definition fact_count :: "fables_ledger_row \<Rightarrow> db \<Rightarrow> int" where
  "fact_count r d = count_where
     (\<lambda>x. fl_tx_hash x \<noteq> None \<and> fables_fact_key x = fables_fact_key (r\<lparr>fl_token := map_option toLower (fl_token r)\<rparr>))
     (fables_ledger d)"

lemma distinct_count_le:
  assumes "distinct (map f (filter p t))"
  shows "length (filter (\<lambda>x. p x \<and> f x = k) t) \<le> 1"
  using assms
proof (induction t)
  case (Cons a t)
  show ?case
  proof (cases "p a \<and> f a = k")
    case True
    then have "filter (\<lambda>x. p x \<and> f x = k) t = []" using Cons.prems
      by (auto simp: filter_empty_conv) (metis (mono_tags, lifting) imageI mem_Collect_eq)
    then show ?thesis by simp
  next
    case False
    then show ?thesis using Cons by (auto split: if_split_asm)
  qed
qed simp

lemma fact_count_le: "fables_facts_once (fables_ledger d) \<Longrightarrow> fact_count r d \<le> 1"
  using distinct_count_le [of fables_fact_key "\<lambda>r. fl_tx_hash r \<noteq> None" "fables_ledger d"]
  by (simp add: fables_facts_once_def fact_count_def count_where_def)

lemma appendFablesLedger_Inr:
  assumes "appendFablesLedger r d = Inr d'" and "fables_facts_once (fables_ledger d)"
  shows "\<exists>t. d' = d\<lparr>fables_ledger := fables_ledger d @ t\<rparr> \<and> fables_facts_once (fables_ledger d') \<and>
     (fl_tx_hash r \<noteq> None \<longrightarrow> 1 \<le> fact_count r d')"
proof (cases "fl_tx_hash r \<noteq> None \<and> exists_where (\<lambda>x. fl_tx_hash x \<noteq> None \<and>
    fables_fact_key x = fables_fact_key (r\<lparr>fl_token := map_option toLower (fl_token r)\<rparr>)) (fables_ledger d)")
  case True
  then have "d' = d" using assms(1) by (simp add: appendFablesLedger_def Let_def)
  moreover have "1 \<le> fact_count r d"
  proof -
    have "filter (\<lambda>x. fl_tx_hash x \<noteq> None \<and>
        fables_fact_key x = fables_fact_key (r\<lparr>fl_token := map_option toLower (fl_token r)\<rparr>)) (fables_ledger d) \<noteq> []"
      using True by (auto simp: exists_where_def list_ex_iff filter_empty_conv)
    then show ?thesis by (simp add: fact_count_def count_where_def Suc_le_eq flip: length_greater_0_conv)
  qed
  ultimately show ?thesis using assms(2) by (intro exI [of _ "[]"]) simp
next
  case False
  then have "d' = d\<lparr>fables_ledger := fables_ledger d @ [r\<lparr>fl_token := map_option toLower (fl_token r)\<rparr>]\<rparr>"
    using assms(1) by (auto simp: appendFablesLedger_def Let_def fk_def split: if_split_asm)
  with False assms(2) show ?thesis
    by (intro exI [of _ "[r\<lparr>fl_token := map_option toLower (fl_token r)\<rparr>]"])
      (auto simp: fables_facts_once_def fact_count_def count_where_def exists_where_def list_ex_iff image_iff)
qed

lemma fact_count_grows: "fact_count r d \<le> fact_count r (d\<lparr>fables_ledger := fables_ledger d @ t\<rparr>)"
  by (simp add: fact_count_def count_where_def)

text \<open>Appending facts writes the ledger only, and leaves every fact with a receipt there exactly once.\<close>

lemma append_facts:
  assumes "foldR appendFablesLedger rs d = Inr d'" and "fables_facts_once (fables_ledger d)"
  shows "(\<exists>t. d' = d\<lparr>fables_ledger := fables_ledger d @ t\<rparr>) \<and> fables_facts_once (fables_ledger d') \<and>
     (\<forall>r \<in> set rs. fl_tx_hash r \<noteq> None \<longrightarrow> fact_count r d' = 1)"
  using assms
proof (induction rs arbitrary: d)
  case Nil
  then show ?case by (auto intro: exI [of _ "[]"])
next
  case (Cons r rs)
  then obtain d1 where d1: "appendFablesLedger r d = Inr d1" "foldR appendFablesLedger rs d1 = Inr d'"
    by (auto simp: bindR_eq_Inr)
  obtain t where t: "d1 = d\<lparr>fables_ledger := fables_ledger d @ t\<rparr>" "fables_facts_once (fables_ledger d1)"
    "fl_tx_hash r \<noteq> None \<longrightarrow> 1 \<le> fact_count r d1"
    using appendFablesLedger_Inr [OF d1(1) Cons.prems(2)] by blast
  from Cons.IH [OF d1(2) t(2)] obtain u where u: "d' = d1\<lparr>fables_ledger := fables_ledger d1 @ u\<rparr>"
    "fables_facts_once (fables_ledger d')" "\<forall>r \<in> set rs. fl_tx_hash r \<noteq> None \<longrightarrow> fact_count r d' = 1" by blast
  have "fl_tx_hash r \<noteq> None \<longrightarrow> fact_count r d' = 1"
    using t(3) fact_count_grows [of r d1 u] fact_count_le [OF u(2), of r] by (auto simp: u(1))
  moreover have "d' = d\<lparr>fables_ledger := fables_ledger d @ (t @ u)\<rparr>" by (simp add: u(1) t(1))
  ultimately show ?case using u(2,3) by (intro conjI exI ballI) auto
qed

definition cycle_fact :: "string \<Rightarrow> string \<Rightarrow> int \<Rightarrow> fables_ledger_row \<Rightarrow> fables_ledger_row" where
  "cycle_fact s i now f = f\<lparr>fl_strategy_id := s, fl_job_id := i, fl_ts := now\<rparr>"

lemma write_fables_strategies_Inr:
  "write_fables_strategies t d = Inr d' \<Longrightarrow> d' = d\<lparr>fables_strategies := t\<rparr>"
  by (auto simp: write_fables_strategies_def split: if_split_asm)

text \<open>
  C14. A finished cycle becomes visible as a whole: when completion succeeds, the job was being
  verified with no transaction in flight and its strategy was still the revision it started
  from; afterwards the strategy holds the re-parsed configuration with the new range and the
  next revision and is monitoring, its monitor row starts afresh with the configured cooldown,
  the job is completed, and the ledger holds every fact with a receipt exactly once.
\<close>

theorem completeFablesJob_atomic:
  assumes "completeFablesJob parseSaved i newRef facts now d = Inr (nxt, d')"
    and "fables_facts_once (fables_ledger d)"
  shows "\<exists>j c r cur. get_where (\<lambda>j. fj_id j = i) (fables_jobs d) = Some j \<and> parseSaved (fj_config j) = Inr c \<and>
     fj_state j \<in> {Running, Recovery} \<and> fj_stage j = FVerify \<and>
     (\<forall>t \<in> set (fablesJobTransactions i d). \<not> in_flight (ft_state t)) \<and>
     get_where (\<lambda>r. fst_id r = fj_strategy_id j) (fables_strategies d) = Some r \<and> parseSaved (fst_config r) = Inr cur \<and>
     f_revision cur = f_revision c \<and>
     parseSaved (cur\<lparr>positionRef := newRef, f_revision := f_revision c + 1, f_updatedAt := now\<rparr>) = Inr nxt \<and>
     get_where (\<lambda>j. fj_id j = i) (fables_jobs d')
       = Some (j\<lparr>fj_state := Completed, fj_error := None, fj_updated := now\<rparr>) \<and>
     (\<exists>r'. get_where (\<lambda>r. fst_id r = fj_strategy_id j) (fables_strategies d') = Some r' \<and> fst_config r' = nxt \<and>
        fst_state r' = ''monitoring'' \<and> fst_range_id r' = rangeId newRef) \<and>
     get_where (\<lambda>m. fm_strategy_id m = fj_strategy_id j) (fables_monitors d')
       = Some (new_monitor (fj_strategy_id j) (f_revision nxt) (Some (now + f_cooldownMinutes nxt * 60)) None now) \<and>
     (\<forall>f \<in> set facts. fl_tx_hash f \<noteq> None \<longrightarrow> fact_count (cycle_fact (fj_strategy_id j) i now f) d' = 1) \<and>
     fables_txs d' = fables_txs d \<and> fables_turnover d' = fables_turnover d"
proof -
  obtain row where row: "fablesJobById parseSaved i d = Inr (Some row)"
    using assms(1) by (auto simp: completeFablesJob_def bindR_eq_Inr split: option.splits)
  then obtain j c where j: "get_where (\<lambda>j. fj_id j = i) (fables_jobs d) = Some j" "parseSaved (fj_config j) = Inr c"
    "row = j\<lparr>fj_config := c\<rparr>"
    by (auto simp: fablesJobById_Inr)
  have st: "fj_state j \<in> {Running, Recovery}" "fj_stage j = FVerify"
    using assms(1) row j(3) by (auto simp: completeFablesJob_def split: if_split_asm)
  have fl: "\<not> list_ex (\<lambda>t. in_flight (ft_state t)) (fablesJobTransactions i d)"
    using assms(1) row j(3) st by (auto simp: completeFablesJob_def split: if_split_asm)
  obtain r where r: "get_where (\<lambda>r. fst_id r = fj_strategy_id j) (fables_strategies d) = Some r"
    using assms(1) row j(3) st fl
    by (cases "get_where (\<lambda>r. fst_id r = fj_strategy_id j) (fables_strategies d)")
      (auto simp: completeFablesJob_def Let_def split: if_split_asm)
  let ?s = "fj_strategy_id j"
  let ?upd = "\<lambda>nxt r. r\<lparr>fst_config := nxt, fst_pool_id := toLower (ref_poolId newRef),
      fst_hook := toLower (ref_hook newRef), fst_range_id := rangeId newRef, fst_state := ''monitoring'', fst_updated := now\<rparr>"
  let ?m = "\<lambda>nxt. new_monitor ?s (f_revision nxt) (Some (now + f_cooldownMinutes nxt * 60)) None now"
  let ?g = "\<lambda>j. j\<lparr>fj_state := Completed, fj_error := None, fj_updated := now\<rparr>"
  have body: "bindR (parseSaved (fst_config r)) (\<lambda>cur.
      if f_revision cur \<noteq> f_revision c \<or>
         toLower (ref_poolId (positionRef cur)) \<noteq> toLower (ref_poolId (positionRef c)) \<or>
         rangeId (positionRef cur) \<noteq> rangeId (positionRef c)
      then Inl (JsError ''E_FABLES_CONFIG_CHANGED'')
      else bindR (parseSaved (cur\<lparr>positionRef := newRef, f_revision := f_revision cur + 1, f_updatedAt := now\<rparr>)) (\<lambda>nxt.
        bindR (foldR appendFablesLedger (map (cycle_fact ?s i now) facts) d) (\<lambda>d.
        bindR (write_fables_strategies (update_where (\<lambda>r. fst_id r = ?s) (?upd nxt) (fables_strategies d)) d) (\<lambda>d.
        bindR (upsert_monitor (\<lambda>_. ?m nxt) (?m nxt) d) (\<lambda>d.
        bindR (update_fables_jobs (\<lambda>j. fj_id j = i) ?g d) (\<lambda>d. Inr (nxt, d))))))) = Inr (nxt, d')"
    using assms(1) row j(3) st fl r
    by (auto simp: completeFablesJob_def Let_def cycle_fact_def [abs_def] cong: if_cong split: if_split_asm)
  obtain cur where cur: "parseSaved (fst_config r) = Inr cur" using body by (auto simp: bindR_eq_Inr)
  have rv: "f_revision cur = f_revision c" using body cur by (auto split: if_split_asm)
  obtain d1 d2 d3 where nx: "parseSaved (cur\<lparr>positionRef := newRef, f_revision := f_revision cur + 1, f_updatedAt := now\<rparr>) = Inr nxt"
    and d1: "foldR appendFablesLedger (map (cycle_fact ?s i now) facts) d = Inr d1"
    and d2: "write_fables_strategies (update_where (\<lambda>r. fst_id r = ?s) (?upd nxt) (fables_strategies d1)) d1 = Inr d2"
    and d3: "upsert_monitor (\<lambda>_. ?m nxt) (?m nxt) d2 = Inr d3"
    and d4: "update_fables_jobs (\<lambda>j. fj_id j = i) ?g d3 = Inr d'"
    using body cur by (auto simp: bindR_eq_Inr split: if_split_asm)
  obtain t where t: "d1 = d\<lparr>fables_ledger := fables_ledger d @ t\<rparr>"
    and once: "\<forall>r \<in> set (map (cycle_fact ?s i now) facts). fl_tx_hash r \<noteq> None \<longrightarrow> fact_count r d1 = 1"
    using append_facts [OF d1 assms(2)] by auto
  note d' = write_fables_strategies_Inr [OF d2] d3 [unfolded upsert_monitor_Inr, THEN conjunct2]
    d4 [unfolded update_fables_jobs_Inr, THEN conjunct2]
  have jobs': "get_where (\<lambda>j. fj_id j = i) (fables_jobs d') = Some (?g j)"
    using j(1) get_update_same [of fj_id ?g i "fables_jobs d"] by (simp add: d' t)
  have mon': "get_where (\<lambda>m. fm_strategy_id m = ?s) (fables_monitors d') = Some (?m nxt)"
  proof -
    have "fables_monitors d' = upsert fm_strategy_id (\<lambda>_. ?m nxt) (?m nxt) (fables_monitors d)" by (simp add: d' t)
    moreover have "get_where (\<lambda>m. fm_strategy_id m = ?s) (upsert fm_strategy_id (\<lambda>_. ?m nxt) (?m nxt) ms) = Some (?m nxt)" for ms
      using get_upsert_row [of fm_strategy_id "?m nxt" ms] by (simp add: new_monitor_def)
    ultimately show ?thesis by simp
  qed
  have str': "get_where (\<lambda>r. fst_id r = ?s) (fables_strategies d') = Some (?upd nxt r)"
    using r get_update_same [of fst_id "?upd nxt" ?s "fables_strategies d"] by (simp add: d' t)
  have facts': "\<forall>f \<in> set facts. fl_tx_hash f \<noteq> None \<longrightarrow> fact_count (cycle_fact ?s i now f) d' = 1"
    using once by (auto simp: fact_count_def d' cycle_fact_def)
  have "fables_txs d' = fables_txs d" "fables_turnover d' = fables_turnover d" by (simp_all add: d' t)
  then show ?thesis
    using j(1,2) st fl r cur rv nx jobs' mon' str' facts'
    by (intro exI [of _ j] exI [of _ c] exI [of _ r] exI [of _ cur]) (simp add: list_ex_iff Ball_def)
qed


section \<open>Witnesses\<close>

definition keep_config :: "fables_strategy_config parser" where
  "keep_config c = Inr c"

definition sample_fables_row :: fables_strategy_row where
  "sample_fables_row = \<lparr>fst_id = ''f1'', fst_owner = ''0xaa'', fst_pool_id = ''0xp'', fst_hook = ''0xhk'',
     fst_range_id = ''5'', fst_wallet_id = Some ''w1'', fst_config = sample_fables, fst_enabled = True,
     fst_state = ''dry_run_ready'', fst_updated = 1\<rparr>"

definition fables_db :: db where
  "fables_db = sample_db\<lparr>fables_strategies := [sample_fables_row]\<rparr>"

definition fables_job :: fables_job_row where
  "fables_job = (new_fables_job ''fj1'' sample_fables ''w1'' 1000)\<lparr>fj_state := Running, fj_stage := FVerify\<rparr>"

definition fables_busy_db :: db where
  "fables_busy_db = fables_db\<lparr>fables_jobs := [fables_job]\<rparr>"

theorem createFablesJob_exclusive_witness:
  "\<exists>d'. createFablesJob keep_config ''fj1'' sample_fables 1000 fables_db = Inr d' \<and>
     (\<exists>c w. filter (\<lambda>j. fj_wallet_id j = w \<and> is_open (fj_state j)) (fables_jobs d') = [new_fables_job ''fj1'' c w 1000])"
proof -
  have "isInr (createFablesJob keep_config ''fj1'' sample_fables 1000 fables_db)" by code_simp
  then obtain d' where d': "createFablesJob keep_config ''fj1'' sample_fables 1000 fables_db = Inr d'"
    by (auto simp: isInr_iff)
  from createFablesJob_exclusive [OF this] d' show ?thesis by blast
qed

theorem failFablesJobBeforeMutation_iff_witness:
  "\<exists>d'. failFablesJobBeforeMutation keep_config ''fj1'' ''E_X'' 2000 fables_busy_db = Inr d' \<and>
     fables_txs d' = fables_txs fables_busy_db"
proof -
  have h: "get_where (\<lambda>j. fj_id j = ''fj1'') (fables_jobs fables_busy_db) = Some fables_job"
    "keep_config (fj_config fables_job) = Inr sample_fables"
    "one_open_fables_job (fables_jobs fables_busy_db)"
    "fables_strategy_exists (fj_strategy_id fables_job) fables_busy_db"
    by (simp_all add: fables_busy_db_def fables_job_def new_fables_job_def keep_config_def one_open_fables_job_def is_open_def
        fables_strategy_exists_def exists_where_def fables_db_def sample_fables_row_def sample_fables_def)
  have "isInr (failFablesJobBeforeMutation keep_config ''fj1'' ''E_X'' 2000 fables_busy_db)" by code_simp
  then obtain d' where d': "failFablesJobBeforeMutation keep_config ''fj1'' ''E_X'' 2000 fables_busy_db = Inr d'"
    by (auto simp: isInr_iff)
  from failFablesJobBeforeMutation_iff [where parseSaved = keep_config and i = "''fj1''" and d = fables_busy_db, OF h, of 2000 "''E_X''"] show ?thesis by (simp add: d')
qed

definition sample_fact :: fables_ledger_row where
  "sample_fact = \<lparr>fl_strategy_id = [], fl_job_id = [], fl_ts = 0, fl_block_number = Some 12, fl_tx_hash = Some ''0xh'',
     fl_kind = ''deposit'', fl_token = Some ''0xQQ'', fl_amount = Some 7, fl_meta = JNull\<rparr>"

theorem completeFablesJob_atomic_witness:
  "\<exists>nxt d'. completeFablesJob keep_config ''fj1'' (sample_ref\<lparr>rangeId := ''6''\<rparr>) [sample_fact, sample_fact] 2000 fables_busy_db
       = Inr (nxt, d') \<and> fact_count (cycle_fact ''f1'' ''fj1'' 2000 sample_fact) d' = 1"
proof -
  let ?run = "completeFablesJob keep_config ''fj1'' (sample_ref\<lparr>rangeId := ''6''\<rparr>) [sample_fact, sample_fact] 2000 fables_busy_db"
  have "isInr ?run" by code_simp
  then obtain nxt d' where d': "?run = Inr (nxt, d')" by (auto simp: isInr_iff)
  have once: "fables_facts_once (fables_ledger fables_busy_db)"
    by (simp add: fables_facts_once_def fables_busy_db_def fables_db_def sample_db_def empty_db_def)
  have "get_where (\<lambda>j. fj_id j = ''fj1'') (fables_jobs fables_busy_db) = Some fables_job"
    by (simp add: fables_busy_db_def fables_job_def new_fables_job_def)
  moreover have "fj_strategy_id fables_job = ''f1''"
    by (simp add: fables_job_def new_fables_job_def sample_fables_def)
  ultimately have s: "fj_strategy_id j = ''f1''"
    if "get_where (\<lambda>j. fj_id j = ''fj1'') (fables_jobs fables_busy_db) = Some j" for j
    using that by simp
  from completeFablesJob_atomic [OF d' once] obtain j where
    "get_where (\<lambda>j. fj_id j = ''fj1'') (fables_jobs fables_busy_db) = Some j"
    "\<forall>f \<in> set [sample_fact, sample_fact]. fl_tx_hash f \<noteq> None \<longrightarrow>
       fact_count (cycle_fact (fj_strategy_id j) ''fj1'' 2000 f) d' = 1"
    by blast
  with d' s [of j] show ?thesis by (simp add: sample_fact_def)
qed

definition fables_sample_request :: fables_request where
  "fables_sample_request = \<lparr>fq_jobId = ''fj1'', fq_ordinal = 1, fq_walletId = ''w1'', fq_quoteToken = ''0xQQ'', fq_now = 90000\<rparr>"

theorem fables_reservations_never_exceed_limits_witness:
  "fables_used (''w1'', ''0xqq'', 1)
     (fables_budget.reserve_all (\<lambda>_. 100) [(fables_sample_request, 60), (fables_sample_request, 120)] fables_busy_db) \<le> 100"
proof (rule fables_reservations_never_exceed_limits)
  have e: "fables_turnover fables_busy_db = []" by (simp add: fables_busy_db_def fables_db_def sample_db_def empty_db_def)
  then show "fables_turnover_ok fables_busy_db" by (simp add: fables_turnover_ok_def)
  show "\<forall>w t day. fables_used (w, t, day) fables_busy_db \<le> 100" by (simp add: fables_used_def e)
  have tok: "toLower (fq_quoteToken fables_sample_request) = ''0xqq''" by code_simp
  have fit: "fables_request_fits fables_sample_request e \<longleftrightarrow> (\<forall>r \<in> set (fables_turnover e).
      fables_turnover_key r = (''fj1'', 1) \<longrightarrow> fr_wallet_id r = ''w1'' \<and> fr_token r = ''0xqq'')" for e
    by (simp only: fables_request_fits_def tok) (simp add: fables_sample_request_def)
  show "fables_budget.all_fit (\<lambda>_. 100) [(fables_sample_request, 60), (fables_sample_request, 120)] fables_busy_db"
    unfolding fables_budget.all_fit.simps fit by code_simp
qed

end
