(* ===== verification/RecoveryRetry.thy ===== *)
theory RecoveryRetry
  imports JobLifecycle Redaction Transition "HOL-Library.List_Lexorder"
begin

text \<open>
  Scheduling of recovery attempts: the retry policy and its durable counters in
  \<open>executor/store.ts\<close>, the slippage escalation of \<open>executor/swap-escalation.ts\<close> and the
  process-local retry delays of \<open>executor/retry-state.ts\<close>.
\<close>

section \<open>Swap escalation (swap-escalation.ts)\<close>

definition SWAP_RECOVERY_MAX_SLIPPAGE_BPS :: rat where "SWAP_RECOVERY_MAX_SLIPPAGE_BPS = 1000"

text \<open>Basis points are numbers; doubling is exact.  The revert count is a whole number.\<close>

definition escalatedSlippageBps :: "rat \<Rightarrow> int \<Rightarrow> rat" where
  "escalatedSlippageBps baseBps revertCount =
     (let widened = baseBps * 2 ^ nat (min (max revertCount 0) 8)
      in min (max baseBps SWAP_RECOVERY_MAX_SLIPPAGE_BPS) widened)"

definition atSlippageCap :: "rat \<Rightarrow> int \<Rightarrow> bool" where
  "atSlippageCap baseBps revertCount \<longleftrightarrow>
     escalatedSlippageBps baseBps revertCount \<ge> SWAP_RECOVERY_MAX_SLIPPAGE_BPS"

fun starts_with :: "string \<Rightarrow> string \<Rightarrow> bool" where
  "starts_with [] s = True"
| "starts_with (p # ps) [] = False"
| "starts_with (p # ps) (c # s) = (p = c \<and> starts_with ps s)"

fun contains :: "string \<Rightarrow> string \<Rightarrow> bool" where
  "contains p [] = (p = [])"
| "contains p (c # s) = (starts_with p (c # s) \<or> contains p s)"

definition isRecoverySwapRevert :: "string option \<Rightarrow> bool" where
  "isRecoverySwapRevert err =
     (case err of
        None \<Rightarrow> False
      | Some message \<Rightarrow>
          message = ''E_TX_REVERTED'' \<or> contains ''execution reverted'' (toLower message) \<or>
          contains ''return amount is not enough'' (toLower message))"

section \<open>Retry policy\<close>

record retry_prev =
  rp_attempts :: int
  rp_errorStreak :: int
  rp_failStreak :: int
  rp_lastError :: "string option"

record retry_next =
  rn_attempts :: int
  rn_streak :: int
  rn_failStreak :: int
  rn_delaySeconds :: int
  rn_quarantined :: bool

definition base_delay :: "int \<Rightarrow> int" where
  "base_delay attempts = min 300 (5 * 2 ^ nat (min (attempts - 1) 6))"

definition defer_delay :: "int \<Rightarrow> int" where
  "defer_delay attempts = max (base_delay attempts) (min 300 (30 * 2 ^ nat (min (attempts - 1) 4)))"

definition nextRecoveryRetryState :: "retry_prev \<Rightarrow> string \<Rightarrow> bool \<Rightarrow> bool \<Rightarrow> retry_next" where
  "nextRecoveryRetryState prev code quarantineEligible deferQuarantine =
     (let attempts = rp_attempts prev + 1;
          streak = (if rp_lastError prev = Some code then rp_errorStreak prev + 1 else 1);
          failStreak = (if quarantineEligible then rp_failStreak prev + 1 else rp_failStreak prev)
      in \<lparr>rn_attempts = attempts, rn_streak = streak, rn_failStreak = failStreak,
          rn_delaySeconds = (if deferQuarantine then defer_delay attempts else base_delay attempts),
          rn_quarantined = (if deferQuarantine then False
                            else (quarantineEligible \<and> streak \<ge> 3) \<or> failStreak \<ge> 3)\<rparr>)"

section \<open>Durable scheduling\<close>

definition SWAP_REVERT_STREAK_KEY :: string where "SWAP_REVERT_STREAK_KEY = ''swap_revert_streak''"

text \<open>\<open>maxSlippageBps\<close> of the job's strategy, 100 when the job is missing or it is not positive.\<close>

definition strategySwapSlippageBaseBps :: "string \<Rightarrow> db \<Rightarrow> rat" where
  "strategySwapSlippageBaseBps j d =
     (case get_where (\<lambda>r. job_id r = j) (jobs d) of
        None \<Rightarrow> 100
      | Some job \<Rightarrow>
          (case strategy_of job d of
             None \<Rightarrow> 100
           | Some s \<Rightarrow> (let base = maxSlippageBps (safeguards (st_config s)) in if base > 0 then base else 100)))"

text \<open>
  The counts of the tracked swaps: the positive numbers among the values of the object, which
  the recovery runner writes as whole numbers.
\<close>

fun streak_counts :: "json option \<Rightarrow> int list" where
  "streak_counts (Some (JObj es)) =
     concat (map (\<lambda>f. case snd f of JNum n \<Rightarrow> if 0 < n then [\<lfloor>n\<rfloor>] else [] | _ \<Rightarrow> []) es)"
| "streak_counts _ = []"

definition swapEscalationUncapped :: "string \<Rightarrow> db \<Rightarrow> bool" where
  "swapEscalationUncapped j d =
     (let counts = streak_counts (getJobContext j SWAP_REVERT_STREAK_KEY d) in
      if counts = [] then False
      else \<not> atSlippageCap (strategySwapSlippageBaseBps j d) (foldl max (hd counts) counts))"

record retry_report =
  rr_attempts :: int
  rr_streak :: int
  rr_failStreak :: int
  rr_delayMs :: int
  rr_quarantined :: bool
  rr_escalating :: bool

definition scheduleRecoveryRetry :: "string \<Rightarrow> string \<Rightarrow> bool \<Rightarrow> int \<Rightarrow> db \<Rightarrow> (retry_report \<times> db) res" where
  "scheduleRecoveryRetry j code quarantineEligible now d =
     (case get_where (\<lambda>r. job_id r = j \<and> job_state r = Recovery) (jobs d) of
        None \<Rightarrow> Inl (JsError ''E_RECOVERY_JOB'')
      | Some row \<Rightarrow>
          let defer = quarantineEligible \<and> code = ''E_TX_REVERTED'' \<and> swapEscalationUncapped j d;
              next = nextRecoveryRetryState
                \<lparr>rp_attempts = recovery_attempts row, rp_errorStreak = recovery_error_streak row,
                 rp_failStreak = recovery_fail_streak row, rp_lastError = recovery_last_error row\<rparr>
                code quarantineEligible defer
          in bindR (update_jobs (\<lambda>r. job_id r = j)
                      (\<lambda>r. r\<lparr>recovery_attempts := rn_attempts next, recovery_error_streak := rn_streak next,
                         recovery_fail_streak := rn_failStreak next,
                         recovery_last_error := Some (redactUrls code),
                         recovery_next_at := Some (now + rn_delaySeconds next),
                         recovery_quarantined_at := (if rn_quarantined next then Some now else None),
                         job_updated := now\<rparr>) d) (\<lambda>d.
             Inr (\<lparr>rr_attempts = rn_attempts next, rr_streak = rn_streak next,
                   rr_failStreak = rn_failStreak next, rr_delayMs = rn_delaySeconds next * 1000,
                   rr_quarantined = rn_quarantined next, rr_escalating = defer\<rparr>,
                  if rn_quarantined next
                  then set_strategy (job_strategy_id row) ''recovery_quarantined'' now d else d)))"

definition reset_schedule :: "job_row \<Rightarrow> job_row" where
  "reset_schedule r =
     r\<lparr>recovery_attempts := 0, recovery_error_streak := 0, recovery_fail_streak := 0,
       recovery_last_error := None, recovery_next_at := None, recovery_quarantined_at := None\<rparr>"

definition clearRecoverySchedule :: "string \<Rightarrow> db \<Rightarrow> db res" where
  "clearRecoverySchedule j d = update_jobs (\<lambda>r. job_id r = j) reset_schedule d"

definition reactivateRecoveryJob :: "string \<Rightarrow> int \<Rightarrow> db \<Rightarrow> db res" where
  "reactivateRecoveryJob j now d =
     (case get_where (\<lambda>r. job_id r = j \<and> job_state r = Recovery) (jobs d) of
        None \<Rightarrow> Inl (JsError ''E_RECOVERY_JOB'')
      | Some row \<Rightarrow>
          bindR (update_jobs (\<lambda>r. job_id r = j) reset_schedule d) (\<lambda>d.
            Inr (set_strategy (job_strategy_id row) ''recovery'' now d)))"

text \<open>\<open>ORDER BY COALESCE(recovery_next_at,0),updated_at,created_at\<close>, joined with the strategy.\<close>

definition jobsForRecovery :: "db \<Rightarrow> job_row list" where
  "jobsForRecovery d =
     sort_key (\<lambda>r. case recovery_next_at r of None \<Rightarrow> 0 | Some t \<Rightarrow> t)
       (sort_key job_updated (sort_key job_created
         (select_where (\<lambda>r. job_state r = Recovery \<and> strategy_of r d \<noteq> None) (jobs d))))"

definition recoveryAttemptReady :: "string \<Rightarrow> int \<Rightarrow> db \<Rightarrow> bool" where
  "recoveryAttemptReady j now d =
     (case get_where (\<lambda>r. job_id r = j \<and> job_state r = Recovery) (jobs d) of
        None \<Rightarrow> False
      | Some r \<Rightarrow> recovery_quarantined_at r = None \<and>
          (case recovery_next_at r of None \<Rightarrow> 0 | Some t \<Rightarrow> t) \<le> now)"

section \<open>Ending a recovery\<close>

definition abandonRecoveryJob :: "string \<Rightarrow> int \<Rightarrow> db \<Rightarrow> db res" where
  "abandonRecoveryJob j now d =
     (case get_where (\<lambda>r. job_id r = j \<and> job_state r \<in> {Recovery, Failed}) (jobs d) of
        None \<Rightarrow> Inl (JsError ''E_RECOVERY_JOB'')
      | Some row \<Rightarrow>
          bindR (update_jobs (\<lambda>r. job_id r = j) (\<lambda>r. r\<lparr>job_state := Failed, job_updated := now\<rparr>) d) (\<lambda>d.
            Inr (release_turnover j now (set_strategy (job_strategy_id row) ''monitoring'' now d))))"

definition recoveryJobById :: "strategy_config parser \<Rightarrow> string \<Rightarrow> db \<Rightarrow> runnable_job option res" where
  "recoveryJobById parse j d =
     (case get_where (\<lambda>r. job_id r = j \<and> job_state r \<in> {Recovery, Failed}) (jobs d) of
        None \<Rightarrow> Inr None
      | Some row \<Rightarrow>
          (case strategy_of row d of
             None \<Rightarrow> Inr None
           | Some s \<Rightarrow>
               (case st_wallet_id s of
                  None \<Rightarrow> Inr None
                | Some w \<Rightarrow>
                    if w = [] then Inr None
                    else bindR (parse (st_config s)) (\<lambda>config.
                      Inr (if walletId (execution config) \<noteq> Some w then None
                           else Some \<lparr>rj_id = job_id row, rj_plan = job_plan row, rj_config = config,
                                  rj_wallet_id = w\<rparr>)))))"

definition replaceRecoveryStrategyConfig ::
  "strategy_config parser \<Rightarrow> string \<Rightarrow> strategy_config \<Rightarrow> int \<Rightarrow> db \<Rightarrow> db res" where
  "replaceRecoveryStrategyConfig parse j config now d =
     (case get_where (\<lambda>r. job_id r = j) (jobs d) of
        None \<Rightarrow> Inl (JsError ''E_RECOVERY_JOB'')
      | Some row \<Rightarrow>
          if job_state row \<noteq> Recovery \<or> job_strategy_id row \<noteq> cfg_id config
          then Inl (JsError ''E_RECOVERY_JOB'')
          else if job_has_tx (\<lambda>t. t_step_index t \<ge> 4 \<and> t_state t = Confirmed) j d
          then Inl (JsError ''E_RECOVERY_CONTEXT'')
          else bindR (parse config) (\<lambda>parsed.
            let w = walletId (execution config);
                d1 = d\<lparr>strategies := update_where (\<lambda>r. st_id r = cfg_id config)
                       (\<lambda>r. r\<lparr>st_wallet_id := w, st_config := parsed, st_updated := now\<rparr>) (strategies d),
                      contexts := delete_where (\<lambda>r. context_key r = (j, ''swap_plan'')) (contexts d)\<rparr>
            in fk (case w of None \<Rightarrow> True | Some i \<Rightarrow> wallet_exists i d)
                 (Inr (audit ''recovery'' ''recovery_config_repaired'' (Some ''job'') (Some j)
                   [(''riskToken'', riskToken config), (''quoteToken'', quoteToken config),
                    (''revision'', big_to_string (revision config))] now
                   (release_turnover j now d1)))))"

section \<open>Progress summary\<close>

record job_summary =
  js_id :: string
  js_state :: job_state
  js_createdAt :: int
  js_updatedAt :: int
  js_confirmedSteps :: int
  js_totalSteps :: int
  js_transactionCount :: int
  js_txHashes :: "string list"
  js_errorCode :: "string option"
  js_result :: "json option"
  js_dryRun :: bool
  js_recoveryAttempts :: int
  js_recoveryErrorStreak :: int
  js_recoveryLastError :: "string option"
  js_recoveryNextAt :: "int option"
  js_recoveryQuarantinedAt :: "int option"

definition present :: "string option list \<Rightarrow> string list" where
  "present xs = concat (map (\<lambda>x. case x of None \<Rightarrow> [] | Some v \<Rightarrow> if v = [] then [] else [v]) xs)"

definition latestJobSummary :: "string \<Rightarrow> db \<Rightarrow> job_summary option" where
  "latestJobSummary s d =
     map_option (\<lambda>row.
       let stps = jobSteps (job_id row) d; txs = jobTransactions (job_id row) d;
           confirmed = count_where (\<lambda>r. sr_state r = Confirmed) stps;
           errs = present (map sr_error stps @ map t_error txs)
       in \<lparr>js_id = job_id row, js_state = job_state row, js_createdAt = job_created row,
           js_updatedAt = job_updated row, js_confirmedSteps = confirmed,
           js_totalSteps = int (length stps), js_transactionCount = int (length txs),
           js_txHashes = rev (remdups (rev (present (map t_tx_hash txs)))),
           js_errorCode = (if job_state row = Completed then None
                           else case errs of [] \<Rightarrow> None | e # _ \<Rightarrow> Some e),
           js_result = (case find (\<lambda>r. sr_index r = 11 \<and> sr_result r \<noteq> None) stps of
                          None \<Rightarrow> None | Some r \<Rightarrow> sr_result r),
           js_dryRun = (job_state row = Completed \<and> txs = [] \<and> confirmed = 1),
           js_recoveryAttempts = recovery_attempts row, js_recoveryErrorStreak = recovery_error_streak row,
           js_recoveryLastError = recovery_last_error row, js_recoveryNextAt = recovery_next_at row,
           js_recoveryQuarantinedAt = recovery_quarantined_at row\<rparr>)
     (max_by job_created (sort_key (\<lambda>r. map (of_char :: char \<Rightarrow> nat) (job_id r))
        (select_where (\<lambda>r. job_strategy_id r = s) (jobs d))))"

section \<open>Process-local delays (retry-state.ts)\<close>

text \<open>The two module-level maps; times in milliseconds.\<close>

record retry_maps =
  rm_attempts :: "(string \<times> int) list"
  rm_retryAt :: "(string \<times> int) list"

definition retry_delay_ms :: "int \<Rightarrow> int" where
  "retry_delay_ms n = min (5 * 60000) (5000 * 2 ^ nat (min (n - 1) 6))"

definition deferStrategyRetry :: "string \<Rightarrow> int \<Rightarrow> retry_maps \<Rightarrow> int \<times> retry_maps" where
  "deferStrategyRetry s nowMs m =
     (let n = rec_or 0 (rm_attempts m) s + 1; delayMs = retry_delay_ms n
      in (delayMs, \<lparr>rm_attempts = rec_set s n (rm_attempts m), rm_retryAt = rec_set s (nowMs + delayMs) (rm_retryAt m)\<rparr>))"

definition strategyRetryReady :: "string \<Rightarrow> int \<Rightarrow> retry_maps \<Rightarrow> bool" where
  "strategyRetryReady s nowMs m \<longleftrightarrow> nowMs \<ge> rec_or 0 (rm_retryAt m) s"

definition clearStrategyRetry :: "string \<Rightarrow> retry_maps \<Rightarrow> retry_maps" where
  "clearStrategyRetry s m =
     \<lparr>rm_attempts = filter (\<lambda>e. fst e \<noteq> s) (rm_attempts m), rm_retryAt = filter (\<lambda>e. fst e \<noteq> s) (rm_retryAt m)\<rparr>"

section \<open>Delays\<close>

text \<open>All three delays double until a cap: \<open>min cap (a * 2 ^ min (n - 1) k)\<close>.\<close>

lemma doubling_step:
  "0 \<le> a \<Longrightarrow> min c (a * (2::int) ^ nat (min (n - 1) k)) \<le> min c (a * 2 ^ nat (min (n + 1 - 1) k))"
  by (intro min.mono mult_left_mono power_increasing nat_mono) simp_all

lemma doubling_bounds:
  assumes "0 \<le> a" and "a \<le> c"
  shows "a \<le> min c (a * (2::int) ^ k)" and "min c (a * (2::int) ^ k) \<le> c"
proof -
  have "a * 1 \<le> a * (2::int) ^ k" using assms(1) by (intro mult_left_mono) simp_all
  then show "a \<le> min c (a * (2::int) ^ k)" using assms(2) by simp
qed simp

interpretation recovery_delay: backoff base_delay 5 300
  unfolding base_delay_def by unfold_locales (intro doubling_bounds doubling_step; simp)+

interpretation local_delay: backoff retry_delay_ms 5000 300000
proof unfold_locales
  fix n :: int
  have c: "(5::int) * 60000 = 300000" by simp
  show "5000 \<le> retry_delay_ms n" "retry_delay_ms n \<le> 300000"
    unfolding retry_delay_ms_def c by (intro doubling_bounds; simp)+
  show "retry_delay_ms n \<le> retry_delay_ms (n + 1)"
    unfolding retry_delay_ms_def c by (intro doubling_step) simp
qed

interpretation deferred_delay: backoff defer_delay 30 300
proof unfold_locales
  fix n :: int
  assume n: "1 \<le> n"
  have "30 \<le> min 300 (30 * (2::int) ^ nat (min (n - 1) 4))" by (intro doubling_bounds) simp_all
  then show "30 \<le> defer_delay n" by (simp only: defer_delay_def le_max_iff_disj simp_thms)
  show "defer_delay n \<le> 300"
    using recovery_delay.delay_upper [OF n] by (simp add: defer_delay_def)
  show "defer_delay n \<le> defer_delay (n + 1)"
    unfolding defer_delay_def
    by (intro max.mono recovery_delay.delay_step [OF n] doubling_step) simp
qed

text \<open>
  Retry delays are bounded and never shrink: after any number of attempts a recovery waits
  between 5 and 300 seconds (at least 30 while quarantine is deferred) and at least as long as
  after fewer attempts, and a process-local retry waits between 5 and 300 seconds.
\<close>

theorem retry_delays_bounded:
  assumes "0 \<le> rp_attempts p" and "rp_attempts p \<le> rp_attempts q"
  shows "(let dp = rn_delaySeconds (nextRecoveryRetryState p code el df);
              dq = rn_delaySeconds (nextRecoveryRetryState q code' el' df)
          in (if df then 30 else 5) \<le> dp \<and> dp \<le> dq \<and> dq \<le> 300) \<and>
         (0 \<le> n \<longrightarrow> 5000 \<le> fst (deferStrategyRetry s t \<lparr>rm_attempts = [(s, n)], rm_retryAt = due\<rparr>) \<and>
            fst (deferStrategyRetry s t \<lparr>rm_attempts = [(s, n)], rm_retryAt = due\<rparr>) \<le> 300000)"
  using assms recovery_delay.delay_total [of "rp_attempts p + 1" "rp_attempts q + 1"]
    deferred_delay.delay_total [of "rp_attempts p + 1" "rp_attempts q + 1"]
    local_delay.delay_total [of "n + 1" "n + 1"]
  by (simp add: nextRecoveryRetryState_def Let_def deferStrategyRetry_def rec_or_def)

theorem retry_delays_bounded_witness:
  "(let dp = rn_delaySeconds (nextRecoveryRetryState \<lparr>rp_attempts = 1, rp_errorStreak = 0, rp_failStreak = 0, rp_lastError = None\<rparr> ''E_X'' True False);
        dq = rn_delaySeconds (nextRecoveryRetryState \<lparr>rp_attempts = 9, rp_errorStreak = 0, rp_failStreak = 0, rp_lastError = None\<rparr> ''E_X'' True False)
    in 5 \<le> dp \<and> dp \<le> dq \<and> dq \<le> 300)"
  using retry_delays_bounded [of "\<lparr>rp_attempts = 1, rp_errorStreak = 0, rp_failStreak = 0, rp_lastError = None\<rparr>"
      "\<lparr>rp_attempts = 9, rp_errorStreak = 0, rp_failStreak = 0, rp_lastError = None\<rparr>" "''E_X''" True False "''E_X''" True 0 "[]" 0 "[]"]
  by (simp add: Let_def)

section \<open>Quarantine\<close>

text \<open>The counters a failure leaves behind; the error text is stored redacted.\<close>

definition record_failure :: "retry_next \<Rightarrow> string \<Rightarrow> retry_prev" where
  "record_failure n code =
     \<lparr>rp_attempts = rn_attempts n, rp_errorStreak = rn_streak n, rp_failStreak = rn_failStreak n,
      rp_lastError = Some (redactUrls code)\<rparr>"

fun run_failures :: "(string \<Rightarrow> bool) \<Rightarrow> string list \<Rightarrow> retry_prev \<Rightarrow> retry_prev" where
  "run_failures E [] p = p"
| "run_failures E (c # cs) p = run_failures E cs (record_failure (nextRecoveryRetryState p c (E c) False) c)"

definition fresh :: retry_prev where
  "fresh = \<lparr>rp_attempts = 0, rp_errorStreak = 0, rp_failStreak = 0, rp_lastError = None\<rparr>"

definition counted :: "(string \<Rightarrow> bool) \<Rightarrow> int \<Rightarrow> retry_prev \<Rightarrow> bool" where
  "counted E n p \<longleftrightarrow> 0 \<le> n \<and> rp_failStreak p = n \<and>
     (\<forall>c. rp_lastError p = Some c \<and> E c \<longrightarrow> rp_errorStreak p \<le> n)"

lemma counted_step:
  assumes "counted E n p" and "\<forall>c. E (redactUrls c) = E c"
  shows "counted E (n + (if E c then 1 else 0)) (record_failure (nextRecoveryRetryState p c (E c) False) c)"
  using assms by (auto simp: counted_def record_failure_def nextRecoveryRetryState_def Let_def)

lemma counted_run:
  assumes "\<forall>c. E (redactUrls c) = E c"
  shows "counted E n p \<Longrightarrow> counted E (n + int (length (filter E cs))) (run_failures E cs p)"
proof (induction cs arbitrary: n p)
  case (Cons c cs)
  from Cons.IH [OF counted_step [OF Cons.prems assms, of c]] show ?case by (cases "E c") (simp_all add: ac_simps)
qed simp

text \<open>
  C33. Execution failures accumulate and provider noise does not: from a fresh job, when no
  attempt defers quarantine and the class of an error does not depend on redacted text, the
  job is quarantined after an attempt exactly when that run had three execution-grade
  failures, whatever else failed in between and in whatever order.
\<close>

theorem quarantine_after_three_failures:
  assumes "\<forall>c. E (redactUrls c) = E c"
  shows "rn_quarantined (nextRecoveryRetryState (run_failures E cs fresh) c (E c) False)
           \<longleftrightarrow> 3 \<le> length (filter E (cs @ [c]))"
proof -
  have "counted E 0 fresh" by (simp add: counted_def fresh_def)
  from counted_run [OF assms this, of cs] have "counted E (int (length (filter E cs))) (run_failures E cs fresh)"
    by simp
  then show ?thesis by (auto simp: counted_def nextRecoveryRetryState_def Let_def)
qed

theorem quarantine_after_three_failures_witness:
  "rn_quarantined (nextRecoveryRetryState
     (run_failures (\<lambda>c. redactUrls c \<noteq> ''E_KYBER_QUOTE'') [''E_TX_REVERTED'', ''E_KYBER_QUOTE'', ''E_RECEIPT''] fresh)
     ''E_TX_REVERTED'' (redactUrls ''E_TX_REVERTED'' \<noteq> ''E_KYBER_QUOTE'') False)"
proof -
  have "3 \<le> length (filter (\<lambda>c. redactUrls c \<noteq> ''E_KYBER_QUOTE'')
      ([''E_TX_REVERTED'', ''E_KYBER_QUOTE'', ''E_RECEIPT''] @ [''E_TX_REVERTED'']))" by code_simp
  with quarantine_after_three_failures [of "\<lambda>c. redactUrls c \<noteq> ''E_KYBER_QUOTE''"
      "[''E_TX_REVERTED'', ''E_KYBER_QUOTE'', ''E_RECEIPT'']" "''E_TX_REVERTED''"]
  show ?thesis by (simp only: redactUrls_idem simp_thms)
qed

text \<open>
  Deferral suspends quarantine but keeps the strikes: with at least two strikes on record, a
  deferred revert never quarantines, yet the next failure without headroom does, even when that
  failure is provider noise.
\<close>

theorem deferred_strikes_quarantine_on_noise:
  assumes "2 \<le> rp_failStreak p"
  shows "let reverted = nextRecoveryRetryState p code True True
         in \<not> rn_quarantined reverted \<and>
            rn_quarantined (nextRecoveryRetryState (record_failure reverted code) noise False False)"
  using assms by (simp add: nextRecoveryRetryState_def record_failure_def Let_def)

theorem deferred_strikes_quarantine_on_noise_witness:
  "rn_quarantined (nextRecoveryRetryState (record_failure
     (nextRecoveryRetryState (fresh\<lparr>rp_failStreak := 2\<rparr>) ''E_TX_REVERTED'' True True) ''E_TX_REVERTED'')
     ''E_KYBER_QUOTE'' False False)"
  using deferred_strikes_quarantine_on_noise [of "fresh\<lparr>rp_failStreak := 2\<rparr>"] by (simp add: Let_def)

section \<open>Escalation\<close>

lemma widened_bounds:
  "0 < b \<Longrightarrow> b \<le> b * 2 ^ nat (min (max n 0) 8) \<and> b * 2 ^ nat (min (max n 0) 8) \<le> b * (256 :: rat)"
proof -
  assume b: "0 < b"
  have "(2::rat) ^ nat (min (max n 0) 8) \<le> 2 ^ 8" by (intro power_increasing) simp_all
  with b show ?thesis by simp
qed

text \<open>
  Slippage escalation is a bounded ladder: it never goes below the strategy's own tolerance
  nor above the larger of that and 10%, and never narrows as reverts accumulate.  It can reach
  the cap, where reverts start to count towards quarantine, exactly when the tolerance is at
  least 1000/256 basis points, and then it does after eight reverts.
\<close>

theorem escalation_ladder:
  assumes "0 < b"
  shows "b \<le> escalatedSlippageBps b n \<and> escalatedSlippageBps b n \<le> max b SWAP_RECOVERY_MAX_SLIPPAGE_BPS \<and>
         escalatedSlippageBps b n \<le> escalatedSlippageBps b (n + 1) \<and>
         ((\<exists>k. atSlippageCap b k) \<longleftrightarrow> 1000 \<le> 256 * b) \<and>
         (1000 \<le> 256 * b \<longrightarrow> 8 \<le> n \<longrightarrow> atSlippageCap b n)"
proof -
  have step: "b * 2 ^ nat (min (max n 0) 8) \<le> b * 2 ^ nat (min (max (n + 1) 0) 8)"
    using assms by (intro mult_left_mono power_increasing nat_mono) simp_all
  have top: "nat (min (max n 0) 8) = 8" if "8 \<le> n" for n :: int using that by simp
  have "atSlippageCap b k \<Longrightarrow> 1000 \<le> 256 * b" for k
    using widened_bounds [OF assms, of k]
    by (simp add: atSlippageCap_def escalatedSlippageBps_def SWAP_RECOVERY_MAX_SLIPPAGE_BPS_def Let_def)
  moreover have cap: "1000 \<le> 256 * b \<Longrightarrow> 8 \<le> k \<Longrightarrow> atSlippageCap b k" for k
    by (simp add: atSlippageCap_def escalatedSlippageBps_def SWAP_RECOVERY_MAX_SLIPPAGE_BPS_def top)
  ultimately have "(\<exists>k. atSlippageCap b k) \<longleftrightarrow> 1000 \<le> 256 * b" by (meson order_refl)
  then show ?thesis
    using step widened_bounds [OF assms, of n] cap
    by (auto simp: escalatedSlippageBps_def Let_def min_def)
qed

theorem escalation_ladder_witness:
  "escalatedSlippageBps 100 3 \<le> escalatedSlippageBps 100 4 \<and> atSlippageCap 100 9"
  using escalation_ladder [of 100 3] escalation_ladder [of 100 9] by simp

end
