(* ===== verification/RecoveryPolicy.thy ===== *)
theory RecoveryPolicy
  imports RecoveryRetry
begin

text \<open>
  What recovery believes about a transaction it once signed: \<open>executor/recovery.ts\<close>,
  \<open>executor/recovery-nonce.ts\<close>, \<open>executor/recovery-policy.ts\<close>, \<open>executor/rpc-retry.ts\<close> and the
  supervisor's choice of jobs (\<open>executor/supervisor.ts\<close>).

  The chain is a record of the RPC reads the code makes.  Each read takes and returns the
  state of the outside world, so two reads of the same hash may differ; a read that throws
  answers \<open>None\<close> (or an error).  \<open>keccak\<close> is the hash of viem.
\<close>

section \<open>Facts and dispositions\<close>

datatype fact_state = FactConfirmed | FactReverted | FactPending | FactAbsent | FactAmbiguous

record tx_fact =
  tf_step :: int
  tf_tx :: int
  tf_nonce :: "int option"
  tf_hash :: "string option"
  tf_state :: fact_state
  tf_block :: "int option"

datatype disposition =
  RestartSafe | ResumeCollect | ResumeFromWallet | ResumeStakingExit | ResumeRevoke | CommitReady
| WaitPending | ManualReview

definition classifyRecovery :: "tx_fact list \<Rightarrow> int list \<Rightarrow> disposition" where
  "classifyRecovery txs confirmedSteps =
     (if list_ex (\<lambda>t. tf_state t = FactAmbiguous) txs then ManualReview
      else if list_ex (\<lambda>t. tf_state t = FactPending) txs then WaitPending
      else
        let confirmed = filter (\<lambda>t. tf_state t = FactConfirmed) txs in
        if list_ex (\<lambda>t. tf_step t = 8) confirmed
        then (if 9 \<in> set confirmedSteps \<and> 10 \<in> set confirmedSteps then CommitReady else ResumeRevoke)
        else if list_ex (\<lambda>t. tf_step t \<ge> 2 \<and> tf_step t \<le> 7) confirmed then ResumeFromWallet
        else if list_ex (\<lambda>t. tf_step t = 1) confirmed then ResumeCollect
        else if list_ex (\<lambda>t. tf_step t \<ge> 12 \<and> tf_step t \<le> 14) confirmed then ResumeStakingExit
        else RestartSafe)"

definition classifyMissingTransactionNonce :: "int \<Rightarrow> int \<Rightarrow> int \<Rightarrow> bool \<Rightarrow> fact_state" where
  "classifyMissingTransactionNonce nonce latest pending hasConfirmedLocalReplacement =
     (if latest > nonce then FactAbsent
      else if pending \<le> nonce then FactAbsent
      else if hasConfirmedLocalReplacement then FactAbsent else FactAmbiguous)"

section \<open>Reading the chain\<close>

record chain_tx =
  ct_from :: string
  ct_nonce :: int
  ct_to :: "string option"
  ct_input :: string

record chain_receipt =
  cr_success :: bool
  cr_block :: int

record 'w chain =
  ch_receipt :: "string \<Rightarrow> 'w \<Rightarrow> chain_receipt option \<times> 'w"
  ch_tx :: "string \<Rightarrow> 'w \<Rightarrow> chain_tx option \<times> 'w"
  ch_latest :: "string \<Rightarrow> 'w \<Rightarrow> (int \<times> 'w) res"
  ch_pending :: "string \<Rightarrow> 'w \<Rightarrow> (int \<times> 'w) res"

text \<open>The candidate really used the nonce with the recorded target and calldata.\<close>

definition candidate_matches ::
  "(string \<Rightarrow> string) \<Rightarrow> string \<Rightarrow> int \<Rightarrow> tx_row \<Rightarrow> chain_tx \<Rightarrow> chain_receipt \<Rightarrow> bool" where
  "candidate_matches keccak own nonce c tx rc \<longleftrightarrow>
     cr_success rc \<and> toLower (ct_from tx) = toLower own \<and> ct_nonce tx = nonce \<and>
     map_option toLower (ct_to tx) = Some (toLower (t_tx_to c)) \<and>
     toLower (keccak (ct_input tx)) = toLower (t_calldata_hash c)"

definition definitely_different :: "tx_row \<Rightarrow> tx_row \<Rightarrow> bool" where
  "definitely_different c row \<longleftrightarrow>
     toLower (t_tx_to c) \<noteq> toLower (t_tx_to row) \<or> toLower (t_calldata_hash c) \<noteq> toLower (t_calldata_hash row)"

fun replaced_by ::
  "'w chain \<Rightarrow> (string \<Rightarrow> string) \<Rightarrow> tx_row \<Rightarrow> string \<Rightarrow> int \<Rightarrow> tx_row list \<Rightarrow> 'w \<Rightarrow> bool \<times> 'w" where
  "replaced_by ch keccak row own nonce [] w = (False, w)"
| "replaced_by ch keccak row own nonce (c # cs) w =
     (if tx_key c = tx_key row then replaced_by ch keccak row own nonce cs w
      else
        (case t_tx_hash c of
           None \<Rightarrow> replaced_by ch keccak row own nonce cs w
         | Some h \<Rightarrow>
             let (tx, w) = ch_tx ch h w; (rc, w) = ch_receipt ch h w in
             (case (tx, rc) of
                (Some t, Some r) \<Rightarrow>
                  if candidate_matches keccak own nonce c t r \<and> definitely_different c row then (True, w)
                  else replaced_by ch keccak row own nonce cs w
              | _ \<Rightarrow> replaced_by ch keccak row own nonce cs w)))"

definition hasConfirmedLocalReplacement ::
  "'w chain \<Rightarrow> (string \<Rightarrow> string) \<Rightarrow> db \<Rightarrow> tx_row \<Rightarrow> string \<Rightarrow> int \<Rightarrow> 'w \<Rightarrow> bool \<times> 'w" where
  "hasConfirmedLocalReplacement ch keccak d row own nonce w =
     replaced_by ch keccak row own nonce (confirmedTransactionsAtNonce nonce d) w"

text \<open>The last resort of \<open>transactionFact\<close>: what the account's nonces say.\<close>

definition nonce_fact ::
  "'w chain \<Rightarrow> (string \<Rightarrow> string) \<Rightarrow> db \<Rightarrow> tx_row \<Rightarrow> string \<Rightarrow> int \<Rightarrow> 'w \<Rightarrow> (fact_state \<times> 'w) res" where
  "nonce_fact ch keccak d row own nonce w =
     bindR (ch_latest ch own w) (\<lambda>(latest, w).
     bindR (ch_pending ch own w) (\<lambda>(pending, w).
       let (replacement, w) = (if latest \<le> nonce \<and> pending > nonce
                               then hasConfirmedLocalReplacement ch keccak d row own nonce w else (False, w))
       in Inr (classifyMissingTransactionNonce nonce latest pending replacement, w)))"

definition fact_of :: "tx_row \<Rightarrow> fact_state \<Rightarrow> int option \<Rightarrow> tx_fact" where
  "fact_of row s b = \<lparr>tf_step = t_step_index row, tf_tx = t_tx_index row, tf_nonce = t_nonce row,
     tf_hash = t_tx_hash row, tf_state = s, tf_block = b\<rparr>"

text \<open>The hash was not found with its receipt: look for the transaction, then at the nonce.\<close>

definition missing_fact ::
  "'w chain \<Rightarrow> (string \<Rightarrow> string) \<Rightarrow> db \<Rightarrow> tx_row \<Rightarrow> string \<Rightarrow> string \<Rightarrow> 'w \<Rightarrow> (tx_fact \<times> 'w) res" where
  "missing_fact ch keccak d row own h w =
     (let (tx, w) = ch_tx ch h w in
      case tx of
        Some _ \<Rightarrow> Inr (fact_of row FactPending None, w)
      | None \<Rightarrow>
          (case t_nonce row of
             None \<Rightarrow> Inr (fact_of row FactAmbiguous None, w)
           | Some n \<Rightarrow> bindR (nonce_fact ch keccak d row own n w) (\<lambda>(s, w). Inr (fact_of row s None, w))))"

definition transactionFact ::
  "'w chain \<Rightarrow> (string \<Rightarrow> string) \<Rightarrow> db \<Rightarrow> tx_row \<Rightarrow> string \<Rightarrow> 'w \<Rightarrow> (tx_fact \<times> 'w) res" where
  "transactionFact ch keccak d row own w =
     (case t_tx_hash row of
        Some h \<Rightarrow>
          let (rc, w) = ch_receipt ch h w in
          (case rc of
             None \<Rightarrow> missing_fact ch keccak d row own h w
           | Some r \<Rightarrow>
               let (tx, w) = ch_tx ch h w in
               (case tx of
                  None \<Rightarrow> missing_fact ch keccak d row own h w
                | Some t \<Rightarrow>
                    if toLower (ct_from t) \<noteq> toLower own \<or>
                       map_option toLower (ct_to t) \<noteq> Some (toLower (t_tx_to row)) \<or>
                       toLower (keccak (ct_input t)) \<noteq> toLower (t_calldata_hash row)
                    then Inr (fact_of row FactAmbiguous None, w)
                    else Inr (fact_of row (if cr_success r then FactConfirmed else FactReverted) (Some (cr_block r)), w)))
      | None \<Rightarrow>
          (case t_nonce row of
             None \<Rightarrow> Inr (fact_of row FactAbsent None, w)
           | Some n \<Rightarrow> bindR (nonce_fact ch keccak d row own n w) (\<lambda>(s, w). Inr (fact_of row s None, w))))"

section \<open>Reconciling\<close>

fun facts_of ::
  "'w chain \<Rightarrow> (string \<Rightarrow> string) \<Rightarrow> db \<Rightarrow> string \<Rightarrow> tx_row list \<Rightarrow> 'w \<Rightarrow> (tx_fact list \<times> 'w) res" where
  "facts_of ch keccak d own [] w = Inr ([], w)"
| "facts_of ch keccak d own (r # rs) w =
     bindR (transactionFact ch keccak d r own w) (\<lambda>(f, w).
     bindR (facts_of ch keccak d own rs w) (\<lambda>(fs, w). Inr (f # fs, w)))"

definition reconcile_fact :: "string \<Rightarrow> int \<Rightarrow> tx_fact \<Rightarrow> db \<Rightarrow> db" where
  "reconcile_fact j now f d =
     (case tf_state f of
        FactConfirmed \<Rightarrow> reconcileJobTransaction j (tf_step f) (tf_tx f) Confirmed (tf_block f) None now d
      | FactReverted \<Rightarrow> reconcileJobTransaction j (tf_step f) (tf_tx f) FailedTx (tf_block f) (Some ''E_TX_REVERTED'') now d
      | FactAbsent \<Rightarrow> reconcileJobTransaction j (tf_step f) (tf_tx f) FailedTx (tf_block f) (Some ''E_TX_ABSENT'') now d
      | _ \<Rightarrow> d)"

definition reconcileRecoveryTransactions ::
  "strategy_config parser \<Rightarrow> 'w chain \<Rightarrow> (string \<Rightarrow> string) \<Rightarrow> string \<Rightarrow> bool \<Rightarrow> int \<Rightarrow> db \<Rightarrow> 'w \<Rightarrow>
   ((tx_fact list \<times> step_row list \<times> db) \<times> 'w) res" where
  "reconcileRecoveryTransactions parse ch keccak j reconcile now d w =
     bindR (recoveryJobById parse j d) (\<lambda>job.
     (case job of
        None \<Rightarrow> Inl (JsError ''E_RECOVERY_JOB'')
      | Some job \<Rightarrow>
          bindR (facts_of ch keccak d (owner (rj_config job)) (jobTransactions j d) w) (\<lambda>(fs, w).
            Inr ((fs, jobSteps j d, if reconcile then fold (reconcile_fact j now) fs d else d), w))))"

text \<open>The disposition \<open>inspectRecovery\<close> reports; the reads that only decorate it are left out.\<close>

definition recovery_disposition :: "job_payload \<Rightarrow> tx_fact list \<Rightarrow> step_row list \<Rightarrow> disposition" where
  "recovery_disposition plan fs stps =
     (case plan of
        ProfitPayload _ _ \<Rightarrow>
          if list_ex (\<lambda>t. tf_state t = FactAmbiguous) fs then ManualReview
          else if list_ex (\<lambda>t. tf_state t = FactPending) fs then WaitPending else CommitReady
      | PlanPayload _ \<Rightarrow>
          classifyRecovery fs (map sr_index (filter (\<lambda>s. sr_state s = Confirmed) stps)))"

section \<open>Which failures may retry for ever\<close>

text \<open>
  A thrown value: \<open>message\<close> or \<open>String(error)\<close>, and the records of its \<open>cause\<close> chain.
  Statuses are the numbers \<open>Number(...)\<close> makes of them, \<open>None\<close> for NaN.
\<close>

record error_record =
  er_message :: "string option"
  er_shortMessage :: "string option"
  er_details :: "string option"
  er_status :: "rat option"
  er_statusCode :: "rat option"
  er_code :: string

record thrown =
  th_is_error :: bool
  th_code :: string
  th_chain :: "error_record list"

definition errorChain :: "thrown \<Rightarrow> error_record list" where
  "errorChain e = take 8 (th_chain e)"

definition some_values :: "'a option list \<Rightarrow> 'a list" where
  "some_values xs = concat (map (\<lambda>x. case x of None \<Rightarrow> [] | Some v \<Rightarrow> [v]) xs)"

fun join_lines :: "string list \<Rightarrow> string" where
  "join_lines [] = []"
| "join_lines [s] = s"
| "join_lines (s # t # ts) = s @ [CHR 0x0A] @ join_lines (t # ts)"

definition error_text :: "error_record list \<Rightarrow> string" where
  "error_text rs = join_lines (some_values (concat (map (\<lambda>r. [er_message r, er_shortMessage r, er_details r]) rs)))"

definition error_statuses :: "error_record list \<Rightarrow> rat list" where
  "error_statuses rs = some_values (concat (map (\<lambda>r. [er_status r, er_statusCode r]) rs))"

text \<open>\<open>/^p/im\<close>: the text itself or a line of it starts with \<open>p\<close>.\<close>

fun after_break :: "string \<Rightarrow> string \<Rightarrow> bool" where
  "after_break p [] = False"
| "after_break p (c # s) = (c \<in> {CHR 0x0A, CHR 0x0D} \<and> starts_with p s \<or> after_break p s)"

definition line_starts :: "string \<Rightarrow> string \<Rightarrow> bool" where
  "line_starts p s = (starts_with p s \<or> after_break p s)"

definition isBatchRejection :: "thrown \<Rightarrow> bool" where
  "isBatchRejection e =
     (let rs = errorChain e; text = toLower (error_text rs) in
      line_starts ''missing or invalid parameters'' text \<or>
      list_ex (\<lambda>s. s = 400) (error_statuses rs) \<and> contains ''missing or invalid parameters'' text)"

text \<open>\<open>/status:\s*(403|408|425|429|5\d\d)/\<close> at the head of the text and anywhere in it.\<close>

definition decimal_digit :: "char \<Rightarrow> bool" where
  "decimal_digit c \<longleftrightarrow> of_char c \<in> {48..57 :: nat}"

definition status_head :: "string \<Rightarrow> bool" where
  "status_head s =
     (starts_with ''status:'' s \<and>
      (let r = dropWhile (\<lambda>c. of_char c \<in> {9, 10, 11, 12, 13, 32, 160 :: nat}) (drop 7 s) in
       list_ex (\<lambda>p. starts_with p r) [''403'', ''408'', ''425'', ''429''] \<or>
       (case r of
          a # b # c # _ \<Rightarrow> a = CHR ''5'' \<and> decimal_digit b \<and> decimal_digit c
        | _ \<Rightarrow> False)))"

fun status_in :: "string \<Rightarrow> bool" where
  "status_in [] = False"
| "status_in (c # s) = (status_head (c # s) \<or> status_in s)"

text \<open>\<open>toUpperCase\<close> on the ASCII codes it is compared with.\<close>

definition toUpper :: "string \<Rightarrow> string" where
  "toUpper s = map (\<lambda>c. let n = of_char c :: nat in if 97 \<le> n \<and> n \<le> 122 then char_of (n - 32) else c) s"

definition isTransientRpcFailure :: "thrown \<Rightarrow> bool" where
  "isTransientRpcFailure e =
     (if isBatchRejection e then True
      else
        let rs = errorChain e; text = toLower (error_text rs) in
        if list_ex (\<lambda>s. s \<in> {403, 408, 425, 429} \<or> s \<ge> 500) (error_statuses rs) then True
        else if list_ex (\<lambda>r. toUpper (er_code r) \<in>
          {''ECONNRESET'', ''ECONNREFUSED'', ''EHOSTUNREACH'', ''ENETUNREACH'', ''ETIMEDOUT'',
           ''UND_ERR_CONNECT_TIMEOUT'', ''UND_ERR_HEADERS_TIMEOUT''}) rs then True
        else if list_ex (\<lambda>p. contains p text)
          [''invalid parameter'', ''execution reverted'', ''insufficient funds'', ''nonce too low'',
           ''underpriced'', ''fee cap'', ''intrinsic gas''] then False
        else list_ex (\<lambda>p. contains p text)
          [''timeout'', ''timed out'', ''fetch failed'', ''network'', ''socket'', ''connection'',
           ''http request failed'', ''rpc request failed''] \<or> status_in text)"

definition retryDelay :: "int \<Rightarrow> nat \<Rightarrow> int" where
  "retryDelay baseMs attempt = min (baseMs * 2 ^ attempt) 10000"

definition isTransientRecoveryFailure :: "thrown \<Rightarrow> bool" where
  "isTransientRecoveryFailure e =
     (th_code e \<in> {''E_RECOVERY_PENDING'', ''E_KYBER_QUOTE'', ''E_KYBER_BUILD'', ''E_NATIVE_QUOTE'',
        ''E_SOLVER_QUOTE'', ''E_EXECUTOR_PAUSED'', ''E_SWAP_IMPACT''} \<or> isTransientRpcFailure e)"

section \<open>The supervisor\<close>

text \<open>
  The \<open>Map\<close> of \<open>superviseOnce\<close>: the first ready job of each wallet, in schedule order.
\<close>

definition wallet_of_job :: "db \<Rightarrow> job_row \<Rightarrow> string option" where
  "wallet_of_job d r = (case job_wallet r d of Some w \<Rightarrow> if w = [] then None else Some w | None \<Rightarrow> None)"

fun select_jobs :: "int \<Rightarrow> db \<Rightarrow> job_row list \<Rightarrow> (string \<times> job_row) list \<Rightarrow> (string \<times> job_row) list" where
  "select_jobs now d [] acc = acc"
| "select_jobs now d (r # rs) acc =
     (case wallet_of_job d r of
        None \<Rightarrow> select_jobs now d rs acc
      | Some w \<Rightarrow>
          if job_state r \<noteq> Recovery \<or> \<not> recoveryAttemptReady (job_id r) now d then select_jobs now d rs acc
          else if w \<in> set (map fst acc) then select_jobs now d rs acc
          else select_jobs now d rs (acc @ [(w, r)]))"

definition selected_jobs :: "int \<Rightarrow> db \<Rightarrow> (string \<times> job_row) list" where
  "selected_jobs now d = select_jobs now d (jobsForRecovery d) []"

section \<open>Evidence\<close>

text \<open>The chain showed a receipt and a transaction of this hash with the recorded owner, target and calldata.\<close>

definition seen_landed :: "'w chain \<Rightarrow> (string \<Rightarrow> string) \<Rightarrow> tx_row \<Rightarrow> string \<Rightarrow> bool \<Rightarrow> bool" where
  "seen_landed ch keccak row own ok \<longleftrightarrow>
     (\<exists>h r t v w. t_tx_hash row = Some h \<and> fst (ch_receipt ch h v) = Some r \<and> fst (ch_tx ch h w) = Some t \<and>
        cr_success r = ok \<and> toLower (ct_from t) = toLower own \<and>
        map_option toLower (ct_to t) = Some (toLower (t_tx_to row)) \<and>
        toLower (keccak (ct_input t)) = toLower (t_calldata_hash row))"

text \<open>
  The row's transaction cannot land: nothing was ever signed, the account moved past the nonce,
  the nonce is not even pending, or another recorded transaction is shown to have used it.
\<close>

definition seen_spent :: "'w chain \<Rightarrow> (string \<Rightarrow> string) \<Rightarrow> db \<Rightarrow> tx_row \<Rightarrow> string \<Rightarrow> bool" where
  "seen_spent ch keccak d row own \<longleftrightarrow>
     t_tx_hash row = None \<and> t_nonce row = None \<or>
     (\<exists>n latest v1 v2. t_nonce row = Some n \<and> ch_latest ch own v1 = Inr (latest, v2) \<and> n < latest) \<or>
     (\<exists>n pending v1 v2. t_nonce row = Some n \<and> ch_pending ch own v1 = Inr (pending, v2) \<and> pending \<le> n) \<or>
     (\<exists>n c h t r v1 v2. t_nonce row = Some n \<and> c \<in> set (confirmedTransactionsAtNonce n d) \<and> tx_key c \<noteq> tx_key row \<and>
        t_tx_hash c = Some h \<and> fst (ch_tx ch h v1) = Some t \<and> fst (ch_receipt ch h v2) = Some r \<and>
        candidate_matches keccak own n c t r \<and> definitely_different c row)"

lemma replaced_by_evidence:
  "replaced_by ch keccak row own n cs w = (True, w') \<Longrightarrow>
   \<exists>c h t r v1 v2. c \<in> set cs \<and> tx_key c \<noteq> tx_key row \<and> t_tx_hash c = Some h \<and> fst (ch_tx ch h v1) = Some t \<and>
     fst (ch_receipt ch h v2) = Some r \<and> candidate_matches keccak own n c t r \<and> definitely_different c row"
proof (induction cs arbitrary: w)
  case (Cons c cs)
  show ?case
  proof (cases "tx_key c = tx_key row \<or> t_tx_hash c = None")
    case True
    then have "replaced_by ch keccak row own n cs w = (True, w')" using Cons.prems by (auto split: if_split_asm)
    from Cons.IH [OF this] show ?thesis by (meson list.set_intros(2))
  next
    case False
    then obtain h where h: "t_tx_hash c = Some h" by auto
    obtain tx w1 where tx: "ch_tx ch h w = (tx, w1)" by (cases "ch_tx ch h w")
    obtain rc w2 where rc: "ch_receipt ch h w1 = (rc, w2)" by (cases "ch_receipt ch h w1")
    consider t r where "tx = Some t" "rc = Some r" "candidate_matches keccak own n c t r" "definitely_different c row"
      | "replaced_by ch keccak row own n cs w2 = (True, w')"
      using Cons.prems False h tx rc by (auto split: option.splits if_split_asm)
    then show ?thesis
    proof cases
      case 1
      then have "fst (ch_tx ch h w) = Some t" "fst (ch_receipt ch h w1) = Some r" using tx rc by simp_all
      with 1 False h show ?thesis by (metis list.set_intros(1))
    next
      case 2
      from Cons.IH [OF this] show ?thesis by (meson list.set_intros(2))
    qed
  qed
qed simp

lemma nonce_fact_evidence:
  assumes "nonce_fact ch keccak d row own n w = Inr (s, w')" and "t_nonce row = Some n"
  shows "s = FactAmbiguous \<or> s = FactAbsent \<and> seen_spent ch keccak d row own"
proof -
  obtain latest w1 pending w2 where l: "ch_latest ch own w = Inr (latest, w1)" and p: "ch_pending ch own w1 = Inr (pending, w2)"
    using assms(1) by (auto simp: nonce_fact_def bindR_eq_Inr)
  show ?thesis
  proof (cases "latest \<le> n \<and> n < pending")
    case False
    then have "s = FactAbsent" using assms(1) l p by (auto simp: nonce_fact_def classifyMissingTransactionNonce_def)
    with False l p assms(2) show ?thesis by (auto simp: seen_spent_def not_le not_less)
  next
    case True
    obtain b w3 where b: "hasConfirmedLocalReplacement ch keccak d row own n w2 = (b, w3)"
      by (cases "hasConfirmedLocalReplacement ch keccak d row own n w2")
    show ?thesis
    proof (cases b)
      case False
      then show ?thesis
        using assms(1) l p b True by (auto simp: nonce_fact_def classifyMissingTransactionNonce_def)
    next
      case b': True
      then have "s = FactAbsent"
        using assms(1) l p b True by (auto simp: nonce_fact_def classifyMissingTransactionNonce_def)
      moreover have "seen_spent ch keccak d row own"
      proof -
        have "replaced_by ch keccak row own n (confirmedTransactionsAtNonce n d) w2 = (True, w3)"
          using b b' by (simp add: hasConfirmedLocalReplacement_def)
        from replaced_by_evidence [OF this] assms(2) show ?thesis unfolding seen_spent_def by blast
      qed
      ultimately show ?thesis by simp
    qed
  qed
qed

lemma missing_fact_evidence:
  assumes "missing_fact ch keccak d row own h w = Inr (f, w')"
  shows "(tf_state f = FactPending \<or> tf_state f = FactAmbiguous \<or> tf_state f = FactAbsent \<and> seen_spent ch keccak d row own) \<and>
     tf_step f = t_step_index row \<and> tf_tx f = t_tx_index row"
  using assms
  by (auto simp: missing_fact_def fact_of_def bindR_eq_Inr split: prod.splits option.splits dest!: nonce_fact_evidence)

lemma transactionFact_evidence:
  assumes "transactionFact ch keccak d row own w = Inr (f, w')"
  shows "(tf_state f = FactConfirmed \<longrightarrow> seen_landed ch keccak row own True) \<and>
     (tf_state f = FactReverted \<longrightarrow> seen_landed ch keccak row own False) \<and>
     (tf_state f = FactAbsent \<longrightarrow> seen_spent ch keccak d row own) \<and>
     tf_step f = t_step_index row \<and> tf_tx f = t_tx_index row"
proof (cases "t_tx_hash row")
  case None
  show ?thesis
  proof (cases "t_nonce row")
    case None
    with assms \<open>t_tx_hash row = None\<close> show ?thesis
      by (auto simp: transactionFact_def fact_of_def seen_spent_def)
  next
    case (Some n)
    with assms \<open>t_tx_hash row = None\<close> show ?thesis
      by (auto simp: transactionFact_def fact_of_def bindR_eq_Inr dest!: nonce_fact_evidence)
  qed
next
  case (Some h)
  obtain rc w1 where rc: "ch_receipt ch h w = (rc, w1)" by (cases "ch_receipt ch h w")
  obtain tx w2 where tx: "ch_tx ch h w1 = (tx, w2)" by (cases "ch_tx ch h w1")
  show ?thesis
  proof (cases "rc = None \<or> tx = None")
    case True
    then have "missing_fact ch keccak d row own h w1 = Inr (f, w') \<or> missing_fact ch keccak d row own h w2 = Inr (f, w')"
      using assms Some rc tx by (auto simp: transactionFact_def split: option.splits)
    then show ?thesis by (auto dest!: missing_fact_evidence)
  next
    case False
    then obtain r t where rt: "rc = Some r" "tx = Some t" by auto
    let ?ok = "toLower (ct_from t) = toLower own \<and> map_option toLower (ct_to t) = Some (toLower (t_tx_to row)) \<and>
        toLower (keccak (ct_input t)) = toLower (t_calldata_hash row)"
    have "fst (ch_receipt ch h w) = Some r" "fst (ch_tx ch h w1) = Some t" using rc tx rt by simp_all
    then have "?ok \<Longrightarrow> seen_landed ch keccak row own (cr_success r)"
      unfolding seen_landed_def using Some by blast
    moreover have "f = (if ?ok then fact_of row (if cr_success r then FactConfirmed else FactReverted) (Some (cr_block r))
        else fact_of row FactAmbiguous None)"
      using assms Some rc tx rt by (auto simp: transactionFact_def split: if_split_asm)
    ultimately show ?thesis by (cases ?ok) (simp_all only: fact_of_def if_True if_False, auto)
  qed
qed

text \<open>What a fact says of its row.\<close>

definition justified :: "'w chain \<Rightarrow> (string \<Rightarrow> string) \<Rightarrow> db \<Rightarrow> string \<Rightarrow> tx_row \<Rightarrow> tx_fact \<Rightarrow> bool" where
  "justified ch keccak d own row f \<longleftrightarrow>
     (tf_state f = FactConfirmed \<longrightarrow> seen_landed ch keccak row own True) \<and>
     (tf_state f = FactReverted \<longrightarrow> seen_landed ch keccak row own False) \<and>
     (tf_state f = FactAbsent \<longrightarrow> seen_spent ch keccak d row own) \<and>
     tf_step f = t_step_index row \<and> tf_tx f = t_tx_index row"

lemma facts_of_justified:
  "facts_of ch keccak d own rows w = Inr (fs, w') \<Longrightarrow> list_all2 (justified ch keccak d own) rows fs"
proof (induction rows arbitrary: w fs)
  case (Cons r rs)
  then obtain f v gs where f: "transactionFact ch keccak d r own w = Inr (f, v)"
    "facts_of ch keccak d own rs v = Inr (gs, w')" "fs = f # gs"
    by (auto simp: bindR_eq_Inr)
  from transactionFact_evidence [OF f(1)] Cons.IH [OF f(2)] f(3) show ?case
    by (simp add: justified_def)
qed simp

lemma reconcile_justified:
  assumes "reconcileRecoveryTransactions parse ch keccak j rc now d w = Inr ((fs, stps, d'), w')"
  obtains job where "recoveryJobById parse j d = Inr (Some job)"
    and "list_all2 (justified ch keccak d (owner (rj_config job))) (jobTransactions j d) fs"
    and "d' = (if rc then fold (reconcile_fact j now) fs d else d)"
proof -
  obtain job where job: "recoveryJobById parse j d = Inr (Some job)"
    using assms by (auto simp: reconcileRecoveryTransactions_def bindR_eq_Inr split: option.splits)
  with assms that [OF job] show thesis
    by (auto simp: reconcileRecoveryTransactions_def bindR_eq_Inr dest: facts_of_justified)
qed

lemma classify_restart:
  "classifyRecovery fs stps = RestartSafe \<longleftrightarrow>
     (\<forall>f \<in> set fs. tf_state f = FactReverted \<or> tf_state f = FactAbsent \<or>
        tf_state f = FactConfirmed \<and> tf_step f \<notin> {1..8} \<union> {12..14})"
proof -
  have steps: "n \<in> {1..8} \<union> {12..14} \<longleftrightarrow> n = 8 \<or> 2 \<le> n \<and> n \<le> 7 \<or> n = 1 \<or> 12 \<le> n \<and> n \<le> 14" for n :: int
    by auto
  have fact: "(s = FactReverted \<or> s = FactAbsent \<or> s = FactConfirmed \<and> P) \<longleftrightarrow>
      s \<noteq> FactAmbiguous \<and> s \<noteq> FactPending \<and> (s = FactConfirmed \<longrightarrow> P)" for s P
    by (cases s) simp_all
  let ?c = "filter (\<lambda>t. tf_state t = FactConfirmed) fs"
  have "classifyRecovery fs stps = RestartSafe \<longleftrightarrow>
      \<not> list_ex (\<lambda>t. tf_state t = FactAmbiguous) fs \<and> \<not> list_ex (\<lambda>t. tf_state t = FactPending) fs \<and>
      \<not> list_ex (\<lambda>t. tf_step t = 8) ?c \<and> \<not> list_ex (\<lambda>t. tf_step t \<ge> 2 \<and> tf_step t \<le> 7) ?c \<and>
      \<not> list_ex (\<lambda>t. tf_step t = 1) ?c \<and> \<not> list_ex (\<lambda>t. tf_step t \<ge> 12 \<and> tf_step t \<le> 14) ?c"
    unfolding classifyRecovery_def Let_def by (simp only: if_split disposition.distinct simp_thms if_cancel split: if_split)
      simp
  then show ?thesis unfolding fact steps list_ex_iff set_filter by blast
qed

section \<open>Properties\<close>

text \<open>
  C8. Recovery rebuilds a job from scratch only when nothing it signed can still move funds:
  after the recorded transactions were compared with the chain, the answer "safe to restart"
  means that each of them was shown reverted, or shown unable to land (never signed, its nonce
  consumed, not pending, or used by a different recorded transaction that the chain confirms),
  or landed in a step that moves no funds of the cycle.
\<close>

theorem restart_only_when_nothing_can_land:
  assumes "reconcileRecoveryTransactions parse ch keccak j rc now d w = Inr ((fs, stps, d'), w')"
    and "classifyRecovery fs confirmedSteps = RestartSafe"
  shows "\<exists>job. recoveryJobById parse j d = Inr (Some job) \<and>
     (\<forall>row \<in> set (jobTransactions j d).
        seen_landed ch keccak row (owner (rj_config job)) False \<or>
        seen_spent ch keccak d row (owner (rj_config job)) \<or>
        seen_landed ch keccak row (owner (rj_config job)) True \<and> t_step_index row \<notin> {1..8} \<union> {12..14})"
proof -
  obtain job where job: "recoveryJobById parse j d = Inr (Some job)"
    and all: "list_all2 (justified ch keccak d (owner (rj_config job))) (jobTransactions j d) fs"
    by (rule reconcile_justified [OF assms(1)])
  have "seen_landed ch keccak row (owner (rj_config job)) False \<or> seen_spent ch keccak d row (owner (rj_config job)) \<or>
      seen_landed ch keccak row (owner (rj_config job)) True \<and> t_step_index row \<notin> {1..8} \<union> {12..14}"
    if "row \<in> set (jobTransactions j d)" for row
  proof -
    obtain f where f: "f \<in> set fs" "justified ch keccak d (owner (rj_config job)) row f"
      using all \<open>row \<in> set (jobTransactions j d)\<close>
      by (auto simp: list_all2_conv_all_nth in_set_conv_nth) (metis nth_mem)
    then show ?thesis
      using assms(2) unfolding classify_restart justified_def by metis
  qed
  with job show ?thesis by blast
qed

lemma reconcile_fact_map:
  "\<exists>g. reconcile_fact j now f d = d\<lparr>job_transactions := update_where (\<lambda>t. tx_key t = (j, tf_step f, tf_tx f)) g (job_transactions d)\<rparr> \<and>
     (\<forall>t. tx_key (g t) = tx_key t) \<and>
     (tf_state f = FactConfirmed \<longrightarrow> (\<forall>t. t_state (g t) = Confirmed)) \<and>
     (tf_state f \<in> {FactReverted, FactAbsent} \<longrightarrow> (\<forall>t. t_state (g t) = FailedTx)) \<and>
     (tf_state f \<in> {FactPending, FactAmbiguous} \<longrightarrow> g = id)"
proof (cases "tf_state f \<in> {FactPending, FactAmbiguous}")
  case True
  then show ?thesis
    by (intro exI [of _ id]) (auto simp: reconcile_fact_def update_where_def id_def cong: map_cong)
next
  case False
  then show ?thesis
    by (cases "tf_state f")
      (auto simp: reconcile_fact_def reconcileJobTransaction_def tx_key_def intro!: exI)
qed

text \<open>What reconciling may make of a row of the job, given the facts that are true of it.\<close>

definition settled :: "'w chain \<Rightarrow> (string \<Rightarrow> string) \<Rightarrow> db \<Rightarrow> string \<Rightarrow> tx_row \<Rightarrow> tx_row \<Rightarrow> bool" where
  "settled ch keccak d own row row' \<longleftrightarrow>
     tx_key row' = tx_key row \<and>
     (row' = row \<or> t_state row' = Confirmed \<and> seen_landed ch keccak row own True \<or>
      t_state row' = FailedTx \<and> (seen_landed ch keccak row own False \<or> seen_spent ch keccak d row own))"

lemma reconcile_fold:
  assumes "\<forall>f \<in> set fs. \<forall>row \<in> set T. tx_key row = (j, tf_step f, tf_tx f) \<longrightarrow> justified ch keccak d own row f"
    and "list_all2 (settled ch keccak d own) T (job_transactions e)"
  shows "list_all2 (settled ch keccak d own) T (job_transactions (fold (reconcile_fact j now) fs e))
     \<and> (\<exists>t. fold (reconcile_fact j now) fs e = e\<lparr>job_transactions := t\<rparr>)"
  using assms
proof (induction fs arbitrary: e)
  case Nil
  then show ?case by (auto intro: exI [of _ "job_transactions e"])
next
  case (Cons f fs)
  obtain g where g: "reconcile_fact j now f e = e\<lparr>job_transactions := update_where (\<lambda>t. tx_key t = (j, tf_step f, tf_tx f)) g (job_transactions e)\<rparr>"
    and gk: "\<forall>t. tx_key (g t) = tx_key t" and gc: "tf_state f = FactConfirmed \<longrightarrow> (\<forall>t. t_state (g t) = Confirmed)"
    and gf: "tf_state f \<in> {FactReverted, FactAbsent} \<longrightarrow> (\<forall>t. t_state (g t) = FailedTx)"
    and gi: "tf_state f \<in> {FactPending, FactAmbiguous} \<longrightarrow> g = id"
    using reconcile_fact_map [of j now f e] by auto
  have one: "settled ch keccak d own row (if tx_key r = (j, tf_step f, tf_tx f) then g r else r)"
    if "row \<in> set T" "settled ch keccak d own row r" for row r
  proof (cases "tx_key r = (j, tf_step f, tf_tx f)")
    case True
    then have k: "tx_key row = (j, tf_step f, tf_tx f)" using that(2) by (simp add: settled_def)
    then have js: "justified ch keccak d own row f" using Cons.prems(1) that(1) by simp
    show ?thesis
      using True k js that(2) gk gc gf gi by (cases "tf_state f") (auto simp: settled_def justified_def)
  qed (use that in simp)
  have "list_all2 (settled ch keccak d own) T (job_transactions (reconcile_fact j now f e))"
    using Cons.prems(2) one unfolding g update_where_def list_all2_conv_all_nth by simp
  then have "list_all2 (settled ch keccak d own) T (job_transactions (fold (reconcile_fact j now) fs (reconcile_fact j now f e)))
      \<and> (\<exists>t. fold (reconcile_fact j now) fs (reconcile_fact j now f e) = (reconcile_fact j now f e)\<lparr>job_transactions := t\<rparr>)"
    using Cons.prems(1) by (intro Cons.IH) simp_all
  then show ?case by (auto simp: g)
qed

lemma justified_rows:
  assumes "list_all2 (justified ch keccak d own) (jobTransactions j d) fs" and "keys_ok tx_key (job_transactions d)"
    and "f \<in> set fs" and "row \<in> set (job_transactions d)" and "tx_key row = (j, tf_step f, tf_tx f)"
  shows "justified ch keccak d own row f"
proof -
  obtain r where r: "r \<in> set (jobTransactions j d)" "justified ch keccak d own r f"
    using assms(1,3) by (auto simp: list_all2_conv_all_nth in_set_conv_nth) (metis nth_mem)
  then have "r \<in> set (job_transactions d)" "t_job_id r = j" by (auto simp: jobTransactions_def select_where_def)
  then have "tx_key r = tx_key row" using r(2) assms(5) by (simp add: justified_def tx_key_def)
  then have "r = row" using \<open>r \<in> set (job_transactions d)\<close> assms(2,4) by (auto simp: keys_ok_def distinct_map inj_on_def)
  with r(2) show ?thesis by simp
qed

text \<open>
  C31. Reconciling writes only what the chain proved: every row of the transaction table keeps
  its key and stays as it was, or becomes confirmed where a successful receipt of exactly that
  owner, target and calldata was seen, or becomes failed where a reverted receipt was seen or
  the transaction was shown unable to land.  A pending or ambiguous transaction is never
  touched, and no other table changes.
\<close>

theorem reconcile_writes_only_evidence:
  assumes "reconcileRecoveryTransactions parse ch keccak j rc now d w = Inr ((fs, stps, d'), w')"
    and "keys_ok tx_key (job_transactions d)"
  shows "\<exists>job. recoveryJobById parse j d = Inr (Some job) \<and> d' = d\<lparr>job_transactions := job_transactions d'\<rparr> \<and>
     list_all2 (\<lambda>row row'. tx_key row' = tx_key row \<and>
        (row' = row \<or>
         t_state row' = Confirmed \<and> seen_landed ch keccak row (owner (rj_config job)) True \<or>
         t_state row' = FailedTx \<and> (seen_landed ch keccak row (owner (rj_config job)) False \<or>
           seen_spent ch keccak d row (owner (rj_config job)))))
       (job_transactions d) (job_transactions d')"
proof -
  obtain job where job: "recoveryJobById parse j d = Inr (Some job)"
    and all: "list_all2 (justified ch keccak d (owner (rj_config job))) (jobTransactions j d) fs"
    and d': "d' = (if rc then fold (reconcile_fact j now) fs d else d)"
    by (rule reconcile_justified [OF assms(1)])
  let ?own = "owner (rj_config job)"
  have start: "list_all2 (settled ch keccak d ?own) (job_transactions d) (job_transactions d)"
    by (rule list_all2_refl) (simp add: settled_def)
  have "list_all2 (settled ch keccak d ?own) (job_transactions d) (job_transactions d') \<and>
      (\<exists>t. d' = d\<lparr>job_transactions := t\<rparr>)"
  proof (cases rc)
    case True
    then show ?thesis
      using reconcile_fold [OF _ start, of fs j now] justified_rows [OF all assms(2)] d' by simp
  next
    case False
    then show ?thesis using start d' by (auto intro: exI [of _ "job_transactions d"])
  qed
  then show ?thesis using job by (auto simp: settled_def [abs_def])
qed

text \<open>The job is ready to be retried now, and its wallet is known.\<close>

definition eligible :: "int \<Rightarrow> db \<Rightarrow> string \<Rightarrow> job_row \<Rightarrow> bool" where
  "eligible now d w r \<longleftrightarrow>
     wallet_of_job d r = Some w \<and> job_state r = Recovery \<and> recoveryAttemptReady (job_id r) now d"

lemma select_jobs_spec:
  "distinct (map fst acc) \<Longrightarrow>
   distinct (map fst (select_jobs now d rs acc)) \<and>
   map_of (select_jobs now d rs acc) w = (case map_of acc w of Some r \<Rightarrow> Some r | None \<Rightarrow> find (eligible now d w) rs)"
proof (induction rs arbitrary: acc)
  case (Cons r rs)
  show ?case
  proof (cases "\<exists>v. eligible now d v r \<and> v \<notin> set (map fst acc)")
    case True
    then obtain v where v: "eligible now d v r" "v \<notin> set (map fst acc)" by blast
    then have step: "select_jobs now d (r # rs) acc = select_jobs now d rs (acc @ [(v, r)])"
      by (simp add: eligible_def)
    have "distinct (map fst (acc @ [(v, r)]))" using Cons.prems v(2) by auto
    from Cons.IH [OF this] v show ?thesis
      unfolding step by (auto simp: eligible_def map_add_def split: option.splits)
  next
    case False
    then have step: "select_jobs now d (r # rs) acc = select_jobs now d rs acc"
      by (auto simp: eligible_def split: option.splits)
    have "map_of acc w = None \<longrightarrow> \<not> eligible now d w r"
      using False by (auto simp: map_of_eq_None_iff)
    with Cons.IH [OF Cons.prems] show ?thesis unfolding step by (auto split: option.splits)
  qed
qed (simp split: option.splits)

text \<open>
  The supervisor recovers at most one job per signing wallet, and the right one: its
  selection never holds two jobs of a wallet, and for every wallet it holds the first job of the
  schedule that is in recovery, not quarantined and due, or none exactly when there is none.
\<close>

theorem supervisor_one_job_per_wallet:
  "distinct (map fst (selected_jobs now d)) \<and>
   map_of (selected_jobs now d) w = find (eligible now d w) (jobsForRecovery d)"
  using select_jobs_spec [of "[]" now d "jobsForRecovery d" w] by (simp add: selected_jobs_def)

end
