(* ===== verification/Supervisor.thy ===== *)
theory Supervisor
  imports RecoveryPolicy
begin

text \<open>
  \<open>executor/supervisor.ts\<close>: one recovery pass.  \<open>execute\<close> is \<open>executeRecovery\<close>, which may
  change the database and either throws or reports a disposition.  The jobs of one pass belong
  to different wallets; they are settled here one after the other, at one instant \<open>now\<close>.
\<close>

section \<open>Operations\<close>

text \<open>The value a store operation throws, as the handler sees it.\<close>

definition thrown_of :: "js_error \<Rightarrow> thrown" where
  "thrown_of e =
     \<lparr>th_is_error = True,
      th_code = (case e of JsError m \<Rightarrow> m | StrategyError _ m \<Rightarrow> m | _ \<Rightarrow> ''constraint failed''), th_chain = []\<rparr>"

definition strategy_audit :: "string \<Rightarrow> job_row \<Rightarrow> (string \<times> string) list \<Rightarrow> int \<Rightarrow> db \<Rightarrow> db" where
  "strategy_audit act r detail now d =
     audit ''supervisor'' act (Some ''strategy'') (Some (job_strategy_id r)) ((''jobId'', job_id r) # detail) now d"

definition bool_text :: "bool \<Rightarrow> string" where
  "bool_text b = (if b then ''true'' else ''false'')"

text \<open>The \<open>catch\<close> block; when scheduling throws too, \<open>Promise.allSettled\<close> swallows it.\<close>

definition recovery_failed :: "int \<Rightarrow> job_row \<Rightarrow> thrown \<Rightarrow> db \<Rightarrow> db" where
  "recovery_failed now r e d =
     (let code = (if th_is_error e then take 120 (th_code e) else ''E_RECOVERY'') in
      case scheduleRecoveryRetry (job_id r) code (\<not> isTransientRecoveryFailure e) now d of
        Inl _ \<Rightarrow> d
      | Inr (retry, d) \<Rightarrow>
          strategy_audit (if rr_quarantined retry then ''strategy_recovery_quarantined''
                          else ''strategy_recovery_retry_scheduled'') r
            [(''code'', code), (''delayMs'', big_to_string (rr_delayMs retry)),
             (''attempts'', big_to_string (rr_attempts retry)), (''streak'', big_to_string (rr_streak retry)),
             (''failStreak'', big_to_string (rr_failStreak retry)), (''escalating'', bool_text (rr_escalating retry))]
            now d)"

fun disposition_name :: "disposition \<Rightarrow> string" where
  "disposition_name RestartSafe = ''restart_safe''"
| "disposition_name ResumeCollect = ''resume_collect''"
| "disposition_name ResumeFromWallet = ''resume_from_wallet''"
| "disposition_name ResumeStakingExit = ''resume_staking_exit''"
| "disposition_name ResumeRevoke = ''resume_revoke''"
| "disposition_name CommitReady = ''commit_ready''"
| "disposition_name WaitPending = ''wait_pending''"
| "disposition_name ManualReview = ''manual_review''"

definition recovery_succeeded :: "int \<Rightarrow> int \<Rightarrow> job_row \<Rightarrow> disposition \<Rightarrow> db \<Rightarrow> retry_maps \<Rightarrow> (db \<times> retry_maps) res" where
  "recovery_succeeded now nowMs r dsp d m =
     bindR (clearRecoverySchedule (job_id r) d) (\<lambda>d.
       if dsp = RestartSafe
       then (let (delayMs, m) = deferStrategyRetry (job_strategy_id r) nowMs m in
             Inr (strategy_audit ''strategy_retry_scheduled'' r [(''delayMs'', big_to_string delayMs)] now d, m))
       else Inr (strategy_audit ''strategy_auto_recovered'' r [(''disposition'', disposition_name dsp)] now d,
                 clearStrategyRetry (job_strategy_id r) m))"

definition supervise_job ::
  "(string \<Rightarrow> db \<Rightarrow> (thrown + disposition) \<times> db) \<Rightarrow> int \<Rightarrow> int \<Rightarrow> job_row \<Rightarrow> db \<times> retry_maps \<Rightarrow> db \<times> retry_maps" where
  "supervise_job execute now nowMs r dm =
     (let (result, d) = execute (job_id r) (fst dm) in
      case result of
        Inl e \<Rightarrow> (recovery_failed now r e d, snd dm)
      | Inr dsp \<Rightarrow>
          (case recovery_succeeded now nowMs r dsp d (snd dm) of
             Inr dm \<Rightarrow> dm
           | Inl e \<Rightarrow> (recovery_failed now r (thrown_of e) d, snd dm)))"

record supervisor =
  sv_running :: bool
  sv_db :: db
  sv_maps :: retry_maps

definition superviseOnce ::
  "(string \<Rightarrow> db \<Rightarrow> (thrown + disposition) \<times> db) \<Rightarrow> int \<Rightarrow> int \<Rightarrow> supervisor \<Rightarrow> supervisor" where
  "superviseOnce execute now nowMs sv =
     (if sv_running sv \<or> executorPaused (sv_db sv) then sv
      else
        let (d, m) = fold (supervise_job execute now nowMs) (map snd (selected_jobs now (sv_db sv))) (sv_db sv, sv_maps sv)
        in sv\<lparr>sv_db := d, sv_maps := m\<rparr>)"

section \<open>Properties\<close>

lemma audit_jobs [simp]: "jobs (audit a b c e f now d) = jobs d"
  by (simp add: audit_def)

lemma recoveryAttemptReady_cong: "jobs d' = jobs d \<Longrightarrow> recoveryAttemptReady j t d' = recoveryAttemptReady j t d"
  by (simp add: recoveryAttemptReady_def)

lemma set_strategy_jobs [simp]: "jobs (set_strategy i s now d) = jobs d"
  by (simp add: set_strategy_def)

lemma get_where_unique:
  assumes "keys_ok key t" and "r \<in> set t" and "p r"
  shows "get_where (\<lambda>x. key x = key r \<and> p x) t = Some r"
proof -
  have "x = r" if "x \<in> set t" "key x = key r" for x
    using assms that by (auto simp: keys_ok_def distinct_map inj_on_def)
  moreover obtain y where y: "get_where (\<lambda>x. key x = key r \<and> p x) t = Some y"
    using assms(2,3) by (cases "get_where (\<lambda>x. key x = key r \<and> p x) t") (auto simp: get_where_None_iff)
  ultimately show ?thesis using get_where_SomeD [OF y] by auto
qed

text \<open>What a scheduled retry leaves in the job's row.\<close>

lemma schedule_next_at:
  assumes "keys_ok job_id (jobs d)" and "one_open_job_per_strategy (jobs d)" and "r \<in> set (jobs d)"
    and "job_state r = Recovery" and "0 \<le> recovery_attempts r"
  shows "\<exists>rep d' r' t. scheduleRecoveryRetry (job_id r) code el now d = Inr (rep, d') \<and>
     get_where (\<lambda>x. job_id x = job_id r) (jobs d') = Some r' \<and> keys_ok job_id (jobs d') \<and> job_state r' = Recovery \<and>
     recovery_attempts r' = recovery_attempts r + 1 \<and> recovery_next_at r' = Some t \<and> now + 5 \<le> t \<and> t \<le> now + 300 \<and>
     recovery_quarantined_at r' = (if rr_quarantined rep then Some now else None)"
proof -
  define df where "df = (el \<and> code = ''E_TX_REVERTED'' \<and> swapEscalationUncapped (job_id r) d)"
  define n where "n = nextRecoveryRetryState
      \<lparr>rp_attempts = recovery_attempts r, rp_errorStreak = recovery_error_streak r,
       rp_failStreak = recovery_fail_streak r, rp_lastError = recovery_last_error r\<rparr> code el df"
  define f where "f = (\<lambda>x :: job_row. x\<lparr>recovery_attempts := rn_attempts n, recovery_error_streak := rn_streak n,
      recovery_fail_streak := rn_failStreak n, recovery_last_error := Some (redactUrls code),
      recovery_next_at := Some (now + rn_delaySeconds n),
      recovery_quarantined_at := (if rn_quarantined n then Some now else None), job_updated := now\<rparr>)"
  have f: "job_id (f x) = job_id x" "job_strategy_id (f x) = job_strategy_id x" "job_state (f x) = job_state x" for x
    by (simp_all add: f_def)
  have row: "get_where (\<lambda>x. job_id x = job_id r \<and> job_state x = Recovery) (jobs d) = Some r"
    by (rule get_where_unique [where key = job_id, OF assms(1,3)]) (rule assms(4))
  have upd: "update_jobs (\<lambda>x. job_id x = job_id r) f d = Inr (d\<lparr>jobs := update_where (\<lambda>x. job_id x = job_id r) f (jobs d)\<rparr>)"
    by (rule update_jobs_keep_open [OF assms(2)]) (simp_all add: f)
  have delay: "5 \<le> rn_delaySeconds n" "rn_delaySeconds n \<le> 300" "rn_attempts n = recovery_attempts r + 1"
    using assms(5) recovery_delay.delay_lower [of "recovery_attempts r + 1"] recovery_delay.delay_upper [of "recovery_attempts r + 1"]
      deferred_delay.delay_lower [of "recovery_attempts r + 1"] deferred_delay.delay_upper [of "recovery_attempts r + 1"]
    by (simp_all add: n_def nextRecoveryRetryState_def Let_def)
  define d' where "d' = (let e = d\<lparr>jobs := update_where (\<lambda>x. job_id x = job_id r) f (jobs d)\<rparr> in
      if rn_quarantined n then set_strategy (job_strategy_id r) ''recovery_quarantined'' now e else e)"
  define rep where "rep = \<lparr>rr_attempts = rn_attempts n, rr_streak = rn_streak n, rr_failStreak = rn_failStreak n,
      rr_delayMs = rn_delaySeconds n * 1000, rr_quarantined = rn_quarantined n, rr_escalating = df\<rparr>"
  have run: "scheduleRecoveryRetry (job_id r) code el now d = Inr (rep, d')"
    by (simp only: scheduleRecoveryRetry_def row option.case Let_def df_def [symmetric] n_def [symmetric]
        f_def [symmetric] upd bindR_simps rep_def d'_def)
  have jobs': "jobs d' = update_where (\<lambda>x. job_id x = job_id r) f (jobs d)" by (simp add: d'_def Let_def)
  have "get_where (\<lambda>x. job_id x = job_id r) (jobs d) = Some r" using assms(1,3) by (simp add: get_where_Some_iff)
  then have get: "get_where (\<lambda>x. job_id x = job_id r) (jobs d') = Some (f r)"
    using get_update_same [of job_id f "job_id r" "jobs d"] f(1) by (simp add: jobs')
  have "keys_ok job_id (jobs d')" unfolding jobs' using assms(1) f(1) by (rule keys_ok_update)
  then have "scheduleRecoveryRetry (job_id r) code el now d = Inr (rep, d') \<and>
      get_where (\<lambda>x. job_id x = job_id r) (jobs d') = Some (f r) \<and> keys_ok job_id (jobs d') \<and> job_state (f r) = Recovery \<and>
      recovery_attempts (f r) = recovery_attempts r + 1 \<and> recovery_next_at (f r) = Some (now + rn_delaySeconds n) \<and>
      now + 5 \<le> now + rn_delaySeconds n \<and> now + rn_delaySeconds n \<le> now + 300 \<and>
      recovery_quarantined_at (f r) = (if rr_quarantined rep then Some now else None)"
    using run get delay assms(4) f(3) [of r] by (simp add: f_def rep_def)
  then show ?thesis by blast
qed

text \<open>
  C34. A failed recovery backs off and is retried: when the recovery of a job throws, the job
  stays in recovery with one more attempt counted, it is not due for at least five seconds, and
  after five minutes at most it is due again unless this failure quarantined it, in which case
  it is never due.
\<close>

theorem failed_recovery_backs_off:
  assumes "execute (job_id r) (fst dm) = (Inl e, d)"
    and "keys_ok job_id (jobs d)" and "one_open_job_per_strategy (jobs d)" and "r \<in> set (jobs d)"
    and "job_state r = Recovery" and "0 \<le> recovery_attempts r"
  shows "\<exists>d' r'. supervise_job execute now nowMs r dm = (d', snd dm) \<and>
     get_where (\<lambda>x. job_id x = job_id r) (jobs d') = Some r' \<and> job_state r' = Recovery \<and>
     recovery_attempts r' = recovery_attempts r + 1 \<and>
     (\<forall>t. recoveryAttemptReady (job_id r) t d' \<longrightarrow> now + 5 \<le> t \<and> recovery_quarantined_at r' = None) \<and>
     (recovery_quarantined_at r' = None \<longrightarrow> (\<forall>t \<ge> now + 300. recoveryAttemptReady (job_id r) t d'))"
proof -
  let ?code = "if th_is_error e then take 120 (th_code e) else ''E_RECOVERY''"
  obtain rep d1 r' t where s: "scheduleRecoveryRetry (job_id r) ?code (\<not> isTransientRecoveryFailure e) now d = Inr (rep, d1)"
    and g: "get_where (\<lambda>x. job_id x = job_id r) (jobs d1) = Some r'" and k: "keys_ok job_id (jobs d1)"
    and r': "job_state r' = Recovery" "recovery_attempts r' = recovery_attempts r + 1"
      "recovery_next_at r' = Some t" "now + 5 \<le> t" "t \<le> now + 300"
    using schedule_next_at [OF assms(2-6), of ?code "\<not> isTransientRecoveryFailure e" now] by blast
  obtain d' where d': "supervise_job execute now nowMs r dm = (d', snd dm)" and j: "jobs d' = jobs d1"
    using assms(1) s by (auto simp: supervise_job_def recovery_failed_def strategy_audit_def simp del: if_image_distrib)
  have id: "r' \<in> set (jobs d1)" "job_id r' = job_id r" using get_where_SomeD [OF g] by simp_all
  have "get_where (\<lambda>x. job_id x = job_id r \<and> job_state x = Recovery) (jobs d') = Some r'"
    using get_where_unique [where key = job_id and p = "\<lambda>x. job_state x = Recovery", OF k id(1) r'(1)] j id(2) by simp
  then have "recoveryAttemptReady (job_id r) u d' \<longleftrightarrow> recovery_quarantined_at r' = None \<and> t \<le> u" for u
    by (simp add: recoveryAttemptReady_def r'(3))
  then show ?thesis using d' g j r' by (intro exI [of _ d'] exI [of _ r']) auto
qed

section \<open>Witnesses\<close>

text \<open>A job in recovery whose only transaction was broadcast with nonce 5.\<close>

definition stuck_job :: job_row where
  "stuck_job = sample_job\<lparr>job_state := Recovery\<rparr>"

definition stuck_tx :: tx_row where
  "stuck_tx = sample_tx\<lparr>t_state := Sent, t_confirmed_at := None, t_block_number := None\<rparr>"

definition stuck_db :: db where
  "stuck_db = busy_db\<lparr>jobs := [stuck_job], job_transactions := [stuck_tx]\<rparr>"

text \<open>The hash is unknown to the chain and the account is past its nonce.\<close>

definition moved_on :: "unit chain" where
  "moved_on = \<lparr>ch_receipt = (\<lambda>_ u. (None, u)), ch_tx = (\<lambda>_ u. (None, u)),
     ch_latest = (\<lambda>_ u. Inr (6, u)), ch_pending = (\<lambda>_ u. Inr (6, u))\<rparr>"

definition keep_strategy :: "strategy_config parser" where
  "keep_strategy c = Inr c"

definition plain_hash :: "string \<Rightarrow> string" where
  "plain_hash s = s"

definition stuck_run :: "((tx_fact list \<times> step_row list \<times> db) \<times> unit) res" where
  "stuck_run = reconcileRecoveryTransactions keep_strategy moved_on plain_hash ''j1'' True 1000 stuck_db ()"

lemma stuck_run_Inr: "isInr stuck_run"
  by code_simp

theorem restart_only_when_nothing_can_land_witness:
  "\<exists>own. seen_landed moved_on plain_hash stuck_tx own False \<or> seen_spent moved_on plain_hash stuck_db stuck_tx own \<or>
     seen_landed moved_on plain_hash stuck_tx own True \<and> t_step_index stuck_tx \<notin> {1..8} \<union> {12..14}"
proof -
  obtain fs stps d' where run: "stuck_run = Inr ((fs, stps, d'), ())"
    using stuck_run_Inr by (auto simp: isInr_iff)
  have "case stuck_run of Inl _ \<Rightarrow> False | Inr r \<Rightarrow> classifyRecovery (fst (fst r)) [] = RestartSafe" by code_simp
  then have c: "classifyRecovery fs [] = RestartSafe" unfolding run by simp
  have "jobTransactions ''j1'' stuck_db = [stuck_tx]"
    by (simp add: jobTransactions_def select_where_def stuck_db_def stuck_tx_def sample_tx_def)
  with restart_only_when_nothing_can_land [OF run [unfolded stuck_run_def] c] show ?thesis by auto
qed

theorem reconcile_writes_only_evidence_witness:
  "\<exists>fs stps d'. stuck_run = Inr ((fs, stps, d'), ()) \<and> d' = stuck_db\<lparr>job_transactions := job_transactions d'\<rparr>"
proof -
  obtain fs stps d' where run: "stuck_run = Inr ((fs, stps, d'), ())"
    using stuck_run_Inr by (auto simp: isInr_iff)
  have "keys_ok tx_key (job_transactions stuck_db)" by (simp add: stuck_db_def keys_ok_def)
  from reconcile_writes_only_evidence [OF run [unfolded stuck_run_def] this] run show ?thesis by blast
qed

definition fail_recovery :: "string \<Rightarrow> db \<Rightarrow> (thrown + disposition) \<times> db" where
  "fail_recovery j d = (Inl \<lparr>th_is_error = True, th_code = ''E_TX_REVERTED'', th_chain = []\<rparr>, d)"

theorem failed_recovery_backs_off_witness:
  "\<exists>d' m. supervise_job fail_recovery 1000 1000000 stuck_job (stuck_db, \<lparr>rm_attempts = [], rm_retryAt = []\<rparr>) = (d', m) \<and>
     \<not> recoveryAttemptReady ''j1'' 1004 d'"
proof -
  let ?dm = "(stuck_db, \<lparr>rm_attempts = [], rm_retryAt = []\<rparr>)"
  have h: "fail_recovery (job_id stuck_job) (fst ?dm) = (Inl \<lparr>th_is_error = True, th_code = ''E_TX_REVERTED'', th_chain = []\<rparr>, stuck_db)"
    "keys_ok job_id (jobs stuck_db)" "one_open_job_per_strategy (jobs stuck_db)" "stuck_job \<in> set (jobs stuck_db)"
    "job_state stuck_job = Recovery" "0 \<le> recovery_attempts stuck_job"
    by (simp_all add: fail_recovery_def stuck_db_def keys_ok_def one_open_job_per_strategy_def stuck_job_def sample_job_def new_job_def)
  have j: "job_id stuck_job = ''j1''" by (simp add: stuck_job_def sample_job_def new_job_def)
  from failed_recovery_backs_off [where execute = fail_recovery and dm = ?dm, OF h, of 1000 1000000] obtain d' where
    run: "supervise_job fail_recovery 1000 1000000 stuck_job ?dm = (d', snd ?dm)"
    and wait: "\<forall>t. recoveryAttemptReady (job_id stuck_job) t d' \<longrightarrow> 1000 + 5 \<le> t" by blast
  have "\<not> recoveryAttemptReady ''j1'' 1004 d'" using spec [OF wait, of 1004] by (simp add: j)
  with run show ?thesis by blast
qed

end
