(* ===== verification/WalletLock.thy ===== *)
theory WalletLock
  imports Transition
begin

text \<open>
  \<open>executor/wallet-lock.ts\<close>: the chain of promises that serialises the signer operations of a
  wallet.  A call of \<open>withWalletLock\<close> is a ticket.  It remembers the tail it found in the map
  (\<open>previous\<close>) and leaves its own tail there; it starts its task once that tail has resolved and
  releases when the task ends.  A step is one of these three moments, in any interleaving.
\<close>

section \<open>State\<close>

datatype phase = Waiting | Holding | Freed

record ticket =
  tk_wallet :: string
  tk_prev :: "nat option"
  tk_phase :: phase

record lock_state =
  tickets :: "ticket list"
  tails :: "string \<Rightarrow> nat option"

definition lock_init :: lock_state where
  "lock_init = \<lparr>tickets = [], tails = Map.empty\<rparr>"

definition walletBusy :: "string \<Rightarrow> lock_state \<Rightarrow> bool" where
  "walletBusy w s \<longleftrightarrow> tails s w \<noteq> None"

definition holds_ticket :: "lock_state \<Rightarrow> nat \<Rightarrow> string \<Rightarrow> phase \<Rightarrow> bool" where
  "holds_ticket s n w p \<longleftrightarrow> n < length (tickets s) \<and> tk_wallet (tickets s ! n) = w \<and> tk_phase (tickets s ! n) = p"

text \<open>
  \<open>tail = previous.then(() => current)\<close>: it resolves when the found tail and the own release have.
\<close>

function tail_resolved :: "lock_state \<Rightarrow> nat \<Rightarrow> bool" where
  "tail_resolved s n \<longleftrightarrow> n < length (tickets s) \<and> tk_phase (tickets s ! n) = Freed \<and>
     (case tk_prev (tickets s ! n) of None \<Rightarrow> True | Some p \<Rightarrow> if p < n then tail_resolved s p else False)"
  by pat_completeness auto
termination
  by (relation "measure snd") auto

declare tail_resolved.simps [simp del]

section \<open>Steps\<close>

definition enter :: "string \<Rightarrow> lock_state \<Rightarrow> lock_state" where
  "enter w s =
     \<lparr>tickets = tickets s @ [\<lparr>tk_wallet = w, tk_prev = tails s w, tk_phase = Waiting\<rparr>],
      tails = (tails s)(w \<mapsto> length (tickets s))\<rparr>"

definition may_start :: "lock_state \<Rightarrow> nat \<Rightarrow> bool" where
  "may_start s n \<longleftrightarrow> n < length (tickets s) \<and> tk_phase (tickets s ! n) = Waiting \<and>
     (case tk_prev (tickets s ! n) of None \<Rightarrow> True | Some p \<Rightarrow> tail_resolved s p)"

definition set_phase :: "nat \<Rightarrow> phase \<Rightarrow> lock_state \<Rightarrow> lock_state" where
  "set_phase n p s = s\<lparr>tickets := (tickets s)[n := (tickets s ! n)\<lparr>tk_phase := p\<rparr>]\<rparr>"

text \<open>The \<open>finally\<close> block: release, and drop the map entry if no later call replaced it.\<close>

definition finish :: "nat \<Rightarrow> lock_state \<Rightarrow> lock_state" where
  "finish n s =
     (let w = tk_wallet (tickets s ! n); s = set_phase n Freed s
      in if tails s w = Some n then s\<lparr>tails := (tails s)(w := None)\<rparr> else s)"

inductive lock_step :: "lock_state \<Rightarrow> lock_state \<Rightarrow> bool" where
  step_enter: "lock_step s (enter w s)"
| step_start: "may_start s n \<Longrightarrow> lock_step s (set_phase n Holding s)"
| step_finish: "holds_ticket s n w Holding \<Longrightarrow> lock_step s (finish n s)"

section \<open>Invariant\<close>

text \<open>
  Every started ticket has only released ones before it on its wallet; a ticket's \<open>previous\<close> is
  the latest one before it; the map holds the latest ticket of a wallet or, when it holds none,
  all of them are released.
\<close>

definition earlier_freed :: "ticket list \<Rightarrow> nat \<Rightarrow> bool" where
  "earlier_freed ts n \<longleftrightarrow> (\<forall>m < n. tk_wallet (ts ! m) = tk_wallet (ts ! n) \<longrightarrow> tk_phase (ts ! m) = Freed)"

definition prev_ok :: "ticket list \<Rightarrow> nat \<Rightarrow> bool" where
  "prev_ok ts n \<longleftrightarrow>
     (case tk_prev (ts ! n) of
        None \<Rightarrow> earlier_freed ts n
      | Some p \<Rightarrow> p < n \<and> tk_wallet (ts ! p) = tk_wallet (ts ! n) \<and>
          (\<forall>m < n. tk_wallet (ts ! m) = tk_wallet (ts ! n) \<longrightarrow> m \<le> p))"

definition tail_ok :: "lock_state \<Rightarrow> string \<Rightarrow> bool" where
  "tail_ok s w \<longleftrightarrow>
     (case tails s w of
        None \<Rightarrow> (\<forall>m < length (tickets s). tk_wallet (tickets s ! m) = w \<longrightarrow> tk_phase (tickets s ! m) = Freed)
      | Some n \<Rightarrow> n < length (tickets s) \<and> tk_wallet (tickets s ! n) = w \<and>
          (\<forall>m < length (tickets s). tk_wallet (tickets s ! m) = w \<longrightarrow> m \<le> n))"

definition lock_inv :: "lock_state \<Rightarrow> bool" where
  "lock_inv s \<longleftrightarrow>
     (\<forall>n < length (tickets s). prev_ok (tickets s) n \<and>
        (tk_phase (tickets s ! n) \<noteq> Waiting \<longrightarrow> earlier_freed (tickets s) n)) \<and>
     (\<forall>w. tail_ok s w)"

lemma append_nth [simp]:
  "n < length ts \<Longrightarrow> earlier_freed (ts @ us) n = earlier_freed ts n"
  "n < length ts \<Longrightarrow> prev_ok (ts @ us) n = prev_ok ts n"
  by (auto simp: earlier_freed_def prev_ok_def nth_append split: option.splits)

lemma enter_inv:
  assumes inv: "lock_inv s"
  shows "lock_inv (enter w s)"
proof -
  let ?ts = "tickets s" and ?x = "\<lparr>tk_wallet = w, tk_prev = tails s w, tk_phase = Waiting\<rparr>"
  have old: "prev_ok ?ts n \<and> (tk_phase (?ts ! n) \<noteq> Waiting \<longrightarrow> earlier_freed ?ts n)" if "n < length ?ts" for n
    using inv that by (simp add: lock_inv_def)
  have tail: "tail_ok s v" for v using inv by (simp add: lock_inv_def)
  have "prev_ok (?ts @ [?x]) (length ?ts)"
    using tail [of w] by (auto simp: prev_ok_def earlier_freed_def tail_ok_def nth_append split: option.splits)
  moreover have "tail_ok (enter w s) v" for v
    using tail [of v] by (auto simp: tail_ok_def enter_def nth_append less_Suc_eq split: option.splits)
  ultimately show ?thesis
    using old by (auto simp: lock_inv_def enter_def nth_append less_Suc_eq)
qed

text \<open>Moving a ticket forward keeps every fact about wallets and about what is released.\<close>

lemma moved_nth:
  "n < length ts \<Longrightarrow> tk_wallet (ts[n := (ts ! n)\<lparr>tk_phase := p\<rparr>] ! m) = tk_wallet (ts ! m)"
  "n < length ts \<Longrightarrow> tk_prev (ts[n := (ts ! n)\<lparr>tk_phase := p\<rparr>] ! m) = tk_prev (ts ! m)"
  "n < length ts \<Longrightarrow> tk_phase (ts[n := (ts ! n)\<lparr>tk_phase := p\<rparr>] ! m) = (if m = n then p else tk_phase (ts ! m))"
  by (cases "m = n"; simp)+

lemma moved_keeps:
  assumes "n < length ts" and "tk_phase (ts ! n) \<noteq> Freed \<or> p = Freed"
  shows "earlier_freed ts k \<Longrightarrow> earlier_freed (ts[n := (ts ! n)\<lparr>tk_phase := p\<rparr>]) k"
    and "prev_ok ts k \<Longrightarrow> prev_ok (ts[n := (ts ! n)\<lparr>tk_phase := p\<rparr>]) k"
  using assms by (auto simp: earlier_freed_def prev_ok_def moved_nth split: option.splits)

text \<open>A resolved tail was released, and so was everything before it.\<close>

lemma tail_resolved_freed: "tail_resolved s n \<Longrightarrow> n < length (tickets s) \<and> tk_phase (tickets s ! n) = Freed"
  by (simp add: tail_resolved.simps [of s n])

lemma resolved_if_freed:
  "lock_inv s \<Longrightarrow> n < length (tickets s) \<Longrightarrow> tk_phase (tickets s ! n) = Freed \<Longrightarrow> tail_resolved s n"
proof (induction n rule: less_induct)
  case (less n)
  have ok: "prev_ok (tickets s) n" "earlier_freed (tickets s) n" using less.prems by (auto simp: lock_inv_def)
  show ?case
  proof (cases "tk_prev (tickets s ! n)")
    case None
    with less.prems show ?thesis by (simp add: tail_resolved.simps [of s n])
  next
    case (Some p)
    with ok have "p < n" "tk_phase (tickets s ! p) = Freed" by (auto simp: prev_ok_def earlier_freed_def)
    with less Some show ?thesis by (simp add: tail_resolved.simps [of s n])
  qed
qed

lemma earlier_freed_resolved:
  assumes "lock_inv s" and "n < length (tickets s)" and "earlier_freed (tickets s) n" and "tk_prev (tickets s ! n) = Some p"
  shows "tail_resolved s p"
proof -
  have "prev_ok (tickets s) n" using assms(1,2) by (simp add: lock_inv_def)
  then have "p < n" "tk_phase (tickets s ! p) = Freed" using assms(3,4) by (auto simp: prev_ok_def earlier_freed_def)
  with assms(1,2) show ?thesis by (intro resolved_if_freed) auto
qed

lemma may_start_earlier:
  assumes inv: "lock_inv s" and st: "may_start s n"
  shows "earlier_freed (tickets s) n"
proof -
  have n: "n < length (tickets s)" and pr: "prev_ok (tickets s) n"
    using inv st by (auto simp: may_start_def lock_inv_def)
  show ?thesis
  proof (cases "tk_prev (tickets s ! n)")
    case None
    with pr show ?thesis by (simp add: prev_ok_def)
  next
    case (Some p)
    with st have p: "p < length (tickets s)" "tk_phase (tickets s ! p) = Freed"
      by (auto simp: may_start_def dest: tail_resolved_freed)
    then have before: "earlier_freed (tickets s) p" using inv by (simp add: lock_inv_def)
    show ?thesis
      unfolding earlier_freed_def
    proof (intro allI impI)
      fix m
      assume m: "m < n" "tk_wallet (tickets s ! m) = tk_wallet (tickets s ! n)"
      then have "m \<le> p" "tk_wallet (tickets s ! p) = tk_wallet (tickets s ! n)" using pr Some by (auto simp: prev_ok_def)
      then show "tk_phase (tickets s ! m) = Freed"
        using p(2) before m(2) by (cases "m = p") (auto simp: earlier_freed_def)
    qed
  qed
qed

lemma set_phase_inv:
  assumes inv: "lock_inv s" and n: "n < length (tickets s)" and p: "tk_phase (tickets s ! n) \<noteq> Freed"
    and e: "earlier_freed (tickets s) n"
  shows "lock_inv (set_phase n p s)"
proof -
  let ?ts = "tickets s" and ?us = "(tickets s)[n := (tickets s ! n)\<lparr>tk_phase := p\<rparr>]"
  have "prev_ok ?us m \<and> (tk_phase (?us ! m) \<noteq> Waiting \<longrightarrow> earlier_freed ?us m)" if "m < length ?ts" for m
  proof -
    have "prev_ok ?ts m" "tk_phase (?ts ! m) \<noteq> Waiting \<longrightarrow> earlier_freed ?ts m"
      using inv that by (auto simp: lock_inv_def)
    then show ?thesis
      using moved_keeps [OF n disjI1 [OF p], of m] e by (cases "m = n") (auto simp: moved_nth n)
  qed
  moreover have "tail_ok (set_phase n p s) w" for w
  proof -
    have "tail_ok s w" using inv by (simp add: lock_inv_def)
    then show ?thesis using n p by (auto simp: tail_ok_def set_phase_def moved_nth split: option.splits)
  qed
  ultimately show ?thesis by (simp add: lock_inv_def set_phase_def)
qed

lemma finish_inv:
  assumes inv: "lock_inv s" and h: "holds_ticket s n w Holding"
  shows "lock_inv (finish n s)"
proof -
  have n: "n < length (tickets s)" "tk_phase (tickets s ! n) \<noteq> Freed" "earlier_freed (tickets s) n"
    using inv h by (auto simp: holds_ticket_def lock_inv_def)
  let ?s = "set_phase n Freed s"
  have i: "lock_inv ?s" by (rule set_phase_inv [OF inv n])
  show ?thesis
  proof (cases "tails ?s (tk_wallet (tickets s ! n)) = Some n")
    case False
    then show ?thesis using i by (simp add: finish_def Let_def)
  next
    case True
    have t: "tail_ok ?s v" for v using i by (simp add: lock_inv_def)
    have fr: "tk_phase (tickets ?s ! m) = Freed"
      if "m < length (tickets s)" "tk_wallet (tickets ?s ! m) = tk_wallet (tickets s ! n)" for m
    proof (cases "m = n")
      case False
      have "m \<le> n" using t [of "tk_wallet (tickets s ! n)"] True that by (auto simp: tail_ok_def set_phase_def)
      with False n(3) that show ?thesis by (auto simp: earlier_freed_def set_phase_def moved_nth n(1))
    qed (simp add: set_phase_def n(1))
    have "tail_ok (?s\<lparr>tails := (tails ?s)(tk_wallet (tickets s ! n) := None)\<rparr>) v" for v
    proof (cases "v = tk_wallet (tickets s ! n)")
      case True
      then show ?thesis using fr by (simp add: tail_ok_def set_phase_def)
    next
      case False
      then show ?thesis using t [of v] by (cases "tails ?s v") (simp_all add: tail_ok_def)
    qed
    then show ?thesis using i True by (simp add: finish_def Let_def lock_inv_def)
  qed
qed

interpretation wallet_lock: invariant_system "(=) lock_init" lock_step lock_inv
proof unfold_locales
  fix s
  assume "lock_init = s"
  then show "lock_inv s" by (auto simp: lock_init_def lock_inv_def tail_ok_def)
next
  fix s t
  assume inv: "lock_inv s" and "lock_step s t"
  from \<open>lock_step s t\<close> show "lock_inv t"
  proof (cases rule: lock_step.cases)
    case (step_enter w)
    with enter_inv [OF inv] show ?thesis by simp
  next
    case (step_start n)
    with set_phase_inv [OF inv _ _ may_start_earlier [OF inv]] show ?thesis by (auto simp: may_start_def)
  next
    case (step_finish n w)
    with finish_inv [OF inv] show ?thesis by simp
  qed
qed


section \<open>Properties\<close>

text \<open>
  C17. The wallet lock is a lock: in every state reachable by any interleaving of calls, starts
  and releases, at most one task of a wallet runs, tasks of a wallet start in the order of their
  calls, a wallet with an unfinished call is busy, and the oldest unfinished call of a wallet is
  running or may start, so no task waits for ever behind a finished one.
\<close>

theorem wallet_lock_exclusive_fair:
  assumes "reachable ((=) lock_init) lock_step s"
  shows "(holds_ticket s m w Holding \<and> holds_ticket s n w Holding \<longrightarrow> m = n) \<and>
     (holds_ticket s n w p \<and> p \<noteq> Waiting \<and> holds_ticket s m w q \<and> m < n \<longrightarrow> q = Freed) \<and>
     (holds_ticket s n w p \<and> p \<noteq> Freed \<longrightarrow> walletBusy w s) \<and>
     (holds_ticket s n w Waiting \<and> earlier_freed (tickets s) n \<longrightarrow> may_start s n)"
proof -
  have inv: "lock_inv s" by (rule wallet_lock.reachable_inv [OF assms])
  then have started: "holds_ticket s n w p \<Longrightarrow> p \<noteq> Waiting \<Longrightarrow> holds_ticket s m w q \<Longrightarrow> m < n \<Longrightarrow> q = Freed" for n m p q
    by (auto simp: lock_inv_def holds_ticket_def earlier_freed_def)
  have "holds_ticket s m w Holding \<Longrightarrow> holds_ticket s n w Holding \<Longrightarrow> m = n"
    using started [of n Holding m Holding] started [of m Holding n Holding] by (cases m n rule: linorder_cases) auto
  moreover have "walletBusy w s" if "holds_ticket s n w p" "p \<noteq> Freed"
  proof (rule ccontr)
    assume "\<not> walletBusy w s"
    moreover have "tail_ok s w" using inv by (simp add: lock_inv_def)
    ultimately show False using that by (auto simp: walletBusy_def tail_ok_def holds_ticket_def)
  qed
  moreover have "may_start s n" if "holds_ticket s n w Waiting" "earlier_freed (tickets s) n"
    using that earlier_freed_resolved [OF inv] by (auto simp: may_start_def holds_ticket_def split: option.splits)
  ultimately show ?thesis using started by blast
qed


text \<open>Two calls on one wallet, the first one running.\<close>

definition sample_lock :: lock_state where
  "sample_lock = set_phase 0 Holding (enter ''w1'' (enter ''w1'' lock_init))"

theorem wallet_lock_exclusive_fair_witness:
  "\<not> holds_ticket sample_lock 1 ''w1'' Holding \<and> walletBusy ''w1'' sample_lock"
proof -
  have h: "holds_ticket sample_lock 0 ''w1'' Holding" by code_simp
  have "may_start (enter ''w1'' (enter ''w1'' lock_init)) 0" by (simp add: may_start_def enter_def lock_init_def)
  then have r: "reachable ((=) lock_init) lock_step sample_lock"
    unfolding sample_lock_def by (intro reachable.more [OF reachable.more [OF reachable.more [OF reachable.start]]])
      (auto intro: lock_step.intros)
  show ?thesis
    using wallet_lock_exclusive_fair [OF r, of 0 "''w1''" 1 Holding Waiting]
      wallet_lock_exclusive_fair [OF r, of 0 "''w1''" 0 Holding Waiting] h by auto
qed

end
