(* ===== verification/ResponseCache.thy ===== *)
theory ResponseCache
  imports Prelude
begin

text \<open>
  \<open>indexer/responseCache.ts\<close>: the process-local LRU of serialised responses.  The JavaScript
  \<open>Map\<close> is its list of entries in insertion order, which is the order of last use.
\<close>

section \<open>State and operations\<close>

record response =
  rs_body :: string
  rs_etag :: string
  rs_createdAt :: int
  rs_freshUntil :: int
  rs_staleUntil :: int

datatype freshness = Fresh | Stale

record cache =
  maxEntries :: nat
  freshMs :: int
  staleMs :: int
  entries :: "(string \<times> response) list"
  hits :: nat
  misses :: nat
  staleHits :: nat
  evictions :: nat

text \<open>The constructor's clamps; the arguments are the floors of the given numbers.\<close>

definition new_cache :: "int \<Rightarrow> int \<Rightarrow> int \<Rightarrow> cache" where
  "new_cache entriesMax fresh stale =
     \<lparr>maxEntries = nat (max 1 entriesMax), freshMs = max 1 fresh, staleMs = max (max 1 fresh) stale,
      entries = [], hits = 0, misses = 0, staleHits = 0, evictions = 0\<rparr>"

definition drop_key :: "string \<Rightarrow> (string \<times> response) list \<Rightarrow> (string \<times> response) list" where
  "drop_key k es = filter (\<lambda>e. fst e \<noteq> k) es"

definition cache_get :: "string \<Rightarrow> int \<Rightarrow> cache \<Rightarrow> (response \<times> freshness) option \<times> cache" where
  "cache_get k t c =
     (case map_of (entries c) k of
        None \<Rightarrow> (None, c\<lparr>misses := misses c + 1\<rparr>)
      | Some r \<Rightarrow>
          if t \<ge> rs_staleUntil r
          then (None, c\<lparr>entries := drop_key k (entries c), misses := misses c + 1\<rparr>)
          else
            let c = c\<lparr>entries := drop_key k (entries c) @ [(k, r)]\<rparr> in
            if t < rs_freshUntil r then (Some (r, Fresh), c\<lparr>hits := hits c + 1\<rparr>)
            else (Some (r, Stale), c\<lparr>staleHits := staleHits c + 1\<rparr>))"

text \<open>\<open>while (size > maxEntries)\<close>: drop the oldest entry.\<close>

fun evict :: "nat \<Rightarrow> (string \<times> response) list \<Rightarrow> nat \<Rightarrow> (string \<times> response) list \<times> nat" where
  "evict m [] n = ([], n)"
| "evict m (e # es) n = (if length (e # es) > m then evict m es (n + 1) else (e # es, n))"

definition new_response :: "string \<Rightarrow> string \<Rightarrow> int \<Rightarrow> cache \<Rightarrow> response" where
  "new_response body etag t c =
     \<lparr>rs_body = body, rs_etag = etag, rs_createdAt = t, rs_freshUntil = t + freshMs c, rs_staleUntil = t + staleMs c\<rparr>"

definition cache_set :: "string \<Rightarrow> string \<Rightarrow> string \<Rightarrow> int \<Rightarrow> cache \<Rightarrow> response \<times> cache" where
  "cache_set k body etag t c =
     (let r = new_response body etag t c;
          (es, n) = evict (maxEntries c) (drop_key k (entries c) @ [(k, r)]) (evictions c)
      in (r, c\<lparr>entries := es, evictions := n\<rparr>))"

definition cache_clear :: "cache \<Rightarrow> cache" where
  "cache_clear c = c\<lparr>entries := [], hits := 0, misses := 0, staleHits := 0, evictions := 0\<rparr>"

definition cache_stats :: "cache \<Rightarrow> nat \<times> nat \<times> nat \<times> nat \<times> nat \<times> nat" where
  "cache_stats c = (length (entries c), maxEntries c, hits c, misses c, staleHits c, evictions c)"

section \<open>Runs\<close>

datatype cache_op = OGet string int | OSet string string string int

fun op_key :: "cache_op \<Rightarrow> string" where
  "op_key (OGet k _) = k"
| "op_key (OSet k _ _ _) = k"

fun do_op :: "cache_op \<Rightarrow> cache \<Rightarrow> cache" where
  "do_op (OGet k t) c = snd (cache_get k t c)"
| "do_op (OSet k b e t) c = snd (cache_set k b e t c)"

section \<open>Lemmas\<close>

lemma evict_eq: "fst (evict m es n) = drop (length es - m) es"
  by (induction es arbitrary: n) (auto simp: Suc_diff_le not_less)

lemma drop_key_notin: "k \<notin> fst ` set es \<Longrightarrow> drop_key k es = es"
  by (auto simp: drop_key_def filter_id_conv)

lemma set_drop_key: "fst ` set (drop_key k es) = fst ` set es - {k}"
  by (auto simp: drop_key_def)

lemma map_of_drop_key: "map_of (drop_key k es) j = (if j = k then None else map_of es j)"
  by (induction es) (auto simp: drop_key_def)

text \<open>What every operation keeps: distinct keys, the size bound, and sane lifetimes.\<close>

definition cache_ok :: "cache \<Rightarrow> bool" where
  "cache_ok c \<longleftrightarrow> distinct (map fst (entries c)) \<and> length (entries c) \<le> maxEntries c \<and> 0 < maxEntries c \<and>
     0 < freshMs c \<and> freshMs c \<le> staleMs c \<and>
     (\<forall>e \<in> set (entries c). rs_freshUntil (snd e) = rs_createdAt (snd e) + freshMs c \<and>
        rs_staleUntil (snd e) = rs_createdAt (snd e) + staleMs c)"

lemma new_cache_ok: "cache_ok (new_cache m f s)"
  by (auto simp: cache_ok_def new_cache_def)

lemma distinct_drop_key: "distinct (map fst es) \<Longrightarrow> distinct (map fst (drop_key k es))"
  by (simp add: drop_key_def distinct_map_filter)

lemma length_drop_key: "map_of es k = Some r \<Longrightarrow> length (drop_key k es) < length es"
  by (auto simp: drop_key_def dest!: map_of_SomeD intro!: length_filter_less)

lemma cache_get_ok:
  assumes "cache_ok c"
  shows "cache_ok (snd (cache_get k t c))"
proof (cases "map_of (entries c) k")
  case None
  with assms show ?thesis by (simp add: cache_get_def cache_ok_def)
next
  case (Some r)
  have "distinct (map fst (drop_key k (entries c) @ [(k, r)]))"
    using assms by (auto simp: cache_ok_def distinct_drop_key simp flip: set_map) (simp add: set_drop_key)
  moreover have "length (drop_key k (entries c)) < length (entries c)" by (rule length_drop_key [OF Some])
  moreover have "(k, r) \<in> set (entries c)" by (rule map_of_SomeD [OF Some])
  ultimately show ?thesis
    using assms Some by (auto simp: cache_get_def cache_ok_def Let_def drop_key_def)
qed

lemma entries_set:
  "entries (snd (cache_set k b e t c)) =
     (let es = drop_key k (entries c) @ [(k, new_response b e t c)] in drop (length es - maxEntries c) es)"
  by (simp add: cache_set_def Let_def split_beta evict_eq)

lemma cache_set_frame [simp]:
  "maxEntries (snd (cache_set k b e t c)) = maxEntries c"
  "freshMs (snd (cache_set k b e t c)) = freshMs c"
  "staleMs (snd (cache_set k b e t c)) = staleMs c"
  by (simp_all add: cache_set_def Let_def split_beta)

lemma cache_get_frame [simp]:
  "maxEntries (snd (cache_get k t c)) = maxEntries c"
  "freshMs (snd (cache_get k t c)) = freshMs c"
  "staleMs (snd (cache_get k t c)) = staleMs c"
  by (simp_all add: cache_get_def Let_def split: option.splits)

lemma cache_set_ok:
  assumes "cache_ok c"
  shows "cache_ok (snd (cache_set k b e t c))"
proof -
  define es where "es = drop_key k (entries c) @ [(k, new_response b e t c)]"
  define us where "us = drop (length es - maxEntries c) es"
  have "distinct (map fst es)"
    using assms unfolding es_def by (auto simp: cache_ok_def distinct_drop_key simp flip: set_map) (simp add: set_drop_key)
  then have "distinct (map fst us)" by (simp add: us_def drop_map [symmetric] distinct_drop)
  moreover have "length us \<le> maxEntries c" by (simp add: us_def)
  moreover have "set us \<subseteq> insert (k, new_response b e t c) (set (entries c))"
  proof
    fix x
    assume "x \<in> set us"
    then have "x \<in> set es" unfolding us_def by (rule in_set_dropD)
    then show "x \<in> insert (k, new_response b e t c) (set (entries c))" by (auto simp: es_def drop_key_def)
  qed
  then have "\<forall>x \<in> set us. rs_freshUntil (snd x) = rs_createdAt (snd x) + freshMs c \<and>
      rs_staleUntil (snd x) = rs_createdAt (snd x) + staleMs c"
    using assms by (force simp: cache_ok_def new_response_def)
  moreover have "entries (snd (cache_set k b e t c)) = us" by (simp add: entries_set us_def es_def Let_def)
  ultimately show ?thesis using assms by (simp add: cache_ok_def)
qed

lemma do_op_ok: "cache_ok c \<Longrightarrow> cache_ok (do_op x c)"
  by (cases x) (simp_all add: cache_get_ok cache_set_ok)

lemma do_op_frame [simp]:
  "maxEntries (do_op x c) = maxEntries c" "freshMs (do_op x c) = freshMs c" "staleMs (do_op x c) = staleMs c"
  by (cases x; simp)+

lemma run_ok: "cache_ok c \<Longrightarrow> cache_ok (fold do_op xs c)"
  by (induction xs arbitrary: c) (simp_all add: do_op_ok)

lemma run_frame [simp]:
  "maxEntries (fold do_op xs c) = maxEntries c" "freshMs (fold do_op xs c) = freshMs c"
  "staleMs (fold do_op xs c) = staleMs c"
  by (induction xs arbitrary: c) simp_all

section \<open>What is served\<close>

lemma map_of_drop: "distinct (map fst es) \<Longrightarrow> map_of (drop n es) k = Some r \<Longrightarrow> map_of es k = Some r"
  using map_of_SomeD [of "drop n es" k r] in_set_dropD [of "(k, r)" n es] by (simp add: map_of_is_SomeI)

text \<open>An operation keeps a key's entry or drops it, and only setting the key changes it.\<close>

lemma map_of_do_op:
  assumes "cache_ok c" and "map_of (entries (do_op x c)) k = Some r"
  shows "(\<exists>b e t. x = OSet k b e t \<and> r = new_response b e t c) \<or>
     (\<forall>b e t. x \<noteq> OSet k b e t) \<and> map_of (entries c) k = Some r"
proof (cases x)
  case (OGet j t)
  with assms show ?thesis
    by (auto simp: cache_get_def Let_def map_of_drop_key map_add_def split: option.splits if_split_asm)
next
  case (OSet j b e t)
  let ?es = "drop_key j (entries c) @ [(j, new_response b e t c)]"
  have "distinct (map fst ?es)"
    using assms(1) by (auto simp: cache_ok_def distinct_drop_key simp flip: set_map) (simp add: set_drop_key)
  moreover have "map_of (drop (length ?es - maxEntries c) ?es) k = Some r"
    using assms(2) OSet by (simp add: entries_set Let_def)
  ultimately have "map_of ?es k = Some r" by (rule map_of_drop)
  with OSet show ?thesis by (auto simp: map_of_drop_key map_add_def split: if_split_asm option.splits)
qed

lemma served_was_set:
  "cache_ok c \<Longrightarrow> map_of (entries (fold do_op xs c)) k = Some r \<Longrightarrow>
   (\<exists>ys b e t zs. xs = ys @ OSet k b e t # zs \<and> r = new_response b e t c \<and> (\<forall>b e t. OSet k b e t \<notin> set zs)) \<or>
   map_of (entries c) k = Some r \<and> (\<forall>b e t. OSet k b e t \<notin> set xs)"
proof (induction xs rule: rev_induct)
  case (snoc x xs)
  have ok: "cache_ok (fold do_op xs c)" by (rule run_ok [OF snoc.prems(1)])
  have m: "map_of (entries (do_op x (fold do_op xs c))) k = Some r" using snoc.prems(2) by simp
  from map_of_do_op [OF ok m] show ?case
  proof
    assume "\<exists>b e t. x = OSet k b e t \<and> r = new_response b e t (fold do_op xs c)"
    then obtain b e t where "x = OSet k b e t" "r = new_response b e t c" by (auto simp: new_response_def)
    then have "xs @ [x] = xs @ OSet k b e t # [] \<and> r = new_response b e t c \<and> (\<forall>b e t. OSet k b e t \<notin> set [])" by simp
    then show ?case by blast
  next
    assume x: "(\<forall>b e t. x \<noteq> OSet k b e t) \<and> map_of (entries (fold do_op xs c)) k = Some r"
    with snoc.IH snoc.prems(1) consider
      ys b e t zs where "xs = ys @ OSet k b e t # zs" "r = new_response b e t c" "\<forall>b e t. OSet k b e t \<notin> set zs"
      | "map_of (entries c) k = Some r" "\<forall>b e t. OSet k b e t \<notin> set xs" by blast
    then show ?case
    proof cases
      case 1
      then have "xs @ [x] = ys @ OSet k b e t # (zs @ [x]) \<and> r = new_response b e t c \<and> (\<forall>b e t. OSet k b e t \<notin> set (zs @ [x]))"
        using x by auto
      then show ?thesis by blast
    next
      case 2
      with x show ?thesis by auto
    qed
  qed
qed simp

text \<open>
  The response cache never serves an outdated answer: whatever a sequence of reads and
  writes did, a served response is the one most recently written for its key, it has not reached
  its stale limit, and it is called fresh exactly when it has not reached its fresh limit; and
  the cache never holds more than its maximum number of entries.
\<close>

theorem cache_serves_latest_within_lifetime:
  assumes "cache_get k u (fold do_op xs (new_cache m f s)) = (Some (r, fr), c')"
  shows "\<exists>ys b e t zs. xs = ys @ OSet k b e t # zs \<and> (\<forall>b e t. OSet k b e t \<notin> set zs) \<and>
     rs_body r = b \<and> rs_etag r = e \<and> u < t + max (max 1 f) s \<and> (fr = Fresh \<longleftrightarrow> u < t + max 1 f) \<and>
     length (entries c') \<le> nat (max 1 m)"
proof -
  let ?n = "new_cache m f s" and ?c = "fold do_op xs (new_cache m f s)"
  have r: "map_of (entries ?c) k = Some r" "u < rs_staleUntil r" "fr = Fresh \<longleftrightarrow> u < rs_freshUntil r"
    using assms by (auto simp: cache_get_def Let_def split: option.splits if_split_asm)
  obtain ys b e t zs where x: "xs = ys @ OSet k b e t # zs" "r = new_response b e t ?n" "\<forall>b e t. OSet k b e t \<notin> set zs"
    using served_was_set [OF new_cache_ok r(1)] by (auto simp: new_cache_def)
  have "cache_ok (snd (cache_get k u ?c))" by (intro cache_get_ok run_ok new_cache_ok)
  then have "length (entries (snd (cache_get k u ?c))) \<le> maxEntries (snd (cache_get k u ?c))" by (simp only: cache_ok_def)
  moreover have "maxEntries (snd (cache_get k u ?c)) = nat (max 1 m)" by simp (simp add: new_cache_def)
  ultimately have "length (entries c') \<le> nat (max 1 m)" by (simp only: assms snd_conv)
  with x r show ?thesis
    by (intro exI [of _ ys] exI [of _ b] exI [of _ e] exI [of _ t] exI [of _ zs]) (simp add: new_response_def new_cache_def)
qed

text \<open>The keys used after \<open>k\<close>: what follows its entry.\<close>

definition newer :: "string \<Rightarrow> (string \<times> response) list \<Rightarrow> string set" where
  "newer k es = fst ` set (tl (dropWhile (\<lambda>e. fst e \<noteq> k) es))"

lemma newer_append: "k \<in> fst ` set es \<Longrightarrow> newer k (es @ us) = newer k es \<union> fst ` set us"
proof (induction es)
  case (Cons e es)
  then show ?case by (cases "fst e = k") (auto simp: newer_def)
qed simp

lemma newer_drop_key: "j \<noteq> k \<Longrightarrow> newer k (drop_key j es) \<subseteq> newer k es"
proof (induction es)
  case (Cons e es)
  then show ?case by (cases "fst e = k") (auto simp: newer_def drop_key_def)
qed (simp add: drop_key_def)

lemma newer_last: "k \<notin> fst ` set es \<Longrightarrow> newer k (es @ [(k, r)]) = {}"
  by (induction es) (auto simp: newer_def)

text \<open>An entry with fewer than \<open>n\<close> newer ones survives dropping the oldest down to \<open>n\<close>.\<close>

lemma keep_recent:
  assumes "distinct (map fst es)" and "map_of es k = Some r" and "card (newer k es) < n"
  shows "map_of (drop (length es - n) es) k = Some r \<and> newer k (drop (length es - n) es) = newer k es"
  using assms
proof (induction es)
  case (Cons e es)
  show ?case
  proof (cases "fst e = k")
    case True
    then have "newer k (e # es) = fst ` set es" by (simp add: newer_def)
    then have "length es < n"
      using Cons.prems(1,3) distinct_card [of "map fst es"] by simp
    then have "length (e # es) - n = 0" by simp
    then show ?thesis using Cons.prems(2) by (simp only: drop_0)
  next
    case False
    then have n: "newer k (e # es) = newer k es" by (simp add: newer_def)
    have ih: "map_of (drop (length es - n) es) k = Some r \<and> newer k (drop (length es - n) es) = newer k es"
      using Cons.prems False n by (intro Cons.IH) auto
    show ?thesis
    proof (cases "length es < n")
      case True
      then have "length (e # es) - n = 0" by simp
      then show ?thesis using Cons.prems(2) by (simp only: drop_0)
    next
      case False
      then have "drop (length (e # es) - n) (e # es) = drop (length es - n) es"
        by (simp add: Suc_diff_le not_less)
      then show ?thesis using ih n by simp
    qed
  qed
qed simp

text \<open>The entry of \<open>k\<close> is \<open>r\<close> and only keys of \<open>K\<close> were used after it.\<close>

definition recent :: "string \<Rightarrow> response \<Rightarrow> string set \<Rightarrow> cache \<Rightarrow> bool" where
  "recent k r K c \<longleftrightarrow> cache_ok c \<and> map_of (entries c) k = Some r \<and> newer k (entries c) \<subseteq> K"

lemma recent_set_same: "cache_ok c \<Longrightarrow> recent k (new_response b e t c) {} (snd (cache_set k b e t c))"
proof -
  assume ok: "cache_ok c"
  let ?r = "new_response b e t c" and ?es = "drop_key k (entries c) @ [(k, new_response b e t c)]"
  have "k \<notin> fst ` set (drop_key k (entries c))" by (simp add: set_drop_key)
  then have n: "newer k ?es = {}" by (rule newer_last)
  have "distinct (map fst ?es)"
    using ok by (auto simp: cache_ok_def distinct_drop_key simp flip: set_map) (simp add: set_drop_key)
  moreover have "map_of ?es k = Some ?r" by (simp add: map_of_drop_key map_add_def)
  ultimately have "map_of (drop (length ?es - maxEntries c) ?es) k = Some ?r \<and> newer k (drop (length ?es - maxEntries c) ?es) = {}"
    using keep_recent [of ?es k ?r "maxEntries c"] ok by (simp add: n cache_ok_def)
  then show ?thesis using cache_set_ok [OF ok] by (simp add: recent_def entries_set Let_def)
qed

lemma recent_step:
  assumes "recent k r K c" and "finite K" and "card K < maxEntries c" and "op_key x \<noteq> k \<Longrightarrow> op_key x \<in> K"
    and "\<And>b e t. x \<noteq> OSet k b e t" and "\<And>t. x = OGet k t \<Longrightarrow> t < rs_staleUntil r"
  shows "recent k r K (do_op x c)"
proof (cases x)
  case (OGet j t)
  have ok: "cache_ok (do_op x c)" using assms(1) by (simp add: recent_def do_op_ok)
  show ?thesis
  proof (cases "j = k")
    case True
    have "k \<notin> fst ` set (drop_key k (entries c))" by (simp add: set_drop_key)
    then have "newer k (drop_key k (entries c) @ [(k, r)]) = {}" by (rule newer_last)
    with assms(1,6) OGet True ok show ?thesis
      by (auto simp: recent_def cache_get_def Let_def map_of_drop_key map_add_def)
  next
    case False
    have k: "k \<in> fst ` set (drop_key j (entries c))"
      using assms(1) False by (auto simp: recent_def set_drop_key dest!: map_of_SomeD intro: rev_image_eqI)
    with assms(1,4) OGet False ok newer_drop_key [of j k "entries c"] show ?thesis
      by (auto simp: recent_def cache_get_def Let_def map_of_drop_key map_add_def newer_append split: option.splits)
  qed
next
  case (OSet j b e t)
  then have j: "j \<noteq> k" "j \<in> K" using assms(4,5) by auto
  let ?es = "drop_key j (entries c) @ [(j, new_response b e t c)]"
  have ok: "cache_ok c" and m: "map_of (entries c) k = Some r" using assms(1) by (simp_all add: recent_def)
  have d: "distinct (map fst ?es)"
    using ok by (auto simp: cache_ok_def distinct_drop_key simp flip: set_map) (simp add: set_drop_key)
  have mk: "map_of ?es k = Some r" using m j(1) by (simp add: map_of_drop_key map_add_def)
  have "k \<in> fst ` set (drop_key j (entries c))"
    using m j(1) by (auto simp: set_drop_key dest!: map_of_SomeD intro: rev_image_eqI)
  then have n: "newer k ?es \<subseteq> K"
    using assms(1) newer_drop_key [of j k "entries c"] j by (auto simp: recent_def newer_append)
  then have "card (newer k ?es) < maxEntries c"
    using assms(2,3) card_mono [of K "newer k ?es"] by linarith
  from keep_recent [OF d mk this] n show ?thesis
    using OSet cache_set_ok [OF ok] by (simp add: recent_def entries_set Let_def)
qed

lemma recent_run:
  assumes "recent k r K c" and "finite K" and "card K < maxEntries c" and "op_key ` set xs - {k} \<subseteq> K"
    and "\<forall>b e t. OSet k b e t \<notin> set xs" and "\<forall>t. OGet k t \<in> set xs \<longrightarrow> t < rs_staleUntil r"
  shows "recent k r K (fold do_op xs c)"
  using assms
proof (induction xs arbitrary: c)
  case (Cons x xs)
  have "recent k r K (do_op x c)" using Cons.prems by (intro recent_step) auto
  then have "recent k r K (fold do_op xs (do_op x c))" using Cons.prems by (intro Cons.IH) auto
  then show ?case by simp
qed simp

text \<open>
  A recently written response is served: after a key is written, reads and writes of fewer
  other keys than the cache has room for, in any order and number, never push it out, so until
  its stale limit a read answers exactly what was written, fresh until its fresh limit.
\<close>

theorem cache_keeps_recently_used:
  assumes "\<forall>b e t. OSet k b e t \<notin> set xs" and "\<forall>v. OGet k v \<in> set xs \<longrightarrow> v < t + max (max 1 f) s"
    and "card (op_key ` set xs - {k}) < nat (max 1 m)" and "u < t + max (max 1 f) s"
  shows "fst (cache_get k u (fold do_op xs (snd (cache_set k b e t (fold do_op ys (new_cache m f s))))))
     = Some (\<lparr>rs_body = b, rs_etag = e, rs_createdAt = t, rs_freshUntil = t + max 1 f,
              rs_staleUntil = t + max (max 1 f) s\<rparr>,
             if u < t + max 1 f then Fresh else Stale)"
proof -
  let ?c = "fold do_op ys (new_cache m f s)" and ?K = "op_key ` set xs - {k}"
  have r: "new_response b e t ?c = \<lparr>rs_body = b, rs_etag = e, rs_createdAt = t, rs_freshUntil = t + max 1 f,
      rs_staleUntil = t + max (max 1 f) s\<rparr>"
    by (simp add: new_response_def) (simp add: new_cache_def)
  have "recent k (new_response b e t ?c) ?K (snd (cache_set k b e t ?c))"
    using recent_set_same [OF run_ok [OF new_cache_ok], of k b e t] by (auto simp: recent_def)
  moreover have "maxEntries ?c = nat (max 1 m)" by simp (simp add: new_cache_def)
  ultimately have "recent k (new_response b e t ?c) ?K (fold do_op xs (snd (cache_set k b e t ?c)))"
    using assms(1-3) by (intro recent_run) (auto simp: r)
  then show ?thesis using assms(4) by (simp add: recent_def cache_get_def Let_def r)
qed

theorem cache_serves_latest_within_lifetime_witness:
  "\<exists>r c'. cache_get ''a'' 5 (fold do_op [OSet ''a'' ''x'' ''1'' 0, OSet ''b'' ''y'' ''2'' 1] (new_cache 4 10 20)) = (Some (r, Fresh), c') \<and>
     rs_body r = ''x''"
proof -
  let ?xs = "[OSet ''a'' ''x'' ''1'' 0, OSet ''b'' ''y'' ''2'' 1]"
  have "fst (cache_get ''a'' 5 (fold do_op ?xs (new_cache 4 10 20))) =
      Some (\<lparr>rs_body = ''x'', rs_etag = ''1'', rs_createdAt = 0, rs_freshUntil = 10, rs_staleUntil = 20\<rparr>, Fresh)"
    by code_simp
  then obtain r c' where g: "cache_get ''a'' 5 (fold do_op ?xs (new_cache 4 10 20)) = (Some (r, Fresh), c')"
    by (cases "cache_get ''a'' 5 (fold do_op ?xs (new_cache 4 10 20))") auto
  from cache_serves_latest_within_lifetime [OF g] have "rs_body r = ''x''" by (auto simp: Cons_eq_append_conv)
  with g show ?thesis by blast
qed

theorem cache_keeps_recently_used_witness:
  "fst (cache_get ''a'' 5 (fold do_op [OSet ''b'' ''y'' ''2'' 1, OGet ''a'' 2, OGet ''b'' 3]
       (snd (cache_set ''a'' ''x'' ''1'' 0 (fold do_op [] (new_cache 2 10 20)))))) =
     Some (\<lparr>rs_body = ''x'', rs_etag = ''1'', rs_createdAt = 0, rs_freshUntil = 10, rs_staleUntil = 20\<rparr>, Fresh)"
proof -
  let ?xs = "[OSet ''b'' ''y'' ''2'' 1, OGet ''a'' 2, OGet ''b'' 3]"
  have "op_key ` set ?xs - {''a''} = {''b''}" by auto
  then have "card (op_key ` set ?xs - {''a''}) < nat (max 1 2)" by (simp only: card.insert) simp
  then show ?thesis
    using cache_keeps_recently_used [of "''a''" ?xs 0 10 20 2 5 "''x''" "''1''" "[]"] by (simp del: fold_simps set_simps) auto
qed

end
