(* ===== verification/Coalescing.thy ===== *)
theory Coalescing
  imports Transition "HOL-Library.List_Lexorder"
begin

text \<open>
  \<open>indexer/coalescingScheduler.ts\<close>: the single-flight scheduler.  A waiter is the number of its
  \<open>request\<close> call; a pass is one run of the task.  Two fields only record history: \<open>born\<close>, how
  many passes had started when a request was made, and \<open>settled\<close>, which pass answered it with
  which outcome (a value or an error).
\<close>

section \<open>State and steps\<close>

record 'r scheduler =
  running :: bool
  currentWaiters :: "nat list"
  nextWaiters :: "nat list"
  nextTriggers :: "string list"
  passTrigger :: string
  passes :: nat
  born :: "nat list"
  settled :: "(nat \<times> nat \<times> 'r) list"

definition idle :: "'r scheduler" where
  "idle = \<lparr>running = False, currentWaiters = [], nextWaiters = [], nextTriggers = [], passTrigger = [],
     passes = 0, born = [], settled = []\<rparr>"

definition busy :: "'r scheduler \<Rightarrow> bool" where
  "busy s = running s"

text \<open>A \<open>Set\<close> of strings in insertion order.\<close>

definition set_add :: "string \<Rightarrow> string list \<Rightarrow> string list" where
  "set_add x xs = (if x \<in> set xs then xs else xs @ [x])"

definition request :: "string \<Rightarrow> 'r scheduler \<Rightarrow> 'r scheduler" where
  "request trigger s =
     (let n = length (born s); s = s\<lparr>born := born s @ [passes s]\<rparr> in
      if running s
      then s\<lparr>nextWaiters := nextWaiters s @ [n], nextTriggers := set_add trigger (nextTriggers s)\<rparr>
      else s\<lparr>running := True, currentWaiters := currentWaiters s @ [n], passTrigger := trigger,
             passes := passes s + 1\<rparr>)"

fun join_comma :: "string list \<Rightarrow> string" where
  "join_comma [] = []"
| "join_comma [x] = x"
| "join_comma (x # y # ys) = x @ '','' @ join_comma (y # ys)"

definition sort_strings :: "string list \<Rightarrow> string list" where
  "sort_strings xs = sort_key (map (of_char :: char \<Rightarrow> nat)) xs"

text \<open>The task ended: answer the current waiters, then stop or start the one follow-up pass.\<close>

definition pass_done :: "'r \<Rightarrow> 'r scheduler \<Rightarrow> 'r scheduler" where
  "pass_done r s =
     (let s = s\<lparr>settled := settled s @ map (\<lambda>n. (n, passes s, r)) (currentWaiters s)\<rparr> in
      if nextWaiters s = [] then s\<lparr>currentWaiters := [], running := False\<rparr>
      else s\<lparr>currentWaiters := nextWaiters s, nextWaiters := [],
             passTrigger := join_comma (sort_strings (nextTriggers s)), nextTriggers := [],
             passes := passes s + 1\<rparr>)"

inductive sched_step :: "'r scheduler \<Rightarrow> 'r scheduler \<Rightarrow> bool" where
  step_request: "sched_step s (request t s)"
| step_done: "running s \<Longrightarrow> sched_step s (pass_done r s)"

section \<open>Invariant\<close>

text \<open>
  Every request is in exactly one place; waiting ones were made during the running pass, the
  current ones before it, and every answered one was answered by the pass after it was made.
\<close>

definition waiters :: "'r scheduler \<Rightarrow> nat list" where
  "waiters s = map fst (settled s) @ currentWaiters s @ nextWaiters s"

definition passes_ok :: "'r scheduler \<Rightarrow> bool" where
  "passes_ok s \<longleftrightarrow>
     (\<forall>n \<in> set (currentWaiters s). passes s = born s ! n + 1) \<and>
     (\<forall>n \<in> set (nextWaiters s). passes s = born s ! n) \<and>
     (\<forall>x \<in> set (settled s). fst (snd x) = born s ! fst x + 1)"

definition sched_inv :: "'r scheduler \<Rightarrow> bool" where
  "sched_inv s \<longleftrightarrow>
     distinct (waiters s) \<and> set (waiters s) = {..<length (born s)} \<and>
     (running s \<longleftrightarrow> currentWaiters s \<noteq> []) \<and> (\<not> running s \<longrightarrow> nextWaiters s = []) \<and> passes_ok s"

lemma request_inv:
  assumes inv: "sched_inv s"
  shows "sched_inv (request t s)"
proof -
  let ?N = "length (born s)"
  have b: "born (request t s) = born s @ [passes s]" by (simp add: request_def Let_def)
  have stopped: "currentWaiters s = [] \<and> nextWaiters s = []" if "\<not> running s"
    using inv that by (simp add: sched_inv_def)
  have w: "waiters (request t s) = waiters s @ [?N]"
    using stopped by (cases "running s"; simp add: waiters_def request_def Let_def)
  have r: "running (request t s)" "currentWaiters (request t s) \<noteq> []"
    using inv by (cases "running s"; simp add: request_def Let_def sched_inv_def)+
  have set: "set (waiters s) = {..<?N}" and dist: "distinct (waiters s)" and ok: "passes_ok s"
    using inv by (simp_all add: sched_inv_def)
  have "distinct (waiters s @ [?N])" by (simp add: set dist)
  moreover have "set (waiters s @ [?N]) = {..<length (born s @ [passes s])}"
    by (simp add: set lessThan_Suc)
  moreover have "passes_ok (request t s)"
  proof -
    have keep: "(born s @ xs) ! n = born s ! n" if "n \<in> set (waiters s)" for n xs
      using that set by (simp add: nth_append)
    have k: "n \<in> set (currentWaiters s) \<Longrightarrow> (born s @ xs) ! n = born s ! n"
      "n \<in> set (nextWaiters s) \<Longrightarrow> (born s @ xs) ! n = born s ! n"
      "x \<in> set (settled s) \<Longrightarrow> (born s @ xs) ! fst x = born s ! fst x" for n x xs
      by (rule keep; simp add: waiters_def)+
    show ?thesis
    proof (cases "running s")
      case True
      then show ?thesis using ok by (simp add: passes_ok_def request_def Let_def k)
    next
      case False
      then show ?thesis using stopped ok by (simp add: passes_ok_def request_def Let_def k)
    qed
  qed
  ultimately show ?thesis
    unfolding sched_inv_def w b using r by simp
qed

lemma pass_done_inv:
  assumes inv: "sched_inv s" and "running s"
  shows "sched_inv (pass_done r s)"
proof -
  have "waiters (pass_done r s) = waiters s" "born (pass_done r s) = born s"
    by (simp_all add: waiters_def pass_done_def Let_def comp_def)
  moreover have "passes_ok (pass_done r s)"
    using inv by (auto simp: sched_inv_def passes_ok_def pass_done_def Let_def)
  ultimately show ?thesis
    using inv by (auto simp: sched_inv_def pass_done_def Let_def)
qed

interpretation scheduler: invariant_system "(=) idle" sched_step sched_inv
proof unfold_locales
  fix s :: "'a scheduler"
  assume "idle = s"
  then show "sched_inv s" by (auto simp: idle_def sched_inv_def waiters_def passes_ok_def)
next
  fix s t :: "'a scheduler"
  assume "sched_inv s" and "sched_step s t"
  then show "sched_inv t" by (auto elim!: sched_step.cases intro: request_inv pass_done_inv)
qed

section \<open>Properties\<close>

text \<open>
  C40. No caller gets a stale answer and none is forgotten: in every reachable state each request
  was answered at most once, by the first pass that started after it (or by it) and by no pass
  already in flight; every request still unanswered is waiting for the running pass or for the
  one follow-up, so nothing waits while the scheduler is idle; and two more completed passes
  answer everything outstanding.
\<close>

theorem coalescing_answers_fresh_once:
  assumes "reachable ((=) idle) sched_step s"
  shows "distinct (map fst (settled s)) \<and>
     (\<forall>(n, p, r) \<in> set (settled s). n < length (born s) \<and> p = born s ! n + 1) \<and>
     {n. n < length (born s) \<and> n \<notin> fst ` set (settled s)} = set (currentWaiters s) \<union> set (nextWaiters s) \<and>
     (\<not> busy s \<longrightarrow> {..<length (born s)} = fst ` set (settled s)) \<and>
     (busy s \<longrightarrow> {..<length (born s)} \<subseteq> fst ` set (settled (pass_done b (pass_done a s))))"
proof -
  have inv: "sched_inv s" by (rule scheduler.reachable_inv [OF assms])
  have all: "{..<length (born s)} = fst ` set (settled s) \<union> set (currentWaiters s) \<union> set (nextWaiters s)"
    using inv by (auto simp: sched_inv_def waiters_def)
  have "fst ` set (settled s) \<inter> (set (currentWaiters s) \<union> set (nextWaiters s)) = {}"
    using inv by (auto simp: sched_inv_def waiters_def)
  then have out: "{n. n < length (born s) \<and> n \<notin> fst ` set (settled s)} = set (currentWaiters s) \<union> set (nextWaiters s)"
    using all by blast
  have ans: "n < length (born s) \<and> p = born s ! n + 1" if "(n, p, r) \<in> set (settled s)" for n p r
  proof -
    have "n \<in> fst ` set (settled s)" using that by force
    then have "n \<in> {..<length (born s)}" unfolding all by simp
    moreover have "p = born s ! n + 1" using inv that by (fastforce simp: sched_inv_def passes_ok_def)
    ultimately show ?thesis by simp
  qed
  have idle: "\<not> busy s \<longrightarrow> {..<length (born s)} = fst ` set (settled s)"
    using inv all by (auto simp: sched_inv_def busy_def)
  have "fst ` set (settled (pass_done b (pass_done a s))) \<supseteq> fst ` set (settled s) \<union> set (currentWaiters s) \<union> set (nextWaiters s)"
    by (simp add: pass_done_def Let_def image_Un image_image subset_iff)
  then have two: "{..<length (born s)} \<subseteq> fst ` set (settled (pass_done b (pass_done a s)))" unfolding all .
  have "distinct (map fst (settled s))" using inv by (simp add: sched_inv_def waiters_def)
  with ans out idle two show ?thesis by blast
qed

text \<open>Two requests: the second arrives while the first one's pass runs.\<close>

definition two_requests :: "nat scheduler" where
  "two_requests = request ''b'' (request ''a'' idle)"

lemma two_requests_reachable: "reachable ((=) idle) sched_step two_requests"
proof -
  have "reachable ((=) idle) sched_step (idle :: nat scheduler)" by (rule reachable.start) (rule refl)
  then have "reachable ((=) idle) sched_step (request ''a'' (idle :: nat scheduler))"
    by (rule reachable.more) (rule step_request)
  then show ?thesis unfolding two_requests_def by (rule reachable.more) (rule step_request)
qed

lemma coalescing_answers_fresh_once_witness:
  "{..<2} \<subseteq> fst ` set (settled (pass_done 8 (pass_done (7::nat) two_requests)))"
proof -
  have "busy two_requests" "length (born two_requests) = 2"
    by (simp_all add: two_requests_def busy_def request_def idle_def Let_def)
  then show ?thesis
    using coalescing_answers_fresh_once [OF two_requests_reachable, where a = 7 and b = 8] by argo
qed

end
