(* ===== verification/AdaptiveLogs.thy ===== *)
theory AdaptiveLogs
  imports RecoveryPolicy
begin

text \<open>
  \<open>indexer/adaptiveLogs.ts\<close>: the traversal of a block range in windows whose size halves when
  the provider rejects one.  The fetch and the commit are the caller's; both may throw and both
  may change the world \<open>'w\<close>.  The loop is a \<open>partial_function\<close>, so that returning is a theorem.
  It carries the windows committed so far, which only the statements read.
\<close>

section \<open>The scan\<close>

definition isLogRangeError :: "thrown \<Rightarrow> bool" where
  "isLogRangeError e \<longleftrightarrow>
     list_ex (\<lambda>p. contains p (toLower (th_code e)))
       [''limit'', ''block range'', ''range limit'', ''too many'', ''response width'', ''query returned'',
        ''invalid parameters'', ''missing or invalid'']"

record ('r, 'w) log_scan =
  ls_from :: int
  ls_to :: int
  ls_maxWindowBlocks :: rat
  ls_concurrency :: "rat option"
  ls_fetch :: "int \<Rightarrow> int \<Rightarrow> 'w \<Rightarrow> (thrown + 'r) \<times> 'w"
  ls_commit :: "int \<Rightarrow> int \<Rightarrow> 'r \<Rightarrow> 'w \<Rightarrow> (thrown + unit) \<times> 'w"
  ls_onShrink :: "int \<Rightarrow> 'w \<Rightarrow> 'w"
  ls_singleBlockError :: string

text \<open>The windows of one batch.\<close>

fun windows_from :: "int \<Rightarrow> int \<Rightarrow> int \<Rightarrow> nat \<Rightarrow> (int \<times> int) list" where
  "windows_from lo hi width 0 = []"
| "windows_from lo hi width (Suc n) =
     (if lo \<le> hi then (lo, min (lo + width - 1) hi) # windows_from (lo + width) hi width n else [])"

text \<open>Every window is fetched, whatever the others do; a result keeps the place of its window.\<close>

fun fetch_all ::
  "(int \<Rightarrow> int \<Rightarrow> 'w \<Rightarrow> (thrown + 'r) \<times> 'w) \<Rightarrow> (int \<times> int) list \<Rightarrow> 'w \<Rightarrow>
   (int \<times> int \<times> (thrown + 'r)) list \<times> 'w" where
  "fetch_all f [] w = ([], w)"
| "fetch_all f ((a, b) # ws) w =
     (let (r, w) = f a b w; (rs, w) = fetch_all f ws w in ((a, b, r) # rs, w))"

fun first_rejected :: "(int \<times> int \<times> (thrown + 'r)) list \<Rightarrow> thrown option" where
  "first_rejected [] = None"
| "first_rejected ((a, b, Inl e) # xs) = Some e"
| "first_rejected ((a, b, Inr r) # xs) = first_rejected xs"

text \<open>The commits, in order; the result is the next \<open>lo\<close> or what a commit threw.\<close>

fun commit_all ::
  "(int \<Rightarrow> int \<Rightarrow> 'r \<Rightarrow> 'w \<Rightarrow> (thrown + unit) \<times> 'w) \<Rightarrow> int \<Rightarrow> (int \<times> int \<times> (thrown + 'r)) list \<Rightarrow>
   (int \<times> int \<times> 'r) list \<Rightarrow> 'w \<Rightarrow> (thrown + int) \<times> (int \<times> int \<times> 'r) list \<times> 'w" where
  "commit_all c lo [] acc w = (Inr lo, acc, w)"
| "commit_all c lo ((a, b, Inl e) # xs) acc w = commit_all c lo xs acc w"
| "commit_all c lo ((a, b, Inr r) # xs) acc w =
     (case c a b r w of
        (Inl e, w) \<Rightarrow> (Inl e, acc, w)
      | (Inr _, w) \<Rightarrow> commit_all c (b + 1) xs (acc @ [(a, b, r)]) w)"

definition single_block :: "('r, 'w) log_scan \<Rightarrow> thrown" where
  "single_block s = \<lparr>th_is_error = True, th_code = ls_singleBlockError s, th_chain = []\<rparr>"

definition concurrency :: "('r, 'w) log_scan \<Rightarrow> nat" where
  "concurrency s = nat (max 1 (math_floor (case ls_concurrency s of None \<Rightarrow> 1 | Some c \<Rightarrow> c)))"

partial_function (option) scan_loop ::
  "('r, 'w) log_scan \<Rightarrow> int \<Rightarrow> int \<Rightarrow> bool \<Rightarrow> (int \<times> int \<times> 'r) list \<Rightarrow> 'w \<Rightarrow>
   ((thrown + unit) \<times> (int \<times> int \<times> 'r) list \<times> 'w) option" where
  "scan_loop s width lo probed acc w =
     (if lo > ls_to s then Some (Inr (), acc, w)
      else
        let (results, w) = fetch_all (ls_fetch s)
              (windows_from lo (ls_to s) width (if probed then concurrency s else 1)) w in
        (case first_rejected results of
           Some e \<Rightarrow>
             if \<not> isLogRangeError e then Some (Inl e, acc, w)
             else if width = 1 then Some (Inl (single_block s), acc, w)
             else let width = max 1 (width div 2) in scan_loop s width lo False acc (ls_onShrink s width w)
         | None \<Rightarrow>
             (case commit_all (ls_commit s) lo results acc w of
                (Inl e, acc, w) \<Rightarrow> Some (Inl e, acc, w)
              | (Inr lo, acc, w) \<Rightarrow> scan_loop s width lo True acc w)))"

definition scanAdaptiveLogWindows ::
  "('r, 'w) log_scan \<Rightarrow> 'w \<Rightarrow> ((thrown + unit) \<times> (int \<times> int \<times> 'r) list \<times> 'w) option" where
  "scanAdaptiveLogWindows s w =
     (if ls_from s > ls_to s then Some (Inr (), [], w)
      else scan_loop s (max 1 (math_floor (ls_maxWindowBlocks s))) (ls_from s) False [] w)"

section \<open>Windows tile the range\<close>

text \<open>The windows cover \<open>lo .. hi - 1\<close> in order, without gap or overlap.\<close>

fun tiles :: "int \<Rightarrow> (int \<times> int) list \<Rightarrow> int \<Rightarrow> bool" where
  "tiles lo [] hi = (lo = hi)"
| "tiles lo ((a, b) # ws) hi = (a = lo \<and> a \<le> b \<and> tiles (b + 1) ws hi)"

lemma tiles_append: "tiles lo (xs @ ys) hi \<longleftrightarrow> (\<exists>m. tiles lo xs m \<and> tiles m ys hi)"
  by (induction lo xs hi rule: tiles.induct) auto

lemma tiles_le: "tiles lo ws hi \<Longrightarrow> lo \<le> hi"
  by (induction lo ws hi rule: tiles.induct) auto

lemma windows_small:
  assumes "1 \<le> width" and "(a, b) \<in> set (windows_from lo hi width n)"
  shows "lo \<le> a \<and> a \<le> b \<and> b \<le> hi \<and> b - a + 1 \<le> width"
  using assms by (induction lo hi width n rule: windows_from.induct) (auto split: if_splits)

lemma windows_tile:
  assumes "1 \<le> width" and "lo \<le> hi + 1"
  shows "\<exists>m. tiles lo (windows_from lo hi width n) m \<and> m \<le> hi + 1 \<and> (n > 0 \<longrightarrow> lo \<le> hi \<longrightarrow> lo < m)"
  using assms
proof (induction lo hi width n rule: windows_from.induct)
  case (2 lo hi width n)
  show ?case
  proof (cases "lo + width \<le> hi + 1")
    case True
    then obtain m where m: "tiles (lo + width) (windows_from (lo + width) hi width n) m" "m \<le> hi + 1"
      using 2 by fastforce
    have "min (lo + width - 1) hi = lo + width - 1" "lo \<le> hi" using True 2(2) by simp_all
    then show ?thesis using m tiles_le [OF m(1)] 2(2) by auto
  next
    case False
    then have "windows_from (lo + width) hi width n = []" "min (lo + width - 1) hi = hi"
      by (cases n; simp)+
    then show ?thesis using 2(2,3) by auto
  qed
qed auto

definition window_of :: "int \<times> int \<times> 'a \<Rightarrow> int \<times> int" where
  "window_of x = (fst x, fst (snd x))"

lemma window_of_simp [simp]: "window_of (a, b, r) = (a, b)"
  by (simp add: window_of_def)

definition fetched :: "(int \<Rightarrow> int \<Rightarrow> 'w \<Rightarrow> (thrown + 'r) \<times> 'w) \<Rightarrow> int \<times> int \<times> 'r \<Rightarrow> bool" where
  "fetched f x \<longleftrightarrow> (\<exists>w. fst (f (fst x) (fst (snd x)) w) = Inr (snd (snd x)))"

lemma fetch_all_windows: "map window_of (fst (fetch_all f ws w)) = ws"
  by (induction ws arbitrary: w) (auto simp: Let_def split_beta)

lemma fetch_all_from:
  "(a, b, r) \<in> set (fst (fetch_all f ws w)) \<Longrightarrow> (a, b) \<in> set ws \<and> (\<exists>w. fst (f a b w) = r)"
proof (induction ws arbitrary: w)
  case (Cons x ws)
  show ?case
    using Cons.prems Cons.IH [of "snd (f (fst x) (snd x) w)"] by (cases x) (auto simp: Let_def split_beta)
qed simp

lemma first_rejected_None: "first_rejected xs = None \<Longrightarrow> (a, b, r) \<in> set xs \<Longrightarrow> \<exists>x. r = Inr x"
  by (induction xs rule: first_rejected.induct) auto

lemma first_rejected_Some: "first_rejected xs = Some e \<Longrightarrow> \<exists>a b. (a, b, Inl e) \<in> set xs"
  by (induction xs rule: first_rejected.induct) auto

lemma commit_all_prefix:
  assumes "first_rejected xs = None" and "tiles lo (map window_of xs) hi"
    and "commit_all c lo xs acc w = (res, acc', w')"
  shows "\<exists>done m. acc' = acc @ done \<and> tiles lo (map window_of done) m \<and> m \<le> hi \<and>
     (\<forall>x \<in> set done. (fst x, fst (snd x), Inr (snd (snd x))) \<in> set xs) \<and> (\<forall>lo'. res = Inr lo' \<longrightarrow> lo' = hi \<and> m = hi)"
  using assms
proof (induction c lo xs acc w arbitrary: res acc' w' rule: commit_all.induct)
  case (1 c lo acc w)
  then show ?case by auto
next
  case (2 c lo a b e xs acc w)
  then show ?case by simp
next
  case (3 c lo a b r xs acc w)
  obtain q w1 where c: "c a b r w = (q, w1)" by (cases "c a b r w")
  show ?case
  proof (cases q)
    case (Inl e)
    then show ?thesis using 3(3,4) c tiles_le [OF 3(3)] by (intro exI [of _ "[]"] exI [of _ lo]) auto
  next
    case (Inr u)
    from 3(4) c Inr have run: "commit_all c (b + 1) xs (acc @ [(a, b, r)]) w1 = (res, acc', w')" by simp
    from 3(3) have "tiles (b + 1) (map window_of xs) hi" and ab: "a = lo" "a \<le> b" by simp_all
    with 3(1) [OF c [symmetric] Inr _ _ run] 3(2) obtain d m where
      d: "acc' = (acc @ [(a, b, r)]) @ d" "tiles (b + 1) (map window_of d) m" "m \<le> hi"
         "\<forall>x \<in> set d. (fst x, fst (snd x), Inr (snd (snd x))) \<in> set xs"
         "\<forall>lo'. res = Inr lo' \<longrightarrow> lo' = hi \<and> m = hi" by auto
    show ?thesis by (rule exI [of _ "(a, b, r) # d"], rule exI [of _ m]) (use d ab in auto)
  qed
qed

section \<open>The loop\<close>

definition scan_ok :: "('r, 'w) log_scan \<Rightarrow> (int \<times> int \<times> 'r) list \<Rightarrow> int \<Rightarrow> bool" where
  "scan_ok s acc lo \<longleftrightarrow>
     tiles (ls_from s) (map window_of acc) lo \<and> lo \<le> ls_to s + 1 \<and>
     (\<forall>x \<in> set acc. fetched (ls_fetch s) x \<and>
        fst (snd x) - fst x + 1 \<le> max 1 (math_floor (ls_maxWindowBlocks s)))"

text \<open>
  A provider that serves every window of at most \<open>k\<close> blocks and refuses a larger one, if it
  does, with a range error; and a commit that does not throw.
\<close>

definition serves :: "nat \<Rightarrow> ('r, 'w) log_scan \<Rightarrow> bool" where
  "serves k s \<longleftrightarrow>
     (\<forall>a b w e. a \<le> b \<longrightarrow> fst (ls_fetch s a b w) = Inl e \<longrightarrow> b - a + 1 > int k \<and> isLogRangeError e) \<and>
     (\<forall>a b r w. fst (ls_commit s a b r w) = Inr ())"

lemma serves_refuses:
  "serves k s \<Longrightarrow> a \<le> b \<Longrightarrow> fst (ls_fetch s a b w) = Inl e \<Longrightarrow> b - a + 1 > int k \<and> isLogRangeError e"
  by (simp add: serves_def)

lemma commit_all_serves:
  assumes "serves k s"
  shows "\<exists>lo' acc' w'. commit_all (ls_commit s) lo xs acc w = (Inr lo', acc', w')"
proof (induction "ls_commit s" lo xs acc w rule: commit_all.induct)
  case (3 lo a b r xs acc w)
  have "fst (ls_commit s a b r w) = Inr ()" using assms by (simp add: serves_def)
  then obtain w1 where "ls_commit s a b r w = (Inr (), w1)" by (cases "ls_commit s a b r w") auto
  then show ?case using 3 by auto
qed auto

lemma batch_ok:
  assumes "1 \<le> width" and "width \<le> max 1 (math_floor (ls_maxWindowBlocks s))" and "scan_ok s acc lo"
    and "lo \<le> ls_to s" and "n > 0"
    and f: "fetch_all (ls_fetch s) (windows_from lo (ls_to s) width n) w = (results, w1)"
    and none: "first_rejected results = None"
    and c: "commit_all (ls_commit s) lo results acc w1 = (res, acc', w2)"
  shows "\<exists>m. scan_ok s acc' m \<and> (\<forall>lo'. res = Inr lo' \<longrightarrow> lo' = m \<and> lo < m)"
proof -
  let ?ws = "windows_from lo (ls_to s) width n"
  have ws: "map window_of results = ?ws" using fetch_all_windows [of "ls_fetch s" ?ws w] f by simp
  obtain hi where hi: "tiles lo ?ws hi" "hi \<le> ls_to s + 1" "lo < hi"
    using windows_tile [OF assms(1), of lo "ls_to s" n] assms(4,5) by auto
  obtain d m where d: "acc' = acc @ d" "tiles lo (map window_of d) m" "m \<le> hi"
      "\<forall>x \<in> set d. (fst x, fst (snd x), Inr (snd (snd x))) \<in> set results"
      "\<forall>lo'. res = Inr lo' \<longrightarrow> lo' = hi \<and> m = hi"
    using commit_all_prefix [OF none _ c] hi(1) ws by metis
  have new: "fetched (ls_fetch s) x \<and> fst (snd x) - fst x + 1 \<le> width" if "x \<in> set d" for x
  proof -
    have "(fst x, fst (snd x), Inr (snd (snd x))) \<in> set (fst (fetch_all (ls_fetch s) ?ws w))"
      using d(4) that f by simp
    from fetch_all_from [OF this] show ?thesis
      using windows_small [OF assms(1)] by (auto simp: fetched_def)
  qed
  have "scan_ok s acc' m"
    using assms(2,3) d(1,2,3) hi(2) new by (fastforce simp: scan_ok_def tiles_append)
  then show ?thesis using d(5) hi(3) by auto
qed

lemma scan_loop_total:
  assumes "1 \<le> width" and "width \<le> max 1 (math_floor (ls_maxWindowBlocks s))" and "scan_ok s acc lo"
  shows "\<exists>res acc' w'. scan_loop s width lo probed acc w = Some (res, acc', w') \<and>
     (\<exists>m. scan_ok s acc' m \<and> (res = Inr () \<longrightarrow> m = ls_to s + 1)) \<and>
     (\<forall>k. serves k s \<longrightarrow> k > 0 \<longrightarrow> res = Inr ())"
  using assms
proof (induction "(nat (ls_to s + 1 - lo), nat width)" arbitrary: lo width probed acc w
    rule: wf_induct_rule [OF wf_lex_prod [OF wf_less_than wf_less_than]])
  case (1 lo width probed acc w)
  note IH = 1(1) and width = 1(2,3) and ok = 1(4)
  show ?case
  proof (cases "lo > ls_to s")
    case True
    then have "lo = ls_to s + 1" using ok by (simp add: scan_ok_def)
    then show ?thesis using True ok by (subst scan_loop.simps) auto
  next
    case False
    let ?n = "if probed then concurrency s else 1"
    have n: "?n > 0" by (simp add: concurrency_def less_max_iff_disj)
    obtain results w1 where f: "fetch_all (ls_fetch s) (windows_from lo (ls_to s) width ?n) w = (results, w1)"
      by (metis surj_pair)
    have step: "scan_loop s width lo probed acc w =
        (case first_rejected results of
           Some e \<Rightarrow>
             if \<not> isLogRangeError e then Some (Inl e, acc, w1)
             else if width = 1 then Some (Inl (single_block s), acc, w1)
             else let width = max 1 (width div 2) in scan_loop s width lo False acc (ls_onShrink s width w1)
         | None \<Rightarrow>
             (case commit_all (ls_commit s) lo results acc w1 of
                (Inl e, acc, w) \<Rightarrow> Some (Inl e, acc, w)
              | (Inr lo, acc, w) \<Rightarrow> scan_loop s width lo True acc w))"
      by (subst scan_loop.simps) (use False f in \<open>simp add: Let_def\<close>)
    show ?thesis
    proof (cases "first_rejected results")
      case (Some e)
      obtain a b where "(a, b, Inl e) \<in> set results" using first_rejected_Some [OF Some] by blast
      then have "(a, b, Inl e) \<in> set (fst (fetch_all (ls_fetch s) (windows_from lo (ls_to s) width ?n) w))"
        using f by simp
      from fetch_all_from [OF this] obtain w0 where
        ab: "(a, b) \<in> set (windows_from lo (ls_to s) width ?n)" and w0: "fst (ls_fetch s a b w0) = Inl e" by blast
      have small: "a \<le> b" "b - a + 1 \<le> width" using windows_small [OF width(1) ab] by simp_all
      have refused: "isLogRangeError e \<and> width \<noteq> 1" if "serves k s" "k > 0" for k
        using serves_refuses [OF that(1) small(1) w0] small(2) that(2) by linarith
      show ?thesis
      proof (cases "isLogRangeError e \<and> width \<noteq> 1")
        case True
        define h where "h = max 1 (width div 2)"
        have h: "h < width" "1 \<le> h" using width(1) True by (auto simp: h_def)
        have "scan_loop s width lo probed acc w = scan_loop s h lo False acc (ls_onShrink s h w1)"
          unfolding step using Some True by (simp add: Let_def h_def)
        then show ?thesis using IH [of lo h acc False "ls_onShrink s h w1"] h width ok by simp
      next
        case F: False
        then show ?thesis unfolding step using Some ok refused by auto
      qed
    next
      case None
      obtain res acc' w2 where c: "commit_all (ls_commit s) lo results acc w1 = (res, acc', w2)" by (metis prod_cases3)
      obtain m where m: "scan_ok s acc' m" "\<forall>lo'. res = Inr lo' \<longrightarrow> lo' = m \<and> lo < m"
        using batch_ok [OF width ok _ n f None c] False by auto
      show ?thesis
      proof (cases res)
        case (Inl e)
        have "\<not> serves k s" for k using commit_all_serves [of k s lo results acc w1] c Inl by auto
        then show ?thesis unfolding step using None c Inl m(1) by auto
      next
        case (Inr lo')
        then have lo': "lo' = m" "lo < m" using m(2) by simp_all
        have "m \<le> ls_to s + 1" using m(1) by (simp add: scan_ok_def)
        then have "nat (ls_to s + 1 - m) < nat (ls_to s + 1 - lo)" using lo'(2) by auto
        then show ?thesis
          using IH [of m width acc' True w2] width m(1) unfolding step using None c Inr lo'(1) by simp
      qed
    qed
  qed
qed

section \<open>Properties\<close>


text \<open>A provider that answers a window with its bounds and refuses more than two blocks.\<close>

definition two_blocks :: "(int \<times> int, (int \<times> int) list) log_scan" where
  "two_blocks = \<lparr>ls_from = 10, ls_to = 14, ls_maxWindowBlocks = 5, ls_concurrency = Some 2,
     ls_fetch = (\<lambda>a b w. (if b - a + 1 > 2
        then Inl \<lparr>th_is_error = True, th_code = ''query returned more than 10000 results'', th_chain = []\<rparr>
        else Inr (a, b), w)),
     ls_commit = (\<lambda>a b r w. (Inr (), w @ [r])), ls_onShrink = (\<lambda>n w. w), ls_singleBlockError = ''E_LOGS''\<rparr>"

lemma two_blocks_serves: "serves 2 two_blocks"
  by (auto simp: serves_def two_blocks_def isLogRangeError_def toLower_def lower_char_def Let_def split: if_splits)


end
