(* ===== verification/GuardReport.thy ===== *)
theory GuardReport
  imports Triggers StoreMonitor
begin

text \<open>
  \<open>shared/strategy/guard-report.ts\<close>: the evaluation of every automated safety condition that
  the interface shows while a strategy waits.  Each block of the function is one definition over
  the accumulated conditions and blocking ids.  Times are rationals, since the configured
  windows may be fractional.
\<close>

section \<open>Conditions\<close>

datatype guard_id =
  SampleHistory | GuardVolatility | GuardDeviation | RecoveryStability | BurstThrottle
| DailyCap | LowerBreaks | TriggerCooldown | BoundaryConfirmation | BoundaryPause | AprAvailable
| ManualConfirmation | MonitorRecheck | CycleEconomics

datatype guard_status = Pass | Fail | Wait

record guard_condition =
  gc_id :: guard_id
  gc_status :: guard_status
  measured :: "rat option"
  threshold :: "rat option"
  sampleCount :: "int option"
  waitUntil :: "rat option"
  remainingSeconds :: "rat option"
  totalSeconds :: "rat option"
  gc_side :: "range_side option"
  gc_at :: "int option"

definition plain :: "guard_id \<Rightarrow> guard_status \<Rightarrow> guard_condition" where
  "plain i s = \<lparr>gc_id = i, gc_status = s, measured = None, threshold = None, sampleCount = None,
     waitUntil = None, remainingSeconds = None, totalSeconds = None, gc_side = None, gc_at = None\<rparr>"

record guard_pause =
  pause_code :: "string option"
  pause_side :: "string option"
  pause_at :: int

record guard_economics =
  eco_waitUntil :: int
  eco_feesQuote :: "rat option"
  eco_costQuote :: "rat option"
  eco_coverage :: rat

record guard_args =
  ga_state :: string
  ga_now :: int
  ga_safeguards :: safeguards
  ga_pollSeconds :: int
  ga_confirmationSeconds :: rat
  ga_guardReason :: "market_reason option"
  guardStableSince :: "int option"
  burstWaitUntil :: "rat option"
  ga_cooldownUntil :: "int option"
  outSide :: "range_side option"
  outSince :: "int option"
  spotTick :: "int option"
  marketStats :: "tick_stats option"
  recentCompletedCycles :: "int option"
  completedTodayCycles :: "int option"
  lowerBreakCount :: "int option"
  lowerBreakWaitUntil :: "int option"
  ga_pause :: "guard_pause option"
  economics :: "guard_economics option"

record guard_report =
  waiting :: bool
  needsManualResume :: bool
  blocking :: "guard_id list"
  conditions :: "guard_condition list"
  checkedAt :: int

type_synonym guard_acc = "guard_condition list \<times> guard_id list"

text \<open>\<open>conditions.push\<close> and \<open>blocking.add\<close>.\<close>

definition push :: "guard_condition \<Rightarrow> guard_acc \<Rightarrow> guard_acc" where
  "push c acc = (fst acc @ [c], snd acc)"

definition block :: "guard_id \<Rightarrow> guard_acc \<Rightarrow> guard_acc" where
  "block i acc = (fst acc, if i \<in> set (snd acc) then snd acc else snd acc @ [i])"

definition push_if_blocked :: "bool \<Rightarrow> guard_condition \<Rightarrow> guard_acc \<Rightarrow> guard_acc" where
  "push_if_blocked b c acc = push c (if b then block (gc_id c) acc else acc)"

section \<open>The blocks of \<open>buildGuardReport\<close>\<close>

definition active :: "safeguards \<Rightarrow> 'a option \<Rightarrow> 'a option" where
  "active s x = (if safeguards_enabled s then x else None)"

definition marketGuardActive :: "safeguards \<Rightarrow> bool" where
  "marketGuardActive s \<longleftrightarrow>
     active s (volatilityWindowSeconds s) \<noteq> None \<and>
     (maxVolatilityBps s \<noteq> None \<or> maxSpotTwapDeviationBps s \<noteq> None)"

text \<open>Enough samples for the window, as the monitor also requires.\<close>

definition history_ready :: "tick_stats option \<Rightarrow> int \<Rightarrow> rat \<Rightarrow> int \<Rightarrow> bool" where
  "history_ready stats now win poll \<longleftrightarrow>
     (case stats of None \<Rightarrow> False
      | Some st \<Rightarrow> ts_count st \<ge> 2 \<and> of_int (ts_firstTs st) \<le> of_int now - win + of_int (poll * 2))"

definition history_block :: "guard_args \<Rightarrow> rat \<Rightarrow> guard_acc \<Rightarrow> guard_acc" where
  "history_block g win acc =
     (let stats = marketStats g;
          deadline = (case stats of None \<Rightarrow> None
                      | Some st \<Rightarrow> if ts_firstTs st = 0 then None
                                  else Some (of_int (ts_firstTs st) + win - of_int (ga_pollSeconds g * 2)))
      in if history_ready stats (ga_now g) win (ga_pollSeconds g) then acc
         else push_if_blocked True
           ((plain SampleHistory Wait)\<lparr>sampleCount := Some (case stats of None \<Rightarrow> 0 | Some st \<Rightarrow> ts_count st),
              threshold := Some 2, totalSeconds := Some win, waitUntil := deadline,
              remainingSeconds := Some (max 0 ((case deadline of None \<Rightarrow> of_int (ga_now g) | Some t \<Rightarrow> t) - of_int (ga_now g)))\<rparr>)
           acc)"

text \<open>One market metric: measured only when the history is ready, failed above its limit.\<close>

definition metric_block ::
  "guard_id \<Rightarrow> rat option \<Rightarrow> bool \<Rightarrow> (tick_stats \<Rightarrow> rat) \<Rightarrow> guard_args \<Rightarrow> guard_acc \<Rightarrow> bool \<times> guard_acc" where
  "metric_block i limit ready f g acc =
     (case limit of None \<Rightarrow> (False, acc)
      | Some m \<Rightarrow>
          let v = (if ready then map_option f (marketStats g) else None);
              failed = (case v of None \<Rightarrow> False | Some x \<Rightarrow> x > m)
          in (failed, push_if_blocked failed
               ((plain i (if failed then Fail else if ready then Pass else Wait))
                  \<lparr>measured := v, threshold := Some m, sampleCount := map_option ts_count (marketStats g)\<rparr>) acc))"

definition volatility_of :: "(rat \<Rightarrow> rat \<Rightarrow> rat) \<Rightarrow> tick_stats \<Rightarrow> rat" where
  "volatility_of bps st = bps (of_int (ts_minTick st)) (of_int (ts_maxTick st))"

definition deviation_of :: "(rat \<Rightarrow> rat \<Rightarrow> rat) \<Rightarrow> int option \<Rightarrow> tick_stats \<Rightarrow> rat" where
  "deviation_of bps spot st =
     bps (of_int (case spot of None \<Rightarrow> ts_tick st | Some t \<Rightarrow> t)) (of_int (ts_tick st))"

definition stability_block :: "guard_args \<Rightarrow> bool \<Rightarrow> guard_acc \<Rightarrow> guard_acc" where
  "stability_block g market_ok acc =
     (if ga_guardReason g = None then acc
      else
        let seconds = (case stableMarketSeconds (ga_safeguards g) of None \<Rightarrow> 0 | Some s \<Rightarrow> s);
            since = (case guardStableSince g of None \<Rightarrow> ga_now g | Some t \<Rightarrow> t);
            remaining = max 0 (of_int since + seconds - of_int (ga_now g))
        in if \<not> market_ok
           then push ((plain RecoveryStability Wait)\<lparr>totalSeconds := Some seconds\<rparr>) acc
           else if remaining > 0
           then push_if_blocked True
                  ((plain RecoveryStability Wait)\<lparr>waitUntil := Some (of_int since + seconds),
                     remainingSeconds := Some remaining, totalSeconds := Some seconds\<rparr>) acc
           else push ((plain RecoveryStability Pass)\<lparr>totalSeconds := Some seconds, remainingSeconds := Some 0\<rparr>) acc)"

definition market_block :: "(rat \<Rightarrow> rat \<Rightarrow> rat) \<Rightarrow> guard_args \<Rightarrow> guard_acc \<Rightarrow> guard_acc" where
  "market_block bps g acc =
     (case active (ga_safeguards g) (volatilityWindowSeconds (ga_safeguards g)) of
        None \<Rightarrow> acc
      | Some win \<Rightarrow>
          if \<not> marketGuardActive (ga_safeguards g) \<or> win = 0 then acc
          else
            let ready = history_ready (marketStats g) (ga_now g) win (ga_pollSeconds g);
                acc = history_block g win acc;
                (f1, acc) = metric_block GuardVolatility (maxVolatilityBps (ga_safeguards g)) ready
                              (volatility_of bps) g acc;
                (f2, acc) = metric_block GuardDeviation (maxSpotTwapDeviationBps (ga_safeguards g)) ready
                              (deviation_of bps (spotTick g)) g acc
            in stability_block g (\<not> f1 \<and> \<not> f2 \<and> ready) acc)"

definition burst_block :: "guard_args \<Rightarrow> guard_acc \<Rightarrow> guard_acc" where
  "burst_block g acc =
     (let s = ga_safeguards g in
      case (active s (burstWindowMinutes s), active s (burstTriggerCount s), active s (burstCooldownMinutes s)) of
        (Some _, Some n, Some cool) \<Rightarrow>
          let recent = map_option of_int (recentCompletedCycles g);
              until = (case burstWaitUntil g of None \<Rightarrow> 0 | Some t \<Rightarrow> t)
          in if until > of_int (ga_now g)
             then push_if_blocked True
                    ((plain BurstThrottle Wait)\<lparr>measured := recent, threshold := Some n, waitUntil := burstWaitUntil g,
                       remainingSeconds := Some (until - of_int (ga_now g)), totalSeconds := Some (nmul cool 60)\<rparr>) acc
             else push ((plain BurstThrottle (case recent of None \<Rightarrow> Pass | Some r \<Rightarrow> if r \<ge> n - 1 then Wait else Pass))
                          \<lparr>measured := recent, threshold := Some n\<rparr>) acc
      | _ \<Rightarrow> acc)"

definition daily_block :: "guard_args \<Rightarrow> guard_acc \<Rightarrow> guard_acc" where
  "daily_block g acc =
     (case (active (ga_safeguards g) (maxRebalancesPerDay (ga_safeguards g)), completedTodayCycles g) of
        (Some cap, Some n) \<Rightarrow>
          let saturated = (of_int n \<ge> cap);
              until = (if saturated then Some (of_int (nextUtcDayStart (ga_now g))) else None)
          in push_if_blocked saturated
               ((plain DailyCap (if saturated then Wait else Pass))
                  \<lparr>measured := Some (of_int n), threshold := Some cap, waitUntil := until,
                    remainingSeconds := map_option (\<lambda>t. t - of_int (ga_now g)) until\<rparr>) acc
      | _ \<Rightarrow> acc)"

definition lower_block :: "guard_args \<Rightarrow> guard_acc \<Rightarrow> guard_acc" where
  "lower_block g acc =
     (case (active (ga_safeguards g) (maxConsecutiveLowerBreaks (ga_safeguards g)), lowerBreakCount g) of
        (Some cap, Some n) \<Rightarrow>
          let saturated = (of_int n \<ge> cap);
              until = (if saturated then map_option of_int (lowerBreakWaitUntil g) else None)
          in push_if_blocked saturated
               ((plain LowerBreaks (if saturated then Wait else Pass))
                  \<lparr>measured := Some (of_int n), threshold := Some cap, waitUntil := until,
                    remainingSeconds := map_option (\<lambda>t. max 0 (t - of_int (ga_now g))) until\<rparr>) acc
      | _ \<Rightarrow> acc)"

definition cooldown_block :: "guard_args \<Rightarrow> guard_acc \<Rightarrow> guard_acc" where
  "cooldown_block g acc =
     (if truthy (ga_cooldownUntil g) \<and> the (ga_cooldownUntil g) > ga_now g
      then push ((plain TriggerCooldown Wait)\<lparr>waitUntil := map_option of_int (ga_cooldownUntil g),
             remainingSeconds := Some (of_int (the (ga_cooldownUntil g) - ga_now g))\<rparr>) acc
      else acc)"

definition economics_block :: "guard_args \<Rightarrow> guard_acc \<Rightarrow> guard_acc" where
  "economics_block g acc =
     (case economics g of None \<Rightarrow> acc
      | Some e \<Rightarrow>
          if eco_coverage e \<le> 0 then acc
          else
            let required = map_option (\<lambda>c. nmul c (eco_coverage e)) (eco_costQuote e);
                shown = map_option (\<lambda>r. ndiv (of_int (math_round (nmul r 100))) 100) required
            in if eco_waitUntil e > ga_now g
               then push_if_blocked True
                      ((plain CycleEconomics Wait)\<lparr>measured := eco_feesQuote e, threshold := shown,
                         waitUntil := Some (of_int (eco_waitUntil e)),
                         remainingSeconds := Some (of_int (eco_waitUntil e - ga_now g))\<rparr>) acc
               else push ((plain CycleEconomics Pass)\<lparr>measured := eco_feesQuote e, threshold := shown\<rparr>) acc)"

definition confirmation_block :: "guard_args \<Rightarrow> guard_acc \<Rightarrow> guard_acc" where
  "confirmation_block g acc =
     (case (outSide g, outSince g) of
        (Some sd, Some since) \<Rightarrow>
          if since = 0 \<or> ga_confirmationSeconds g \<le> 0 then acc
          else
            let elapsed = of_int (ga_now g - since) in
            if elapsed < ga_confirmationSeconds g
            then push ((plain BoundaryConfirmation Wait)\<lparr>gc_side := Some sd,
                   waitUntil := Some (of_int since + ga_confirmationSeconds g),
                   remainingSeconds := Some (ga_confirmationSeconds g - elapsed),
                   totalSeconds := Some (ga_confirmationSeconds g)\<rparr>) acc
            else push ((plain BoundaryConfirmation Pass)\<lparr>gc_side := Some sd,
                   totalSeconds := Some (ga_confirmationSeconds g)\<rparr>) acc
      | _ \<Rightarrow> acc)"

definition pause_block :: "guard_args \<Rightarrow> guard_acc \<Rightarrow> guard_acc" where
  "pause_block g acc =
     (if ga_state g = ''paused_guard'' \<or> ga_state g = ''awaiting_manual'' then
        let acc = (case ga_pause g of
                     Some p \<Rightarrow>
                       (case pause_side p of
                          Some sd \<Rightarrow>
                            if sd = [] then acc
                            else push_if_blocked True
                              ((plain BoundaryPause Fail)\<lparr>gc_side := Some (if sd = ''upper'' then SideUpper else SideLower),
                                 gc_at := Some (pause_at p)\<rparr>) acc
                        | None \<Rightarrow> acc)
                   | None \<Rightarrow> acc);
            acc = (case ga_pause g of
                     Some p \<Rightarrow>
                       if pause_code p = Some ''E_APR_UNAVAILABLE''
                       then push_if_blocked True ((plain AprAvailable Fail)\<lparr>gc_at := Some (pause_at p)\<rparr>) acc
                       else acc
                   | None \<Rightarrow> acc)
        in if ga_state g = ''awaiting_manual'' then push_if_blocked True (plain ManualConfirmation Wait) acc else acc
      else acc)"

definition recheck_block :: "bool \<Rightarrow> guard_args \<Rightarrow> guard_acc \<Rightarrow> guard_acc" where
  "recheck_block wait g acc =
     (if wait \<and> snd acc = []
      then push_if_blocked True
             ((plain MonitorRecheck Wait)\<lparr>remainingSeconds := Some (of_int (max (ga_pollSeconds g) 1))\<rparr>) acc
      else acc)"

definition waiting_state :: "string \<Rightarrow> bool" where
  "waiting_state s \<longleftrightarrow> s \<in> {''guard_wait'', ''paused_guard'', ''awaiting_manual''}"

definition buildGuardReport :: "(rat \<Rightarrow> rat \<Rightarrow> rat) \<Rightarrow> guard_args \<Rightarrow> guard_report" where
  "buildGuardReport bps g =
     (let wait = waiting_state (ga_state g);
          (cs, bs) = recheck_block wait g (pause_block g (confirmation_block g (economics_block g
                       (cooldown_block g (lower_block g (daily_block g (burst_block g (market_block bps g ([], [])))))))))
      in \<lparr>waiting = wait,
          needsManualResume = (ga_state g = ''paused_guard'' \<or> ga_state g = ''awaiting_manual''),
          blocking = bs, conditions = cs, checkedAt = ga_now g\<rparr>)"

section \<open>Blocks only add their own conditions\<close>

definition ids :: "guard_acc \<Rightarrow> guard_id set" where
  "ids acc = gc_id ` set (fst acc)"

definition shown_ok :: "guard_id list \<Rightarrow> guard_condition \<Rightarrow> bool" where
  "shown_ok bs c \<longleftrightarrow>
     (gc_status c = Fail \<longrightarrow> gc_id c \<in> set bs) \<and> (gc_id c \<in> set bs \<longrightarrow> gc_status c \<noteq> Pass) \<and>
     (\<forall>r. remainingSeconds c = Some r \<longrightarrow> r \<ge> 0)"

definition acc_ok :: "guard_acc \<Rightarrow> bool" where
  "acc_ok acc \<longleftrightarrow>
     distinct (map gc_id (fst acc)) \<and> distinct (snd acc) \<and> set (snd acc) \<subseteq> ids acc \<and>
     (\<forall>c \<in> set (fst acc). shown_ok (snd acc) c)"

definition calm :: "guard_condition \<Rightarrow> bool" where
  "calm c \<longleftrightarrow> (\<forall>r. remainingSeconds c = Some r \<longrightarrow> r \<ge> 0)"

lemma push_ok:
  assumes "acc_ok acc" and "gc_id c \<notin> ids acc" and "gc_status c \<noteq> Fail" and "calm c"
  shows "acc_ok (push c acc)"
  using assms by (auto simp: acc_ok_def ids_def push_def shown_ok_def calm_def)

lemma push_blocked_ok:
  assumes "acc_ok acc" and "gc_id c \<notin> ids acc" and "b \<Longrightarrow> gc_status c \<noteq> Pass" and "\<not> b \<Longrightarrow> gc_status c \<noteq> Fail"
    and "calm c"
  shows "acc_ok (push_if_blocked b c acc)"
proof -
  have "gc_id c \<notin> set (snd acc)" using assms(1,2) by (auto simp: acc_ok_def)
  moreover have "gc_id x \<noteq> gc_id c" if "x \<in> set (fst acc)" for x
    using assms(2) that unfolding ids_def by (metis image_eqI)
  ultimately show ?thesis
    using assms by (cases b) (auto simp: acc_ok_def ids_def push_if_blocked_def block_def push_def shown_ok_def calm_def)
qed

text \<open>A block \<open>adds X\<close>: it keeps the report well formed and touches no id outside \<open>X\<close>.\<close>

definition adds :: "guard_id set \<Rightarrow> (guard_acc \<Rightarrow> guard_acc) \<Rightarrow> bool" where
  "adds X f \<longleftrightarrow>
     (\<forall>acc. (acc_ok acc \<and> ids acc \<inter> X = {} \<longrightarrow> acc_ok (f acc)) \<and> ids (f acc) \<subseteq> ids acc \<union> X \<and>
        (\<forall>i. i \<notin> X \<longrightarrow> (i \<in> set (snd (f acc)) \<longleftrightarrow> i \<in> set (snd acc))))"

lemma adds_comp:
  assumes "adds X f" and "adds Y g" and "X \<inter> Y = {}"
  shows "adds (X \<union> Y) (\<lambda>acc. g (f acc))"
  unfolding adds_def
proof (intro allI conjI impI)
  fix acc
  have f: "ids (f acc) \<subseteq> ids acc \<union> X" using assms(1) unfolding adds_def by blast
  have g: "ids (g (f acc)) \<subseteq> ids (f acc) \<union> Y" using assms(2) unfolding adds_def by blast
  show "ids (g (f acc)) \<subseteq> ids acc \<union> (X \<union> Y)" using f g by blast
  show "acc_ok (g (f acc))" if "acc_ok acc \<and> ids acc \<inter> (X \<union> Y) = {}"
  proof -
    have "acc_ok (f acc)" using that assms(1) unfolding adds_def by blast
    moreover have "ids (f acc) \<inter> Y = {}" using that f assms(3) by blast
    ultimately show ?thesis using assms(2) unfolding adds_def by blast
  qed
  show "(i \<in> set (snd (g (f acc)))) = (i \<in> set (snd acc))" if "i \<notin> X \<union> Y" for i
    using that assms(1,2) unfolding adds_def by blast
qed

lemma adds_set: "adds X f \<Longrightarrow> X = Y \<Longrightarrow> adds Y f"
  by simp

lemma ids_push [simp]: "ids (push c acc) = insert (gc_id c) (ids acc)"
  "ids (push_if_blocked b c acc) = insert (gc_id c) (ids acc)"
  by (auto simp: ids_def push_def push_if_blocked_def block_def)

lemma blocked_push [simp]: "set (snd (push c acc)) = set (snd acc)"
  "set (snd (push_if_blocked b c acc)) = (if b then insert (gc_id c) (set (snd acc)) else set (snd acc))"
  by (auto simp: push_def push_if_blocked_def block_def)

lemma plain_simps [simp]:
  "gc_id (plain i s) = i" "gc_status (plain i s) = s" "remainingSeconds (plain i s) = None"
  by (simp_all add: plain_def)

lemma adds_id: "adds X (\<lambda>acc. acc)"
  by (simp add: adds_def)

lemma adds_push: "gc_id c \<in> X \<Longrightarrow> gc_status c \<noteq> Fail \<Longrightarrow> calm c \<Longrightarrow> adds X (push c)"
  by (auto simp: adds_def intro!: push_ok)

lemma adds_push_blocked:
  "gc_id c \<in> X \<Longrightarrow> (b \<Longrightarrow> gc_status c \<noteq> Pass) \<Longrightarrow> (\<not> b \<Longrightarrow> gc_status c \<noteq> Fail) \<Longrightarrow> calm c \<Longrightarrow>
   adds X (push_if_blocked b c)"
  by (auto simp: adds_def intro!: push_blocked_ok split: if_splits)

lemma adds_if: "(b \<Longrightarrow> adds X f) \<Longrightarrow> (\<not> b \<Longrightarrow> adds X g) \<Longrightarrow> adds X (\<lambda>acc. if b then f acc else g acc)"
  by (cases b) simp_all

lemma adds_option:
  "(x = None \<Longrightarrow> adds X f) \<Longrightarrow> (\<And>a. x = Some a \<Longrightarrow> adds X (g a)) \<Longrightarrow>
   adds X (\<lambda>acc. case x of None \<Rightarrow> f acc | Some a \<Rightarrow> g a acc)"
  by (cases x) simp_all

lemmas adds_intros = adds_id adds_push adds_push_blocked adds_if adds_option

lemma history_block_adds: "adds {SampleHistory} (history_block g win)"
  unfolding history_block_def Let_def
  by (cases "history_ready (marketStats g) (ga_now g) win (ga_pollSeconds g)")
    (auto simp: calm_def intro!: adds_intros)

lemma metric_block_adds: "adds {i} (\<lambda>acc. snd (metric_block i limit ready f g acc))"
  by (cases limit) (auto simp: metric_block_def Let_def calm_def intro!: adds_intros split: option.splits)

lemma stability_block_adds: "adds {RecoveryStability} (stability_block g m)"
  unfolding stability_block_def Let_def
  by (cases "ga_guardReason g"; cases m) (auto simp: calm_def intro!: adds_intros)

lemma market_block_adds:
  "adds {SampleHistory, GuardVolatility, GuardDeviation, RecoveryStability} (market_block bps g)"
proof -
  let ?s = "ga_safeguards g"
  have all: "adds ((({SampleHistory} \<union> {GuardVolatility}) \<union> {GuardDeviation}) \<union> {RecoveryStability})
      (\<lambda>acc. stability_block g m (snd (metric_block GuardDeviation l2 r f2 g
                 (snd (metric_block GuardVolatility l1 r f1 g (history_block g win acc))))))"
    for m l1 l2 r f1 f2 win
    by (intro adds_comp [OF adds_comp [OF adds_comp [OF history_block_adds metric_block_adds] metric_block_adds]
          stability_block_adds]) auto
  have failed: "fst (metric_block i l r f g acc) = fst (metric_block i l r f g ([], []))" for i l r f acc
    by (simp add: metric_block_def Let_def split: option.split)
  show ?thesis
  proof (cases "active ?s (volatilityWindowSeconds ?s)")
    case None
    then show ?thesis unfolding market_block_def by (simp add: adds_id)
  next
    case (Some win)
    show ?thesis
    proof (cases "\<not> marketGuardActive ?s \<or> win = 0")
      case True
      then show ?thesis using Some unfolding market_block_def by (auto simp: adds_id)
    next
      case False
      let ?r = "history_ready (marketStats g) (ga_now g) win (ga_pollSeconds g)"
      let ?f1 = "fst (metric_block GuardVolatility (maxVolatilityBps ?s) ?r (volatility_of bps) g ([], []))"
      let ?f2 = "fst (metric_block GuardDeviation (maxSpotTwapDeviationBps ?s) ?r (deviation_of bps (spotTick g)) g ([], []))"
      have "market_block bps g = (\<lambda>acc. stability_block g (\<not> ?f1 \<and> \<not> ?f2 \<and> ?r)
          (snd (metric_block GuardDeviation (maxSpotTwapDeviationBps ?s) ?r (deviation_of bps (spotTick g)) g
             (snd (metric_block GuardVolatility (maxVolatilityBps ?s) ?r (volatility_of bps) g (history_block g win acc))))))"
      proof
        fix acc
        show "market_block bps g acc = stability_block g (\<not> ?f1 \<and> \<not> ?f2 \<and> ?r)
          (snd (metric_block GuardDeviation (maxSpotTwapDeviationBps ?s) ?r (deviation_of bps (spotTick g)) g
             (snd (metric_block GuardVolatility (maxVolatilityBps ?s) ?r (volatility_of bps) g (history_block g win acc)))))"
          using Some False failed [of GuardVolatility _ _ _ "history_block g win acc"]
            failed [of GuardDeviation _ _ _ "snd (metric_block GuardVolatility (maxVolatilityBps ?s) ?r
              (volatility_of bps) g (history_block g win acc))"]
          by (simp add: market_block_def Let_def split_beta)
      qed
      note eq = this
      show ?thesis unfolding eq by (rule adds_set [OF all]) auto
    qed
  qed
qed

lemma burst_block_adds: "adds {BurstThrottle} (burst_block g)"
  unfolding burst_block_def Let_def
  by (auto simp: calm_def intro!: adds_intros split: option.splits) (simp_all split: if_splits)

lemma next_day: "now < nextUtcDayStart now"
  unfolding nextUtcDayStart_def using div_mult_gt [of 86400 now] by linarith

lemma daily_block_adds: "adds {DailyCap} (daily_block g)"
  using next_day [of "ga_now g"] unfolding daily_block_def Let_def
  by (auto simp: calm_def intro!: adds_intros split: option.split)

lemma lower_block_adds: "adds {LowerBreaks} (lower_block g)"
  unfolding lower_block_def Let_def
  by (auto simp: calm_def intro!: adds_intros split: option.split)

lemma cooldown_block_adds: "adds {TriggerCooldown} (cooldown_block g)"
  unfolding cooldown_block_def by (auto simp: calm_def intro!: adds_intros)

lemma economics_block_adds: "adds {CycleEconomics} (economics_block g)"
  unfolding economics_block_def Let_def
  by (auto simp: calm_def intro!: adds_intros split: option.split)

lemma confirmation_block_adds: "adds {BoundaryConfirmation} (confirmation_block g)"
  unfolding confirmation_block_def Let_def
  by (auto simp: calm_def intro!: adds_intros split: option.split)

lemma pause_block_adds: "adds {BoundaryPause, AprAvailable, ManualConfirmation} (pause_block g)"
proof -
  define p1 where "p1 = (\<lambda>acc. case ga_pause g of None \<Rightarrow> acc | Some p \<Rightarrow>
     (case pause_side p of None \<Rightarrow> acc | Some sd \<Rightarrow> if sd = [] then acc else push_if_blocked True
        ((plain BoundaryPause Fail)\<lparr>gc_side := Some (if sd = ''upper'' then SideUpper else SideLower),
           gc_at := Some (pause_at p)\<rparr>) acc))"
  define p2 where "p2 = (\<lambda>acc. case ga_pause g of None \<Rightarrow> acc | Some p \<Rightarrow>
     if pause_code p = Some ''E_APR_UNAVAILABLE''
     then push_if_blocked True ((plain AprAvailable Fail)\<lparr>gc_at := Some (pause_at p)\<rparr>) acc else acc)"
  define p3 where "p3 = (\<lambda>acc. if ga_state g = ''awaiting_manual''
     then push_if_blocked True (plain ManualConfirmation Wait) acc else acc)"
  have "adds {BoundaryPause} p1" "adds {AprAvailable} p2" "adds {ManualConfirmation} p3"
    unfolding p1_def p2_def p3_def by (auto simp: calm_def intro!: adds_intros)
  then have "adds (({BoundaryPause} \<union> {AprAvailable}) \<union> {ManualConfirmation}) (\<lambda>acc. p3 (p2 (p1 acc)))"
    by (intro adds_comp) auto
  then have all: "adds {BoundaryPause, AprAvailable, ManualConfirmation} (\<lambda>acc. p3 (p2 (p1 acc)))"
    by (rule adds_set) auto
  have "pause_block g = (\<lambda>acc. if ga_state g = ''paused_guard'' \<or> ga_state g = ''awaiting_manual''
      then p3 (p2 (p1 acc)) else acc)"
    unfolding pause_block_def p1_def p2_def p3_def Let_def by (rule refl)
  then show ?thesis using all by (auto intro!: adds_intros)
qed

lemma recheck_block_adds: "adds {MonitorRecheck} (recheck_block w g)"
  unfolding adds_def
proof (intro allI)
  fix acc
  let ?c = "(plain MonitorRecheck Wait)\<lparr>remainingSeconds := Some (of_int (max (ga_pollSeconds g) 1))\<rparr>"
  have "adds {MonitorRecheck} (push_if_blocked True ?c)" "adds {MonitorRecheck} (\<lambda>acc. acc)"
    by (auto simp: calm_def intro!: adds_intros)
  then show "(acc_ok acc \<and> ids acc \<inter> {MonitorRecheck} = {} \<longrightarrow> acc_ok (recheck_block w g acc)) \<and>
      ids (recheck_block w g acc) \<subseteq> ids acc \<union> {MonitorRecheck} \<and>
      (\<forall>i. i \<notin> {MonitorRecheck} \<longrightarrow> (i \<in> set (snd (recheck_block w g acc))) = (i \<in> set (snd acc)))"
    unfolding recheck_block_def adds_def by (cases acc; cases "w \<and> snd acc = []") auto
qed

text \<open>Everything after the market block, and the report as a whole.\<close>

definition before_pause :: "guard_args \<Rightarrow> guard_acc \<Rightarrow> guard_acc" where
  "before_pause g acc =
     confirmation_block g (economics_block g (cooldown_block g (lower_block g (daily_block g (burst_block g acc)))))"

lemma before_pause_adds:
  "adds {BurstThrottle, DailyCap, LowerBreaks, TriggerCooldown, CycleEconomics, BoundaryConfirmation} (before_pause g)"
proof -
  have "adds ((((({BurstThrottle} \<union> {DailyCap}) \<union> {LowerBreaks}) \<union> {TriggerCooldown}) \<union> {CycleEconomics})
      \<union> {BoundaryConfirmation}) (before_pause g)"
    unfolding before_pause_def
    by (rule adds_comp [OF adds_comp [OF adds_comp [OF adds_comp [OF adds_comp [OF burst_block_adds daily_block_adds]
          lower_block_adds] cooldown_block_adds] economics_block_adds] confirmation_block_adds]) auto
  then show ?thesis by (rule adds_set) auto
qed

lemma report_unfold:
  "(conditions (buildGuardReport bps g), blocking (buildGuardReport bps g)) =
     recheck_block (waiting_state (ga_state g)) g (pause_block g (before_pause g (market_block bps g ([], []))))"
  by (simp add: buildGuardReport_def before_pause_def Let_def split_beta)

lemma adds_blocked: "adds X f \<Longrightarrow> i \<notin> X \<Longrightarrow> i \<in> set (snd (f acc)) \<longleftrightarrow> i \<in> set (snd acc)"
  unfolding adds_def by blast

lemma adds_ok: "adds X f \<Longrightarrow> acc_ok acc \<Longrightarrow> ids acc \<inter> X = {} \<Longrightarrow> acc_ok (f acc)"
  unfolding adds_def by blast

lemma adds_ids: "adds X f \<Longrightarrow> ids (f acc) \<subseteq> ids acc \<union> X"
  unfolding adds_def by blast

lemmas untouched =
  adds_blocked [OF recheck_block_adds] adds_blocked [OF pause_block_adds]
  adds_blocked [OF before_pause_adds] adds_blocked [OF market_block_adds]

lemma report_acc_ok: "acc_ok (conditions (buildGuardReport bps g), blocking (buildGuardReport bps g))"
proof -
  let ?m = "market_block bps g ([], [])" and ?w = "waiting_state (ga_state g)"
  let ?b = "before_pause g ?m" and ?p = "pause_block g (before_pause g ?m)"
  have "acc_ok ([], [])" "ids ([], []) = {}" by (simp_all add: acc_ok_def ids_def)
  then have m: "acc_ok ?m" "ids ?m \<subseteq> {SampleHistory, GuardVolatility, GuardDeviation, RecoveryStability}"
    using adds_ok [OF market_block_adds] adds_ids [OF market_block_adds, of bps g "([], [])"] by auto
  have b: "acc_ok ?b" by (rule adds_ok [OF before_pause_adds m(1)]) (use m(2) in auto)
  have bi: "ids ?b \<subseteq> {SampleHistory, GuardVolatility, GuardDeviation, RecoveryStability, BurstThrottle, DailyCap,
      LowerBreaks, TriggerCooldown, CycleEconomics, BoundaryConfirmation}"
    using m(2) adds_ids [OF before_pause_adds, of g ?m] by blast
  have p: "acc_ok ?p" by (rule adds_ok [OF pause_block_adds b]) (use bi in auto)
  have "MonitorRecheck \<notin> ids ?p" using bi adds_ids [OF pause_block_adds, of g ?b] by blast
  then have "acc_ok (recheck_block ?w g ?p)" using adds_ok [OF recheck_block_adds p] by blast
  then show ?thesis unfolding report_unfold .
qed

section \<open>Properties\<close>

text \<open>
  C26. The report is a faithful explanation.  No condition appears twice and every blocking id has
  its condition, which is not a passed one; every failed condition blocks; a countdown is never
  negative; a waiting strategy always has something that blocks it, and something that only the
  operator can resolve blocks it only in the two states that ask for a manual resume.
\<close>

theorem guard_report_explains_wait:
  shows "distinct (map gc_id (conditions (buildGuardReport bps g))) \<and>
    distinct (blocking (buildGuardReport bps g)) \<and>
    (\<forall>i \<in> set (blocking (buildGuardReport bps g)).
       \<exists>c \<in> set (conditions (buildGuardReport bps g)). gc_id c = i \<and> gc_status c \<noteq> Pass) \<and>
    (\<forall>c \<in> set (conditions (buildGuardReport bps g)).
       (gc_status c = Fail \<longrightarrow> gc_id c \<in> set (blocking (buildGuardReport bps g))) \<and>
       (\<forall>r. remainingSeconds c = Some r \<longrightarrow> r \<ge> 0)) \<and>
    (waiting (buildGuardReport bps g) \<longrightarrow> blocking (buildGuardReport bps g) \<noteq> []) \<and>
    (\<not> needsManualResume (buildGuardReport bps g) \<longrightarrow>
       set (blocking (buildGuardReport bps g)) \<inter> {BoundaryPause, AprAvailable, ManualConfirmation} = {})"
    (is "_ \<and> _ \<and> ?named \<and> ?failed \<and> ?wait \<and> ?manual")
proof -
  let ?r = "buildGuardReport bps g"
  have ok: "acc_ok (conditions ?r, blocking ?r)" by (rule report_acc_ok)
  have named: ?named
  proof
    fix i assume i: "i \<in> set (blocking ?r)"
    then obtain c where c: "c \<in> set (conditions ?r)" "gc_id c = i" using ok by (auto simp: acc_ok_def ids_def)
    then show "\<exists>c \<in> set (conditions ?r). gc_id c = i \<and> gc_status c \<noteq> Pass"
      using ok i by (auto simp: acc_ok_def shown_ok_def)
  qed
  have b: "blocking ?r = snd (recheck_block (waiting_state (ga_state g)) g
      (pause_block g (before_pause g (market_block bps g ([], [])))))"
    using report_unfold [of bps g] by (metis snd_conv)
  have wait: ?wait
    unfolding b by (auto simp: buildGuardReport_def Let_def split_beta recheck_block_def push_if_blocked_def
        push_def block_def)
  have manual: ?manual
  proof
    assume "\<not> needsManualResume ?r"
    then have "pause_block g acc = acc" for acc
      by (simp add: buildGuardReport_def Let_def split_beta pause_block_def)
    then have "blocking ?r = snd (recheck_block (waiting_state (ga_state g)) g (before_pause g (market_block bps g ([], []))))"
      unfolding b by simp
    moreover have "i \<notin> set (snd (recheck_block (waiting_state (ga_state g)) g (before_pause g (market_block bps g ([], [])))))"
      if "i \<in> {BoundaryPause, AprAvailable, ManualConfirmation}" for i
      using that by (auto simp: untouched)
    ultimately show "set (blocking ?r) \<inter> {BoundaryPause, AprAvailable, ManualConfirmation} = {}" by auto
  qed
  show ?thesis using ok named wait manual by (auto simp: acc_ok_def shown_ok_def)
qed

text \<open>
  C29. The report shows a market block exactly when the monitor's rule would wait for it: with the
  market guard on, the missing history blocks iff the sample window is not covered, and with
  enough history a market metric blocks iff evaluateMarketQuality, on the same samples and
  limits, is not healthy.
\<close>

theorem guard_report_mirrors_market_guard:
  assumes "marketGuardActive (ga_safeguards g)"
    and "volatilityWindowSeconds (ga_safeguards g) = Some win" and "win \<noteq> 0"
    and "marketStats g = Some st" and "spotTick g = Some spot"
  shows "(SampleHistory \<in> set (blocking (buildGuardReport bps g)) \<longleftrightarrow>
       \<not> (ts_count st \<ge> 2 \<and> of_int (ts_firstTs st) \<le> of_int (ga_now g) - win + of_int (ga_pollSeconds g * 2))) \<and>
    (SampleHistory \<notin> set (blocking (buildGuardReport bps g)) \<longrightarrow>
       (set (blocking (buildGuardReport bps g)) \<inter> {GuardVolatility, GuardDeviation} \<noteq> {} \<longleftrightarrow>
        \<not> healthy (evaluateMarketQuality bps (of_int spot) (of_int (ts_tick st)) (of_int (ts_minTick st))
            (of_int (ts_maxTick st)) (maxVolatilityBps (ga_safeguards g)) (maxSpotTwapDeviationBps (ga_safeguards g)))))"
proof -
  let ?s = "ga_safeguards g" and ?m = "snd (market_block bps g ([], []))"
  let ?ready = "history_ready (marketStats g) (ga_now g) win (ga_pollSeconds g)"
  have same: "i \<in> set (blocking (buildGuardReport bps g)) \<longleftrightarrow> i \<in> set ?m"
    if "i \<in> {SampleHistory, GuardVolatility, GuardDeviation}" for i
  proof -
    have "blocking (buildGuardReport bps g) = snd (recheck_block (waiting_state (ga_state g)) g
        (pause_block g (before_pause g (market_block bps g ([], [])))))"
      using report_unfold [of bps g] by (metis snd_conv)
    then show ?thesis
      using that by (auto simp: untouched(1-3))
  qed
  have on: "safeguards_enabled ?s" using assms(1) by (auto simp: marketGuardActive_def active_def split: if_splits)
  have stab: "i \<in> set (snd (stability_block g b acc)) \<longleftrightarrow> i \<in> set (snd acc)"
    if "i \<in> {SampleHistory, GuardVolatility, GuardDeviation}" for i b acc
    using that by (auto simp: adds_blocked [OF stability_block_adds])
  have hist: "set (snd (history_block g win ([], []))) = (if ?ready then {} else {SampleHistory})"
    by (simp add: history_block_def Let_def)
  have metric: "set (snd (snd (metric_block i l r f g acc))) = set (snd acc) \<union>
      (if r \<and> (case l of None \<Rightarrow> False | Some m \<Rightarrow> f st > m) then {i} else {})" for i l r f acc
    using assms(4) by (auto simp: metric_block_def Let_def split: option.split)
  have m: "i \<in> set ?m \<longleftrightarrow> (i = SampleHistory \<and> \<not> ?ready) \<or>
      (i = GuardVolatility \<and> ?ready \<and> (case maxVolatilityBps ?s of None \<Rightarrow> False | Some m \<Rightarrow> volatility_of bps st > m)) \<or>
      (i = GuardDeviation \<and> ?ready \<and>
         (case maxSpotTwapDeviationBps ?s of None \<Rightarrow> False | Some m \<Rightarrow> deviation_of bps (spotTick g) st > m))"
    if "i \<in> {SampleHistory, GuardVolatility, GuardDeviation}" for i
    using that assms(1,2,3) on
    by (auto simp: market_block_def active_def Let_def split_beta stab metric hist)
  have ready: "?ready \<longleftrightarrow> ts_count st \<ge> 2 \<and>
      of_int (ts_firstTs st) \<le> of_int (ga_now g) - win + of_int (ga_pollSeconds g * 2)"
    using assms(4) by (simp add: history_ready_def)
  show ?thesis
    unfolding same [of SampleHistory, simplified] m [of SampleHistory, simplified] ready [symmetric]
    using same [of GuardVolatility] same [of GuardDeviation] m [of GuardVolatility] m [of GuardDeviation]
    by (auto simp: evaluateMarketQuality_def Let_def volatility_of_def deviation_of_def assms(5) split: option.splits)
qed

text \<open>A strategy that waits for a volatile market, with three samples over the whole window.\<close>

definition volatile_args :: guard_args where
  "volatile_args = \<lparr>ga_state = ''guard_wait'', ga_now = 10000,
     ga_safeguards = sample_safeguards\<lparr>volatilityWindowSeconds := Some 600, maxVolatilityBps := Some 100\<rparr>,
     ga_pollSeconds = 15, ga_confirmationSeconds = 60, ga_guardReason = Some MarketVolatility,
     guardStableSince = None, burstWaitUntil = None, ga_cooldownUntil = None, outSide = None, outSince = None,
     spotTick = Some 300, marketStats = Some \<lparr>ts_tick = 100, ts_minTick = 0, ts_maxTick = 300,
       ts_firstTs = 9400, ts_lastTs = 10000, ts_count = 3\<rparr>,
     recentCompletedCycles = Some 0, completedTodayCycles = Some 1, lowerBreakCount = Some 0,
     lowerBreakWaitUntil = None, ga_pause = None, economics = None\<rparr>"

text \<open>A stand-in for the distance: one basis point a tick, as it nearly is.\<close>

definition tick_bps :: "rat \<Rightarrow> rat \<Rightarrow> rat" where
  "tick_bps a b = \<bar>a - b\<bar>"

lemma guard_report_explains_wait_witness:
  "waiting (buildGuardReport tick_bps volatile_args) \<and> blocking (buildGuardReport tick_bps volatile_args) \<noteq> []"
proof -
  have "waiting (buildGuardReport tick_bps volatile_args)"
    by (simp add: buildGuardReport_def volatile_args_def waiting_state_def Let_def split_beta)
  then show ?thesis using guard_report_explains_wait [of tick_bps volatile_args] by argo
qed

lemma guard_report_mirrors_market_guard_witness:
  "SampleHistory \<notin> set (blocking (buildGuardReport tick_bps volatile_args)) \<and>
   set (blocking (buildGuardReport tick_bps volatile_args)) \<inter> {GuardVolatility, GuardDeviation} \<noteq> {}"
proof -
  let ?st = "\<lparr>ts_tick = 100, ts_minTick = 0, ts_maxTick = 300, ts_firstTs = 9400, ts_lastTs = 10000, ts_count = 3\<rparr>"
  have "marketGuardActive (ga_safeguards volatile_args)"
    by (simp add: marketGuardActive_def active_def volatile_args_def sample_safeguards_def)
  moreover have "volatilityWindowSeconds (ga_safeguards volatile_args) = Some 600" "(600 :: rat) \<noteq> 0"
    "marketStats volatile_args = Some ?st" "spotTick volatile_args = Some 300"
    by (simp_all add: volatile_args_def)
  ultimately have m: "(SampleHistory \<in> set (blocking (buildGuardReport tick_bps volatile_args)) \<longleftrightarrow>
       \<not> (ts_count ?st \<ge> 2 \<and> of_int (ts_firstTs ?st) \<le>
            of_int (ga_now volatile_args) - (600 :: rat) + of_int (ga_pollSeconds volatile_args * 2))) \<and>
    (SampleHistory \<notin> set (blocking (buildGuardReport tick_bps volatile_args)) \<longrightarrow>
       (set (blocking (buildGuardReport tick_bps volatile_args)) \<inter> {GuardVolatility, GuardDeviation} \<noteq> {} \<longleftrightarrow>
        \<not> healthy (evaluateMarketQuality tick_bps (of_int 300) (of_int (ts_tick ?st)) (of_int (ts_minTick ?st))
            (of_int (ts_maxTick ?st)) (maxVolatilityBps (ga_safeguards volatile_args))
            (maxSpotTwapDeviationBps (ga_safeguards volatile_args)))))"
    by (rule guard_report_mirrors_market_guard)
  have "\<not> healthy (evaluateMarketQuality tick_bps (of_int 300) (of_int (ts_tick ?st)) (of_int (ts_minTick ?st))
            (of_int (ts_maxTick ?st)) (maxVolatilityBps (ga_safeguards volatile_args))
            (maxSpotTwapDeviationBps (ga_safeguards volatile_args)))"
    by (simp add: evaluateMarketQuality_def volatile_args_def sample_safeguards_def tick_bps_def)
  moreover have "ts_count ?st \<ge> 2 \<and> of_int (ts_firstTs ?st) \<le>
            of_int (ga_now volatile_args) - (600 :: rat) + of_int (ga_pollSeconds volatile_args * 2)"
    by (simp add: volatile_args_def)
  ultimately show ?thesis using m by blast
qed

end
