(* ===== verification/Planner.thy ===== *)
theory Planner
  imports Triggers LiquidityMath StoreJobs "HOL-Library.List_Lexorder" "HOL-Library.Multiset"
begin

text \<open>
  \<open>shared/strategy/planner.ts\<close>, and \<open>quoteRangeToTicks\<close> of \<open>range.ts\<close> with the price helpers
  of \<open>clmath.ts\<close> it uses.  \<open>Math.pow\<close> and \<open>Math.log\<close>, whose results the language leaves to the
  implementation, are the record \<open>math\<close>; \<open>keccak256\<close> and the text of a non-integer number are
  parameters as well.  An optional field that is not set is a key that is absent.
\<close>

section \<open>Prices and ranges\<close>

record math =
  m_pow :: "rat \<Rightarrow> rat \<Rightarrow> rat"
  m_log :: "rat \<Rightarrow> rat"

definition TICK_BASE :: rat where "TICK_BASE = fl (10001 / 10000)"

definition tickToPrice :: "math \<Rightarrow> int \<Rightarrow> int \<Rightarrow> int \<Rightarrow> rat" where
  "tickToPrice m t dec0 dec1 = nmul (m_pow m TICK_BASE (of_int t)) (m_pow m 10 (of_int (dec0 - dec1)))"

definition priceToTick :: "math \<Rightarrow> rat \<Rightarrow> int \<Rightarrow> int \<Rightarrow> int" where
  "priceToTick m price dec0 dec1 =
     (let raw = ndiv price (m_pow m 10 (of_int (dec0 - dec1)))
      in math_round (ndiv (m_log m raw) (m_log m TICK_BASE)))"

record range_input =
  centerQuotePerRisk :: rat
  ri_lowerPct :: rat
  ri_upperPct :: rat
  ri_currentTick :: int
  ri_tickSpacing :: int
  token0IsRisk :: bool
  ri_dec0 :: int
  ri_dec1 :: int

record tick_range =
  tr_lower :: int
  tr_upper :: int
  quotes :: "(string \<times> rat) list"   \<comment> \<open>\<open>quoteLower\<close>, \<open>quoteUpper\<close>, \<open>actualQuoteLower\<close>, \<open>actualQuoteUpper\<close>\<close>

definition quoteRangeToTicks :: "math \<Rightarrow> range_input \<Rightarrow> tick_range res" where
  "quoteRangeToTicks m i =
     (if centerQuotePerRisk i \<le> 0 then Inl (JsError ''center price must be positive'')
      else if \<not> (ri_lowerPct i > 0 \<and> ri_lowerPct i < 100 \<and> ri_upperPct i > 0)
      then Inl (JsError ''invalid range percent'')
      else if ri_tickSpacing i \<le> 0 then Inl (JsError ''invalid tick spacing'')
      else
        let quoteLower = nmul (centerQuotePerRisk i) (nsub 1 (ndiv (ri_lowerPct i) 100));
            quoteUpper = nmul (centerQuotePerRisk i) (nadd 1 (ndiv (ri_upperPct i) 100));
            rawLower = (if token0IsRisk i then quoteLower else ndiv 1 quoteUpper);
            rawUpper = (if token0IsRisk i then quoteUpper else ndiv 1 quoteLower);
            sp = ri_tickSpacing i; cur = ri_currentTick i;
            lo = alignTick (priceToTick m rawLower (ri_dec0 i) (ri_dec1 i)) sp Floor;
            up = alignTick (priceToTick m rawUpper (ri_dec0 i) (ri_dec1 i)) sp Ceil;
            lo = (if lo \<ge> cur then alignTick (cur - sp) sp Floor else lo);
            up = (if up \<le> cur then alignTick (cur + sp) sp Ceil else up)
        in if lo \<ge> up then Inl (JsError ''range collapsed after tick alignment'')
           else
             let al = tickToPrice m lo (ri_dec0 i) (ri_dec1 i);
                 au = tickToPrice m up (ri_dec0 i) (ri_dec1 i)
             in Inr \<lparr>tr_lower = lo, tr_upper = up,
                  quotes = [(''quoteLower'', quoteLower), (''quoteUpper'', quoteUpper),
                    (''actualQuoteLower'', if token0IsRisk i then al else ndiv 1 au),
                    (''actualQuoteUpper'', if token0IsRisk i then au else ndiv 1 al)]\<rparr>)"

section \<open>Canonical JSON\<close>

text \<open>The text of a number (\<open>ntext\<close> for one that is not an integer) and of a string.\<close>

definition number_text :: "(rat \<Rightarrow> string) \<Rightarrow> rat \<Rightarrow> string" where
  "number_text ntext r =
     (if is_integer r \<and> \<bar>r\<bar> < 10 ^ 21 then big_to_string \<lfloor>r\<rfloor> else ntext r)"

definition hex_char :: "nat \<Rightarrow> char" where
  "hex_char n = char_of (if n < 10 then n + 48 else n + 87)"

definition quote_char :: "char \<Rightarrow> string" where
  "quote_char c =
     (let n = of_char c :: nat in
      if n = 34 then [char_of (92 :: nat), c]
      else if n = 92 then [c, c]
      else if n = 8 then [char_of (92 :: nat), CHR ''b'']
      else if n = 9 then [char_of (92 :: nat), CHR ''t'']
      else if n = 10 then [char_of (92 :: nat), CHR ''n'']
      else if n = 12 then [char_of (92 :: nat), CHR ''f'']
      else if n = 13 then [char_of (92 :: nat), CHR ''r'']
      else if n < 32 then [char_of (92 :: nat), CHR ''u'', CHR ''0'', CHR ''0'', hex_char (n div 16), hex_char (n mod 16)]
      else [c])"

definition quote_string :: "string \<Rightarrow> string" where
  "quote_string s = char_of (34 :: nat) # concat (map quote_char s) @ [char_of (34 :: nat)]"

fun join_with :: "string \<Rightarrow> string list \<Rightarrow> string" where
  "join_with sep [] = []"
| "join_with sep [x] = x"
| "join_with sep (x # y # ys) = x @ sep @ join_with sep (y # ys)"

definition code_units :: "string \<Rightarrow> nat list" where
  "code_units s = map of_char s"

text \<open>Object keys are written in sorted order.\<close>

fun stable_json :: "(rat \<Rightarrow> string) \<Rightarrow> json \<Rightarrow> string" where
  "stable_json ntext JNull = ''null''"
| "stable_json ntext (JBool b) = (if b then ''true'' else ''false'')"
| "stable_json ntext (JNum r) = number_text ntext r"
| "stable_json ntext (JStr s) = quote_string s"
| "stable_json ntext (JArr xs) = ''['' @ join_with '','' (map (stable_json ntext) xs) @ '']''"
| "stable_json ntext (JObj kvs) =
     ''{'' @ join_with '','' (map snd (sort_key (\<lambda>(k, v). code_units k)
        (map (\<lambda>(k, v). (k, quote_string k @ '':'' @ stable_json ntext v)) kvs))) @ ''}''"

definition jint :: "int \<Rightarrow> json" where "jint n = JNum (of_int n)"

definition jbig :: "int \<Rightarrow> json" where "jbig n = JStr (big_to_string n)"

definition jopt :: "string \<Rightarrow> json option \<Rightarrow> (string \<times> json) list" where
  "jopt k x = (case x of None \<Rightarrow> [] | Some v \<Rightarrow> [(k, v)])"

definition snapshot_json :: "position_snapshot \<Rightarrow> json" where
  "snapshot_json s = JObj (
     [(''chainId'', jint (snap_chainId s)), (''observedAt'', jint (observedAt s)), (''blockNumber'', jbig (blockNumber s)),
      (''owner'', JStr (snap_owner s)), (''protocol'', JStr (snap_protocol s)), (''pool'', JStr (snap_pool s)),
      (''positionManager'', JStr (snap_positionManager s)), (''tokenId'', JStr (tokenId s)),
      (''token0'', JStr (token0 s)), (''token1'', JStr (token1 s)),
      (''token0Decimals'', jint (token0Decimals s)), (''token1Decimals'', jint (token1Decimals s)),
      (''tickSpacing'', jint (tickSpacing s)), (''feePpm'', jint (feePpm s)), (''unstakedFeePpm'', jint (unstakedFeePpm s)),
      (''tick'', jint (tick s)), (''sqrtPriceX96'', jbig (sqrtPriceX96 s)),
      (''tickLower'', jint (tickLower s)), (''tickUpper'', jint (tickUpper s)), (''liquidity'', jbig (snap_liquidity s)),
      (''tokensOwed0'', jbig (tokensOwed0 s)), (''tokensOwed1'', jbig (tokensOwed1 s))] @
     jopt ''poolId'' (map_option JStr (snap_poolId s)) @ jopt ''hooks'' (map_option JStr (snap_hooks s)) @
     jopt ''staked'' (map_option JBool (staked s)) @ jopt ''gauge'' (map_option JStr (snap_gauge s)) @
     jopt ''nftOwner'' (map_option JStr (nftOwner s)) @ jopt ''rewardOwed'' (map_option jbig (rewardOwed s)) @
     jopt ''rewardReadError'' (map_option JStr (rewardReadError s)))"

fun intent_json :: "intent_value \<Rightarrow> json" where
  "intent_json (IStr s) = JStr s"
| "intent_json (INum r) = JNum r"
| "intent_json (IBool b) = JBool b"

section \<open>Checking the snapshot\<close>

definition same :: "string \<Rightarrow> string \<Rightarrow> bool" where
  "same a b \<longleftrightarrow> toLower a = toLower b"

definition same_opt :: "string option \<Rightarrow> string option \<Rightarrow> bool" where
  "same_opt a b \<longleftrightarrow> (case (a, b) of (Some x, Some y) \<Rightarrow> x \<noteq> [] \<and> y \<noteq> [] \<and> same x y | _ \<Rightarrow> False)"

definition staked_strategy :: "strategy_config \<Rightarrow> bool" where
  "staked_strategy c \<longleftrightarrow> (case staking c of None \<Rightarrow> False | Some st \<Rightarrow> staking_enabled st)"

definition gauge_of :: "strategy_config \<Rightarrow> string option" where
  "gauge_of c = (case staking c of None \<Rightarrow> None | Some st \<Rightarrow> staking_gauge st)"

definition hasRiskQuote :: "strategy_config \<Rightarrow> position_snapshot \<Rightarrow> bool" where
  "hasRiskQuote c s \<longleftrightarrow>
     (same (token0 s) (riskToken c) \<and> same (token1 s) (quoteToken c)) \<or>
     (same (token1 s) (riskToken c) \<and> same (token0 s) (quoteToken c))"

text \<open>\<open>BigInt\<close> of a snapshot amount; its text is an integer by the type of the field.\<close>

definition snapshot_amount :: "int \<Rightarrow> string \<Rightarrow> int res" where
  "snapshot_amount x field =
     (if x < 0 then Inl (StrategyError E_CONFIG (''invalid snapshot '' @ field)) else Inr x)"

definition assertSnapshot :: "strategy_config \<Rightarrow> position_snapshot \<Rightarrow> unit res" where
  "assertSnapshot c s =
     (if snap_chainId s \<noteq> chainId c then Inl (StrategyError E_CHAIN ''snapshot chain mismatch'')
      else if \<not> same (snap_owner s) (owner c) then Inl (StrategyError E_OWNER ''position owner changed'')
      else if staked_strategy c \<and>
              \<not> (staked s = Some True \<and> same_opt (snap_gauge s) (gauge_of c) \<and> same_opt (nftOwner s) (gauge_of c))
      then Inl (StrategyError E_OWNER ''staked position custody changed'')
      else if \<not> staked_strategy c \<and> staked s = Some True
      then Inl (StrategyError E_OWNER ''strategy does not permit gauge custody'')
      else if snap_protocol s \<noteq> protocol c \<or> \<not> same (snap_pool s) (pool c) \<or>
              \<not> same (snap_positionManager s) (positionManager c)
      then Inl (StrategyError E_POOL_IDENTITY ''position no longer matches strategy'')
      else if activeTokenId c = None \<or> activeTokenId c = Some [] \<or> activeTokenId c \<noteq> Some (tokenId s)
      then Inl (StrategyError E_POSITION_CHANGED ''active token id changed'')
      else bindR (snapshot_amount (snap_liquidity s) ''liquidity'') (\<lambda>l.
        if l = 0 then Inl (StrategyError E_POSITION_CHANGED ''position has no liquidity'')
        else if \<not> hasRiskQuote c s then Inl (StrategyError E_POOL_IDENTITY ''pool tokens changed'')
        else Inr ()))"

section \<open>Steps\<close>

definition mk_step :: "int \<Rightarrow> step_kind \<Rightarrow> (string \<times> intent_value) list \<Rightarrow> plan_step" where
  "mk_step i k it = \<lparr>step_index = i, step_kind = k, step_intent = it\<rparr>"

definition or_empty :: "string option \<Rightarrow> string" where
  "or_empty x = (case x of None \<Rightarrow> [] | Some v \<Rightarrow> v)"

definition approval :: "bool \<Rightarrow> (string \<times> intent_value) list" where
  "approval low = [(''exactAllowance'', IBool (\<not> low)), (''persistentAllowance'', IBool low)]"

fun handling_name :: "fee_handling \<Rightarrow> string" where
  "handling_name ConvertToQuote = ''convert_to_quote''"
| "handling_name Reinvest = ''reinvest''"
| "handling_name HoldTokens = ''hold_tokens''"

fun action_name :: "plan_action \<Rightarrow> string" where
  "action_name (Boundary Recenter) = ''recenter''"
| "action_name (Boundary SkewRecenter) = ''skew_recenter''"
| "action_name (Boundary HoldQuote) = ''hold_quote''"
| "action_name (Boundary PauseAction) = ''pause''"
| "action_name CollectFees = ''collect_fees''"

definition precheck_step :: "strategy_config \<Rightarrow> position_snapshot \<Rightarrow> plan_step" where
  "precheck_step c s = mk_step 0 Precheck [(''owner'', IStr (owner c)), (''tokenId'', IStr (tokenId s)),
     (''pool'', IStr (pool c)), (''blockNumber'', IStr (big_to_string (blockNumber s)))]"

definition rebalance_steps ::
  "strategy_config \<Rightarrow> position_snapshot \<Rightarrow> int \<Rightarrow> int \<Rightarrow> int \<times> int \<Rightarrow> plan_step list" where
  "rebalance_steps c s lo up mins =
     (let low = lowTransactionMode (execution c); tok = IStr (tokenId s); pm = IStr (positionManager c) in
      [precheck_step c s,
       mk_step 1 Decrease [(''tokenId'', tok), (''liquidity'', IStr (big_to_string (snap_liquidity s))),
         (''amount0Min'', IStr (big_to_string (fst mins))), (''amount1Min'', IStr (big_to_string (snd mins))),
         (''bundledCollect'', IBool low)],
       mk_step 2 CollectStep [(''tokenId'', tok), (''recipient'', IStr (owner c)), (''includePrincipal'', IBool True),
         (''bundledWithDecrease'', IBool low)],
       mk_step 3 Burn [(''tokenId'', tok), (''onlyIfEmpty'', IBool True), (''skippedInLowTransactionMode'', IBool low)],
       mk_step 4 ApproveSwap ((''spender'', IStr ''kyber_router'') # approval low),
       mk_step 5 Swap [(''repriceImmediatelyBeforeSend'', IBool True), (''feeHandling'', IStr (handling_name (handling (fees c)))),
         (''maxSlippageBps'', INum (maxSlippageBps (safeguards c)))],
       mk_step 6 Approve0 ([(''token'', IStr (token0 s)), (''spender'', pm)] @ approval low),
       mk_step 7 Approve1 ([(''token'', IStr (token1 s)), (''spender'', pm)] @ approval low),
       mk_step 8 MintStep [(''pool'', IStr (pool c)), (''tickLower'', INum (of_int lo)), (''tickUpper'', INum (of_int up)),
         (''recipient'', IStr (owner c)), (''useActualBalances'', IBool True)],
       mk_step 9 Revoke0 [(''token'', IStr (token0 s)), (''spender'', pm), (''allowance'', INum 0),
         (''skippedInLowTransactionMode'', IBool low)],
       mk_step 10 Revoke1 [(''token'', IStr (token1 s)), (''spender'', pm), (''allowance'', INum 0),
         (''skippedInLowTransactionMode'', IBool low)],
       mk_step 11 Commit [(''replaceTokenId'', IBool True), (''appendCycleAndLedger'', IBool True)]])"

definition staking_steps :: "string \<Rightarrow> strategy_config \<Rightarrow> position_snapshot \<Rightarrow> boundary_action \<Rightarrow> plan_step list" where
  "staking_steps wnative c s act =
     (case staking c of
        None \<Rightarrow> []
      | Some st \<Rightarrow>
          if \<not> staking_enabled st then []
          else
            let low = lowTransactionMode (execution c);
                g = (''gauge'', IStr (or_empty (staking_gauge st))); r = IStr (or_empty (rewardToken st))
            in [mk_step 12 Unstake [g, (''tokenId'', IStr (tokenId s)), (''autoClaimReward'', IBool True)],
                mk_step 13 ApproveReward ((''token'', r) # approval low),
                mk_step 14 SwapReward [(''tokenIn'', r), (''intermediateToken'', IStr wnative),
                  (''tokenOut'', IStr (quoteToken c)), (''holdAsIncome'', IBool True)]] @
               (if act = HoldQuote then []
                else [mk_step 15 ApproveNft [(''spender'', IStr (or_empty (staking_gauge st))),
                        (''mintedTokenId'', IBool (\<not> low)), (''approvalForAll'', IBool low)],
                      mk_step 16 Stake [g, (''mintedTokenId'', IBool True)]]))"

text \<open>The hash covers the canonical text of the payload; the plan is named by its first digits.\<close>

definition plan_payload ::
  "strategy_config \<Rightarrow> position_snapshot \<Rightarrow> int \<Rightarrow> plan_action \<Rightarrow> tick_range \<Rightarrow> rat \<Rightarrow> plan_step list \<Rightarrow> bool \<Rightarrow> json" where
  "plan_payload c s now act rg scale sts manual = JObj (
     [(''strategyId'', JStr (cfg_id c)), (''strategyRevision'', jint (revision c)), (''createdAt'', jint now),
      (''action'', JStr (action_name act)), (''snapshot'', snapshot_json s),
      (''nextRange'', JObj ([(''tickLower'', jint (tr_lower rg)), (''tickUpper'', jint (tr_upper rg))] @
                            map (\<lambda>(k, v). (k, JNum v)) (quotes rg))),
      (''rangeScale'', JNum scale),
      (''steps'', JArr (map (\<lambda>st. JObj [(''index'', jint (step_index st)), (''kind'', JStr (step_kind_name (step_kind st))),
         (''intent'', JObj (map (\<lambda>(k, v). (k, intent_json v)) (step_intent st)))]) sts))] @
     (if manual then [(''manualExecution'', JBool True)] else []))"

section \<open>Plans\<close>

text \<open>What the plans depend on besides their arguments.\<close>

record plan_env =
  pe_math :: math
  pe_ntext :: "rat \<Rightarrow> string"
  pe_keccak :: "string \<Rightarrow> string"
  pe_wnative :: string

definition plan_digest :: "plan_env \<Rightarrow> json \<Rightarrow> string" where
  "plan_digest env payload = pe_keccak env (stable_json (pe_ntext env) payload)"

definition plan_name :: "string \<Rightarrow> string" where
  "plan_name h = ''plan-'' @ take 16 (drop 2 h)"

text \<open>The side a plan is for: the given one, or where the position is; \<open>None\<close> is \<open>'in'\<close>.\<close>

definition plan_side :: "position_snapshot \<Rightarrow> trigger_side option \<Rightarrow> trigger_side option" where
  "plan_side s given =
     (case given of
        Some t \<Rightarrow> Some t
      | None \<Rightarrow>
          (case rangeSide (of_int (tick s)) (tickLower s) (tickUpper s) of
             SideIn \<Rightarrow> None | SideLower \<Rightarrow> Some Lower | SideUpper \<Rightarrow> Some Upper))"

definition plan_policy :: "strategy_config \<Rightarrow> trigger_side \<Rightarrow> boundary_policy" where
  "plan_policy c t =
     (case t of
        Lower \<Rightarrow> lower (boundary c)
      | Upper \<Rightarrow> upper (boundary c)
      | AdaptiveContraction \<Rightarrow> \<lparr>condition = Always, action = Recenter\<rparr>
      | Manual \<Rightarrow> upper (boundary c))"

definition plan_range ::
  "math \<Rightarrow> strategy_config \<Rightarrow> position_snapshot \<Rightarrow> boundary_action \<Rightarrow> rat \<Rightarrow> tick_range res" where
  "plan_range m c s act scale =
     (let rg = range c;
          baseLower = (if act = SkewRecenter \<and> defensiveLowerPct rg \<noteq> None then the (defensiveLowerPct rg) else lowerPct rg);
          baseUpper = (if act = SkewRecenter \<and> defensiveUpperPct rg \<noteq> None then the (defensiveUpperPct rg) else upperPct rg);
          (lp, up) = scaledRangePcts baseLower baseUpper scale;
          is0 = same (token0 s) (riskToken c); p = tickToPrice m (tick s) (token0Decimals s) (token1Decimals s)
      in if mode rg = FixedTicks
         then bindR (fixedTickRange (range_tickLower rg) (range_tickUpper rg) (tickSpacing s)) (\<lambda>(l, u).
                Inr \<lparr>tr_lower = l, tr_upper = u, quotes = []\<rparr>)
         else quoteRangeToTicks m
                \<lparr>centerQuotePerRisk = (if is0 then p else ndiv 1 p), ri_lowerPct = lp, ri_upperPct = up,
                  ri_currentTick = tick s, ri_tickSpacing = tickSpacing s, token0IsRisk = is0,
                  ri_dec0 = token0Decimals s, ri_dec1 = token1Decimals s\<rparr>)"

text \<open>The least amounts the exit must return.\<close>

definition plan_mins :: "strategy_config \<Rightarrow> position_snapshot \<Rightarrow> (int \<times> int) res" where
  "plan_mins c s =
     bindR (snapshot_amount (snap_liquidity s) ''liquidity'') (\<lambda>liq.
       if \<not> safeguards_enabled (safeguards c) then Inr (0, 0)
       else
         bindR (snapshot_amount (sqrtPriceX96 s) ''sqrtPriceX96'') (\<lambda>p.
         bindR (getSqrtRatioAtTick (tickLower s)) (\<lambda>a.
         bindR (getSqrtRatioAtTick (tickUpper s)) (\<lambda>b.
           minAmountsForLiquidity p a b liq (maxSlippageBps (safeguards c))))))"

definition plan_of ::
  "plan_env \<Rightarrow> strategy_config \<Rightarrow> position_snapshot \<Rightarrow> int \<Rightarrow> trigger_side \<Rightarrow> bool \<Rightarrow> plan_action \<Rightarrow> tick_range \<Rightarrow>
   rat \<Rightarrow> plan_step list \<Rightarrow> execution_plan" where
  "plan_of env c s now t manual act rg scale sts =
     (let h = plan_digest env (plan_payload c s now act rg scale sts manual) in
      \<lparr>plan_id = plan_name h, plan_hash = h, plan_strategyId = cfg_id c, strategyRevision = revision c,
       plan_createdAt = now, expiresAt = now + maxPlanAgeSeconds (safeguards c), triggerSide = t,
       manualExecution = manual, plan_action = act, snapshot = s, nextLower = tr_lower rg, nextUpper = tr_upper rg,
       rangeScale = scale, steps = sts, plan_maxSlippageBps = maxSlippageBps (safeguards c),
       plan_maxPlanAgeSeconds = maxPlanAgeSeconds (safeguards c), plan_dryRun = dryRun (execution c)\<rparr>)"

definition makeRebalancePlan ::
  "plan_env \<Rightarrow> strategy_config \<Rightarrow> position_snapshot \<Rightarrow> int \<Rightarrow> trigger_side option \<Rightarrow> bool \<Rightarrow> rat option \<Rightarrow>
   execution_plan res" where
  "makeRebalancePlan env c s now given manual scale =
     bindR (assertSnapshot c s) (\<lambda>_.
       if now - observedAt s > maxPlanAgeSeconds (safeguards c)
       then Inl (StrategyError E_PLAN_STALE ''snapshot is older than maximum plan age'')
       else
         case plan_side s given of
           None \<Rightarrow> Inl (StrategyError E_CONFIG ''cannot rebalance an in-range position'')
         | Some t \<Rightarrow>
             let policy = plan_policy c t in
             if t = AdaptiveContraction \<and> rangeSide (of_int (tick s)) (tickLower s) (tickUpper s) \<noteq> SideIn
             then Inl (StrategyError E_CONFIG ''adaptive contraction requires an in-range position'')
             else if action policy = PauseAction
             then Inl (StrategyError E_CONFIG ''boundary action pause has no rebuild plan'')
             else if condition policy = ManualConfirm \<and> given = None
             then Inl (StrategyError E_CONFIG ''boundary requires an explicit manual trigger'')
             else
               let scale = (if mode (range c) = FixedTicks then 1
                            else max 1 (case scale of None \<Rightarrow> 1 | Some x \<Rightarrow> x)) in
               bindR (plan_range (pe_math env) c s (action policy) scale) (\<lambda>rg.
               bindR (plan_mins c s) (\<lambda>mins.
                 Inr (plan_of env c s now t manual (Boundary (action policy)) rg scale
                        (rebalance_steps c s (tr_lower rg) (tr_upper rg) mins @
                         staking_steps (pe_wnative env) c s (action policy))))))"

definition fee_steps :: "strategy_config \<Rightarrow> position_snapshot \<Rightarrow> plan_step list" where
  "fee_steps c s =
     (let skip = [(''skipped'', IBool True), (''reason'', IStr ''fee_collection'')] in
      [precheck_step c s, mk_step 1 Decrease skip,
       mk_step 2 CollectStep [(''tokenId'', IStr (tokenId s)), (''recipient'', IStr (owner c)), (''feesOnly'', IBool True)],
       mk_step 3 Burn skip,
       mk_step 4 ApproveSwap [(''spender'', IStr ''kyber_router''), (''exactAllowance'', IBool True),
         (''onlyIfConvertToQuote'', IBool True)],
       mk_step 5 Swap [(''feesOnly'', IBool True), (''handling'', IStr (handling_name (handling (fees c))))],
       mk_step 6 Approve0 skip, mk_step 7 Approve1 skip, mk_step 8 MintStep skip,
       mk_step 9 Revoke0 skip, mk_step 10 Revoke1 skip,
       mk_step 11 Commit [(''appendLedger'', IBool True), (''preserveTokenId'', IBool True)]])"

definition makeFeeCollectionPlan :: "plan_env \<Rightarrow> strategy_config \<Rightarrow> position_snapshot \<Rightarrow> int \<Rightarrow> execution_plan res" where
  "makeFeeCollectionPlan env c s now =
     (if staked_strategy c then Inl (StrategyError E_CONFIG ''staked reward harvesting occurs on rebalance'')
      else bindR (assertSnapshot c s) (\<lambda>_.
        if now - observedAt s > maxPlanAgeSeconds (safeguards c)
        then Inl (StrategyError E_PLAN_STALE ''snapshot is older than maximum plan age'')
        else Inr (plan_of env c s now Manual False CollectFees
               \<lparr>tr_lower = tickLower s, tr_upper = tickUpper s, quotes = []\<rparr> 1 (fee_steps c s))))"

section \<open>The canonical text does not depend on the order of keys\<close>

lemma stable_json_key_order:
  assumes "mset kvs = mset kvs'" and "distinct (map fst kvs)"
  shows "stable_json ntext (JObj kvs) = stable_json ntext (JObj kvs')"
proof -
  define f where "f = (\<lambda>(k, v). (k, quote_string k @ '':'' @ stable_json ntext v))"
  define key where "key = (\<lambda>(k, v :: string). code_units k)"
  have inj: "inj_on key (set (map f kvs))"
  proof (rule inj_onI)
    fix x y assume x: "x \<in> set (map f kvs)" and y: "y \<in> set (map f kvs)" and eq: "key x = key y"
    obtain k v k' v' where kv: "(k, v) \<in> set kvs" "x = f (k, v)" "(k', v') \<in> set kvs" "y = f (k', v')"
      using x y by auto
    have "map (of_char :: char \<Rightarrow> nat) k = map of_char k'" using eq kv by (simp add: f_def key_def code_units_def)
    then have "k = k'" by (simp add: inj_map_eq_map [OF inj_of_char])
    then show "x = y" using kv assms(2) by (metis eq_key_imp_eq_value)
  qed
  have "mset (map f kvs) = mset (sort_key key (map f kvs'))" using assms(1) by simp
  then have "sort_key key (map f kvs) = sort_key key (map f kvs')"
    using inj by (rule sort_key_inj_key_eq) simp
  then show ?thesis by (simp add: f_def key_def)
qed

section \<open>Ranges\<close>

lemma full_range_near:
  assumes "0 < spacing"
  shows "fst (fullRangeTicks spacing) < MIN_TICK + spacing \<and> MAX_TICK - spacing < snd (fullRangeTicks spacing)"
  using div_mult_gt [OF assms, of MAX_TICK] div_mult_le [OF assms, of "- MIN_TICK"]
    div_mult_gt [OF assms, of "- MIN_TICK"]
  by (simp add: fullRangeTicks_def floor_div_def ceil_div_def distrib_right)

definition range_ok :: "int \<Rightarrow> int \<Rightarrow> int \<Rightarrow> bool" where
  "range_ok spacing lo up \<longleftrightarrow>
     MIN_TICK \<le> lo \<and> lo < up \<and> up \<le> MAX_TICK \<and> spacing dvd lo \<and> spacing dvd up"

lemma quoteRangeToTicks_ok:
  assumes "quoteRangeToTicks m i = Inr rg" and "ri_tickSpacing i \<le> MAX_TICK"
  shows "range_ok (ri_tickSpacing i) (tr_lower rg) (tr_upper rg) \<and>
    (MIN_TICK + 2 * ri_tickSpacing i \<le> ri_currentTick i \<and> ri_currentTick i \<le> MAX_TICK - 2 * ri_tickSpacing i \<longrightarrow>
     tr_lower rg < ri_currentTick i \<and> ri_currentTick i < tr_upper rg)"
proof -
  let ?sp = "ri_tickSpacing i" and ?cur = "ri_currentTick i"
  have sp: "0 < ?sp" using assms(1) by (auto simp: quoteRangeToTicks_def split: if_splits)
  note al = alignTick_aligned [OF sp assms(2)]
  define qL where "qL = nmul (centerQuotePerRisk i) (nsub 1 (ndiv (ri_lowerPct i) 100))"
  define qU where "qU = nmul (centerQuotePerRisk i) (nadd 1 (ndiv (ri_upperPct i) 100))"
  define x where "x = priceToTick m (if token0IsRisk i then qL else ndiv 1 qU) (ri_dec0 i) (ri_dec1 i)"
  define y where "y = priceToTick m (if token0IsRisk i then qU else ndiv 1 qL) (ri_dec0 i) (ri_dec1 i)"
  define lo where "lo = (if alignTick x ?sp Floor \<ge> ?cur then alignTick (?cur - ?sp) ?sp Floor else alignTick x ?sp Floor)"
  define up where "up = (if alignTick y ?sp Ceil \<le> ?cur then alignTick (?cur + ?sp) ?sp Ceil else alignTick y ?sp Ceil)"
  have "\<not> lo \<ge> up \<and> tr_lower rg = lo \<and> tr_upper rg = up"
    using assms(1) unfolding quoteRangeToTicks_def Let_def
    unfolding qL_def [symmetric] qU_def [symmetric]
    unfolding x_def [symmetric] y_def [symmetric]
    unfolding lo_def [symmetric] up_def [symmetric]
    by (auto split: if_split_asm)
  then have lo: "tr_lower rg = (if alignTick x ?sp Floor \<ge> ?cur then alignTick (?cur - ?sp) ?sp Floor else alignTick x ?sp Floor)"
    and up: "tr_upper rg = (if alignTick y ?sp Ceil \<le> ?cur then alignTick (?cur + ?sp) ?sp Ceil else alignTick y ?sp Ceil)"
    and less: "tr_lower rg < tr_upper rg"
    by (simp_all add: lo_def up_def)
  have dvd: "?sp dvd tr_lower rg" "?sp dvd tr_upper rg" unfolding lo up using al by auto
  have bnd: "MIN_TICK \<le> tr_lower rg" "tr_upper rg \<le> MAX_TICK"
    unfolding lo up using al by (auto intro: order_trans)
  have "tr_lower rg < ?cur \<and> ?cur < tr_upper rg"
    if c: "MIN_TICK + 2 * ?sp \<le> ?cur" "?cur \<le> MAX_TICK - 2 * ?sp"
  proof
    have "fst (fullRangeTicks ?sp) \<le> ?cur - ?sp \<and> ?cur + ?sp \<le> snd (fullRangeTicks ?sp)"
      using full_range_near [OF sp] c by linarith
    then have "alignTick (?cur - ?sp) ?sp Floor \<le> ?cur - ?sp" "?cur + ?sp \<le> alignTick (?cur + ?sp) ?sp Ceil"
      using al [of "?cur - ?sp" Floor] al [of "?cur + ?sp" Ceil] sp by auto
    then show "tr_lower rg < ?cur" "?cur < tr_upper rg" unfolding lo up using sp by auto
  qed
  then show ?thesis using dvd bnd less by (simp add: range_ok_def)
qed

lemma fixedTickRange_ok:
  assumes "fixedTickRange lo up spacing = Inr (l, u)"
  shows "range_ok spacing l u"
proof -
  have sp: "0 < spacing" and d: "l smod spacing = 0" "u smod spacing = 0" and b: "MIN_TICK \<le> l" "l < u" "u \<le> MAX_TICK"
    using assms by (auto simp: fixedTickRange_def split: option.splits if_splits)
  have "spacing dvd x" if "x smod spacing = 0" for x
    using that sp by (auto simp: signed_modulo_int_def sgn_if split: if_splits)
  then show ?thesis using d b by (simp add: range_ok_def)
qed

lemma plan_range_ok:
  assumes "plan_range m c s act scale = Inr rg" and "tickSpacing s \<le> MAX_TICK"
  shows "range_ok (tickSpacing s) (tr_lower rg) (tr_upper rg) \<and>
    (mode (range c) \<noteq> FixedTicks \<and> MIN_TICK + 2 * tickSpacing s \<le> tick s \<and> tick s \<le> MAX_TICK - 2 * tickSpacing s \<longrightarrow>
     tr_lower rg < tick s \<and> tick s < tr_upper rg)"
proof (cases "mode (range c) = FixedTicks")
  case True
  then show ?thesis
    using assms(1) fixedTickRange_ok by (auto simp: plan_range_def Let_def split_beta bindR_eq_Inr)
next
  case False
  then obtain i where "quoteRangeToTicks m i = Inr rg" "ri_tickSpacing i = tickSpacing s" "ri_currentTick i = tick s"
    using assms(1) unfolding plan_range_def Let_def split_beta by (auto split: if_splits)
  then show ?thesis using quoteRangeToTicks_ok [of m i rg] assms(2) False by simp
qed

section \<open>What a plan guarantees\<close>

lemma assertSnapshot_ok:
  assumes "assertSnapshot c s = Inr u"
  shows "snap_chainId s = chainId c \<and> same (snap_owner s) (owner c) \<and> same (snap_pool s) (pool c) \<and>
     activeTokenId c = Some (tokenId s) \<and> snap_liquidity s > 0 \<and> hasRiskQuote c s \<and>
     (staked_strategy c \<longleftrightarrow> staked s = Some True) \<and>
     (staked_strategy c \<longrightarrow> same_opt (nftOwner s) (gauge_of c))"
  using assms by (auto simp: assertSnapshot_def snapshot_amount_def bindR_eq_Inr split: if_splits)

text \<open>The indexes of the steps, which the executor and its recovery identify a step by.\<close>

lemma rebalance_step_indexes:
  "map step_index (rebalance_steps c s lo up mins @ staking_steps wn c s act) =
     [0..11] @ (if staked_strategy c then [12..14] @ (if act = HoldQuote then [] else [15..16]) else [])"
  by (simp add: rebalance_steps_def staking_steps_def staked_strategy_def precheck_step_def mk_step_def Let_def
      upto.simps split: option.split)

lemma makeRebalancePlan_Inr:
  assumes "makeRebalancePlan env c s now given manual scale = Inr p"
  obtains t rg mins sc where
    "assertSnapshot c s = Inr ()" "now - observedAt s \<le> maxPlanAgeSeconds (safeguards c)"
    "plan_side s given = Some t" "action (plan_policy c t) \<noteq> PauseAction"
    "t = AdaptiveContraction \<longrightarrow> rangeSide (of_int (tick s)) (tickLower s) (tickUpper s) = SideIn"
    "condition (plan_policy c t) = ManualConfirm \<longrightarrow> given \<noteq> None"
    "plan_range (pe_math env) c s (action (plan_policy c t)) sc = Inr rg" "plan_mins c s = Inr mins"
    "p = plan_of env c s now t manual (Boundary (action (plan_policy c t))) rg sc
           (rebalance_steps c s (tr_lower rg) (tr_upper rg) mins @ staking_steps (pe_wnative env) c s (action (plan_policy c t)))"
    "sc \<ge> 1"
proof -
  define sc where "sc = (if mode (range c) = FixedTicks then 1 else max 1 (case scale of None \<Rightarrow> 1 | Some x \<Rightarrow> x))"
  have "sc \<ge> 1" by (simp add: sc_def)
  with assms that show ?thesis
    unfolding makeRebalancePlan_def Let_def sc_def [symmetric]
    by (auto simp: bindR_eq_Inr split: if_split_asm option.split_asm)
qed

text \<open>
  C20. A rebalance plan is only made for the position the strategy is about, and what it says is
  executable: the snapshot is on the strategy's chain, pool and owner, is the active token with
  liquidity left, is in gauge custody exactly when the strategy stakes, and is no older than the
  configured age; the action is that of the policy of the plan's side and never a pause; without
  a given side the position is out of its range on that side and the policy is automatic; the
  new range lies on the pool's tick grid inside the protocol's limits and, unless it is fixed,
  strictly around the current tick (two spacings away from the limits); the plan expires after
  the configured age; and the steps carry the indexes 0 to 11, then 12 to 14 when staking, then
  15 and 16 when the new position is staked again.
\<close>

theorem rebalance_plan_authorised:
  assumes "makeRebalancePlan env c s now given manual scale = Inr p" and "tickSpacing s \<le> MAX_TICK"
  shows "(snap_chainId s = chainId c \<and> same (snap_owner s) (owner c) \<and> same (snap_pool s) (pool c) \<and>
       activeTokenId c = Some (tokenId s) \<and> snap_liquidity s > 0 \<and> (staked_strategy c \<longleftrightarrow> staked s = Some True) \<and>
       now - observedAt s \<le> maxPlanAgeSeconds (safeguards c)) \<and>
     (\<exists>a. plan_action p = Boundary a \<and> a = action (plan_policy c (triggerSide p)) \<and> a \<noteq> PauseAction) \<and>
     (case given of Some t \<Rightarrow> triggerSide p = t
      | None \<Rightarrow> rangeSide (of_int (tick s)) (tickLower s) (tickUpper s) \<noteq> SideIn \<and>
          expected_side (triggerSide p) = rangeSide (of_int (tick s)) (tickLower s) (tickUpper s) \<and>
          condition (plan_policy c (triggerSide p)) \<noteq> ManualConfirm) \<and>
     range_ok (tickSpacing s) (nextLower p) (nextUpper p) \<and>
     (mode (range c) \<noteq> FixedTicks \<and> MIN_TICK + 2 * tickSpacing s \<le> tick s \<and> tick s \<le> MAX_TICK - 2 * tickSpacing s \<longrightarrow>
        nextLower p < tick s \<and> tick s < nextUpper p) \<and>
     expiresAt p = now + maxPlanAgeSeconds (safeguards c) \<and> rangeScale p \<ge> 1 \<and>
     map step_index (steps p) = [0..11] @ (if staked_strategy c then [12..14] @
        (if plan_action p = Boundary HoldQuote then [] else [15..16]) else [])"
proof -
  from makeRebalancePlan_Inr [OF assms(1)] obtain t rg mins sc where
    ok: "assertSnapshot c s = Inr ()" and fresh: "now - observedAt s \<le> maxPlanAgeSeconds (safeguards c)"
    and side: "plan_side s given = Some t" and act: "action (plan_policy c t) \<noteq> PauseAction"
    and auto: "condition (plan_policy c t) = ManualConfirm \<longrightarrow> given \<noteq> None"
    and rg: "plan_range (pe_math env) c s (action (plan_policy c t)) sc = Inr rg"
    and p: "p = plan_of env c s now t manual (Boundary (action (plan_policy c t))) rg sc
       (rebalance_steps c s (tr_lower rg) (tr_upper rg) mins @ staking_steps (pe_wnative env) c s (action (plan_policy c t)))"
    and sc: "sc \<ge> 1" .
  have f: "triggerSide p = t" "plan_action p = Boundary (action (plan_policy c t))" "nextLower p = tr_lower rg"
    "nextUpper p = tr_upper rg" "expiresAt p = now + maxPlanAgeSeconds (safeguards c)" "rangeScale p = sc"
    "steps p = rebalance_steps c s (tr_lower rg) (tr_upper rg) mins @ staking_steps (pe_wnative env) c s (action (plan_policy c t))"
    by (simp_all add: p plan_of_def Let_def)
  have given: "case given of Some t' \<Rightarrow> t = t'
      | None \<Rightarrow> rangeSide (of_int (tick s)) (tickLower s) (tickUpper s) \<noteq> SideIn \<and>
          expected_side t = rangeSide (of_int (tick s)) (tickLower s) (tickUpper s) \<and>
          condition (plan_policy c t) \<noteq> ManualConfirm"
    using side auto by (auto simp: plan_side_def expected_side_def rangeSide_def split: option.splits range_side.splits if_splits)
  show ?thesis
    unfolding f rebalance_step_indexes
    using assertSnapshot_ok [OF ok] fresh act given plan_range_ok [OF rg assms(2)] sc by auto
qed

text \<open>A sample: constant powers and logarithms put the range one spacing around the tick.\<close>

definition flat_env :: plan_env where
  "flat_env = \<lparr>pe_math = \<lparr>m_pow = (\<lambda>a b. 1), m_log = (\<lambda>x. 1)\<rparr>, pe_ntext = (\<lambda>r. ''0.5''),
     pe_keccak = (\<lambda>x. ''0x0123456789abcdef''), pe_wnative = ''0xw''\<rparr>"

definition below_snapshot :: position_snapshot where
  "below_snapshot = sample_snapshot\<lparr>tick := - 660\<rparr>"

definition fixed_config :: strategy_config where
  "fixed_config = sample_config
     \<lparr>range := \<lparr>mode = FixedTicks, lowerPct = 5, upperPct = 5, range_tickLower = Some (-1200),
        range_tickUpper = Some (-60), defensiveLowerPct = None, defensiveUpperPct = None\<rparr>,
      safeguards := sample_safeguards\<lparr>safeguards_enabled := False\<rparr>\<rparr>"

lemmas sample_simps =
  fixed_config_def sample_config_def sample_safeguards_def sample_policy_def sample_execution_def
  below_snapshot_def sample_snapshot_def

lemma fixed_plan:
  "\<exists>p. makeRebalancePlan flat_env fixed_config below_snapshot 1000 None False None = Inr p"
proof -
  have a: "assertSnapshot fixed_config below_snapshot = Inr ()"
    by (simp add: assertSnapshot_def sample_simps same_def staked_strategy_def hasRiskQuote_def snapshot_amount_def)
  have s: "plan_side below_snapshot None = Some Lower"
    by (simp add: plan_side_def rangeSide_def sample_simps)
  have r: "plan_range (pe_math flat_env) fixed_config below_snapshot Recenter sc =
      Inr \<lparr>tr_lower = -1200, tr_upper = -60, quotes = []\<rparr>" for sc
    by (simp add: plan_range_def fixedTickRange_def sample_simps MIN_TICK_def MAX_TICK_def Let_def split_beta
        signed_modulo_int_def)
  have m: "plan_mins fixed_config below_snapshot = Inr (0, 0)"
    by (simp add: plan_mins_def snapshot_amount_def sample_simps)
  have p: "plan_policy fixed_config Lower = \<lparr>condition = Always, action = Recenter\<rparr>"
    by (simp add: plan_policy_def sample_simps)
  have "\<not> 1000 - observedAt below_snapshot > maxPlanAgeSeconds (safeguards fixed_config)" by (simp add: sample_simps)
  then show ?thesis by (simp add: makeRebalancePlan_def a s r m p Let_def)
qed

lemma rebalance_plan_authorised_witness:
  "\<exists>p. makeRebalancePlan flat_env fixed_config below_snapshot 1000 None False None = Inr p \<and>
     range_ok 60 (nextLower p) (nextUpper p) \<and> triggerSide p = Lower"
proof -
  obtain p where p: "makeRebalancePlan flat_env fixed_config below_snapshot 1000 None False None = Inr p"
    using fixed_plan by blast
  have sp: "tickSpacing below_snapshot = 60" "tickSpacing below_snapshot \<le> MAX_TICK"
    by (simp_all add: sample_simps MAX_TICK_def)
  have side: "rangeSide (of_int (tick below_snapshot)) (tickLower below_snapshot) (tickUpper below_snapshot) = SideLower"
    by (simp add: rangeSide_def sample_simps)
  show ?thesis
    using rebalance_plan_authorised [OF p sp(2)] p side sp(1)
    by (cases "triggerSide p") (auto simp: expected_side_def)
qed

end
