(* ===== verification/Risk.thy ===== *)
theory Risk
  imports Planner Accounting StoreMonitor
begin

text \<open>
  \<open>executor/risk.ts\<close>, \<open>executor/capital-policy.ts\<close> and \<open>executor/limits.ts\<close>: pool-price
  conversions, the impact of a swap, the share of the risk asset, the fresh range of a strategy,
  the automatic turnover limit and the capital cap over the stored baseline.  The valuation and
  quote services and \<open>parseUnits\<close> are parameters.
\<close>

section \<open>Pool conversions (risk.ts)\<close>

definition Q192 :: int where "Q192 = 2 ^ 192"

definition quotePerRiskAtTick :: "math \<Rightarrow> int \<Rightarrow> strategy_config \<Rightarrow> position_snapshot \<Rightarrow> rat" where
  "quotePerRiskAtTick m t c s =
     (let token1Per0 = tickToPrice m t (token0Decimals s) (token1Decimals s)
      in if toLower (quoteToken c) = toLower (token1 s) then token1Per0 else ndiv 1 token1Per0)"

definition freshRange ::
  "math \<Rightarrow> strategy_config \<Rightarrow> position_snapshot \<Rightarrow> int \<Rightarrow> trigger_side option \<Rightarrow> rat \<Rightarrow> tick_range res" where
  "freshRange m c s t side scale =
     (if mode (range c) = FixedTicks
      then bindR (fixedTickRange (range_tickLower (range c)) (range_tickUpper (range c)) (tickSpacing s))
             (\<lambda>(l, u). Inr \<lparr>tr_lower = l, tr_upper = u, quotes = []\<rparr>)
      else
        let is0 = (toLower (token0 s) = toLower (riskToken c));
            p = tickToPrice m t (token0Decimals s) (token1Decimals s);
            skew = (case side of Some Lower \<Rightarrow> action (lower (boundary c)) = SkewRecenter
                    | Some Upper \<Rightarrow> action (upper (boundary c)) = SkewRecenter | _ \<Rightarrow> False);
            baseLower = (if skew \<and> defensiveLowerPct (range c) \<noteq> None then the (defensiveLowerPct (range c)) else lowerPct (range c));
            baseUpper = (if skew \<and> defensiveUpperPct (range c) \<noteq> None then the (defensiveUpperPct (range c)) else upperPct (range c));
            (lp, up) = scaledRangePcts baseLower baseUpper scale
        in quoteRangeToTicks m
             \<lparr>centerQuotePerRisk = (if is0 then p else ndiv 1 p), ri_lowerPct = lp, ri_upperPct = up,
               ri_currentTick = t, ri_tickSpacing = tickSpacing s, token0IsRisk = is0,
               ri_dec0 = token0Decimals s, ri_dec1 = token1Decimals s\<rparr>)"

definition convertPoolAmount :: "int \<Rightarrow> string \<Rightarrow> string \<Rightarrow> position_snapshot \<Rightarrow> int \<Rightarrow> int res" where
  "convertPoolAmount amt tokenIn tokenOut s sqrtP =
     (let t0 = toLower (token0 s); t1 = toLower (token1 s);
          in0 = (toLower tokenIn = t0); out0 = (toLower tokenOut = t0);
          squared = sqrtP * sqrtP
      in if in0 = out0 \<or> (toLower tokenIn \<noteq> t0 \<and> toLower tokenIn \<noteq> t1) \<or>
            (toLower tokenOut \<noteq> t0 \<and> toLower tokenOut \<noteq> t1)
         then Inl (JsError ''E_POOL_IDENTITY'')
         else if in0 then bdiv (amt * squared) Q192 else bdiv (amt * Q192) squared)"

definition quoteTurnover :: "int \<Rightarrow> string \<Rightarrow> strategy_config \<Rightarrow> position_snapshot \<Rightarrow> int \<Rightarrow> int res" where
  "quoteTurnover amt tok c s sqrtP =
     (if toLower tok = toLower (quoteToken c) then Inr amt
      else if toLower tok \<noteq> toLower (riskToken c) then Inl (JsError ''E_POOL_IDENTITY'')
      else convertPoolAmount amt tok (quoteToken c) s sqrtP)"

definition swapImpactBps :: "int \<Rightarrow> int \<Rightarrow> string \<Rightarrow> string \<Rightarrow> position_snapshot \<Rightarrow> int \<Rightarrow> int res" where
  "swapImpactBps amt quotedOut tokenIn tokenOut s sqrtP =
     bindR (convertPoolAmount amt tokenIn tokenOut s sqrtP) (\<lambda>spotOut.
       if spotOut = 0 \<or> quotedOut \<ge> spotOut then Inr 0
       else bdiv ((spotOut - quotedOut) * 10000) spotOut)"

definition riskAssetPct :: "int \<Rightarrow> int \<Rightarrow> strategy_config \<Rightarrow> position_snapshot \<Rightarrow> int \<Rightarrow> rat res" where
  "riskAssetPct amount_0 amount_1 c s sqrtP =
     (let riskRaw = (if toLower (riskToken c) = toLower (token0 s) then amount_0 else amount_1);
          quoteRaw = (if toLower (quoteToken c) = toLower (token0 s) then amount_0 else amount_1)
      in bindR (quoteTurnover riskRaw (riskToken c) c s sqrtP) (\<lambda>riskQuote.
           let total = riskQuote + quoteRaw in
           if total = 0 then Inr 0
           else bindR (bdiv (riskQuote * 1000000) total) (\<lambda>ppm. Inr (ndiv (fl (of_int ppm)) 10000))))"

section \<open>Automatic turnover limit (limits.ts)\<close>

definition automaticDailyTurnoverLimit :: "strategy_config \<Rightarrow> int \<Rightarrow> int \<Rightarrow> int" where
  "automaticDailyTurnoverLimit c positionValue projectedTurnover =
     (let narrowBandPct = min (lowerPct (range c)) (upperPct (range c));
          positionMultiples = max 20 (math_ceil (ndiv 100 (max narrowBandPct (fl (1 / 10)))))
      in max (max (positionValue * positionMultiples) (projectedTurnover * 2)) 1)"

section \<open>The capital cap (capital-policy.ts)\<close>

text \<open>A failed valuation is \<open>undefined\<close>; a failed quote is an exception.\<close>

record 'w capital_env =
  ce_usdgValue :: "int \<Rightarrow> string \<Rightarrow> 'w \<Rightarrow> int option \<times> 'w"
  ce_kyber :: "string \<Rightarrow> string \<Rightarrow> int \<Rightarrow> 'w \<Rightarrow> (int \<times> 'w) res"
  ce_parseUnits :: "string \<Rightarrow> int res"
  ce_settlement :: string
  ce_zero :: string
  ce_native :: string

definition capital_mark :: "strategy_config \<Rightarrow> position_snapshot \<Rightarrow> int \<Rightarrow> int option \<Rightarrow> baseline_row" where
  "capital_mark c s v usdg =
     \<lparr>bl_strategy_id = cfg_id c, bl_value_quote = v, bl_value_usdg = usdg, bl_quote_token = quoteToken c,
      bl_observed_at = observedAt s, bl_block_number = big_to_string (blockNumber s), bl_token_id = Some (tokenId s),
      bl_tick = tick s, bl_source = ''baseline_backfill''\<rparr>"

definition excess_usdg :: "'w capital_env \<Rightarrow> strategy_config \<Rightarrow> int \<Rightarrow> 'w \<Rightarrow> (int \<times> 'w) res" where
  "excess_usdg env c excess w =
     (if excess \<le> 0 then Inr (0, w)
      else if toLower (quoteToken c) = toLower (ce_settlement env) then Inr (excess, w)
      else ce_kyber env (if toLower (quoteToken c) = toLower (ce_zero env) then ce_native env else quoteToken c)
             (ce_settlement env) excess w)"

text \<open>The baseline: recorded when there is none, rebased when the quote token has changed.\<close>

definition capital_baseline ::
  "'w capital_env \<Rightarrow> strategy_config \<Rightarrow> position_snapshot \<Rightarrow> int \<Rightarrow> int \<Rightarrow> db \<Rightarrow> 'w \<Rightarrow> db \<times> 'w" where
  "capital_baseline env c s active now d w =
     (let (d, w) = (case strategyBaseline (cfg_id c) d of
                      Some _ \<Rightarrow> (d, w)
                    | None \<Rightarrow>
                        let (usdg, w) = ce_usdgValue env active (quoteToken c) w
                        in (snd (setStrategyBaselineIfAbsent (capital_mark c s active usdg) now d), w))
      in case strategyBaseline (cfg_id c) d of
           None \<Rightarrow> (d, w)
         | Some b \<Rightarrow>
             if toLower (bl_quote_token b) = toLower (quoteToken c) then (d, w)
             else
               let (usdg, w) = ce_usdgValue env active (quoteToken c) w
               in (snd (replaceStrategyBaselineQuote (capital_mark c s active usdg) now d), w))"

definition strategyCapitalHarvest ::
  "'w capital_env \<Rightarrow> strategy_config \<Rightarrow> position_snapshot \<Rightarrow> int \<Rightarrow> int \<Rightarrow> int \<Rightarrow> int \<Rightarrow> db \<Rightarrow> 'w \<Rightarrow>
   (capital_harvest_plan \<times> db \<times> 'w) res" where
  "strategyCapitalHarvest env c s sqrtP amount_0 amount_1 now d w =
     bindR (quoteTurnover amount_0 (token0 s) c s sqrtP) (\<lambda>v0.
     bindR (quoteTurnover amount_1 (token1 s) c s sqrtP) (\<lambda>v1.
       let active = v0 + v1 in
       bindR (ce_parseUnits env (profitThresholdUsdg (capitalProtection c))) (\<lambda>thr.
         if \<not> protection_enabled (capitalProtection c)
         then bindR (planCapitalHarvest amount_0 amount_1 active active 0 thr) (\<lambda>r. Inr (r, d, w))
         else
           let (d, w) = capital_baseline env c s active now d w in
           (case strategyBaseline (cfg_id c) d of
              None \<Rightarrow> Inl (JsError ''E_CAPITAL_BASELINE'')
            | Some b \<Rightarrow>
                if toLower (bl_quote_token b) \<noteq> toLower (quoteToken c) then Inl (JsError ''E_CAPITAL_BASELINE'')
                else
                  let cap = bl_value_quote b; excess = (if active > cap then active - cap else 0) in
                  bindR (excess_usdg env c excess w) (\<lambda>(usdg, w).
                  bindR (planCapitalHarvest amount_0 amount_1 active cap usdg thr) (\<lambda>r. Inr (r, d, w)))))))"

section \<open>Lemmas\<close>

lemma convertPoolAmount_cases:
  assumes "convertPoolAmount x tokenIn tokenOut s p = Inr y" and "0 \<le> x" and "0 < p"
  shows "(toLower tokenIn = toLower (token0 s) \<and> toLower tokenOut \<noteq> toLower (token0 s) \<and> y = x * (p * p) div Q192) \<or>
         (toLower tokenIn \<noteq> toLower (token0 s) \<and> toLower tokenOut = toLower (token0 s) \<and> y = x * Q192 div (p * p))"
  using assms by (auto simp: convertPoolAmount_def Let_def bdiv_pos Q192_def split: if_splits)

lemma convertPoolAmount_ge_0:
  "convertPoolAmount x tokenIn tokenOut s p = Inr y \<Longrightarrow> 0 \<le> x \<Longrightarrow> 0 < p \<Longrightarrow> 0 \<le> y"
  by (drule (2) convertPoolAmount_cases) (auto simp: Q192_def pos_imp_zdiv_nonneg_iff)

lemma there_and_back: "0 \<le> x \<Longrightarrow> 0 < a \<Longrightarrow> 0 < b \<Longrightarrow> (x * a div b) * b div a \<le> (x::int)"
proof -
  assume x: "0 \<le> x" "0 < a" "0 < b"
  have "(x * a div b) * b \<le> x * a" using x(3) by (rule div_mult_le)
  then have "(x * a div b) * b div a \<le> x * a div a" using x(2) by (rule zdiv_mono1)
  also have "\<dots> = x" using x by simp
  finally show ?thesis .
qed

lemma planCapitalHarvest_Inr:
  assumes "planCapitalHarvest a0 a1 active cap usd thr = Inr r"
  shows "0 \<le> a0 \<and> 0 \<le> a1 \<and> 0 \<le> active \<and> 0 \<le> cap \<and>
     capitalCapQuote r = cap \<and> activeValueQuote r = active \<and> deploy0 r + profit0 r = a0 \<and> deploy1 r + profit1 r = a1 \<and>
     (triggered r \<longrightarrow> cap < active \<and> thr \<le> usd \<and> deploy0 r * active \<le> a0 * cap \<and> deploy1 r * active \<le> a1 * cap) \<and>
     (\<not> triggered r \<longrightarrow> profit0 r = 0 \<and> profit1 r = 0)"
  using assms by (auto simp: planCapitalHarvest_def Let_def bindR_eq_Inr bdiv_pos div_mult_le split: if_splits)

lemma strategyBaseline_id: "strategyBaseline i d = Some b \<Longrightarrow> bl_strategy_id b = i"
  by (auto simp: strategyBaseline_def dest: get_where_SomeD)

lemma capital_baseline_kept:
  assumes "strategyBaseline (cfg_id c) d = Some b" and "toLower (bl_quote_token b) = toLower (quoteToken c)"
  shows "capital_baseline env c s active now d w = (d, w)"
  using assms by (simp add: capital_baseline_def)

lemma baseline_recorded:
  assumes "strategyBaseline (cfg_id c) d = None"
  shows "\<exists>b. strategyBaseline (cfg_id c) (snd (setStrategyBaselineIfAbsent (capital_mark c s v u) now d)) = Some b \<and>
     bl_value_quote b = v \<and> bl_quote_token b = toLower (quoteToken c)"
proof -
  have none: "get_where (\<lambda>r. bl_strategy_id r = cfg_id c) (baselines d) = None"
    using assms by (simp add: strategyBaseline_def)
  then have "\<not> exists_where (\<lambda>r. bl_strategy_id r = cfg_id c) (baselines d)"
    by (auto simp: get_where_None_iff exists_where_def list_ex_iff)
  then show ?thesis
    using none
    by (auto simp: strategyBaseline_def setStrategyBaselineIfAbsent_def capital_mark_def audit_def insert_or_ignore_def
        exists_where_def get_where_append get_where_single)
qed

lemma baseline_rebased:
  assumes "strategyBaseline (cfg_id c) d = Some b0" and "toLower (bl_quote_token b0) \<noteq> toLower (quoteToken c)"
  shows "\<exists>b. strategyBaseline (cfg_id c) (snd (replaceStrategyBaselineQuote (capital_mark c s v u) now d)) = Some b \<and>
     bl_value_quote b = v \<and> bl_quote_token b = toLower (quoteToken c)"
proof -
  let ?f = "\<lambda>r. (capital_mark c s v u)\<lparr>bl_strategy_id := bl_strategy_id r, bl_quote_token := toLower (quoteToken c)\<rparr>"
  obtain r where r: "get_where (\<lambda>r. bl_strategy_id r = cfg_id c) (baselines d) = Some r"
    using assms(1) by (auto simp: strategyBaseline_def)
  have "get_where (\<lambda>r. bl_strategy_id r = cfg_id c)
      (update_where (\<lambda>r. bl_strategy_id r = cfg_id c) ?f (baselines d)) = Some (?f r)"
    using get_update_same [of bl_strategy_id ?f "cfg_id c" "baselines d"] r by simp
  moreover have "baselines (snd (replaceStrategyBaselineQuote (capital_mark c s v u) now d)) =
      update_where (\<lambda>r. bl_strategy_id r = cfg_id c) ?f (baselines d)"
    using assms by (simp add: replaceStrategyBaselineQuote_def audit_def capital_mark_def)
  ultimately show ?thesis by (simp add: strategyBaseline_def capital_mark_def)
qed

lemma capital_baseline_cases:
  assumes "capital_baseline env c s active now d w = (d', w')"
  shows "case strategyBaseline (cfg_id c) d of
      Some b0 \<Rightarrow>
        if toLower (bl_quote_token b0) = toLower (quoteToken c) then d' = d
        else \<exists>b. strategyBaseline (cfg_id c) d' = Some b \<and> bl_value_quote b = active \<and> bl_quote_token b = toLower (quoteToken c)
    | None \<Rightarrow> \<exists>b. strategyBaseline (cfg_id c) d' = Some b \<and> bl_value_quote b = active \<and> bl_quote_token b = toLower (quoteToken c)"
proof (cases "strategyBaseline (cfg_id c) d")
  case None
  obtain u w1 where u: "ce_usdgValue env active (quoteToken c) w = (u, w1)" by (metis surj_pair)
  obtain b where b: "strategyBaseline (cfg_id c) (snd (setStrategyBaselineIfAbsent (capital_mark c s active u) now d)) = Some b"
     "bl_value_quote b = active" "bl_quote_token b = toLower (quoteToken c)"
    using baseline_recorded [OF None] by blast
  then have "d' = snd (setStrategyBaselineIfAbsent (capital_mark c s active u) now d)"
    using assms None u by (simp add: capital_baseline_def)
  then show ?thesis using None b by simp
next
  case (Some b0)
  show ?thesis
  proof (cases "toLower (bl_quote_token b0) = toLower (quoteToken c)")
    case True
    then show ?thesis using assms Some by (simp add: capital_baseline_def)
  next
    case False
    obtain u w1 where u: "ce_usdgValue env active (quoteToken c) w = (u, w1)" by (metis surj_pair)
    have "d' = snd (replaceStrategyBaselineQuote (capital_mark c s active u) now d)"
      using assms Some False u by (simp add: capital_baseline_def)
    then show ?thesis using Some False baseline_rebased [OF Some False] by simp
  qed
qed

section \<open>Properties\<close>

text \<open>
  C30. Pool conversions never create value and the impact is exact: converting an amount to the
  other token of the pool and back never returns more, and the impact of a quote against the
  pool's spot is the shortfall in basis points rounded down, zero exactly when the quote is at
  least within one basis point of spot, and never above 10000 for a non-negative quote.
\<close>

theorem pool_conversion_bounds:
  assumes "0 \<le> x" and "0 < p" and y: "convertPoolAmount x tokenIn tokenOut s p = Inr y"
  shows "0 \<le> y \<and>
    (\<forall>z. convertPoolAmount y tokenOut tokenIn s p = Inr z \<longrightarrow> z \<le> x) \<and>
    (\<forall>q. 0 \<le> q \<longrightarrow> (\<exists>b. swapImpactBps x q tokenIn tokenOut s p = Inr b \<and> 0 \<le> b \<and> b \<le> 10000 \<and>
       b * y \<le> max 0 (y - q) * 10000 \<and> (0 < y \<longrightarrow> max 0 (y - q) * 10000 < (b + 1) * y)))"
proof (intro conjI allI impI)
  show y0: "0 \<le> y" by (rule convertPoolAmount_ge_0 [OF y assms(1,2)])
  show "z \<le> x" if z: "convertPoolAmount y tokenOut tokenIn s p = Inr z" for z
    using convertPoolAmount_cases [OF y assms(1,2)] convertPoolAmount_cases [OF z y0 assms(2)] assms(1,2)
      there_and_back [of x "p * p" Q192] there_and_back [of x Q192 "p * p"]
    by (auto simp: Q192_def)
  show "\<exists>b. swapImpactBps x q tokenIn tokenOut s p = Inr b \<and> 0 \<le> b \<and> b \<le> 10000 \<and>
       b * y \<le> max 0 (y - q) * 10000 \<and> (0 < y \<longrightarrow> max 0 (y - q) * 10000 < (b + 1) * y)" if q: "0 \<le> q" for q
  proof (cases "y = 0 \<or> q \<ge> y")
    case True
    then show ?thesis using y q by (auto simp: swapImpactBps_def)
  next
    case False
    then have pos: "0 < y" "0 \<le> (y - q) * 10000" using y0 by auto
    have "swapImpactBps x q tokenIn tokenOut s p = Inr ((y - q) * 10000 div y)"
      using y False pos by (simp add: swapImpactBps_def bdiv_pos)
    moreover have "(y - q) * 10000 div y \<le> 10000"
      using share_le [of 10000 "y - q" y] pos q False by (simp add: mult.commute)
    ultimately show ?thesis
      using pos False div_mult_le [OF pos(1), of "(y - q) * 10000"] div_mult_gt [OF pos(1), of "(y - q) * 10000"]
      by (auto simp: pos_imp_zdiv_nonneg_iff max_def)
  qed
qed

text \<open>
  C23. The capital cap is durable.  With protection off nothing is harvested or recorded.  With
  it on, a strategy that has a mark in its quote token is measured against exactly that mark and
  the database is left alone, so no later valuation moves the cap; the first mark, and the one
  that replaces it when the quote token changes, is the present value, which harvests nothing;
  and a harvest splits each amount into what is deployed and what is profit, deploying at most
  the cap's share.
\<close>

theorem capital_cap_durable:
  assumes "strategyCapitalHarvest env c s p a0 a1 now d w = Inr (r, d', w')"
  shows "deploy0 r + profit0 r = a0 \<and> deploy1 r + profit1 r = a1 \<and>
    (\<not> protection_enabled (capitalProtection c) \<longrightarrow> d' = d \<and> \<not> triggered r) \<and>
    (protection_enabled (capitalProtection c) \<longrightarrow>
      (\<exists>b. strategyBaseline (cfg_id c) d' = Some b \<and> capitalCapQuote r = bl_value_quote b \<and>
        (case strategyBaseline (cfg_id c) d of
           Some b0 \<Rightarrow> if toLower (bl_quote_token b0) = toLower (quoteToken c) then d' = d \<and> b = b0
                     else bl_value_quote b = activeValueQuote r \<and> \<not> triggered r
         | None \<Rightarrow> bl_value_quote b = activeValueQuote r \<and> \<not> triggered r)) \<and>
      (triggered r \<longrightarrow> deploy0 r * activeValueQuote r \<le> a0 * capitalCapQuote r \<and>
                       deploy1 r * activeValueQuote r \<le> a1 * capitalCapQuote r))"
proof -
  obtain v0 v1 thr where v: "quoteTurnover a0 (token0 s) c s p = Inr v0" "quoteTurnover a1 (token1 s) c s p = Inr v1"
      "ce_parseUnits env (profitThresholdUsdg (capitalProtection c)) = Inr thr"
    using assms by (auto simp: strategyCapitalHarvest_def bindR_eq_Inr Let_def)
  show ?thesis
  proof (cases "protection_enabled (capitalProtection c)")
    case False
    then show ?thesis
      using assms v planCapitalHarvest_Inr [of a0 a1 "v0 + v1" "v0 + v1" 0 thr r]
      by (auto simp: strategyCapitalHarvest_def bindR_eq_Inr Let_def)
  next
    case True
    obtain d1 w1 where b: "capital_baseline env c s (v0 + v1) now d w = (d1, w1)" by (metis surj_pair)
    obtain m usdg where m: "strategyBaseline (cfg_id c) d1 = Some m" "toLower (bl_quote_token m) = toLower (quoteToken c)"
      and r: "planCapitalHarvest a0 a1 (v0 + v1) (bl_value_quote m) usdg thr = Inr r" and d': "d' = d1"
      using assms v True b
      by (auto simp: strategyCapitalHarvest_def bindR_eq_Inr Let_def split: option.splits if_split_asm)
    note h = planCapitalHarvest_Inr [OF r]
    have "triggered r \<longrightarrow> deploy0 r * activeValueQuote r \<le> a0 * capitalCapQuote r \<and>
                       deploy1 r * activeValueQuote r \<le> a1 * capitalCapQuote r"
      using h by simp
    moreover have "case strategyBaseline (cfg_id c) d of
           Some b0 \<Rightarrow> if toLower (bl_quote_token b0) = toLower (quoteToken c) then d' = d \<and> m = b0
                     else bl_value_quote m = activeValueQuote r \<and> \<not> triggered r
         | None \<Rightarrow> bl_value_quote m = activeValueQuote r \<and> \<not> triggered r"
      using capital_baseline_cases [OF b] m h d' by (auto split: option.splits if_splits)
    ultimately show ?thesis using True h m d' by auto
  qed
qed

text \<open>A strategy marked at 1000 quote units whose position is now worth 1200.\<close>

definition marked_db :: db where
  "marked_db = empty_db\<lparr>baselines := [\<lparr>bl_strategy_id = ''s1'', bl_value_quote = 1000, bl_value_usdg = None,
     bl_quote_token = ''0xq'', bl_observed_at = 1, bl_block_number = ''1'', bl_token_id = None, bl_tick = 0,
     bl_source = ''strategy_start''\<rparr>]\<rparr>"

definition sample_capital :: "unit capital_env" where
  "sample_capital = \<lparr>ce_usdgValue = (\<lambda>v t w. (Some v, w)), ce_kyber = (\<lambda>a b v w. Inr (v, w)),
     ce_parseUnits = (\<lambda>x. Inr 100), ce_settlement = ''0xs'', ce_zero = ''0x0'', ce_native = ''0xn''\<rparr>"

lemma capital_cap_durable_witness:
  "\<exists>r. strategyCapitalHarvest sample_capital sample_config sample_snapshot (2 ^ 96) 700 500 5 marked_db () =
         Inr (r, marked_db, ()) \<and> triggered r \<and> deploy0 r + profit0 r = 700"
proof -
  let ?run = "strategyCapitalHarvest sample_capital sample_config sample_snapshot (2 ^ 96) 700 500 5 marked_db ()"
  have "\<exists>r. ?run = Inr (r, marked_db, ()) \<and> triggered r"
    by (simp add: strategyCapitalHarvest_def quoteTurnover_def convertPoolAmount_def bdiv_pos Q192_def Let_def
        capital_baseline_def strategyBaseline_def marked_db_def empty_db_def get_where_def excess_usdg_def
        sample_capital_def sample_config_def sample_snapshot_def planCapitalHarvest_def toLower_def lower_char_def)
  then obtain r where r: "?run = Inr (r, marked_db, ())" "triggered r" by blast
  then show ?thesis using capital_cap_durable [OF r(1)] by blast
qed

lemma pool_conversion_bounds_witness:
  "\<exists>b. swapImpactBps 1000 990 ''0xr'' ''0xq'' sample_snapshot (2 ^ 96) = Inr b \<and> 0 \<le> b \<and> b \<le> 10000"
proof -
  have "convertPoolAmount 1000 ''0xr'' ''0xq'' sample_snapshot (2 ^ 96) = Inr 1000"
    by (simp add: convertPoolAmount_def sample_snapshot_def bdiv_pos Q192_def Let_def toLower_def lower_char_def)
  from pool_conversion_bounds [OF _ _ this] show ?thesis by (metis zero_le_numeral zero_less_numeral zero_less_power)
qed

end
