(* ===== verification/Monitor.thy ===== *)
theory Monitor
  imports Risk RecoveryRetry
begin

text \<open>
  \<open>executor/monitor.ts\<close>: one pass of the monitor over one strategy, from the snapshot to the
  planned job, and the pass over all of them.  The phases of the body are definitions that call
  the next one last, so an early \<open>continue\<close> is a result.  Chain reads, the valuation of
  \<open>performance.ts\<close> and \<open>tickDistanceBps\<close> are parameters over a world \<open>'w\<close>; \<open>now\<close> and
  \<open>nowMs\<close> are the instant of the pass in seconds and milliseconds.  A configured time that is
  not a whole number of seconds is rounded up, which no comparison with a clock or a stored
  time can tell.
\<close>

section \<open>State and environment\<close>

record 'w pass =
  ps_db :: db
  ps_maps :: retry_maps
  ps_world :: 'w

text \<open>An operation that throws keeps what was done before: the error comes with the state.\<close>

type_synonym ('w, 'a) step = "(js_error \<times> 'w pass) + ('a \<times> 'w pass)"

definition update_db :: "(db \<Rightarrow> db) \<Rightarrow> 'w pass \<Rightarrow> 'w pass" where
  "update_db f s = s\<lparr>ps_db := f (ps_db s)\<rparr>"

definition try_db :: "(db \<Rightarrow> ('a \<times> db) res) \<Rightarrow> 'w pass \<Rightarrow> ('w, 'a) step" where
  "try_db f s = (case f (ps_db s) of Inl e \<Rightarrow> Inl (e, s) | Inr (x, d) \<Rightarrow> Inr (x, s\<lparr>ps_db := d\<rparr>))"

definition run_db :: "(db \<Rightarrow> db res) \<Rightarrow> 'w pass \<Rightarrow> ('w, unit) step" where
  "run_db f s = try_db (\<lambda>d. bindR (f d) (\<lambda>d. Inr ((), d))) s"

definition call :: "('w \<Rightarrow> 'a res \<times> 'w) \<Rightarrow> 'w pass \<Rightarrow> ('w, 'a) step" where
  "call f s =
     (let (r, w) = f (ps_world s); s = s\<lparr>ps_world := w\<rparr> in
      case r of Inl e \<Rightarrow> Inl (e, s) | Inr x \<Rightarrow> Inr (x, s))"

definition pure_step :: "'a res \<Rightarrow> 'w pass \<Rightarrow> ('w, 'a) step" where
  "pure_step r s = (case r of Inl e \<Rightarrow> Inl (e, s) | Inr x \<Rightarrow> Inr (x, s))"

text \<open>What \<open>strategyPerformance\<close> reports, as far as the monitor reads it.\<close>

record perf_cycle =
  pf_gasCost :: int
  pf_executionCost :: int
  pf_netFees :: int

record performance =
  pf_summary :: "(int option \<times> int option) option"   \<comment> \<open>\<open>pnlQuoteRaw\<close>, \<open>currentUncollectedFeesQuoteRaw\<close>\<close>
  pf_cycles :: "perf_cycle list"

record 'w monitor_env =
  me_plan :: plan_env
  me_bps :: "rat \<Rightarrow> rat \<Rightarrow> rat"
  me_parseUnits :: "string \<Rightarrow> int \<Rightarrow> int res"
  me_collectable :: "strategy_config \<Rightarrow> 'w \<Rightarrow> (int \<times> int) res \<times> 'w"
  me_performance :: "strategy_config \<Rightarrow> string \<Rightarrow> 'w \<Rightarrow> performance res \<times> 'w"
  me_cachedPerformance :: "strategy_config \<Rightarrow> string \<Rightarrow> 'w \<Rightarrow> performance res \<times> 'w"
  me_minSeconds :: int

record adaptive_economics =
  ae_pnl :: "int option"
  ae_fees :: "int option"
  ae_netFees :: int
  ae_cost :: int

text \<open>A failed valuation, or one without a summary or a cycle, is no economics.\<close>

definition adaptiveEconomics ::
  "'w monitor_env \<Rightarrow> strategy_config \<Rightarrow> string \<Rightarrow> 'w pass \<Rightarrow> adaptive_economics option \<times> 'w pass" where
  "adaptiveEconomics env c st s =
     (case call (me_performance env c st) s of
        Inl (_, s) \<Rightarrow> (None, s)
      | Inr (p, s) \<Rightarrow>
          ((case (pf_summary p, pf_cycles p) of
              (Some (gain, unc), latest # _) \<Rightarrow>
                Some \<lparr>ae_pnl = gain, ae_fees = unc, ae_netFees = pf_netFees latest,
                      ae_cost = pf_gasCost latest + pf_executionCost latest\<rparr>
            | _ \<Rightarrow> None), s))"

definition latestCycleCostQuote ::
  "'w monitor_env \<Rightarrow> strategy_config \<Rightarrow> string \<Rightarrow> 'w pass \<Rightarrow> int option \<times> 'w pass" where
  "latestCycleCostQuote env c st s =
     (case call (me_cachedPerformance env c st) s of
        Inl (_, s) \<Rightarrow> (None, s)
      | Inr (p, s) \<Rightarrow>
          ((case pf_cycles p of [] \<Rightarrow> None | latest # _ \<Rightarrow> Some (pf_gasCost latest + pf_executionCost latest)), s))"

definition quoteValueInQuote :: "int \<Rightarrow> int \<Rightarrow> strategy_config \<Rightarrow> position_snapshot \<Rightarrow> int res" where
  "quoteValueInQuote a0 a1 c s =
     bindR (if toLower (token0 s) = toLower (quoteToken c) then Inr a0
            else quoteTurnover a0 (token0 s) c s (sqrtPriceX96 s)) (\<lambda>v0.
     bindR (if toLower (token1 s) = toLower (quoteToken c) then Inr a1
            else quoteTurnover a1 (token1 s) c s (sqrtPriceX96 s)) (\<lambda>v1. Inr (v0 + v1)))"

text \<open>The locals of the loop body.\<close>

record check_ctx =
  x_config :: strategy_config
  x_state :: string
  x_snap :: position_snapshot
  x_now :: int
  x_nowMs :: int
  x_previous :: "monitor_row option"
  x_triggerTick :: int
  x_side :: range_side
  x_outSince :: "int option"
  x_latestRange :: "(int \<times> rat) option"
  x_startedAt :: int

definition seconds_up :: "rat \<Rightarrow> int" where
  "seconds_up r = math_ceil r"

definition minutes :: "rat \<Rightarrow> rat" where
  "minutes m = nmul m 60"

section \<open>What the monitor writes\<close>

text \<open>\<open>updateMonitorState\<close> writes every column: a field left out becomes null.\<close>

definition row_base :: "check_ctx \<Rightarrow> monitor_row" where
  "row_base x =
     \<lparr>mo_strategy_id = cfg_id (x_config x), mo_revision = revision (x_config x), mo_out_side = None, mo_out_since = None,
      mo_cooldown_until = None, mo_guard_reason = None, mo_guard_stable_since = None, mo_burst_wait_until = None,
      mo_burst_reset_at = None, mo_econ_wait_until = None, mo_econ_fees_quote = None, mo_econ_cost_quote = None,
      mo_last_tick = Some (tick (x_snap x)), mo_last_liquidity = Some (big_to_string (snap_liquidity (x_snap x))),
      mo_last_token_id = Some (tokenId (x_snap x)), mo_updated = x_now x\<rparr>"

definition previous_of :: "(monitor_row \<Rightarrow> 'a option) \<Rightarrow> check_ctx \<Rightarrow> 'a option" where
  "previous_of f x = Option.bind (x_previous x) f"

definition row_out :: "check_ctx \<Rightarrow> monitor_row \<Rightarrow> monitor_row" where
  "row_out x r = r\<lparr>mo_out_side := (if x_side x = SideIn then None else Some (side_name (x_side x))),
     mo_out_since := x_outSince x\<rparr>"

definition row_econ :: "check_ctx \<Rightarrow> monitor_row \<Rightarrow> monitor_row" where
  "row_econ x r = r\<lparr>mo_econ_wait_until := previous_of mo_econ_wait_until x,
     mo_econ_fees_quote := previous_of mo_econ_fees_quote x, mo_econ_cost_quote := previous_of mo_econ_cost_quote x\<rparr>"

definition row_burst :: "check_ctx \<Rightarrow> monitor_row \<Rightarrow> monitor_row" where
  "row_burst x r = r\<lparr>mo_burst_wait_until := previous_of mo_burst_wait_until x,
     mo_burst_reset_at := previous_of mo_burst_reset_at x\<rparr>"

definition save :: "check_ctx \<Rightarrow> monitor_row \<Rightarrow> 'w pass \<Rightarrow> ('w, unit) step" where
  "save x r = run_db (updateMonitorState (cfg_id (x_config x)) r (x_now x))"

definition set_state :: "check_ctx \<Rightarrow> string \<Rightarrow> 'w pass \<Rightarrow> 'w pass" where
  "set_state x st = update_db (setStrategyState (cfg_id (x_config x)) st (x_now x))"

definition monitor_audit :: "check_ctx \<Rightarrow> string \<Rightarrow> (string \<times> string) list \<Rightarrow> 'w pass \<Rightarrow> 'w pass" where
  "monitor_audit x act detail =
     update_db (audit ''monitor'' act (Some ''strategy'') (Some (cfg_id (x_config x))) detail (x_now x))"

definition rat_text :: "'w monitor_env \<Rightarrow> rat \<Rightarrow> string" where
  "rat_text env r = number_text (pe_ntext (me_plan env)) r"

definition opt_text :: "int option \<Rightarrow> string" where
  "opt_text v = (case v of None \<Rightarrow> ''null'' | Some n \<Rightarrow> big_to_string n)"

section \<open>Planning\<close>

text \<open>\<open>if (createPlannedJob(plan)) ... else setStrategyState(config.id, 'monitoring')\<close>.\<close>

definition create_plan ::
  "check_ctx \<Rightarrow> execution_plan \<Rightarrow> string \<Rightarrow> (string \<times> string) list \<Rightarrow> 'w pass \<Rightarrow> ('w, unit) step" where
  "create_plan x plan act detail s =
     bindR (try_db (createPlannedJob plan (x_now x)) s) (\<lambda>(created, s).
       Inr ((), if created then set_state x ''planned'' (monitor_audit x act ((''planId'', plan_id plan) # detail) s)
                else set_state x ''monitoring'' s))"

definition adaptive_of :: "check_ctx \<Rightarrow> rat \<Rightarrow> bool option \<Rightarrow> bool \<Rightarrow> adaptive_input" where
  "adaptive_of x prevScale widen on =
     (let a = adaptiveRange (x_config x) in
      \<lparr>ai_enabled = on, ai_now = x_now x, positionStartedAt = x_startedAt x, previousScale = prevScale,
       targetSeconds = minutes (targetMinutes a), ai_maxMultiplier = maxMultiplier a,
       ai_recoveryDecay = recoveryDecay a, allowWiden = widen\<rparr>)"

fun trigger_name :: "trigger_side \<Rightarrow> string" where
  "trigger_name Lower = ''lower''"
| "trigger_name Upper = ''upper''"
| "trigger_name Manual = ''manual''"
| "trigger_name AdaptiveContraction = ''adaptive_contraction''"

definition adapts :: "check_ctx \<Rightarrow> bool" where
  "adapts x \<longleftrightarrow> adaptive_enabled (adaptiveRange (x_config x)) \<and> mode (range (x_config x)) \<noteq> FixedTicks"

text \<open>The last phase: the scale of the new range and the plan itself.\<close>

definition execute_boundary :: "'w monitor_env \<Rightarrow> check_ctx \<Rightarrow> trigger_side \<Rightarrow> 'w pass \<Rightarrow> ('w, unit) step" where
  "execute_boundary env x t s =
     (let needs = (x_latestRange x \<noteq> None \<and> adapts x \<and>
                   of_int (x_now x - x_startedAt x) < minutes (targetMinutes (adaptiveRange (x_config x))));
          (eco, s) = (if needs then adaptiveEconomics env (x_config x) (x_state x) s else (None, s));
          widen = (case eco of None \<Rightarrow> False
                   | Some e \<Rightarrow> shouldWidenAdaptiveRange (ae_pnl e) (Some (ae_netFees e)) (Some (ae_cost e)));
          scale = (case x_latestRange x of None \<Rightarrow> 1
                   | Some (_, sc) \<Rightarrow> nextAdaptiveRangeScale (adaptive_of x sc (Some widen) (adapts x)))
      in bindR (pure_step (makeRebalancePlan (me_plan env) (x_config x) (x_snap x) (x_now x) (Some t) False (Some scale)) s)
           (\<lambda>(plan, s). create_plan x plan ''plan_created''
             [(''side'', trigger_name (triggerSide plan)), (''adaptiveWidenAllowed'', if widen then ''true'' else ''false''),
              (''rangeScale'', rat_text env scale), (''positionAgeSeconds'', big_to_string (x_now x - x_startedAt x)),
              (''adaptivePnlQuoteRaw'', opt_text (Option.bind eco ae_pnl)),
              (''adaptiveLastNetFeesQuoteRaw'', opt_text (map_option ae_netFees eco)),
              (''adaptiveLastCycleCostQuoteRaw'', opt_text (map_option ae_cost eco))] s))"

section \<open>Economics gate\<close>

definition decision_row :: "check_ctx \<Rightarrow> int option \<Rightarrow> monitor_row" where
  "decision_row x cool = row_econ x (row_burst x ((row_out x (row_base x))\<lparr>mo_cooldown_until := cool\<rparr>))"

definition gate_coverage :: "check_ctx \<Rightarrow> boundary_action \<Rightarrow> rat option" where
  "gate_coverage x act =
     (let sg = safeguards (x_config x) in
      if act = HoldQuote \<or> \<not> safeguards_enabled sg then None
      else case minCycleFeeCoverage sg of None \<Rightarrow> None | Some m \<Rightarrow> if m > 0 then Some m else None)"

text \<open>The verdict on the collectable fees, once they are read and valued.\<close>

definition economics_verdict ::
  "'w monitor_env \<Rightarrow> check_ctx \<Rightarrow> int option \<Rightarrow> trigger_side \<Rightarrow> rat \<Rightarrow> rat \<Rightarrow> int \<Rightarrow> 'w pass \<Rightarrow> ('w, unit) step" where
  "economics_verdict env x cool t coverage hold collected s =
     (let (cost, s) = latestCycleCostQuote env (x_config x) (x_state x) s;
          prev = previous_of mo_econ_wait_until x;
          waiting = ((case prev of None \<Rightarrow> 0 | Some n \<Rightarrow> n) > x_now x)
      in case decideCycleEconomics (x_now x) (x_outSince x) collected cost (Some coverage) hold of
           EconWait until f k \<Rightarrow>
             bindR (save x ((decision_row x cool)\<lparr>mo_econ_wait_until := Some until,
                      mo_econ_fees_quote := Some (big_to_string f), mo_econ_cost_quote := Some (big_to_string k)\<rparr>) s)
               (\<lambda>(_, s). let s = set_state x ''guard_wait'' s in
                 Inr ((), if waiting then s
                          else monitor_audit x ''economics_gate_wait''
                                 [(''feesQuoteRaw'', big_to_string f), (''costQuoteRaw'', big_to_string k),
                                  (''coverage'', rat_text env coverage), (''holdSeconds'', rat_text env hold),
                                  (''waitUntil'', big_to_string until)] s))
         | EconExecute \<Rightarrow>
             if waiting \<or> truthy prev
             then bindR (save x ((decision_row x cool)\<lparr>mo_econ_wait_until := None, mo_econ_fees_quote := None,
                            mo_econ_cost_quote := None\<rparr>) s)
                    (\<lambda>(_, s). execute_boundary env x t
                       (monitor_audit x ''economics_gate_pass''
                          [(''escaped'', if prev \<noteq> None \<and> the prev \<le> x_now x then ''true'' else ''false''),
                           (''feesQuoteRaw'', big_to_string collected), (''costQuoteRaw'', opt_text cost)] s))
             else execute_boundary env x t s)"

definition hold_of :: "check_ctx \<Rightarrow> rat" where
  "hold_of x = minutes (case economicsHoldMinutes (safeguards (x_config x)) of None \<Rightarrow> 30 | Some m \<Rightarrow> m)"

definition economics_phase ::
  "'w monitor_env \<Rightarrow> check_ctx \<Rightarrow> int option \<Rightarrow> trigger_side \<Rightarrow> boundary_action \<Rightarrow> 'w pass \<Rightarrow> ('w, unit) step" where
  "economics_phase env x cool t act s =
     (case gate_coverage x act of
        None \<Rightarrow> execute_boundary env x t s
      | Some coverage \<Rightarrow>
          bindR (call (me_collectable env (x_config x)) s) (\<lambda>(amounts, s).
          bindR (pure_step (quoteValueInQuote (fst amounts) (snd amounts) (x_config x) (x_snap x)) s) (\<lambda>(collected, s).
            economics_verdict env x cool t coverage (hold_of x) collected s)))"

section \<open>Cycle caps and bursts\<close>

definition enabled_limit :: "check_ctx \<Rightarrow> (safeguards \<Rightarrow> 'a option) \<Rightarrow> 'a option" where
  "enabled_limit x f = (let sg = safeguards (x_config x) in if safeguards_enabled sg then f sg else None)"

text \<open>
  When a saturated cap releases: the daily one, and the lower-break one for a lower crossing
  (indexing the cycles with a fractional threshold finds none).
\<close>

definition daily_wait :: "check_ctx \<Rightarrow> db \<Rightarrow> int option" where
  "daily_wait x d =
     (case enabled_limit x maxRebalancesPerDay of None \<Rightarrow> None
      | Some cap \<Rightarrow>
          if of_int (completedCyclesSince (cfg_id (x_config x)) (x_now x div 86400 * 86400) d) \<ge> cap
          then Some (nextUtcDayStart (x_now x)) else None)"

definition lower_wait :: "check_ctx \<Rightarrow> trigger_side \<Rightarrow> db \<Rightarrow> int option" where
  "lower_wait x t d =
     (case enabled_limit x maxConsecutiveLowerBreaks of None \<Rightarrow> None
      | Some cap \<Rightarrow>
          let win = lowerBreakWindowSeconds (safeguards (x_config x)); i = cfg_id (x_config x) in
          if t = Lower \<and> of_nat (consecutiveLowerBreaks i (x_now x) win d) \<ge> cap
          then (if is_integer cap then storeLowerBreakResetAt i (x_now x) win \<lfloor>cap\<rfloor> d else None)
          else None)"

definition caps_phase ::
  "'w monitor_env \<Rightarrow> check_ctx \<Rightarrow> int option \<Rightarrow> trigger_side \<Rightarrow> boundary_action \<Rightarrow> 'w pass \<Rightarrow> ('w, unit) step" where
  "caps_phase env x cool t act s =
     (let day = daily_wait x (ps_db s); low = lower_wait x t (ps_db s) in
      if day \<noteq> None \<or> low \<noteq> None
      then
        let code = (if day \<noteq> None then ''E_DAILY_LIMIT'' else ''E_LOWER_BREAK_LIMIT'');
            until = (if day \<noteq> None then day else low); i = cfg_id (x_config x) in
        bindR (save x (decision_row x cool) s) (\<lambda>(_, s).
          let s = set_state x ''guard_wait'' s in
          Inr ((), case latestPrecheckGuard i (ps_db s) of
                     Some g \<Rightarrow> if pg_code g = code \<and> pg_until g = until then s
                              else update_db (recordPrecheckGuard i code until (x_now x)) s
                   | None \<Rightarrow> update_db (recordPrecheckGuard i code until (x_now x)) s))
      else economics_phase env x cool t act s)"

text \<open>The burst guard is on when its window, its count and its cooldown are set and not zero.\<close>

definition burst_limits :: "check_ctx \<Rightarrow> (rat \<times> rat \<times> rat) option" where
  "burst_limits x =
     (case (enabled_limit x burstWindowMinutes, enabled_limit x burstTriggerCount, enabled_limit x burstCooldownMinutes) of
        (Some m, Some n, Some k) \<Rightarrow>
          if minutes m \<noteq> 0 \<and> n \<noteq> 0 \<and> minutes k \<noteq> 0 then Some (minutes m, n, minutes k) else None
      | _ \<Rightarrow> None)"

definition burst_since :: "check_ctx \<Rightarrow> rat \<Rightarrow> int" where
  "burst_since x win =
     max (seconds_up (of_int (x_now x) - win)) (case previous_of mo_burst_reset_at x of None \<Rightarrow> 0 | Some r \<Rightarrow> r)"

definition bursting :: "check_ctx \<Rightarrow> bool" where
  "bursting x \<longleftrightarrow> (case previous_of mo_burst_wait_until x of None \<Rightarrow> 0 | Some n \<Rightarrow> n) > x_now x"

definition burst_phase ::
  "'w monitor_env \<Rightarrow> check_ctx \<Rightarrow> int option \<Rightarrow> trigger_side \<Rightarrow> boundary_action \<Rightarrow> 'w pass \<Rightarrow> ('w, unit) step" where
  "burst_phase env x cool t act s =
     (case burst_limits x of
        None \<Rightarrow> caps_phase env x cool t act s
      | Some (win, n, wait) \<Rightarrow>
          if bursting x
          then bindR (save x (decision_row x cool) s) (\<lambda>(_, s). Inr ((), set_state x ''guard_wait'' s))
          else
            let recent = completedCyclesSince (cfg_id (x_config x)) (burst_since x win) (ps_db s);
                until = seconds_up (of_int (x_now x) + wait) in
            if shouldStartBurstWait (of_int recent) n
            then bindR (save x ((decision_row x cool)\<lparr>mo_burst_wait_until := Some until, mo_burst_reset_at := Some until\<rparr>) s)
                   (\<lambda>(_, s). Inr ((), monitor_audit x ''burst_guard_wait''
                      [(''recentTriggers'', big_to_string (recent + 1)), (''windowSeconds'', rat_text env win),
                       (''waitUntil'', big_to_string until)] (set_state x ''guard_wait'' s)))
            else caps_phase env x cool t act s)"

section \<open>The boundary decision\<close>

definition cooldown_of :: "check_ctx \<Rightarrow> db \<Rightarrow> int option" where
  "cooldown_of x d =
     (let latest = latestCompletedCycleAt (cfg_id (x_config x)) d; m = cooldownMinutes (trigger (x_config x)) in
      if truthy latest \<and> m > 0 then Some (the latest + m * 60) else None)"

definition confirmation_of :: "check_ctx \<Rightarrow> int" where
  "confirmation_of x =
     max (confirmationSeconds (trigger (x_config x)))
       (case enabled_limit x (\<lambda>sg. Some (case minCrossingMinutes sg of None \<Rightarrow> 0 | Some m \<Rightarrow> m)) of
          None \<Rightarrow> 0 | Some m \<Rightarrow> seconds_up (minutes m))"

definition boundary_of :: "check_ctx \<Rightarrow> int option \<Rightarrow> boundary_args" where
  "boundary_of x cool =
     \<lparr>ba_tick = x_triggerTick x, ba_tickLower = tickLower (x_snap x), ba_tickUpper = tickUpper (x_snap x),
      ba_lower = lower (boundary (x_config x)), ba_upper = upper (boundary (x_config x)), ba_now = x_now x,
      outOfRangeSince = x_outSince x, ba_confirmationSeconds = confirmation_of x, cooldownUntil = cool,
      netAprPct = None, ba_minNetAprPct = enabled_limit x minNetAprPct\<rparr>"

fun code_name :: "strategy_error_code \<Rightarrow> string" where
  "code_name E_CONFIG = ''E_CONFIG''"
| "code_name E_CHAIN = ''E_CHAIN''"
| "code_name E_OWNER = ''E_OWNER''"
| "code_name E_POOL_IDENTITY = ''E_POOL_IDENTITY''"
| "code_name E_POSITION_CHANGED = ''E_POSITION_CHANGED''"
| "code_name E_APR_UNAVAILABLE = ''E_APR_UNAVAILABLE''"
| "code_name E_PLAN_STALE = ''E_PLAN_STALE''"
| "code_name E_SLIPPAGE = ''E_SLIPPAGE''"
| "code_name E_DAILY_LIMIT = ''E_DAILY_LIMIT''"
| "code_name E_VAULT_LOCKED = ''E_VAULT_LOCKED''"

text \<open>When the decision does not execute, a pending economics wait is dropped.\<close>

definition drop_econ :: "check_ctx \<Rightarrow> int option \<Rightarrow> 'w pass \<Rightarrow> ('w, unit) step" where
  "drop_econ x cool s =
     (if truthy (previous_of mo_econ_wait_until x)
      then save x (row_burst x ((row_out x (row_base x))\<lparr>mo_cooldown_until := cool\<rparr>)) s
      else Inr ((), s))"

definition boundary_phase :: "'w monitor_env \<Rightarrow> check_ctx \<Rightarrow> 'w pass \<Rightarrow> ('w, unit) step" where
  "boundary_phase env x s =
     (let cool = cooldown_of x (ps_db s) in
      bindR (save x (decision_row x cool) s) (\<lambda>(_, s).
        case decideBoundaryTrigger (boundary_of x cool) of
          NoTrigger _ \<Rightarrow>
            let s = s\<lparr>ps_maps := clearStrategyRetry (cfg_id (x_config x)) (ps_maps s)\<rparr> in
            bindR (drop_econ x cool s) (\<lambda>(_, s).
              Inr ((), set_state x (if bursting x then ''guard_wait'' else ''monitoring'') s))
        | PauseTrigger code detail \<Rightarrow>
            bindR (drop_econ x cool s) (\<lambda>(_, s).
              Inr ((), monitor_audit x ''strategy_paused''
                ((''code'', code_name code) # (case detail of None \<Rightarrow> [] | Some (k, v) \<Rightarrow> [(''detail.'' @ k, v)]))
                (set_state x (if detail = Some (''reason'', ''manual_confirm'') then ''awaiting_manual'' else ''paused_guard'') s)))
        | ExecuteTrigger t act _ \<Rightarrow> burst_phase env x cool t act s))"

section \<open>Fee collection and contraction\<close>

definition feeCollectionDue ::
  "'w monitor_env \<Rightarrow> strategy_config \<Rightarrow> position_snapshot \<Rightarrow> int \<Rightarrow> 'w pass \<Rightarrow> ('w, bool) step" where
  "feeCollectionDue env c sn now s =
     (if timing (fees c) = OnRebalance \<or> handling (fees c) = Reinvest then Inr (False, s)
      else bindR (call (me_collectable env c) s) (\<lambda>(amounts, s).
        if fst amounts = 0 \<and> snd amounts = 0 then Inr (False, s)
        else if timing (fees c) = Interval then
          let last = (case latestFeeCollectionAt (cfg_id c) (ps_db s) of None \<Rightarrow> updatedAt c | Some t \<Rightarrow> t);
              m = (case intervalMinutes (fees c) of None \<Rightarrow> 0 | Some m \<Rightarrow> m)
          in Inr (of_int (now - last) \<ge> minutes m, s)
        else
          let dec = (if toLower (quoteToken c) = toLower (token0 sn) then token0Decimals sn else token1Decimals sn) in
          bindR (pure_step (quoteValueInQuote (fst amounts) (snd amounts) c sn) s) (\<lambda>(v, s).
          bindR (pure_step (case thresholdQuote (fees c) of
                              None \<Rightarrow> Inl (JsError ''thresholdQuote is undefined'')
                            | Some t \<Rightarrow> me_parseUnits env t dec) s) (\<lambda>(thr, s).
            Inr (v \<ge> thr, s)))))"

fun timing_name :: "fee_timing \<Rightarrow> string" where
  "timing_name OnRebalance = ''on_rebalance''"
| "timing_name Threshold = ''threshold''"
| "timing_name Interval = ''interval''"

definition fee_phase :: "'w monitor_env \<Rightarrow> check_ctx \<Rightarrow> 'w pass \<Rightarrow> ('w, unit) step" where
  "fee_phase env x s =
     bindR (if x_side x = SideIn then feeCollectionDue env (x_config x) (x_snap x) (x_now x) s else Inr (False, s))
       (\<lambda>(due, s).
          if due
          then bindR (save x (row_econ x (row_base x)) s) (\<lambda>(_, s).
               bindR (pure_step (makeFeeCollectionPlan (me_plan env) (x_config x) (x_snap x) (x_now x)) s) (\<lambda>(plan, s).
                 create_plan x plan ''fee_plan_created'' [(''timing'', timing_name (timing (fees (x_config x))))] s))
          else boundary_phase env x s)"

definition contraction_due :: "check_ctx \<Rightarrow> bool" where
  "contraction_due x \<longleftrightarrow>
     x_side x = SideIn \<and> adapts x \<and> (case x_latestRange x of None \<Rightarrow> 1 | Some (_, sc) \<Rightarrow> sc) > fl (1000001 / 1000000) \<and>
     of_int (x_now x - x_startedAt x) \<ge> minutes (contractionReviewMinutes (adaptiveRange (x_config x)))"

definition contraction_stability :: "'w monitor_env \<Rightarrow> check_ctx \<Rightarrow> db \<Rightarrow> adaptive_stability option" where
  "contraction_stability env x d =
     (let a = adaptiveRange (x_config x); win = minutes (contractionStabilityMinutes a);
          slack = max 60 (pollSeconds (trigger (x_config x)) * 2)
      in case sampledTickStats (cfg_id (x_config x)) (seconds_up (of_int (x_now x) - win)) d of
           None \<Rightarrow> None
         | Some st \<Rightarrow>
             if ts_count st \<ge> 2 \<and> of_int (ts_firstTs st) \<le> of_int (x_now x) - win + of_int slack \<and>
                ts_lastTs st \<ge> x_now x - slack
             then Some (evaluateAdaptiveRangeStability (me_bps env) (of_int (ts_minTick st)) (of_int (ts_maxTick st))
                    (tickLower (x_snap x)) (tickUpper (x_snap x)) (contractionMaxVolatilityBps a))
             else None)"

definition contraction_phase :: "'w monitor_env \<Rightarrow> check_ctx \<Rightarrow> 'w pass \<Rightarrow> ('w, unit) step" where
  "contraction_phase env x s =
     (case x_latestRange x of
        None \<Rightarrow> fee_phase env x s
      | Some (_, prevScale) \<Rightarrow>
          if \<not> contraction_due x then fee_phase env x s
          else
            let stab = contraction_stability env x (ps_db s); a = adaptiveRange (x_config x);
                (eco, s) = (if (case stab of None \<Rightarrow> False | Some v \<Rightarrow> stable v)
                            then adaptiveEconomics env (x_config x) (x_state x) s else (None, s));
                nextScale = nextAdaptiveRangeScale (adaptive_of x prevScale (Some False) True);
                allowed = (case eco of None \<Rightarrow> False
                           | Some e \<Rightarrow> shouldContractAdaptiveRange (ae_pnl e) (ae_fees e) (Some (ae_cost e))
                                        (contractionFeeCoverage a))
            in if allowed \<and> nextScale < nsub prevScale (fl (1 / 1000000))
               then bindR (pure_step (makeRebalancePlan (me_plan env) (x_config x) (x_snap x) (x_now x)
                                        (Some AdaptiveContraction) False (Some nextScale)) s) (\<lambda>(plan, s).
                      create_plan x plan ''adaptive_contraction_plan_created''
                        [(''previousScale'', rat_text env prevScale), (''rangeScale'', rat_text env nextScale),
                         (''positionAgeSeconds'', big_to_string (x_now x - x_startedAt x)),
                         (''currentFeesQuoteRaw'', opt_text (Option.bind eco ae_fees)),
                         (''priorCycleCostQuoteRaw'', opt_text (map_option ae_cost eco)),
                         (''feeCoverageMultiplier'', rat_text env (contractionFeeCoverage a)),
                         (''stabilityWindowSeconds'', rat_text env (minutes (contractionStabilityMinutes a))),
                         (''volatilityBps'', case stab of None \<Rightarrow> ''null'' | Some v \<Rightarrow> rat_text env (stab_volatilityBps v)),
                         (''maxVolatilityBps'', rat_text env (contractionMaxVolatilityBps a))] s)
               else fee_phase env x s)"

section \<open>Market guard\<close>

fun reason_name :: "market_reason \<Rightarrow> string" where
  "reason_name MarketVolatility = ''market_volatility''"
| "reason_name SpotTwapDeviation = ''spot_twap_deviation''"

definition market_window :: "check_ctx \<Rightarrow> rat option" where
  "market_window x =
     (let sg = safeguards (x_config x) in
      case enabled_limit x volatilityWindowSeconds of None \<Rightarrow> None
      | Some w \<Rightarrow> if w \<noteq> 0 \<and> (maxVolatilityBps sg \<noteq> None \<or> maxSpotTwapDeviationBps sg \<noteq> None) then Some w else None)"

definition quality_of :: "'w monitor_env \<Rightarrow> check_ctx \<Rightarrow> tick_stats \<Rightarrow> market_quality" where
  "quality_of env x st =
     evaluateMarketQuality (me_bps env) (of_int (tick (x_snap x))) (of_int (ts_tick st)) (of_int (ts_minTick st))
       (of_int (ts_maxTick st)) (maxVolatilityBps (safeguards (x_config x))) (maxSpotTwapDeviationBps (safeguards (x_config x)))"

definition stable_since :: "check_ctx \<Rightarrow> int" where
  "stable_since x = (case previous_of mo_guard_stable_since x of None \<Rightarrow> x_now x | Some t \<Rightarrow> t)"

text \<open>The guard reason the previous pass left; the code tests it as a string.\<close>

definition tripped :: "check_ctx \<Rightarrow> bool" where
  "tripped x \<longleftrightarrow> (case previous_of mo_guard_reason x of None \<Rightarrow> False | Some r \<Rightarrow> r \<noteq> [])"

definition market_phase :: "'w monitor_env \<Rightarrow> check_ctx \<Rightarrow> 'w pass \<Rightarrow> ('w, unit) step" where
  "market_phase env x s =
     (case market_window x of
        None \<Rightarrow> contraction_phase env x s
      | Some win \<Rightarrow>
          let stats = sampledTickStats (cfg_id (x_config x)) (seconds_up (of_int (x_now x) - win)) (ps_db s);
              poll = pollSeconds (trigger (x_config x)) in
          (case stats of
             Some st \<Rightarrow>
               if ts_count st < 2 \<or> of_int (ts_firstTs st) > of_int (x_now x) - win + of_int (poll * 2)
               then bindR (save x ((row_econ x (row_out x (row_base x)))\<lparr>mo_guard_reason := previous_of mo_guard_reason x\<rparr>) s)
                      (\<lambda>(_, s). Inr ((), set_state x ''guard_wait'' s))
               else
                 let q = quality_of env x st in
                 if \<not> healthy q
                 then bindR (save x ((row_econ x (row_burst x (row_out x (row_base x))))
                               \<lparr>mo_guard_reason := map_option reason_name (reason q)\<rparr>) s) (\<lambda>(_, s).
                        let s = set_state x ''guard_wait'' s in
                        Inr ((), if previous_of mo_guard_reason x \<noteq> map_option reason_name (reason q)
                                 then monitor_audit x ''market_guard_wait''
                                        [(''reason'', case reason q of None \<Rightarrow> [] | Some r \<Rightarrow> reason_name r),
                                         (''volatilityBps'', rat_text env (volatilityBps q)),
                                         (''spotTwapDeviationBps'', rat_text env (spotTwapDeviationBps q))] s
                                 else s))
                 else if tripped x
                 then if of_int (x_now x - stable_since x) <
                         (case stableMarketSeconds (safeguards (x_config x)) of None \<Rightarrow> 0 | Some t \<Rightarrow> t)
                      then bindR (save x ((row_econ x (row_burst x (row_out x (row_base x))))
                                    \<lparr>mo_guard_reason := previous_of mo_guard_reason x,
                                     mo_guard_stable_since := Some (stable_since x)\<rparr>) s)
                             (\<lambda>(_, s). Inr ((), set_state x ''guard_wait'' s))
                      else contraction_phase env x
                             (monitor_audit x ''market_guard_resumed''
                                [(''reason'', case previous_of mo_guard_reason x of None \<Rightarrow> [] | Some r \<Rightarrow> r),
                                 (''stableSeconds'', big_to_string (x_now x - stable_since x))] s)
                 else contraction_phase env x s
           | None \<Rightarrow>
               bindR (save x ((row_econ x (row_out x (row_base x)))\<lparr>mo_guard_reason := previous_of mo_guard_reason x\<rparr>) s)
                 (\<lambda>(_, s). Inr ((), set_state x ''guard_wait'' s))))"

section \<open>One strategy\<close>

definition reset_clock :: "strategy_config \<Rightarrow> position_snapshot \<Rightarrow> monitor_row option \<Rightarrow> bool" where
  "reset_clock c sn prev \<longleftrightarrow>
     (case prev of None \<Rightarrow> True
      | Some r \<Rightarrow> mo_revision r \<noteq> revision c \<or> mo_last_token_id r \<noteq> Some (tokenId sn))"

text \<open>The crossing clock: it starts at the first pass outside on a side, or after a reset.\<close>

definition out_since ::
  "strategy_config \<Rightarrow> position_snapshot \<Rightarrow> monitor_row option \<Rightarrow> range_side \<Rightarrow> int \<Rightarrow> int option" where
  "out_since c sn prev side now =
     (if side = SideIn then None
      else if reset_clock c sn prev \<or> Option.bind prev mo_out_side \<noteq> Some (side_name side) then Some now
      else (case Option.bind prev mo_out_since of None \<Rightarrow> Some now | Some t \<Rightarrow> Some t))"

definition position_changed :: "strategy_config \<Rightarrow> position_snapshot \<Rightarrow> monitor_row option \<Rightarrow> bool" where
  "position_changed c sn prev \<longleftrightarrow>
     (case prev of None \<Rightarrow> False
      | Some r \<Rightarrow> mo_revision r = revision c \<and> mo_last_token_id r = Some (tokenId sn) \<and>
          mo_last_liquidity r \<noteq> None \<and> mo_last_liquidity r \<noteq> Some (big_to_string (snap_liquidity sn)))"

definition ctx_of ::
  "strategy_config \<Rightarrow> string \<Rightarrow> position_snapshot \<Rightarrow> int \<Rightarrow> int \<Rightarrow> monitor_row option \<Rightarrow> int \<Rightarrow> db \<Rightarrow> check_ctx" where
  "ctx_of c st sn now nowMs prev trigTick d =
     (let side = rangeSide (of_int trigTick) (tickLower sn) (tickUpper sn); lr = latestCompletedCycleRange (cfg_id c) d in
      \<lparr>x_config = c, x_state = st, x_snap = sn, x_now = now, x_nowMs = nowMs, x_previous = prev, x_triggerTick = trigTick,
       x_side = side, x_outSince = out_since c sn prev side now, x_latestRange = lr,
       x_startedAt = (case lr of Some (t, _) \<Rightarrow> t
                      | None \<Rightarrow> (case strategyBaseline (cfg_id c) d of Some b \<Rightarrow> bl_observed_at b | None \<Rightarrow> createdAt c))\<rparr>)"

definition trigger_window :: "strategy_config \<Rightarrow> int" where
  "trigger_window c = max 60 (max (confirmationSeconds (trigger c)) (pollSeconds (trigger c) * 3))"

definition check_strategy ::
  "'w monitor_env \<Rightarrow> strategy_config \<Rightarrow> string \<Rightarrow> (js_error + position_snapshot) option \<Rightarrow> int \<Rightarrow> int \<Rightarrow>
   'w pass \<Rightarrow> ('w, unit) step" where
  "check_strategy env c st found now nowMs s =
     (case found of
        None \<Rightarrow> Inl (JsError ''E_MONITOR_SNAPSHOT'', s)
      | Some (Inl e) \<Rightarrow> Inl (e, s)
      | Some (Inr sn) \<Rightarrow>
          let prev = monitorState (cfg_id c) (ps_db s) in
          if position_changed c sn prev then Inl (JsError ''E_POSITION_CHANGED'', s)
          else bindR (run_db (recordPriceSample (cfg_id c) now (tick sn) (big_to_string (blockNumber sn))) s) (\<lambda>(_, s).
            if source (trigger c) = SampledTwap then
              let win = trigger_window c in
              (case sampledAverageTick (cfg_id c) (now - win) (ps_db s) of
                 Some (avg, first, lst, n) \<Rightarrow>
                   if n < 2 \<or> first > now - win + pollSeconds (trigger c) * 2
                   then let x = ctx_of c st sn now nowMs prev (tick sn) (ps_db s) in
                        bindR (save x (row_base x) s) (\<lambda>(_, s). Inr ((), set_state x ''monitoring'' s))
                   else market_phase env (ctx_of c st sn now nowMs prev avg (ps_db s)) s
               | None \<Rightarrow>
                   let x = ctx_of c st sn now nowMs prev (tick sn) (ps_db s) in
                   bindR (save x (row_base x) s) (\<lambda>(_, s). Inr ((), set_state x ''monitoring'' s)))
            else market_phase env (ctx_of c st sn now nowMs prev (tick sn) (ps_db s)) s))"

text \<open>The \<open>catch\<close> block.  A word of digits counts only between non-word characters.\<close>

definition word_char :: "char \<Rightarrow> bool" where
  "word_char c \<longleftrightarrow>
     (let n = of_char c :: nat in (48 \<le> n \<and> n \<le> 57) \<or> (65 \<le> n \<and> n \<le> 90) \<or> (97 \<le> n \<and> n \<le> 122) \<or> n = 95)"

fun has_word :: "bool \<Rightarrow> string \<Rightarrow> string \<Rightarrow> bool" where
  "has_word after w [] = False"
| "has_word after w (c # s) =
     ((\<not> after \<and> starts_with w (c # s) \<and>
       (case drop (length w) (c # s) of [] \<Rightarrow> True | k # _ \<Rightarrow> \<not> word_char k)) \<or>
      has_word (word_char c) w s)"

definition error_message :: "js_error \<Rightarrow> string" where
  "error_message e =
     (case e of JsError m \<Rightarrow> m | StrategyError _ m \<Rightarrow> m | RangeError \<Rightarrow> ''Division by zero''
      | UniqueFailed \<Rightarrow> ''UNIQUE constraint failed'' | ForeignKeyFailed \<Rightarrow> ''FOREIGN KEY constraint failed'')"

definition transient_message :: "string \<Rightarrow> bool" where
  "transient_message m \<longleftrightarrow>
     list_ex (\<lambda>p. contains p (toLower m))
       [''rpc request failed'', ''http request failed'', ''fetch failed'', ''network'', ''socket'', ''timeout'',
        ''timed out'', ''rate limit''] \<or>
     list_ex (\<lambda>w. has_word False w m) [''429'', ''502'', ''503'', ''504'']"

definition upper_code :: "string \<Rightarrow> bool" where
  "upper_code m \<longleftrightarrow>
     length m > 2 \<and> take 2 m = ''E_'' \<and>
     list_all (\<lambda>c. word_char c \<and> \<not> (97 \<le> (of_char c :: nat) \<and> (of_char c :: nat) \<le> 122)) (drop 2 m)"

definition monitor_code :: "js_error \<Rightarrow> string" where
  "monitor_code e =
     (case e of StrategyError code _ \<Rightarrow> code_name code
      | _ \<Rightarrow> if upper_code (error_message e) then error_message e else ''E_MONITOR'')"

definition retry_later ::
  "string \<Rightarrow> (string \<times> string) list \<Rightarrow> int \<Rightarrow> int \<Rightarrow> 'w pass \<Rightarrow> 'w pass" where
  "retry_later i detail now nowMs s =
     (let (delayMs, m) = deferStrategyRetry i nowMs (ps_maps s);
          s = update_db (setStrategyState i ''monitoring'' now) (s\<lparr>ps_maps := m\<rparr>)
      in update_db (audit ''monitor'' ''monitor_retry'' (Some ''strategy'') (Some i)
           (detail @ [(''delayMs'', big_to_string delayMs)]) now) s)"

definition monitor_failed :: "strategy_config \<Rightarrow> js_error \<Rightarrow> int \<Rightarrow> int \<Rightarrow> 'w pass \<Rightarrow> 'w pass" where
  "monitor_failed c e now nowMs s =
     (let m = error_message e in
      retry_later (cfg_id c)
        ((if transient_message m then [] else [(''code'', monitor_code e)]) @ [(''message'', take 160 m)]) now nowMs s)"

definition monitor_strategy ::
  "'w monitor_env \<Rightarrow> strategy_config \<Rightarrow> string \<Rightarrow> (js_error + position_snapshot) option \<Rightarrow> int \<Rightarrow> int \<Rightarrow>
   'w pass \<Rightarrow> 'w pass" where
  "monitor_strategy env c st found now nowMs s =
     (case check_strategy env c st found now nowMs s of
        Inr (_, s) \<Rightarrow> s
      | Inl (e, s) \<Rightarrow> monitor_failed c e now nowMs s)"

section \<open>All strategies\<close>

record 'w monitor =
  mon_running :: bool
  mon_next :: "(string \<times> int) list"
  mon_pass :: "'w pass"

record 'w monitor_io =
  io_collate :: "string \<Rightarrow> int"
  io_parse :: "strategy_config parser"
  io_head :: "'w \<Rightarrow> int res \<times> 'w"
  io_snapshots :: "strategy_config list \<Rightarrow> int \<Rightarrow> 'w \<Rightarrow> (string \<Rightarrow> (js_error + position_snapshot) option) res \<times> 'w"

text \<open>
  \<open>monitorOnce\<close>.  The error, when there is one, is what the promise is rejected with; the
  \<open>finally\<close> has reset \<open>running\<close>.
\<close>

definition monitorOnce ::
  "'w monitor_env \<Rightarrow> 'w monitor_io \<Rightarrow> bool \<Rightarrow> int \<Rightarrow> int \<Rightarrow> 'w monitor \<Rightarrow> js_error option \<times> 'w monitor" where
  "monitorOnce env io ignoreSchedule now nowMs mon =
     (let s = mon_pass mon in
      if mon_running mon \<or> executorPaused (ps_db s) then (None, mon)
      else
        case enabledExecutorStrategies (io_collate io) (io_parse io) (ps_db s) of
          Inl e \<Rightarrow> (Some e, mon)
        | Inr rows \<Rightarrow>
            let due = filter (\<lambda>(c, _). ignoreSchedule \<or> nowMs \<ge> rec_or 0 (mon_next mon) (cfg_id c)) rows;
                next_at = foldl (\<lambda>m (c, _). rec_set (cfg_id c)
                  (nowMs + max (pollSeconds (trigger c)) (me_minSeconds env) * 1000) m) (mon_next mon) due;
                mon = mon\<lparr>mon_next := next_at\<rparr>;
                ready = filter (\<lambda>(c, _). strategyRetryReady (cfg_id c) nowMs (ps_maps s)) due
            in if ready = [] then (None, mon)
               else
                 (case call (io_head io) s of
                    Inl (e, s) \<Rightarrow>
                      (None, mon\<lparr>mon_pass := foldl (\<lambda>s (c, _). retry_later (cfg_id c)
                         [(''code'', ''E_RPC_BLOCK_HEAD''), (''message'', take 160 (error_message e))] now nowMs s) s ready\<rparr>)
                  | Inr (head, s) \<Rightarrow>
                      (case call (io_snapshots io (map fst ready) head) s of
                         Inl (e, s) \<Rightarrow> (Some e, mon\<lparr>mon_pass := s\<rparr>)
                       | Inr (snaps, s) \<Rightarrow>
                           (None, mon\<lparr>mon_pass := foldl (\<lambda>s (c, st, _).
                              monitor_strategy env c st (snaps (cfg_id c)) now nowMs s) s ready\<rparr>))))"

end
