(* ===== verification/MonitorSafety.thy ===== *)
theory MonitorSafety
  imports Monitor JobLifecycle
begin

text \<open>
  What a pass of \<open>monitor.ts\<close> promises: which rows it may touch, that it plans a rebalance only
  when every guard is clear, and that a failure plans nothing and defers the strategy alone.
\<close>

section \<open>What a step may change\<close>

text \<open>A \<open>quiet\<close> change touches the monitor row and the state of one strategy, and the audit.\<close>

definition rest :: "db \<Rightarrow> db" where
  "rest d = d\<lparr>monitors := [], strategies := [], audits := []\<rparr>"

definition quiet :: "string \<Rightarrow> db \<Rightarrow> db \<Rightarrow> bool" where
  "quiet i d d' \<longleftrightarrow>
     rest d' = rest d \<and>
     filter (\<lambda>r. mo_strategy_id r \<noteq> i) (monitors d') = filter (\<lambda>r. mo_strategy_id r \<noteq> i) (monitors d) \<and>
     filter (\<lambda>r. st_id r \<noteq> i) (strategies d') = filter (\<lambda>r. st_id r \<noteq> i) (strategies d)"

lemma quiet_refl [simp]: "quiet i d d"
  by (simp add: quiet_def)

lemma quiet_trans [trans]: "quiet i d e \<Longrightarrow> quiet i e f \<Longrightarrow> quiet i d f"
  by (simp add: quiet_def)

lemma quiet_fields:
  assumes "quiet i d d'"
  shows "jobs d' = jobs d" "cycles d' = cycles d" "prices d' = prices d" "job_steps d' = job_steps d"
    "ledger d' = ledger d" "job_transactions d' = job_transactions d" "turnover d' = turnover d"
proof -
  have r: "rest d' = rest d" using assms by (simp add: quiet_def)
  show "jobs d' = jobs d" using arg_cong [OF r, of jobs] by (simp add: rest_def)
  show "cycles d' = cycles d" using arg_cong [OF r, of cycles] by (simp add: rest_def)
  show "prices d' = prices d" using arg_cong [OF r, of prices] by (simp add: rest_def)
  show "job_steps d' = job_steps d" using arg_cong [OF r, of job_steps] by (simp add: rest_def)
  show "ledger d' = ledger d" using arg_cong [OF r, of ledger] by (simp add: rest_def)
  show "job_transactions d' = job_transactions d" using arg_cong [OF r, of job_transactions] by (simp add: rest_def)
  show "turnover d' = turnover d" using arg_cong [OF r, of turnover] by (simp add: rest_def)
qed

lemma filter_update_other:
  "(\<And>r. p r \<Longrightarrow> \<not> q r) \<Longrightarrow> (\<And>r. p r \<Longrightarrow> \<not> q (f r)) \<Longrightarrow> filter q (update_where p f t) = filter q t"
  by (induction t) (auto simp: update_where_def)

lemma quiet_audit [simp]: "quiet i d (audit a b c t e now d)"
  by (simp add: quiet_def audit_def rest_def)

lemma quiet_state [simp]: "quiet i d (setStrategyState i st now d)"
  by (auto simp: quiet_def setStrategyState_def rest_def intro: filter_update_other)

lemma quiet_monitor: "updateMonitorState i r now d = Inr d' \<Longrightarrow> quiet i d d'"
  using filter_update_other [of "\<lambda>x. mo_strategy_id x = i" "\<lambda>x. mo_strategy_id x \<noteq> i"
      "\<lambda>_. r\<lparr>mo_strategy_id := i, mo_updated := now\<rparr>" "monitors d"]
  by (auto simp: quiet_def updateMonitorState_def fk_def Let_def upsert_def rest_def split: if_splits)

definition planned :: "string \<Rightarrow> int \<Rightarrow> execution_plan \<Rightarrow> db \<Rightarrow> db \<Rightarrow> bool" where
  "planned i now plan d d' \<longleftrightarrow>
     (\<exists>e e'. quiet i d e \<and> createPlannedJob plan now e = Inr (True, e') \<and> quiet i e' d')"

text \<open>What a phase may answer: a quiet change, or a plan that satisfies \<open>P\<close> and is created.\<close>

definition outcome :: "string \<Rightarrow> int \<Rightarrow> (execution_plan \<Rightarrow> bool) \<Rightarrow> 'w pass \<Rightarrow> ('w, unit) step \<Rightarrow> bool" where
  "outcome i now P s r \<longleftrightarrow>
     (case r of Inl (_, s') \<Rightarrow> quiet i (ps_db s) (ps_db s')
      | Inr (_, s') \<Rightarrow> quiet i (ps_db s) (ps_db s') \<or> (\<exists>plan. P plan \<and> planned i now plan (ps_db s) (ps_db s')))"

definition calm :: "string \<Rightarrow> 'w pass \<Rightarrow> ('w, 'a) step \<Rightarrow> bool" where
  "calm i s r \<longleftrightarrow> (case r of Inl (_, s') \<Rightarrow> quiet i (ps_db s) (ps_db s') | Inr (_, s') \<Rightarrow> quiet i (ps_db s) (ps_db s'))"

lemma outcome_done: "quiet i (ps_db s) (ps_db s') \<Longrightarrow> outcome i now P s (Inr ((), s'))"
  by (simp add: outcome_def)

lemma outcome_quiet:
  assumes "quiet i (ps_db s) (ps_db s')" and "outcome i now P s' r"
  shows "outcome i now P s r"
proof (cases r)
  case (Inl y)
  then show ?thesis using assms by (cases y) (simp add: outcome_def quiet_trans)
next
  case (Inr y)
  then show ?thesis
    using assms by (cases y) (simp add: outcome_def planned_def, meson quiet_trans)
qed

lemma outcome_bind:
  assumes "calm i s m"
    and "\<And>x s'. m = Inr (x, s') \<Longrightarrow> quiet i (ps_db s) (ps_db s') \<Longrightarrow> outcome i now P s' (f (x, s'))"
  shows "outcome i now P s (bindR m f)"
proof (cases m)
  case (Inl y)
  then show ?thesis using assms(1) by (cases y) (simp add: calm_def outcome_def)
next
  case (Inr y)
  obtain x s' where y: "y = (x, s')" by (cases y)
  then have q: "quiet i (ps_db s) (ps_db s')" using assms(1) Inr by (simp add: calm_def)
  have "outcome i now P s' (f (x, s'))" using assms(2) Inr y q by simp
  then show ?thesis using Inr y q outcome_quiet by simp
qed

lemma calm_pure [simp]: "calm i s (pure_step r s)"
  by (simp add: calm_def pure_step_def split: sum.splits)

lemma calm_call [simp]: "calm i s (call f s)"
  by (simp add: calm_def call_def Let_def split: prod.splits sum.splits)

lemma calm_save [simp]: "cfg_id (x_config x) = i \<Longrightarrow> calm i s (save x r s)"
  by (cases "updateMonitorState i r (x_now x) (ps_db s)")
    (simp_all add: calm_def save_def run_db_def try_db_def quiet_monitor)

lemma set_state_db [simp]: "ps_db (set_state x st s) = setStrategyState (cfg_id (x_config x)) st (x_now x) (ps_db s)"
  by (simp add: set_state_def update_db_def)

lemma monitor_audit_quiet [simp]: "quiet i (ps_db s) (ps_db (monitor_audit x a l s))"
  by (simp add: monitor_audit_def update_db_def)

named_theorems quiet_intros \<open>steps that make a quiet change\<close>

declare quiet_refl [quiet_intros]

lemma quiet_set_state [quiet_intros]:
  "quiet i d (ps_db s) \<Longrightarrow> cfg_id (x_config x) = i \<Longrightarrow> quiet i d (ps_db (set_state x st s))"
  using quiet_trans [OF _ quiet_state] by simp

lemma quiet_monitor_audit [quiet_intros]: "quiet i d (ps_db s) \<Longrightarrow> quiet i d (ps_db (monitor_audit x a l s))"
  using quiet_trans [OF _ monitor_audit_quiet] by blast

lemma adaptiveEconomics_db: "ps_db (snd (adaptiveEconomics env c st s)) = ps_db s"
  by (simp add: adaptiveEconomics_def call_def Let_def split: prod.splits sum.splits)

lemma latestCycleCostQuote_db: "ps_db (snd (latestCycleCostQuote env c st s)) = ps_db s"
  by (simp add: latestCycleCostQuote_def call_def Let_def split: prod.splits sum.splits)

section \<open>When a plan may be made\<close>

definition market_clear :: "'w monitor_env \<Rightarrow> check_ctx \<Rightarrow> db \<Rightarrow> bool" where
  "market_clear env x d \<longleftrightarrow>
     (\<forall>win. market_window x = Some win \<longrightarrow>
        (\<exists>st. sampledTickStats (cfg_id (x_config x)) (seconds_up (of_int (x_now x) - win)) d = Some st \<and>
           2 \<le> ts_count st \<and>
           of_int (ts_firstTs st) \<le> of_int (x_now x) - win + of_int (pollSeconds (trigger (x_config x)) * 2) \<and>
           healthy (quality_of env x st)) \<and>
        (tripped x \<longrightarrow> (case stableMarketSeconds (safeguards (x_config x)) of None \<Rightarrow> 0 | Some t \<Rightarrow> t)
                        \<le> of_int (x_now x - stable_since x)))"

definition burst_clear :: "check_ctx \<Rightarrow> db \<Rightarrow> bool" where
  "burst_clear x d \<longleftrightarrow>
     (\<forall>win n k. burst_limits x = Some (win, n, k) \<longrightarrow>
        \<not> bursting x \<and>
        \<not> shouldStartBurstWait (of_int (completedCyclesSince (cfg_id (x_config x)) (burst_since x win) d)) n)"

text \<open>The gate let the cycle through, on the fees and the cost it read.\<close>

definition econ_clear :: "'w monitor_env \<Rightarrow> check_ctx \<Rightarrow> boundary_action \<Rightarrow> bool" where
  "econ_clear env x act \<longleftrightarrow>
     (\<forall>m. gate_coverage x act = Some m \<longrightarrow>
        (\<exists>s amounts s' collected.
           call (me_collectable env (x_config x)) s = Inr (amounts, s') \<and>
           quoteValueInQuote (fst amounts) (snd amounts) (x_config x) (x_snap x) = Inr collected \<and>
           decideCycleEconomics (x_now x) (x_outSince x) collected
             (fst (latestCycleCostQuote env (x_config x) (x_state x) s')) (Some m)
             (hold_of x) = EconExecute))"

definition crossing_clear :: "'w monitor_env \<Rightarrow> check_ctx \<Rightarrow> db \<Rightarrow> trigger_side \<Rightarrow> bool" where
  "crossing_clear env x d t \<longleftrightarrow>
     (\<exists>act. decideBoundaryTrigger (boundary_of x (cooldown_of x d)) = ExecuteTrigger t act (x_now x) \<and> econ_clear env x act) \<and>
     burst_clear x d \<and> daily_wait x d = None \<and> lower_wait x t d = None"

definition clear_to_plan :: "'w monitor_env \<Rightarrow> check_ctx \<Rightarrow> db \<Rightarrow> execution_plan \<Rightarrow> bool" where
  "clear_to_plan env x d plan \<longleftrightarrow>
     plan_strategyId plan = cfg_id (x_config x) \<and> snapshot plan = x_snap x \<and> \<not> manualExecution plan \<and>
     market_clear env x d \<and>
     (case triggerSide plan of
        Lower \<Rightarrow> crossing_clear env x d Lower
      | Upper \<Rightarrow> crossing_clear env x d Upper
      | AdaptiveContraction \<Rightarrow> contraction_due x
      | Manual \<Rightarrow> plan_action plan = CollectFees \<and> x_side x = SideIn)"

lemma rebalance_plan_of:
  assumes "makeRebalancePlan env c sn now (Some t) False sc = Inr plan"
  shows "triggerSide plan = t \<and> plan_strategyId plan = cfg_id c \<and> snapshot plan = sn \<and> \<not> manualExecution plan"
  using assms by (auto simp: makeRebalancePlan_def bindR_eq_Inr plan_side_def plan_of_def Let_def split: if_splits)

lemma fee_plan_of:
  assumes "makeFeeCollectionPlan env c sn now = Inr plan"
  shows "triggerSide plan = Manual \<and> plan_strategyId plan = cfg_id c \<and> snapshot plan = sn \<and>
         \<not> manualExecution plan \<and> plan_action plan = CollectFees"
  using assms by (auto simp: makeFeeCollectionPlan_def bindR_eq_Inr plan_of_def Let_def split: if_splits)

lemma same_rows:
  assumes "cycles e = cycles d" and "prices e = prices d"
  shows "daily_wait x e = daily_wait x d" "lower_wait x t e = lower_wait x t d" "burst_clear x e = burst_clear x d"
    "cooldown_of x e = cooldown_of x d" "market_clear env x e = market_clear env x d"
  using assms
  by (simp_all add: daily_wait_def lower_wait_def burst_clear_def cooldown_of_def market_clear_def
      completedCyclesSince_def consecutiveLowerBreaks_def storeLowerBreakResetAt_def recentCycleSides_def
      latestCompletedCycleAt_def sampledTickStats_def Let_def cong: option.case_cong if_cong)

lemma catch_False: "createPlannedJob plan now d = Inr (False, e) \<Longrightarrow> e = d"
  by (auto simp: createPlannedJob_def catch_job_def split: sum.splits if_splits)

lemma create_plan_outcome:
  assumes "P plan" and "cfg_id (x_config x) = i" and "x_now x = now"
  shows "outcome i now P s (create_plan x plan act detail s)"
proof (cases "createPlannedJob plan now (ps_db s)")
  case (Inl e)
  then show ?thesis using assms by (simp add: create_plan_def try_db_def outcome_def)
next
  case (Inr y)
  obtain ok e where y: "y = (ok, e)" by (cases y)
  show ?thesis
  proof (cases ok)
    case True
    have "quiet i e (ps_db (set_state x ''planned'' (monitor_audit x act ((''planId'', plan_id plan) # detail) (s\<lparr>ps_db := e\<rparr>))))"
      using assms(2) quiet_trans [OF monitor_audit_quiet [of i "s\<lparr>ps_db := e\<rparr>" x act "(''planId'', plan_id plan) # detail"]]
      by simp
    then show ?thesis
      using Inr y True assms by (simp add: create_plan_def try_db_def outcome_def planned_def) (metis quiet_refl)
  next
    case False
    then show ?thesis
      using Inr y assms catch_False [of plan now "ps_db s" e] by (simp add: create_plan_def try_db_def outcome_def)
  qed
qed

section \<open>The phases\<close>

lemma execute_boundary_outcome:
  assumes "cfg_id (x_config x) = i" and "x_now x = now" and "market_clear env x d" and "crossing_clear env x d t"
    and "t = Lower \<or> t = Upper"
  shows "outcome i now (clear_to_plan env x d) s (execute_boundary env x t s)"
proof -
  have plan: "clear_to_plan env x d plan"
    if "pure_step (makeRebalancePlan (me_plan env) (x_config x) (x_snap x) (x_now x) (Some t) False sc) r = Inr (plan, r')"
    for sc r r' plan
    using that assms(3-5) rebalance_plan_of [of "me_plan env" "x_config x" "x_snap x" "x_now x" t sc plan]
    by (auto simp: clear_to_plan_def pure_step_def split: sum.splits)
  have main: "outcome i now (clear_to_plan env x d) r
      (bindR (pure_step (makeRebalancePlan (me_plan env) (x_config x) (x_snap x) (x_now x) (Some t) False sc) r)
         (\<lambda>(plan, s). create_plan x plan act (det plan) s))" for sc r act det
    by (rule outcome_bind) (auto intro: create_plan_outcome plan assms(1,2))
  show ?thesis
    unfolding execute_boundary_def Let_def
    by (simp split: prod.split del: bindR_simps)
      (auto intro!: outcome_quiet [OF _ main] simp: adaptiveEconomics_db [of env "x_config x" "x_state x" s, symmetric])
qed

lemma clear_trans:
  assumes "quiet i d e"
  shows "clear_to_plan env x e = clear_to_plan env x d" "crossing_clear env x e t = crossing_clear env x d t"
proof -
  note same = same_rows [OF quiet_fields(2,3) [OF assms]]
  show crossing: "crossing_clear env x e t = crossing_clear env x d t" for t
    by (simp add: crossing_clear_def same)
  show "clear_to_plan env x e = clear_to_plan env x d"
    by (auto simp: fun_eq_iff clear_to_plan_def crossing same split: trigger_side.splits)
qed

text \<open>A phase is judged against the database it is given: its checks read only cycles and samples.\<close>

lemma phase_bind:
  assumes "calm i s m"
    and "\<And>y s'. m = Inr (y, s') \<Longrightarrow> quiet i (ps_db s) (ps_db s') \<Longrightarrow>
           outcome i now (clear_to_plan env x (ps_db s')) s' (f (y, s'))"
  shows "outcome i now (clear_to_plan env x (ps_db s)) s (bindR m f)"
proof (rule outcome_bind [OF assms(1)])
  fix y s' assume *: "m = Inr (y, s')" "quiet i (ps_db s) (ps_db s')"
  show "outcome i now (clear_to_plan env x (ps_db s)) s' (f (y, s'))"
    using assms(2) [OF *] by (simp add: clear_trans(1) [OF *(2)])
qed

lemma outcome_pure:
  "(\<And>y. r = Inr y \<Longrightarrow> outcome i now P s (f (y, s))) \<Longrightarrow> outcome i now P s (bindR (pure_step r s) f)"
  by (cases r) (simp_all add: pure_step_def outcome_def)

lemma wait_outcome:
  assumes "cfg_id (x_config x) = i" and "\<And>s'. quiet i (ps_db s') (ps_db (g s'))"
  shows "outcome i now P s (bindR (save x r s) (\<lambda>(_, s). Inr ((), g s)))"
  using assms by (intro outcome_bind) (auto intro: outcome_done)

lemma economics_verdict_outcome:
  assumes i: "cfg_id (x_config x) = i"
    and exec: "\<And>r. decideCycleEconomics (x_now x) (x_outSince x) collected
                 (fst (latestCycleCostQuote env (x_config x) (x_state x) s)) (Some m) hold = EconExecute \<Longrightarrow>
               outcome i now P r (execute_boundary env x t r)"
  shows "outcome i now P s (economics_verdict env x cool t m hold collected s)"
proof -
  obtain cost r where r: "latestCycleCostQuote env (x_config x) (x_state x) s = (cost, r)"
    by (cases "latestCycleCostQuote env (x_config x) (x_state x) s")
  have q: "quiet i (ps_db s) (ps_db r)"
    using latestCycleCostQuote_db [of env "x_config x" "x_state x" s] r by simp
  have pass: "outcome i now P r (bindR (save x row r) (\<lambda>(_, s). execute_boundary env x t (monitor_audit x act det s)))"
    if "decideCycleEconomics (x_now x) (x_outSince x) collected cost (Some m) hold = EconExecute" for row act det
    by (rule outcome_bind [OF calm_save [OF i]])
      (use that r in \<open>auto intro!: outcome_quiet [OF monitor_audit_quiet exec]\<close>)
  show ?thesis
    unfolding economics_verdict_def Let_def r prod.case
    by (rule outcome_quiet [OF q])
      (use exec r in \<open>auto intro!: wait_outcome pass quiet_intros i simp del: set_state_db
         split: economics_decision.split\<close>)
qed

lemma economics_phase_outcome:
  assumes i: "cfg_id (x_config x) = i" "x_now x = now" and market: "market_clear env x (ps_db s)"
    and dec: "decideBoundaryTrigger (boundary_of x (cooldown_of x (ps_db s))) = ExecuteTrigger t act (x_now x)"
    and caps: "burst_clear x (ps_db s)" "daily_wait x (ps_db s) = None" "lower_wait x t (ps_db s) = None"
    and t: "t = Lower \<or> t = Upper"
  shows "outcome i now (clear_to_plan env x (ps_db s)) s (economics_phase env x cool t act s)"
proof -
  have exec: "outcome i now (clear_to_plan env x (ps_db s)) r (execute_boundary env x t r)"
    if "econ_clear env x act" for r
    by (rule execute_boundary_outcome [OF i market _ t]) (use that dec caps in \<open>auto simp: crossing_clear_def\<close>)
  show ?thesis
  proof (cases "gate_coverage x act")
    case None
    then show ?thesis using exec by (simp add: economics_phase_def econ_clear_def)
  next
    case (Some m)
    show ?thesis
      unfolding economics_phase_def Some option.case
    proof (rule outcome_bind [OF calm_call], simp only: prod.case, rule outcome_pure, simp only: prod.case,
        rule economics_verdict_outcome [OF i(1)], rule exec)
      fix am q' collected
      assume "call (me_collectable env (x_config x)) s = Inr (am, q')"
        and "quoteValueInQuote (fst am) (snd am) (x_config x) (x_snap x) = Inr collected"
        and "decideCycleEconomics (x_now x) (x_outSince x) collected
               (fst (latestCycleCostQuote env (x_config x) (x_state x) q')) (Some m) (hold_of x) = EconExecute"
      then show "econ_clear env x act" using Some unfolding econ_clear_def by (metis option.inject)
    qed
  qed
qed

lemma quiet_precheck [quiet_intros]:
  "quiet i d (ps_db s) \<Longrightarrow> quiet i d (ps_db (update_db (recordPrecheckGuard j code u now) s))"
  by (simp add: update_db_def recordPrecheckGuard_def quiet_trans [OF _ quiet_audit])

lemma caps_phase_outcome:
  assumes i: "cfg_id (x_config x) = i" "x_now x = now" and market: "market_clear env x (ps_db s)"
    and dec: "decideBoundaryTrigger (boundary_of x (cooldown_of x (ps_db s))) = ExecuteTrigger t act (x_now x)"
    and burst: "burst_clear x (ps_db s)" and t: "t = Lower \<or> t = Upper"
  shows "outcome i now (clear_to_plan env x (ps_db s)) s (caps_phase env x cool t act s)"
proof (cases "daily_wait x (ps_db s) \<noteq> None \<or> lower_wait x t (ps_db s) \<noteq> None")
  case True
  then show ?thesis
    using i by (auto simp: caps_phase_def Let_def simp del: set_state_db
        intro!: wait_outcome quiet_intros split: option.split)
next
  case False
  then show ?thesis using economics_phase_outcome [OF i market dec burst _ _ t] by (simp add: caps_phase_def Let_def)
qed

lemma burst_phase_outcome:
  assumes i: "cfg_id (x_config x) = i" "x_now x = now" and market: "market_clear env x (ps_db s)"
    and dec: "decideBoundaryTrigger (boundary_of x (cooldown_of x (ps_db s))) = ExecuteTrigger t act (x_now x)"
    and t: "t = Lower \<or> t = Upper"
  shows "outcome i now (clear_to_plan env x (ps_db s)) s (burst_phase env x cool t act s)"
proof -
  have caps: "outcome i now (clear_to_plan env x (ps_db s)) s (caps_phase env x cool t act s)"
    if "burst_clear x (ps_db s)"
    by (rule caps_phase_outcome [OF i market dec that t])
  show ?thesis
    using caps
    by (auto simp: burst_phase_def burst_clear_def Let_def i simp del: set_state_db
        intro!: wait_outcome quiet_intros split: option.split)
qed

lemma executed_side:
  "decideBoundaryTrigger a = ExecuteTrigger t act tm \<Longrightarrow>
     tm = ba_now a \<and> (t = Lower \<and> rangeSide (of_int (ba_tick a)) (ba_tickLower a) (ba_tickUpper a) = SideLower \<or>
       t = Upper \<and> rangeSide (of_int (ba_tick a)) (ba_tickLower a) (ba_tickUpper a) = SideUpper)"
  by (cases "rangeSide (of_int (ba_tick a)) (ba_tickLower a) (ba_tickUpper a)")
    (auto simp: decideBoundaryTrigger_def Let_def split: if_splits)

lemma calm_drop_econ: "cfg_id (x_config x) = i \<Longrightarrow> calm i s (drop_econ x cool s)"
  using calm_save [of x i s] by (auto simp: drop_econ_def calm_def)

lemma boundary_phase_outcome:
  fixes s :: "'w pass"
  assumes i: "cfg_id (x_config x) = i" "x_now x = now" and market: "market_clear env x (ps_db s)"
  shows "outcome i now (clear_to_plan env x (ps_db s)) s (boundary_phase env x s)"
  unfolding boundary_phase_def Let_def
proof (rule phase_bind [OF calm_save [OF i(1)]], simp only: prod.case)
  fix y and s' :: "'w pass" assume q: "quiet i (ps_db s) (ps_db s')"
  have market': "market_clear env x (ps_db s')" and cool: "cooldown_of x (ps_db s') = cooldown_of x (ps_db s)"
    using market by (simp_all add: same_rows [OF quiet_fields(2,3) [OF q]])
  let ?P = "clear_to_plan env x (ps_db s')" and ?cool = "cooldown_of x (ps_db s)"
  have dropped: "outcome i now ?P r (bindR (drop_econ x ?cool r) (\<lambda>(_, s). Inr ((), g s)))"
    if "\<And>s'. quiet i (ps_db s') (ps_db (g s'))" for g r
    by (rule outcome_bind [OF calm_drop_econ [OF i(1)]]) (auto intro: outcome_done that)
  have cleared: "outcome i now ?P s' (bindR (drop_econ x ?cool (s'\<lparr>ps_maps := m\<rparr>)) f)"
    if "outcome i now ?P (s'\<lparr>ps_maps := m\<rparr>) (bindR (drop_econ x ?cool (s'\<lparr>ps_maps := m\<rparr>)) f)" for m f
    by (rule outcome_quiet [OF _ that]) simp
  show "outcome i now ?P s'
      (case decideBoundaryTrigger (boundary_of x ?cool) of
         NoTrigger _ \<Rightarrow>
           bindR (drop_econ x ?cool (s'\<lparr>ps_maps := clearStrategyRetry (cfg_id (x_config x)) (ps_maps s')\<rparr>))
             (\<lambda>(_, s). Inr ((), set_state x (if bursting x then ''guard_wait'' else ''monitoring'') s))
       | PauseTrigger code detail \<Rightarrow>
           bindR (drop_econ x ?cool s') (\<lambda>(_, s). Inr ((), monitor_audit x ''strategy_paused''
             ((''code'', code_name code) # (case detail of None \<Rightarrow> [] | Some (k, v) \<Rightarrow> [(''detail.'' @ k, v)]))
             (set_state x (if detail = Some (''reason'', ''manual_confirm'') then ''awaiting_manual'' else ''paused_guard'') s)))
       | ExecuteTrigger t act _ \<Rightarrow> burst_phase env x ?cool t act s')"
  proof (cases "decideBoundaryTrigger (boundary_of x ?cool)")
    case (ExecuteTrigger t act tm)
    with executed_side [OF this] show ?thesis
      using burst_phase_outcome [OF i market', unfolded cool] by (auto simp: boundary_of_def)
  next
    case (NoTrigger r)
    then show ?thesis by (auto intro!: cleared dropped quiet_intros i simp del: set_state_db)
  next
    case (PauseTrigger code detail)
    then show ?thesis by (auto intro!: dropped quiet_intros i simp del: set_state_db)
  qed
qed

lemma calm_bind:
  assumes "calm i s m" and "\<And>x s'. m = Inr (x, s') \<Longrightarrow> calm i s' (f (x, s'))"
  shows "calm i s (bindR m f)"
proof (cases m)
  case (Inl y)
  then show ?thesis using assms(1) by (simp add: calm_def)
next
  case (Inr y)
  obtain x s' where y: "y = (x, s')" by (cases y)
  have "quiet i (ps_db s) (ps_db s')" "calm i s' (f (x, s'))" using assms Inr y by (simp_all add: calm_def)
  then show ?thesis using Inr y by (auto simp: calm_def split: sum.splits prod.splits intro: quiet_trans)
qed

lemma calm_here [simp]: "calm i s (Inr (x, s))" "calm i s (Inl (e, s))"
  by (simp_all add: calm_def)

lemma calm_due: "calm i s (feeCollectionDue env c sn now s)"
  unfolding feeCollectionDue_def Let_def
  by (auto intro!: calm_bind simp: pure_step_def split: sum.splits)

lemma fee_phase_outcome:
  assumes i: "cfg_id (x_config x) = i" "x_now x = now" and market: "market_clear env x (ps_db s)"
  shows "outcome i now (clear_to_plan env x (ps_db s)) s (fee_phase env x s)"
  unfolding fee_phase_def
proof (rule phase_bind, goal_cases)
  case 1
  show ?case by (simp add: calm_due)
next
  case (2 due s')
  have market': "market_clear env x (ps_db s')"
    using market by (simp add: same_rows [OF quiet_fields(2,3) [OF 2(2)]])
  have "x_side x = SideIn" if due using 2(1) that by (auto split: if_splits)
  then show ?case
    using boundary_phase_outcome [OF i market'] market' fee_plan_of
    by (auto intro!: outcome_bind [OF calm_save [OF i(1)]] outcome_pure create_plan_outcome i
        simp: clear_to_plan_def) 
qed

lemma contraction_phase_outcome:
  assumes i: "cfg_id (x_config x) = i" "x_now x = now" and market: "market_clear env x (ps_db s)"
  shows "outcome i now (clear_to_plan env x (ps_db s)) s (contraction_phase env x s)"
proof (cases "x_latestRange x = None \<or> \<not> contraction_due x")
  case True
  then show ?thesis
    using fee_phase_outcome [OF i market] by (auto simp: contraction_phase_def split: option.splits)
next
  case False
  then obtain ct sc where r: "x_latestRange x = Some (ct, sc)" and due: "contraction_due x" by auto
  have plan: "clear_to_plan env x (ps_db s) plan"
    if "makeRebalancePlan (me_plan env) (x_config x) (x_snap x) (x_now x) (Some AdaptiveContraction) False sc = Inr plan"
    for sc plan
    using rebalance_plan_of [OF that] market due by (simp add: clear_to_plan_def)
  have main: "outcome i now (clear_to_plan env x (ps_db s)) r
      (if b then bindR (pure_step (makeRebalancePlan (me_plan env) (x_config x) (x_snap x) (x_now x)
                          (Some AdaptiveContraction) False sc) r)
                  (\<lambda>(plan, s). create_plan x plan act det s)
       else fee_phase env x r)" if "ps_db r = ps_db s" for b r sc act det
    using fee_phase_outcome [OF i, of env r] that market
    by (auto intro!: outcome_pure create_plan_outcome plan i)
  define q where "q = (if (case contraction_stability env x (ps_db s) of None \<Rightarrow> False | Some v \<Rightarrow> stable v)
      then adaptiveEconomics env (x_config x) (x_state x) s else (None, s))"
  have same: "ps_db (snd q) = ps_db s" by (simp add: q_def adaptiveEconomics_db)
  obtain eco p where p: "q = (eco, p)" by (cases q)
  show ?thesis
    unfolding contraction_phase_def r option.case prod.case Let_def q_def [symmetric] p
    using due by (simp only: not_True_eq_False if_False, intro outcome_quiet [OF _ main])
      (use same p in simp_all)
qed

lemma market_phase_outcome:
  assumes i: "cfg_id (x_config x) = i" "x_now x = now"
  shows "outcome i now (clear_to_plan env x (ps_db s)) s (market_phase env x s)"
proof (cases "market_window x")
  case None
  then have "market_clear env x (ps_db s)" by (simp add: market_clear_def)
  from contraction_phase_outcome [OF i this] None show ?thesis by (simp add: market_phase_def)
next
  case (Some win)
  let ?stats = "sampledTickStats (cfg_id (x_config x)) (seconds_up (of_int (x_now x) - win)) (ps_db s)"
  show ?thesis
  proof (cases "?stats")
    case None
    with Some i show ?thesis
      by (auto simp: market_phase_def Let_def simp del: set_state_db intro!: wait_outcome quiet_intros)
  next
    case st: (Some st)
    have clear: "market_clear env x (ps_db s)"
      if "\<not> (ts_count st < 2 \<or> of_int (ts_firstTs st) > of_int (x_now x) - win + of_int (pollSeconds (trigger (x_config x)) * 2))"
        and "healthy (quality_of env x st)"
        and "tripped x \<Longrightarrow> \<not> of_int (x_now x - stable_since x) <
               (case stableMarketSeconds (safeguards (x_config x)) of None \<Rightarrow> 0 | Some t \<Rightarrow> t)"
      using that Some st by (auto simp: market_clear_def not_less)
    have resumed: "outcome i now (clear_to_plan env x (ps_db s)) s (contraction_phase env x (monitor_audit x act det s))"
      if m: "market_clear env x (ps_db s)" for act det
    proof -
      let ?s = "monitor_audit x act det s"
      have q: "quiet i (ps_db s) (ps_db ?s)" by simp
      have "market_clear env x (ps_db ?s)" using m by (simp add: same_rows [OF quiet_fields(2,3) [OF q]])
      from contraction_phase_outcome [OF i this] show ?thesis
        by (intro outcome_quiet [OF q]) (simp add: clear_trans(1) [OF q])
    qed
    show ?thesis
      unfolding market_phase_def Some option.case Let_def st
      by (auto simp del: set_state_db intro!: wait_outcome quiet_intros i contraction_phase_outcome clear resumed)
  qed
qed

section \<open>One strategy\<close>

text \<open>The tick the boundary is judged on; none while a sampled average lacks history.\<close>

definition trigger_tick :: "strategy_config \<Rightarrow> position_snapshot \<Rightarrow> int \<Rightarrow> db \<Rightarrow> int option" where
  "trigger_tick c sn now d =
     (if source (trigger c) = SampledTwap
      then (case sampledAverageTick (cfg_id c) (now - trigger_window c) d of
              None \<Rightarrow> None
            | Some (avg, first, lst, n) \<Rightarrow>
                if n < 2 \<or> first > now - trigger_window c + pollSeconds (trigger c) * 2 then None else Some avg)
      else Some (tick sn))"

lemma ctx_of_simps [simp]:
  "x_config (ctx_of c st sn now nowMs prev t d) = c" "x_now (ctx_of c st sn now nowMs prev t d) = now"
  "x_snap (ctx_of c st sn now nowMs prev t d) = sn" "x_previous (ctx_of c st sn now nowMs prev t d) = prev"
  "x_triggerTick (ctx_of c st sn now nowMs prev t d) = t"
  "x_side (ctx_of c st sn now nowMs prev t d) = rangeSide (of_int t) (tickLower sn) (tickUpper sn)"
  "x_outSince (ctx_of c st sn now nowMs prev t d) =
     out_since c sn prev (rangeSide (of_int t) (tickLower sn) (tickUpper sn)) now"
  by (simp_all add: ctx_of_def Let_def)

lemma outcome_weaken: "outcome i now P s r \<Longrightarrow> (\<And>p. P p \<Longrightarrow> Q p) \<Longrightarrow> outcome i now Q s r"
  by (auto simp: outcome_def split: sum.splits)

lemma check_strategy_outcome:
  "(\<exists>e. check_strategy env c st found now nowMs s = Inl (e, s)) \<or>
   (\<exists>sn d. found = Some (Inr sn) \<and> \<not> position_changed c sn (monitorState (cfg_id c) (ps_db s)) \<and>
      recordPriceSample (cfg_id c) now (tick sn) (big_to_string (blockNumber sn)) (ps_db s) = Inr d \<and>
      outcome (cfg_id c) now
        (\<lambda>plan. \<exists>t. trigger_tick c sn now d = Some t \<and>
           clear_to_plan env (ctx_of c st sn now nowMs (monitorState (cfg_id c) (ps_db s)) t d) d plan)
        (s\<lparr>ps_db := d\<rparr>) (check_strategy env c st found now nowMs s))"
proof (cases "\<exists>sn d. found = Some (Inr sn) \<and> \<not> position_changed c sn (monitorState (cfg_id c) (ps_db s)) \<and>
    recordPriceSample (cfg_id c) now (tick sn) (big_to_string (blockNumber sn)) (ps_db s) = Inr d")
  case False
  then have "\<exists>e. check_strategy env c st found now nowMs s = Inl (e, s)"
    by (auto simp: check_strategy_def Let_def run_db_def try_db_def bindR_def split: option.splits sum.splits)
  then show ?thesis ..
next
  case True
  then obtain sn d where f: "found = Some (Inr sn)" "\<not> position_changed c sn (monitorState (cfg_id c) (ps_db s))"
    "recordPriceSample (cfg_id c) now (tick sn) (big_to_string (blockNumber sn)) (ps_db s) = Inr d" by blast
  let ?s = "s\<lparr>ps_db := d\<rparr>" and ?x = "\<lambda>t. ctx_of c st sn now nowMs (monitorState (cfg_id c) (ps_db s)) t d"
  let ?P = "\<lambda>plan. \<exists>t. trigger_tick c sn now d = Some t \<and> clear_to_plan env (?x t) d plan"
  have run: "outcome (cfg_id c) now ?P ?s (market_phase env (?x t) ?s)" if "trigger_tick c sn now d = Some t" for t
    using outcome_weaken [OF market_phase_outcome [of "?x t" "cfg_id c" now env ?s]] that by simp
  have wait: "outcome (cfg_id c) now ?P ?s (bindR (save (?x t) row ?s) (\<lambda>(_, s). Inr ((), set_state (?x t) z s)))" for t row z
    by (rule wait_outcome) (auto intro!: quiet_intros simp del: set_state_db)
  have "outcome (cfg_id c) now ?P ?s (check_strategy env c st found now nowMs s)"
    using f run wait
    by (auto simp: check_strategy_def trigger_tick_def Let_def run_db_def try_db_def simp del: set_state_db
        split: option.splits if_splits)
  with f show ?thesis by blast
qed

section \<open>What one strategy's pass leaves alone\<close>

text \<open>
  \<open>confined I\<close>: planned jobs of the strategies \<open>I\<close> are appended, their own rows may change, and
  what the runner and the accounting keep does not.
\<close>

definition confined :: "string set \<Rightarrow> db \<Rightarrow> db \<Rightarrow> bool" where
  "confined I d d' \<longleftrightarrow>
     (\<exists>js. jobs d' = jobs d @ js \<and>
        (\<forall>j \<in> set js. job_state j = Planned \<and> job_strategy_id j \<in> I \<and> (\<exists>p. job_plan j = PlanPayload p))) \<and>
     (one_open_job_per_strategy (jobs d) \<longrightarrow> one_open_job_per_strategy (jobs d')) \<and>
     cycles d' = cycles d \<and> ledger d' = ledger d \<and> job_transactions d' = job_transactions d \<and>
     turnover d' = turnover d \<and>
     filter (\<lambda>r. mo_strategy_id r \<notin> I) (monitors d') = filter (\<lambda>r. mo_strategy_id r \<notin> I) (monitors d) \<and>
     filter (\<lambda>r. st_id r \<notin> I) (strategies d') = filter (\<lambda>r. st_id r \<notin> I) (strategies d)"

lemma confined_trans: "confined I d e \<Longrightarrow> confined I e f \<Longrightarrow> confined I d f"
  unfolding confined_def by (elim conjE exE) (intro conjI; (auto; fail)?)

lemma confined_refl [simp]: "confined I d d"
  by (simp add: confined_def)

lemma filter_notin:
  assumes "i \<in> I" and "filter (\<lambda>r. key r \<noteq> i) t = filter (\<lambda>r. key r \<noteq> i) u"
  shows "filter (\<lambda>r. key r \<notin> I) t = filter (\<lambda>r. key r \<notin> I) u"
proof -
  have "filter (\<lambda>r. key r \<notin> I) v = filter (\<lambda>r. key r \<notin> I) (filter (\<lambda>r. key r \<noteq> i) v)" for v
    using assms(1) by (induction v) auto
  then show ?thesis using assms(2) by metis
qed

lemma quiet_confined:
  assumes "quiet i d e" and "i \<in> I"
  shows "confined I d e"
  using assms(1) filter_notin [OF assms(2), of mo_strategy_id] filter_notin [OF assms(2), of st_id]
  by (auto simp: confined_def quiet_fields [OF assms(1)] quiet_def)

lemma created_confined:
  assumes "createPlannedJob plan now d = Inr (True, e)" and "plan_strategyId plan \<in> I"
  shows "confined I d e \<and> jobs e = jobs d @ [new_job (plan_id plan) (plan_strategyId plan) (PlanPayload plan) Planned now]"
proof -
  have "create_job_tx (plan_id plan) (plan_strategyId plan) (PlanPayload plan) Planned
      (map (\<lambda>s. (step_index s, step_kind_name (step_kind s))) (steps plan)) now d = Inr e"
    using assms(1) by (auto simp: createPlannedJob_def catch_job_def split: sum.splits if_splits)
  from create_job_tx_Inr [OF this] assms(2) show ?thesis by (auto simp: confined_def new_job_def)
qed

lemma planned_confined:
  assumes "planned i now plan d d'" and "plan_strategyId plan = i"
  shows "confined {i} d d' \<and> jobs d' = jobs d @ [new_job (plan_id plan) i (PlanPayload plan) Planned now]"
proof -
  obtain e e' where e: "quiet i d e" "createPlannedJob plan now e = Inr (True, e')" "quiet i e' d'"
    using assms(1) by (auto simp: planned_def)
  have "confined {i} d e" "confined {i} e' d'" using e(1,3) quiet_confined by blast+
  moreover have "confined {i} e e' \<and> jobs e' = jobs e @ [new_job (plan_id plan) i (PlanPayload plan) Planned now]"
    using created_confined [OF e(2), of "{i}"] assms(2) by simp
  ultimately show ?thesis
    using confined_trans quiet_fields(1) [OF e(1)] quiet_fields(1) [OF e(3)] by metis
qed

lemma sample_confined:
  "recordPriceSample i now tk blk d = Inr e \<Longrightarrow> confined I d e \<and> jobs e = jobs d \<and> strategies e = strategies d"
  by (auto simp: recordPriceSample_def fk_def confined_def split: if_splits)

lemma retry_later_quiet: "quiet i (ps_db s) (ps_db (retry_later i det now nowMs s))"
  using quiet_trans [OF quiet_state quiet_audit] by (simp add: retry_later_def update_db_def Let_def split: prod.split)

lemma monitor_failed_quiet: "quiet (cfg_id c) (ps_db s) (ps_db (monitor_failed c e now nowMs s))"
  by (simp add: monitor_failed_def Let_def retry_later_quiet)

text \<open>What a pass over one strategy may do, the failing passes included.\<close>

lemma monitor_strategy_cases:
  fixes s :: "'w pass" and env c st found now nowMs
  defines "s' \<equiv> monitor_strategy env c st found now nowMs s"
  obtains (quiet) "confined {cfg_id c} (ps_db s) (ps_db s')" and "jobs (ps_db s') = jobs (ps_db s)"
  | (plan) sn d t plan where "found = Some (Inr sn)"
      and "recordPriceSample (cfg_id c) now (tick sn) (big_to_string (blockNumber sn)) (ps_db s) = Inr d"
      and "trigger_tick c sn now d = Some t"
      and "clear_to_plan env (ctx_of c st sn now nowMs (monitorState (cfg_id c) (ps_db s)) t d) d plan"
      and "confined {cfg_id c} (ps_db s) (ps_db s')"
      and "jobs (ps_db s') = jobs (ps_db s) @ [new_job (plan_id plan) (cfg_id c) (PlanPayload plan) Planned now]"
proof -
  have failed: thesis if "confined {cfg_id c} (ps_db s) (ps_db r)" "jobs (ps_db r) = jobs (ps_db s)"
    "check_strategy env c st found now nowMs s = Inl (e, r)" for e r
  proof -
    have s': "s' = monitor_failed c e now nowMs r" using that(3) by (simp add: s'_def monitor_strategy_def)
    note q = monitor_failed_quiet [of c r e now nowMs, folded s']
    show thesis
      using quiet [OF confined_trans [OF that(1) quiet_confined [OF q singletonI]]] that(2) quiet_fields(1) [OF q] by simp
  qed
  show thesis
    using check_strategy_outcome [of env c st found now nowMs s]
  proof (elim disjE exE conjE)
    fix e assume "check_strategy env c st found now nowMs s = Inl (e, s)"
    then show thesis by (rule failed [rotated 2]) simp_all
  next
    fix sn d
    let ?P = "\<lambda>plan. \<exists>t. trigger_tick c sn now d = Some t \<and>
        clear_to_plan env (ctx_of c st sn now nowMs (monitorState (cfg_id c) (ps_db s)) t d) d plan"
    assume f: "found = Some (Inr sn)"
      and r: "recordPriceSample (cfg_id c) now (tick sn) (big_to_string (blockNumber sn)) (ps_db s) = Inr d"
      and o: "outcome (cfg_id c) now ?P (s\<lparr>ps_db := d\<rparr>) (check_strategy env c st found now nowMs s)"
    note sample = sample_confined [OF r, of "{cfg_id c}"]
    have after: "confined {cfg_id c} (ps_db s) e \<and> jobs e = jobs (ps_db s)" if "quiet (cfg_id c) d e" for e
      using sample that quiet_confined [OF that, of "{cfg_id c}"] confined_trans quiet_fields(1) [OF that] by auto
    show thesis
    proof (cases "check_strategy env c st found now nowMs s")
      case (Inl y)
      then show thesis using o after failed by (cases y) (auto simp: outcome_def)
    next
      case (Inr y)
      then obtain r' where y: "y = ((), r')" and s': "s' = r'"
        by (cases y) (auto simp: s'_def monitor_strategy_def)
      consider "quiet (cfg_id c) d (ps_db r')" | p where "?P p" "planned (cfg_id c) now p d (ps_db r')"
        using o Inr y by (auto simp: outcome_def)
      then show thesis
      proof cases
        case 1
        then show thesis using after quiet s' by blast
      next
        case (2 p)
        then obtain t where t: "trigger_tick c sn now d = Some t"
          "clear_to_plan env (ctx_of c st sn now nowMs (monitorState (cfg_id c) (ps_db s)) t d) d p" by blast
        then have "plan_strategyId p = cfg_id c" by (simp add: clear_to_plan_def)
        from planned_confined [OF 2(2) this] sample show thesis
          using plan [OF f r t] s' confined_trans by metis
      qed
    qed
  qed
qed

section \<open>Properties\<close>

lemma out_since_Some: "side \<noteq> SideIn \<Longrightarrow> \<exists>z. out_since c sn prev side now = Some z"
  by (simp add: out_since_def split: option.split)

lemma crossing_facts:
  assumes "crossing_clear env x d t" and "x = ctx_of c st sn now nowMs prev tk d'" and "t = Lower \<or> t = Upper"
  shows "\<exists>p since. p = (if t = Lower then lower (boundary c) else upper (boundary c)) \<and>
     x_side x = (if t = Lower then SideLower else SideUpper) \<and>
     condition p = Always \<and> action p \<noteq> PauseAction \<and> econ_clear env x (action p) \<and>
     x_outSince x = Some since \<and> (since \<noteq> 0 \<and> 0 < confirmation_of x \<longrightarrow> since + confirmation_of x \<le> now) \<and>
     (\<forall>until. cooldown_of x d = Some until \<and> until \<noteq> 0 \<longrightarrow> until \<le> now)"
proof -
  obtain act where dec: "decideBoundaryTrigger (boundary_of x (cooldown_of x d)) = ExecuteTrigger t act (x_now x)"
    and econ: "econ_clear env x act"
    using assms(1) by (auto simp: crossing_clear_def)
  have side: "x_side x = (if t = Lower then SideLower else SideUpper)"
    using executed_side [OF dec] assms(2,3) by (auto simp: boundary_of_def)
  obtain since where since: "x_outSince x = Some since"
    using side assms(2,3) out_since_Some [of "x_side x" c sn prev now] by (auto split: if_splits)
  let ?p = "if t = Lower then lower (boundary c) else upper (boundary c)"
  have r: "rangeSide (of_int tk) (tickLower sn) (tickUpper sn) = (if t = Lower then SideLower else SideUpper)"
    using side assms(2) by simp
  have facts: "condition ?p \<noteq> ManualConfirm \<and> condition ?p \<noteq> FeeBreakEven \<and> action ?p \<noteq> PauseAction \<and> act = action ?p \<and>
      \<not> (confirmation_of x > 0 \<and> truthy (x_outSince x) \<and> now - the (x_outSince x) < confirmation_of x) \<and>
      \<not> (truthy (cooldown_of x d) \<and> now < the (cooldown_of x d))"
    using dec r assms(2,3) by (auto simp: boundary_of_def decideBoundaryTrigger_def Let_def split: if_splits)
  then have "condition ?p = Always" by (cases "condition ?p") simp_all
  with facts side since econ show ?thesis by (auto simp: truthy_def)
qed

text \<open>
  C3. The monitor plans only when every guard is clear.  A job that one pass over a strategy
  adds is one planned job of that strategy, made from the snapshot of the pass, with the market
  guard clear: its samples cover the window, the metrics are within their limits, and after a
  trip the market has been stable for as long as configured.  A rebalance of a crossing is
  planned only on the side that the trigger tick is on, for a boundary whose condition needs
  no one and whose action is not a pause, when the crossing is confirmed, the cooldown over, no
  burst under way or starting, neither cap saturated, and the economics gate passed.  A
  contraction or a fee collection is planned only in range.
\<close>

theorem monitor_plans_only_when_clear:
  assumes "j \<in> set (jobs (ps_db (monitor_strategy env c st found now nowMs s)))" and "j \<notin> set (jobs (ps_db s))"
  shows "\<exists>sn d t plan x. found = Some (Inr sn) \<and>
     recordPriceSample (cfg_id c) now (tick sn) (big_to_string (blockNumber sn)) (ps_db s) = Inr d \<and>
     trigger_tick c sn now d = Some t \<and>
     x = ctx_of c st sn now nowMs (monitorState (cfg_id c) (ps_db s)) t d \<and>
     job_plan j = PlanPayload plan \<and> job_strategy_id j = cfg_id c \<and> job_state j = Planned \<and>
     snapshot plan = sn \<and> \<not> manualExecution plan \<and> market_clear env x d \<and>
     (triggerSide plan = Manual \<longrightarrow> plan_action plan = CollectFees \<and> x_side x = SideIn) \<and>
     (triggerSide plan = AdaptiveContraction \<longrightarrow> contraction_due x \<and> x_side x = SideIn) \<and>
     (triggerSide plan = Lower \<or> triggerSide plan = Upper \<longrightarrow>
        (\<exists>p since. p = (if triggerSide plan = Lower then lower (boundary c) else upper (boundary c)) \<and>
           x_side x = (if triggerSide plan = Lower then SideLower else SideUpper) \<and>
           condition p = Always \<and> action p \<noteq> PauseAction \<and> econ_clear env x (action p) \<and>
           x_outSince x = Some since \<and> (since \<noteq> 0 \<and> 0 < confirmation_of x \<longrightarrow> since + confirmation_of x \<le> now) \<and>
           (\<forall>until. cooldown_of x d = Some until \<and> until \<noteq> 0 \<longrightarrow> until \<le> now)) \<and>
        burst_clear x d \<and> daily_wait x d = None \<and> lower_wait x (triggerSide plan) d = None)"
proof (cases rule: monitor_strategy_cases [of c s env st found now nowMs])
  case quiet
  then show ?thesis using assms by simp
next
  case (plan sn d t plan)
  let ?x = "ctx_of c st sn now nowMs (monitorState (cfg_id c) (ps_db s)) t d"
  have j: "j = new_job (plan_id plan) (cfg_id c) (PlanPayload plan) Planned now" using plan(6) assms by auto
  have crossing: "crossing_clear env ?x d (triggerSide plan)" if "triggerSide plan = Lower \<or> triggerSide plan = Upper"
    using plan(4) that by (auto simp: clear_to_plan_def)
  show ?thesis
    using plan(1-4) crossing crossing_facts [OF crossing refl]
    by (intro exI [of _ sn] exI [of _ d] exI [of _ t] exI [of _ plan] exI [of _ ?x])
      (cases "triggerSide plan"; simp add: j new_job_def clear_to_plan_def crossing_clear_def contraction_due_def)
qed

text \<open>A crossing below the range since second 900, with the safeguards off.\<close>

definition crossed_db :: db where
  "crossed_db = sample_db\<lparr>monitors := [\<lparr>mo_strategy_id = ''s1'', mo_revision = 1, mo_out_side = Some ''lower'',
     mo_out_since = Some 900, mo_cooldown_until = None, mo_guard_reason = None, mo_guard_stable_since = None,
     mo_burst_wait_until = None, mo_burst_reset_at = None, mo_econ_wait_until = None, mo_econ_fees_quote = None,
     mo_econ_cost_quote = None, mo_last_tick = Some (-660), mo_last_liquidity = None, mo_last_token_id = Some ''7'',
     mo_updated = 990\<rparr>]\<rparr>"

definition crossed_env :: "unit monitor_env" where
  "crossed_env = \<lparr>me_plan = flat_env, me_bps = (\<lambda>a b. 0), me_parseUnits = (\<lambda>t d. Inr 0),
     me_collectable = (\<lambda>c w. (Inr (0, 0), w)), me_performance = (\<lambda>c st w. (Inl (JsError ''E''), w)),
     me_cachedPerformance = (\<lambda>c st w. (Inl (JsError ''E''), w)), me_minSeconds = 15\<rparr>"

definition crossed_pass :: "unit pass" where
  "crossed_pass = \<lparr>ps_db = crossed_db, ps_maps = \<lparr>rm_attempts = [], rm_retryAt = []\<rparr>, ps_world = ()\<rparr>"

definition crossed_plan :: execution_plan where
  "crossed_plan = plan_of flat_env fixed_config below_snapshot 1000 Lower False (Boundary Recenter)
     \<lparr>tr_lower = -1200, tr_upper = -60, quotes = []\<rparr> 1
     (rebalance_steps fixed_config below_snapshot (-1200) (-60) (0, 0))"

lemma crossed_plan_made: "makeRebalancePlan flat_env fixed_config below_snapshot 1000 (Some Lower) False (Some 1) = Inr crossed_plan"
proof -
  have a: "assertSnapshot fixed_config below_snapshot = Inr ()"
    by (simp add: assertSnapshot_def sample_simps same_def staked_strategy_def hasRiskQuote_def snapshot_amount_def)
  have r: "plan_range (pe_math flat_env) fixed_config below_snapshot Recenter sc =
      Inr \<lparr>tr_lower = -1200, tr_upper = -60, quotes = []\<rparr>" for sc
    by (simp add: plan_range_def fixedTickRange_def sample_simps MIN_TICK_def MAX_TICK_def Let_def split_beta
        signed_modulo_int_def)
  have m: "plan_mins fixed_config below_snapshot = Inr (0, 0)"
    by (simp add: plan_mins_def snapshot_amount_def sample_simps)
  have p: "plan_policy fixed_config Lower = \<lparr>condition = Always, action = Recenter\<rparr>"
    by (simp add: plan_policy_def sample_simps)
  have s: "staking_steps w fixed_config below_snapshot Recenter = []" for w
    by (simp add: staking_steps_def staked_strategy_def sample_simps)
  have f: "mode (range fixed_config) = FixedTicks" by (simp add: sample_simps)
  have "\<not> 1000 - observedAt below_snapshot > maxPlanAgeSeconds (safeguards fixed_config)" by (simp add: sample_simps)
  then show ?thesis by (simp add: makeRebalancePlan_def plan_side_def a r m p s f Let_def crossed_plan_def)
qed

lemma crossed_plan_steps:
  "map (\<lambda>s. (step_index s, step_kind_name (step_kind s))) (steps crossed_plan) =
     [(0, ''precheck''), (1, ''decrease''), (2, ''collect''), (3, ''burn''), (4, ''approve_swap''), (5, ''swap''),
      (6, ''approve0''), (7, ''approve1''), (8, ''mint''), (9, ''revoke0''), (10, ''revoke1''), (11, ''commit'')]"
  "plan_strategyId crossed_plan = ''s1''"
  by (simp_all add: crossed_plan_def plan_of_def rebalance_steps_def precheck_step_def mk_step_def Let_def sample_simps)

lemma insert_steps_succeed:
  "job_exists i d \<Longrightarrow> distinct (map fst stps) \<Longrightarrow> \<forall>r \<in> set (job_steps d). sr_job_id r \<noteq> i \<or> sr_index r \<notin> fst ` set stps \<Longrightarrow>
     foldR (insert_step i) stps d = Inr (d\<lparr>job_steps := job_steps d @ map (new_step i) stps\<rparr>)"
proof (induction stps arbitrary: d)
  case (Cons x stps)
  have one: "insert_step i x d = Inr (d\<lparr>job_steps := job_steps d @ [new_step i x]\<rparr>)"
    using Cons.prems by (auto simp: insert_step_def fk_def insert_row_def step_key_def new_step_def list_ex_iff)
  have "foldR (insert_step i) stps (d\<lparr>job_steps := job_steps d @ [new_step i x]\<rparr>) =
      Inr (d\<lparr>job_steps := (job_steps d @ [new_step i x]) @ map (new_step i) stps\<rparr>)"
    using Cons.IH [of "d\<lparr>job_steps := job_steps d @ [new_step i x]\<rparr>"] Cons.prems
    by (auto simp: new_step_def job_exists_def)
  then show ?case by (simp add: one)
qed simp

lemma crossed_job:
  "\<exists>e. createPlannedJob crossed_plan 1000 (sample_db\<lparr>monitors := m, prices := p\<rparr>) = Inr (True, e)"
proof -
  let ?d = "sample_db\<lparr>monitors := m, prices := p\<rparr>" and ?j = "new_job (plan_id crossed_plan) ''s1'' (PlanPayload crossed_plan) Planned 1000"
  have i: "insert_job ?j ?d = Inr (?d\<lparr>jobs := [?j]\<rparr>)"
    by (simp add: insert_job_def fk_def insert_row_def write_jobs_def sample_db_def empty_db_def sample_strategy_def
        strategy_exists_def exists_where_def new_job_def one_open_job_per_strategy_def)
  have "create_job_tx (plan_id crossed_plan) ''s1'' (PlanPayload crossed_plan) Planned
      (map (\<lambda>s. (step_index s, step_kind_name (step_kind s))) (steps crossed_plan)) 1000 ?d =
    foldR (insert_step (plan_id crossed_plan)) (map (\<lambda>s. (step_index s, step_kind_name (step_kind s))) (steps crossed_plan))
      (?d\<lparr>jobs := [?j]\<rparr>)"
    using i by (simp add: create_job_tx_def sample_db_def sample_strategy_def empty_db_def get_where_def
        walletHasUnfinishedMutation_def wallet_fables_open_def exists_where_def)
  moreover have "\<exists>e. foldR (insert_step (plan_id crossed_plan)) (map (\<lambda>s. (step_index s, step_kind_name (step_kind s)))
      (steps crossed_plan)) (?d\<lparr>jobs := [?j]\<rparr>) = Inr e"
    unfolding crossed_plan_steps
    by (subst insert_steps_succeed) (simp_all add: job_exists_def exists_where_def new_job_def sample_db_def empty_db_def)
  ultimately show ?thesis by (auto simp: createPlannedJob_def catch_job_def crossed_plan_steps(2))
qed

lemma fixed_facts:
  "cfg_id fixed_config = ''s1''" "revision fixed_config = 1" "source (trigger fixed_config) = Spot"
  "safeguards_enabled (safeguards fixed_config) = False" "confirmationSeconds (trigger fixed_config) = 60"
  "mode (range fixed_config) = FixedTicks" "lower (boundary fixed_config) = sample_policy"
  "tokenId below_snapshot = ''7''" "tick below_snapshot = - 660" "tickLower below_snapshot = - 600"
  "tickUpper below_snapshot = 600"
  by (simp_all add: fixed_config_def sample_config_def sample_safeguards_def below_snapshot_def sample_snapshot_def)

lemma crossed_runs:
  assumes x: "x_config x = fixed_config" "x_snap x = below_snapshot" "x_now x = 1000" "x_side x = SideLower"
    "x_outSince x = Some 900" "x_latestRange x = None" "x_triggerTick x = - 660"
    and db: "ps_db s = sample_db\<lparr>monitors := m, prices := p\<rparr>"
  shows "\<exists>r. market_phase crossed_env x s = Inr ((), r) \<and> jobs (ps_db r) \<noteq> []"
proof -
  have off: "enabled_limit x f = None" for f by (simp add: enabled_limit_def x fixed_facts Let_def)
  have create: "\<exists>r'. create_plan x crossed_plan act det r = Inr ((), r') \<and> jobs (ps_db r') \<noteq> []"
    if db': "ps_db r = sample_db\<lparr>monitors := m', prices := p\<rparr>" for act det and r :: "unit pass" and m'
  proof -
    obtain e where e: "createPlannedJob crossed_plan 1000 (ps_db r) = Inr (True, e)"
      using crossed_job [of p m', folded db'] by blast
    then have "jobs e \<noteq> []" using created_confined [OF e, of UNIV] by simp
    then show ?thesis
      using e by (simp add: create_plan_def try_db_def x monitor_audit_def update_db_def setStrategyState_def audit_def)
  qed
  have exec: "\<exists>r'. execute_boundary crossed_env x Lower r = Inr ((), r') \<and> jobs (ps_db r') \<noteq> []"
    if "ps_db r = sample_db\<lparr>monitors := m', prices := p\<rparr>" for r :: "unit pass" and m'
    using create [OF that]
    by (simp add: execute_boundary_def x Let_def pure_step_def crossed_plan_made crossed_env_def)
  have cycles: "cycles (sample_db\<lparr>monitors := m', prices := p\<rparr>) = []" for m' by (simp add: sample_db_def empty_db_def)
  have cool: "cooldown_of x (ps_db s) = None"
    by (simp add: cooldown_of_def db latestCompletedCycleAt_def max_where_def cycles Let_def truthy_def)
  have dec: "decideBoundaryTrigger (boundary_of x None) = ExecuteTrigger Lower Recenter 1000"
    by (simp add: decideBoundaryTrigger_def boundary_of_def x fixed_facts rangeSide_def confirmation_of_def off
        truthy_def sample_policy_def Let_def)
  have exists: "strategy_exists ''s1'' (sample_db\<lparr>monitors := m, prices := p\<rparr>)"
    by (simp add: strategy_exists_def exists_where_def sample_db_def sample_strategy_def)
  define m' where "m' = upsert mo_strategy_id (\<lambda>_. decision_row x None\<lparr>mo_strategy_id := ''s1'', mo_updated := 1000\<rparr>)
      (decision_row x None\<lparr>mo_strategy_id := ''s1'', mo_updated := 1000\<rparr>) m"
  have saved: "save x (decision_row x None) s = Inr ((), s\<lparr>ps_db := sample_db\<lparr>monitors := m', prices := p\<rparr>\<rparr>)"
    using exists by (simp add: save_def run_db_def try_db_def updateMonitorState_def fk_def Let_def db x fixed_facts m'_def)
  have cool': "cooldown_of x (sample_db\<lparr>monitors := m', prices := p\<rparr>) = None"
    by (simp add: cooldown_of_def latestCompletedCycleAt_def max_where_def cycles Let_def truthy_def)
  have "\<exists>r. boundary_phase crossed_env x s = Inr ((), r) \<and> jobs (ps_db r) \<noteq> []"
    using exec [of "s\<lparr>ps_db := sample_db\<lparr>monitors := m', prices := p\<rparr>\<rparr>" m']
    by (simp add: boundary_phase_def cool dec Let_def saved burst_phase_def burst_limits_def off caps_phase_def
        daily_wait_def lower_wait_def economics_phase_def gate_coverage_def fixed_facts x)
  then show ?thesis
    by (simp add: market_phase_def market_window_def off contraction_phase_def x fee_phase_def Let_def)
qed

theorem monitor_plans_only_when_clear_witness:
  "\<exists>j plan. j \<in> set (jobs (ps_db (monitor_strategy crossed_env fixed_config ''monitoring''
       (Some (Inr below_snapshot)) 1000 1000000 crossed_pass))) \<and> job_plan j = PlanPayload plan \<and>
     job_strategy_id j = ''s1'' \<and> snapshot plan = below_snapshot"
proof -
  let ?prev = "monitorState ''s1'' (ps_db crossed_pass)"
  have prev: "?prev = Some (hd (monitors crossed_db))"
    by (simp add: monitorState_def get_where_def crossed_pass_def crossed_db_def)
  have same: "\<not> position_changed fixed_config below_snapshot ?prev"
    by (simp add: prev position_changed_def crossed_db_def)
  obtain p where p: "recordPriceSample ''s1'' 1000 (- 660) b (ps_db crossed_pass) =
      Inr (sample_db\<lparr>monitors := monitors crossed_db, prices := p b\<rparr>)" for b
    by (simp add: recordPriceSample_def fk_def crossed_pass_def crossed_db_def strategy_exists_def exists_where_def
        sample_db_def sample_strategy_def)
  let ?d = "\<lambda>b. sample_db\<lparr>monitors := monitors crossed_db, prices := p b\<rparr>"
  let ?x = "\<lambda>b. ctx_of fixed_config ''monitoring'' below_snapshot 1000 1000000 ?prev (- 660) (?d b)"
  have "\<exists>r. market_phase crossed_env (?x b) (crossed_pass\<lparr>ps_db := ?d b\<rparr>) = Inr ((), r) \<and> jobs (ps_db r) \<noteq> []" for b
  proof (rule crossed_runs)
    show "x_latestRange (?x b) = None"
      by (simp add: ctx_of_def Let_def latestCompletedCycleRange_def sample_db_def empty_db_def max_by_def select_where_def)
    show "x_outSince (?x b) = Some 900"
      by (simp add: out_since_def prev reset_clock_def crossed_db_def fixed_facts rangeSide_def side_name_def)
  qed (simp_all add: fixed_facts rangeSide_def)
  then have "\<exists>r. check_strategy crossed_env fixed_config ''monitoring'' (Some (Inr below_snapshot)) 1000 1000000 crossed_pass =
      Inr ((), r) \<and> jobs (ps_db r) \<noteq> []"
    using same by (simp add: check_strategy_def fixed_facts p run_db_def try_db_def Let_def)
  then obtain r where r: "check_strategy crossed_env fixed_config ''monitoring'' (Some (Inr below_snapshot)) 1000 1000000
      crossed_pass = Inr ((), r)" "jobs (ps_db r) \<noteq> []" by blast
  then obtain j where "j \<in> set (jobs (ps_db (monitor_strategy crossed_env fixed_config ''monitoring''
       (Some (Inr below_snapshot)) 1000 1000000 crossed_pass)))"
    by (cases "jobs (ps_db r)") (auto simp: monitor_strategy_def)
  moreover have "j \<notin> set (jobs (ps_db crossed_pass))" by (simp add: crossed_pass_def crossed_db_def sample_db_def empty_db_def)
  ultimately show ?thesis
    using monitor_plans_only_when_clear [of j crossed_env fixed_config "''monitoring''" "Some (Inr below_snapshot)" 1000
        1000000 crossed_pass] fixed_facts(1) by auto
qed

section \<open>A whole pass\<close>

definition polled ::
  "'w monitor_io \<Rightarrow> bool \<Rightarrow> int \<Rightarrow> 'w monitor \<Rightarrow> (strategy_config \<times> string \<times> int) list \<Rightarrow> string \<Rightarrow> bool" where
  "polled io ign nowMs mon rows i \<longleftrightarrow>
     \<not> mon_running mon \<and> \<not> executorPaused (ps_db (mon_pass mon)) \<and>
     enabledExecutorStrategies (io_collate io) (io_parse io) (ps_db (mon_pass mon)) = Inr rows \<and>
     (\<exists>c st u. (c, st, u) \<in> set rows \<and> cfg_id c = i \<and> (ign \<or> nowMs \<ge> rec_or 0 (mon_next mon) i) \<and>
        strategyRetryReady i nowMs (ps_maps (mon_pass mon)))"

lemma filter_superset:
  assumes "I \<subseteq> J" and "filter (\<lambda>r. key r \<notin> I) t = filter (\<lambda>r. key r \<notin> I) u"
  shows "filter (\<lambda>r. key r \<notin> J) t = filter (\<lambda>r. key r \<notin> J) u"
proof -
  have "filter (\<lambda>r. key r \<notin> J) v = filter (\<lambda>r. key r \<notin> J) (filter (\<lambda>r. key r \<notin> I) v)" for v
    using assms(1) by (induction v) auto
  then show ?thesis using assms(2) by metis
qed

lemma confined_mono: "confined I d e \<Longrightarrow> I \<subseteq> J \<Longrightarrow> confined J d e"
  using filter_superset [of I J mo_strategy_id] filter_superset [of I J st_id]
  unfolding confined_def by (elim conjE exE) (intro conjI; blast)

lemma monitor_strategy_confined: "confined {cfg_id c} (ps_db s) (ps_db (monitor_strategy env c st found now nowMs s))"
  by (cases rule: monitor_strategy_cases [of c s env st found now nowMs])

lemma fold_confined:
  assumes "\<And>x s. x \<in> set xs \<Longrightarrow> confined I (ps_db s) (ps_db (f s x))"
  shows "confined I (ps_db s) (ps_db (foldl f s xs))"
  using assms
proof (induction xs arbitrary: s)
  case (Cons x xs)
  have "confined I (ps_db s) (ps_db (f s x))" using Cons.prems by simp
  moreover have "confined I (ps_db (f s x)) (ps_db (foldl f (f s x) xs))" using Cons by simp
  ultimately show ?case using confined_trans by simp
qed simp

lemma retry_later_confined: "i \<in> I \<Longrightarrow> confined I (ps_db s) (ps_db (retry_later i det now nowMs s))"
  using quiet_confined retry_later_quiet by blast

lemma call_same_db:
  "call f s = Inl (e, s') \<Longrightarrow> ps_db s' = ps_db s" "call f s = Inr (x, s') \<Longrightarrow> ps_db s' = ps_db s"
  by (cases "f (ps_world s)"; auto simp: call_def Let_def split: sum.splits)+

lemma monitorOnce_confined:
  assumes run: "monitorOnce env io ign now nowMs mon = (err, mon')"
    and I: "\<And>rows i. polled io ign nowMs mon rows i \<Longrightarrow> i \<in> I"
  shows "mon_running mon' = mon_running mon \<and> confined I (ps_db (mon_pass mon)) (ps_db (mon_pass mon'))"
proof (cases "mon_running mon \<or> executorPaused (ps_db (mon_pass mon))")
  case True
  then show ?thesis using run by (simp add: monitorOnce_def Let_def split: if_splits)
next
  case off: False
  show ?thesis
  proof (cases "enabledExecutorStrategies (io_collate io) (io_parse io) (ps_db (mon_pass mon))")
    case (Inl e)
    then show ?thesis using run off by (simp add: monitorOnce_def Let_def)
  next
    case (Inr rows)
    let ?s = "mon_pass mon"
    define due where "due = filter (\<lambda>(c, _). ign \<or> nowMs \<ge> rec_or 0 (mon_next mon) (cfg_id c)) rows"
    define ready where "ready = filter (\<lambda>(c, _). strategyRetryReady (cfg_id c) nowMs (ps_maps ?s)) due"
    have mem: "cfg_id c \<in> I" if "(c, st, u) \<in> set ready" for c st u
      using that off Inr by (intro I [of rows]) (auto simp: ready_def due_def polled_def)
    have later: "confined I (ps_db ?s) (ps_db (foldl (\<lambda>s (c, _). retry_later (cfg_id c) det now nowMs s) r ready))"
      if "ps_db r = ps_db ?s" for r :: "'a pass" and det
      unfolding that [symmetric] by (rule fold_confined) (auto intro: retry_later_confined mem)
    have each: "confined I (ps_db ?s) (ps_db (foldl (\<lambda>s (c, st, _).
        monitor_strategy env c st (snaps (cfg_id c)) now nowMs s) r ready))"
      if "ps_db r = ps_db ?s" for r :: "'a pass" and snaps
      unfolding that [symmetric] by (rule fold_confined) (auto intro!: confined_mono [OF monitor_strategy_confined] mem)
    show ?thesis
      using run off Inr
      by (auto simp: monitorOnce_def Let_def due_def [symmetric] ready_def [symmetric] dest!: call_same_db
          intro!: later each split: sum.splits if_splits prod.splits)
  qed
qed

text \<open>
  C9. A pass of the monitor touches only the strategies it polls, and plans at most one job for
  each.  Whatever the chain, the valuations and the quotes answer, and whatever one strategy
  throws, the pass appends only planned jobs of strategies that were due and ready to retry,
  leaves cycles, ledger, transactions and turnover reservations as they were and the guard
  rows and states of every other strategy too; with at most one open job per strategy before,
  none of the new jobs joins an open job of its strategy, nor another new one.  The pass is
  not left marked as running.
\<close>

theorem monitor_pass_confined:
  assumes "monitorOnce env io ign now nowMs mon = (err, mon')"
  shows "mon_running mon' = mon_running mon \<and>
     (\<exists>js. jobs (ps_db (mon_pass mon')) = jobs (ps_db (mon_pass mon)) @ js \<and>
        (\<forall>j \<in> set js. job_state j = Planned \<and> (\<exists>rows. polled io ign nowMs mon rows (job_strategy_id j))) \<and>
        (one_open_job_per_strategy (jobs (ps_db (mon_pass mon))) \<longrightarrow> distinct (map job_strategy_id js) \<and>
           (\<forall>j \<in> set js. \<forall>k \<in> set (jobs (ps_db (mon_pass mon))).
              is_open (job_state k) \<longrightarrow> job_strategy_id k \<noteq> job_strategy_id j))) \<and>
     cycles (ps_db (mon_pass mon')) = cycles (ps_db (mon_pass mon)) \<and>
     ledger (ps_db (mon_pass mon')) = ledger (ps_db (mon_pass mon)) \<and>
     job_transactions (ps_db (mon_pass mon')) = job_transactions (ps_db (mon_pass mon)) \<and>
     turnover (ps_db (mon_pass mon')) = turnover (ps_db (mon_pass mon)) \<and>
     (\<forall>i. (\<nexists>rows. polled io ign nowMs mon rows i) \<longrightarrow>
        monitorState i (ps_db (mon_pass mon')) = monitorState i (ps_db (mon_pass mon)) \<and>
        filter (\<lambda>r. st_id r = i) (strategies (ps_db (mon_pass mon'))) =
          filter (\<lambda>r. st_id r = i) (strategies (ps_db (mon_pass mon))))"
proof -
  let ?I = "{i. \<exists>rows. polled io ign nowMs mon rows i}" and ?d = "ps_db (mon_pass mon)" and ?d' = "ps_db (mon_pass mon')"
  have c: "mon_running mon' = mon_running mon" "confined ?I ?d ?d'"
    using monitorOnce_confined [OF assms, of ?I] by blast+
  obtain js where js: "jobs ?d' = jobs ?d @ js"
    "\<forall>j \<in> set js. job_state j = Planned \<and> job_strategy_id j \<in> ?I" using c(2) by (auto simp: confined_def)
  have openjs: "filter (\<lambda>j. is_open (job_state j)) js = js"
    using js(2) by (simp add: filter_id_conv is_open_def)
  have one: "distinct (map job_strategy_id js) \<and> (\<forall>j \<in> set js. \<forall>k \<in> set (jobs ?d). is_open (job_state k) \<longrightarrow>
      job_strategy_id k \<noteq> job_strategy_id j)" if "one_open_job_per_strategy (jobs ?d)"
    using that c(2) openjs by (auto simp: confined_def js(1) one_open_job_per_strategy_def image_iff)
  have rows: "monitorState i ?d' = monitorState i ?d \<and>
      filter (\<lambda>r. st_id r = i) (strategies ?d') = filter (\<lambda>r. st_id r = i) (strategies ?d)" if "i \<notin> ?I" for i
  proof -
    have f: "find (\<lambda>r. mo_strategy_id r = i) v = find (\<lambda>r. mo_strategy_id r = i) (filter (\<lambda>r. mo_strategy_id r \<notin> ?I) v)" for v
      using that by (induction v) auto
    have "monitorState i d = find (\<lambda>r. mo_strategy_id r = i) (filter (\<lambda>r. mo_strategy_id r \<notin> ?I) (monitors d))" for d
      unfolding monitorState_def get_where_def by (rule f)
    moreover have "filter (\<lambda>r. st_id r = i) v = filter (\<lambda>r. st_id r = i) (filter (\<lambda>r. st_id r \<notin> ?I) v)" for v
      using that by (induction v) auto
    ultimately show ?thesis using c(2) unfolding confined_def by metis
  qed
  show ?thesis
    using c js one rows unfolding confined_def by blast
qed

definition dead_io :: "unit monitor_io" where
  "dead_io = \<lparr>io_collate = (\<lambda>_. 0), io_parse = Inr, io_head = (\<lambda>w. (Inl (JsError ''fetch failed''), w)),
     io_snapshots = (\<lambda>cs h w. (Inr (\<lambda>_. None), w))\<rparr>"

definition crossed_monitor :: "unit monitor" where
  "crossed_monitor = \<lparr>mon_running = False, mon_next = [], mon_pass = crossed_pass\<rparr>"

theorem monitor_pass_confined_witness:
  "cycles (ps_db (mon_pass (snd (monitorOnce crossed_env dead_io True 1000 1000000 crossed_monitor)))) = [] \<and>
   \<not> mon_running (snd (monitorOnce crossed_env dead_io True 1000 1000000 crossed_monitor))"
  using monitor_pass_confined [OF surjective_pairing, of crossed_env dead_io True 1000 1000000 crossed_monitor]
  by (simp add: crossed_monitor_def crossed_pass_def crossed_db_def sample_db_def empty_db_def)

text \<open>
  C27. A pass that throws plans nothing and comes back by itself.  Whatever the error, no job is
  added and no cycle or ledger fact written, the strategy's state is monitoring again, and it is
  deferred: it is next ready a fixed delay after the failure, between five seconds and five
  minutes, while the retry clocks of all other strategies are as they were at the throw.
\<close>

theorem monitor_failure_defers:
  assumes "check_strategy env c st found now nowMs s = Inl (e, s1)"
  shows "jobs (ps_db (monitor_strategy env c st found now nowMs s)) = jobs (ps_db s) \<and>
     cycles (ps_db (monitor_strategy env c st found now nowMs s)) = cycles (ps_db s) \<and>
     ledger (ps_db (monitor_strategy env c st found now nowMs s)) = ledger (ps_db s) \<and>
     (\<forall>r \<in> set (strategies (ps_db (monitor_strategy env c st found now nowMs s))).
        st_id r = cfg_id c \<longrightarrow> st_state r = ''monitoring'') \<and>
     (\<exists>delay. 5000 \<le> delay \<and> delay \<le> 300000 \<and>
        (\<forall>t. strategyRetryReady (cfg_id c) t (ps_maps (monitor_strategy env c st found now nowMs s)) \<longleftrightarrow> nowMs + delay \<le> t)) \<and>
     (\<forall>k t. k \<noteq> cfg_id c \<longrightarrow>
        strategyRetryReady k t (ps_maps (monitor_strategy env c st found now nowMs s)) = strategyRetryReady k t (ps_maps s1))"
proof -
  let ?s' = "monitor_strategy env c st found now nowMs s"
  have run: "?s' = monitor_failed c e now nowMs s1" using assms by (simp add: monitor_strategy_def)
  have j: "jobs (ps_db s1) = jobs (ps_db s)"
    using check_strategy_outcome [of env c st found now nowMs s] assms sample_confined
    by (fastforce simp: outcome_def dest: quiet_fields(1))
  have jobs: "jobs (ps_db ?s') = jobs (ps_db s)"
    using quiet_fields(1) [OF monitor_failed_quiet [of c s1 e now nowMs]] j by (simp add: run)
  have rest: "cycles (ps_db ?s') = cycles (ps_db s) \<and> ledger (ps_db ?s') = ledger (ps_db s)"
    using monitor_strategy_confined [of c s env st found now nowMs] by (simp add: confined_def)
  have state: "\<forall>r \<in> set (strategies (ps_db ?s')). st_id r = cfg_id c \<longrightarrow> st_state r = ''monitoring''"
    by (auto simp: run monitor_failed_def retry_later_def Let_def update_db_def audit_def setStrategyState_def
        set_update_where split: prod.splits)
  define n where "n = rec_or 0 (rm_attempts (ps_maps s1)) (cfg_id c) + 1"
  have ready: "strategyRetryReady k t (ps_maps ?s') \<longleftrightarrow>
      (if k = cfg_id c then nowMs + retry_delay_ms n \<le> t else strategyRetryReady k t (ps_maps s1))" for k t
    by (simp add: run monitor_failed_def retry_later_def Let_def update_db_def deferStrategyRetry_def
        strategyRetryReady_def n_def rec_or_def map_of_rec_set)
  have delay: "5000 \<le> retry_delay_ms n" "retry_delay_ms n \<le> 300000"
    by (simp_all add: retry_delay_ms_def)
  from ready show ?thesis
    using jobs rest state delay by auto
qed

theorem monitor_failure_defers_witness:
  "jobs (ps_db (monitor_strategy crossed_env fixed_config ''monitoring'' None 1000 1000000 crossed_pass)) = [] \<and>
   cycles (ps_db (monitor_strategy crossed_env fixed_config ''monitoring'' None 1000 1000000 crossed_pass)) = []"
proof -
  have "check_strategy crossed_env fixed_config ''monitoring'' None 1000 1000000 crossed_pass =
      Inl (JsError ''E_MONITOR_SNAPSHOT'', crossed_pass)" by (simp add: check_strategy_def)
  from monitor_failure_defers [OF this] show ?thesis
    by (simp add: fixed_facts crossed_pass_def crossed_db_def sample_db_def empty_db_def)
qed

end
