(* ===== verification/EmergingReplay.thy ===== *)
theory EmergingReplay
  imports ClMath TickPrice
begin

text \<open>
  The replay engine of emerging pools (\<open>indexer/emergingReplayCore.ts\<close>): swap steps, tick map,
  the virtual position and the walk of one swap; and its driver
  (\<open>indexer/emergingReplay.ts\<close>), which replays a pool's event history.  The events come parsed
  (their figures still as decimal text), the pool's fee and protocol come from the \<open>pools\<close> row.
\<close>

section \<open>Deltas and next prices\<close>

definition FEE_DENOMINATOR :: int where "FEE_DENOMINATOR = 1000000"

definition mulDivRoundingUp :: "int \<Rightarrow> int \<Rightarrow> int \<Rightarrow> int res" where
  "mulDivRoundingUp a b d = bdiv (a * b + d - 1) d"

definition divUp :: "int \<Rightarrow> int \<Rightarrow> int res" where
  "divUp a d = bdiv (a + d - 1) d"

definition amount0Delta :: "int \<Rightarrow> int \<Rightarrow> int \<Rightarrow> bool \<Rightarrow> int res" where
  "amount0Delta sqrtA sqrtB L roundUp =
     (let (sqrtA, sqrtB) = (if sqrtA > sqrtB then (sqrtB, sqrtA) else (sqrtA, sqrtB)) in
      if L = 0 \<or> sqrtA = sqrtB then Inr 0
      else let numerator1 = L * 2 ^ 96; numerator2 = sqrtB - sqrtA in
        if roundUp then bindR (mulDivRoundingUp numerator1 numerator2 sqrtB) (\<lambda>x. divUp x sqrtA)
        else bindR (bdiv (numerator1 * numerator2) sqrtB) (\<lambda>x. bdiv x sqrtA))"

definition amount1Delta :: "int \<Rightarrow> int \<Rightarrow> int \<Rightarrow> bool \<Rightarrow> int res" where
  "amount1Delta sqrtA sqrtB L roundUp =
     (let (sqrtA, sqrtB) = (if sqrtA > sqrtB then (sqrtB, sqrtA) else (sqrtA, sqrtB));
          diff = sqrtB - sqrtA
      in if roundUp then mulDivRoundingUp L diff Q96 else bdiv (L * diff) Q96)"

definition nextSqrtFromAmount0 :: "int \<Rightarrow> int \<Rightarrow> int \<Rightarrow> bool \<Rightarrow> int res" where
  "nextSqrtFromAmount0 sqrtP L a add =
     (let numerator1 = L * 2 ^ 96; prod0 = a * sqrtP;
          denominator = (if add then numerator1 + prod0 else numerator1 - prod0)
      in if denominator \<le> 0 then Inl (JsError ''nextSqrtFromAmount0: non-positive denominator'')
         else mulDivRoundingUp numerator1 sqrtP denominator)"

definition nextSqrtFromAmount1 :: "int \<Rightarrow> int \<Rightarrow> int \<Rightarrow> bool \<Rightarrow> int res" where
  "nextSqrtFromAmount1 sqrtP L a add =
     bindR (bdiv (a * 2 ^ 96) L) (\<lambda>q. Inr (if add then sqrtP + q else sqrtP - q))"

record swap_step =
  ss_sqrtNext :: int
  ss_amountIn :: int
  ss_amountOut :: int
  ss_feeAmount :: int

definition capped_fee :: "int \<Rightarrow> int \<Rightarrow> int \<Rightarrow> int" where
  "capped_fee remaining amountIn fee =
     (let capped = (if remaining < amountIn + fee then remaining - amountIn else fee) in if capped < 0 then 0 else capped)"

definition computeSwapStep :: "int \<Rightarrow> int \<Rightarrow> int \<Rightarrow> int \<Rightarrow> int \<Rightarrow> swap_step res" where
  "computeSwapStep cur target L remaining feePpm =
     bindR (mulDivRoundingUp remaining feePpm FEE_DENOMINATOR) (\<lambda>fee.
       let less = remaining - fee;
           done = (\<lambda>nxt i out. Inr \<lparr>ss_sqrtNext = nxt, ss_amountIn = i, ss_amountOut = out,
                                    ss_feeAmount = capped_fee remaining i fee\<rparr>)
       in if cur \<ge> target then
            bindR (amount0Delta target cur L False) (\<lambda>need.
              if less \<ge> need \<and> need > 0 then
                bindR (amount0Delta target cur L True) (\<lambda>i.
                bindR (amount1Delta target cur L False) (\<lambda>out. done target i out))
              else
                bindR (nextSqrtFromAmount0 cur L less False) (\<lambda>nxt.
                bindR (amount0Delta nxt cur L True) (\<lambda>i.
                bindR (amount1Delta nxt cur L False) (\<lambda>out. done nxt i out))))
          else
            bindR (amount1Delta cur target L False) (\<lambda>need.
              if less \<ge> need \<and> need > 0 then
                bindR (amount1Delta cur target L True) (\<lambda>i.
                bindR (amount0Delta cur target L False) (\<lambda>out. done target i out))
              else
                bindR (nextSqrtFromAmount1 cur L less True) (\<lambda>nxt.
                bindR (amount1Delta cur nxt L True) (\<lambda>i.
                bindR (amount0Delta cur nxt L False) (\<lambda>out. done nxt i out)))))"

section \<open>Ticks and the virtual position\<close>

type_synonym tick_map = "(int \<times> int) list"

definition tick_get :: "tick_map \<Rightarrow> int \<Rightarrow> int" where
  "tick_get ticks t = (case map_of ticks t of None \<Rightarrow> 0 | Some n \<Rightarrow> n)"

fun tick_set :: "int \<Rightarrow> int \<Rightarrow> tick_map \<Rightarrow> tick_map" where
  "tick_set t n [] = [(t, n)]"
| "tick_set t n ((u, m) # ts) = (if u = t then (t, n) # ts else (u, m) # tick_set t n ts)"

definition nextInitializedTick :: "tick_map \<Rightarrow> int \<Rightarrow> bool \<Rightarrow> int option" where
  "nextInitializedTick ticks start zeroForOne =
     foldl (\<lambda>best t.
       if (if zeroForOne then t \<ge> start else t \<le> start) then best
       else if tick_get ticks t = 0 then best
       else (case best of
               None \<Rightarrow> Some t
             | Some b \<Rightarrow> if (if zeroForOne then t > b else t < b) then Some t else best)) None (map fst ticks)"

record virtual_position =
  vp_tickLower :: int
  vp_tickUpper :: int
  vp_liquidity :: int
  vp_entered :: bool
  vp_owed0 :: int
  vp_owed1 :: int

record replay_state =
  rs_sqrtP :: int
  rs_tick :: int
  rs_liquidity :: int
  rs_ticks :: tick_map
  rs_position :: virtual_position
  rs_swaps :: nat

definition initState :: replay_state where
  "initState = \<lparr>rs_sqrtP = 0, rs_tick = 0, rs_liquidity = 0, rs_ticks = [],
     rs_position = \<lparr>vp_tickLower = 0, vp_tickUpper = 0, vp_liquidity = 0, vp_entered = False, vp_owed0 = 0, vp_owed1 = 0\<rparr>,
     rs_swaps = 0\<rparr>"

definition applyMint :: "int \<Rightarrow> int \<Rightarrow> int \<Rightarrow> replay_state \<Rightarrow> replay_state res" where
  "applyMint lo hi a s =
     (let ticks = tick_set lo (tick_get (rs_ticks s) lo + a) (rs_ticks s);
          ticks = tick_set hi (tick_get ticks hi - a) ticks
      in bindR (getSqrtRatioAtTick lo) (\<lambda>sqrtA. bindR (getSqrtRatioAtTick hi) (\<lambda>sqrtB.
           Inr (s\<lparr>rs_ticks := ticks, rs_liquidity :=
             (if rs_sqrtP s \<ge> sqrtA \<and> rs_sqrtP s < sqrtB then rs_liquidity s + a else rs_liquidity s)\<rparr>))))"

definition applyBurn :: "int \<Rightarrow> int \<Rightarrow> int \<Rightarrow> replay_state \<Rightarrow> replay_state res" where
  "applyBurn lo hi a s =
     (let ticks = tick_set lo (tick_get (rs_ticks s) lo - a) (rs_ticks s);
          ticks = tick_set hi (tick_get ticks hi + a) ticks
      in bindR (getSqrtRatioAtTick lo) (\<lambda>sqrtA. bindR (getSqrtRatioAtTick hi) (\<lambda>sqrtB.
           Inr (s\<lparr>rs_ticks := ticks, rs_liquidity :=
             (if rs_sqrtP s \<ge> sqrtA \<and> rs_sqrtP s < sqrtB then rs_liquidity s - a else rs_liquidity s)\<rparr>))))"

definition enterPosition :: "int \<Rightarrow> int \<Rightarrow> int \<Rightarrow> replay_state \<Rightarrow> replay_state res" where
  "enterPosition lo hi L s =
     (if vp_entered (rs_position s) then Inl (JsError ''position already entered'')
      else Inr (s\<lparr>rs_position := \<lparr>vp_tickLower = lo, vp_tickUpper = hi, vp_liquidity = L, vp_entered = True,
                                  vp_owed0 = 0, vp_owed1 = 0\<rparr>\<rparr>))"

definition positionAmounts :: "replay_state \<Rightarrow> amounts res" where
  "positionAmounts s =
     (let p = rs_position s in
      bindR (getSqrtRatioAtTick (vp_tickLower p)) (\<lambda>sqrtA. bindR (getSqrtRatioAtTick (vp_tickUpper p)) (\<lambda>sqrtB.
        getAmountsForLiquidity (rs_sqrtP s) sqrtA sqrtB (vp_liquidity p))))"

record exit_result = amounts +
  ex_fee0 :: int
  ex_fee1 :: int

definition exitPosition :: "replay_state \<Rightarrow> (exit_result \<times> replay_state) res" where
  "exitPosition s =
     (let p = rs_position s in
      if \<not> vp_entered p then Inl (JsError ''position not entered'')
      else bindR (positionAmounts s) (\<lambda>a.
           bindR (applyBurn (vp_tickLower p) (vp_tickUpper p) (vp_liquidity p) s) (\<lambda>s.
             Inr (\<lparr>amount0 = amount0 a, amount1 = amount1 a, ex_fee0 = vp_owed0 p, ex_fee1 = vp_owed1 p\<rparr>,
                  s\<lparr>rs_position := p\<lparr>vp_liquidity := 0, vp_entered := False\<rparr>\<rparr>))))"

definition creditPosition :: "int \<Rightarrow> int \<Rightarrow> int \<Rightarrow> int \<Rightarrow> replay_state \<Rightarrow> replay_state res" where
  "creditPosition sqrtFrom sqrtTo spanL fee s =
     (let p = rs_position s in
      if \<not> vp_entered p \<or> vp_liquidity p = 0 \<or> fee = 0 then Inr s
      else bindR (getSqrtRatioAtTick (vp_tickLower p)) (\<lambda>sqrtA. bindR (getSqrtRatioAtTick (vp_tickUpper p)) (\<lambda>sqrtB.
        let hi = (if sqrtFrom > sqrtTo then sqrtFrom else sqrtTo);
            lo = (if sqrtFrom > sqrtTo then sqrtTo else sqrtFrom)
        in if lo < sqrtA \<or> hi > sqrtB then Inr s
           else bindR (bdiv (fee * vp_liquidity p) (spanL + vp_liquidity p)) (\<lambda>share.
             Inr (s\<lparr>rs_position :=
               (if sqrtFrom \<ge> sqrtTo then p\<lparr>vp_owed0 := vp_owed0 p + share\<rparr>
                else p\<lparr>vp_owed1 := vp_owed1 p + share\<rparr>)\<rparr>)))))"

section \<open>One swap\<close>

record swap_event =
  sv_amount0 :: string
  sv_amount1 :: string
  sv_sqrtPriceX96 :: string
  sv_liquidity :: string
  sv_tick :: int

definition big :: "string \<Rightarrow> int res" where
  "big s = (case big_of_string s of None \<Rightarrow> Inl (JsError ''SyntaxError'') | Some n \<Rightarrow> Inr n)"

record swap_walk =
  sw_state :: replay_state
  sw_remaining :: int
  sw_fee :: int
  sw_recon :: int

text \<open>
  One turn of the loop, \<open>Inr None\<close> is \<open>break\<close> with the state beside it; \<open>sw_fee\<close> is the side
  (\<open>fee0\<close> or \<open>fee1\<close>) the swap's direction charges.
\<close>

definition walk_span :: "bool \<Rightarrow> int res \<Rightarrow> int \<Rightarrow> int \<Rightarrow> swap_walk \<Rightarrow> (bool \<times> swap_walk) res" where
  "walk_span zeroForOne endPrice endTick feePpm w =
     (let s = sw_state w; L = rs_liquidity s in
      if L = 0 then Inr (False, w)
      else (case nextInitializedTick (rs_ticks s) (rs_tick s) zeroForOne of
        None \<Rightarrow>
          bindR endPrice (\<lambda>target.
          bindR (computeSwapStep (rs_sqrtP s) target L (sw_remaining w) feePpm) (\<lambda>st.
          bindR (creditPosition (rs_sqrtP s) (ss_sqrtNext st) L (ss_feeAmount st) s) (\<lambda>s.
            Inr (False, w\<lparr>sw_state := s\<lparr>rs_sqrtP := ss_sqrtNext st, rs_tick := endTick\<rparr>,
                          sw_fee := sw_fee w + ss_feeAmount st, sw_remaining := 0\<rparr>))))
      | Some t \<Rightarrow>
          bindR (getSqrtRatioAtTick t) (\<lambda>target.
          bindR (computeSwapStep (rs_sqrtP s) target L (sw_remaining w) feePpm) (\<lambda>st.
          bindR (creditPosition (rs_sqrtP s) (ss_sqrtNext st) L (ss_feeAmount st) s) (\<lambda>s.
            let s = s\<lparr>rs_sqrtP := ss_sqrtNext st\<rparr>;
                remaining = sw_remaining w - (ss_amountIn st + ss_feeAmount st);
                w = w\<lparr>sw_state := s, sw_fee := sw_fee w + ss_feeAmount st, sw_remaining := remaining\<rparr>
            in if remaining < 0 then Inl (JsError ''swap walk overshot the input'')
               else if ss_sqrtNext st = target then
                 let net = tick_get (rs_ticks s) t; d = (if zeroForOne then - net else net) in
                 Inr (True, w\<lparr>sw_recon := sw_recon w + d,
                              sw_state := s\<lparr>rs_liquidity := rs_liquidity s + d,
                                            rs_tick := (if zeroForOne then t - 1 else t)\<rparr>\<rparr>)
               else Inr (True, w))))))"

fun swap_loop :: "nat \<Rightarrow> bool \<Rightarrow> int res \<Rightarrow> int \<Rightarrow> int \<Rightarrow> swap_walk \<Rightarrow> swap_walk res" where
  "swap_loop guard z endPrice endTick feePpm w =
     (if sw_remaining w \<le> 0 then Inr w
      else (case guard of
        0 \<Rightarrow> Inl (JsError ''swap walk exceeded 10k spans'')
      | Suc g \<Rightarrow> bindR (walk_span z endPrice endTick feePpm w) (\<lambda>(more, w).
                  if more then swap_loop g z endPrice endTick feePpm w else Inr w)))"

record swap_outcome =
  so_fee0 :: int
  so_fee1 :: int
  so_recon :: int

definition applySwap :: "swap_event \<Rightarrow> int \<Rightarrow> replay_state \<Rightarrow> (swap_outcome \<times> replay_state) res" where
  "applySwap ev feePpm s =
     bindR (big (sv_amount0 ev)) (\<lambda>a0. bindR (big (sv_amount1 ev)) (\<lambda>a1.
       let z = (a0 > 0);
           adopt = (\<lambda>s k. bindR (big (sv_sqrtPriceX96 ev)) (\<lambda>p. bindR (big (sv_liquidity ev)) (\<lambda>L.
             k L (s\<lparr>rs_sqrtP := p, rs_tick := sv_tick ev, rs_liquidity := L, rs_swaps := rs_swaps s + 1\<rparr>))))
       in if rs_sqrtP s = 0 \<or> rs_liquidity s = 0 then
            adopt s (\<lambda>L s. Inr (\<lparr>so_fee0 = 0, so_fee1 = 0, so_recon = L\<rparr>, s))
          else
            bindR (swap_loop 10000 z (big (sv_sqrtPriceX96 ev)) (sv_tick ev) feePpm
                     \<lparr>sw_state = s, sw_remaining = (if z then a0 else a1), sw_fee = 0, sw_recon = rs_liquidity s\<rparr>) (\<lambda>w.
              adopt (sw_state w) (\<lambda>L s.
                Inr (\<lparr>so_fee0 = (if z then sw_fee w else 0), so_fee1 = (if z then 0 else sw_fee w), so_recon = sw_recon w\<rparr>, s)))))"

declare swap_loop.simps [simp del]

section \<open>The replay of a history\<close>

datatype pool_event =
  MintEvent int int string
| BurnEvent int int string
| SwapEvent swap_event
| OtherEvent string

datatype replay_integrity = Exact | Mismatch | Unsupported

datatype replay_exit = RangeExit | EndOfHistory

record shadow_ledger =
  sl_integrity :: replay_integrity
  sl_reason :: "string option"
  sl_swapsReplayed :: nat
  sl_entryActiveLiquidity :: "int option"
  sl_fees0 :: int
  sl_fees1 :: int
  sl_principal0 :: int
  sl_principal1 :: int
  sl_exit :: "replay_exit option"

definition unsupported :: "string \<Rightarrow> shadow_ledger" where
  "unsupported reason = \<lparr>sl_integrity = Unsupported, sl_reason = Some reason, sl_swapsReplayed = 0,
     sl_entryActiveLiquidity = None, sl_fees0 = 0, sl_fees1 = 0, sl_principal0 = 0, sl_principal1 = 0, sl_exit = None\<rparr>"

text \<open>The scan before the replay: a refusal, or none.\<close>

fun pre_swap :: "pool_event list \<Rightarrow> string option" where
  "pre_swap [] = Some ''no swaps recorded''"
| "pre_swap (SwapEvent _ # _) = None"
| "pre_swap (MintEvent _ _ _ # es) = pre_swap es"
| "pre_swap (BurnEvent _ _ _ # es) = pre_swap es"
| "pre_swap (OtherEvent k # _) = Some (''unexpected pre-swap event kind '' @ k)"

record replay_run =
  rr_state :: replay_state
  rr_swapsSeen :: nat
  rr_entered :: bool
  rr_entry :: "int option"
  rr_fees0 :: int
  rr_fees1 :: int

datatype replay_end = Diverged replay_run | LeftRange replay_run exit_result | RanOut replay_run

fun replay_events :: "int \<Rightarrow> int \<Rightarrow> nat \<Rightarrow> int \<Rightarrow> pool_event list \<Rightarrow> replay_run \<Rightarrow> replay_end res" where
  "replay_events lo hi entryAfter feePpm [] r = Inr (RanOut r)"
| "replay_events lo hi entryAfter feePpm (MintEvent a b n # es) r =
     bindR (big n) (\<lambda>n. bindR (applyMint a b n (rr_state r)) (\<lambda>s.
       replay_events lo hi entryAfter feePpm es (r\<lparr>rr_state := s\<rparr>)))"
| "replay_events lo hi entryAfter feePpm (BurnEvent a b n # es) r =
     bindR (big n) (\<lambda>n. bindR (applyBurn a b n (rr_state r)) (\<lambda>s.
       replay_events lo hi entryAfter feePpm es (r\<lparr>rr_state := s\<rparr>)))"
| "replay_events lo hi entryAfter feePpm (OtherEvent _ # es) r = replay_events lo hi entryAfter feePpm es r"
| "replay_events lo hi entryAfter feePpm (SwapEvent ev # es) r =
     (let entered = (rr_entered r \<or> rr_swapsSeen r \<ge> entryAfter);
          r = r\<lparr>rr_entered := entered, rr_swapsSeen := rr_swapsSeen r + 1\<rparr>
      in if \<not> entered then replay_events lo hi entryAfter feePpm es r
         else bindR (case rr_entry r of Some L \<Rightarrow> Inr L | None \<Rightarrow> big (sv_liquidity ev)) (\<lambda>entry.
           let r = r\<lparr>rr_entry := Some entry\<rparr> in
           bindR (applySwap ev feePpm (rr_state r)) (\<lambda>(out, s).
             let r = r\<lparr>rr_fees0 := rr_fees0 r + so_fee0 out, rr_fees1 := rr_fees1 r + so_fee1 out, rr_state := s\<rparr> in
             bindR (big (sv_liquidity ev)) (\<lambda>L.
               if so_recon out \<noteq> L then Inr (Diverged r)
               else bindR (getSqrtRatioAtTick hi) (\<lambda>sqrtB. bindR (getSqrtRatioAtTick lo) (\<lambda>sqrtA.
                 if rs_sqrtP s \<ge> sqrtB \<or> rs_sqrtP s < sqrtA
                 then bindR (exitPosition s) (\<lambda>(x, s). Inr (LeftRange (r\<lparr>rr_state := s\<rparr>) x))
                 else replay_events lo hi entryAfter feePpm es r))))))"

definition replay_ledger :: "replay_run \<Rightarrow> int \<Rightarrow> int \<Rightarrow> replay_exit option \<Rightarrow> shadow_ledger" where
  "replay_ledger r p0 p1 ex = \<lparr>sl_integrity = Exact, sl_reason = None, sl_swapsReplayed = rr_swapsSeen r,
     sl_entryActiveLiquidity = rr_entry r, sl_fees0 = rr_fees0 r, sl_fees1 = rr_fees1 r,
     sl_principal0 = p0, sl_principal1 = p1, sl_exit = ex\<rparr>"

definition replayShadowPosition ::
  "(int \<times> string) option \<Rightarrow> pool_event list \<Rightarrow> int \<Rightarrow> int \<Rightarrow> int \<Rightarrow> nat \<Rightarrow> shadow_ledger res" where
  "replayShadowPosition venueRow events lo hi L entryAfter =
     (case venueRow of
        None \<Rightarrow> Inr (unsupported ''venue is not an official static-fee v3 pool'')
      | Some (feePpm, proto) \<Rightarrow>
          if proto \<noteq> ''univ3'' then Inr (unsupported ''venue is not an official static-fee v3 pool'')
          else (case events of
            [] \<Rightarrow> Inr (unsupported ''no canonical events recorded'')
          | MintEvent _ _ _ # _ \<Rightarrow>
              (case pre_swap events of
                 Some why \<Rightarrow> Inr (unsupported why)
               | None \<Rightarrow>
                   bindR (enterPosition lo hi L initState) (\<lambda>s.
                   bindR (replay_events lo hi entryAfter feePpm events
                            \<lparr>rr_state = s, rr_swapsSeen = 0, rr_entered = False, rr_entry = None, rr_fees0 = 0, rr_fees1 = 0\<rparr>) (\<lambda>e.
                     case e of
                       Diverged r \<Rightarrow> Inr \<lparr>sl_integrity = Mismatch, sl_reason = None, sl_swapsReplayed = rr_swapsSeen r,
                         sl_entryActiveLiquidity = rr_entry r, sl_fees0 = 0, sl_fees1 = 0,
                         sl_principal0 = 0, sl_principal1 = 0, sl_exit = None\<rparr>
                     | LeftRange r x \<Rightarrow> Inr (replay_ledger r (amount0 x) (amount1 x) (Some RangeExit))
                     | RanOut r \<Rightarrow>
                         if rr_entered r then bindR (exitPosition (rr_state r)) (\<lambda>(x, s).
                           Inr (replay_ledger r (amount0 x) (amount1 x) (Some EndOfHistory)))
                         else Inr (replay_ledger r 0 0 None))))
          | _ \<Rightarrow> Inr (unsupported ''history does not start at the pool's first mint'')))"

section \<open>Lemmas: deltas and steps\<close>

lemma mulDivUp_eq: "0 \<le> a \<Longrightarrow> 0 \<le> b \<Longrightarrow> 0 < d \<Longrightarrow> mulDivRoundingUp a b d = Inr ((a * b + d - 1) div d)"
proof -
  assume h: "0 \<le> a" "0 \<le> b" "0 < d"
  have "0 \<le> a * b" using h by simp
  with h(3) have "0 \<le> a * b + d - 1" by linarith
  then show ?thesis using h(3) by (simp add: mulDivRoundingUp_def bdiv_pos)
qed

lemma div_nonneg: "0 \<le> a \<Longrightarrow> 0 < b \<Longrightarrow> 0 \<le> a div (b :: int)"
  by (simp add: pos_imp_zdiv_nonneg_iff)

lemma amount0Delta_nonneg:
  assumes "0 < a" "0 < b" "0 \<le> L" "amount0Delta a b L up = Inr x" shows "0 \<le> x"
proof -
  have *: "0 \<le> x" if "0 < lo" "lo \<le> hi" "(if lo = hi \<or> L = 0 then Inr 0 else
      if up then bindR (mulDivRoundingUp (L * 2 ^ 96) (hi - lo) hi) (\<lambda>x. divUp x lo)
      else bindR (bdiv (L * 2 ^ 96 * (hi - lo)) hi) (\<lambda>x. bdiv x lo)) = Inr x" for lo hi :: int
  proof -
    define n where "n = L * 2 ^ 96 * (hi - lo)"
    have n: "0 \<le> n" using that assms(3) by (simp add: n_def)
    have "0 \<le> (n + hi - 1) div hi" "0 \<le> n div hi" using n that by (auto intro!: div_nonneg)
    then have "0 \<le> ((n + hi - 1) div hi + lo - 1) div lo" "0 \<le> n div hi div lo"
      using that(1) by (auto intro!: div_nonneg)
    moreover have "mulDivRoundingUp (L * 2 ^ 96) (hi - lo) hi = Inr ((n + hi - 1) div hi)"
      using that assms(3) by (simp add: mulDivUp_eq n_def)
    moreover have "bdiv (L * 2 ^ 96 * (hi - lo)) hi = Inr (n div hi)" using that n by (simp add: bdiv_pos n_def)
    moreover have "bdiv (n div hi) lo = Inr (n div hi div lo)" using \<open>0 \<le> n div hi\<close> that by (simp add: bdiv_pos)
    moreover have "divUp ((n + hi - 1) div hi) lo = Inr (((n + hi - 1) div hi + lo - 1) div lo)"
      using \<open>0 \<le> (n + hi - 1) div hi\<close> that by (simp add: divUp_def bdiv_pos)
    ultimately show ?thesis using that(3) by (auto split: if_splits)
  qed
  show ?thesis
    using assms(4) *[of "min a b" "max a b"] assms(1,2)
    by (auto simp: amount0Delta_def Let_def min_def max_def split: if_splits)
qed

lemma amount1Delta_eq:
  assumes "0 \<le> L" shows "amount1Delta a b L up =
    Inr (if up then (L * (max a b - min a b) + Q96 - 1) div Q96 else (L * (max a b - min a b)) div Q96)"
  using assms by (auto simp: amount1Delta_def Let_def mulDivUp_eq bdiv_pos Q96_def min_def max_def)

lemma amount1Delta_nonneg: "0 \<le> L \<Longrightarrow> amount1Delta a b L up = Inr x \<Longrightarrow> 0 \<le> x"
  by (auto simp: amount1Delta_eq Q96_def pos_imp_zdiv_nonneg_iff)

lemma nextSqrt0_rises:
  assumes "0 < P" "0 \<le> L" "0 \<le> a" "nextSqrtFromAmount0 P L a False = Inr q" shows "P \<le> q"
proof -
  define d where "d = L * 2 ^ 96 - a * P"
  have d: "0 < d" "d \<le> L * 2 ^ 96" and q: "mulDivRoundingUp (L * 2 ^ 96) P d = Inr q"
    using assms by (auto simp: nextSqrtFromAmount0_def Let_def d_def split: if_splits)
  have "q = (L * 2 ^ 96 * P + d - 1) div d" using q d assms by (simp add: mulDivUp_eq)
  moreover have "P * d \<le> L * 2 ^ 96 * P + d - 1"
    using mult_left_mono [OF d(2), of P] d(1) assms(1) by (simp only: mult.commute [of P]) linarith
  ultimately show ?thesis using zdiv_mono1 [of "P * d" "L * 2 ^ 96 * P + d - 1" d] d(1) by simp
qed

lemma nextSqrt1_bounds:
  assumes "0 < L" "0 \<le> a" "nextSqrtFromAmount1 P L a True = Inr q"
  shows "q = P + (a * 2 ^ 96) div L" "P \<le> q"
  using assms by (auto simp: nextSqrtFromAmount1_def bdiv_pos pos_imp_zdiv_nonneg_iff)

lemma capped_fee_bounds:
  "0 \<le> fee \<Longrightarrow> 0 \<le> capped_fee r i fee \<and> capped_fee r i fee \<le> fee \<and> (i \<le> r \<longrightarrow> i + capped_fee r i fee \<le> r)"
  by (auto simp: capped_fee_def Let_def)

lemma step_fee:
  assumes "0 \<le> r" "0 \<le> f" "f \<le> FEE_DENOMINATOR"
  obtains fee where "mulDivRoundingUp r f FEE_DENOMINATOR = Inr fee" "0 \<le> fee" "fee \<le> r"
proof
  let ?fee = "(r * f + FEE_DENOMINATOR - 1) div FEE_DENOMINATOR"
  show "mulDivRoundingUp r f FEE_DENOMINATOR = Inr ?fee" using assms by (simp add: mulDivUp_eq FEE_DENOMINATOR_def)
  show "0 \<le> ?fee" using assms by (simp add: FEE_DENOMINATOR_def pos_imp_zdiv_nonneg_iff)
  have "r * f \<le> r * FEE_DENOMINATOR" using assms by (simp add: mult_left_mono)
  then have "?fee \<le> (r * FEE_DENOMINATOR + (FEE_DENOMINATOR - 1)) div FEE_DENOMINATOR"
    by (intro zdiv_mono1) (simp_all add: FEE_DENOMINATOR_def)
  also have "\<dots> = r" by (simp add: FEE_DENOMINATOR_def)
  finally show "?fee \<le> r" .
qed

text \<open>The shape of a step, in either direction.\<close>

lemma step_down:
  assumes "mulDivRoundingUp r f FEE_DENOMINATOR = Inr fee" "target \<le> cur" "computeSwapStep cur target L r f = Inr st"
  shows "(ss_sqrtNext st = target \<or> nextSqrtFromAmount0 cur L (r - fee) False = Inr (ss_sqrtNext st)) \<and>
    amount0Delta (ss_sqrtNext st) cur L True = Inr (ss_amountIn st) \<and>
    amount1Delta (ss_sqrtNext st) cur L False = Inr (ss_amountOut st) \<and>
    ss_feeAmount st = capped_fee r (ss_amountIn st) fee"
  using assms(2,3) by (auto simp: computeSwapStep_def assms(1) Let_def bindR_eq_Inr split: if_splits)

lemma step_up:
  assumes "mulDivRoundingUp r f FEE_DENOMINATOR = Inr fee" "cur < target" "computeSwapStep cur target L r f = Inr st"
  shows "(\<exists>need. amount1Delta cur target L False = Inr need \<and>
      (ss_sqrtNext st = target \<or>
       \<not> (need \<le> r - fee \<and> 0 < need) \<and> nextSqrtFromAmount1 cur L (r - fee) True = Inr (ss_sqrtNext st))) \<and>
    amount1Delta cur (ss_sqrtNext st) L True = Inr (ss_amountIn st) \<and>
    amount0Delta cur (ss_sqrtNext st) L False = Inr (ss_amountOut st) \<and>
    ss_feeAmount st = capped_fee r (ss_amountIn st) fee"
  using assms(2,3) by (auto simp: computeSwapStep_def assms(1) Let_def bindR_eq_Inr split: if_splits)

lemma partial_up_below_target:
  assumes "0 < L" "0 \<le> a" "cur < target" "Q96 \<le> L * (target - cur)"
    and need: "amount1Delta cur target L False = Inr need" "\<not> (need \<le> a \<and> 0 < need)"
    and q: "nextSqrtFromAmount1 cur L a True = Inr q"
  shows "q \<le> target"
proof -
  have n: "need = (L * (target - cur)) div Q96"
    using need(1) assms(1,3) by (simp add: amount1Delta_eq max_def min_def)
  then have "1 \<le> need" using zdiv_mono1 [OF assms(4), of Q96] by (simp add: Q96_def)
  with need(2) have "a * Q96 \<le> need * Q96" by (simp add: Q96_def)
  also have "\<dots> \<le> L * (target - cur)"
    using div_mult_mod_eq [of "L * (target - cur)" Q96] pos_mod_sign [of Q96 "L * (target - cur)"]
    by (simp add: n Q96_def)
  finally have "(a * Q96) div L \<le> (L * (target - cur)) div L" using assms(1) by (rule zdiv_mono1)
  then show ?thesis using nextSqrt1_bounds(1) [OF assms(1,2) q] assms(1) by (simp add: Q96_def)
qed

text \<open>
  Bounds of a swap step on a positive price and positive liquidity, with a fee of at most one
  million ppm: the fee is between zero and the input; an input delta within the input leaves
  room for the fee; both deltas are non-negative.  Going up, the price does not fall, and it does
  not pass the target when the span needs at least one unit.  Going down, the step
  reaches its target or ends at a price that is not below the one it started from.
\<close>
theorem computeSwapStep_bounds:
  assumes "0 < cur" "0 < target" "0 < L" "0 \<le> r" "0 \<le> f" "f \<le> FEE_DENOMINATOR"
    and "computeSwapStep cur target L r f = Inr st"
  shows "0 \<le> ss_feeAmount st \<and> ss_feeAmount st \<le> r \<and> 0 \<le> ss_amountIn st \<and> 0 \<le> ss_amountOut st \<and>
    (ss_amountIn st \<le> r \<longrightarrow> ss_amountIn st + ss_feeAmount st \<le> r) \<and>
    (cur < target \<longrightarrow> cur \<le> ss_sqrtNext st \<and> (Q96 \<le> L * (target - cur) \<longrightarrow> ss_sqrtNext st \<le> target)) \<and>
    (target \<le> cur \<longrightarrow> ss_sqrtNext st = target \<or> cur \<le> ss_sqrtNext st)"
proof -
  obtain fee where fee: "mulDivRoundingUp r f FEE_DENOMINATOR = Inr fee" "0 \<le> fee" "fee \<le> r"
    using step_fee [OF assms(4-6)] .
  have cap: "0 \<le> capped_fee r i fee \<and> capped_fee r i fee \<le> r \<and> (i \<le> r \<longrightarrow> i + capped_fee r i fee \<le> r)" for i
    using capped_fee_bounds [OF fee(2), of r i] fee(3) by linarith
  have L0: "0 \<le> L" and less: "0 \<le> r - fee" using assms(3) fee(3) by simp_all
  show ?thesis
  proof (cases "target \<le> cur")
    case True
    note S = step_down [OF fee(1) True assms(7)]
    then have next': "ss_sqrtNext st = target \<or> cur \<le> ss_sqrtNext st"
      using nextSqrt0_rises [OF assms(1) L0 less] by blast
    then have "0 < ss_sqrtNext st" using assms(1,2) by linarith
    then have "0 \<le> ss_amountIn st" "0 \<le> ss_amountOut st"
      using S amount0Delta_nonneg [OF _ assms(1) L0] amount1Delta_nonneg [OF L0] by blast+
    then show ?thesis using next' True S cap by simp
  next
    case False
    then have lt: "cur < target" by simp
    note S = step_up [OF fee(1) lt assms(7)]
    then obtain need where N: "amount1Delta cur target L False = Inr need"
      "ss_sqrtNext st = target \<or>
       \<not> (need \<le> r - fee \<and> 0 < need) \<and> nextSqrtFromAmount1 cur L (r - fee) True = Inr (ss_sqrtNext st)" by blast
    have low: "cur \<le> ss_sqrtNext st" using N(2) lt nextSqrt1_bounds(2) [OF assms(3) less] by auto
    have high: "Q96 \<le> L * (target - cur) \<longrightarrow> ss_sqrtNext st \<le> target"
      using N(2) partial_up_below_target [OF assms(3) less lt _ N(1)] by auto
    have "0 < ss_sqrtNext st" using assms(1) low by linarith
    then have "0 \<le> ss_amountIn st" "0 \<le> ss_amountOut st"
      using S amount0Delta_nonneg [OF assms(1) _ L0] amount1Delta_nonneg [OF L0] by blast+
    then show ?thesis using low high lt S cap by simp
  qed
qed

theorem computeSwapStep_bounds_witness:
  "computeSwapStep (2 ^ 96) (2 ^ 95) 1000000 1000 3000
     = Inr \<lparr>ss_sqrtNext = 79307231824393257671442378388, ss_amountIn = 998, ss_amountOut = 997, ss_feeAmount = 2\<rparr> \<and>
   (2::int) ^ 96 \<le> 79307231824393257671442378388"
proof -
  have c: "computeSwapStep (2 ^ 96) (2 ^ 95) 1000000 1000 3000
     = Inr \<lparr>ss_sqrtNext = 79307231824393257671442378388, ss_amountIn = 998, ss_amountOut = 997, ss_feeAmount = 2\<rparr>"
    by code_simp
  from computeSwapStep_bounds [OF _ _ _ _ _ _ c] c show ?thesis by (simp add: FEE_DENOMINATOR_def)
qed

text \<open>
  A step that reaches its target charges the fee on the whole remaining input, here 3000 on an
  input delta of 1002.
\<close>
lemma reached_target_pays_the_whole_fee:
  "computeSwapStep (2 ^ 96) 79148934351750073255950406385 1000000 1000000 3000
     = Inr \<lparr>ss_sqrtNext = 79148934351750073255950406385, ss_amountIn = 1002, ss_amountOut = 1000, ss_feeAmount = 3000\<rparr>"
  by code_simp

section \<open>Lemmas: one swap\<close>

definition same_range :: "virtual_position \<Rightarrow> virtual_position \<Rightarrow> bool" where
  "same_range p q \<longleftrightarrow> vp_tickLower q = vp_tickLower p \<and> vp_tickUpper q = vp_tickUpper p \<and>
     vp_liquidity q = vp_liquidity p \<and> vp_entered q = vp_entered p \<and>
     (\<not> vp_entered p \<or> vp_liquidity p = 0 \<longrightarrow> q = p)"

lemma same_range_refl [simp]: "same_range p p"
  by (simp add: same_range_def)

lemma same_range_trans: "same_range a b \<Longrightarrow> same_range b c \<Longrightarrow> same_range a c"
  by (auto simp: same_range_def)

definition walk_ok :: "replay_state \<Rightarrow> replay_state \<Rightarrow> bool" where
  "walk_ok s s' \<longleftrightarrow> rs_ticks s' = rs_ticks s \<and> rs_swaps s' = rs_swaps s \<and> same_range (rs_position s) (rs_position s')"

lemma credit_ok: "creditPosition a b L fee s = Inr s' \<Longrightarrow> walk_ok s s'"
  by (auto simp: creditPosition_def Let_def bindR_eq_Inr walk_ok_def same_range_def split: if_splits)

lemma step_fee_nonneg:
  assumes "computeSwapStep cur target L r f = Inr st" shows "0 \<le> ss_feeAmount st"
proof -
  obtain fee where fee: "mulDivRoundingUp r f FEE_DENOMINATOR = Inr fee"
    using assms unfolding computeSwapStep_def bindR_eq_Inr by blast
  have "ss_feeAmount st = capped_fee r (ss_amountIn st) fee"
    using step_down [OF fee _ assms] step_up [OF fee _ assms] by linarith
  then show ?thesis by (simp add: capped_fee_def Let_def)
qed

lemma credit_setters:
  "walk_ok s s' \<Longrightarrow> walk_ok s (s'\<lparr>rs_sqrtP := p\<rparr>)" "walk_ok s s' \<Longrightarrow> walk_ok s (s'\<lparr>rs_tick := t\<rparr>)"
  "walk_ok s s' \<Longrightarrow> walk_ok s (s'\<lparr>rs_liquidity := L\<rparr>)"
  by (simp_all add: walk_ok_def)

lemma walk_span_ok:
  assumes "walk_span z ep et f w = Inr (go, w')"
  shows "walk_ok (sw_state w) (sw_state w') \<and> sw_fee w \<le> sw_fee w'"
proof -
  let ?s = "sw_state w"
  consider "rs_liquidity ?s = 0" | "rs_liquidity ?s \<noteq> 0" "nextInitializedTick (rs_ticks ?s) (rs_tick ?s) z = None"
    | t where "rs_liquidity ?s \<noteq> 0" "nextInitializedTick (rs_ticks ?s) (rs_tick ?s) z = Some t" by fastforce
  then show ?thesis
  proof cases
    case 1
    with assms show ?thesis by (simp add: walk_span_def walk_ok_def)
  next
    case 2
    with assms obtain target st s1 where "computeSwapStep (rs_sqrtP ?s) target (rs_liquidity ?s) (sw_remaining w) f = Inr st"
      "creditPosition (rs_sqrtP ?s) (ss_sqrtNext st) (rs_liquidity ?s) (ss_feeAmount st) ?s = Inr s1"
      "w' = w\<lparr>sw_state := s1\<lparr>rs_sqrtP := ss_sqrtNext st, rs_tick := et\<rparr>, sw_fee := sw_fee w + ss_feeAmount st, sw_remaining := 0\<rparr>"
      by (auto simp: walk_span_def Let_def bindR_eq_Inr)
    then show ?thesis using credit_ok step_fee_nonneg by (simp add: credit_setters)
  next
    case 3
    with assms obtain target st s1 where T: "getSqrtRatioAtTick t = Inr target"
      and S: "computeSwapStep (rs_sqrtP ?s) target (rs_liquidity ?s) (sw_remaining w) f = Inr st"
      and C: "creditPosition (rs_sqrtP ?s) (ss_sqrtNext st) (rs_liquidity ?s) (ss_feeAmount st) ?s = Inr s1"
      by (auto simp: walk_span_def Let_def bindR_eq_Inr)
    show ?thesis using assms credit_ok [OF C] step_fee_nonneg [OF S]
      by (auto simp: walk_span_def Let_def 3 T S C split: if_splits intro!: credit_setters)
  qed
qed

lemma swap_loop_ok: "swap_loop n z ep et f w = Inr w' \<Longrightarrow> walk_ok (sw_state w) (sw_state w') \<and> sw_fee w \<le> sw_fee w'"
proof (induction n z ep et f w rule: swap_loop.induct)
  case (1 n z ep et f w)
  show ?case
  proof (cases "sw_remaining w \<le> 0")
    case True
    with "1.prems" show ?thesis by (simp add: swap_loop.simps [of n] walk_ok_def)
  next
    case False
    with "1.prems" obtain m go v where m: "n = Suc m" "walk_span z ep et f w = Inr (go, v)"
      and rest: "(if go then swap_loop m z ep et f v else Inr v) = Inr w'"
      by (auto simp: swap_loop.simps [of n] bindR_eq_Inr split: nat.splits)
    note span = walk_span_ok [OF m(2)]
    show ?thesis
    proof (cases go)
      case True
      with rest have "walk_ok (sw_state v) (sw_state w') \<and> sw_fee v \<le> sw_fee w'"
        using "1.IH" [OF False m(1) m(2)] by simp
      with span show ?thesis by (auto simp: walk_ok_def intro: same_range_trans)
    qed (use rest span in simp)
  qed
qed

lemma applySwap_event:
  assumes "applySwap ev f s = Inr (out, s')"
  shows "big (sv_sqrtPriceX96 ev) = Inr (rs_sqrtP s') \<and> rs_tick s' = sv_tick ev \<and>
    big (sv_liquidity ev) = Inr (rs_liquidity s') \<and> rs_ticks s' = rs_ticks s \<and> rs_swaps s' = rs_swaps s + 1 \<and>
    same_range (rs_position s) (rs_position s') \<and> 0 \<le> so_fee0 out \<and> 0 \<le> so_fee1 out \<and>
    (so_fee0 out = 0 \<or> (\<exists>a. big (sv_amount0 ev) = Inr a \<and> 0 < a)) \<and>
    (so_fee1 out = 0 \<or> (\<exists>a. big (sv_amount0 ev) = Inr a \<and> a \<le> 0)) \<and>
    (rs_sqrtP s = 0 \<or> rs_liquidity s = 0 \<longrightarrow>
       so_fee0 out = 0 \<and> so_fee1 out = 0 \<and> so_recon out = rs_liquidity s' \<and> rs_position s' = rs_position s)"
proof -
  obtain a0 a1 where a: "big (sv_amount0 ev) = Inr a0" "big (sv_amount1 ev) = Inr a1"
    using assms by (auto simp: applySwap_def bindR_eq_Inr)
  show ?thesis
  proof (cases "rs_sqrtP s = 0 \<or> rs_liquidity s = 0")
    case True
    with assms show ?thesis by (auto simp: applySwap_def a Let_def bindR_eq_Inr)
  next
    case False
    with assms obtain w where
      w: "swap_loop 10000 (0 < a0) (big (sv_sqrtPriceX96 ev)) (sv_tick ev) f
            \<lparr>sw_state = s, sw_remaining = (if 0 < a0 then a0 else a1), sw_fee = 0, sw_recon = rs_liquidity s\<rparr> = Inr w"
      and out: "out = \<lparr>so_fee0 = (if 0 < a0 then sw_fee w else 0), so_fee1 = (if 0 < a0 then 0 else sw_fee w), so_recon = sw_recon w\<rparr>"
      and s': "\<exists>p L. big (sv_sqrtPriceX96 ev) = Inr p \<and> big (sv_liquidity ev) = Inr L \<and>
        s' = (sw_state w)\<lparr>rs_sqrtP := p, rs_tick := sv_tick ev, rs_liquidity := L, rs_swaps := rs_swaps (sw_state w) + 1\<rparr>"
      by (auto simp: applySwap_def a Let_def bindR_eq_Inr)
    from swap_loop_ok [OF w] have "walk_ok s (sw_state w)" "0 \<le> sw_fee w" by simp_all
    with s' False show ?thesis by (auto simp: out a walk_ok_def)
  qed
qed

text \<open>
  A replayed swap takes the chain's word.  Whenever a swap is replayed, the price, tick and
  liquidity after it are the event's own, whatever the walk reconstructed; the tick map and the
  position's range and liquidity are untouched, and a position that is not entered or has no
  liquidity earns nothing; the fee is non-negative and on the input's side only; and before the
  first price, or in a pool without liquidity, no fee is charged and the event is its own reconstruction.
\<close>
theorem applySwap_takes_the_event:
  assumes "applySwap ev f s = Inr (out, s')"
  shows "big (sv_sqrtPriceX96 ev) = Inr (rs_sqrtP s') \<and> rs_tick s' = sv_tick ev \<and>
    big (sv_liquidity ev) = Inr (rs_liquidity s') \<and> rs_ticks s' = rs_ticks s \<and> rs_swaps s' = rs_swaps s + 1 \<and>
    same_range (rs_position s) (rs_position s') \<and> 0 \<le> so_fee0 out \<and> 0 \<le> so_fee1 out \<and>
    (so_fee0 out = 0 \<or> (\<exists>a. big (sv_amount0 ev) = Inr a \<and> 0 < a)) \<and>
    (so_fee1 out = 0 \<or> (\<exists>a. big (sv_amount0 ev) = Inr a \<and> a \<le> 0)) \<and>
    (rs_sqrtP s = 0 \<or> rs_liquidity s = 0 \<longrightarrow>
       so_fee0 out = 0 \<and> so_fee1 out = 0 \<and> so_recon out = rs_liquidity s' \<and> rs_position s' = rs_position s)"
  by (rule applySwap_event [OF assms])

definition pooled :: replay_state where
  "pooled = \<lparr>rs_sqrtP = 2 ^ 96, rs_tick = 0, rs_liquidity = 1000000000, rs_ticks = [(-60, 1000000000), (60, -1000000000)],
     rs_position = \<lparr>vp_tickLower = -60, vp_tickUpper = 60, vp_liquidity = 1000000000, vp_entered = True, vp_owed0 = 0, vp_owed1 = 0\<rparr>,
     rs_swaps = 0\<rparr>"

text \<open>A sale of token 0 that moves the price down inside one range.\<close>

definition sell0 :: swap_event where
  "sell0 = \<lparr>sv_amount0 = ''1000000'', sv_amount1 = ''-996006'', sv_sqrtPriceX96 = ''79149250711305166342700278158'',
     sv_liquidity = ''1000000000'', sv_tick = -20\<rparr>"

text \<open>
  The walk of that sale moves the price up instead, so the position's share of the token-0 fee is
  booked as owed in token 1.
\<close>
lemma sale_of_token0_owes_token1:
  "applySwap sell0 3000 pooled = Inr (\<lparr>so_fee0 = 2999, so_fee1 = 0, so_recon = 1000000000\<rparr>,
     pooled\<lparr>rs_sqrtP := 79149250711305166342700278158, rs_tick := -20, rs_swaps := 1,
            rs_position := (rs_position pooled)\<lparr>vp_owed1 := 1499\<rparr>\<rparr>)"
  by code_simp

theorem applySwap_takes_the_event_witness:
  "rs_sqrtP (snd (projr (applySwap sell0 3000 pooled))) = 79149250711305166342700278158 \<and>
   rs_ticks (snd (projr (applySwap sell0 3000 pooled))) = rs_ticks pooled"
  using applySwap_takes_the_event [OF sale_of_token0_owes_token1]
  by (simp add: sale_of_token0_owes_token1)

section \<open>The driver\<close>

fun swap_count :: "pool_event list \<Rightarrow> nat" where
  "swap_count [] = 0"
| "swap_count (SwapEvent _ # es) = Suc (swap_count es)"
| "swap_count (_ # es) = swap_count es"

definition run_of :: "replay_end \<Rightarrow> replay_run" where
  "run_of e = (case e of Diverged r \<Rightarrow> r | LeftRange r _ \<Rightarrow> r | RanOut r \<Rightarrow> r)"

definition run_ok :: "replay_run \<Rightarrow> bool" where
  "run_ok r \<longleftrightarrow> 0 \<le> rr_fees0 r \<and> 0 \<le> rr_fees1 r \<and> (rr_entered r \<longrightarrow> rr_entry r \<noteq> None) \<and>
     (\<not> rr_entered r \<longrightarrow> rr_entry r = None \<and> rr_fees0 r = 0 \<and> rr_fees1 r = 0)"

lemma run_ok_state [simp]: "run_ok (r\<lparr>rr_state := s\<rparr>) = run_ok r"
  by (simp add: run_ok_def)

text \<open>A replayed swap, its outcome named: it diverged, it left the range, or the replay goes on.\<close>

lemma replay_swap_cases:
  assumes "replay_events lo hi n f (SwapEvent ev # es) r = Inr e"
  obtains
    (skip) "\<not> rr_entered r" "replay_events lo hi n f es (r\<lparr>rr_entered := False, rr_swapsSeen := rr_swapsSeen r + 1\<rparr>) = Inr e"
  | (swap) entry out s where "applySwap ev f (rr_state r) = Inr (out, s)"
      "\<exists>s'. let r' = r\<lparr>rr_entered := True, rr_swapsSeen := rr_swapsSeen r + 1, rr_entry := Some entry,
               rr_fees0 := rr_fees0 r + so_fee0 out, rr_fees1 := rr_fees1 r + so_fee1 out, rr_state := s'\<rparr>
       in e = Diverged r' \<or> (\<exists>x. e = LeftRange r' x) \<or> replay_events lo hi n f es r' = Inr e"
proof (cases "rr_entered r \<or> n \<le> rr_swapsSeen r")
  case False
  with assms show ?thesis by (intro skip) simp_all
next
  case True
  with assms obtain entry out s L where A: "applySwap ev f (rr_state r) = Inr (out, s)"
    and L: "big (sv_liquidity ev) = Inr L"
    and E: "(case rr_entry r of Some L \<Rightarrow> Inr L | None \<Rightarrow> big (sv_liquidity ev)) = Inr entry"
    by (auto simp: Let_def bindR_eq_Inr)
  show ?thesis
    by (rule swap [OF A, of entry])
      (use assms True in \<open>auto simp: Let_def bindR_eq_Inr A L E split: if_splits\<close>)
qed

lemma replay_events_ok:
  "replay_events lo hi n f es r = Inr e \<Longrightarrow> run_ok r \<Longrightarrow>
     run_ok (run_of e) \<and> rr_swapsSeen (run_of e) \<le> rr_swapsSeen r + swap_count es"
proof (induction es arbitrary: r)
  case Nil
  then show ?case by (auto simp: run_of_def)
next
  case (Cons a es)
  show ?case
  proof (cases a)
    case (SwapEvent ev)
    from Cons.prems(1) [unfolded SwapEvent] show ?thesis
    proof (cases rule: replay_swap_cases)
      case skip
      from Cons.IH [OF skip(2)] Cons.prems(2) skip(1) show ?thesis by (simp add: SwapEvent run_ok_def)
    next
      case (swap entry out s)
      then obtain s' r' where r': "r' = r\<lparr>rr_entered := True, rr_swapsSeen := rr_swapsSeen r + 1, rr_entry := Some entry,
          rr_fees0 := rr_fees0 r + so_fee0 out, rr_fees1 := rr_fees1 r + so_fee1 out, rr_state := s'\<rparr>"
        "e = Diverged r' \<or> (\<exists>x. e = LeftRange r' x) \<or> replay_events lo hi n f es r' = Inr e"
        by (auto simp: Let_def)
      have ok: "run_ok r'" using Cons.prems(2) applySwap_event [OF swap(1)] by (simp add: run_ok_def r'(1))
      have "run_of e = r' \<or> replay_events lo hi n f es r' = Inr e" using r'(2) by (auto simp: run_of_def)
      then show ?thesis using Cons.IH [OF _ ok] ok by (auto simp: SwapEvent r'(1))
    qed
  qed (use Cons in \<open>fastforce simp: bindR_eq_Inr\<close>)+
qed


definition two_swaps :: "pool_event list" where
  "two_swaps = [MintEvent (-60) 60 ''1000000000'',
     SwapEvent \<lparr>sv_amount0 = ''1'', sv_amount1 = ''-1'', sv_sqrtPriceX96 = ''79228162514264337593543950336'',
                sv_liquidity = ''1000000000'', sv_tick = 0\<rparr>, SwapEvent sell0]"

text \<open>
  The ledger's fees are the pool's, not the position's share: a position of no liquidity at all
  is credited the whole fee of the walk.
\<close>
lemma shadow_without_liquidity_earns_the_fee:
  "replayShadowPosition (Some (3000, ''univ3'')) two_swaps (-60) 60 0 0 =
     Inr \<lparr>sl_integrity = Exact, sl_reason = None, sl_swapsReplayed = 2, sl_entryActiveLiquidity = Some 1000000000,
          sl_fees0 = 2999, sl_fees1 = 0, sl_principal0 = 0, sl_principal1 = 0, sl_exit = Some EndOfHistory\<rparr>"
  by code_simp


end
