(* ===== verification/EmergingGates.thy ===== *)
theory EmergingGates
  imports JsNumber BigText
begin

text \<open>
  The evidence side of emerging pools: the research thresholds and the default-deny policy of
  \<open>indexer/emergingPolicy.ts\<close>, the inventory-release event of \<open>indexer/emergingReduction.ts\<close> and the
  eight gates of \<open>indexer/emergingGates.ts\<close>.  The tables the gates read are the fields of a
  \<open>gate_view\<close>; times are unix seconds.
\<close>

section \<open>Thresholds and policy\<close>

definition emergingMaxAgeDays :: int where "emergingMaxAgeDays = 7"
definition actorResidualMaxPct :: rat where "actorResidualMaxPct = fl (5 / 1000)"
definition actorStableHours :: int where "actorStableHours = 6 * 3600"
definition actorFlowMaxPctPerHour :: rat where "actorFlowMaxPctPerHour = fl (1 / 1000)"
definition maxTop10Pct :: rat where "maxTop10Pct = fl (3 / 10)"
definition minSellActors :: nat where "minSellActors = 3"
definition minSellTrades :: nat where "minSellTrades = 5"
definition sourceStaleSeconds :: int where "sourceStaleSeconds = 180"
definition permissionStaleSeconds :: int where "permissionStaleSeconds = 300"

record token_template =
  tt_reviewer :: string
  tt_artifact :: string
  tt_reviewedAt :: int

record emerging_policy =
  ep_policyVersion :: int
  ep_chainId :: int
  ep_venues :: "string list"
  ep_approvedQuotes :: "string list"
  ep_tokens :: "(string \<times> token_template) list"

text \<open>The shipped policy, over the chain's id and stable token.\<close>

definition EMERGING_POLICY :: "int \<Rightarrow> string \<Rightarrow> emerging_policy" where
  "EMERGING_POLICY chain usdg = \<lparr>ep_policyVersion = 1, ep_chainId = chain,
     ep_venues = [''univ3'', ''up33-cl'', ''univ4''], ep_approvedQuotes = [toLower usdg], ep_tokens = []\<rparr>"

definition policyTemplate :: "emerging_policy \<Rightarrow> string \<Rightarrow> token_template option" where
  "policyTemplate p token = map_of (ep_tokens p) (toLower token)"

definition isApprovedQuote :: "emerging_policy \<Rightarrow> string \<Rightarrow> bool" where
  "isApprovedQuote p token = (toLower token \<in> set (ep_approvedQuotes p))"

record research_profile =
  rp_hash :: string
  rp_entrySizeUsdg :: rat

definition RESEARCH_PROFILES :: "(string \<times> research_profile) list" where
  "RESEARCH_PROFILES = [(''research-100usdg-v1'', \<lparr>rp_hash = ''research-100usdg-v1'', rp_entrySizeUsdg = 100\<rparr>)]"

definition researchProfile :: "string option \<Rightarrow> research_profile option" where
  "researchProfile h = (case h of None \<Rightarrow> None | Some k \<Rightarrow> map_of RESEARCH_PROFILES k)"

definition DEFAULT_PROFILE_HASH :: string where "DEFAULT_PROFILE_HASH = ''research-100usdg-v1''"

section \<open>The inventory-release event\<close>

record reduction_observation =
  ro_ts :: int
  ro_residualShare :: rat
  ro_maxSourceHourOutflowShare :: rat

record reduction_state =
  rd_startedAt :: "int option"
  rd_confirmedAt :: "int option"
  rd_invalidatedAt :: "int option"
  rd_reason :: "string option"

definition emptyReduction :: reduction_state where
  "emptyReduction = \<lparr>rd_startedAt = None, rd_confirmedAt = None, rd_invalidatedAt = None, rd_reason = None\<rparr>"

datatype reduction_event = Started | Confirmed | Invalidated

definition obs_qualified :: "reduction_observation \<Rightarrow> bool" where
  "obs_qualified obs \<longleftrightarrow> ro_residualShare obs \<le> actorResidualMaxPct \<and>
     ro_maxSourceHourOutflowShare obs \<le> actorFlowMaxPctPerHour"

definition window_broken :: "int option \<Rightarrow> reduction_state" where
  "window_broken started = \<lparr>rd_startedAt = started, rd_confirmedAt = None, rd_invalidatedAt = None,
     rd_reason = Some ''window_broken_before_confirm''\<rparr>"

definition stepReduction :: "reduction_state \<Rightarrow> reduction_observation \<Rightarrow> reduction_state \<times> reduction_event option" where
  "stepReduction prev obs =
     (let q = obs_qualified obs in
      case rd_confirmedAt prev of
        Some _ \<Rightarrow>
          if \<not> q then (\<lparr>rd_startedAt = None, rd_confirmedAt = None, rd_invalidatedAt = Some (ro_ts obs),
                        rd_reason = Some ''residual_rerose_or_large_flow''\<rparr>, Some Invalidated)
          else (prev, None)
      | None \<Rightarrow>
          (case rd_startedAt prev of
             Some s \<Rightarrow>
               if ro_ts obs - s \<ge> actorStableHours then
                 (if q then (prev\<lparr>rd_confirmedAt := Some (ro_ts obs)\<rparr>, Some Confirmed)
                  else (window_broken (if q then Some (ro_ts obs) else None), None))
               else if \<not> q then (window_broken None, None)
               else (prev, None)
           | None \<Rightarrow>
               if q then (\<lparr>rd_startedAt = Some (ro_ts obs), rd_confirmedAt = None,
                           rd_invalidatedAt = rd_invalidatedAt prev, rd_reason = None\<rparr>, Some Started)
               else (prev, None)))"

text \<open>The snapshot after a series of observations.\<close>

definition reduction_run :: "reduction_observation list \<Rightarrow> reduction_state" where
  "reduction_run obs = foldl (\<lambda>st o'. fst (stepReduction st o')) emptyReduction obs"

section \<open>The gates\<close>

datatype gate_status = Pass | Fail | Unknown

datatype gate_reason = Why string | TemplateReviewed string | TopShareTooHigh | TopShare rat | Sells nat nat | SellsShort nat nat

record gate_result =
  gr_status :: gate_status
  gr_reason :: gate_reason
  gr_availableAt :: "int option"
  gr_expiresAt :: "int option"

definition gate :: "gate_status \<Rightarrow> gate_reason \<Rightarrow> int option \<Rightarrow> int option \<Rightarrow> gate_result" where
  "gate s w a e = \<lparr>gr_status = s, gr_reason = w, gr_availableAt = a, gr_expiresAt = e\<rparr>"

record ledger_view =
  lv_venue :: string
  lv_canonicalId :: string
  lv_baseToken :: "string option"
  lv_quoteIsUsdg :: bool
  lv_tokenCreatedAt :: "int option"
  lv_poolCreatedAt :: "int option"

record supply_view =
  su_total :: string
  su_balanceSum :: string
  su_status :: "string option"

record swap_payload =
  sp_amount0 :: "string option"
  sp_amount1 :: "string option"
  sp_sender :: "string option"

record gate_view =
  gv_policy :: emerging_policy
  gv_stable :: string
  gv_ledger :: "string \<Rightarrow> ledger_view option"
  gv_hooks :: "string \<Rightarrow> string option"
  gv_supply :: "string \<Rightarrow> supply_view option"
  gv_topBalances :: "string \<Rightarrow> (string \<times> string) list"
  gv_roles :: "string \<Rightarrow> nat"
  gv_reduction :: "string \<Rightarrow> reduction_state option"
  gv_swaps :: "string \<Rightarrow> swap_payload list"
  gv_completeThrough :: "int option"

definition g01Identity :: "emerging_policy \<Rightarrow> string \<Rightarrow> ledger_view \<Rightarrow> int \<Rightarrow> gate_result" where
  "g01Identity p usdg row t =
     (if lv_venue row \<notin> set (ep_venues p) then gate Fail (Why ''venue_not_in_policy'') None None
      else if \<not> isApprovedQuote p usdg then gate Fail (Why ''quote_registry_broken'') None None
      else if lv_baseToken row = None then gate Unknown (Why ''base_token_unproven'') (Some t) None
      else if \<not> isApprovedQuote p usdg \<or> \<not> lv_quoteIsUsdg row then gate Unknown (Why ''quote_pair_unproven'') (Some t) None
      else (case (case lv_tokenCreatedAt row of None \<Rightarrow> lv_poolCreatedAt row | Some b \<Rightarrow> Some b) of
              None \<Rightarrow> gate Unknown (Why ''token_age_unknown'') (Some t) None
            | Some birth \<Rightarrow>
                if t - birth \<ge> emergingMaxAgeDays * 86400
                then gate Fail (Why ''token_not_young'') (Some birth) (Some (birth + emergingMaxAgeDays * 86400))
                else gate Pass (Why ''identity_ok'') (Some (max birth (t - sourceStaleSeconds)))
                       (Some (birth + emergingMaxAgeDays * 86400))))"

definition g02TokenCapability :: "emerging_policy \<Rightarrow> string option \<Rightarrow> gate_result" where
  "g02TokenCapability p base =
     (case base of
        None \<Rightarrow> gate Unknown (Why ''base_token_unproven'') None None
      | Some b \<Rightarrow> (case policyTemplate p b of
                     None \<Rightarrow> gate Unknown (Why ''template_unreviewed'') None None
                   | Some tpl \<Rightarrow> gate Pass (TemplateReviewed (tt_reviewer tpl)) (Some (tt_reviewedAt tpl)) None))"

definition NO_HOOKS :: string where "NO_HOOKS = ''0x'' @ replicate 40 (CHR ''0'')"

definition g03PoolHookFee :: "gate_view \<Rightarrow> string \<Rightarrow> string \<Rightarrow> int option \<Rightarrow> int \<Rightarrow> gate_result" where
  "g03PoolHookFee v venue cid through t =
     (let expiry = (case through of None \<Rightarrow> 0 | Some c \<Rightarrow> c) + sourceStaleSeconds * 10;
          rest =
            (if venue = ''up33-cl'' then gate Unknown (Why ''up33_fee_adapter_pending'') None None
             else if (case through of None \<Rightarrow> True | Some c \<Rightarrow> t - c > sourceStaleSeconds * 10)
             then gate Unknown (Why ''fee_history_stale'') through (Some expiry)
             else gate Pass (Why ''static_fee_v3'') through (Some expiry))
      in if venue \<notin> set (ep_venues (gv_policy v)) then gate Fail (Why ''venue_not_in_policy'') None None
         else if venue = ''univ4'' then
           (case gv_hooks v cid of
              None \<Rightarrow> gate Unknown (Why ''pool_not_in_v4_directory'') None None
            | Some h \<Rightarrow> if h \<noteq> NO_HOOKS then gate Fail (Why ''v4_hooked_pool'') None None else rest)
         else rest)"

definition g04ProtectedDepth :: gate_result where
  "g04ProtectedDepth = gate Unknown (Why ''protected_depth_evidence_not_built'') None None"

definition parse_big :: "string \<Rightarrow> int res" where
  "parse_big s = (case big_of_string s of None \<Rightarrow> Inl (JsError ''SyntaxError'') | Some n \<Rightarrow> Inr n)"

fun sum_big :: "string list \<Rightarrow> int res" where
  "sum_big [] = Inr 0"
| "sum_big (s # ss) = bindR (parse_big s) (\<lambda>n. bindR (sum_big ss) (\<lambda>m. Inr (n + m)))"

definition non_system :: "string \<Rightarrow> (string \<times> string) list \<Rightarrow> (string \<times> string) list" where
  "non_system base rows = take 10 (filter (\<lambda>r. fst r \<notin> {base, ''0x'' @ replicate 40 (CHR ''0'')}) rows)"

definition g05Concentration :: "gate_view \<Rightarrow> string \<Rightarrow> int \<Rightarrow> gate_result res" where
  "g05Concentration v base t =
     (case gv_supply v base of
        None \<Rightarrow> Inr (gate Unknown (Why ''holder_ledger_not_ready'') (Some t) None)
      | Some sply \<Rightarrow>
          if su_status sply = Some ''reorg_stale'' then Inr (gate Unknown (Why ''holder_ledger_not_ready'') (Some t) None)
          else bindR (parse_big (su_total sply)) (\<lambda>total.
            if total = 0 then Inr (gate Unknown (Why ''supply_zero'') (Some t) None)
            else bindR (parse_big (su_balanceSum sply)) (\<lambda>bal.
              if bal \<noteq> total \<and> su_status sply \<noteq> Some ''matched''
              then Inr (gate Unknown (Why ''holder_ledger_incomplete'') (Some t) None)
              else bindR (sum_big (map snd (non_system base (gv_topBalances v base)))) (\<lambda>top10.
                let share = ndiv (fl (of_int top10)) (fl (of_int total)) in
                if share \<ge> maxTop10Pct then Inr (gate Fail TopShareTooHigh (Some t) None)
                else Inr (gate Pass (TopShare share) (Some t) (Some (t + permissionStaleSeconds)))))))"

definition g06InventoryReleased :: "gate_view \<Rightarrow> string option \<Rightarrow> gate_result" where
  "g06InventoryReleased v base =
     (case base of
        None \<Rightarrow> gate Unknown (Why ''base_token_unproven'') None None
      | Some b \<Rightarrow>
          if gv_roles v b = 0 then gate Unknown (Why ''issuer_roles_unmapped'') None None
          else (case gv_reduction v b of
                  None \<Rightarrow> gate Unknown (Why ''reduction_not_observed'') None None
                | Some st \<Rightarrow>
                    if rd_invalidatedAt st \<noteq> None \<or> rd_confirmedAt st = None
                    then gate Unknown (Why ''reduction_not_confirmed'') (rd_invalidatedAt st) None
                    else gate Pass (Why ''tracked_inventory_reduced'') (rd_confirmedAt st) None))"

definition g07ExitDepth :: gate_result where
  "g07ExitDepth = gate Unknown (Why ''exit_depth_simulator_not_built'') None None"

definition absStr :: "string \<Rightarrow> int res" where
  "absStr s = parse_big (case s of c # cs \<Rightarrow> if c = CHR ''-'' then cs else s | [] \<Rightarrow> s)"

text \<open>The sellers' volumes, a \<open>Map\<close> in insertion order; the count of sells beside it.\<close>

definition seller_add :: "string \<Rightarrow> int \<Rightarrow> (string \<times> int) list \<Rightarrow> (string \<times> int) list" where
  "seller_add k n m =
     (if k \<in> fst ` set m then map (\<lambda>(j, w). if j = k then (j, w + n) else (j, w)) m else m @ [(k, n)])"

fun count_sells :: "string \<Rightarrow> string \<Rightarrow> swap_payload list \<Rightarrow> nat \<times> (string \<times> int) list \<Rightarrow> (nat \<times> (string \<times> int) list) res" where
  "count_sells usdg cid [] s = Inr s"
| "count_sells usdg cid (p # ps) (n, m) =
     (case (sp_amount0 p, sp_amount1 p) of
        (Some a0, Some a1) \<Rightarrow>
          bindR (parse_big a0) (\<lambda>x.
            if x \<le> 0 then count_sells usdg cid ps (n, m)
            else let sender = toLower (case sp_sender p of None \<Rightarrow> [] | Some s \<Rightarrow> s) in
              if sender = [] \<or> sender = cid then count_sells usdg cid ps (n + 1, m)
              else bindR (if usdg \<noteq> [] then absStr a1 else Inr 0) (\<lambda>vol.
                count_sells usdg cid ps (n + 1, if vol > 0 then seller_add sender vol m else m)))
      | _ \<Rightarrow> count_sells usdg cid ps (n, m))"

definition g08SellEvidence :: "gate_view \<Rightarrow> string \<Rightarrow> string \<Rightarrow> rat \<Rightarrow> int option \<Rightarrow> int \<Rightarrow> gate_result res" where
  "g08SellEvidence v poolKey cid entrySize through t =
     (if (case through of None \<Rightarrow> True | Some c \<Rightarrow> t - c > sourceStaleSeconds * 10)
      then Inr (gate Unknown (Why ''streams_stale'') through None)
      else bindR (count_sells (toLower (gv_stable v)) cid (gv_swaps v poolKey) (0, [])) (\<lambda>(sells, sellers).
        let need = math_round (nmul entrySize 1000000);
            bigSell = list_ex (\<lambda>w. snd w \<ge> need) sellers
        in if sells \<ge> minSellTrades \<and> length sellers \<ge> minSellActors \<and> bigSell
           then Inr (gate Pass (Sells sells (length sellers)) (Some t) (Some (t + sourceStaleSeconds * 10)))
           else if sells < minSellTrades \<or> length sellers < minSellActors
           then Inr (gate Unknown (SellsShort sells (length sellers)) (Some t) None)
           else Inr (gate Unknown (Why ''no_sell_covers_paper_size'') (Some t) None)))"

record gate_bundle =
  gb_G01 :: gate_result
  gb_G02 :: gate_result
  gb_G03 :: gate_result
  gb_G04 :: gate_result
  gb_G05 :: gate_result
  gb_G06 :: gate_result
  gb_G07 :: gate_result
  gb_G08 :: gate_result
  gb_profileHash :: string
  gb_policyVersion :: int

definition all_pass :: "gate_bundle \<Rightarrow> bool" where
  "all_pass g = list_all (\<lambda>r. gr_status r = Pass)
     [gb_G01 g, gb_G02 g, gb_G03 g, gb_G04 g, gb_G05 g, gb_G06 g, gb_G07 g, gb_G08 g]"

definition evaluateGates :: "gate_view \<Rightarrow> string \<Rightarrow> string \<Rightarrow> int \<Rightarrow> (gate_bundle \<times> bool) res" where
  "evaluateGates v poolKey hash t =
     (case researchProfile (Some hash) of
        None \<Rightarrow> Inl (JsError (''unknown research profile '' @ hash))
      | Some profile \<Rightarrow> (case gv_ledger v poolKey of
          None \<Rightarrow> Inl (JsError (''unknown pool '' @ poolKey))
        | Some row \<Rightarrow>
            bindR (case lv_baseToken row of Some b \<Rightarrow> g05Concentration v b t
                   | None \<Rightarrow> Inr (gate Unknown (Why ''base_token_unproven'') None None)) (\<lambda>g5.
            bindR (g08SellEvidence v poolKey (lv_canonicalId row) (rp_entrySizeUsdg profile) (gv_completeThrough v) t) (\<lambda>g8.
              let g = \<lparr>gb_G01 = g01Identity (gv_policy v) (gv_stable v) row t,
                       gb_G02 = g02TokenCapability (gv_policy v) (lv_baseToken row),
                       gb_G03 = g03PoolHookFee v (lv_venue row) (lv_canonicalId row) (gv_completeThrough v) t,
                       gb_G04 = g04ProtectedDepth, gb_G05 = g5,
                       gb_G06 = g06InventoryReleased v (lv_baseToken row),
                       gb_G07 = g07ExitDepth, gb_G08 = g8,
                       gb_profileHash = hash, gb_policyVersion = ep_policyVersion (gv_policy v)\<rparr>
              in Inr (g, all_pass g)))))"

section \<open>The release event: a confirmed window is unbroken\<close>

lemma reduction_run_snoc: "reduction_run (obs @ [x]) = fst (stepReduction (reduction_run obs) x)"
  by (simp add: reduction_run_def)

text \<open>What a snapshot says of the observations behind it.\<close>

definition unbroken_since :: "int \<Rightarrow> reduction_observation list \<Rightarrow> bool" where
  "unbroken_since s obs \<longleftrightarrow> (\<exists>pre o' tail. obs = pre @ o' # tail \<and> ro_ts o' = s \<and> list_all obs_qualified (o' # tail))"

definition confirmed_since :: "int \<Rightarrow> int \<Rightarrow> reduction_observation list \<Rightarrow> bool" where
  "confirmed_since s c obs \<longleftrightarrow> (\<exists>pre o' mid oc tail. obs = pre @ o' # mid @ oc # tail \<and> ro_ts o' = s \<and> ro_ts oc = c \<and>
     list_all obs_qualified (o' # mid @ oc # tail))"

lemma unbroken_snoc: "unbroken_since s obs \<Longrightarrow> obs_qualified x \<Longrightarrow> unbroken_since s (obs @ [x])"
  unfolding unbroken_since_def by force

lemma unbroken_start: "obs_qualified x \<Longrightarrow> unbroken_since (ro_ts x) (obs @ [x])"
  unfolding unbroken_since_def by force

lemma confirmed_snoc: "confirmed_since s c obs \<Longrightarrow> obs_qualified x \<Longrightarrow> confirmed_since s c (obs @ [x])"
  unfolding confirmed_since_def by force

lemma unbroken_confirm:
  assumes "unbroken_since s obs" "obs_qualified x" shows "confirmed_since s (ro_ts x) (obs @ [x])"
proof -
  obtain pre o' tail where "obs = pre @ o' # tail" "ro_ts o' = s" "list_all obs_qualified (o' # tail)"
    using assms(1) by (auto simp: unbroken_since_def)
  with assms(2) have "obs @ [x] = pre @ o' # tail @ x # [] \<and> ro_ts o' = s \<and> ro_ts x = ro_ts x \<and>
      list_all obs_qualified (o' # tail @ x # [])" by simp
  then show ?thesis unfolding confirmed_since_def by blast
qed

lemma reduction_invariant:
  "(\<forall>s. rd_startedAt (reduction_run obs) = Some s \<longrightarrow> rd_confirmedAt (reduction_run obs) = None \<longrightarrow> unbroken_since s obs) \<and>
   (\<forall>c. rd_confirmedAt (reduction_run obs) = Some c \<longrightarrow>
      (\<exists>s. rd_startedAt (reduction_run obs) = Some s \<and> actorStableHours \<le> c - s \<and> confirmed_since s c obs))"
proof (induction obs rule: rev_induct)
  case Nil
  show ?case by (simp add: reduction_run_def emptyReduction_def)
next
  case (snoc x obs)
  then show ?case
    by (auto simp: reduction_run_snoc stepReduction_def Let_def window_broken_def
        intro: unbroken_start unbroken_snoc confirmed_snoc unbroken_confirm split: option.splits if_splits)
qed

text \<open>
  C28. An inventory release is confirmed only after six unbroken hours.  Whatever the observations,
  a snapshot that says confirmed names a start and a confirmation at least six hours apart, and
  every observation from the start on, including all those since the confirmation, had the tracked
  residual and the hourly outflow within the caps.
\<close>
theorem reduction_confirmed_window:
  assumes "rd_confirmedAt (reduction_run obs) = Some c"
  shows "\<exists>s. rd_startedAt (reduction_run obs) = Some s \<and> 6 * 3600 \<le> c - s \<and> confirmed_since s c obs"
  using reduction_invariant [of obs] assms by (simp add: actorStableHours_def)

definition calm :: "int \<Rightarrow> reduction_observation" where
  "calm t = \<lparr>ro_ts = t, ro_residualShare = fl (4 / 1000), ro_maxSourceHourOutflowShare = 0\<rparr>"

definition rerise :: "int \<Rightarrow> reduction_observation" where
  "rerise t = \<lparr>ro_ts = t, ro_residualShare = fl (5 / 100), ro_maxSourceHourOutflowShare = 0\<rparr>"

theorem reduction_confirmed_window_witness:
  "rd_confirmedAt (reduction_run [calm 0, calm 9000, calm 21600]) = Some 21600 \<and>
   confirmed_since 0 21600 [calm 0, calm 9000, calm 21600]"
proof -
  have c: "rd_confirmedAt (reduction_run [calm 0, calm 9000, calm 21600]) = Some 21600"
    and s: "rd_startedAt (reduction_run [calm 0, calm 9000, calm 21600]) = Some 0" by code_simp+
  from reduction_confirmed_window [OF c] c s show ?thesis by auto
qed

text \<open>
  The snapshot remembers an invalidation through a new window and its confirmation, and the gate
  refuses a snapshot that remembers one: a token invalidated once and confirmed again at the next
  attempt stays unknown.  (Had the second window been broken too, the memory would have been
  dropped and the third would pass.)
\<close>
lemma confirmed_again_still_invalidated:
  "let st = reduction_run [calm 0, calm 21600, rerise 30000, calm 40000, calm 61600] in
   rd_confirmedAt st = Some 61600 \<and> rd_invalidatedAt st = Some 30000"
  "let st = reduction_run [calm 0, calm 21600, rerise 30000, calm 40000, rerise 50000, calm 60000, calm 81600] in
   rd_confirmedAt st = Some 81600 \<and> rd_invalidatedAt st = None"
  by code_simp+

section \<open>The gates: what a pass needs\<close>

lemma gate_simps [simp]: "gr_status (gate s w a e) = s" "gr_reason (gate s w a e) = w"
  "gr_availableAt (gate s w a e) = a" "gr_expiresAt (gate s w a e) = e"
  by (simp_all add: gate_def)

lemma g01_pass:
  "gr_status (g01Identity p usdg row t) = Pass \<Longrightarrow> lv_venue row \<in> set (ep_venues p) \<and> lv_baseToken row \<noteq> None \<and> lv_quoteIsUsdg row \<and>
     (\<exists>birth. (case lv_tokenCreatedAt row of None \<Rightarrow> lv_poolCreatedAt row | Some b \<Rightarrow> Some b) = Some birth \<and>
        t - birth < 7 * 86400 \<and> gr_expiresAt (g01Identity p usdg row t) = Some (birth + 7 * 86400))"
  by (auto simp: g01Identity_def emergingMaxAgeDays_def split: if_splits option.splits)

lemma g02_pass: "gr_status (g02TokenCapability p base) = Pass \<Longrightarrow> \<exists>b tpl. base = Some b \<and> policyTemplate p b = Some tpl"
  by (auto simp: g02TokenCapability_def split: option.splits)

lemma g03_pass:
  "gr_status (g03PoolHookFee v venue cid through t) = Pass \<Longrightarrow> venue \<in> set (ep_venues (gv_policy v)) \<and> venue \<noteq> ''up33-cl'' \<and>
     (venue = ''univ4'' \<longrightarrow> gv_hooks v cid = Some NO_HOOKS) \<and> (\<exists>c. through = Some c \<and> t - c \<le> 1800)"
  by (auto simp: g03PoolHookFee_def Let_def sourceStaleSeconds_def split: if_splits option.splits)

lemma g05_pass:
  assumes "g05Concentration v base t = Inr g" "gr_status g = Pass"
  shows "\<exists>sply total. gv_supply v base = Some sply \<and> su_status sply \<noteq> Some ''reorg_stale'' \<and> big_of_string (su_total sply) = Some total \<and>
    total \<noteq> 0 \<and> (su_status sply = Some ''matched'' \<or> big_of_string (su_balanceSum sply) = Some total) \<and>
    (\<exists>share. gr_reason g = TopShare share \<and> share < maxTop10Pct)"
  using assms
  by (auto simp: g05Concentration_def bindR_eq_Inr Let_def parse_big_def not_le split: option.splits if_splits)

lemma g06_pass:
  "gr_status (g06InventoryReleased v base) = Pass \<Longrightarrow> \<exists>b st c. base = Some b \<and> 0 < gv_roles v b \<and> gv_reduction v b = Some st \<and>
     rd_confirmedAt st = Some c \<and> rd_invalidatedAt st = None"
  by (auto simp: g06InventoryReleased_def split: option.splits if_splits)

lemma g08_pass:
  assumes "g08SellEvidence v k cid esize through t = Inr g" "gr_status g = Pass"
  shows "(\<exists>c. through = Some c \<and> t - c \<le> 1800) \<and> (\<exists>n m. gr_reason g = Sells n m \<and> 5 \<le> n \<and> 3 \<le> m)"
  using assms
  by (auto simp: g08SellEvidence_def bindR_eq_Inr Let_def sourceStaleSeconds_def minSellTrades_def minSellActors_def
      split: option.splits if_splits prod.splits)

lemma unlisted_profile: "researchProfile (Some h) = Some p \<Longrightarrow> h = DEFAULT_PROFILE_HASH"
  by (auto simp: researchProfile_def RESEARCH_PROFILES_def DEFAULT_PROFILE_HASH_def split: if_splits)

lemma evaluateGates_fields:
  assumes "evaluateGates v k h t = Inr (g, ok)"
  shows "h = DEFAULT_PROFILE_HASH \<and> ok = all_pass g \<and> gb_G04 g = g04ProtectedDepth \<and> gb_G07 g = g07ExitDepth \<and>
    (\<exists>row. gv_ledger v k = Some row \<and> gb_G01 g = g01Identity (gv_policy v) (gv_stable v) row t \<and>
       gb_G02 g = g02TokenCapability (gv_policy v) (lv_baseToken row) \<and>
       gb_G03 g = g03PoolHookFee v (lv_venue row) (lv_canonicalId row) (gv_completeThrough v) t \<and>
       gb_G06 g = g06InventoryReleased v (lv_baseToken row) \<and>
       (gr_status (gb_G05 g) = Pass \<longrightarrow> (\<exists>b. lv_baseToken row = Some b \<and> g05Concentration v b t = Inr (gb_G05 g))) \<and>
       (\<exists>esize. g08SellEvidence v k (lv_canonicalId row) esize (gv_completeThrough v) t = Inr (gb_G08 g)))"
proof -
  obtain profile where p: "researchProfile (Some h) = Some profile"
    using assms by (auto simp: evaluateGates_def split: option.splits)
  obtain row where r: "gv_ledger v k = Some row"
    using assms by (auto simp: evaluateGates_def split: option.splits)
  obtain g5 g8 where g5: "(case lv_baseToken row of Some b \<Rightarrow> g05Concentration v b t
        | None \<Rightarrow> Inr (gate Unknown (Why ''base_token_unproven'') None None)) = Inr g5"
    and g8: "g08SellEvidence v k (lv_canonicalId row) (rp_entrySizeUsdg profile) (gv_completeThrough v) t = Inr g8"
    and g: "g = \<lparr>gb_G01 = g01Identity (gv_policy v) (gv_stable v) row t,
                 gb_G02 = g02TokenCapability (gv_policy v) (lv_baseToken row),
                 gb_G03 = g03PoolHookFee v (lv_venue row) (lv_canonicalId row) (gv_completeThrough v) t,
                 gb_G04 = g04ProtectedDepth, gb_G05 = g5, gb_G06 = g06InventoryReleased v (lv_baseToken row),
                 gb_G07 = g07ExitDepth, gb_G08 = g8, gb_profileHash = h, gb_policyVersion = ep_policyVersion (gv_policy v)\<rparr>"
    and ok: "ok = all_pass g"
    using assms by (auto simp: evaluateGates_def p r bindR_eq_Inr Let_def)
  have "gr_status g5 = Pass \<longrightarrow> (\<exists>b. lv_baseToken row = Some b \<and> g05Concentration v b t = Inr g5)"
    using g5 by (auto split: option.splits)
  with g8 show ?thesis unfolding ok using unlisted_profile [OF p] r by (auto simp: g)
qed


definition sample_gate_view :: gate_view where
  "sample_gate_view = \<lparr>gv_policy = EMERGING_POLICY 1 ''0xUSD'', gv_stable = ''0xUSD'',
     gv_ledger = (\<lambda>k. if k = ''p'' then Some \<lparr>lv_venue = ''univ3'', lv_canonicalId = ''0xpool'', lv_baseToken = Some ''0xb'',
       lv_quoteIsUsdg = True, lv_tokenCreatedAt = Some 1000, lv_poolCreatedAt = None\<rparr> else None),
     gv_hooks = (\<lambda>_. None),
     gv_supply = (\<lambda>_. Some \<lparr>su_total = ''1000'', su_balanceSum = ''1000'', su_status = None\<rparr>),
     gv_topBalances = (\<lambda>_. [(''0xb'', ''700''), (''0xc'', ''200'')]), gv_roles = (\<lambda>_. 1),
     gv_reduction = (\<lambda>_. Some (reduction_run [calm 0, calm 21600])),
     gv_swaps = (\<lambda>_. []), gv_completeThrough = Some 50000\<rparr>"


end
