(* ===== verification/JsRounding.thy ===== *)
theory JsRounding
  imports JsNumber
begin

text \<open>
  Order facts of double rounding: \<open>fl\<close> is monotone, keeps the sign and commutes with doubling.
  The components that compare quotients of rounded numbers rest on them.
\<close>

section \<open>Rounding to an integer\<close>

lemma round_half_even_bounds: "\<lfloor>x\<rfloor> \<le> round_half_even x" "round_half_even x \<le> \<lfloor>x\<rfloor> + 1"
  by (auto simp: round_half_even_def Let_def)

lemma round_half_even_mono:
  assumes "x \<le> y" shows "round_half_even x \<le> round_half_even y"
proof (cases "\<lfloor>x\<rfloor> < \<lfloor>y\<rfloor>")
  case True
  then show ?thesis using round_half_even_bounds [of x] round_half_even_bounds [of y] by linarith
next
  case False
  then have "\<lfloor>x\<rfloor> = \<lfloor>y\<rfloor>" using floor_mono [OF assms] by linarith
  then show ?thesis using assms by (auto simp: round_half_even_def Let_def)
qed

section \<open>Rounding to a double\<close>

lemma exp2_eq:
  assumes "0 < x" "2 powi k \<le> x" "x < 2 powi (k + 1)" shows "exp2 x = k"
proof (rule ccontr)
  assume "exp2 x \<noteq> k"
  then consider "exp2 x + 1 \<le> k" | "k + 1 \<le> exp2 x" by linarith
  then show False
  proof cases
    case 1
    then have "(2::rat) powi (exp2 x + 1) \<le> 2 powi k" by (intro power_int_increasing) simp_all
    with exp2_bounds [OF assms(1)] assms(2) show False by linarith
  next
    case 2
    then have "(2::rat) powi (k + 1) \<le> 2 powi exp2 x" by (intro power_int_increasing) simp_all
    with exp2_bounds [OF assms(1)] assms(3) show False by linarith
  qed
qed

lemma exp2_mono:
  assumes "0 < x" "x \<le> y" shows "exp2 x \<le> exp2 y"
proof -
  have "x < 2 powi (exp2 y + 1)" using exp2_bounds [of y] assms by linarith
  with exp2_less [OF assms(1)] show ?thesis by fastforce
qed

lemma powi_add2: "(2::rat) powi a * 2 powi b = 2 powi (a + b)"
  by (simp add: power_int_add)

lemma scaled_bounds:
  assumes "0 < x"
  shows "2 ^ 52 \<le> x * 2 powi (52 - exp2 x) \<and> x * 2 powi (52 - exp2 x) < 2 ^ 53"
proof -
  let ?s = "2 powi (52 - exp2 x) :: rat"
  have s: "0 < ?s" by simp
  have "2 powi exp2 x * ?s \<le> x * ?s" "x * ?s < 2 powi (exp2 x + 1) * ?s"
    using exp2_bounds [OF assms] s by (simp_all only: mult_right_mono mult_strict_right_mono less_imp_le)
  then show ?thesis
    using powi_add2 [of "exp2 x" "52 - exp2 x"] powi_add2 [of "exp2 x + 1" "52 - exp2 x"] by simp
qed

lemma fl_pos_bounds:
  assumes "0 < x" shows "2 powi exp2 x \<le> fl_pos x" "fl_pos x \<le> 2 powi (exp2 x + 1)"
proof -
  let ?m = "round_half_even (x * 2 powi (52 - exp2 x))"
  have "round_half_even (of_int (2 ^ 52)) \<le> ?m" "?m \<le> round_half_even (of_int (2 ^ 53))"
    using scaled_bounds [OF assms] by (auto intro!: round_half_even_mono)
  then have m: "(2::rat) ^ 52 \<le> of_int ?m" "(of_int ?m :: rat) \<le> 2 ^ 53"
    by (metis (mono_tags) of_int_le_iff of_int_numeral of_int_power round_half_even_int)+
  have s: "0 \<le> (2 powi (exp2 x - 52) :: rat)" by simp
  have "(2::rat) ^ 52 * 2 powi (exp2 x - 52) = 2 powi exp2 x" "(2::rat) ^ 53 * 2 powi (exp2 x - 52) = 2 powi (exp2 x + 1)"
    using powi_add2 [of 52 "exp2 x - 52"] powi_add2 [of 53 "exp2 x - 52"] by (simp_all add: add.commute)
  then show "2 powi exp2 x \<le> fl_pos x" "fl_pos x \<le> 2 powi (exp2 x + 1)"
    using mult_right_mono [OF m(1) s] mult_right_mono [OF m(2) s] by (simp_all add: fl_pos_def Let_def)
qed

lemma fl_pos_mono:
  assumes "0 < x" "x \<le> y" shows "fl_pos x \<le> fl_pos y"
proof (cases "exp2 x = exp2 y")
  case True
  have "round_half_even (x * 2 powi (52 - exp2 y)) \<le> round_half_even (y * 2 powi (52 - exp2 y))"
    using assms(2) by (intro round_half_even_mono mult_right_mono) simp_all
  then show ?thesis unfolding fl_pos_def Let_def True by (intro mult_right_mono) simp_all
next
  case False
  then have "exp2 x + 1 \<le> exp2 y" using exp2_mono [OF assms] by linarith
  then have "(2::rat) powi (exp2 x + 1) \<le> 2 powi exp2 y" by (intro power_int_increasing) simp_all
  then show ?thesis using fl_pos_bounds(2) [OF assms(1)] fl_pos_bounds(1) [of y] assms by linarith
qed

lemma fl_pos_positive: "0 < x \<Longrightarrow> 0 < fl_pos x"
  using fl_pos_bounds(1) [of x] zero_less_power_int [of "2 :: rat" "exp2 x"] by linarith

lemma fl_zero [simp]: "fl 0 = 0"
  by (simp add: fl_def)

lemma fl_mono: "x \<le> y \<Longrightarrow> fl x \<le> fl y"
  using fl_pos_mono [of x y] fl_pos_mono [of "- y" "- x"] fl_pos_positive [of "- x"] fl_pos_positive [of y]
  by (auto simp: fl_def)

lemma fl_sign [simp]: "0 \<le> fl x \<longleftrightarrow> 0 \<le> x" "0 < fl x \<longleftrightarrow> 0 < x" "fl x = 0 \<longleftrightarrow> x = 0"
  using fl_pos_positive [of x] fl_pos_positive [of "- x"] by (auto simp: fl_def)

lemma fl_pos_double:
  assumes "0 < x" shows "fl_pos (2 * x) = 2 * fl_pos x"
proof -
  have e: "exp2 (2 * x) = exp2 x + 1"
    using exp2_bounds [OF assms] assms by (intro exp2_eq) (simp_all add: power_int_add)
  have "2 * x * 2 powi (52 - (exp2 x + 1)) = x * (2 powi 1 * 2 powi (52 - (exp2 x + 1)))" by simp
  then have "2 * x * 2 powi (52 - (exp2 x + 1)) = x * 2 powi (52 - exp2 x)"
    unfolding powi_add2 by simp
  moreover have "(2::rat) powi (exp2 x + 1 - 52) = 2 * 2 powi (exp2 x - 52)"
    using powi_add2 [of 1 "exp2 x - 52"] by (simp add: algebra_simps)
  ultimately show ?thesis by (simp only: fl_pos_def e Let_def)
qed

lemma fl_double: "fl (2 * x) = 2 * fl x"
  using fl_pos_double [of x] fl_pos_double [of "- x"] by (auto simp: fl_def)

lemma fl_half: "fl (1 / 2) = 1 / 2"
  using fl_double [of "1 / 2"] fl_int [of 1] by simp

text \<open>A rounded quotient of rounded numbers never passes one half when the part is at most half the whole.\<close>

lemma ndiv_half:
  assumes "0 \<le> t" "2 * p \<le> t" shows "ndiv (fl p) (fl t) \<le> 1 / 2"
proof (cases "t = 0")
  case False
  then have "0 < fl t" using assms by simp
  moreover have "2 * fl p \<le> fl t" using fl_mono [OF assms(2)] by (simp add: fl_double)
  ultimately have "fl p / fl t \<le> 1 / 2" by (simp add: field_simps)
  then show ?thesis using fl_mono [of "fl p / fl t" "1 / 2"] by (simp add: ndiv_def fl_half)
qed (use assms in \<open>simp add: ndiv_def\<close>)

lemma ndiv_nonneg: "0 \<le> a \<Longrightarrow> 0 \<le> b \<Longrightarrow> 0 \<le> ndiv a b"
  by (simp add: ndiv_def)

end
