(* ===== verification/EmergingMetrics.thy ===== *)
theory EmergingMetrics
  imports JsRounding
begin

text \<open>
  The behaviour and market screens of emerging pools (\<open>indexer/emergingMetrics.ts\<close>): round-trip
  pairing, the behaviour class, retention over twelve hours and stabilization of the price.  Volumes of
  the behaviour screen are BigInts, the rest are doubles; the logarithm is a parameter.
\<close>

definition maxUnknownActorVolume :: rat where "maxUnknownActorVolume = fl (2 / 10)"
definition maxActorVolumeShare :: rat where "maxActorVolumeShare = fl (3 / 10)"
definition maxSingleTradeShare :: rat where "maxSingleTradeShare = fl (2 / 10)"
definition maxRoundTripShare :: rat where "maxRoundTripShare = fl (5 / 10)"
definition roundTripWindowSec :: int where "roundTripWindowSec = 600"
definition roundTripSizeTolerance :: rat where "roundTripSizeTolerance = fl (1 / 10)"
definition persistenceHours :: nat where "persistenceHours = 12"
definition retentionRatioMin :: rat where "retentionRatioMin = fl (5 / 10)"
definition collapseRatio :: rat where "collapseRatio = fl (35 / 100)"
definition quietVolumeQuotePerHour :: rat where "quietVolumeQuotePerHour = 100"
definition priceBarMinutes :: nat where "priceBarMinutes = 5"
definition stabilizationHours :: nat where "stabilizationHours = 6"
definition sigmaRatioMax :: rat where "sigmaRatioMax = fl (8 / 10)"
definition reboundMin :: rat where "reboundMin = fl (5 / 100)"
definition reboundSigmaMultiplier :: rat where "reboundSigmaMultiplier = 2"
definition minReturnSamplesPerWindow :: nat where "minReturnSamplesPerWindow = 24"

section \<open>Behaviour\<close>

datatype direction = Buy | Sell

record behavior_trade =
  bt_ts :: int
  bt_volumeQuote :: int
  bt_direction :: direction
  bt_actor :: "string option"

definition num :: "int \<Rightarrow> rat" where "num n = fl (of_int n)"

text \<open>The trades of one actor, with their place in the input.\<close>

type_synonym actor_trade = "nat \<times> behavior_trade"

fun by_actor :: "(nat \<times> behavior_trade) list \<Rightarrow> (string \<times> actor_trade list) list" where
  "by_actor [] = []"
| "by_actor ((i, t) # ts) =
     (case bt_actor t of
        None \<Rightarrow> by_actor ts
      | Some a \<Rightarrow>
          if bt_volumeQuote t \<le> 0 then by_actor ts
          else (let rest = by_actor ts;
                    mine = (case map_of rest a of None \<Rightarrow> [] | Some l \<Rightarrow> l)
                in (a, (i, t) # mine) # filter (\<lambda>e. fst e \<noteq> a) rest))"

definition pairs_with :: "nat list \<Rightarrow> actor_trade \<Rightarrow> actor_trade \<Rightarrow> bool" where
  "pairs_with paired x y \<longleftrightarrow>
     fst y \<notin> set paired \<and> bt_direction (snd y) \<noteq> bt_direction (snd x) \<and>
     bt_ts (snd y) - bt_ts (snd x) \<le> roundTripWindowSec * 1000 \<and>
     (let v = bt_volumeQuote (snd x); w = bt_volumeQuote (snd y);
          diff = (if v > w then v - w else w - v)
      in ndiv (num diff) (num (if v > w then v else w)) \<le> roundTripSizeTolerance)"

fun pair_actor :: "actor_trade list \<Rightarrow> nat list \<times> int \<Rightarrow> nat list \<times> int" where
  "pair_actor [] s = s"
| "pair_actor (x # ys) (paired, vol) =
     (if fst x \<in> set paired then pair_actor ys (paired, vol)
      else (case find (pairs_with paired x) ys of
              None \<Rightarrow> pair_actor ys (paired, vol)
            | Some y \<Rightarrow> pair_actor ys (fst y # fst x # paired,
                vol + (if bt_volumeQuote (snd x) < bt_volumeQuote (snd y)
                       then bt_volumeQuote (snd x) else bt_volumeQuote (snd y)))))"

definition total_volume :: "behavior_trade list \<Rightarrow> int" where
  "total_volume trades = sum_list (map bt_volumeQuote trades)"

definition roundTripShare :: "behavior_trade list \<Rightarrow> rat" where
  "roundTripShare trades =
     (let (paired, vol) = foldl (\<lambda>s e. pair_actor (snd e) s) ([], 0) (by_actor (enumerate 0 trades));
          whole = total_volume trades
      in if whole = 0 then 0 else ndiv (num vol) (num whole))"

datatype risk_class = LowObserved | Suspect | UnknownRisk

datatype risk_reason = DataGap | UnknownVolume | ActorShare | SingleTrade | RoundTrip

record behavior_assessment =
  ba_class :: risk_class
  ba_trades :: nat
  ba_uniqueActors :: nat
  ba_unknownVolumeShare :: rat
  ba_maxActorVolumeShare :: rat
  ba_maxSingleTradeShare :: rat
  ba_roundTripShare :: rat
  ba_reasons :: "risk_reason list"

fun actor_volumes :: "behavior_trade list \<Rightarrow> (string \<times> int) list" where
  "actor_volumes [] = []"
| "actor_volumes (t # ts) =
     (let rest = actor_volumes ts in
      case bt_actor t of
        None \<Rightarrow> rest
      | Some a \<Rightarrow> (a, bt_volumeQuote t + (case map_of rest a of None \<Rightarrow> 0 | Some v \<Rightarrow> v)) # filter (\<lambda>e. fst e \<noteq> a) rest)"

definition max_or_zero :: "int list \<Rightarrow> int" where
  "max_or_zero vs = foldl (\<lambda>a b. if a > b then a else b) 0 vs"

definition share_of :: "int \<Rightarrow> int \<Rightarrow> rat" where
  "share_of part whole = (if whole = 0 then 0 else ndiv (num part) (num whole))"

definition assessBehavior :: "behavior_trade list \<Rightarrow> bool \<Rightarrow> behavior_assessment" where
  "assessBehavior trades hasDataGap =
     (let whole = total_volume trades;
          unknownShare = share_of (total_volume (filter (\<lambda>t. bt_actor t = None) trades)) whole;
          actors = actor_volumes trades;
          maxActor = share_of (max_or_zero (map snd actors)) whole;
          maxSingle = share_of (max_or_zero (map bt_volumeQuote trades)) whole;
          rt = roundTripShare trades;
          checks = [(hasDataGap, UnknownRisk, DataGap), (unknownShare > maxUnknownActorVolume, UnknownRisk, UnknownVolume),
                    (maxActor > maxActorVolumeShare, Suspect, ActorShare), (maxSingle > maxSingleTradeShare, Suspect, SingleTrade),
                    (rt > maxRoundTripShare, Suspect, RoundTrip)]
      in \<lparr>ba_class = foldl (\<lambda>c (hit, cls, why). if hit then cls else c) LowObserved checks,
          ba_trades = length trades, ba_uniqueActors = length actors, ba_unknownVolumeShare = unknownShare,
          ba_maxActorVolumeShare = maxActor, ba_maxSingleTradeShare = maxSingle, ba_roundTripShare = rt,
          ba_reasons = map (\<lambda>(hit, cls, why). why) (filter fst checks)\<rparr>)"

section \<open>Retention\<close>

datatype retention_reason = NeedCompleteHours | AZero | BOverA | VOverM | QuietFloor

record retention_assessment =
  rt_pass :: bool
  rt_reasons :: "retention_reason list"
  rt_aMean :: rat
  rt_bMean :: rat
  rt_latest :: rat
  rt_mMean :: rat

definition nsum :: "rat list \<Rightarrow> rat" where "nsum xs = foldl nadd 0 xs"

text \<open>Comparing a quotient with a positive bound; the quotient by zero is an infinity or NaN.\<close>

definition quot_ge :: "rat \<Rightarrow> rat \<Rightarrow> rat \<Rightarrow> bool" where
  "quot_ge a b c = (if b = 0 then a > 0 else ndiv a b \<ge> c)"

definition quot_lt :: "rat \<Rightarrow> rat \<Rightarrow> rat \<Rightarrow> bool" where
  "quot_lt a b c = (if b = 0 then a < 0 else ndiv a b < c)"

definition assessRetention :: "rat list \<Rightarrow> rat \<Rightarrow> retention_assessment" where
  "assessRetention hours quietFloor =
     (if length hours \<noteq> persistenceHours
      then \<lparr>rt_pass = False, rt_reasons = [NeedCompleteHours], rt_aMean = 0, rt_bMean = 0, rt_latest = 0, rt_mMean = 0\<rparr>
      else
        let A = ndiv (nsum (take 6 hours)) 6; B = ndiv (nsum (drop 6 hours)) 6;
            V = hours ! (persistenceHours - 1);
            M = ndiv (nsum (take (persistenceHours - 1) hours)) (of_nat (persistenceHours - 1));
            pass = (A > 0 \<and> ndiv B A \<ge> retentionRatioMin \<and> quot_ge V M collapseRatio \<and> list_all (\<lambda>v. v \<ge> quietFloor) hours)
        in \<lparr>rt_pass = pass,
            rt_reasons = (if A \<le> 0 then [AZero] else []) @ (if A > 0 \<and> ndiv B A < retentionRatioMin then [BOverA] else []) @
              (if quot_lt V M collapseRatio then [VOverM] else []) @ (if list_ex (\<lambda>v. v < quietFloor) hours then [QuietFloor] else []),
            rt_aMean = A, rt_bMean = B, rt_latest = V, rt_mMean = M\<rparr>)"

section \<open>Stabilization\<close>

record price_bar =
  pb_close :: rat
  pb_hasVolume :: bool

definition stdev :: "rat list \<Rightarrow> rat" where
  "stdev values =
     (if length values < 2 then 0
      else let mean = ndiv (nsum values) (of_nat (length values));
               variance = ndiv (foldl (\<lambda>a v. nadd a (nmul (nsub v mean) (nsub v mean))) 0 values) (of_nat (length values - 1))
           in nsqrt variance)"

fun log_returns :: "(rat \<Rightarrow> rat) \<Rightarrow> price_bar list \<Rightarrow> rat list" where
  "log_returns nlog (a # b # bars) =
     (if \<not> pb_hasVolume b \<or> \<not> pb_hasVolume a \<or> pb_close b \<le> 0 \<or> pb_close a \<le> 0 then log_returns nlog (b # bars)
      else nlog (ndiv (pb_close b) (pb_close a)) # log_returns nlog (b # bars))"
| "log_returns nlog _ = []"

record stabilization_assessment =
  sb_pass :: bool
  sb_sigmaA :: rat
  sb_sigmaB :: rat
  sb_rebound :: rat

definition assessStabilization :: "(rat \<Rightarrow> rat) \<Rightarrow> price_bar list \<Rightarrow> rat \<Rightarrow> stabilization_assessment" where
  "assessStabilization nlog bars anchorLow =
     (let half = (stabilizationHours * 3600) div (priceBarMinutes * 60) div 2;
          returns = log_returns nlog bars;
          winA = take half returns;
          winB = (if length returns > half then drop (length returns - half) returns else []);
          sigmaA = stdev winA; sigmaB = stdev winB;
          lastClose = (if bars = [] then 0 else pb_close (last bars));
          rebound = (if anchorLow > 0 then nsub (ndiv lastClose anchorLow) 1 else -1);
          reboundNeed = max reboundMin (nmul reboundSigmaMultiplier sigmaB)
      in \<lparr>sb_pass = (length winA \<ge> minReturnSamplesPerWindow \<and> length winB \<ge> minReturnSamplesPerWindow \<and>
            sigmaA > 0 \<and> ndiv sigmaB sigmaA \<le> sigmaRatioMax \<and> rebound \<ge> reboundNeed),
          sb_sigmaA = sigmaA, sb_sigmaB = sigmaB, sb_rebound = rebound\<rparr>)"

section \<open>Lemmas: pairing\<close>

abbreviation vol_of :: "actor_trade \<Rightarrow> int" where "vol_of e \<equiv> bt_volumeQuote (snd e)"

lemma unpaired_remove:
  assumes "distinct (map fst ys)" "y \<in> set ys" "fst y \<notin> set P"
  shows "sum_list (map vol_of (filter (\<lambda>e. fst e \<notin> set P) ys)) =
    vol_of y + sum_list (map vol_of (filter (\<lambda>e. fst e \<notin> set (fst y # P)) ys))"
  using assms
proof (induction ys)
  case (Cons a ys)
  show ?case
  proof (cases "a = y")
    case True
    have "filter (\<lambda>e. fst e \<notin> set P) ys = filter (\<lambda>e. fst e \<notin> set (fst y # P)) ys"
      using Cons.prems(1) True by (intro filter_cong) (auto simp: image_iff)
    then show ?thesis using True Cons.prems(3) by simp
  next
    case False
    then have "y \<in> set ys" using Cons.prems(2) by simp
    moreover have "fst a \<noteq> fst y" using Cons.prems(1) \<open>y \<in> set ys\<close> by auto
    ultimately show ?thesis using Cons by auto
  qed
qed simp

lemma pair_actor_bound:
  assumes "distinct (map fst es)" "\<forall>e \<in> set es. 0 \<le> vol_of e"
  shows "2 * (snd (pair_actor es (P, v)) - v) \<le> sum_list (map vol_of (filter (\<lambda>e. fst e \<notin> set P) es))"
  using assms
proof (induction es arbitrary: P v)
  case (Cons x ys)
  have nn: "0 \<le> vol_of x" using Cons.prems by simp
  show ?case
  proof (cases "fst x \<in> set P")
    case True
    with Cons show ?thesis by simp
  next
    case out: False
    show ?thesis
    proof (cases "find (pairs_with P x) ys")
      case None
      with Cons.IH [of P v] Cons.prems out nn show ?thesis by simp
    next
      case (Some y)
      then have y: "y \<in> set ys" "fst y \<notin> set P"
        by (auto simp: find_Some_iff pairs_with_def)
      have d: "distinct (map fst ys)" and xy: "fst x \<noteq> fst y" "fst x \<notin> fst ` set ys" using Cons.prems(1) y(1) by auto
      have "filter (\<lambda>e. fst e \<notin> set (fst y # fst x # P)) ys = filter (\<lambda>e. fst e \<notin> set (fst y # P)) ys"
        using xy(2) by (intro filter_cong refl) (force simp: image_iff)
      then have "sum_list (map vol_of (filter (\<lambda>e. fst e \<notin> set P) ys)) =
          vol_of y + sum_list (map vol_of (filter (\<lambda>e. fst e \<notin> set (fst y # fst x # P)) ys))"
        using unpaired_remove [OF d y] by simp
      moreover have "2 * (snd (pair_actor ys (fst y # fst x # P, w)) - w)
          \<le> sum_list (map vol_of (filter (\<lambda>e. fst e \<notin> set (fst y # fst x # P)) ys))" for w
        using Cons.IH [OF d, of "fst y # fst x # P" w] Cons.prems(2) by simp
      note this [of "v + (if vol_of x < vol_of y then vol_of x else vol_of y)"]
      ultimately show ?thesis using out Some by (simp split: if_splits)
    qed
  qed
qed simp

lemma by_actor_keys: "distinct (map fst (by_actor es))"
  by (induction es rule: by_actor.induct) (auto simp: Let_def distinct_map_filter split: option.splits)

lemma by_actor_mem: "(a, l) \<in> set (by_actor es) \<Longrightarrow> distinct (map fst es) \<Longrightarrow>
    set l \<subseteq> set es \<and> distinct (map fst l) \<and> (\<forall>e \<in> set l. 0 < vol_of e)"
proof (induction es arbitrary: a l rule: by_actor.induct)
  case (2 i t ts)
  show ?case
  proof (cases "bt_actor t = None \<or> bt_volumeQuote t \<le> 0")
    case True
    with 2 show ?thesis by (fastforce split: option.splits)
  next
    case False
    then obtain b where b: "bt_actor t = Some b" "\<not> bt_volumeQuote t \<le> 0" by auto
    define mine where "mine = (case map_of (by_actor ts) b of None \<Rightarrow> [] | Some l \<Rightarrow> l)"
    have IH: "(c, m) \<in> set (by_actor ts) \<Longrightarrow> set m \<subseteq> set ts \<and> distinct (map fst m) \<and> (\<forall>e \<in> set m. 0 < vol_of e)" for c m
      using "2.IH"(3) [OF b] "2.prems"(2) by simp
    have mine: "set mine \<subseteq> set ts \<and> distinct (map fst mine) \<and> (\<forall>e \<in> set mine. 0 < vol_of e)"
      unfolding mine_def using IH by (cases "map_of (by_actor ts) b") (use map_of_SomeD in \<open>fastforce+\<close>)
    have "i \<notin> fst ` set ts" using "2.prems"(2) by simp
    then have "i \<notin> fst ` set mine" using mine by blast
    with mine IH "2.prems"(1) b show ?thesis by (auto simp: Let_def mine_def [symmetric])
  qed
qed simp

lemma sum_filter_key:
  fixes h :: "actor_trade list \<Rightarrow> int"
  assumes "distinct (map fst m)"
  shows "sum_list (map (\<lambda>e. h (snd e)) m) =
    (case map_of m a of None \<Rightarrow> 0 | Some l \<Rightarrow> h l) + sum_list (map (\<lambda>e. h (snd e)) (filter (\<lambda>e. fst e \<noteq> a) m))"
  using assms
proof (induction m)
  case (Cons x m)
  show ?case
  proof (cases "fst x = a")
    case True
    with Cons.prems have "map_of m a = None" by (force simp: map_of_eq_None_iff)
    with Cons True show ?thesis by simp
  qed (use Cons in simp)
qed simp

lemma by_actor_sum:
  assumes "\<forall>e \<in> set es. 0 \<le> vol_of e"
  shows "sum_list (map (\<lambda>e. sum_list (map vol_of (snd e))) (by_actor es)) \<le> sum_list (map vol_of es)"
  using assms
proof (induction es rule: by_actor.induct)
  case (2 i t ts)
  show ?case
  proof (cases "bt_actor t = None \<or> bt_volumeQuote t \<le> 0")
    case True
    with 2 show ?thesis by (fastforce split: option.splits)
  next
    case False
    then obtain b where b: "bt_actor t = Some b" "\<not> bt_volumeQuote t \<le> 0" by auto
    have "sum_list (map (\<lambda>e. sum_list (map vol_of (snd e))) (by_actor ts)) \<le> sum_list (map vol_of ts)"
      using "2.IH"(3) [OF b] "2.prems" by simp
    then show ?thesis
      using b sum_filter_key [OF by_actor_keys [of ts], of "\<lambda>l. sum_list (map vol_of l)" b]
      by (auto simp: Let_def split: option.splits)
  qed
qed simp

lemma pair_actors_bound:
  assumes "\<forall>(a, l) \<in> set m. distinct (map fst l) \<and> (\<forall>e \<in> set l. 0 \<le> vol_of e)"
  shows "2 * (snd (foldl (\<lambda>s e. pair_actor (snd e) s) s m) - snd s) \<le> sum_list (map (\<lambda>e. sum_list (map vol_of (snd e))) m)"
  using assms
proof (induction m arbitrary: s)
  case (Cons x m)
  obtain P v where s: "s = (P, v)" by fastforce
  have x: "distinct (map fst (snd x))" "\<forall>e \<in> set (snd x). 0 \<le> vol_of e" using Cons.prems by (auto simp: split_beta)
  have "sum_list (map vol_of (filter (\<lambda>e. fst e \<notin> set P) l)) \<le> sum_list (map vol_of l)"
    if "\<forall>e \<in> set l. 0 \<le> vol_of e" for l using that by (induction l) auto
  then have "2 * (snd (pair_actor (snd x) s) - snd s) \<le> sum_list (map vol_of (snd x))"
    using pair_actor_bound [OF x, of P v] x(2) by (fastforce simp: s)
  moreover have "2 * (snd (foldl (\<lambda>s e. pair_actor (snd e) s) (pair_actor (snd x) s) m) - snd (pair_actor (snd x) s))
      \<le> sum_list (map (\<lambda>e. sum_list (map vol_of (snd e))) m)"
    using Cons by simp
  ultimately show ?case by simp
qed simp

text \<open>Each pair adds the smaller volume of two trades, so at most half the volume is ever paired.\<close>

lemma roundTripShare_half:
  assumes "\<forall>t \<in> set trades. 0 \<le> bt_volumeQuote t"
  shows "roundTripShare trades \<le> 1 / 2"
proof -
  let ?m = "by_actor (enumerate 0 trades)"
  let ?v = "snd (foldl (\<lambda>s e. pair_actor (snd e) s) ([], 0) ?m)"
  have nn: "\<forall>e \<in> set (enumerate 0 trades). 0 \<le> vol_of e"
    using assms by (auto simp: enumerate_eq_zip dest: set_zip_rightD)
  have "\<forall>(a, l) \<in> set ?m. distinct (map fst l) \<and> (\<forall>e \<in> set l. 0 \<le> vol_of e)"
    using by_actor_mem [of _ _ "enumerate 0 trades"] by (force simp: less_imp_le)
  then have "2 * ?v \<le> sum_list (map vol_of (enumerate 0 trades))"
    using pair_actors_bound [of ?m "([], 0)"] by_actor_sum [OF nn] by simp
  also have "map vol_of (enumerate 0 trades) = map bt_volumeQuote trades"
    using map_map [of bt_volumeQuote snd "enumerate 0 trades"] by (simp add: comp_def)
  finally have v: "2 * ?v \<le> total_volume trades" by (simp add: total_volume_def)
  have "0 \<le> total_volume trades" using assms by (auto simp: total_volume_def intro!: sum_list_nonneg)
  moreover have "(2::rat) * of_int ?v \<le> of_int (total_volume trades)"
    using v by (metis of_int_le_iff of_int_mult of_int_numeral)
  ultimately have "ndiv (num ?v) (num (total_volume trades)) \<le> 1 / 2"
    unfolding num_def by (intro ndiv_half) simp_all
  then show ?thesis by (simp add: roundTripShare_def Let_def split_beta)
qed

section \<open>Lemmas: the verdicts\<close>

lemma thresholds: "maxRoundTripShare = 1 / 2" "retentionRatioMin = 1 / 2"
  using fl_half by (simp_all add: maxRoundTripShare_def retentionRatioMin_def)

text \<open>
  A trading pool is called low-observed exactly when no screen hit: no data gap, the unresolved
  volume at most a fifth, no actor above the actor share, no trade above the trade share, and no
  more than half the volume in round trips; the reasons are the screens that hit.  With
  non-negative volumes the last screen cannot hit: each pair counts the smaller of two
  volumes, so the paired share never passes one half.
\<close>
theorem assessBehavior_verdict:
  "(ba_class (assessBehavior trades gap) = LowObserved \<longleftrightarrow> ba_reasons (assessBehavior trades gap) = []) \<and>
   (ba_reasons (assessBehavior trades gap) = [] \<longleftrightarrow>
      \<not> gap \<and> ba_unknownVolumeShare (assessBehavior trades gap) \<le> maxUnknownActorVolume \<and>
      ba_maxActorVolumeShare (assessBehavior trades gap) \<le> maxActorVolumeShare \<and>
      ba_maxSingleTradeShare (assessBehavior trades gap) \<le> maxSingleTradeShare \<and>
      ba_roundTripShare (assessBehavior trades gap) \<le> 1 / 2) \<and>
   ((\<forall>t \<in> set trades. 0 \<le> bt_volumeQuote t) \<longrightarrow> RoundTrip \<notin> set (ba_reasons (assessBehavior trades gap)))"
proof -
  have "\<exists>t \<in> set trades. bt_volumeQuote t < 0" if "1 < roundTripShare trades * 2"
  proof (rule ccontr)
    assume "\<not> (\<exists>t \<in> set trades. bt_volumeQuote t < 0)"
    then have "roundTripShare trades \<le> 1 / 2" by (intro roundTripShare_half) (auto simp: not_less)
    with that show False by simp
  qed
  then show ?thesis by (auto simp: assessBehavior_def Let_def thresholds not_less not_le)
qed

text \<open>One actor, the whole volume in same-size reversals ten minutes apart: the share is one half.\<close>

definition wash :: "behavior_trade list" where
  "wash = [\<lparr>bt_ts = 0, bt_volumeQuote = 1000, bt_direction = Buy, bt_actor = Some ''0xa''\<rparr>,
           \<lparr>bt_ts = 60, bt_volumeQuote = 1000, bt_direction = Sell, bt_actor = Some ''0xa''\<rparr>]"

theorem assessBehavior_verdict_witness:
  "roundTripShare wash = 1 / 2 \<and> RoundTrip \<notin> set (ba_reasons (assessBehavior wash False))"
proof -
  have "roundTripShare wash = 1 / 2" by code_simp
  moreover have "\<forall>t \<in> set wash. 0 \<le> bt_volumeQuote t" by (simp add: wash_def)
  ultimately show ?thesis using assessBehavior_verdict [of wash False] by blast
qed

text \<open>Two opposite trades almost seven days apart still pair: the window is in thousandths of a second, the times in seconds.\<close>

lemma round_trip_window_in_milliseconds:
  "roundTripShare [\<lparr>bt_ts = 0, bt_volumeQuote = 1000, bt_direction = Buy, bt_actor = Some ''0xa''\<rparr>,
     \<lparr>bt_ts = 600000, bt_volumeQuote = 1000, bt_direction = Sell, bt_actor = Some ''0xa''\<rparr>] = 1 / 2"
  by code_simp

lemma nadd_nonneg: "0 \<le> a \<Longrightarrow> 0 \<le> b \<Longrightarrow> 0 \<le> nadd a b"
  by (simp add: nadd_def)

lemma nadd_pos: "0 \<le> a \<Longrightarrow> 0 \<le> b \<Longrightarrow> 0 < a \<or> 0 < b \<Longrightarrow> 0 < nadd a b"
  by (auto simp: nadd_def)

lemma nsum_from_pos: "0 \<le> a \<Longrightarrow> list_all (\<lambda>v. 0 \<le> v) xs \<Longrightarrow>
    0 \<le> foldl nadd a xs \<and> (0 < foldl nadd a xs \<longleftrightarrow> 0 < a \<or> list_ex (\<lambda>v. 0 < v) xs)"
proof (induction xs arbitrary: a)
  case (Cons x xs)
  then have "0 \<le> nadd a x" by (simp add: nadd_nonneg)
  moreover have "0 < nadd a x \<longleftrightarrow> 0 < a \<or> 0 < x" using Cons.prems by (auto simp: nadd_def add_pos_nonneg add_nonneg_pos)
  ultimately show ?case using Cons by auto
qed simp

lemma nsum_pos: "list_all (\<lambda>v. 0 \<le> v) xs \<Longrightarrow> 0 < nsum xs \<longleftrightarrow> list_ex (\<lambda>v. 0 < v) xs"
  unfolding nsum_def using nsum_from_pos [of 0 xs] by simp

lemma ndiv_pos_iff: "0 < b \<Longrightarrow> 0 < ndiv a b \<longleftrightarrow> 0 < a"
  by (simp add: ndiv_def zero_less_divide_iff)

text \<open>
  Retention passes exactly when no reason is given against it, for any quiet floor that is
  not negative; and a pass means twelve hours, each at the floor or above, a positive first-half
  mean, a second half at least half of it, and a last hour at or above the collapse ratio of the
  hours before.  Any other number of hours fails.
\<close>
theorem assessRetention_verdict:
  assumes "0 \<le> quietFloor"
  shows "(rt_pass (assessRetention hours quietFloor) \<longleftrightarrow> rt_reasons (assessRetention hours quietFloor) = []) \<and>
    (rt_pass (assessRetention hours quietFloor) \<longrightarrow>
       length hours = 12 \<and> (\<forall>v \<in> set hours. quietFloor \<le> v) \<and> 0 < rt_aMean (assessRetention hours quietFloor) \<and>
       1 / 2 \<le> ndiv (rt_bMean (assessRetention hours quietFloor)) (rt_aMean (assessRetention hours quietFloor)) \<and>
       0 < rt_mMean (assessRetention hours quietFloor) \<and>
       collapseRatio \<le> ndiv (rt_latest (assessRetention hours quietFloor)) (rt_mMean (assessRetention hours quietFloor)))"
proof (cases "length hours = 12")
  case False
  then show ?thesis by (simp add: assessRetention_def persistenceHours_def)
next
  case True
  define A where "A = ndiv (nsum (take 6 hours)) 6"
  define B where "B = ndiv (nsum (drop 6 hours)) 6"
  define M where "M = ndiv (nsum (take 11 hours)) 11"
  have M: "0 < M" if A: "0 < A" and floor: "list_all (\<lambda>v. quietFloor \<le> v) hours"
  proof -
    have nn: "list_all (\<lambda>v. 0 \<le> v) hours" using floor assms by (auto simp: list_all_iff)
    then have "list_all (\<lambda>v. 0 \<le> v) (take 6 hours)" "list_all (\<lambda>v. 0 \<le> v) (take 11 hours)"
      by (auto simp: list_all_iff dest: in_set_takeD)
    moreover have "list_ex (\<lambda>v. 0 < v) (take 6 hours)"
      using A calculation(1) nsum_pos by (simp add: A_def ndiv_pos_iff)
    then have "list_ex (\<lambda>v. 0 < v) (take 11 hours)"
      using set_take_subset_set_take [of 6 11 hours] by (auto simp: list_ex_iff)
    ultimately show ?thesis using nsum_pos by (simp add: M_def ndiv_pos_iff)
  qed
  have E: "list_ex (\<lambda>v. v < quietFloor) hours \<longleftrightarrow> \<not> list_all (\<lambda>v. quietFloor \<le> v) hours"
    by (auto simp: list_ex_iff list_all_iff not_le)
  have "rt_pass (assessRetention hours quietFloor) = (A > 0 \<and> ndiv B A \<ge> 1 / 2 \<and> quot_ge (hours ! 11) M collapseRatio \<and> list_all (\<lambda>v. v \<ge> quietFloor) hours)"
    "rt_reasons (assessRetention hours quietFloor) = (if A \<le> 0 then [AZero] else []) @ (if A > 0 \<and> ndiv B A < 1 / 2 then [BOverA] else []) @
       (if quot_lt (hours ! 11) M collapseRatio then [VOverM] else []) @ (if list_ex (\<lambda>v. v < quietFloor) hours then [QuietFloor] else [])"
    "rt_aMean (assessRetention hours quietFloor) = A" "rt_bMean (assessRetention hours quietFloor) = B"
    "rt_mMean (assessRetention hours quietFloor) = M" "rt_latest (assessRetention hours quietFloor) = hours ! 11"
    using True by (simp_all add: assessRetention_def persistenceHours_def Let_def A_def B_def M_def thresholds)
  then show ?thesis using True M by (auto simp: E quot_ge_def quot_lt_def list_all_iff not_le not_less)
qed

theorem assessRetention_verdict_witness:
  "rt_pass (assessRetention (replicate 12 500) 100) \<and> rt_reasons (assessRetention (replicate 12 500) 100) = []"
proof -
  have "rt_pass (assessRetention (replicate 12 500) 100)" by code_simp
  with assessRetention_verdict [of 100 "replicate 12 500"] show ?thesis by simp
qed

end
