(* ===== verification/EmergingSignals.thy ===== *)
theory EmergingSignals
  imports EmergingGates EmergingMetrics "HOL-Library.List_Lexorder"
begin

text \<open>
  The signal state machine (\<open>indexer/emergingSignals.ts\<close>): one pass over the tracked pools
  that appends decision rows and never edits one.  The queries' results are fields of a
  \<open>signal_view\<close>; the JSON metrics a row carries are not modelled, its gates are.
\<close>

section \<open>Decision rows\<close>

datatype signal_state = WatchCandidate | SignalInvalidated

record signal_row =
  sg_id :: string
  sg_poolKey :: string
  sg_profileHash :: string
  sg_state :: signal_state
  sg_decisionAt :: int
  sg_anchorLow :: "rat option"
  sg_gates :: gate_bundle

record signal_store =
  ss_rows :: "signal_row list"
  ss_seq :: int

text \<open>\<open>ORDER BY decision_at DESC, signal_id DESC LIMIT 1\<close>: the ids compare as text.\<close>

definition later_signal :: "signal_row \<Rightarrow> signal_row \<Rightarrow> bool" where
  "later_signal a b \<longleftrightarrow> sg_decisionAt b < sg_decisionAt a \<or>
     sg_decisionAt a = sg_decisionAt b \<and> map (of_char :: char \<Rightarrow> nat) (sg_id b) < map of_char (sg_id a)"

definition latest_signal :: "signal_row list \<Rightarrow> string \<Rightarrow> string \<Rightarrow> signal_row option" where
  "latest_signal rows k h =
     foldl (\<lambda>best r. case best of None \<Rightarrow> Some r | Some b \<Rightarrow> if later_signal r b then Some r else best) None
       (filter (\<lambda>r. sg_poolKey r = k \<and> sg_profileHash r = h) rows)"

definition recordSignal :: "int \<Rightarrow> string \<Rightarrow> string \<Rightarrow> signal_state \<Rightarrow> rat option \<Rightarrow> gate_bundle \<Rightarrow> signal_store \<Rightarrow> signal_store" where
  "recordSignal t k h state anchor g s =
     (let n = ss_seq s + 1;
          row = \<lparr>sg_id = k @ '':'' @ h @ '':'' @ big_to_string t @ '':'' @ big_to_string n, sg_poolKey = k, sg_profileHash = h,
                 sg_state = state, sg_decisionAt = t, sg_anchorLow = anchor, sg_gates = g\<rparr>
      in s\<lparr>ss_seq := n, ss_rows := ss_rows s @ [row]\<rparr>)"

section \<open>The evidence a decision reads\<close>

record swap_row =
  sr_ts :: "int option"
  sr_amount0 :: "string option"
  sr_amount1 :: "string option"
  sr_recipient :: "string option"
  sr_sqrtPriceX96 :: "string option"

record pool_row =
  po_poolKey :: string
  po_baseToken :: "string option"
  po_canonicalId :: string

record signal_view =
  si_gates :: gate_view
  si_pools :: "pool_row list"
  si_swaps :: "string \<Rightarrow> int \<Rightarrow> swap_row list"
  si_hourly :: "string \<Rightarrow> int \<Rightarrow> int \<Rightarrow> rat option list"
  si_bars :: "string \<Rightarrow> int \<Rightarrow> int \<Rightarrow> price_bar list"
  si_lastClose :: "string \<Rightarrow> rat option"
  si_reduction :: "string \<Rightarrow> reduction_state"
  si_canonical :: "string \<Rightarrow> string"

fun behavior_trades :: "string \<Rightarrow> swap_row list \<Rightarrow> (behavior_trade list \<times> bool) res" where
  "behavior_trades pool [] = Inr ([], False)"
| "behavior_trades pool (r # rs) =
     (case (sr_ts r, sr_amount0 r, sr_amount1 r) of
        (Some ts, Some a0, Some a1) \<Rightarrow>
          bindR (parse_big a0) (\<lambda>x. bindR (parse_big a1) (\<lambda>y. bindR (behavior_trades pool rs) (\<lambda>(trades, gap).
            let recipient = toLower (case sr_recipient r of None \<Rightarrow> [] | Some s \<Rightarrow> s) in
            Inr (\<lparr>bt_ts = ts, bt_volumeQuote = (if x < 0 then y else - y), bt_direction = (if x < 0 then Buy else Sell),
                  bt_actor = (if recipient \<noteq> [] \<and> recipient \<noteq> pool then Some recipient else None)\<rparr> # trades, gap))))
      | _ \<Rightarrow> bindR (behavior_trades pool rs) (\<lambda>(trades, gap). Inr (trades, True)))"

definition behaviorOf :: "signal_view \<Rightarrow> string \<Rightarrow> int \<Rightarrow> behavior_assessment res" where
  "behaviorOf v k t =
     bindR (behavior_trades (si_canonical v k) (si_swaps v k (t - int stabilizationHours * 3600))) (\<lambda>(trades, gap).
       Inr (assessBehavior trades gap))"

definition priceBelowAnchor :: "signal_view \<Rightarrow> string \<Rightarrow> rat option \<Rightarrow> bool" where
  "priceBelowAnchor v k anchorLow =
     (case anchorLow of
        None \<Rightarrow> True
      | Some a \<Rightarrow> if a \<le> 0 then True
                  else (case si_lastClose v k of None \<Rightarrow> False | Some c \<Rightarrow> c < a))"

fun lowest_price :: "swap_row list \<Rightarrow> rat option \<Rightarrow> rat option res" where
  "lowest_price [] low = Inr low"
| "lowest_price (r # rs) low =
     (case sr_sqrtPriceX96 r of
        None \<Rightarrow> lowest_price rs low
      | Some text \<Rightarrow> bindR (parse_big text) (\<lambda>p.
          let price = ndiv (num p) (num (2 ^ 96)); sq = nmul price price in
          lowest_price rs (if sq > 0 \<and> (case low of None \<Rightarrow> True | Some l \<Rightarrow> sq < l) then Some sq else low)))"

definition anchorLowFor :: "signal_view \<Rightarrow> string \<Rightarrow> int option \<Rightarrow> rat option res" where
  "anchorLowFor v k since = (case since of None \<Rightarrow> Inr None | Some s \<Rightarrow> lowest_price (si_swaps v k s) None)"

section \<open>One pass\<close>

definition candidate_now :: "(rat \<Rightarrow> rat) \<Rightarrow> signal_view \<Rightarrow> pool_row \<Rightarrow> int \<Rightarrow> rat option res" where
  "candidate_now nlog v pool t =
     (let k = po_poolKey pool in
      case map_option (si_reduction v) (po_baseToken pool) of
        None \<Rightarrow> Inr None
      | Some rd \<Rightarrow>
          if rd_confirmedAt rd = None then Inr None
          else bindR (behaviorOf v k t) (\<lambda>b.
            if ba_class b \<noteq> LowObserved then Inr None
            else let hours = si_hourly v k (t - (int persistenceHours + 1) * 3600) t in
              if length hours < persistenceHours then Inr None
              else if \<not> rt_pass (assessRetention (map (\<lambda>h. case h of None \<Rightarrow> 0 | Some x \<Rightarrow> x)
                          (drop (length hours - persistenceHours) hours)) quietVolumeQuotePerHour) then Inr None
              else bindR (anchorLowFor v k (rd_startedAt rd)) (\<lambda>anchor. case anchor of
                     None \<Rightarrow> Inr None
                   | Some low \<Rightarrow>
                       if sb_pass (assessStabilization nlog (si_bars v k (t - int stabilizationHours * 3600) t) low)
                       then Inr (Some low) else Inr None)))"

definition signal_step :: "(rat \<Rightarrow> rat) \<Rightarrow> signal_view \<Rightarrow> int \<Rightarrow> pool_row \<Rightarrow> signal_store \<Rightarrow> signal_store res" where
  "signal_step nlog v t pool s =
     (let k = po_poolKey pool; h = DEFAULT_PROFILE_HASH; last_row = latest_signal (ss_rows s) k h in
      bindR (evaluateGates (si_gates v) k h t) (\<lambda>(gates, allPass).
        case last_row of
          Some latest \<Rightarrow>
            if sg_state latest = WatchCandidate then
              bindR (if \<not> allPass then Inr True
                     else bindR (behaviorOf v k t) (\<lambda>b. Inr (ba_class b \<noteq> LowObserved \<or> priceBelowAnchor v k (sg_anchorLow latest))))
                (\<lambda>broken. if broken then Inr (recordSignal t k h SignalInvalidated (sg_anchorLow latest) gates s) else Inr s)
            else if \<not> allPass then Inr s
            else bindR (candidate_now nlog v pool t) (\<lambda>c. case c of
                   None \<Rightarrow> Inr s | Some low \<Rightarrow> Inr (recordSignal t k h WatchCandidate (Some low) gates s))
        | None \<Rightarrow>
            if \<not> allPass then Inr s
            else bindR (candidate_now nlog v pool t) (\<lambda>c. case c of
                   None \<Rightarrow> Inr s | Some low \<Rightarrow> Inr (recordSignal t k h WatchCandidate (Some low) gates s))))"

fun signal_pass :: "(rat \<Rightarrow> rat) \<Rightarrow> signal_view \<Rightarrow> int \<Rightarrow> pool_row list \<Rightarrow> signal_store \<Rightarrow> signal_store res" where
  "signal_pass nlog v t [] s = Inr s"
| "signal_pass nlog v t (p # ps) s = bindR (signal_step nlog v t p s) (signal_pass nlog v t ps)"

definition runEmergingSignalSweep :: "(rat \<Rightarrow> rat) \<Rightarrow> signal_view \<Rightarrow> int \<Rightarrow> signal_store \<Rightarrow> signal_store res" where
  "runEmergingSignalSweep nlog v t s = signal_pass nlog v t (si_pools v) s"

section \<open>The pass only appends, and only invalidations\<close>

lemma gates_never_all_pass: "evaluateGates v k h t = Inr (g, ok) \<Longrightarrow> \<not> ok"
  using evaluateGates_fields [of v k h t g ok] by (auto simp: all_pass_def g04ProtectedDepth_def)

lemma signal_step_cases:
  assumes "signal_step nlog v t p s = Inr s'"
  shows "s' = s \<and> (\<forall>r. latest_signal (ss_rows s) (po_poolKey p) DEFAULT_PROFILE_HASH = Some r \<longrightarrow> sg_state r \<noteq> WatchCandidate) \<or>
    (\<exists>r g. latest_signal (ss_rows s) (po_poolKey p) DEFAULT_PROFILE_HASH = Some r \<and> sg_state r = WatchCandidate \<and>
       s' = recordSignal t (po_poolKey p) DEFAULT_PROFILE_HASH SignalInvalidated (sg_anchorLow r) g s)"
proof -
  obtain g ok where e: "evaluateGates (si_gates v) (po_poolKey p) DEFAULT_PROFILE_HASH t = Inr (g, ok)"
    using assms by (auto simp: signal_step_def Let_def bindR_eq_Inr)
  then have "\<not> ok" by (rule gates_never_all_pass)
  with assms e show ?thesis by (auto simp: signal_step_def Let_def split: option.splits if_splits)
qed

definition appends_invalidations :: "int \<Rightarrow> signal_store \<Rightarrow> signal_store \<Rightarrow> bool" where
  "appends_invalidations t s s' \<longleftrightarrow> (\<exists>new. ss_rows s' = ss_rows s @ new \<and> ss_seq s' = ss_seq s + int (length new) \<and>
     (\<forall>r \<in> set new. sg_state r = SignalInvalidated \<and> sg_decisionAt r = t \<and> sg_profileHash r = DEFAULT_PROFILE_HASH))"

lemma appends_refl [simp]: "appends_invalidations t s s"
  by (simp add: appends_invalidations_def)

lemma appends_trans:
  assumes "appends_invalidations t a b" "appends_invalidations t b c" shows "appends_invalidations t a c"
proof -
  obtain m n where "ss_rows b = ss_rows a @ m" "ss_seq b = ss_seq a + int (length m)"
    "\<forall>r \<in> set m. sg_state r = SignalInvalidated \<and> sg_decisionAt r = t \<and> sg_profileHash r = DEFAULT_PROFILE_HASH"
    "ss_rows c = ss_rows b @ n" "ss_seq c = ss_seq b + int (length n)"
    "\<forall>r \<in> set n. sg_state r = SignalInvalidated \<and> sg_decisionAt r = t \<and> sg_profileHash r = DEFAULT_PROFILE_HASH"
    using assms by (auto simp: appends_invalidations_def)
  then have "ss_rows c = ss_rows a @ (m @ n) \<and> ss_seq c = ss_seq a + int (length (m @ n)) \<and>
      (\<forall>r \<in> set (m @ n). sg_state r = SignalInvalidated \<and> sg_decisionAt r = t \<and> sg_profileHash r = DEFAULT_PROFILE_HASH)" by auto
  then show ?thesis unfolding appends_invalidations_def by blast
qed

lemma record_appends: "appends_invalidations t s (recordSignal t k DEFAULT_PROFILE_HASH SignalInvalidated a g s)"
  by (simp add: appends_invalidations_def recordSignal_def Let_def)

lemma signal_pass_appends: "signal_pass nlog v t ps s = Inr s' \<Longrightarrow> appends_invalidations t s s'"
proof (induction ps arbitrary: s)
  case (Cons p ps)
  then obtain s1 where 1: "signal_step nlog v t p s = Inr s1" and 2: "signal_pass nlog v t ps s1 = Inr s'"
    by (auto simp: bindR_eq_Inr)
  have "appends_invalidations t s s1" using signal_step_cases [OF 1] by (auto intro: record_appends)
  then show ?case using Cons.IH [OF 2] appends_trans by blast
qed simp

lemma latest_signal_max:
  assumes "latest_signal rows k h = Some b"
  shows "b \<in> set (filter (\<lambda>r. sg_poolKey r = k \<and> sg_profileHash r = h) rows) \<and>
    (\<forall>r \<in> set (filter (\<lambda>r. sg_poolKey r = k \<and> sg_profileHash r = h) rows). sg_decisionAt r \<le> sg_decisionAt b)"
proof -
  define pick where "pick = (\<lambda>best r. case best of None \<Rightarrow> Some r | Some b \<Rightarrow> if later_signal r b then Some r else best)"
  have "case foldl pick None xs of None \<Rightarrow> xs = [] | Some b \<Rightarrow> b \<in> set xs \<and> (\<forall>r \<in> set xs. sg_decisionAt r \<le> sg_decisionAt b)" for xs
  proof (induction xs rule: rev_induct)
    case (snoc x xs)
    show ?case
    proof (cases "foldl pick None xs")
      case (Some b)
      have "sg_decisionAt b \<le> sg_decisionAt x" if "later_signal x b" using that by (auto simp: later_signal_def)
      moreover have "sg_decisionAt x \<le> sg_decisionAt b" if "\<not> later_signal x b" using that by (auto simp: later_signal_def)
      ultimately show ?thesis using snoc Some by (auto simp: pick_def)
    qed (use snoc in \<open>simp add: pick_def\<close>)
  qed simp
  from this [of "filter (\<lambda>r. sg_poolKey r = k \<and> sg_profileHash r = h) rows"] show ?thesis
    using assms by (simp add: latest_signal_def pick_def [symmetric])
qed

lemma latest_after_append:
  assumes "\<forall>r \<in> set rows. sg_decisionAt r \<le> t \<and> (sg_decisionAt r = t \<longrightarrow> sg_state r = SignalInvalidated)"
    and "\<forall>r \<in> set new. sg_state r = SignalInvalidated \<and> sg_decisionAt r = t"
    and "\<forall>r. latest_signal rows k h = Some r \<longrightarrow> sg_state r = SignalInvalidated"
    and "latest_signal (rows @ new) k h = Some b"
  shows "sg_state b = SignalInvalidated"
proof (cases "filter (\<lambda>r. sg_poolKey r = k \<and> sg_profileHash r = h) new = []")
  case True
  then have "latest_signal (rows @ new) k h = latest_signal rows k h" by (simp add: latest_signal_def)
  with assms(3,4) show ?thesis by simp
next
  case False
  then obtain r where "r \<in> set new" "sg_poolKey r = k \<and> sg_profileHash r = h" by (auto simp: filter_empty_conv)
  with latest_signal_max [OF assms(4)] assms(2) have "t \<le> sg_decisionAt b" "b \<in> set rows \<union> set new" by fastforce+
  with assms(1,2) show ?thesis by fastforce
qed

definition settled_before :: "int \<Rightarrow> signal_store \<Rightarrow> bool" where
  "settled_before t s \<longleftrightarrow> (\<forall>r \<in> set (ss_rows s). sg_decisionAt r \<le> t \<and> (sg_decisionAt r = t \<longrightarrow> sg_state r = SignalInvalidated))"

lemma settled_append: "settled_before t s \<Longrightarrow> appends_invalidations t s s' \<Longrightarrow> settled_before t s'"
  by (auto simp: settled_before_def appends_invalidations_def)

definition no_candidate :: "string \<Rightarrow> signal_store \<Rightarrow> bool" where
  "no_candidate k s \<longleftrightarrow> (\<forall>r. latest_signal (ss_rows s) k DEFAULT_PROFILE_HASH = Some r \<longrightarrow> sg_state r = SignalInvalidated)"

lemma no_candidate_append:
  assumes "settled_before t s" "appends_invalidations t s s'" "no_candidate k s" shows "no_candidate k s'"
  unfolding no_candidate_def
proof (intro allI impI)
  fix b assume b: "latest_signal (ss_rows s') k DEFAULT_PROFILE_HASH = Some b"
  obtain new where new: "ss_rows s' = ss_rows s @ new" "\<forall>r \<in> set new. sg_state r = SignalInvalidated \<and> sg_decisionAt r = t"
    using assms(2) by (auto simp: appends_invalidations_def)
  show "sg_state b = SignalInvalidated"
    by (rule latest_after_append [of "ss_rows s" t new k DEFAULT_PROFILE_HASH b])
      (use assms(1,3) new b in \<open>auto simp: settled_before_def no_candidate_def\<close>)
qed

lemma signal_step_clears:
  assumes "signal_step nlog v t p s = Inr s'" "settled_before t s"
  shows "no_candidate (po_poolKey p) s'"
  using signal_step_cases [OF assms(1)]
proof
  assume h: "s' = s \<and> (\<forall>r. latest_signal (ss_rows s) (po_poolKey p) DEFAULT_PROFILE_HASH = Some r \<longrightarrow> sg_state r \<noteq> WatchCandidate)"
  then show ?thesis unfolding no_candidate_def by (metis signal_state.exhaust)
next
  assume "\<exists>r g. latest_signal (ss_rows s) (po_poolKey p) DEFAULT_PROFILE_HASH = Some r \<and> sg_state r = WatchCandidate \<and>
       s' = recordSignal t (po_poolKey p) DEFAULT_PROFILE_HASH SignalInvalidated (sg_anchorLow r) g s"
  then obtain a g where s': "s' = recordSignal t (po_poolKey p) DEFAULT_PROFILE_HASH SignalInvalidated a g s" by blast
  show ?thesis unfolding no_candidate_def
  proof (intro allI impI)
    fix b assume b: "latest_signal (ss_rows s') (po_poolKey p) DEFAULT_PROFILE_HASH = Some b"
    have "settled_before t s'" using settled_append [OF assms(2) record_appends] by (simp add: s')
    moreover have "t \<le> sg_decisionAt b" "b \<in> set (ss_rows s')"
      using latest_signal_max [OF b] by (auto simp: s' recordSignal_def Let_def)
    ultimately show "sg_state b = SignalInvalidated" by (fastforce simp: settled_before_def)
  qed
qed

lemma signal_pass_clears:
  "signal_pass nlog v t ps s = Inr s' \<Longrightarrow> settled_before t s \<Longrightarrow> p \<in> set ps \<Longrightarrow> no_candidate (po_poolKey p) s'"
proof (induction ps arbitrary: s)
  case (Cons q ps)
  then obtain s1 where 1: "signal_step nlog v t q s = Inr s1" and 2: "signal_pass nlog v t ps s1 = Inr s'"
    by (auto simp: bindR_eq_Inr)
  have "appends_invalidations t s s1" using signal_pass_appends [of nlog v t "[q]" s s1] 1 by simp
  then have s1: "settled_before t s1" using settled_append Cons.prems(2) by blast
  show ?case
  proof (cases "p \<in> set ps")
    case True
    with Cons.IH [OF 2 s1] show ?thesis by blast
  next
    case False
    then have "no_candidate (po_poolKey p) s1" using signal_step_clears [OF 1 Cons.prems(2)] Cons.prems(3) by simp
    then show ?thesis using no_candidate_append [OF s1 signal_pass_appends [OF 2]] by blast
  qed
qed simp

text \<open>
  C38. A signal pass never makes a candidate and withdraws every one.  Whatever the evidence, a
  pass that ends has edited no decision row; what it appended are invalidations, dated now, one
  sequence number each; and, when no earlier row is dated now, the latest decision of every
  tracked pool it went over is not a candidate.
\<close>
theorem signal_sweep_only_invalidates:
  assumes "runEmergingSignalSweep nlog v t s = Inr s'"
  shows "appends_invalidations t s s' \<and>
    ((\<forall>r \<in> set (ss_rows s). sg_decisionAt r < t) \<longrightarrow> (\<forall>p \<in> set (si_pools v). no_candidate (po_poolKey p) s'))"
proof (intro conjI impI ballI)
  have run: "signal_pass nlog v t (si_pools v) s = Inr s'" using assms by (simp add: runEmergingSignalSweep_def)
  show "appends_invalidations t s s'" by (rule signal_pass_appends [OF run])
  fix p assume old: "\<forall>r \<in> set (ss_rows s). sg_decisionAt r < t" and p: "p \<in> set (si_pools v)"
  have "settled_before t s" using old by (force simp: settled_before_def)
  then show "no_candidate (po_poolKey p) s'" using signal_pass_clears [OF run] p by blast
qed

definition blank_bundle :: gate_bundle where
  "blank_bundle = \<lparr>gb_G01 = g04ProtectedDepth, gb_G02 = g04ProtectedDepth, gb_G03 = g04ProtectedDepth, gb_G04 = g04ProtectedDepth,
     gb_G05 = g04ProtectedDepth, gb_G06 = g04ProtectedDepth, gb_G07 = g04ProtectedDepth, gb_G08 = g04ProtectedDepth,
     gb_profileHash = DEFAULT_PROFILE_HASH, gb_policyVersion = 1\<rparr>"

definition candidate_store :: signal_store where
  "candidate_store = \<lparr>ss_rows = [\<lparr>sg_id = ''x'', sg_poolKey = ''p'', sg_profileHash = DEFAULT_PROFILE_HASH,
     sg_state = WatchCandidate, sg_decisionAt = 40000, sg_anchorLow = Some 1,
     sg_gates = blank_bundle\<rparr>], ss_seq = 1\<rparr>"

definition bare_gate_view :: gate_view where
  "bare_gate_view = \<lparr>gv_policy = EMERGING_POLICY 1 ''0xUSD'', gv_stable = ''0xUSD'',
     gv_ledger = (\<lambda>_. Some \<lparr>lv_venue = ''univ3'', lv_canonicalId = ''0xpool'', lv_baseToken = None,
       lv_quoteIsUsdg = True, lv_tokenCreatedAt = None, lv_poolCreatedAt = None\<rparr>),
     gv_hooks = (\<lambda>_. None), gv_supply = (\<lambda>_. None), gv_topBalances = (\<lambda>_. []), gv_roles = (\<lambda>_. 0),
     gv_reduction = (\<lambda>_. None), gv_swaps = (\<lambda>_. []), gv_completeThrough = None\<rparr>"

definition sample_signal_view :: signal_view where
  "sample_signal_view = \<lparr>si_gates = bare_gate_view, si_pools = [\<lparr>po_poolKey = ''p'', po_baseToken = Some ''0xb'', po_canonicalId = ''0xpool''\<rparr>],
     si_swaps = (\<lambda>_ _. []), si_hourly = (\<lambda>_ _ _. []), si_bars = (\<lambda>_ _ _. []), si_lastClose = (\<lambda>_. None),
     si_reduction = (\<lambda>_. emptyReduction), si_canonical = (\<lambda>_. ''0xpool'')\<rparr>"

theorem signal_sweep_only_invalidates_witness:
  "\<exists>s'. runEmergingSignalSweep (\<lambda>x. x) sample_signal_view 50100 candidate_store = Inr s' \<and>
     map sg_state (ss_rows s') = [WatchCandidate, SignalInvalidated] \<and> no_candidate ''p'' s'"
proof -
  obtain g where g: "evaluateGates bare_gate_view ''p'' DEFAULT_PROFILE_HASH 50100 = Inr (g, False)"
    by (simp add: evaluateGates_def researchProfile_def RESEARCH_PROFILES_def DEFAULT_PROFILE_HASH_def bare_gate_view_def
        g08SellEvidence_def all_pass_def g04ProtectedDepth_def)
  have "latest_signal (ss_rows candidate_store) ''p'' DEFAULT_PROFILE_HASH = Some (hd (ss_rows candidate_store))"
    by (simp add: latest_signal_def candidate_store_def)
  then have r: "runEmergingSignalSweep (\<lambda>x. x) sample_signal_view 50100 candidate_store =
      Inr (recordSignal 50100 ''p'' DEFAULT_PROFILE_HASH SignalInvalidated (Some 1) g candidate_store)"
    by (simp add: runEmergingSignalSweep_def sample_signal_view_def signal_step_def g Let_def)
      (simp add: candidate_store_def)
  have "no_candidate ''p'' (recordSignal 50100 ''p'' DEFAULT_PROFILE_HASH SignalInvalidated (Some 1) g candidate_store)"
    using signal_sweep_only_invalidates [OF r] by (simp add: sample_signal_view_def) (simp add: candidate_store_def)
  with r show ?thesis by (simp add: recordSignal_def Let_def) (simp add: candidate_store_def)
qed

text \<open>Ids compare as text, so of two decisions in one second the ninth outranks the tenth.\<close>

lemma tenth_signal_sorts_before_ninth:
  "sg_state (the (latest_signal (ss_rows (recordSignal 7 ''p'' ''h'' SignalInvalidated None blank_bundle
     (recordSignal 7 ''p'' ''h'' WatchCandidate None blank_bundle \<lparr>ss_rows = [], ss_seq = 8\<rparr>))) ''p'' ''h'')) = WatchCandidate"
  by code_simp

end
