(* ===== verification/EmergingLedger.thy ===== *)
theory EmergingLedger
  imports Sqlite BigText JsNumber Coalescing "HOL-Library.List_Lexorder" "HOL-Library.Multiset"
begin

text \<open>
  The discovery ledger of emerging pools: \<open>indexer/emergingCore.ts\<close> (pool keys, ages and the
  admission queue) and the part of one sweep of \<open>indexer/emerging.ts\<close> that demotes quiet pools,
  plans and writes the transitions.
\<close>

section \<open>Pool keys\<close>

definition VENUES :: "string list" where
  "VENUES = [''up33-cl'', ''univ3'', ''univ4'']"

definition hex_lower :: "char \<Rightarrow> bool" where
  "hex_lower c \<longleftrightarrow> (let n = of_char c :: nat in (48 \<le> n \<and> n \<le> 57) \<or> (97 \<le> n \<and> n \<le> 102))"

text \<open>\<open>/^0x[0-9a-f]{n}$/\<close>.\<close>

definition hex_id :: "nat \<Rightarrow> string \<Rightarrow> bool" where
  "hex_id n s \<longleftrightarrow> length s = n + 2 \<and> take 2 s = ''0x'' \<and> list_all hex_lower (drop 2 s)"

record pool_identity =
  pi_chainId :: int
  pi_venue :: string
  pi_canonicalId :: string

definition isValidCanonicalId :: "string \<Rightarrow> string \<Rightarrow> bool" where
  "isValidCanonicalId venue i = (if venue = ''univ4'' then hex_id 64 i else hex_id 40 i)"

definition MAX_SAFE :: int where "MAX_SAFE = 2 ^ 53 - 1"

definition formatEmergingPoolKey :: "pool_identity \<Rightarrow> string option" where
  "formatEmergingPoolKey p =
     (if pi_chainId p > MAX_SAFE \<or> pi_chainId p \<le> 0 then None
      else if pi_venue p \<notin> set VENUES then None
      else
        let i = toLower (pi_canonicalId p) in
        if \<not> isValidCanonicalId (pi_venue p) i then None
        else Some (big_to_string (pi_chainId p) @ '':'' @ pi_venue p @ '':'' @ i))"

fun split_on :: "char \<Rightarrow> string \<Rightarrow> string list" where
  "split_on c [] = [[]]"
| "split_on c (x # xs) =
     (if x = c then [] # split_on c xs
      else (case split_on c xs of [] \<Rightarrow> [[x]] | p # ps \<Rightarrow> (x # p) # ps))"

text \<open>
  \<open>Number(text)\<close> reads more forms than \<open>BigInt\<close> does, but the key built from the number has to
  be the text read, so only a text that is its own decimal form counts.
\<close>

definition parseEmergingPoolKey :: "string \<Rightarrow> pool_identity option" where
  "parseEmergingPoolKey key =
     (case split_on (CHR '':'') key of
        [c, v, i] \<Rightarrow>
          (case big_of_string c of
             None \<Rightarrow> None
           | Some n \<Rightarrow>
               let p = \<lparr>pi_chainId = n, pi_venue = v, pi_canonicalId = i\<rparr> in
               if formatEmergingPoolKey p = Some key then Some p else None)
      | _ \<Rightarrow> None)"

section \<open>Ages\<close>

definition youngCutoffBlock :: "int \<Rightarrow> rat \<Rightarrow> rat \<Rightarrow> int" where
  "youngCutoffBlock headBlock maxAgeDays blockTimeSec = headBlock - math_ceil (ndiv (nmul maxAgeDays 86400) blockTimeSec)"

datatype observation_state = Discovered | Queued | Backfilling | Tracking | AgedOut

datatype observation_reason = CapacityDeferred | DataGap | ReorgRepair | AgeExceeded | QuietDemoted

datatype pool_age = Young | Aged | UnknownAge

text \<open>A row of \<open>emerging_discovery\<close>, one per pool key.\<close>

record emerging_row =
  lr_poolKey :: string
  lr_state :: observation_state
  lr_reason :: "observation_reason option"
  lr_poolCreatedAt :: "int option"
  lr_tokenCreatedAt :: "int option"
  lr_launchAt :: "int option"
  lr_baseToken :: "string option"
  lr_quoteIsUsdg :: bool
  lr_pinnedUntil :: "int option"
  lr_admittedRank :: "int option"
  lr_firstSeenAt :: int
  lr_updatedAt :: int

definition ageTransition :: "emerging_row \<Rightarrow> int \<Rightarrow> int \<Rightarrow> pool_age" where
  "ageTransition r nowSec maxAgeDays =
     (let cutoff = nowSec - maxAgeDays * 86400;
          births = List.map_filter id [lr_poolCreatedAt r, lr_tokenCreatedAt r]
      in if births = [] then UnknownAge else if list_ex (\<lambda>t. t > cutoff) births then Young else Aged)"

section \<open>The admission queue\<close>

record admission_plan =
  ap_admit :: "string list"
  ap_defer :: "string list"
  ap_ageOut :: "string list"
  ap_capacity :: int

definition pinned_row :: "int \<Rightarrow> emerging_row \<Rightarrow> bool" where
  "pinned_row nowSec r \<longleftrightarrow> (case lr_pinnedUntil r of None \<Rightarrow> False | Some t \<Rightarrow> t > nowSec)"

definition young_rows :: "int \<Rightarrow> int \<Rightarrow> emerging_row list \<Rightarrow> emerging_row list" where
  "young_rows nowSec maxAgeDays rows = filter (\<lambda>r. ageTransition r nowSec maxAgeDays \<noteq> Aged) rows"

definition unpinned_tracked :: "int \<Rightarrow> emerging_row list \<Rightarrow> emerging_row list" where
  "unpinned_tracked nowSec young =
     sort_key (\<lambda>r. case lr_admittedRank r of None \<Rightarrow> 0 | Some k \<Rightarrow> k)
       (filter (\<lambda>r. \<not> pinned_row nowSec r \<and> lr_admittedRank r \<noteq> None) young)"

text \<open>
  The comparator orders by demotion, then first sighting, then key; sorting by the last one
  first is the same, because the sort is stable.
\<close>

definition waiting_rows :: "int \<Rightarrow> emerging_row list \<Rightarrow> emerging_row list" where
  "waiting_rows nowSec young =
     sort_key (\<lambda>r. if lr_reason r = Some QuietDemoted then 1 else 0 :: int)
       (sort_key lr_firstSeenAt
          (sort_key (\<lambda>r. map (of_char :: char \<Rightarrow> nat) (lr_poolKey r))
             (filter (\<lambda>r. lr_admittedRank r = None \<and> \<not> pinned_row nowSec r) young)))"

definition planAdmission :: "emerging_row list \<Rightarrow> int \<Rightarrow> int \<Rightarrow> int \<Rightarrow> admission_plan" where
  "planAdmission rows nowSec maxAgeDays cap =
     (let young = young_rows nowSec maxAgeDays rows;
          pinned = filter (pinned_row nowSec) young;
          free = nat (max 0 (cap - int (length pinned)));
          tracked = unpinned_tracked nowSec young;
          waiting = waiting_rows nowSec young;
          keep = min (length tracked) free;
          admit = map lr_poolKey (take (free - keep) waiting);
          deferred = foldl (\<lambda>s k. set_add k s) [] (map lr_poolKey (drop (length admit) waiting));
          deferred = foldl (\<lambda>s k. set_add k s) deferred (map lr_poolKey (drop keep tracked))
      in \<lparr>ap_admit = admit, ap_defer = deferred,
          ap_ageOut = map lr_poolKey (filter (\<lambda>r. ageTransition r nowSec maxAgeDays = Aged) rows),
          ap_capacity = int (length pinned) + int keep + int (length admit)\<rparr>)"

section \<open>The ledger and its writes\<close>

text \<open>
  The ledger: the rows of \<open>emerging_discovery\<close>, the append-only
  \<open>emerging_observation_events\<close>, the key-value cells the sweep keeps (a missing cell reads
  as 0), the process's block-timestamp cache.
\<close>

record ledger_event =
  le_poolKey :: string
  le_at :: int
  le_from :: "observation_state option"
  le_to :: observation_state
  le_reason :: "observation_reason option"

record ledger =
  ld_rows :: "emerging_row list"
  ld_events :: "ledger_event list"
  ld_v4Cursor :: int
  ld_v23Cursor :: int
  ld_seq :: int
  ld_generation :: int
  ld_blockTs :: "(int \<times> int) list"

definition ledger_keys :: "ledger \<Rightarrow> string list" where
  "ledger_keys L = map lr_poolKey (ld_rows L)"

definition upsertEmergingDiscovery :: "string \<Rightarrow> int \<Rightarrow> ledger \<Rightarrow> bool \<times> ledger" where
  "upsertEmergingDiscovery k seenAt L =
     (if k \<in> set (ledger_keys L) then (False, L)
      else (True, L\<lparr>
        ld_rows := ld_rows L @ [\<lparr>lr_poolKey = k, lr_state = Discovered, lr_reason = None,
          lr_poolCreatedAt = None, lr_tokenCreatedAt = None, lr_launchAt = None, lr_baseToken = None,
          lr_quoteIsUsdg = False, lr_pinnedUntil = None, lr_admittedRank = None,
          lr_firstSeenAt = seenAt, lr_updatedAt = seenAt\<rparr>],
        ld_events := ld_events L @ [\<lparr>le_poolKey = k, le_at = seenAt, le_from = None, le_to = Discovered,
          le_reason = None\<rparr>]\<rparr>))"

definition update_row :: "string \<Rightarrow> (emerging_row \<Rightarrow> emerging_row) \<Rightarrow> ledger \<Rightarrow> ledger" where
  "update_row k f L = L\<lparr>ld_rows := map (\<lambda>r. if lr_poolKey r = k then f r else r) (ld_rows L)\<rparr>"

definition recordEmergingAges ::
  "string \<Rightarrow> string option \<Rightarrow> bool \<Rightarrow> int option \<Rightarrow> int option \<Rightarrow> int option \<Rightarrow> int \<Rightarrow> ledger \<Rightarrow> ledger" where
  "recordEmergingAges k base usdg pool_at token_at launch_at occurredAt = update_row k (\<lambda>r.
     r\<lparr>lr_baseToken := coalesce (lr_baseToken r) base, lr_quoteIsUsdg := (lr_quoteIsUsdg r \<or> usdg),
       lr_poolCreatedAt := coalesce (lr_poolCreatedAt r) pool_at,
       lr_tokenCreatedAt := coalesce (lr_tokenCreatedAt r) token_at,
       lr_launchAt := coalesce (lr_launchAt r) launch_at, lr_updatedAt := occurredAt\<rparr>)"

text \<open>The sweep never passes a pin, so \<open>pinned_until\<close> keeps its value.\<close>

definition recordEmergingTransition ::
  "string \<Rightarrow> observation_state \<Rightarrow> observation_state \<Rightarrow> observation_reason option \<Rightarrow> int option \<Rightarrow> int \<Rightarrow> ledger \<Rightarrow> ledger" where
  "recordEmergingTransition k fromState toState why rank occurredAt L =
     (let L = update_row k (\<lambda>r. r\<lparr>lr_state := toState, lr_reason := why, lr_admittedRank := rank, lr_updatedAt := occurredAt\<rparr>) L
      in L\<lparr>ld_events := ld_events L @ [\<lparr>le_poolKey = k, le_at = occurredAt, le_from = Some fromState, le_to = toState,
           le_reason = why\<rparr>]\<rparr>)"

definition listEmergingActive :: "ledger \<Rightarrow> emerging_row list" where
  "listEmergingActive L = filter (\<lambda>r. lr_state r \<noteq> AgedOut) (ld_rows L)"

section \<open>The discovery sources\<close>

record source_row =
  so_poolKey :: "string option"
  so_token0 :: "string option"
  so_token1 :: "string option"
  so_createdBlock :: "int option"
  so_addedTs :: int

text \<open>\<open>v4PoolsAfterQ\<close> and \<open>poolsAfterQ\<close>: the catalogue rows added after a time, oldest first.\<close>

definition rows_after :: "int \<Rightarrow> source_row list \<Rightarrow> source_row list" where
  "rows_after after rows = sort_key so_addedTs (filter (\<lambda>r. so_addedTs r > after) rows)"

definition read_from :: "int \<Rightarrow> int \<Rightarrow> int" where
  "read_from cursor overlap = (if cursor > overlap then cursor else overlap)"

definition discover_all :: "int \<Rightarrow> source_row list \<Rightarrow> nat \<times> ledger \<Rightarrow> nat \<times> ledger" where
  "discover_all seenAt rows s =
     foldl (\<lambda>(n, L) row. case so_poolKey row of
         None \<Rightarrow> (n, L)
       | Some k \<Rightarrow> (case upsertEmergingDiscovery k seenAt L of (ins, L) \<Rightarrow> (if ins then n + 1 else n, L))) s rows"

text \<open>
  Block timestamps: cached ones are free, others cost one unit of the sweep's budget whether
  or not the node answers.
\<close>

definition fetchTs :: "(int \<Rightarrow> int option) \<Rightarrow> int \<Rightarrow> int \<times> ledger \<Rightarrow> int option \<times> int \<times> ledger" where
  "fetchTs getBlock b s =
     (let (budget, L) = s in
      case map_of (ld_blockTs L) b of
        Some t \<Rightarrow> (Some t, budget, L)
      | None \<Rightarrow>
          if budget \<le> 0 then (None, budget, L)
          else (case getBlock b of
                  None \<Rightarrow> (None, budget - 1, L)
                | Some t \<Rightarrow> (Some t, budget - 1, L\<lparr>ld_blockTs := (b, t) # ld_blockTs L\<rparr>)))"

definition fetch_opt :: "(int \<Rightarrow> int option) \<Rightarrow> int option \<Rightarrow> int \<times> ledger \<Rightarrow> int option \<times> int \<times> ledger" where
  "fetch_opt getBlock b s = (case b of None \<Rightarrow> (None, s) | Some n \<Rightarrow> fetchTs getBlock n s)"

record source_view =
  sv_getBlock :: "int \<Rightarrow> int option"
  sv_launchpad :: "string \<Rightarrow> bool"
  sv_launchBlock :: "string \<Rightarrow> int option"
  sv_usdg :: string

definition base_token :: "(string \<Rightarrow> bool) \<Rightarrow> source_row \<Rightarrow> string option" where
  "base_token launchpad row =
     (let b0 = (case so_token0 row of None \<Rightarrow> False | Some t \<Rightarrow> launchpad t);
          b1 = (case so_token1 row of None \<Rightarrow> False | Some t \<Rightarrow> launchpad t)
      in if b0 \<noteq> b1 then (if b0 then so_token0 row else so_token1 row) else None)"

definition quote_is_usdg :: "(string \<Rightarrow> bool) \<Rightarrow> string \<Rightarrow> source_row \<Rightarrow> bool" where
  "quote_is_usdg launchpad usdg row =
     (let b0 = (case so_token0 row of None \<Rightarrow> False | Some t \<Rightarrow> launchpad t);
          b1 = (case so_token1 row of None \<Rightarrow> False | Some t \<Rightarrow> launchpad t)
      in base_token launchpad row \<noteq> None \<and>
         ((b0 \<and> map_option toLower (so_token1 row) = Some usdg) \<or>
          (b1 \<and> map_option toLower (so_token0 row) = Some usdg)))"

definition age_v4_row :: "source_view \<Rightarrow> int \<Rightarrow> source_row \<Rightarrow> int \<times> ledger \<Rightarrow> int \<times> ledger" where
  "age_v4_row sv seenAt row s =
     (case so_poolKey row of
        None \<Rightarrow> s
      | Some k \<Rightarrow>
          let (poolAt, s) = fetch_opt (sv_getBlock sv) (so_createdBlock row) s;
              base = base_token (sv_launchpad sv) row;
              (tokenAt, s) = (case base of None \<Rightarrow> (None, s)
                              | Some t \<Rightarrow> fetch_opt (sv_getBlock sv) (sv_launchBlock sv t) s)
          in if poolAt \<noteq> None \<or> tokenAt \<noteq> None \<or> base \<noteq> None
             then (fst s, recordEmergingAges k base (quote_is_usdg (sv_launchpad sv) (sv_usdg sv) row)
                            poolAt tokenAt tokenAt seenAt (snd s))
             else s)"

definition age_v23_row :: "source_view \<Rightarrow> int \<Rightarrow> source_row \<Rightarrow> int \<times> ledger \<Rightarrow> int \<times> ledger" where
  "age_v23_row sv seenAt row s =
     (case (so_poolKey row, so_createdBlock row) of
        (Some k, Some b) \<Rightarrow>
          let (poolAt, s) = fetchTs (sv_getBlock sv) b s
          in if poolAt \<noteq> None
             then (fst s, recordEmergingAges k None False poolAt None None seenAt (snd s))
             else s
      | _ \<Rightarrow> s)"

section \<open>One sweep\<close>

definition demote_quiet :: "int \<Rightarrow> int \<Rightarrow> string list \<Rightarrow> emerging_row list \<Rightarrow> ledger \<Rightarrow> ledger" where
  "demote_quiet seenAt quietSeconds traded active L =
     foldl (\<lambda>L r.
       if lr_admittedRank r = None \<or> lr_pinnedUntil r \<noteq> None then L
       else if seenAt - lr_firstSeenAt r < quietSeconds then L
       else if lr_poolKey r \<in> set traded then L
       else recordEmergingTransition (lr_poolKey r) (lr_state r) Queued (Some QuietDemoted) None seenAt L) L active"

text \<open>\<open>new Map(active.map(...))\<close>: the last row of a key wins.\<close>

definition row_by_key :: "emerging_row list \<Rightarrow> string \<Rightarrow> emerging_row option" where
  "row_by_key active k = find (\<lambda>r. lr_poolKey r = k) (rev active)"

definition age_out_step :: "int \<Rightarrow> emerging_row list \<Rightarrow> nat \<times> ledger \<Rightarrow> string \<Rightarrow> nat \<times> ledger" where
  "age_out_step occurredAt active s k =
     (case row_by_key active k of
        None \<Rightarrow> s
      | Some r \<Rightarrow> if lr_state r = AgedOut then s
                  else (fst s + 1, recordEmergingTransition k (lr_state r) AgedOut (Some AgeExceeded) None occurredAt (snd s)))"

definition admit_step :: "int \<Rightarrow> emerging_row list \<Rightarrow> nat \<times> int \<times> ledger \<Rightarrow> string \<Rightarrow> nat \<times> int \<times> ledger" where
  "admit_step occurredAt active s k =
     (case row_by_key active k of
        None \<Rightarrow> s
      | Some r \<Rightarrow> if lr_admittedRank r \<noteq> None then s
                  else let (n, rank, L) = s in
                       (n + 1, rank + 1, recordEmergingTransition k (lr_state r) Queued None (Some (rank + 1)) occurredAt L))"

definition defer_step :: "int \<Rightarrow> emerging_row list \<Rightarrow> nat \<times> ledger \<Rightarrow> string \<Rightarrow> nat \<times> ledger" where
  "defer_step occurredAt active s k =
     (case row_by_key active k of
        None \<Rightarrow> s
      | Some r \<Rightarrow> if lr_admittedRank r = None \<and> lr_reason r = Some CapacityDeferred then s
                  else (fst s + 1, recordEmergingTransition k (lr_state r) Queued (Some CapacityDeferred) None occurredAt (snd s)))"

record sweep_config =
  sc_overlapSec :: int
  sc_fetches :: int
  sc_quietSeconds :: int
  sc_maxAgeDays :: int
  sc_maxPools :: int

text \<open>The plan is made on the rows as they were read, before the demotions are written.\<close>

definition admission_pass :: "sweep_config \<Rightarrow> bool \<Rightarrow> int \<Rightarrow> string list \<Rightarrow> ledger \<Rightarrow> nat \<times> ledger" where
  "admission_pass c allowed seenAt traded L =
     (let active = listEmergingActive L;
          L = demote_quiet seenAt (sc_quietSeconds c) traded active L;
          plan = planAdmission active seenAt (sc_maxAgeDays c) (if allowed then sc_maxPools c else 0);
          (aged, L) = foldl (age_out_step seenAt active) (0, L) (ap_ageOut plan);
          (admitted, rank, L) = foldl (admit_step seenAt active) (0, ld_seq L, L) (ap_admit plan);
          (deferred, L) = foldl (defer_step seenAt active) (0, L) (ap_defer plan)
      in (aged + admitted + deferred, L\<lparr>ld_seq := rank\<rparr>))"

definition max_added :: "source_row list \<Rightarrow> int" where
  "max_added rows = foldl (\<lambda>m r. max m (so_addedTs r)) 0 rows"

definition runEmergingDiscoverySweep ::
  "sweep_config \<Rightarrow> source_view \<Rightarrow> source_row list \<Rightarrow> source_row list \<Rightarrow> string list \<Rightarrow> bool \<Rightarrow> int \<Rightarrow> ledger \<Rightarrow> ledger" where
  "runEmergingDiscoverySweep c sv v4 v23 traded allowed seenAt L =
     (let overlap = seenAt - sc_overlapSec c;
          v4Rows = rows_after (read_from (ld_v4Cursor L) overlap) v4;
          v23Rows = rows_after (read_from (ld_v23Cursor L) overlap) v23;
          (discovered, L) = discover_all seenAt (v4Rows @ v23Rows) (0, L);
          (budget, L) = foldl (\<lambda>s row. age_v4_row sv seenAt row s) (sc_fetches c, L) v4Rows;
          (budget, L) = foldl (\<lambda>s row. age_v23_row sv seenAt row s) (budget, L) v23Rows;
          (moved, L) = admission_pass c allowed seenAt traded L;
          L = (if v4Rows = [] then L else L\<lparr>ld_v4Cursor := max (ld_v4Cursor L) (max_added v4Rows)\<rparr>);
          L = (if v23Rows = [] then L else L\<lparr>ld_v23Cursor := max (ld_v23Cursor L) (max_added v23Rows)\<rparr>)
      in if discovered = 0 \<and> moved = 0 then L else L\<lparr>ld_generation := ld_generation L + 1\<rparr>)"

section \<open>Pool keys: lemmas\<close>

lemma split_on_no: "c \<notin> set xs \<Longrightarrow> split_on c xs = [xs]"
  by (induction xs) auto

lemma split_on_append: "c \<notin> set xs \<Longrightarrow> split_on c (xs @ c # ys) = xs # split_on c ys"
  by (induction xs) auto

lemma hex_lower_no_colon: "hex_lower c \<Longrightarrow> c \<noteq> CHR '':''"
  by (auto simp: hex_lower_def)

lemma hex_id_no_colon: "hex_id n i \<Longrightarrow> CHR '':'' \<notin> set i"
proof
  assume h: "hex_id n i" and c: "CHR '':'' \<in> set i"
  have "set i = set (take 2 i) \<union> set (drop 2 i)" by (metis append_take_drop_id set_append)
  with c h show False
    by (auto simp: hex_id_def list_all_iff dest: hex_lower_no_colon)
qed

lemma canonical_no_colon: "isValidCanonicalId v i \<Longrightarrow> CHR '':'' \<notin> set i"
  by (auto simp: isValidCanonicalId_def hex_id_no_colon split: if_splits)

lemma venue_no_colon: "v \<in> set VENUES \<Longrightarrow> CHR '':'' \<notin> set v"
  by (auto simp: VENUES_def)

definition lowered :: "pool_identity \<Rightarrow> pool_identity" where
  "lowered p = p\<lparr>pi_canonicalId := toLower (pi_canonicalId p)\<rparr>"

lemma format_lowered [simp]: "formatEmergingPoolKey (lowered p) = formatEmergingPoolKey p"
  by (simp add: formatEmergingPoolKey_def lowered_def Let_def)

lemma digit_not_colon: "0 \<le> d \<Longrightarrow> d \<le> 9 \<Longrightarrow> digit_char d \<noteq> CHR '':''"
proof -
  assume d: "0 \<le> d" "d \<le> 9"
  have "digit_val (digit_char d) \<noteq> digit_val (CHR '':'')" using d by (simp add: digit_val_def [of "CHR '':''"])
  then show ?thesis by metis
qed

lemma nat_text_no_colon: "0 \<le> n \<Longrightarrow> CHR '':'' \<notin> set (nat_text n)"
proof (induction n rule: nat_text.induct)
  case (1 n)
  show ?case
  proof (cases "n < 10")
    case True
    with "1.prems" digit_not_colon [of n] show ?thesis by (auto simp: nat_text.simps [of n])
  next
    case False
    have "n mod 10 \<le> 9" using pos_mod_bound [of 10 n] by linarith
    then have "CHR '':'' \<noteq> digit_char (n mod 10)" using digit_not_colon [of "n mod 10"] by fastforce
    moreover have "CHR '':'' \<notin> set (nat_text (n div 10))" using "1.IH" "1.prems" False by simp
    ultimately show ?thesis using False by (simp add: nat_text.simps [of n])
  qed
qed

lemma big_no_colon: "0 < n \<Longrightarrow> CHR '':'' \<notin> set (big_to_string n)"
  by (simp add: big_to_string_def nat_text_no_colon)

lemma format_split:
  assumes "formatEmergingPoolKey p = Some k"
  shows "split_on (CHR '':'') k = [big_to_string (pi_chainId p), pi_venue p, toLower (pi_canonicalId p)]"
proof -
  have pos: "0 < pi_chainId p" and v: "pi_venue p \<in> set VENUES"
    and i: "isValidCanonicalId (pi_venue p) (toLower (pi_canonicalId p))"
    and k: "k = big_to_string (pi_chainId p) @ CHR '':'' # pi_venue p @ CHR '':'' # toLower (pi_canonicalId p)"
    using assms by (auto simp: formatEmergingPoolKey_def Let_def split: if_splits)
  show ?thesis
    by (simp add: k split_on_append split_on_no big_no_colon [OF pos] venue_no_colon [OF v] canonical_no_colon [OF i])
qed

lemma parse_format:
  assumes "formatEmergingPoolKey p = Some k" shows "parseEmergingPoolKey k = Some (lowered p)"
proof -
  have "lowered p = \<lparr>pi_chainId = pi_chainId p, pi_venue = pi_venue p, pi_canonicalId = toLower (pi_canonicalId p)\<rparr>"
    by (simp add: lowered_def)
  moreover have "formatEmergingPoolKey (lowered p) = Some k" using assms by simp
  ultimately show ?thesis by (simp add: parseEmergingPoolKey_def format_split [OF assms])
qed

lemma format_parse: "parseEmergingPoolKey k = Some q \<Longrightarrow> formatEmergingPoolKey q = Some k"
  by (auto simp: parseEmergingPoolKey_def Let_def split: list.splits option.splits if_splits)


section \<open>The admission queue: lemmas\<close>

lemma foldl_set_add: 
  "set (foldl (\<lambda>s k. set_add k s) s ks) = set s \<union> set ks"
  "distinct s \<Longrightarrow> distinct (foldl (\<lambda>s k. set_add k s) s ks)"
  by (induction ks arbitrary: s) (auto simp: set_add_def)

lemma aged_iff_cutoff:
  "ageTransition r n d = Young \<longleftrightarrow>
     (\<exists>t. (lr_poolCreatedAt r = Some t \<or> lr_tokenCreatedAt r = Some t) \<and> n - d * 86400 < t)"
  "ageTransition r n d = UnknownAge \<longleftrightarrow> lr_poolCreatedAt r = None \<and> lr_tokenCreatedAt r = None"
  by (cases "lr_poolCreatedAt r"; cases "lr_tokenCreatedAt r";
      auto simp: ageTransition_def Let_def List.map_filter_def)+

lemma set_tracked: "set (unpinned_tracked n rows) = {r \<in> set rows. \<not> pinned_row n r \<and> lr_admittedRank r \<noteq> None}"
  by (auto simp: unpinned_tracked_def)

lemma set_waiting: "set (waiting_rows n rows) = {r \<in> set rows. \<not> pinned_row n r \<and> lr_admittedRank r = None}"
  by (auto simp: waiting_rows_def)

lemma set_young: "set (young_rows n d rows) = {r \<in> set rows. ageTransition r n d \<noteq> Aged}"
  by (auto simp: young_rows_def)

lemma distinct_map_filterI: "distinct (map f xs) \<Longrightarrow> distinct (map f (filter P xs))"
  by (induction xs) auto

lemma distinct_map_sort: "distinct (map f (sort_key g xs)) = distinct (map f xs)"
  by (simp add: distinct_map)

lemma distinct_tracked: "distinct (map lr_poolKey rows) \<Longrightarrow> distinct (map lr_poolKey (unpinned_tracked n rows))"
  by (simp add: unpinned_tracked_def distinct_map_sort distinct_map_filterI)

lemma distinct_waiting: "distinct (map lr_poolKey rows) \<Longrightarrow> distinct (map lr_poolKey (waiting_rows n rows))"
  by (simp add: waiting_rows_def distinct_map_sort distinct_map_filterI)

text \<open>The rows a plan admits, defers and keeps.\<close>

definition free_slots :: "emerging_row list \<Rightarrow> int \<Rightarrow> int \<Rightarrow> int \<Rightarrow> nat" where
  "free_slots rows n d cap = nat (max 0 (cap - int (length (filter (pinned_row n) (young_rows n d rows)))))"

definition kept_rows :: "emerging_row list \<Rightarrow> int \<Rightarrow> int \<Rightarrow> int \<Rightarrow> emerging_row list" where
  "kept_rows rows n d cap = take (free_slots rows n d cap) (unpinned_tracked n (young_rows n d rows))"

definition admitted_rows :: "emerging_row list \<Rightarrow> int \<Rightarrow> int \<Rightarrow> int \<Rightarrow> emerging_row list" where
  "admitted_rows rows n d cap =
     take (free_slots rows n d cap - length (kept_rows rows n d cap)) (waiting_rows n (young_rows n d rows))"

definition deferred_rows :: "emerging_row list \<Rightarrow> int \<Rightarrow> int \<Rightarrow> int \<Rightarrow> emerging_row list" where
  "deferred_rows rows n d cap =
     drop (free_slots rows n d cap - length (kept_rows rows n d cap)) (waiting_rows n (young_rows n d rows))
     @ drop (free_slots rows n d cap) (unpinned_tracked n (young_rows n d rows))"

lemma drop_min_length: "drop (min (length xs) n) xs = drop n xs"
  by (cases "length xs \<le> n") (auto simp: min_def)

lemma plan_fields:
  "ap_admit (planAdmission rows n d cap) = map lr_poolKey (admitted_rows rows n d cap)"
  "set (ap_defer (planAdmission rows n d cap)) = lr_poolKey ` set (deferred_rows rows n d cap)"
  "distinct (ap_defer (planAdmission rows n d cap))"
  "ap_ageOut (planAdmission rows n d cap) = map lr_poolKey (filter (\<lambda>r. ageTransition r n d = Aged) rows)"
  "ap_capacity (planAdmission rows n d cap) =
     int (length (filter (pinned_row n) (young_rows n d rows)) + length (kept_rows rows n d cap)
          + length (admitted_rows rows n d cap))"
  by (simp_all add: planAdmission_def Let_def foldl_set_add admitted_rows_def deferred_rows_def kept_rows_def
      free_slots_def [symmetric] drop_min_length image_Un)

lemma plan_split:
  "mset (kept_rows rows n d cap @ admitted_rows rows n d cap @ deferred_rows rows n d cap)
     = mset (unpinned_tracked n (young_rows n d rows) @ waiting_rows n (young_rows n d rows))"
proof -
  have "mset (take f t) + (mset (take m w) + (mset (drop m w) + mset (drop f t))) = mset t + mset w"
    for f m and t w :: "emerging_row list"
    using arg_cong [OF append_take_drop_id [of f t], of mset] arg_cong [OF append_take_drop_id [of m w], of mset]
    by (simp add: ac_simps del: append_take_drop_id)
  then show ?thesis unfolding kept_rows_def admitted_rows_def deferred_rows_def mset_append by blast
qed

lemma plan_rows: "set (kept_rows rows n d cap) \<union> set (admitted_rows rows n d cap) \<union> set (deferred_rows rows n d cap)
    = {r \<in> set rows. ageTransition r n d \<noteq> Aged \<and> \<not> pinned_row n r}"
  using arg_cong [where f = set_mset, OF plan_split [of rows n d cap]]
  by (auto simp: set_tracked set_waiting set_young simp del: not_None_eq)

lemma plan_kinds:
  "set (kept_rows rows n d cap) \<subseteq> {r. lr_admittedRank r \<noteq> None}"
  "set (admitted_rows rows n d cap) \<subseteq> {r. lr_admittedRank r = None}"
  by (auto simp: kept_rows_def admitted_rows_def set_tracked set_waiting dest!: in_set_takeD simp del: not_None_eq)

lemma plan_distinct_rows:
  assumes "distinct (map lr_poolKey rows)"
  shows "distinct (map lr_poolKey (kept_rows rows n d cap @ admitted_rows rows n d cap @ deferred_rows rows n d cap))"
proof -
  let ?y = "young_rows n d rows"
  have y: "distinct (map lr_poolKey ?y)" using assms by (simp add: young_rows_def distinct_map_filterI)
  have "r = r'" if "r \<in> set ?y" "r' \<in> set ?y" "lr_poolKey r = lr_poolKey r'" for r r'
    using y that by (auto simp: distinct_map inj_on_def)
  then have "lr_poolKey ` set (unpinned_tracked n ?y) \<inter> lr_poolKey ` set (waiting_rows n ?y) = {}"
    by (simp only: set_tracked set_waiting disjoint_iff image_iff) (metis (mono_tags, lifting) mem_Collect_eq)
  then have "distinct (map lr_poolKey (unpinned_tracked n ?y @ waiting_rows n ?y))"
    using distinct_tracked [OF y] distinct_waiting [OF y] by simp
  moreover have "mset (map lr_poolKey (kept_rows rows n d cap @ admitted_rows rows n d cap @ deferred_rows rows n d cap))
      = mset (map lr_poolKey (unpinned_tracked n ?y @ waiting_rows n ?y))"
    by (simp only: mset_map plan_split)
  ultimately show ?thesis by (metis mset_eq_imp_distinct_iff)
qed

lemma plan_slots: "length (kept_rows rows n d cap) + length (admitted_rows rows n d cap) \<le> free_slots rows n d cap"
  by (auto simp: kept_rows_def admitted_rows_def)

lemma plan_full:
  assumes "deferred_rows rows n d cap \<noteq> []"
  shows "length (kept_rows rows n d cap) + length (admitted_rows rows n d cap) = free_slots rows n d cap"
proof -
  have "f = min (length t) f + min (length w) (f - min (length t) f)"
    if "f < length t \<or> f - min (length t) f < length w" for f :: nat and t w :: "emerging_row list"
    using that by linarith
  then show ?thesis using assms by (simp add: kept_rows_def admitted_rows_def deferred_rows_def not_le) metis
qed

lemma row_key_in:
  assumes "distinct (map lr_poolKey rows)" "r \<in> set rows" "set xs \<subseteq> set rows"
  shows "lr_poolKey r \<in> lr_poolKey ` set xs \<longleftrightarrow> r \<in> set xs"
  using assms by (auto simp: distinct_map inj_on_def)

text \<open>The waiting order: the comparator of the queue never decreases along the list.\<close>

definition waits_before :: "emerging_row \<Rightarrow> emerging_row \<Rightarrow> bool" where
  "waits_before a b \<longleftrightarrow>
     (let da = lr_reason a = Some QuietDemoted; db = lr_reason b = Some QuietDemoted in
      if da \<noteq> db then db
      else if lr_firstSeenAt a \<noteq> lr_firstSeenAt b then lr_firstSeenAt a < lr_firstSeenAt b
      else map (of_char :: char \<Rightarrow> nat) (lr_poolKey a) \<le> map of_char (lr_poolKey b))"

lemma sort_key_refines:
  fixes f :: "'a \<Rightarrow> 'b::linorder"
  assumes "sorted_wrt S xs"
  shows "sorted_wrt (\<lambda>a b. f a < f b \<or> f a = f b \<and> S a b) (sort_key f xs)"
  using assms
proof (induction xs)
  case (Cons a xs)
  have le: "f a \<le> f y \<Longrightarrow> y \<in> set xs \<Longrightarrow> f a < f y \<or> f a = f y \<and> S a y" for y
    using Cons.prems by auto
  have "sorted_wrt (\<lambda>a b. f a < f b \<or> f a = f b \<and> S a b) (insort_key f a ys)"
    if "sorted_wrt (\<lambda>a b. f a < f b \<or> f a = f b \<and> S a b) ys" "set ys \<subseteq> set xs" for ys
    using that
  proof (induction ys)
    case (Cons b ys)
    show ?case
    proof (cases "f a \<le> f b")
      case True
      then have "f a \<le> f y" if "y \<in> set (b # ys)" for y
        using Cons.prems(1) that by force
      with True Cons.prems le show ?thesis by (simp add: subset_iff)
    next
      case False
      with Cons show ?thesis by (auto simp: set_insort_key not_le)
    qed
  qed simp
  with Cons show ?case by simp
qed simp

lemma waiting_sorted: "sorted_wrt waits_before (waiting_rows n rows)"
proof -
  have "sorted_wrt (\<lambda>_ _. True) (xs :: emerging_row list)" for xs by (induction xs) auto
  from sort_key_refines [OF sort_key_refines [OF sort_key_refines [OF this]]]
  show ?thesis unfolding waiting_rows_def
    by (rule sorted_wrt_mono_rel [rotated]) (auto simp: waits_before_def Let_def split: if_splits)
qed

text \<open>Which list of the plan holds a row's key.\<close>

lemma plan_member:
  assumes "distinct (map lr_poolKey rows)" "r \<in> set rows"
  shows "lr_poolKey r \<in> set (ap_admit (planAdmission rows n d cap)) \<longleftrightarrow> r \<in> set (admitted_rows rows n d cap)"
    and "lr_poolKey r \<in> set (ap_defer (planAdmission rows n d cap)) \<longleftrightarrow> r \<in> set (deferred_rows rows n d cap)"
    and "lr_poolKey r \<in> set (ap_ageOut (planAdmission rows n d cap)) \<longleftrightarrow> ageTransition r n d = Aged"
proof -
  have sub: "set (admitted_rows rows n d cap) \<subseteq> set rows" "set (deferred_rows rows n d cap) \<subseteq> set rows"
    using plan_rows [of rows n d cap] by auto
  then show "lr_poolKey r \<in> set (ap_admit (planAdmission rows n d cap)) \<longleftrightarrow> r \<in> set (admitted_rows rows n d cap)"
    "lr_poolKey r \<in> set (ap_defer (planAdmission rows n d cap)) \<longleftrightarrow> r \<in> set (deferred_rows rows n d cap)"
    using row_key_in [OF assms] by (simp_all add: plan_fields)
  show "lr_poolKey r \<in> set (ap_ageOut (planAdmission rows n d cap)) \<longleftrightarrow> ageTransition r n d = Aged"
    using row_key_in [OF assms, of "filter (\<lambda>r. ageTransition r n d = Aged) rows"] assms(2)
    by (simp add: plan_fields)
qed

lemma plan_unpinned:
  "r \<in> set (admitted_rows rows n d cap) \<Longrightarrow> r \<in> set rows \<and> ageTransition r n d \<noteq> Aged \<and> \<not> pinned_row n r"
  "r \<in> set (deferred_rows rows n d cap) \<Longrightarrow> r \<in> set rows \<and> ageTransition r n d \<noteq> Aged \<and> \<not> pinned_row n r"
  using plan_rows [of rows n d cap] by blast+

lemma plan_key_row:
  "k \<in> set (ap_admit (planAdmission rows n d cap)) \<Longrightarrow> \<exists>r \<in> set rows. lr_poolKey r = k \<and> \<not> pinned_row n r"
  "k \<in> set (ap_defer (planAdmission rows n d cap)) \<Longrightarrow> \<exists>r \<in> set rows. lr_poolKey r = k \<and> \<not> pinned_row n r"
  using plan_unpinned [of _ rows n d cap] unfolding plan_fields set_map by blast+

lemma plan_waiting:
  assumes "r \<in> set rows" "ageTransition r n d \<noteq> Aged" "\<not> pinned_row n r" "lr_admittedRank r = None"
  shows "r \<in> set (admitted_rows rows n d cap) \<or> r \<in> set (deferred_rows rows n d cap)"
proof -
  have "r \<in> set (kept_rows rows n d cap) \<union> set (admitted_rows rows n d cap) \<union> set (deferred_rows rows n d cap)"
    unfolding plan_rows using assms by simp
  with assms(4) plan_kinds(1) show ?thesis by fastforce
qed

lemma plan_distinct:
  assumes "distinct (map lr_poolKey rows)"
  shows "distinct (ap_admit (planAdmission rows n d cap) @ ap_defer (planAdmission rows n d cap)
                   @ ap_ageOut (planAdmission rows n d cap))"
proof -
  let ?P = "planAdmission rows n d cap"
  let ?O = "filter (\<lambda>r. ageTransition r n d = Aged) rows"
  have "lr_poolKey r \<notin> set (ap_admit ?P) \<and> lr_poolKey r \<notin> set (ap_defer ?P)" if "r \<in> set ?O" for r
    using that plan_unpinned [of r rows n d cap] by (auto simp: plan_member [OF assms])
  then have "set (ap_ageOut ?P) \<inter> (set (ap_admit ?P) \<union> set (ap_defer ?P)) = {}"
    unfolding plan_fields(4) by auto
  moreover have "distinct (ap_admit ?P)" "set (ap_admit ?P) \<inter> set (ap_defer ?P) = {}"
    using plan_distinct_rows [OF assms, of n d cap] by (simp_all add: plan_fields)
  moreover have "distinct (ap_ageOut ?P)" unfolding plan_fields(4) using assms by (rule distinct_map_filterI)
  ultimately show ?thesis using plan_fields(3) [of rows n d cap] by auto
qed

lemma take_before_drop: "sorted_wrt R xs \<Longrightarrow> a \<in> set (take n xs) \<Longrightarrow> b \<in> set (drop n xs) \<Longrightarrow> R a b"
  by (metis append_take_drop_id sorted_wrt_append)


definition fresh_row :: "string \<Rightarrow> int \<Rightarrow> emerging_row" where
  "fresh_row k t = \<lparr>lr_poolKey = k, lr_state = Discovered, lr_reason = None,
     lr_poolCreatedAt = None, lr_tokenCreatedAt = None, lr_launchAt = None, lr_baseToken = None,
     lr_quoteIsUsdg = False, lr_pinnedUntil = None, lr_admittedRank = None, lr_firstSeenAt = t, lr_updatedAt = t\<rparr>"

definition queue_rows :: "emerging_row list" where
  "queue_rows = [(fresh_row ''a'' 5)\<lparr>lr_reason := Some QuietDemoted\<rparr>, fresh_row ''b'' 9, fresh_row ''c'' 7,
     (fresh_row ''d'' 1)\<lparr>lr_poolCreatedAt := Some 3\<rparr>]"


section \<open>The ledger under its writes\<close>

definition row_of :: "ledger \<Rightarrow> string \<Rightarrow> emerging_row option" where
  "row_of L k = map_of (map (\<lambda>r. (lr_poolKey r, r)) (ld_rows L)) k"

definition last_event :: "ledger \<Rightarrow> string \<Rightarrow> ledger_event option" where
  "last_event L k = find (\<lambda>e. le_poolKey e = k) (rev (ld_events L))"

definition history_agrees :: "ledger \<Rightarrow> bool" where
  "history_agrees L \<longleftrightarrow> (\<forall>k r. row_of L k = Some r \<longrightarrow>
     (\<exists>e. last_event L k = Some e \<and> le_to e = lr_state r \<and> le_reason e = lr_reason r))"

definition ranks_upto :: "int \<Rightarrow> ledger \<Rightarrow> bool" where
  "ranks_upto m L \<longleftrightarrow>
     (\<forall>k r n. row_of L k = Some r \<longrightarrow> lr_admittedRank r = Some n \<longrightarrow> n \<le> m \<and> lr_state r \<noteq> AgedOut) \<and>
     (\<forall>j k r r' n. row_of L j = Some r \<longrightarrow> row_of L k = Some r' \<longrightarrow>
        lr_admittedRank r = Some n \<longrightarrow> lr_admittedRank r' = Some n \<longrightarrow> j = k)"

definition ledger_wf :: "ledger \<Rightarrow> bool" where
  "ledger_wf L \<longleftrightarrow> distinct (ledger_keys L) \<and> history_agrees L \<and> ranks_upto (ld_seq L) L"

lemma map_of_rows_update:
  assumes "\<And>r. lr_poolKey (f r) = lr_poolKey r"
  shows "map_of (map (\<lambda>r. (lr_poolKey r, r)) (map (\<lambda>r. if lr_poolKey r = k then f r else r) rows)) j
    = (if j = k then map_option f (map_of (map (\<lambda>r. (lr_poolKey r, r)) rows) j)
       else map_of (map (\<lambda>r. (lr_poolKey r, r)) rows) j)"
  using assms by (induction rows) auto

lemma row_of_update:
  assumes "\<And>r. lr_poolKey (f r) = lr_poolKey r"
  shows "row_of (update_row k f L) j = (if j = k then map_option f (row_of L j) else row_of L j)"
  using map_of_rows_update [OF assms] by (simp add: row_of_def update_row_def)

lemma keys_update: "(\<And>r. lr_poolKey (f r) = lr_poolKey r) \<Longrightarrow> ledger_keys (update_row k f L) = ledger_keys L"
  by (simp add: ledger_keys_def update_row_def)

lemma row_of_in: "row_of L k = Some r \<Longrightarrow> r \<in> set (ld_rows L) \<and> lr_poolKey r = k"
  by (auto simp: row_of_def dest!: map_of_SomeD)

lemma row_of_None: "row_of L k = None \<longleftrightarrow> k \<notin> set (ledger_keys L)"
  by (force simp: row_of_def ledger_keys_def map_of_eq_None_iff)

lemma row_of_mem:
  assumes "distinct (ledger_keys L)" "r \<in> set (ld_rows L)" shows "row_of L (lr_poolKey r) = Some r"
proof -
  have "distinct (map fst (map (\<lambda>r. (lr_poolKey r, r)) (ld_rows L)))"
    using assms(1) by (simp add: ledger_keys_def comp_def)
  then show ?thesis using assms(2) by (auto simp: row_of_def intro!: map_of_is_SomeI)
qed

lemma transition_row_of:
  "row_of (recordEmergingTransition k st' st why rank t L) j =
     (if j = k then map_option (\<lambda>r. r\<lparr>lr_state := st, lr_reason := why, lr_admittedRank := rank, lr_updatedAt := t\<rparr>) (row_of L j)
      else row_of L j)"
proof -
  have "row_of (L\<lparr>ld_events := es\<rparr>) j = row_of L j" for L es by (simp add: row_of_def)
  then show ?thesis by (simp add: recordEmergingTransition_def Let_def row_of_update)
qed

lemma transition_fields [simp]:
  "ledger_keys (recordEmergingTransition k st' st why rank t L) = ledger_keys L"
  "ld_seq (recordEmergingTransition k st' st why rank t L) = ld_seq L"
  "ld_v4Cursor (recordEmergingTransition k st' st why rank t L) = ld_v4Cursor L"
  "ld_v23Cursor (recordEmergingTransition k st' st why rank t L) = ld_v23Cursor L"
  by (simp_all add: recordEmergingTransition_def Let_def keys_update) (simp_all add: ledger_keys_def update_row_def)

lemma transition_last_event:
  "last_event (recordEmergingTransition k st' st why rank t L) j =
     (if j = k then Some \<lparr>le_poolKey = k, le_at = t, le_from = Some st', le_to = st, le_reason = why\<rparr> else last_event L j)"
  by (simp add: last_event_def recordEmergingTransition_def Let_def update_row_def)

lemma transition_history: "history_agrees L \<Longrightarrow> history_agrees (recordEmergingTransition k st' st why rank t L)"
  by (auto simp: history_agrees_def transition_row_of transition_last_event)

lemma transition_ranks_None:
  "ranks_upto m L \<Longrightarrow> ranks_upto m (recordEmergingTransition k st' st why None t L)"
  by (auto simp: ranks_upto_def transition_row_of split: if_splits)

lemma transition_ranks_next:
  "ranks_upto m L \<Longrightarrow> st \<noteq> AgedOut \<Longrightarrow> ranks_upto (m + 1) (recordEmergingTransition k st' st why (Some (m + 1)) t L)"
  by (fastforce simp: ranks_upto_def transition_row_of split: if_splits)

text \<open>What a pool never loses: its row, its first sighting, its pin, a birth once known.\<close>

definition row_kept :: "emerging_row \<Rightarrow> emerging_row \<Rightarrow> bool" where
  "row_kept r r' \<longleftrightarrow> lr_firstSeenAt r' = lr_firstSeenAt r \<and> lr_pinnedUntil r' = lr_pinnedUntil r \<and>
     lr_poolCreatedAt r' = coalesce (lr_poolCreatedAt r) (lr_poolCreatedAt r') \<and>
     lr_tokenCreatedAt r' = coalesce (lr_tokenCreatedAt r) (lr_tokenCreatedAt r')"

definition pools_kept :: "ledger \<Rightarrow> ledger \<Rightarrow> bool" where
  "pools_kept L L' \<longleftrightarrow> (\<forall>k r. row_of L k = Some r \<longrightarrow> (\<exists>r'. row_of L' k = Some r' \<and> row_kept r r')) \<and>
     (\<exists>es. ld_events L' = ld_events L @ es)"

lemma coalesce_same [simp]: "coalesce a a = a"
  by (cases a) simp_all

lemma row_kept_refl [simp]: "row_kept r r"
  by (simp add: row_kept_def)

lemma row_kept_trans: "row_kept a b \<Longrightarrow> row_kept b c \<Longrightarrow> row_kept a c"
  by (cases "lr_poolCreatedAt a"; cases "lr_tokenCreatedAt a"; simp add: row_kept_def)

lemma pools_kept_refl [simp]: "pools_kept L L"
  by (auto simp: pools_kept_def)

lemma pools_kept_trans: "pools_kept A B \<Longrightarrow> pools_kept B C \<Longrightarrow> pools_kept A C"
  unfolding pools_kept_def
proof (intro conjI allI impI; elim conjE exE)
  fix k r es es' assume "\<forall>k r. row_of A k = Some r \<longrightarrow> (\<exists>r'. row_of B k = Some r' \<and> row_kept r r')"
    "\<forall>k r. row_of B k = Some r \<longrightarrow> (\<exists>r'. row_of C k = Some r' \<and> row_kept r r')" "row_of A k = Some r"
  then show "\<exists>r'. row_of C k = Some r' \<and> row_kept r r'" using row_kept_trans by blast
qed simp

lemma transition_kept: "pools_kept L (recordEmergingTransition k st' st why rank t L)"
proof -
  have "ld_events (recordEmergingTransition k st' st why rank t L) =
      ld_events L @ [\<lparr>le_poolKey = k, le_at = t, le_from = Some st', le_to = st, le_reason = why\<rparr>]"
    by (simp add: recordEmergingTransition_def Let_def update_row_def)
  then show ?thesis by (auto simp: pools_kept_def transition_row_of row_kept_def)
qed

text \<open>
  A write of the admission pass: it keeps the pools, the cursors and the history, and touches
  the rows of the keys it is given only.
\<close>

definition pass_ok :: "string set \<Rightarrow> ledger \<Rightarrow> ledger \<Rightarrow> bool" where
  "pass_ok ks L L' \<longleftrightarrow> ledger_keys L' = ledger_keys L \<and> pools_kept L L' \<and>
     (history_agrees L \<longrightarrow> history_agrees L') \<and> ld_seq L' = ld_seq L \<and>
     ld_v4Cursor L' = ld_v4Cursor L \<and> ld_v23Cursor L' = ld_v23Cursor L \<and>
     (\<forall>k. k \<notin> ks \<longrightarrow> row_of L' k = row_of L k)"

lemma pass_ok_refl [simp]: "pass_ok ks L L"
  by (simp add: pass_ok_def)

lemma pass_ok_trans: "pass_ok ks A B \<Longrightarrow> pass_ok ks B C \<Longrightarrow> pass_ok ks A C"
  unfolding pass_ok_def using pools_kept_trans by force

lemma pass_ok_mono: "pass_ok ks L L' \<Longrightarrow> ks \<subseteq> ks' \<Longrightarrow> pass_ok ks' L L'"
  unfolding pass_ok_def by blast

lemma transition_pass: "k \<in> ks \<Longrightarrow> pass_ok ks L (recordEmergingTransition k st' st why rank t L)"
  by (auto simp: pass_ok_def transition_kept transition_history transition_row_of)

definition unranked :: "ledger \<Rightarrow> string \<Rightarrow> bool" where
  "unranked L k \<longleftrightarrow> (\<forall>r. row_of L k = Some r \<longrightarrow> lr_admittedRank r = None)"

lemma transition_unranked: "unranked L j \<or> j = k \<Longrightarrow> unranked (recordEmergingTransition k st' st why None t L) j"
  by (auto simp: unranked_def transition_row_of split: if_splits)

lemma foldl_rel:
  assumes "\<And>s. R s s" "\<And>a b c. R a b \<Longrightarrow> R b c \<Longrightarrow> R a c" "\<And>s x. x \<in> set xs \<Longrightarrow> R s (f s x)"
  shows "R s (foldl f s xs)"
  using assms(3)
proof (induction xs arbitrary: s)
  case (Cons x xs)
  have "R s (f s x)" using Cons.prems by simp
  moreover have "R (f s x) (foldl f (f s x) xs)" using Cons by simp
  ultimately show ?case using assms(2) by simp
qed (simp add: assms(1))

lemma foldl_keep:
  assumes "P s" "\<And>s x. x \<in> set xs \<Longrightarrow> P s \<Longrightarrow> P (f s x)" shows "P (foldl f s xs)"
  using assms by (induction xs arbitrary: s) auto

section \<open>The passes of a sweep\<close>

lemma row_by_key_Some: "row_by_key active k = Some r \<Longrightarrow> r \<in> set active \<and> lr_poolKey r = k"
  by (auto simp: row_by_key_def find_Some_iff) (metis length_rev nth_mem set_rev)

lemma row_by_key_ex: "r \<in> set active \<Longrightarrow> row_by_key active (lr_poolKey r) \<noteq> None"
  by (auto simp: row_by_key_def find_None_iff)

text \<open>Quiet demotion never touches a pool that carries a pin, running or run out.\<close>

lemma demote_pass:
  "pass_ok {lr_poolKey r | r. r \<in> set active \<and> lr_pinnedUntil r = None} L (demote_quiet t q traded active L)"
  unfolding demote_quiet_def
  by (rule foldl_rel [where R = "pass_ok {lr_poolKey r | r. r \<in> set active \<and> lr_pinnedUntil r = None}"])
    (auto simp: intro: pass_ok_trans intro!: transition_pass)

lemma demote_ranks: "ranks_upto m L \<Longrightarrow> ranks_upto m (demote_quiet t q traded active L)"
  unfolding demote_quiet_def by (rule foldl_keep) (auto intro: transition_ranks_None)

lemma demote_unranked: "unranked L k \<Longrightarrow> unranked (demote_quiet t q traded active L) k"
  unfolding demote_quiet_def by (rule foldl_keep) (auto intro: transition_unranked)

lemma age_out_pass: "pass_ok (set ks) (snd s) (snd (foldl (age_out_step t active) s ks))"
  by (rule foldl_rel [where R = "\<lambda>s s'. pass_ok (set ks) (snd s) (snd s')"])
    (auto simp: age_out_step_def split: option.splits intro: pass_ok_trans transition_pass)

lemma age_out_ranks: "ranks_upto m (snd s) \<Longrightarrow> ranks_upto m (snd (foldl (age_out_step t active) s ks))"
  by (rule foldl_keep [where P = "\<lambda>s. ranks_upto m (snd s)"])
    (auto simp: age_out_step_def split: option.splits intro: transition_ranks_None)

lemma age_out_unranked: "unranked (snd s) k \<Longrightarrow> unranked (snd (foldl (age_out_step t active) s ks)) k"
  by (rule foldl_keep [where P = "\<lambda>s. unranked (snd s) k"])
    (auto simp: age_out_step_def split: option.splits intro: transition_unranked)

lemma age_out_hits:
  assumes "k \<in> set ks" "row_by_key active k = Some r" "lr_state r \<noteq> AgedOut"
  shows "unranked (snd (foldl (age_out_step t active) s ks)) k"
  using assms(1)
proof (induction ks arbitrary: s)
  case (Cons j ks)
  show ?case
  proof (cases "j = k")
    case True
    have "unranked (snd (age_out_step t active s k)) k"
      using assms(2,3) by (simp add: age_out_step_def transition_unranked)
    then show ?thesis using True age_out_unranked by simp
  next
    case False
    with Cons show ?thesis by simp
  qed
qed simp

lemma defer_pass: "pass_ok (set ks) (snd s) (snd (foldl (defer_step t active) s ks))"
  by (rule foldl_rel [where R = "\<lambda>s s'. pass_ok (set ks) (snd s) (snd s')"])
    (auto simp: defer_step_def split: option.splits intro: pass_ok_trans transition_pass)

lemma defer_ranks: "ranks_upto m (snd s) \<Longrightarrow> ranks_upto m (snd (foldl (defer_step t active) s ks))"
  by (rule foldl_keep [where P = "\<lambda>s. ranks_upto m (snd s)"])
    (auto simp: defer_step_def split: option.splits intro: transition_ranks_None)

lemma defer_unranked: "unranked (snd s) k \<Longrightarrow> unranked (snd (foldl (defer_step t active) s ks)) k"
  by (rule foldl_keep [where P = "\<lambda>s. unranked (snd s) k"])
    (auto simp: defer_step_def split: option.splits intro: transition_unranked)

lemma defer_hits:
  assumes "k \<in> set ks" "row_by_key active k = Some r" "lr_admittedRank r = None \<Longrightarrow> unranked (snd s) k"
  shows "unranked (snd (foldl (defer_step t active) s ks)) k"
  using assms(1,3)
proof (induction ks arbitrary: s)
  case (Cons j ks)
  show ?case
  proof (cases "j = k")
    case True
    have "unranked (snd (defer_step t active s k)) k"
      using assms(2) Cons.prems(2) by (auto simp: defer_step_def intro: transition_unranked)
    then show ?thesis using True defer_unranked by simp
  next
    case False
    have "unranked (snd s) k \<Longrightarrow> unranked (snd (defer_step t active s j)) k"
      using defer_unranked [of s k t active "[j]"] by simp
    with False Cons show ?thesis by simp
  qed
qed simp

lemma admit_pass: "pass_ok (set ks) (snd (snd s)) (snd (snd (foldl (admit_step t active) s ks)))"
  by (rule foldl_rel [where R = "\<lambda>s s'. pass_ok (set ks) (snd (snd s)) (snd (snd s'))"])
    (auto simp: admit_step_def split: option.splits prod.splits intro: pass_ok_trans transition_pass)

lemma admit_ranks:
  "ranks_upto (fst (snd s)) (snd (snd s)) \<Longrightarrow>
   ranks_upto (fst (snd (foldl (admit_step t active) s ks))) (snd (snd (foldl (admit_step t active) s ks)))"
  by (rule foldl_keep [where P = "\<lambda>s. ranks_upto (fst (snd s)) (snd (snd s))"])
    (auto simp: admit_step_def split: option.splits prod.splits intro: transition_ranks_next)

lemma active_wf:
  assumes "ledger_wf L"
  shows "distinct (map lr_poolKey (listEmergingActive L))"
    and "r \<in> set (listEmergingActive L) \<Longrightarrow> row_of L (lr_poolKey r) = Some r \<and> row_by_key (listEmergingActive L) (lr_poolKey r) = Some r"
proof -
  show d: "distinct (map lr_poolKey (listEmergingActive L))"
    using assms by (simp add: ledger_wf_def listEmergingActive_def ledger_keys_def distinct_map_filterI)
  assume r: "r \<in> set (listEmergingActive L)"
  then have "row_of L (lr_poolKey r) = Some r"
    using assms row_of_mem by (simp add: ledger_wf_def listEmergingActive_def)
  moreover have "row_by_key (listEmergingActive L) (lr_poolKey r) = Some r"
  proof -
    obtain r' where "row_by_key (listEmergingActive L) (lr_poolKey r) = Some r'"
      using row_by_key_ex [OF r] by blast
    with row_by_key_Some [OF this] r d show ?thesis by (metis distinct_map inj_onD)
  qed
  ultimately show "row_of L (lr_poolKey r) = Some r \<and> row_by_key (listEmergingActive L) (lr_poolKey r) = Some r"
    by simp
qed

text \<open>The four ledgers of an admission pass, in order.\<close>

lemma admission_stages:
  obtains D A S F plan where
    "plan = planAdmission (listEmergingActive L) t (sc_maxAgeDays c) (if allowed then sc_maxPools c else 0)"
    "D = demote_quiet t (sc_quietSeconds c) traded (listEmergingActive L) L"
    "A = foldl (age_out_step t (listEmergingActive L)) (0, D) (ap_ageOut plan)"
    "S = foldl (admit_step t (listEmergingActive L)) (0, ld_seq (snd A), snd A) (ap_admit plan)"
    "F = foldl (defer_step t (listEmergingActive L)) (0, snd (snd S)) (ap_defer plan)"
    "snd (admission_pass c allowed t traded L) = (snd F)\<lparr>ld_seq := fst (snd S)\<rparr>"
  by (rule that; (rule refl)?) (simp add: admission_pass_def Let_def split_beta)

lemma seq_update [simp]:
  "row_of (L\<lparr>ld_seq := m\<rparr>) k = row_of L k" "ledger_keys (L\<lparr>ld_seq := m\<rparr>) = ledger_keys L"
  "history_agrees (L\<lparr>ld_seq := m\<rparr>) = history_agrees L" "ranks_upto n (L\<lparr>ld_seq := m\<rparr>) = ranks_upto n L"
  "pools_kept K (L\<lparr>ld_seq := m\<rparr>) = pools_kept K L" "unranked (L\<lparr>ld_seq := m\<rparr>) k = unranked L k"
  by (simp_all add: row_of_def ledger_keys_def history_agrees_def last_event_def ranks_upto_def pools_kept_def unranked_def)

lemma admission_pass_ok:
  fixes c allowed t traded L
  assumes "ledger_wf L"
  defines "L' \<equiv> snd (admission_pass c allowed t traded L)"
  shows "ledger_wf L' \<and> pools_kept L L' \<and> ledger_keys L' = ledger_keys L \<and>
    ld_v4Cursor L' = ld_v4Cursor L \<and> ld_v23Cursor L' = ld_v23Cursor L"
proof (rule admission_stages [of L t c allowed traded])
  fix plan D A S F
  assume D: "D = demote_quiet t (sc_quietSeconds c) traded (listEmergingActive L) L"
    and A: "A = foldl (age_out_step t (listEmergingActive L)) (0, D) (ap_ageOut plan)"
    and S: "S = foldl (admit_step t (listEmergingActive L)) (0, ld_seq (snd A), snd A) (ap_admit plan)"
    and F: "F = foldl (defer_step t (listEmergingActive L)) (0, snd (snd S)) (ap_defer plan)"
    and L': "snd (admission_pass c allowed t traded L) = (snd F)\<lparr>ld_seq := fst (snd S)\<rparr>"
  have "pass_ok UNIV L D" unfolding D by (rule pass_ok_mono [OF demote_pass]) simp
  moreover have DA: "pass_ok UNIV D (snd A)"
    unfolding A using pass_ok_mono [OF age_out_pass [of _ "(0, D)"]] by simp
  moreover have "pass_ok UNIV (snd A) (snd (snd S))"
    unfolding S using pass_ok_mono [OF admit_pass [of _ "(0, ld_seq (snd A), snd A)"]] by simp
  moreover have "pass_ok UNIV (snd (snd S)) (snd F)"
    unfolding F using pass_ok_mono [OF defer_pass [of _ "(0, snd (snd S))"]] by simp
  ultimately have P: "pass_ok UNIV L (snd F)" by (blast intro: pass_ok_trans)
  have "ranks_upto (ld_seq L) D" unfolding D using assms(1) by (simp add: ledger_wf_def demote_ranks)
  then have "ranks_upto (ld_seq L) (snd A)" unfolding A by (simp add: age_out_ranks)
  moreover have "ld_seq (snd A) = ld_seq L" using \<open>pass_ok UNIV L D\<close> DA by (simp add: pass_ok_def)
  ultimately have "ranks_upto (fst (snd S)) (snd (snd S))" unfolding S by (simp add: admit_ranks)
  then have "ranks_upto (fst (snd S)) (snd F)" unfolding F by (simp add: defer_ranks)
  with P assms(1) show ?thesis by (simp add: L'_def L' ledger_wf_def pass_ok_def)
qed

lemma pass_unchanged: "pass_ok ks L L' \<Longrightarrow> k \<notin> ks \<Longrightarrow> row_of L' k = row_of L k"
  by (simp add: pass_ok_def)

text \<open>The rows the pass leaves with a rank: those the plan keeps, those it admits, the pinned ones.\<close>

lemma admission_slots:
  fixes c allowed t traded L
  assumes "ledger_wf L" "\<not> unranked (snd (admission_pass c allowed t traded L)) k"
  defines "rows \<equiv> listEmergingActive L" and "cap \<equiv> if allowed then sc_maxPools c else 0"
  shows "\<exists>r. row_of L k = Some r \<and> r \<in> set rows \<and> (pinned_row t r \<or> r \<in> set (kept_rows rows t (sc_maxAgeDays c) cap) \<or>
    r \<in> set (admitted_rows rows t (sc_maxAgeDays c) cap))"
proof (rule admission_stages [of L t c allowed traded])
  fix plan D A S F
  assume plan: "plan = planAdmission (listEmergingActive L) t (sc_maxAgeDays c) (if allowed then sc_maxPools c else 0)"
    and D: "D = demote_quiet t (sc_quietSeconds c) traded (listEmergingActive L) L"
    and A: "A = foldl (age_out_step t (listEmergingActive L)) (0, D) (ap_ageOut plan)"
    and S: "S = foldl (admit_step t (listEmergingActive L)) (0, ld_seq (snd A), snd A) (ap_admit plan)"
    and F: "F = foldl (defer_step t (listEmergingActive L)) (0, snd (snd S)) (ap_defer plan)"
    and L': "snd (admission_pass c allowed t traded L) = (snd F)\<lparr>ld_seq := fst (snd S)\<rparr>"
  note d = active_wf(1) [OF assms(1)] and act = active_wf(2) [OF assms(1)]
  note member = plan_member [OF d, of _ t "sc_maxAgeDays c" "if allowed then sc_maxPools c else 0", folded plan]
  have end_ranked: "\<not> unranked (snd F) k" using assms(2) by (simp add: L')
  have up_to_A: "unranked L k \<Longrightarrow> unranked (snd A) k"
    unfolding A D by (rule age_out_unranked) (simp add: demote_unranked)
  have admit: "k \<notin> set (ap_admit plan) \<Longrightarrow> unranked (snd A) k \<Longrightarrow> unranked (snd (snd S)) k"
    using pass_unchanged [OF admit_pass [of "ap_admit plan" "(0, ld_seq (snd A), snd A)"], of k] unfolding S
    by (simp add: unranked_def)
  have final: "unranked (snd (snd S)) k \<Longrightarrow> unranked (snd F) k" unfolding F by (simp add: defer_unranked)
  show ?thesis
  proof (cases "\<exists>r \<in> set (listEmergingActive L). lr_poolKey r = k")
    case False
    have "unranked L k" unfolding unranked_def
    proof (intro allI impI)
      fix r assume r: "row_of L k = Some r"
      then have "lr_state r = AgedOut" using False row_of_in [OF r] by (auto simp: listEmergingActive_def)
      then show "lr_admittedRank r = None"
        using assms(1) r unfolding ledger_wf_def ranks_upto_def by (metis option.exhaust)
    qed
    moreover have "k \<notin> set (ap_admit plan)"
      using False plan_key_row(1) unfolding plan by blast
    ultimately show ?thesis using up_to_A admit final end_ranked by blast
  next
    case True
    then obtain r where r: "r \<in> set (listEmergingActive L)" "lr_poolKey r = k" by blast
    have row: "row_of L k = Some r" "row_by_key (listEmergingActive L) k = Some r" using act r by blast+
    have alive: "lr_state r \<noteq> AgedOut" using r(1) by (simp add: listEmergingActive_def)
    note mem = member [OF r(1), unfolded r(2)]
    have "ageTransition r t (sc_maxAgeDays c) \<noteq> Aged"
    proof
      assume aged: "ageTransition r t (sc_maxAgeDays c) = Aged"
      then have "unranked (snd A) k" using mem(3) row(2) alive unfolding A by (blast intro: age_out_hits)
      moreover have "k \<notin> set (ap_admit plan)" using aged plan_unpinned(1) mem(1) by blast
      ultimately show False using admit final end_ranked by blast
    qed
    moreover have "r \<notin> set (deferred_rows (listEmergingActive L) t (sc_maxAgeDays c) (if allowed then sc_maxPools c else 0))"
    proof
      assume "r \<in> set (deferred_rows (listEmergingActive L) t (sc_maxAgeDays c) (if allowed then sc_maxPools c else 0))"
      then have k: "k \<in> set (ap_defer plan)" using mem(2) by blast
      then have "k \<notin> set (ap_admit plan)"
        using plan_distinct [OF d, of t "sc_maxAgeDays c" "if allowed then sc_maxPools c else 0", folded plan] by auto
      then have "lr_admittedRank r = None \<Longrightarrow> unranked (snd (snd S)) k"
        using up_to_A admit row(1) by (simp add: unranked_def)
      then have "unranked (snd F) k" using defer_hits [OF k row(2), of "(0, snd (snd S))"] unfolding F by simp
      then show False using end_ranked by blast
    qed
    ultimately show ?thesis
      using r row(1) plan_rows [of "listEmergingActive L" t "sc_maxAgeDays c" "if allowed then sc_maxPools c else 0"]
      unfolding rows_def cap_def by blast
  qed
qed

text \<open>A pool whose pin runs keeps its row as it was, unless its age is proved to be past the window.\<close>

lemma admission_pinned:
  fixes c allowed t traded L
  assumes "ledger_wf L" "row_of L k = Some r" "pinned_row t r" "ageTransition r t (sc_maxAgeDays c) \<noteq> Aged"
  shows "row_of (snd (admission_pass c allowed t traded L)) k = Some r"
proof (rule admission_stages [of L t c allowed traded])
  fix plan D A S F
  assume plan: "plan = planAdmission (listEmergingActive L) t (sc_maxAgeDays c) (if allowed then sc_maxPools c else 0)"
    and D: "D = demote_quiet t (sc_quietSeconds c) traded (listEmergingActive L) L"
    and A: "A = foldl (age_out_step t (listEmergingActive L)) (0, D) (ap_ageOut plan)"
    and S: "S = foldl (admit_step t (listEmergingActive L)) (0, ld_seq (snd A), snd A) (ap_admit plan)"
    and F: "F = foldl (defer_step t (listEmergingActive L)) (0, snd (snd S)) (ap_defer plan)"
    and L': "snd (admission_pass c allowed t traded L) = (snd F)\<lparr>ld_seq := fst (snd S)\<rparr>"
  note d = active_wf(1) [OF assms(1)] and act = active_wf(2) [OF assms(1)]
  have same: "r' = r" if "r' \<in> set (listEmergingActive L)" "lr_poolKey r' = k" for r'
    using act [OF that(1)] that(2) assms(2) by simp
  have "k \<notin> set (ap_admit plan)" "k \<notin> set (ap_defer plan)"
    using plan_key_row same assms(3) unfolding plan by blast+
  moreover have "k \<notin> set (ap_ageOut plan)" using same assms(4) by (auto simp: plan plan_fields)
  moreover have "k \<notin> {lr_poolKey r | r. r \<in> set (listEmergingActive L) \<and> lr_pinnedUntil r = None}"
    using same assms(3) by (auto simp: pinned_row_def split: option.splits)
  ultimately have "row_of (snd F) k = row_of L k"
    using pass_unchanged [OF demote_pass, of k] pass_unchanged [OF age_out_pass, of k]
      pass_unchanged [OF admit_pass, of k] pass_unchanged [OF defer_pass, of k]
    unfolding F S A D by simp
  then show ?thesis using assms(2) by (simp add: L')
qed

section \<open>Discovery and age evidence\<close>

lemma upsert_fields:
  "upsertEmergingDiscovery k t L = (False, L) \<and> k \<in> set (ledger_keys L) \<or>
   (\<exists>L'. upsertEmergingDiscovery k t L = (True, L') \<and> k \<notin> set (ledger_keys L) \<and> ledger_keys L' = ledger_keys L @ [k] \<and>
      (\<forall>j. row_of L' j = (if j = k then Some (fresh_row k t) else row_of L j)) \<and>
      (\<forall>j. last_event L' j = (if j = k then Some \<lparr>le_poolKey = k, le_at = t, le_from = None, le_to = Discovered, le_reason = None\<rparr>
                              else last_event L j)) \<and>
      (\<exists>es. ld_events L' = ld_events L @ es) \<and> ld_seq L' = ld_seq L \<and>
      ld_v4Cursor L' = ld_v4Cursor L \<and> ld_v23Cursor L' = ld_v23Cursor L)"
  by (auto simp: upsertEmergingDiscovery_def ledger_keys_def row_of_def last_event_def fresh_row_def map_add_def
      split: option.splits dest!: map_of_SomeD)

lemma upsert_keys: "set (ledger_keys (snd (upsertEmergingDiscovery k t L))) = insert k (set (ledger_keys L))"
  using upsert_fields [of k t L] by auto

definition stage_ok :: "ledger \<Rightarrow> ledger \<Rightarrow> bool" where
  "stage_ok L L' \<longleftrightarrow> (ledger_wf L \<longrightarrow> ledger_wf L') \<and> pools_kept L L' \<and>
     ld_v4Cursor L' = ld_v4Cursor L \<and> ld_v23Cursor L' = ld_v23Cursor L"

lemma stage_ok_refl [simp]: "stage_ok L L"
  by (simp add: stage_ok_def)

lemma stage_ok_trans: "stage_ok A B \<Longrightarrow> stage_ok B C \<Longrightarrow> stage_ok A C"
  unfolding stage_ok_def using pools_kept_trans by force

lemma upsert_ok: "stage_ok L (snd (upsertEmergingDiscovery k t L))"
  using upsert_fields [of k t L]
proof
  assume "\<exists>L'. upsertEmergingDiscovery k t L = (True, L') \<and> k \<notin> set (ledger_keys L) \<and> ledger_keys L' = ledger_keys L @ [k] \<and>
      (\<forall>j. row_of L' j = (if j = k then Some (fresh_row k t) else row_of L j)) \<and>
      (\<forall>j. last_event L' j = (if j = k then Some \<lparr>le_poolKey = k, le_at = t, le_from = None, le_to = Discovered, le_reason = None\<rparr>
                              else last_event L j)) \<and>
      (\<exists>es. ld_events L' = ld_events L @ es) \<and> ld_seq L' = ld_seq L \<and>
      ld_v4Cursor L' = ld_v4Cursor L \<and> ld_v23Cursor L' = ld_v23Cursor L"
  then obtain L' where U: "upsertEmergingDiscovery k t L = (True, L')" "k \<notin> set (ledger_keys L)"
      "ledger_keys L' = ledger_keys L @ [k]" "ld_seq L' = ld_seq L" "ld_v4Cursor L' = ld_v4Cursor L" "ld_v23Cursor L' = ld_v23Cursor L"
    and R: "\<And>j. row_of L' j = (if j = k then Some (fresh_row k t) else row_of L j)"
      "\<And>j. last_event L' j = (if j = k then Some \<lparr>le_poolKey = k, le_at = t, le_from = None, le_to = Discovered, le_reason = None\<rparr>
                               else last_event L j)"
    and E: "\<exists>es. ld_events L' = ld_events L @ es" by blast
  have "row_of L k = None" using U(2) by (simp add: row_of_None)
  then have kept: "pools_kept L L'" using E by (auto simp: pools_kept_def R)
  have "history_agrees L \<Longrightarrow> history_agrees L'" by (auto simp: history_agrees_def R fresh_row_def)
  moreover have "ranks_upto m L \<Longrightarrow> ranks_upto m L'" for m
    by (auto simp: ranks_upto_def R fresh_row_def split: if_splits)
  ultimately show ?thesis using kept U by (auto simp: stage_ok_def ledger_wf_def)
qed simp

lemma ages_ok: "stage_ok L (recordEmergingAges k base usdg p t l now' L)"
proof -
  let ?L = "recordEmergingAges k base usdg p t l now' L"
  have row: "row_of ?L j = (if j = k then map_option (\<lambda>r. r\<lparr>lr_baseToken := coalesce (lr_baseToken r) base,
      lr_quoteIsUsdg := (lr_quoteIsUsdg r \<or> usdg), lr_poolCreatedAt := coalesce (lr_poolCreatedAt r) p,
      lr_tokenCreatedAt := coalesce (lr_tokenCreatedAt r) t, lr_launchAt := coalesce (lr_launchAt r) l,
      lr_updatedAt := now'\<rparr>) (row_of L j) else row_of L j)" for j
    unfolding recordEmergingAges_def by (rule row_of_update) simp
  have ev: "last_event ?L = last_event L" "ld_events ?L = ld_events L"
    by (simp_all add: recordEmergingAges_def update_row_def last_event_def fun_eq_iff)
  have rest: "ledger_keys ?L = ledger_keys L" "ld_seq ?L = ld_seq L" "ld_v4Cursor ?L = ld_v4Cursor L" "ld_v23Cursor ?L = ld_v23Cursor L"
    by (simp_all add: recordEmergingAges_def keys_update) (simp_all add: update_row_def)
  have cc: "coalesce a (coalesce a b) = coalesce a b" for a b :: "int option" by (cases a) simp_all
  have "pools_kept L ?L" by (auto simp: pools_kept_def row ev row_kept_def cc)
  moreover have "history_agrees L \<Longrightarrow> history_agrees ?L" by (auto simp: history_agrees_def row ev)
  moreover have "ranks_upto m L \<Longrightarrow> ranks_upto m ?L" for m
    by (auto simp: ranks_upto_def row split: if_splits)
  ultimately show ?thesis using rest by (auto simp: stage_ok_def ledger_wf_def)
qed

lemma blockTs_same [simp]:
  "row_of (L\<lparr>ld_blockTs := b\<rparr>) k = row_of L k" "ledger_keys (L\<lparr>ld_blockTs := b\<rparr>) = ledger_keys L"
  "stage_ok L (L\<lparr>ld_blockTs := b\<rparr>)"
  by (simp_all add: row_of_def ledger_keys_def stage_ok_def pools_kept_def ledger_wf_def history_agrees_def
      last_event_def ranks_upto_def)

lemma ages_keys [simp]: "ledger_keys (recordEmergingAges k base usdg p t l now' L) = ledger_keys L"
  by (simp add: recordEmergingAges_def keys_update)

lemma fetch_ok:
  "stage_ok (snd s) (snd (snd (fetchTs g b s)))" "ledger_keys (snd (snd (fetchTs g b s))) = ledger_keys (snd s)"
  by (auto simp: fetchTs_def split: prod.splits option.splits)

lemma fetch_opt_ok:
  "stage_ok (snd s) (snd (snd (fetch_opt g b s)))" "ledger_keys (snd (snd (fetch_opt g b s))) = ledger_keys (snd s)"
  by (auto simp: fetch_opt_def fetch_ok split: option.splits)

definition stage_keys :: "int \<times> ledger \<Rightarrow> int \<times> ledger \<Rightarrow> bool" where
  "stage_keys s s' \<longleftrightarrow> stage_ok (snd s) (snd s') \<and> ledger_keys (snd s') = ledger_keys (snd s)"

lemma stage_keys_refl [simp]: "stage_keys s s"
  by (simp add: stage_keys_def)

lemma stage_keys_trans: "stage_keys a b \<Longrightarrow> stage_keys b c \<Longrightarrow> stage_keys a c"
  unfolding stage_keys_def using stage_ok_trans by force

lemma fetch_keys: "fetchTs g b s = (p, s') \<Longrightarrow> stage_keys s s'"
  using fetch_ok(1) [of s g b] fetch_ok(2) [of g b s] by (simp add: stage_keys_def)

lemma fetch_opt_keys: "fetch_opt g b s = (p, s') \<Longrightarrow> stage_keys s s'"
  using fetch_opt_ok(1) [of s g b] fetch_opt_ok(2) [of g b s] by (simp add: stage_keys_def)

lemma ages_write_keys: "stage_keys s s' \<Longrightarrow> stage_keys s (b, recordEmergingAges k base usdg p t l now' (snd s'))"
  by (rule stage_keys_trans, assumption) (simp add: stage_keys_def ages_ok)

lemma age_v4_keys: "stage_keys s (age_v4_row sv t row s)"
proof -
  obtain p s1 where 1: "fetch_opt (sv_getBlock sv) (so_createdBlock row) s = (p, s1)" using prod.exhaust by blast
  obtain l s2 where 2: "(case base_token (sv_launchpad sv) row of None \<Rightarrow> (None, s1)
      | Some t \<Rightarrow> fetch_opt (sv_getBlock sv) (sv_launchBlock sv t) s1) = (l, s2)" using prod.exhaust by blast
  have "stage_keys s1 s2" using 2 fetch_opt_keys by (auto split: option.splits)
  then have "stage_keys s s2" using fetch_opt_keys [OF 1] stage_keys_trans by blast
  then show ?thesis
    by (auto simp: age_v4_row_def 1 2 Let_def ages_write_keys split: option.splits)
qed

lemma age_v23_keys: "stage_keys s (age_v23_row sv t row s)"
proof (cases "so_poolKey row = None \<or> so_createdBlock row = None")
  case False
  then obtain k b where kb: "so_poolKey row = Some k" "so_createdBlock row = Some b" by auto
  obtain p s1 where 1: "fetchTs (sv_getBlock sv) b s = (p, s1)" using prod.exhaust by blast
  show ?thesis using fetch_keys [OF 1] by (simp add: age_v23_row_def kb 1 ages_write_keys)
qed (auto simp: age_v23_row_def split: option.splits)

lemma ages_fold: "(\<And>s row. stage_keys s (f s row)) \<Longrightarrow> stage_keys s (foldl f s rows)"
  by (rule foldl_rel [where R = stage_keys]) (auto intro: stage_keys_trans)

definition discover_step :: "int \<Rightarrow> nat \<times> ledger \<Rightarrow> source_row \<Rightarrow> nat \<times> ledger" where
  "discover_step t s row = (case so_poolKey row of None \<Rightarrow> s
     | Some k \<Rightarrow> (let r = upsertEmergingDiscovery k t (snd s) in (if fst r then fst s + 1 else fst s, snd r)))"

lemma discover_all_fold: "discover_all t rows s = foldl (discover_step t) s rows"
proof -
  have "(\<lambda>(n, L) row. case so_poolKey row of None \<Rightarrow> (n, L)
      | Some k \<Rightarrow> (case upsertEmergingDiscovery k t L of (ins, L) \<Rightarrow> (if ins then n + 1 else n, L))) = discover_step t"
    by (auto simp: fun_eq_iff discover_step_def Let_def split: option.splits prod.splits)
  then show ?thesis by (simp add: discover_all_def)
qed

lemma discover_step_ok: "stage_ok (snd s) (snd (discover_step t s row))"
  using upsert_ok by (auto simp: discover_step_def Let_def split: option.splits)

lemma discover_ok: "stage_ok (snd s) (snd (discover_all t rows s))"
  unfolding discover_all_fold
  by (rule foldl_rel [where R = "\<lambda>s s'. stage_ok (snd s) (snd s')"]) (auto intro: stage_ok_trans discover_step_ok)

lemma discover_step_keys:
  "set (ledger_keys (snd (discover_step t s row))) = set (ledger_keys (snd s)) \<union> set_option (so_poolKey row)"
  by (cases "so_poolKey row") (simp_all add: discover_step_def Let_def upsert_keys)

lemma discover_keys:
  "set (ledger_keys (snd (discover_all t rows s))) = set (ledger_keys (snd s)) \<union> (\<Union>row \<in> set rows. set_option (so_poolKey row))"
  unfolding discover_all_fold by (induction rows arbitrary: s) (auto simp: discover_step_keys)

lemma cursor_same [simp]:
  "stage_ok L (L'\<lparr>ld_generation := g\<rparr>) = stage_ok L L'" "ledger_keys (L\<lparr>ld_generation := g\<rparr>) = ledger_keys L"
  "pools_kept L (L'\<lparr>ld_generation := g\<rparr>) = pools_kept L L'" "ledger_wf (L\<lparr>ld_generation := g\<rparr>) = ledger_wf L"
  "pools_kept L (L'\<lparr>ld_v4Cursor := a\<rparr>) = pools_kept L L'" "ledger_wf (L\<lparr>ld_v4Cursor := a\<rparr>) = ledger_wf L"
  "pools_kept L (L'\<lparr>ld_v23Cursor := a\<rparr>) = pools_kept L L'" "ledger_wf (L\<lparr>ld_v23Cursor := a\<rparr>) = ledger_wf L"
  "ledger_keys (L\<lparr>ld_v4Cursor := a\<rparr>) = ledger_keys L" "ledger_keys (L\<lparr>ld_v23Cursor := a\<rparr>) = ledger_keys L"
  by (simp_all add: row_of_def ledger_keys_def stage_ok_def pools_kept_def ledger_wf_def history_agrees_def
      last_event_def ranks_upto_def)

text \<open>A sweep is discovery, ages, admission, and the new cursors and generation.\<close>

lemma sweep_stages:
  fixes c sv v4 v23 traded allowed t L
  assumes "ledger_wf L"
  defines "L' \<equiv> runEmergingDiscoverySweep c sv v4 v23 traded allowed t L"
  shows "ledger_wf L' \<and> pools_kept L L' \<and> set (ledger_keys L') = set (ledger_keys L) \<union>
    (\<Union>row \<in> set (rows_after (read_from (ld_v4Cursor L) (t - sc_overlapSec c)) v4 @
                  rows_after (read_from (ld_v23Cursor L) (t - sc_overlapSec c)) v23). set_option (so_poolKey row))"
proof -
  define r4 where "r4 = rows_after (read_from (ld_v4Cursor L) (t - sc_overlapSec c)) v4"
  define r23 where "r23 = rows_after (read_from (ld_v23Cursor L) (t - sc_overlapSec c)) v23"
  define D where "D = discover_all t (r4 @ r23) (0, L)"
  define A4 where "A4 = foldl (\<lambda>s row. age_v4_row sv t row s) (sc_fetches c, snd D) r4"
  define A where "A = foldl (\<lambda>s row. age_v23_row sv t row s) A4 r23"
  define M where "M = admission_pass c allowed t traded (snd A)"
  have D: "stage_ok L (snd D)" unfolding D_def using discover_ok [of "(0, L)"] by simp
  have A4: "stage_keys (sc_fetches c, snd D) A4" unfolding A4_def by (rule ages_fold) (rule age_v4_keys)
  have A: "stage_keys A4 A" unfolding A_def by (rule ages_fold) (rule age_v23_keys)
  have LA: "stage_ok L (snd A)" using stage_ok_trans [OF D stage_ok_trans [of "snd D" "snd A4"]] A4 A by (simp add: stage_keys_def)
  then have M: "ledger_wf (snd M) \<and> pools_kept (snd A) (snd M) \<and> ledger_keys (snd M) = ledger_keys (snd A)"
    unfolding M_def using admission_pass_ok assms(1) by (simp add: stage_ok_def)
  have kept: "pools_kept L (snd M)" using LA M pools_kept_trans by (auto simp: stage_ok_def)
  have keys: "set (ledger_keys (snd M)) = set (ledger_keys L) \<union> (\<Union>row \<in> set (r4 @ r23). set_option (so_poolKey row))"
    using M A A4 discover_keys [of t "r4 @ r23" "(0, L)"] by (simp add: D_def stage_keys_def)
  have L': "L' = (let La = (if r4 = [] then snd M else (snd M)\<lparr>ld_v4Cursor := max (ld_v4Cursor (snd M)) (max_added r4)\<rparr>);
      Lb = (if r23 = [] then La else La\<lparr>ld_v23Cursor := max (ld_v23Cursor La) (max_added r23)\<rparr>)
    in if fst D = 0 \<and> fst M = 0 then Lb else Lb\<lparr>ld_generation := ld_generation Lb + 1\<rparr>)"
    by (simp add: L'_def runEmergingDiscoverySweep_def Let_def split_beta D_def A4_def A_def M_def r4_def r23_def)
  show ?thesis using M kept keys by (auto simp: L' Let_def r4_def r23_def)
qed

text \<open>
  C16. A sweep keeps the discovery ledger consistent.  From a ledger with one row per key, no rank
  above the sequence, no rank held twice or by an aged-out pool, and a history whose last
  event of each pool is that pool's state and reason, every sweep (discovery, age evidence,
  demotion, ageing out, admission, deferral, whatever the chain and the catalogue answer) leads to
  such a ledger.  No pool is ever dropped, the first sighting, the pin and a known birth of a pool
  never change, and the event log only grows.
\<close>
theorem emerging_sweep_ledger:
  assumes "ledger_wf L"
  shows "ledger_wf (runEmergingDiscoverySweep c sv v4 v23 traded allowed t L) \<and>
    pools_kept L (runEmergingDiscoverySweep c sv v4 v23 traded allowed t L)"
  using sweep_stages [OF assms] by simp

text \<open>
  What a sweep discovers: after it the ledger holds the pools it held and those named by a
  catalogue row newer than both the source's cursor and the overlap window, and no other.  (So
  a row older than the window that no earlier sweep read is never discovered by a later one.)
\<close>
theorem emerging_sweep_discovers:
  assumes "ledger_wf L"
  shows "k \<in> set (ledger_keys (runEmergingDiscoverySweep c sv v4 v23 traded allowed t L)) \<longleftrightarrow>
    k \<in> set (ledger_keys L) \<or>
    (\<exists>row \<in> set v4. so_poolKey row = Some k \<and> max (ld_v4Cursor L) (t - sc_overlapSec c) < so_addedTs row) \<or>
    (\<exists>row \<in> set v23. so_poolKey row = Some k \<and> max (ld_v23Cursor L) (t - sc_overlapSec c) < so_addedTs row)"
  using sweep_stages [OF assms, of c sv v4 v23 traded allowed t]
  by (auto simp: rows_after_def read_from_def split: if_splits)

text \<open>
  The admission pass holds the cap: the pools left with a rank and without a running pin are
  at most the slots the cap leaves beside the pins (none while admission is disallowed), and a
  pool whose pin runs keeps its row untouched, unless its age is proved to be past the window.
\<close>
theorem admission_pass_capped:
  assumes "ledger_wf L"
  shows "int (card {k. \<exists>r. row_of (snd (admission_pass c allowed t traded L)) k = Some r \<and>
             lr_admittedRank r \<noteq> None \<and> \<not> pinned_row t r})
      \<le> max 0 ((if allowed then sc_maxPools c else 0)
               - int (length (filter (pinned_row t) (young_rows t (sc_maxAgeDays c) (listEmergingActive L))))) \<and>
    (\<forall>k r. row_of L k = Some r \<longrightarrow> pinned_row t r \<longrightarrow> ageTransition r t (sc_maxAgeDays c) \<noteq> Aged \<longrightarrow>
       row_of (snd (admission_pass c allowed t traded L)) k = Some r)"
proof (intro conjI allI impI)
  let ?L = "snd (admission_pass c allowed t traded L)"
  let ?rows = "listEmergingActive L" and ?cap = "if allowed then sc_maxPools c else 0" and ?d = "sc_maxAgeDays c"
  let ?K = "kept_rows ?rows t ?d ?cap @ admitted_rows ?rows t ?d ?cap"
  have "{k. \<exists>r. row_of ?L k = Some r \<and> lr_admittedRank r \<noteq> None \<and> \<not> pinned_row t r} \<subseteq> lr_poolKey ` set ?K"
  proof clarify
    fix k r' n assume r': "row_of ?L k = Some r'" "lr_admittedRank r' = Some n" "\<not> pinned_row t r'"
    then have "\<not> unranked ?L k" by (simp add: unranked_def)
    from admission_slots [OF assms this] obtain r where r: "row_of L k = Some r" "pinned_row t r \<or> r \<in> set ?K" by auto
    have "lr_pinnedUntil r' = lr_pinnedUntil r"
      using admission_pass_ok [OF assms, of c allowed t traded] r(1) r'(1) by (fastforce simp: pools_kept_def row_kept_def)
    then have "\<not> pinned_row t r" using r'(3) by (simp add: pinned_row_def)
    then show "k \<in> lr_poolKey ` set ?K" using r row_of_in [OF r(1)] by blast
  qed
  then have "card {k. \<exists>r. row_of ?L k = Some r \<and> lr_admittedRank r \<noteq> None \<and> \<not> pinned_row t r} \<le> card (lr_poolKey ` set ?K)"
    by (rule card_mono [rotated]) simp
  also have "\<dots> \<le> length ?K" by (metis card_length length_map list.set_map)
  also have "\<dots> \<le> free_slots ?rows t ?d ?cap" using plan_slots by simp
  finally show "int (card {k. \<exists>r. row_of ?L k = Some r \<and> lr_admittedRank r \<noteq> None \<and> \<not> pinned_row t r})
      \<le> max 0 (?cap - int (length (filter (pinned_row t) (young_rows t ?d ?rows))))"
    by (simp add: free_slots_def)
next
  fix k r assume "row_of L k = Some r" "pinned_row t r" "ageTransition r t (sc_maxAgeDays c) \<noteq> Aged"
  then show "row_of (snd (admission_pass c allowed t traded L)) k = Some r" by (rule admission_pinned [OF assms])
qed

section \<open>Witnesses and observations\<close>

definition sample_sweep_config :: sweep_config where
  "sample_sweep_config = \<lparr>sc_overlapSec = 600, sc_fetches = 5, sc_quietSeconds = 100, sc_maxAgeDays = 7, sc_maxPools = 1\<rparr>"

definition birth :: "string \<Rightarrow> int \<Rightarrow> ledger_event" where
  "birth k t = \<lparr>le_poolKey = k, le_at = t, le_from = None, le_to = Discovered, le_reason = None\<rparr>"

definition quiet_ledger :: ledger where
  "quiet_ledger = \<lparr>
     ld_rows = [(fresh_row ''a'' 0)\<lparr>lr_state := Tracking, lr_admittedRank := Some 1\<rparr>, fresh_row ''b'' 10],
     ld_events = [birth ''a'' 0, birth ''b'' 10,
       \<lparr>le_poolKey = ''a'', le_at = 20, le_from = Some Discovered, le_to = Tracking, le_reason = None\<rparr>],
     ld_v4Cursor = 100, ld_v23Cursor = 0, ld_seq = 1, ld_generation = 0, ld_blockTs = []\<rparr>"

definition silent_sources :: source_view where
  "silent_sources = \<lparr>sv_getBlock = (\<lambda>_. None), sv_launchpad = (\<lambda>_. False), sv_launchBlock = (\<lambda>_. None), sv_usdg = ''0x''\<rparr>"

definition v4_row :: "string \<Rightarrow> int \<Rightarrow> source_row" where
  "v4_row k t = \<lparr>so_poolKey = Some k, so_token0 = None, so_token1 = None, so_createdBlock = None, so_addedTs = t\<rparr>"

lemma quiet_ledger_wf: "ledger_wf quiet_ledger"
  by (auto simp: ledger_wf_def quiet_ledger_def ledger_keys_def history_agrees_def ranks_upto_def row_of_def
      last_event_def fresh_row_def birth_def split: if_splits)

theorem emerging_sweep_ledger_witness:
  "ledger_wf (runEmergingDiscoverySweep sample_sweep_config silent_sources [v4_row ''c'' 950] [] [] True 1000 quiet_ledger)"
  using emerging_sweep_ledger [OF quiet_ledger_wf] by blast

theorem emerging_sweep_discovers_witness:
  "''c'' \<in> set (ledger_keys (runEmergingDiscoverySweep sample_sweep_config silent_sources
      [v4_row ''c'' 1950, v4_row ''d'' 500] [] [] True 2000 quiet_ledger)) \<and>
   ''d'' \<notin> set (ledger_keys (runEmergingDiscoverySweep sample_sweep_config silent_sources
      [v4_row ''c'' 1950, v4_row ''d'' 500] [] [] True 2000 quiet_ledger))"
  by (simp add: emerging_sweep_discovers [OF quiet_ledger_wf])
    (simp add: sample_sweep_config_def quiet_ledger_def v4_row_def ledger_keys_def fresh_row_def)

theorem admission_pass_capped_witness:
  "int (card {k. \<exists>r. row_of (snd (admission_pass sample_sweep_config False 1000 [''a''] quiet_ledger)) k = Some r \<and>
     lr_admittedRank r \<noteq> None \<and> \<not> pinned_row 1000 r}) \<le> 0"
  using admission_pass_capped [OF quiet_ledger_wf, of sample_sweep_config False 1000 "[''a'']"] by simp

text \<open>
  The plan counts a pool that is demoted in the same sweep as tracked, so its slot stays idle
  until the next sweep; and that sweep defers it again and overwrites the mark that was to keep
  it behind fresh discoveries.
\<close>
lemma quiet_demotion_idles_a_slot:
  "map (\<lambda>r. (lr_poolKey r, lr_reason r, lr_admittedRank r))
     (ld_rows (snd (admission_pass sample_sweep_config True 1000 [] quiet_ledger)))
   = [(''a'', Some QuietDemoted, None), (''b'', Some CapacityDeferred, None)] \<and>
   map (\<lambda>r. (lr_poolKey r, lr_reason r, lr_admittedRank r))
     (ld_rows (snd (admission_pass sample_sweep_config True 1001 []
        (snd (admission_pass sample_sweep_config True 1000 [] quiet_ledger)))))
   = [(''a'', Some CapacityDeferred, None), (''b'', None, Some 2)]"
  by code_simp

text \<open>A pool demoted and deferred in one sweep gets two events that both start from the state it was read in.\<close>
lemma transition_from_a_stale_state:
  "map (\<lambda>e. (le_from e, le_to e, le_reason e))
     (filter (\<lambda>e. le_poolKey e = ''a'') (ld_events (snd (admission_pass sample_sweep_config False 1000 [] quiet_ledger))))
   = [(None, Discovered, None), (Some Discovered, Tracking, None),
      (Some Tracking, Queued, Some QuietDemoted), (Some Tracking, Queued, Some CapacityDeferred)]"
  by code_simp

end
