(* ===== verification/EmergingScan.thy ===== *)
theory EmergingScan
  imports EmergingLedger
begin

text \<open>
  The event streams of emerging pools (\<open>indexer/emergingScan.ts\<close>) and the store below them
  (\<open>indexer/emergingStore.ts\<close>): the tracked set, the streams, the batch that lands a page of
  events with its cursor, the rewind after a reorganization and the budgeted page walk.  The node
  (block headers, logs) and the ABI decoder are parameters; one chain, so no chain id.
\<close>

section \<open>The event store\<close>

record chain_event =
  ce_txHash :: string
  ce_logIndex :: int
  ce_blockNumber :: int
  ce_blockHash :: string
  ce_txIndex :: int
  ce_blockTs :: "int option"
  ce_contract :: string
  ce_kind :: string
  ce_poolKey :: "string option"
  ce_token :: "string option"
  ce_payload :: string
  ce_canonical :: bool

datatype stream_status = Active | ReorgRepair | DataGapStatus

record scan_cursor =
  cu_blockNumber :: int
  cu_blockHash :: string
  cu_completeThrough :: "int option"
  cu_status :: stream_status
  cu_lastScanAt :: int

record scan_store =
  st_events :: "chain_event list"
  st_cursors :: "(string \<times> scan_cursor) list"
  st_seeds :: "(string \<times> int) list"

definition getEmergingCursor :: "string \<Rightarrow> scan_store \<Rightarrow> scan_cursor option" where
  "getEmergingCursor key st = map_of (st_cursors st) key"

fun assoc_put :: "string \<Rightarrow> 'a \<Rightarrow> (string \<times> 'a) list \<Rightarrow> (string \<times> 'a) list" where
  "assoc_put k v [] = [(k, v)]"
| "assoc_put k v ((j, w) # m) = (if j = k then (j, v) # m else (j, w) # assoc_put k v m)"

definition setEmergingStreamStatus :: "string \<Rightarrow> stream_status \<Rightarrow> int \<Rightarrow> scan_store \<Rightarrow> scan_store" where
  "setEmergingStreamStatus key status t st =
     (case getEmergingCursor key st of
        None \<Rightarrow> st
      | Some c \<Rightarrow> st\<lparr>st_cursors := assoc_put key (c\<lparr>cu_status := status, cu_lastScanAt := t\<rparr>) (st_cursors st)\<rparr>)"

text \<open>SQLite's two-argument \<open>MAX\<close> is NULL as soon as one argument is.\<close>

definition sql_max :: "int option \<Rightarrow> int option \<Rightarrow> int option" where
  "sql_max a b = (case (a, b) of (Some x, Some y) \<Rightarrow> Some (max x y) | _ \<Rightarrow> None)"

definition same_event :: "chain_event \<Rightarrow> chain_event \<Rightarrow> bool" where
  "same_event a b \<longleftrightarrow> ce_txHash a = ce_txHash b \<and> ce_logIndex a = ce_logIndex b"

text \<open>\<open>INSERT OR IGNORE\<close> on the primary key (transaction hash, log index).\<close>

definition insert_event :: "chain_event \<Rightarrow> chain_event list \<Rightarrow> chain_event list" where
  "insert_event e es =
     (let e = e\<lparr>ce_txHash := toLower (ce_txHash e), ce_blockHash := toLower (ce_blockHash e),
                ce_contract := toLower (ce_contract e), ce_token := map_option toLower (ce_token e), ce_canonical := True\<rparr>
      in if list_ex (same_event e) es then es else es @ [e])"

definition commitEmergingScanBatch ::
  "string \<Rightarrow> chain_event list \<Rightarrow> int \<Rightarrow> string \<Rightarrow> int option \<Rightarrow> int \<Rightarrow> scan_store \<Rightarrow> scan_store" where
  "commitEmergingScanBatch key events n hash ts t st =
     (let old = (case getEmergingCursor key st of None \<Rightarrow> None | Some c \<Rightarrow> cu_completeThrough c);
          through = (case getEmergingCursor key st of None \<Rightarrow> ts | Some _ \<Rightarrow> sql_max (coalesce old ts) ts)
      in st\<lparr>st_events := foldl (\<lambda>es e. insert_event e es) (st_events st) events,
            st_cursors := assoc_put key \<lparr>cu_blockNumber = n, cu_blockHash = toLower hash, cu_completeThrough = through,
                                         cu_status = Active, cu_lastScanAt = t\<rparr> (st_cursors st)\<rparr>)"

text \<open>The archive write takes every stream's events above the ancestor, the cursor reset one stream's.\<close>

definition rewindEmergingStream :: "string \<Rightarrow> int \<Rightarrow> string \<Rightarrow> int \<Rightarrow> scan_store \<Rightarrow> scan_store" where
  "rewindEmergingStream key ancestor hash t st =
     st\<lparr>st_events := map (\<lambda>e. if ce_canonical e \<and> ce_blockNumber e > ancestor then e\<lparr>ce_canonical := False\<rparr> else e) (st_events st),
        st_cursors := (case getEmergingCursor key st of
          None \<Rightarrow> st_cursors st
        | Some _ \<Rightarrow> assoc_put key \<lparr>cu_blockNumber = ancestor, cu_blockHash = hash, cu_completeThrough = None,
                                    cu_status = Active, cu_lastScanAt = t\<rparr> (st_cursors st))\<rparr>"

section \<open>Windows and ancestors\<close>

definition nextWindow :: "int \<Rightarrow> bool \<Rightarrow> int \<Rightarrow> int" where
  "nextWindow window succeeded cap =
     (if succeeded then min cap (max 1 (window * 2)) else max 1 (window div 2))"

fun findCommonAncestor :: "(int \<times> string) list \<Rightarrow> (int \<times> string) list \<Rightarrow> int option" where
  "findCommonAncestor [] stored = None"
| "findCommonAncestor ((b, h) # walk) stored =
     (case map_of stored b of
        Some s \<Rightarrow> if toLower s = toLower h then Some b else findCommonAncestor walk stored
      | None \<Rightarrow> findCommonAncestor walk stored)"

section \<open>The tracked set and its streams\<close>

record tracked_row =
  tr_poolKey :: string
  tr_venue :: string
  tr_canonicalId :: string
  tr_baseToken :: "string option"

record tracked_set =
  ts_clAddresses :: "string list"
  ts_clPoolKeyByAddress :: "(string \<times> string) list"
  ts_v4PoolIds :: "string list"
  ts_v4PoolKeyById :: "(string \<times> string) list"
  ts_tokens :: "string list"

definition buildTrackedSet :: "tracked_row list \<Rightarrow> tracked_set" where
  "buildTrackedSet rows =
     foldl (\<lambda>s r.
       let s = (if tr_venue r = ''univ4''
                then s\<lparr>ts_v4PoolIds := ts_v4PoolIds s @ [tr_canonicalId r],
                       ts_v4PoolKeyById := assoc_put (toLower (tr_canonicalId r)) (tr_poolKey r) (ts_v4PoolKeyById s)\<rparr>
                else s\<lparr>ts_clAddresses := ts_clAddresses s @ [tr_canonicalId r],
                       ts_clPoolKeyByAddress := assoc_put (toLower (tr_canonicalId r)) (tr_poolKey r) (ts_clPoolKeyByAddress s)\<rparr>)
       in case tr_baseToken r of
            None \<Rightarrow> s
          | Some b \<Rightarrow> if b \<in> set (ts_tokens s) then s else s\<lparr>ts_tokens := ts_tokens s @ [b]\<rparr>)
       \<lparr>ts_clAddresses = [], ts_clPoolKeyByAddress = [], ts_v4PoolIds = [], ts_v4PoolKeyById = [], ts_tokens = []\<rparr> rows"

datatype stream_kind = ClPools | V4Pools | TokensStream

record stream_spec =
  sp_key :: string
  sp_kind :: stream_kind
  sp_address :: "string list"

definition buildStreams :: "string option \<Rightarrow> tracked_set \<Rightarrow> stream_spec list" where
  "buildStreams poolManager s =
     (if ts_clAddresses s \<noteq> [] then [\<lparr>sp_key = ''cl-pools'', sp_kind = ClPools, sp_address = ts_clAddresses s\<rparr>] else []) @
     (case poolManager of
        Some pm \<Rightarrow> if ts_v4PoolIds s \<noteq> [] then [\<lparr>sp_key = ''v4-pools'', sp_kind = V4Pools, sp_address = [pm]\<rparr>] else []
      | None \<Rightarrow> []) @
     (if ts_tokens s \<noteq> [] then [\<lparr>sp_key = ''tokens'', sp_kind = TokensStream, sp_address = ts_tokens s\<rparr>] else [])"

section \<open>Logs\<close>

record raw_log =
  rl_address :: string
  rl_topics :: "string list"
  rl_data :: string
  rl_blockNumber :: int
  rl_blockHash :: string
  rl_blockTimestamp :: "int option"
  rl_txHash :: string
  rl_txIndex :: int
  rl_logIndex :: int

definition eventBlockTs :: "int option \<Rightarrow> int option" where
  "eventBlockTs ts = (case ts of None \<Rightarrow> None | Some n \<Rightarrow> if \<bar>n\<bar> \<le> MAX_SAFE \<and> n > 0 then Some n else None)"

text \<open>The decoder: the event's name and its payload as JSON, or a failure.\<close>

type_synonym decoder = "stream_kind \<Rightarrow> raw_log \<Rightarrow> (string \<times> string) option"

definition decodeLog ::
  "decoder \<Rightarrow> stream_kind \<Rightarrow> tracked_set \<Rightarrow> raw_log \<Rightarrow> (string \<times> string option \<times> string option \<times> string) option" where
  "decodeLog decode kind s raw =
     (if kind = V4Pools then
        (case rl_topics raw of
           _ # t1 # _ \<Rightarrow> (case map_of (ts_v4PoolKeyById s) (toLower t1) of
                            None \<Rightarrow> None | Some k \<Rightarrow> Some (''v4raw'', Some k, None, rl_data raw))
         | _ \<Rightarrow> None)
      else
        let poolKey = map_of (ts_clPoolKeyByAddress s) (toLower (rl_address raw));
            token = (if kind = TokensStream then Some (toLower (rl_address raw)) else None)
        in if poolKey = None \<and> token = None then None
           else (case decode kind raw of
                   None \<Rightarrow> None
                 | Some (name, payload) \<Rightarrow>
                     Some (if name = ''Swap'' then ''swap'' else if name = ''Mint'' then ''mint''
                           else if name = ''Burn'' then ''burn'' else ''transfer'', poolKey, token, payload)))"

definition event_of :: "decoder \<Rightarrow> stream_kind \<Rightarrow> tracked_set \<Rightarrow> raw_log \<Rightarrow> chain_event option" where
  "event_of decode kind s raw =
     map_option (\<lambda>(k, poolKey, token, payload).
       \<lparr>ce_txHash = rl_txHash raw, ce_logIndex = rl_logIndex raw, ce_blockNumber = rl_blockNumber raw,
        ce_blockHash = rl_blockHash raw, ce_txIndex = rl_txIndex raw, ce_blockTs = eventBlockTs (rl_blockTimestamp raw),
        ce_contract = rl_address raw, ce_kind = k, ce_poolKey = poolKey, ce_token = token, ce_payload = payload,
        ce_canonical = True\<rparr>) (decodeLog decode kind s raw)"

section \<open>One stream\<close>

record node =
  nd_block :: "int \<Rightarrow> (string \<times> int) option"
  nd_logs :: "stream_spec \<Rightarrow> int \<Rightarrow> int \<Rightarrow> raw_log list option"
  nd_decode :: decoder

record scan_tune =
  tu_trackMaxAgeDays :: rat
  tu_scanStartWindow :: int
  tu_scanMaxWindow :: int
  tu_requests :: nat
  tu_maxStreams :: nat

text \<open>The process: the store, the header cache (never evicted), the requests left, the block time.\<close>

record scanner =
  sn_store :: scan_store
  sn_cache :: "(int \<times> string \<times> int) list"
  sn_left :: nat
  sn_blockTimeSec :: rat

definition blockInfo :: "node \<Rightarrow> int \<Rightarrow> scanner \<Rightarrow> (string \<times> int) option \<times> scanner" where
  "blockInfo nd n s =
     (case map_of (sn_cache s) n of
        Some i \<Rightarrow> (Some i, s)
      | None \<Rightarrow> (case nd_block nd n of
          None \<Rightarrow> (None, s)
        | Some (h, ts) \<Rightarrow> (Some (toLower h, ts), s\<lparr>sn_cache := (n, toLower h, ts) # sn_cache s\<rparr>)))"

definition req_block :: "node \<Rightarrow> int \<Rightarrow> scanner \<Rightarrow> (string \<times> int) option \<times> scanner" where
  "req_block nd n s = (if sn_left s = 0 then (None, s) else blockInfo nd n (s\<lparr>sn_left := sn_left s - 1\<rparr>))"

definition seedStream :: "node \<Rightarrow> scan_tune \<Rightarrow> int \<Rightarrow> stream_spec \<Rightarrow> int \<Rightarrow> scanner \<Rightarrow> bool \<times> scanner" where
  "seedStream nd tune t spec head s =
     (if sn_left s = 0 then (False, s)
      else
        let seedBlocks = math_ceil (ndiv (nmul (nadd (tu_trackMaxAgeDays tune) 1) 86400) (sn_blockTimeSec s));
            seedAt = max 1 (head - seedBlocks);
            (info, s) = blockInfo nd (seedAt - 1) (s\<lparr>sn_left := sn_left s - 1\<rparr>)
        in case info of
             None \<Rightarrow> (False, s)
           | Some (h, ts) \<Rightarrow>
               let st = commitEmergingScanBatch (sp_key spec) [] (seedAt - 1) h (Some ts) t (sn_store s)
               in (True, s\<lparr>sn_store := st\<lparr>st_seeds := assoc_put (sp_key spec) ts (st_seeds st)\<rparr>\<rparr>))"

text \<open>The walk back: at most 32 headers, stopping at block 1, a failed read or an empty budget.\<close>

fun walk_back :: "node \<Rightarrow> nat \<Rightarrow> int \<Rightarrow> scanner \<Rightarrow> (int \<times> string) list \<times> scanner" where
  "walk_back nd 0 b s = ([], s)"
| "walk_back nd (Suc k) b s =
     (if b < 1 then ([], s)
      else (case req_block nd b s of
              (None, s) \<Rightarrow> ([], s)
            | (Some (h, ts), s) \<Rightarrow>
                if sn_left s = 0 then ([(b, h)], s)
                else (case walk_back nd k (b - 1) s of (walk, s) \<Rightarrow> ((b, h) # walk, s))))"

definition stored_hashes :: "(int \<times> string) list \<Rightarrow> chain_event list \<Rightarrow> (int \<times> string) list" where
  "stored_hashes walk es =
     List.map_filter (\<lambda>(b, h). map_option (\<lambda>e. (b, ce_blockHash e)) (find (\<lambda>e. ce_blockNumber e = b) es)) walk"

lemma blockInfo_fields:
  "blockInfo nd n s = (i, s') \<Longrightarrow> sn_left s' = sn_left s \<and> sn_store s' = sn_store s"
  by (auto simp: blockInfo_def split: option.splits prod.splits)

lemma req_block_left: "req_block nd n s = (i, s') \<Longrightarrow> sn_left s' \<le> sn_left s"
  by (auto simp: req_block_def split: if_splits dest: blockInfo_fields)

definition page_proof :: "node \<Rightarrow> int \<Rightarrow> raw_log list \<Rightarrow> scanner \<Rightarrow> (string \<times> int) option \<times> scanner" where
  "page_proof nd hi logs s =
     (case find (\<lambda>l. rl_blockNumber l = hi) logs of
        Some l \<Rightarrow>
          if rl_blockTimestamp l \<noteq> None \<and> rl_blockTimestamp l \<noteq> Some 0
          then (Some (toLower (rl_blockHash l), the (rl_blockTimestamp l)), s)
          else (case req_block nd hi s of
             (None, s) \<Rightarrow> (None, s) | (Some (h, ts), s) \<Rightarrow> (Some (toLower (rl_blockHash l), ts), s))
      | None \<Rightarrow> req_block nd hi s)"

lemma page_proof_left: "page_proof nd hi logs s = (i, s') \<Longrightarrow> sn_left s' \<le> sn_left s"
  by (auto simp: page_proof_def split: option.splits if_splits prod.splits dest: req_block_left)

function scan_pages :: "node \<Rightarrow> scan_tune \<Rightarrow> int \<Rightarrow> stream_spec \<Rightarrow> tracked_set \<Rightarrow> int \<Rightarrow> int \<Rightarrow> int \<Rightarrow> scanner \<Rightarrow> scanner" where
  "scan_pages nd tune t spec trk head lo window s =
     (if head < lo \<or> sn_left s = 0 then s
      else
        let hi = min (lo + window - 1) head; s = s\<lparr>sn_left := sn_left s - 1\<rparr> in
        case nd_logs nd spec lo hi of
          None \<Rightarrow>
            if window \<le> 1 then s\<lparr>sn_store := setEmergingStreamStatus (sp_key spec) DataGapStatus t (sn_store s)\<rparr>
            else scan_pages nd tune t spec trk head lo (nextWindow window False (tu_scanMaxWindow tune)) s
        | Some logs \<Rightarrow>
            let window = nextWindow window True (tu_scanMaxWindow tune);
                events = List.map_filter (event_of (nd_decode nd) (sp_kind spec) trk) logs;
                (proof_at_end, s) = page_proof nd hi logs s
            in case proof_at_end of
                 None \<Rightarrow> s
               | Some (h, ts) \<Rightarrow>
                   scan_pages nd tune t spec trk head (hi + 1) window
                     (s\<lparr>sn_store := commitEmergingScanBatch (sp_key spec) events hi h (Some ts) t (sn_store s)\<rparr>))"
  by pat_completeness auto
termination
  by (relation "measure (\<lambda>(nd, tune, t, spec, trk, head, lo, window, s). sn_left s)")
    (auto split: option.splits prod.splits if_splits dest!: sym [THEN page_proof_left])

declare scan_pages.simps [simp del]

definition scan_from :: "node \<Rightarrow> scan_tune \<Rightarrow> int \<Rightarrow> stream_spec \<Rightarrow> tracked_set \<Rightarrow> int \<Rightarrow> int \<Rightarrow> scanner \<Rightarrow> scanner" where
  "scan_from nd tune t spec trk head n s = scan_pages nd tune t spec trk head (n + 1) (tu_scanStartWindow tune) s"

definition repair_reorg :: "node \<Rightarrow> scan_tune \<Rightarrow> int \<Rightarrow> stream_spec \<Rightarrow> tracked_set \<Rightarrow> int \<Rightarrow> scan_cursor \<Rightarrow> scanner \<Rightarrow> scanner" where
  "repair_reorg nd tune t spec trk head c s =
     (let (walk, s) = walk_back nd 32 (cu_blockNumber c - 1) s in
      case findCommonAncestor walk (stored_hashes walk (st_events (sn_store s))) of
        None \<Rightarrow> s\<lparr>sn_store := setEmergingStreamStatus (sp_key spec) ReorgRepair t (sn_store s)\<rparr>
      | Some a \<Rightarrow> (case req_block nd a s of
          (None, s) \<Rightarrow> s
        | (Some (h, ts), s) \<Rightarrow>
            scan_from nd tune t spec trk head a (s\<lparr>sn_store := rewindEmergingStream (sp_key spec) a h t (sn_store s)\<rparr>)))"

definition scanStream :: "node \<Rightarrow> scan_tune \<Rightarrow> int \<Rightarrow> tracked_set \<Rightarrow> int \<Rightarrow> stream_spec \<Rightarrow> scanner \<Rightarrow> scanner" where
  "scanStream nd tune t trk head spec s =
     (let (seeded, s) = (case getEmergingCursor (sp_key spec) (sn_store s) of
                           Some _ \<Rightarrow> (True, s) | None \<Rightarrow> seedStream nd tune t spec head s)
      in if \<not> seeded then s
         else (case getEmergingCursor (sp_key spec) (sn_store s) of
           None \<Rightarrow> s
         | Some c \<Rightarrow> (case req_block nd (cu_blockNumber c) s of
             (None, s) \<Rightarrow> s
           | (Some (h, ts), s) \<Rightarrow>
               if toLower h \<noteq> toLower (cu_blockHash c) then repair_reorg nd tune t spec trk head c s
               else scan_from nd tune t spec trk head (cu_blockNumber c) s)))"

definition runEmergingScanSweep ::
  "node \<Rightarrow> scan_tune \<Rightarrow> int \<Rightarrow> string option \<Rightarrow> tracked_row list \<Rightarrow> int \<Rightarrow> rat \<Rightarrow> scanner \<Rightarrow> scanner" where
  "runEmergingScanSweep nd tune t poolManager rows head blockTime s =
     (let trk = buildTrackedSet rows in
      foldl (\<lambda>s spec. scanStream nd tune t trk head spec s)
        (s\<lparr>sn_left := tu_requests tune, sn_blockTimeSec := blockTime\<rparr>)
        (take (tu_maxStreams tune) (buildStreams poolManager trk)))"

section \<open>Lemmas: the store\<close>

lemma assoc_put_get: "map_of (assoc_put k v m) j = (if j = k then Some v else map_of m j)"
  by (induction m) auto

lemma insert_event_keeps: "\<exists>new. insert_event e es = es @ new"
  by (simp add: insert_event_def Let_def)

lemma insert_events_keep: "\<exists>new. foldl (\<lambda>es e. insert_event e es) es xs = es @ new"
proof (induction xs arbitrary: es)
  case (Cons x xs)
  obtain a b where "insert_event x es = es @ a" "foldl (\<lambda>es e. insert_event e es) (es @ a) xs = (es @ a) @ b"
    using insert_event_keeps Cons.IH by metis
  then show ?case by simp
qed simp

definition holds_log :: "raw_log \<Rightarrow> chain_event list \<Rightarrow> bool" where
  "holds_log l es \<longleftrightarrow> (\<exists>e \<in> set es. ce_txHash e = toLower (rl_txHash l) \<and> ce_logIndex e = rl_logIndex l)"

lemma event_of_key: "event_of d k trk l = Some e \<Longrightarrow> ce_txHash e = rl_txHash l \<and> ce_logIndex e = rl_logIndex l"
  by (auto simp: event_of_def split: prod.splits)

lemma insert_event_holds: "event_of d k trk l = Some e \<Longrightarrow> holds_log l (insert_event e es)"
  using event_of_key [of d k trk l e]
  by (auto simp: insert_event_def holds_log_def same_event_def list_ex_iff Let_def)

lemma holds_log_append: "holds_log l es \<Longrightarrow> holds_log l (es @ new)"
  by (auto simp: holds_log_def)

lemma insert_events_hold:
  assumes "e \<in> set xs" "event_of d k trk l = Some e"
  shows "holds_log l (foldl (\<lambda>es e. insert_event e es) es xs)"
  using assms(1)
proof (induction xs arbitrary: es)
  case (Cons x xs)
  show ?case
  proof (cases "x = e")
    case True
    obtain new where "foldl (\<lambda>es e. insert_event e es) (insert_event e es) xs = insert_event e es @ new"
      using insert_events_keep by blast
    then show ?thesis using True insert_event_holds [OF assms(2)] holds_log_append by simp
  qed (use Cons in simp)
qed simp

section \<open>The page walk leaves no gap\<close>

text \<open>One page: the proof of its last block, from a log there or from one header read.\<close>

lemma get_after_commit:
  "getEmergingCursor j (commitEmergingScanBatch key es n h ts t st) =
     (if j = key then Some \<lparr>cu_blockNumber = n, cu_blockHash = toLower h,
        cu_completeThrough = (case getEmergingCursor key st of None \<Rightarrow> ts
                              | Some c \<Rightarrow> sql_max (coalesce (cu_completeThrough c) ts) ts),
        cu_status = Active, cu_lastScanAt = t\<rparr> else getEmergingCursor j st)"
  by (auto simp: commitEmergingScanBatch_def getEmergingCursor_def assoc_put_get Let_def split: option.splits)

lemma get_after_status:
  "getEmergingCursor j (setEmergingStreamStatus key x t st) =
     (if j = key then map_option (\<lambda>c. c\<lparr>cu_status := x, cu_lastScanAt := t\<rparr>) (getEmergingCursor key st)
      else getEmergingCursor j st)"
  by (auto simp: setEmergingStreamStatus_def getEmergingCursor_def assoc_put_get split: option.splits)

lemma status_events [simp]: "st_events (setEmergingStreamStatus key x t st) = st_events st"
  by (simp add: setEmergingStreamStatus_def split: option.splits)

lemma commit_events:
  "st_events (commitEmergingScanBatch key es n h ts t st) = foldl (\<lambda>es e. insert_event e es) (st_events st) es"
  by (simp add: commitEmergingScanBatch_def Let_def)

lemma commit_holds_page:
  assumes "l \<in> set logs" "event_of d k trk l = Some e"
  shows "holds_log l (st_events (commitEmergingScanBatch key (List.map_filter (event_of d k trk) logs) n h ts t st))"
proof -
  have "e \<in> set (List.map_filter (event_of d k trk) logs)" using assms by (force simp: List.map_filter_def)
  then show ?thesis unfolding commit_events by (rule insert_events_hold [OF _ assms(2)])
qed

lemma commit_keeps_held:
  "holds_log l (st_events st) \<Longrightarrow> holds_log l (st_events (commitEmergingScanBatch key es n h ts t st))"
  unfolding commit_events using insert_events_keep [of "st_events st" es] holds_log_append by metis

lemma nextWindow_bounds:
  "1 \<le> cap \<Longrightarrow> 1 \<le> w \<Longrightarrow> 1 \<le> nextWindow w ok cap \<and> (w \<le> cap \<longrightarrow> nextWindow w ok cap \<le> cap)"
  by (auto simp: nextWindow_def)

definition node_serves :: "node \<Rightarrow> stream_spec \<Rightarrow> raw_log set \<Rightarrow> bool" where
  "node_serves nd spec chain \<longleftrightarrow>
     (\<forall>lo hi logs. nd_logs nd spec lo hi = Some logs \<longrightarrow>
        set logs = {l \<in> chain. lo \<le> rl_blockNumber l \<and> rl_blockNumber l \<le> hi})"

text \<open>Everything the set attributes between two heights is in the archive.\<close>

definition archived :: "decoder \<Rightarrow> stream_kind \<Rightarrow> tracked_set \<Rightarrow> raw_log set \<Rightarrow> int \<Rightarrow> int \<Rightarrow> chain_event list \<Rightarrow> bool" where
  "archived d k trk chain lo hi es \<longleftrightarrow>
     (\<forall>l \<in> chain. lo \<le> rl_blockNumber l \<and> rl_blockNumber l \<le> hi \<and> event_of d k trk l \<noteq> None \<longrightarrow> holds_log l es)"

lemma page_archived:
  assumes "node_serves nd spec chain" "nd_logs nd spec lo hi = Some logs"
  shows "archived d k trk chain lo hi (st_events (commitEmergingScanBatch key (List.map_filter (event_of d k trk) logs) n h ts t st))"
  using assms unfolding archived_def node_serves_def by (auto intro!: commit_holds_page)

text \<open>What a page walk from \<open>lo\<close> promises: the cursor stays between its start and the head, and it
  never passes a log the archive does not hold.\<close>

definition walk_post :: "node \<Rightarrow> stream_spec \<Rightarrow> tracked_set \<Rightarrow> raw_log set \<Rightarrow> int \<Rightarrow> int \<Rightarrow> scan_store \<Rightarrow> scan_store \<Rightarrow> bool" where
  "walk_post nd spec trk chain head lo st st' \<longleftrightarrow>
     (\<exists>c. getEmergingCursor (sp_key spec) st' = Some c \<and> lo - 1 \<le> cu_blockNumber c \<and> cu_blockNumber c \<le> max (lo - 1) head \<and>
          archived (nd_decode nd) (sp_kind spec) trk chain lo (cu_blockNumber c) (st_events st')) \<and>
     (\<forall>l. holds_log l (st_events st) \<longrightarrow> holds_log l (st_events st'))"

lemma walk_post_stay:
  assumes "getEmergingCursor (sp_key spec) st' = Some c" "cu_blockNumber c = lo - 1" "st_events st' = st_events st"
  shows "walk_post nd spec trk chain head lo st st'"
  using assms by (auto simp: walk_post_def archived_def)

lemma walk_post_page:
  assumes "node_serves nd spec chain" "nd_logs nd spec lo hi = Some logs" "lo \<le> hi" "hi \<le> head"
    and "walk_post nd spec trk chain head (hi + 1)
           (commitEmergingScanBatch (sp_key spec) (List.map_filter (event_of (nd_decode nd) (sp_kind spec) trk) logs) hi h ts t st) st'"
  shows "walk_post nd spec trk chain head lo st st'"
proof -
  let ?st1 = "commitEmergingScanBatch (sp_key spec) (List.map_filter (event_of (nd_decode nd) (sp_kind spec) trk) logs) hi h ts t st"
  obtain c where c: "getEmergingCursor (sp_key spec) st' = Some c" "hi \<le> cu_blockNumber c" "cu_blockNumber c \<le> head"
      "archived (nd_decode nd) (sp_kind spec) trk chain (hi + 1) (cu_blockNumber c) (st_events st')"
    and keep: "\<And>l. holds_log l (st_events ?st1) \<Longrightarrow> holds_log l (st_events st')"
    using assms(3-5) unfolding walk_post_def by auto
  have "archived (nd_decode nd) (sp_kind spec) trk chain lo hi (st_events st')"
    using page_archived [OF assms(1,2)] keep unfolding archived_def by blast
  then have "archived (nd_decode nd) (sp_kind spec) trk chain lo (cu_blockNumber c) (st_events st')"
    using c(4) unfolding archived_def by (metis not_less zless_imp_add1_zle)
  moreover have "holds_log l (st_events st')" if "holds_log l (st_events st)" for l
    using that keep commit_keeps_held by blast
  ultimately show ?thesis using c(1-3) assms(3,4) unfolding walk_post_def by auto
qed

lemma req_block_store: "req_block nd n s = (i, s') \<Longrightarrow> sn_store s' = sn_store s"
  by (auto simp: req_block_def split: if_splits dest: blockInfo_fields)

lemma page_proof_store: "page_proof nd hi logs s = (i, s') \<Longrightarrow> sn_store s' = sn_store s"
  by (auto simp: page_proof_def split: option.splits if_splits prod.splits dest: req_block_store)

text \<open>The walk's four ways on: it stops, it halves the window, or it lands a page.\<close>

lemma scan_pages_cases:
  fixes s :: scanner
  defines "s1 \<equiv> s\<lparr>sn_left := sn_left s - 1\<rparr>" and "hi \<equiv> \<lambda>lo window head. min (lo + window - 1) (head :: int)"
  assumes go: "lo \<le> head" "0 < sn_left s"
  shows
    "nd_logs nd spec lo (hi lo window head) = None \<Longrightarrow> window \<le> 1 \<Longrightarrow>
       scan_pages nd tune t spec trk head lo window s = s1\<lparr>sn_store := setEmergingStreamStatus (sp_key spec) DataGapStatus t (sn_store s)\<rparr>"
    "nd_logs nd spec lo (hi lo window head) = None \<Longrightarrow> \<not> window \<le> 1 \<Longrightarrow>
       scan_pages nd tune t spec trk head lo window s =
       scan_pages nd tune t spec trk head lo (nextWindow window False (tu_scanMaxWindow tune)) s1"
    "nd_logs nd spec lo (hi lo window head) = Some logs \<Longrightarrow> page_proof nd (hi lo window head) logs s1 = (None, s2) \<Longrightarrow>
       scan_pages nd tune t spec trk head lo window s = s2"
    "nd_logs nd spec lo (hi lo window head) = Some logs \<Longrightarrow> page_proof nd (hi lo window head) logs s1 = (Some (h, ts), s2) \<Longrightarrow>
       scan_pages nd tune t spec trk head lo window s =
       scan_pages nd tune t spec trk head (hi lo window head + 1) (nextWindow window True (tu_scanMaxWindow tune))
         (s2\<lparr>sn_store := commitEmergingScanBatch (sp_key spec) (List.map_filter (event_of (nd_decode nd) (sp_kind spec) trk) logs)
              (hi lo window head) h (Some ts) t (sn_store s2)\<rparr>)"
  using go unfolding s1_def hi_def by (simp_all add: Let_def scan_pages.simps [of nd tune t spec trk head lo window s])

lemma scan_pages_stop: "head < lo \<or> sn_left s = 0 \<Longrightarrow> scan_pages nd tune t spec trk head lo window s = s"
  by (subst scan_pages.simps) auto

lemma scan_pages_post:
  assumes serves: "node_serves nd spec chain" and cap: "1 \<le> tu_scanMaxWindow tune"
  shows "1 \<le> window \<Longrightarrow> getEmergingCursor (sp_key spec) (sn_store s) = Some c \<Longrightarrow> cu_blockNumber c = lo - 1 \<Longrightarrow>
    walk_post nd spec trk chain head lo (sn_store s)
      (sn_store (scan_pages nd tune t spec trk head lo window s))"
proof (induction "sn_left s" arbitrary: lo window s c rule: less_induct)
  case less
  let ?hi = "min (lo + window - 1) head" and ?s1 = "s\<lparr>sn_left := sn_left s - 1\<rparr>"
  show ?case
  proof (cases "head < lo \<or> sn_left s = 0")
    case True
    then show ?thesis using less.prems by (simp add: scan_pages_stop walk_post_stay)
  next
    case False
    then have go: "lo \<le> head" "0 < sn_left s" by auto
    note page = scan_pages_cases [OF go, where nd = nd and spec = spec and window = window and tune = tune and t = t and trk = trk]
    show ?thesis
    proof (cases "nd_logs nd spec lo ?hi")
      case None
      show ?thesis
      proof (cases "window \<le> 1")
        case True
        then show ?thesis unfolding page(1) [OF None True] using less.prems(2,3)
          by (auto simp: get_after_status intro: walk_post_stay)
      next
        case halved: False
        have "walk_post nd spec trk chain head lo (sn_store ?s1)
            (sn_store (scan_pages nd tune t spec trk head lo (nextWindow window False (tu_scanMaxWindow tune)) ?s1))"
          by (rule less.hyps) (use go less.prems nextWindow_bounds [OF cap] in auto)
        then show ?thesis unfolding page(2) [OF None halved] by simp
      qed
    next
      case (Some logs)
      obtain i s2 where pp: "page_proof nd ?hi logs ?s1 = (i, s2)" by fastforce
      note same = page_proof_store [OF pp] and left = page_proof_left [OF pp]
      show ?thesis
      proof (cases i)
        case None
        then show ?thesis using less.prems same pp by (simp add: page(3) [OF Some] walk_post_stay)
      next
        case (Some q)
        obtain h ts where q: "i = Some (h, ts)" using Some by (cases q) auto
        let ?s3 = "s2\<lparr>sn_store := commitEmergingScanBatch (sp_key spec)
            (List.map_filter (event_of (nd_decode nd) (sp_kind spec) trk) logs) ?hi h (Some ts) t (sn_store s2)\<rparr>"
        have "walk_post nd spec trk chain head (?hi + 1) (sn_store ?s3)
            (sn_store (scan_pages nd tune t spec trk head (?hi + 1) (nextWindow window True (tu_scanMaxWindow tune)) ?s3))"
          by (rule less.hyps) (use go left less.prems nextWindow_bounds [OF cap] in \<open>auto simp: get_after_commit\<close>)
        then show ?thesis
          using walk_post_page [OF serves \<open>nd_logs nd spec lo ?hi = Some logs\<close>] go less.prems(1) same pp q
          by (simp add: page(4) [OF \<open>nd_logs nd spec lo ?hi = Some logs\<close>])
      qed
    qed
  qed
qed

text \<open>A small chain: one transfer at block 3, a node that serves it, a stream whose cursor is at block 1.\<close>

definition sample_log :: raw_log where
  "sample_log = \<lparr>rl_address = ''0xT'', rl_topics = [], rl_data = [], rl_blockNumber = 3, rl_blockHash = ''h'',
                 rl_blockTimestamp = Some 9, rl_txHash = ''0xa'', rl_txIndex = 0, rl_logIndex = 0\<rparr>"

definition sample_node :: node where
  "sample_node = \<lparr>nd_block = \<lambda>n. Some (''h'', n),
     nd_logs = \<lambda>_ lo hi. Some (filter (\<lambda>l. lo \<le> rl_blockNumber l \<and> rl_blockNumber l \<le> hi) [sample_log]),
     nd_decode = \<lambda>_ _. Some (''Transfer'', [])\<rparr>"

definition sample_stream :: stream_spec where
  "sample_stream = \<lparr>sp_key = ''tokens'', sp_kind = TokensStream, sp_address = [''0xT'']\<rparr>"

definition sample_tune :: scan_tune where
  "sample_tune = \<lparr>tu_trackMaxAgeDays = 7, tu_scanStartWindow = 2, tu_scanMaxWindow = 8, tu_requests = 9, tu_maxStreams = 3\<rparr>"

definition sample_scanner :: scanner where
  "sample_scanner = \<lparr>sn_store = \<lparr>st_events = [], st_cursors = [(''tokens'',
     \<lparr>cu_blockNumber = 1, cu_blockHash = ''h'', cu_completeThrough = Some 1, cu_status = Active, cu_lastScanAt = 0\<rparr>)], st_seeds = []\<rparr>,
     sn_cache = [], sn_left = 9, sn_blockTimeSec = 2\<rparr>"

lemmas samples = sample_log_def sample_node_def sample_stream_def sample_tune_def sample_scanner_def getEmergingCursor_def

lemma sample_node_serves: "node_serves sample_node sample_stream {sample_log}"
  by (auto simp: node_serves_def sample_node_def)

text \<open>
  C15. A page walk never leaves a gap behind its cursor.  Wherever it stops, whether for a failed read, an
  exhausted budget, a rejected single block or the head, the cursor is between where it started and
  the finality head, every log of the stream's filter that the tracked set attributes and that lies
  between the start and the new cursor is in the archive, and nothing archived before is lost.
\<close>

theorem emerging_scan_no_gap:
  fixes head t :: int and trk :: tracked_set
  assumes "node_serves nd spec chain" "1 \<le> tu_scanMaxWindow tune" "1 \<le> tu_scanStartWindow tune"
    and "getEmergingCursor (sp_key spec) (sn_store s) = Some c"
  defines "st' \<equiv> sn_store (scan_from nd tune t spec trk head (cu_blockNumber c) s)"
  shows "\<exists>c'. getEmergingCursor (sp_key spec) st' = Some c' \<and>
      cu_blockNumber c \<le> cu_blockNumber c' \<and> cu_blockNumber c' \<le> max (cu_blockNumber c) head \<and>
      archived (nd_decode nd) (sp_kind spec) trk chain (cu_blockNumber c + 1) (cu_blockNumber c') (st_events st') \<and>
      (\<forall>l. holds_log l (st_events (sn_store s)) \<longrightarrow> holds_log l (st_events st'))"
  using scan_pages_post [OF assms(1-4), where lo = "cu_blockNumber c + 1" and t = t and trk = trk and head = head]
  unfolding st'_def scan_from_def walk_post_def by simp

theorem emerging_scan_no_gap_witness:
  "\<exists>c'. getEmergingCursor ''tokens'' (sn_store (scan_from sample_node sample_tune 50 sample_stream (buildTrackedSet []) 5 1 sample_scanner))
          = Some c' \<and> 1 \<le> cu_blockNumber c' \<and> cu_blockNumber c' \<le> 5"
  using emerging_scan_no_gap [of sample_node sample_stream "{sample_log}" sample_tune sample_scanner
      "\<lparr>cu_blockNumber = 1, cu_blockHash = ''h'', cu_completeThrough = Some 1, cu_status = Active, cu_lastScanAt = 0\<rparr>",
      where head = 5 and t = 50 and trk = "buildTrackedSet []", OF sample_node_serves]
  by (auto simp: samples)

section \<open>The page walk catches up\<close>

lemma req_block_answers:
  assumes "\<And>n. nd_block nd n \<noteq> None" "0 < sn_left s"
  shows "\<exists>h ts s'. req_block nd n s = (Some (h, ts), s') \<and> sn_left s' = sn_left s - 1"
  using assms(1) [of n] assms(2)
  by (auto simp: req_block_def blockInfo_def split: option.splits)

lemma page_proof_answers:
  assumes "\<And>n. nd_block nd n \<noteq> None" "0 < sn_left s"
  shows "\<exists>h ts s'. page_proof nd hi logs s = (Some (h, ts), s') \<and> sn_left s - 1 \<le> sn_left s'"
  using req_block_answers [OF assms, of hi] assms(2)
  by (auto simp: page_proof_def split: option.splits)

text \<open>A page costs at most two requests and covers at least one block.\<close>

lemma scan_pages_reaches_head:
  assumes live: "\<And>n. nd_block nd n \<noteq> None" "\<And>lo hi. nd_logs nd spec lo hi \<noteq> None" and cap: "1 \<le> tu_scanMaxWindow tune"
  shows "1 \<le> window \<Longrightarrow> lo \<le> head + 1 \<Longrightarrow> 2 * nat (head + 1 - lo) \<le> sn_left s \<Longrightarrow>
    getEmergingCursor (sp_key spec) (sn_store s) = Some c \<Longrightarrow> cu_blockNumber c = lo - 1 \<Longrightarrow>
    map_option cu_blockNumber (getEmergingCursor (sp_key spec)
      (sn_store (scan_pages nd tune t spec trk head lo window s))) = Some head"
proof (induction "nat (head + 1 - lo)" arbitrary: lo window s c rule: less_induct)
  case less
  let ?hi = "min (lo + window - 1) head" and ?s1 = "s\<lparr>sn_left := sn_left s - 1\<rparr>"
  show ?case
  proof (cases "head < lo")
    case True
    then show ?thesis using less.prems by (simp add: scan_pages_stop)
  next
    case False
    then have go: "lo \<le> head" "0 < sn_left s" and two: "2 \<le> sn_left s" using less.prems(3) by linarith+
    note page = scan_pages_cases [OF go, where nd = nd and spec = spec and window = window and tune = tune and t = t and trk = trk]
    obtain logs where logs: "nd_logs nd spec lo ?hi = Some logs" using live(2) by blast
    have "0 < sn_left ?s1" using two by simp
    then obtain h ts s2 where pp: "page_proof nd ?hi logs ?s1 = (Some (h, ts), s2)" and left: "sn_left s - 2 \<le> sn_left s2"
      using page_proof_answers [OF live(1), of ?s1 ?hi logs] by auto
    have window': "1 \<le> nextWindow window True (tu_scanMaxWindow tune)"
      using nextWindow_bounds [OF cap less.prems(1)] by blast
    have fuel: "2 * nat (head + 1 - (?hi + 1)) \<le> sn_left s2"
      using left less.prems(1,3) go(1) by linarith
    show ?thesis
      unfolding page(4) [OF logs pp]
      by (rule less.hyps [OF _ window']) (use go less.prems(1) fuel in \<open>auto simp: get_after_commit\<close>)
  qed
qed

text \<open>
  C36. A page walk catches up.  When the node answers every request and the budget left covers two
  requests per missing block, the walk ends with the cursor at the finality head, whatever
  page sizes the window took on the way.
\<close>

theorem emerging_scan_catches_up:
  assumes "\<And>n. nd_block nd n \<noteq> None" "\<And>lo hi. nd_logs nd spec lo hi \<noteq> None"
    and "1 \<le> tu_scanMaxWindow tune" "1 \<le> tu_scanStartWindow tune"
    and "getEmergingCursor (sp_key spec) (sn_store s) = Some c" "cu_blockNumber c \<le> head"
    and "2 * nat (head - cu_blockNumber c) \<le> sn_left s"
  shows "map_option cu_blockNumber (getEmergingCursor (sp_key spec)
      (sn_store (scan_from nd tune t spec trk head (cu_blockNumber c) s))) = Some head"
  unfolding scan_from_def
  by (rule scan_pages_reaches_head [OF assms(1-4)]) (use assms(5-7) in auto)

theorem emerging_scan_catches_up_witness:
  "map_option cu_blockNumber (getEmergingCursor ''tokens''
     (sn_store (scan_from sample_node sample_tune 50 sample_stream (buildTrackedSet []) 5 1 sample_scanner))) = Some 5"
  using emerging_scan_catches_up [of sample_node sample_stream sample_tune sample_scanner
      "\<lparr>cu_blockNumber = 1, cu_blockHash = ''h'', cu_completeThrough = Some 1, cu_status = Active, cu_lastScanAt = 0\<rparr>",
      where head = 5 and t = 50 and trk = "buildTrackedSet []"]
  by (simp add: samples)

section \<open>Reorganizations\<close>

text \<open>A proven ancestor is a height where the current chain and the archive agree.\<close>

lemma findCommonAncestor_sound:
  "findCommonAncestor walk stored = Some b \<Longrightarrow>
   \<exists>h s. (b, h) \<in> set walk \<and> map_of stored b = Some s \<and> toLower s = toLower h"
  by (induction walk stored rule: findCommonAncestor.induct) (auto split: option.splits if_splits)

lemma walk_back_descends:
  "walk_back nd k b s = (walk, s') \<Longrightarrow> (\<forall>(n, h) \<in> set walk. 1 \<le> n \<and> n \<le> b) \<and> length walk \<le> k"
proof (induction nd k b s arbitrary: walk s' rule: walk_back.induct)
  case (2 nd k b s)
  show ?case
  proof (cases "b < 1 \<or> fst (req_block nd b s) = None")
    case True
    then show ?thesis using 2(2) by (auto split: prod.splits if_splits)
  next
    case False
    then obtain h ts s1 where r: "\<not> b < 1" "req_block nd b s = (Some (h, ts), s1)" by (cases "req_block nd b s") auto
    show ?thesis
      using 2(2) 2(1) [OF r(1) r(2) [symmetric] refl refl] r
      by (fastforce split: if_splits prod.splits)
  qed
qed simp

lemma rewind_cuts_above:
  "e \<in> set (st_events (rewindEmergingStream key a h t st)) \<Longrightarrow> ce_canonical e \<Longrightarrow> ce_blockNumber e \<le> a"
  by (auto simp: rewindEmergingStream_def split: if_splits)

text \<open>A transaction that is mined again after the rewind is ignored by the insert, and stays orphaned.\<close>

lemma remined_event_stays_orphaned:
  assumes "list_ex (same_event (e\<lparr>ce_txHash := toLower (ce_txHash e), ce_blockHash := toLower (ce_blockHash e),
                ce_contract := toLower (ce_contract e), ce_token := map_option toLower (ce_token e), ce_canonical := True\<rparr>))
             (st_events (rewindEmergingStream key a h t st))"
  shows "st_events (commitEmergingScanBatch key [e] n hash ts t' (rewindEmergingStream key a h t st)) =
         st_events (rewindEmergingStream key a h t st)"
  using assms by (simp add: commit_events insert_event_def Let_def)

text \<open>Rewinding one stream orphans the other streams' events and leaves their cursors above them.\<close>

lemma rewind_orphans_other_streams:
  assumes "e \<in> set (st_events st)" "a < ce_blockNumber e" "other \<noteq> key"
  shows "e\<lparr>ce_canonical := False\<rparr> \<in> set (st_events (rewindEmergingStream key a h t st)) \<and>
         getEmergingCursor other (rewindEmergingStream key a h t st) = getEmergingCursor other st"
proof -
  have "e\<lparr>ce_canonical := False\<rparr> = e" if "\<not> ce_canonical e" using that by (cases e) simp
  then have "e\<lparr>ce_canonical := False\<rparr> =
      (if ce_canonical e \<and> ce_blockNumber e > a then e\<lparr>ce_canonical := False\<rparr> else e)" using assms(2) by simp
  moreover have "\<dots> \<in> set (st_events (rewindEmergingStream key a h t st))"
    using assms(1) by (simp add: rewindEmergingStream_def)
  ultimately show ?thesis
    using assms(3) by (simp add: rewindEmergingStream_def getEmergingCursor_def assoc_put_get split: option.splits)
qed

text \<open>A header once read is never read again, so the check against the cursor's hash sees the old chain.\<close>

lemma cached_header_hides_a_reorg:
  "map_of (sn_cache s) n = Some i \<Longrightarrow> 0 < sn_left s \<Longrightarrow> fst (req_block nd n s) = Some i"
  by (simp add: req_block_def blockInfo_def)

end
