(* ===== verification/JsonReader.thy ===== *)
theory JsonReader
  imports Planner
begin

text \<open>
  Reading untyped values, as the validators of \<open>shared/strategy\<close> do it: property access, optional
  chaining, truthiness, \<open>String\<close>, \<open>trim\<close>, relational comparison, object literals.  A value
  is a \<open>json option\<close>, \<open>None\<close> is \<open>undefined\<close>; a property that holds \<open>undefined\<close> is left out of
  its object, as it is when the object is stored as JSON.  Object values have distinct keys.

  \<open>js_env\<close> holds what is not in the repository: viem's address and hex functions, the text of a
  non-integer number and the number in a text.
\<close>

record js_env =
  je_isAddress :: "string \<Rightarrow> bool"
  je_getAddress :: "string \<Rightarrow> string"
  je_hexSize :: "string \<Rightarrow> nat option"
  je_ntext :: "rat \<Rightarrow> string"
  je_tonum :: "string \<Rightarrow> rat option"

definition getk :: "string \<Rightarrow> json option \<Rightarrow> json option" where
  "getk k v = (case v of Some (JObj fs) \<Rightarrow> map_of fs k | _ \<Rightarrow> None)"

definition js_truthy :: "json option \<Rightarrow> bool" where
  "js_truthy v = (case v of None \<Rightarrow> False | Some JNull \<Rightarrow> False | Some (JBool b) \<Rightarrow> b | Some (JNum r) \<Rightarrow> r \<noteq> 0
             | Some (JStr s) \<Rightarrow> s \<noteq> [] | Some _ \<Rightarrow> True)"

definition one_of :: "string list \<Rightarrow> json option \<Rightarrow> bool" where
  "one_of names v = (case v of Some (JStr s) \<Rightarrow> s \<in> set names | _ \<Rightarrow> False)"

definition is_bool :: "json option \<Rightarrow> bool" where
  "is_bool v = (case v of Some (JBool _) \<Rightarrow> True | _ \<Rightarrow> False)"

definition is_int_number :: "json option \<Rightarrow> bool" where
  "is_int_number v = (case v of Some (JNum r) \<Rightarrow> is_integer r | _ \<Rightarrow> False)"

definition white :: "char \<Rightarrow> bool" where
  "white c \<longleftrightarrow> (of_char c :: nat) \<in> {9, 10, 11, 12, 13, 32, 160}"

definition js_trim :: "string \<Rightarrow> string" where
  "js_trim s = rev (dropWhile white (rev (dropWhile white s)))"

fun js_string :: "js_env \<Rightarrow> json \<Rightarrow> string" where
  "js_string e JNull = ''null''"
| "js_string e (JBool b) = (if b then ''true'' else ''false'')"
| "js_string e (JNum r) = number_text (je_ntext e) r"
| "js_string e (JStr s) = s"
| "js_string e (JArr xs) = join_with '','' (map (\<lambda>x. if x = JNull then [] else js_string e x) xs)"
| "js_string e (JObj _) = ''[object Object]''"

text \<open>\<open>a >= b\<close> on defined values: two texts by code unit, anything else as numbers (\<open>NaN\<close> is None).\<close>

definition js_number :: "js_env \<Rightarrow> json \<Rightarrow> rat option" where
  "js_number e v = (case v of JNull \<Rightarrow> Some 0 | JBool b \<Rightarrow> Some (if b then 1 else 0) | JNum r \<Rightarrow> Some r
                    | other \<Rightarrow> je_tonum e (js_string e other))"

definition js_ge :: "js_env \<Rightarrow> json \<Rightarrow> json \<Rightarrow> bool" where
  "js_ge e a b =
     (let prim = (\<lambda>v. case v of JArr _ \<Rightarrow> JStr (js_string e v) | JObj _ \<Rightarrow> JStr (js_string e v) | _ \<Rightarrow> v) in
      case (prim a, prim b) of
        (JStr s, JStr t) \<Rightarrow> code_units t \<le> code_units s
      | (x, y) \<Rightarrow> (case (js_number e x, js_number e y) of (Some p, Some q) \<Rightarrow> q \<le> p | _ \<Rightarrow> False))"

section \<open>Object literals\<close>

definition obj :: "(string \<times> json option) list \<Rightarrow> json" where
  "obj fs = JObj (List.map_filter (\<lambda>(k, v). map_option (Pair k) v) fs)"

text \<open>A literal evaluates its properties in order; the first exception wins.\<close>

definition literal :: "(string \<times> json option res) list \<Rightarrow> json res" where
  "literal fs = bindR (mapR (\<lambda>(k, m). bindR m (\<lambda>v. Inr (k, v))) fs) (\<lambda>fs. Inr (obj fs))"

text \<open>A literal each of whose properties is read from the property of the same name.\<close>

type_synonym reader = "json option \<Rightarrow> json option res"

definition read_object :: "(string \<times> reader) list \<Rightarrow> json option \<Rightarrow> json res" where
  "read_object spec x = literal (map (\<lambda>(k, f). (k, f (getk k x))) spec)"

section \<open>Property readers\<close>

definition config_error :: "string \<Rightarrow> 'a res" where
  "config_error msg = Inl (StrategyError E_CONFIG msg)"

definition required :: "bool \<Rightarrow> js_error \<Rightarrow> unit res" where
  "required b err = (if b then Inr () else Inl err)"

definition address :: "js_env \<Rightarrow> string \<Rightarrow> reader" where
  "address e name v =
     (case v of Some (JStr s) \<Rightarrow> if je_isAddress e s then Inr (Some (JStr (je_getAddress e s)))
                                 else config_error (name @ '' is not an address'')
      | _ \<Rightarrow> config_error (name @ '' is not an address''))"

definition finite_in :: "js_env \<Rightarrow> string \<Rightarrow> rat \<Rightarrow> rat \<Rightarrow> reader" where
  "finite_in e name lo hi v =
     (let err = config_error (name @ '' must be between '' @ js_string e (JNum lo) @ '' and '' @ js_string e (JNum hi)) in
      case v of Some (JNum r) \<Rightarrow> if r < lo \<or> hi < r then err else Inr v
      | _ \<Rightarrow> err)"

definition nullish :: "json option \<Rightarrow> bool" where
  "nullish v \<longleftrightarrow> v = None \<or> v = Some JNull"

definition optional_finite :: "js_env \<Rightarrow> string \<Rightarrow> rat \<Rightarrow> rat \<Rightarrow> reader" where
  "optional_finite e name lo hi v = (if nullish v then Inr None else finite_in e name lo hi v)"

definition digits :: "string \<Rightarrow> bool" where
  "digits s \<longleftrightarrow> s \<noteq> [] \<and> list_all (\<lambda>c. 48 \<le> (of_char c :: nat) \<and> (of_char c :: nat) \<le> 57) s"

definition decimal_text :: "bool \<Rightarrow> string \<Rightarrow> bool" where
  "decimal_text integerOnly s \<longleftrightarrow>
     (digits s \<or> (\<not> integerOnly \<and>
        (let whole = takeWhile (\<lambda>c. c \<noteq> CHR ''.'') s; rest = dropWhile (\<lambda>c. c \<noteq> CHR ''.'') s
         in digits whole \<and> rest \<noteq> [] \<and> digits (tl rest)))) \<and>
     list_ex (\<lambda>c. 49 \<le> (of_char c :: nat) \<and> (of_char c :: nat) \<le> 57) s"

definition optional_decimal :: "string \<Rightarrow> bool \<Rightarrow> reader" where
  "optional_decimal name integerOnly v =
     (if nullish v then Inr None
      else case v of Some (JStr s) \<Rightarrow> if decimal_text integerOnly s then Inr v
                                      else config_error (name @ '' must be a positive decimal string'')
           | _ \<Rightarrow> config_error (name @ '' must be a positive decimal string''))"

text \<open>\<open>f(v) ?? d\<close>.\<close>

definition with_default :: "json \<Rightarrow> reader \<Rightarrow> reader" where
  "with_default d f v = bindR (f v) (\<lambda>w. Inr (Some (case w of None \<Rightarrow> d | Some x \<Rightarrow> x)))"

definition optional_text :: "js_env \<Rightarrow> reader" where
  "optional_text e v = Inr (map_option (\<lambda>j. JStr (js_string e j)) v)"

definition name_in :: "string list \<Rightarrow> js_error \<Rightarrow> reader" where
  "name_in names err v = (if one_of names v then Inr v else Inl err)"

definition as_is :: reader where "as_is v = Inr v"

definition check :: "(json option \<Rightarrow> bool) \<Rightarrow> js_error \<Rightarrow> reader" where
  "check p err v = (if p v then Inr v else Inl err)"

definition fixed_value :: "json \<Rightarrow> reader" where "fixed_value j v = Inr (Some j)"

section \<open>Reading what was read\<close>

text \<open>Both are declared for every reader: reading again changes nothing, and the result has a type.\<close>

named_theorems reads_again \<open>readers that accept their own results unchanged\<close>

definition again :: "reader \<Rightarrow> bool" where
  "again f \<longleftrightarrow> (\<forall>v w. f v = Inr w \<longrightarrow> f w = Inr w)"

lemma map_of_obj:
  "distinct (map fst fs) \<Longrightarrow> getk k (Some (obj fs)) = (case map_of fs k of None \<Rightarrow> None | Some v \<Rightarrow> v)"
proof (induction fs)
  case (Cons f fs)
  obtain j v where f: "f = (j, v)" by (cases f)
  have "map_of (List.map_filter (\<lambda>(k, v). map_option (Pair k) v) fs) j = None" if "j \<notin> fst ` set fs"
    using that by (auto simp: map_of_eq_None_iff List.map_filter_def split: option.splits prod.splits) force
  with Cons f show ?case
    by (cases v; cases "k = j")
      (auto simp: obj_def getk_def List.map_filter_simps map_of_eq_None_iff split: option.splits)
qed (simp add: obj_def getk_def List.map_filter_simps)

lemma mapR_fields:
  "mapR (\<lambda>(k, m). bindR m (\<lambda>v. Inr (k, v))) fs = Inr gs \<longleftrightarrow>
   map fst gs = map fst fs \<and> map snd fs = map (\<lambda>(k, v). Inr v) gs"
proof (induction fs arbitrary: gs)
  case (Cons f fs)
  then show ?case
    by (cases f; cases gs) (auto simp: bindR_eq_Inr)
qed auto

lemma literal_Inr:
  "literal fs = Inr c \<longleftrightarrow>
   (\<exists>gs. c = obj gs \<and> map fst gs = map fst fs \<and> map snd fs = map (\<lambda>(k, v). Inr v) gs)"
  unfolding literal_def bindR_eq_Inr by (auto simp: mapR_fields)

lemma read_object_fields:
  assumes "read_object spec x = Inr c" "distinct (map fst spec)" "(k, f) \<in> set spec"
  shows "f (getk k x) = Inr (getk k (Some c))"
proof -
  from assms(1) obtain gs where c: "c = obj gs" and ks: "map fst gs = map fst spec"
    and vs: "map (\<lambda>(k, f). f (getk k x)) spec = map (\<lambda>(k, v). Inr v) gs"
    unfolding read_object_def literal_Inr by (auto simp: comp_def case_prod_unfold)
  obtain i where i: "i < length spec" "spec ! i = (k, f)" using assms(3) by (meson in_set_conv_nth)
  have len: "length gs = length spec" using ks by (metis length_map)
  have "fst (gs ! i) = k" using arg_cong [OF ks, of "\<lambda>l. l ! i"] i len by simp
  then obtain v where v: "gs ! i = (k, v)" by (cases "gs ! i") auto
  have "f (getk k x) = Inr v" using arg_cong [OF vs, of "\<lambda>l. l ! i"] i len v by simp
  moreover have "distinct (map fst gs)" using ks assms(2) by simp
  then have "getk k (Some c) = v"
    using v i len unfolding c by (subst map_of_obj) (metis (no_types, lifting) map_of_is_SomeI nth_mem option.simps(5))+
  ultimately show ?thesis by simp
qed

lemma read_object_again:
  assumes "read_object spec x = Inr c" "distinct (map fst spec)" "map fst spec' = map fst spec"
    and "\<And>k f f' w. (k, f) \<in> set spec \<Longrightarrow> (k, f') \<in> set spec' \<Longrightarrow> f (getk k x) = Inr w \<Longrightarrow> f' w = Inr w"
  shows "read_object spec' (Some c) = Inr c"
proof -
  have len: "length spec' = length spec" using assms(3) by (metis length_map)
  from assms(1) obtain gs where c: "c = obj gs" and ks: "map fst gs = map fst spec"
    and vs: "map (\<lambda>(k, f). f (getk k x)) spec = map (\<lambda>(k, v). Inr v) gs"
    unfolding read_object_def literal_Inr by (auto simp: comp_def case_prod_unfold)
  have lg: "length gs = length spec" using ks by (metis length_map)
  have "map (\<lambda>(k, f). f (getk k (Some c))) spec' = map (\<lambda>(k, v). Inr v) gs"
  proof (rule nth_equalityI)
    show "length (map (\<lambda>(k, f). f (getk k (Some c))) spec') = length (map (\<lambda>(k, v). Inr v) gs)" using len lg by simp
    fix i assume "i < length (map (\<lambda>(k, f). f (getk k (Some c))) spec')"
    then have i: "i < length spec" using len by simp
    obtain k f where kf: "spec ! i = (k, f)" by (cases "spec ! i")
    obtain f' where kf': "spec' ! i = (k, f')"
      using arg_cong [OF assms(3), of "\<lambda>l. l ! i"] i len kf by (cases "spec' ! i") auto
    have mem: "(k, f) \<in> set spec" "(k, f') \<in> set spec'" using i len kf kf' by (metis nth_mem)+
    have "f (getk k x) = Inr (getk k (Some c))" by (rule read_object_fields [OF assms(1,2) mem(1)])
    moreover have "f (getk k x) = Inr (snd (gs ! i))"
      using arg_cong [OF vs, of "\<lambda>l. l ! i"] i lg kf by (auto simp: case_prod_unfold)
    ultimately have "f' (getk k (Some c)) = Inr (snd (gs ! i))" using assms(4) [OF mem] by auto
    then show "map (\<lambda>(k, f). f (getk k (Some c))) spec' ! i = map (\<lambda>(k, v). Inr v) gs ! i"
      using i len lg kf' by (auto simp: case_prod_unfold)
  qed
  then show ?thesis
    unfolding read_object_def literal_Inr c using ks assms(3)
    by (intro exI [of _ gs]) (simp add: comp_def case_prod_unfold)
qed

text \<open>Statements in order: the first that throws wins.\<close>

definition in_order :: "unit res list \<Rightarrow> unit res" where
  "in_order ms = foldr (\<lambda>m r. bindR m (\<lambda>_. r)) ms (Inr ())"

lemma in_order_Inr: "in_order ms = Inr u \<longleftrightarrow> list_all (\<lambda>m. m = Inr ()) ms"
  by (induction ms) (auto simp: in_order_def bindR_eq_Inr)

lemma required_Inr: "required b err = Inr u \<longleftrightarrow> b"
  by (simp add: required_def)

definition nested :: "(string \<times> reader) list \<Rightarrow> reader" where
  "nested spec v = bindR (read_object spec v) (\<lambda>c. Inr (Some c))"

text \<open>viem returns a checksummed address: it is an address, its own checksum form, and the same up to case.\<close>

definition checksums :: "js_env \<Rightarrow> bool" where
  "checksums e \<longleftrightarrow> (\<forall>s. je_isAddress e s \<longrightarrow> je_isAddress e (je_getAddress e s) \<and>
     je_getAddress e (je_getAddress e s) = je_getAddress e s \<and> toLower (je_getAddress e s) = toLower s)"

lemma againI: "(\<And>v w. f v = Inr w \<Longrightarrow> f w = Inr w) \<Longrightarrow> again f"
  by (simp add: again_def)

lemma againD: "again f \<Longrightarrow> f v = Inr w \<Longrightarrow> f w = Inr w"
  by (simp add: again_def)

lemma again_address [reads_again]: "checksums e \<Longrightarrow> again (address e name)"
  by (rule againI) (auto simp: address_def checksums_def config_error_def split: option.splits json.splits if_splits)

lemma again_finite [reads_again]: "again (finite_in e name lo hi)"
  by (rule againI) (auto simp: finite_in_def Let_def config_error_def split: option.splits json.splits if_splits)

lemma again_optional_finite [reads_again]: "again (optional_finite e name lo hi)"
  by (rule againI) (auto simp: optional_finite_def nullish_def finite_in_def Let_def config_error_def split: option.splits json.splits if_splits)

lemma again_optional_decimal [reads_again]: "again (optional_decimal name i)"
  by (rule againI) (auto simp: optional_decimal_def nullish_def config_error_def split: option.splits json.splits if_splits)

lemma again_with_default [reads_again]:
  "again f \<Longrightarrow> f (Some d) = Inr (Some d) \<Longrightarrow> again (with_default d f)"
  by (rule againI) (auto simp: with_default_def bindR_eq_Inr split: option.splits dest: againD)

lemma again_optional_text [reads_again]: "again (optional_text e)"
  by (rule againI) (auto simp: optional_text_def option.map_comp comp_def)

lemma again_name_in [reads_again]: "again (name_in names err)"
  by (rule againI) (auto simp: name_in_def split: if_splits)

lemma again_trivial [reads_again]: "again as_is" "again (fixed_value j)"
  by (simp_all add: again_def as_is_def fixed_value_def)

lemma nested_again:
  assumes "distinct (map fst spec)" "\<And>k f. (k, f) \<in> set spec \<Longrightarrow> again f"
  shows "again (nested spec)"
proof (rule againI)
  fix v w assume "nested spec v = Inr w"
  then obtain c where c: "read_object spec v = Inr c" "w = Some c" by (auto simp: nested_def bindR_eq_Inr)
  have "f' u = Inr u" if "(k, f) \<in> set spec" "(k, f') \<in> set spec" "f (getk k v) = Inr u" for k f f' u
    using that assms by (metis againD eq_key_imp_eq_value)
  then have "read_object spec (Some c) = Inr c" by (rule read_object_again [OF c(1) assms(1) refl])
  then show "nested spec w = Inr w" by (simp add: nested_def c)
qed

lemma dropWhile_idem: "dropWhile P (dropWhile P xs) = dropWhile P xs"
  by (induction xs) auto

lemma trim_idem: "js_trim (js_trim s) = js_trim s"
proof -
  define a where "a = dropWhile white s"
  define b where "b = rev (dropWhile white (rev a))"
  have "rev a = takeWhile white (rev a) @ dropWhile white (rev a)" by simp
  then have ab: "a = b @ rev (takeWhile white (rev a))" unfolding b_def by (metis rev_append rev_rev_ident)
  have "dropWhile white b = b"
  proof (cases b)
    case (Cons c cs)
    then have "a \<noteq> []" "hd a = c" using ab by (metis append_Cons list.distinct(1), metis append_Cons list.sel(1))
    then have "\<not> white c" using hd_dropWhile [of white s] unfolding a_def by simp
    then show ?thesis using Cons by simp
  qed simp
  then show ?thesis
    unfolding js_trim_def a_def [symmetric] b_def [symmetric] by (simp add: b_def dropWhile_idem)
qed

section \<open>Types of values\<close>

datatype jtype = TAny | TStr | TBool | TInt | TNum rat rat | TNumIn "rat list" | TConst json | TOneOf "string list"
  | TDecimal bool | TAddr | TOpt jtype | TNull jtype | TRec "(string \<times> jtype) list"

fun has_type :: "js_env \<Rightarrow> jtype \<Rightarrow> json option \<Rightarrow> bool" where
  "has_type e TAny v = (v \<noteq> None)"
| "has_type e TStr v = (case v of Some (JStr s) \<Rightarrow> True | _ \<Rightarrow> False)"
| "has_type e TBool v = is_bool v"
| "has_type e TInt v = is_int_number v"
| "has_type e (TNum lo hi) v = (case v of Some (JNum r) \<Rightarrow> lo \<le> r \<and> r \<le> hi | _ \<Rightarrow> False)"
| "has_type e (TNumIn rs) v = (case v of Some (JNum r) \<Rightarrow> r \<in> set rs | _ \<Rightarrow> False)"
| "has_type e (TConst j) v = (v = Some j)"
| "has_type e (TOneOf names) v = one_of names v"
| "has_type e (TDecimal i) v = (case v of Some (JStr s) \<Rightarrow> decimal_text i s | _ \<Rightarrow> False)"
| "has_type e TAddr v = (case v of Some (JStr s) \<Rightarrow> je_isAddress e s \<and> je_getAddress e s = s | _ \<Rightarrow> False)"
| "has_type e (TOpt t) v = (v = None \<or> has_type e t v)"
| "has_type e (TNull t) v = (v = Some JNull \<or> has_type e t v)"
| "has_type e (TRec ts) v = (case v of
     Some (JObj fs) \<Rightarrow> list_all (\<lambda>f. fst f \<in> fst ` set ts) fs \<and> list_all (\<lambda>(k, t). has_type e t (map_of fs k)) ts
   | _ \<Rightarrow> False)"

text \<open>What a read that does not throw yields.\<close>

definition yields :: "js_env \<Rightarrow> jtype \<Rightarrow> json option res \<Rightarrow> bool" where
  "yields e t m \<longleftrightarrow> (\<forall>w. m = Inr w \<longrightarrow> has_type e t w)"

named_theorems yield_rules \<open>what the result of a property reader is\<close>

lemma yields_address [yield_rules]: "checksums e \<Longrightarrow> yields e TAddr (address e name v)"
  by (auto simp: yields_def address_def checksums_def config_error_def split: option.splits json.splits if_splits)

lemma yields_finite [yield_rules]: "yields e (TNum lo hi) (finite_in e name lo hi v)"
  by (auto simp: yields_def finite_in_def Let_def config_error_def split: option.splits json.splits if_splits)

lemma yields_optional_finite [yield_rules]: "yields e (TOpt (TNum lo hi)) (optional_finite e name lo hi v)"
  by (auto simp: yields_def optional_finite_def finite_in_def Let_def config_error_def split: option.splits json.splits if_splits)

lemma yields_optional_decimal [yield_rules]: "yields e (TOpt (TDecimal i)) (optional_decimal name i v)"
  by (auto simp: yields_def optional_decimal_def config_error_def split: option.splits json.splits if_splits)

lemma yields_with_default [yield_rules]:
  "yields e (TOpt t) (f v) \<Longrightarrow> has_type e t (Some d) \<Longrightarrow> yields e t (with_default d f v)"
  by (auto simp: with_default_def yields_def bindR_eq_Inr split: option.splits)

lemma yields_trivial [yield_rules]:
  "yields e (TOpt TStr) (optional_text e v)" "yields e (TOneOf names) (name_in names err v)"
  "yields e (TConst j) (fixed_value j v)" "yields e TBool (check is_bool err v)"
  by (auto simp: yields_def optional_text_def name_in_def fixed_value_def check_def split: option.splits if_splits)

lemma yields_as_is [yield_rules]: "yields e t (as_is v) \<longleftrightarrow> has_type e t v"
  by (simp add: yields_def as_is_def)

lemma literal_keys: "literal fs = Inr c \<Longrightarrow> \<exists>gs. c = JObj gs \<and> fst ` set gs \<subseteq> fst ` set fs"
proof -
  assume "literal fs = Inr c"
  then obtain gs where "c = obj gs" "map fst gs = map fst fs" by (auto simp: literal_Inr)
  moreover from this have ks: "fst ` set gs = fst ` set fs" by (metis set_map)
  have "fst ` set (List.map_filter (\<lambda>(k, v). map_option (Pair k) v) gs) \<subseteq> fst ` set fs"
    unfolding ks [symmetric] by (force simp: List.map_filter_def)
  ultimately show ?thesis by (auto simp: obj_def)
qed

definition typed_spec :: "js_env \<Rightarrow> json option \<Rightarrow> (string \<times> reader) list \<Rightarrow> (string \<times> jtype) list \<Rightarrow> bool" where
  "typed_spec e v spec ts \<longleftrightarrow> distinct (map fst spec) \<and> list_all2 (\<lambda>p q. fst q = fst p \<and> yields e (snd q) (snd p (getk (fst p) v))) spec ts"

lemma read_object_type:
  assumes "read_object spec v = Inr c" "typed_spec e v spec ts"
  shows "has_type e (TRec ts) (Some c)"
proof -
  have d: "distinct (map fst spec)" and at: "list_all2 (\<lambda>p q. fst q = fst p \<and> yields e (snd q) (snd p (getk (fst p) v))) spec ts"
    using assms(2) by (simp_all add: typed_spec_def)
  have keys: "map fst ts = map fst spec"
    using at by (induction rule: list_all2_induct) simp_all
  obtain gs where c: "c = JObj gs" and ks: "fst ` set gs \<subseteq> fst ` set spec"
    using literal_keys [OF assms(1) [unfolded read_object_def]] by (auto simp: image_iff) force
  have "has_type e t (map_of gs k)" if "(k, t) \<in> set ts" for k t
  proof -
    from that obtain i where i: "i < length ts" "ts ! i = (k, t)" by (meson in_set_conv_nth)
    then have p: "fst (spec ! i) = k" "yields e t (snd (spec ! i) (getk k v))" "i < length spec"
      using at by (auto simp: list_all2_conv_all_nth)
    then have "(k, snd (spec ! i)) \<in> set spec" by (metis nth_mem prod.collapse)
    then have "snd (spec ! i) (getk k v) = Inr (map_of gs k)"
      using read_object_fields [OF assms(1) d] by (simp add: c getk_def)
    then show ?thesis using p(2) by (simp add: yields_def)
  qed
  moreover have "fst ` set gs \<subseteq> fst ` set ts" using ks keys by (metis set_map)
  ultimately show ?thesis by (auto simp: c list_all_iff)
qed

lemma yields_nested: "typed_spec e v spec ts \<Longrightarrow> yields e (TRec ts) (nested spec v)"
  unfolding yields_def nested_def bindR_eq_Inr by (auto simp del: has_type.simps intro: read_object_type)

end
