(* ===== verification/Schema.thy ===== *)
theory Schema
  imports JsonReader
begin

text \<open>
  \<open>shared/strategy/schema.ts\<close>: the validator every stored or received strategy goes through, the
  draft of the quick flow and the recommended safeguards; and the networks the validator looks up
  (\<open>config/networks.ts\<close> over \<open>config/chains\<close>).  A configuration is the JSON object the code builds.
\<close>

section \<open>Networks\<close>

record chain_net =
  cn_key :: string
  cn_id :: int
  cn_CL_PM :: string
  cn_V3_NPM :: string
  cn_UP :: "string option"
  cn_V4_PM :: "string option"

definition robinhoodConfig :: chain_net where
  "robinhoodConfig = \<lparr>cn_key = ''robinhood'', cn_id = 4663,
     cn_CL_PM = ''0x07F44c47743A2f36414A82b9F558ECFCf0EEdCEf'',
     cn_V3_NPM = ''0x73991a25C818Bf1f1128dEAaB1492D45638DE0D3'',
     cn_UP = Some ''0x57C0E45cB534413D1C20A4240955d6bB250BB4F1'',
     cn_V4_PM = Some ''0x58daec3116aae6D93017bAAea7749052E8a04fA7''\<rparr>"

definition bscConfig :: chain_net where
  "bscConfig = \<lparr>cn_key = ''bsc'', cn_id = 56,
     cn_CL_PM = ''0x46A15B0b27311cedF172AB29E4f4766fbE7F4364'',
     cn_V3_NPM = ''0x7b8A01B39D58278b5DE7e48c8449c9f4F5170613'',
     cn_UP = None,
     cn_V4_PM = Some ''0x7A4a5c919aE2541AeD11041A1AEeE68f1287f95b''\<rparr>"

definition CHAINS :: "chain_net list" where
  "CHAINS = [bscConfig, robinhoodConfig]"

definition strategyChain :: "json option \<Rightarrow> chain_net option" where
  "strategyChain v = (case v of Some (JNum r) \<Rightarrow> find (\<lambda>c. of_int (cn_id c) = r) CHAINS | _ \<Rightarrow> None)"

definition v3PositionManager :: "chain_net \<Rightarrow> string \<Rightarrow> string res" where
  "v3PositionManager net prt =
     (if prt = ''univ3'' then Inr (cn_V3_NPM net)
      else if prt = ''pancakeswap-v3'' \<and> cn_key net = ''bsc'' then Inr (cn_CL_PM net)
      else Inl (JsError (''protocol '' @ prt @ '' is not a v3 deployment on chain '' @ big_to_string (cn_id net))))"

definition positionManagerFor :: "chain_net \<Rightarrow> string \<Rightarrow> string res" where
  "positionManagerFor net prt =
     (if prt = ''up33'' \<and> cn_key net = ''robinhood'' then Inr (cn_CL_PM net)
      else if prt = ''univ4'' then
        (case cn_V4_PM net of None \<Rightarrow> Inl (JsError (''Uniswap v4 is not configured on chain '' @ big_to_string (cn_id net))) | Some pm \<Rightarrow> Inr pm)
      else v3PositionManager net prt)"

section \<open>The checks before the object is built\<close>

definition cfg :: "string \<Rightarrow> js_error" where "cfg msg = StrategyError E_CONFIG msg"

definition text_of :: "json option \<Rightarrow> string" where
  "text_of v = (case v of Some (JStr s) \<Rightarrow> s | _ \<Rightarrow> [])"

definition is_text :: "json option \<Rightarrow> bool" where
  "is_text v = (case v of Some (JStr _) \<Rightarrow> True | _ \<Rightarrow> False)"

definition is_object :: "json option \<Rightarrow> bool" where
  "is_object v = (case v of Some (JObj _) \<Rightarrow> True | Some (JArr _) \<Rightarrow> True | _ \<Rightarrow> False)"

definition presetValues :: "string list" where
  "presetValues = [''original'', ''fee_guarded'', ''defensive'', ''custom'']"

definition protocols :: "string list" where
  "protocols = [''up33'', ''univ3'', ''pancakeswap-v3'', ''univ4'']"

definition range_modes :: "string list" where "range_modes = [''symmetric'', ''asymmetric'', ''fixed_ticks'']"
definition sources :: "string list" where "sources = [''spot'', ''sampled_twap'']"
definition handlings :: "string list" where "handlings = [''convert_to_quote'', ''reinvest'', ''hold_tokens'']"
definition timings :: "string list" where "timings = [''on_rebalance'', ''threshold'', ''interval'']"
definition modes :: "string list" where "modes = [''notify_only'', ''wallet_confirm'', ''executor_auto'']"
definition conditions :: "string list" where "conditions = [''always'', ''fee_break_even'', ''manual_confirm'']"
definition actions :: "string list" where "actions = [''recenter'', ''skew_recenter'', ''hold_quote'', ''pause'']"

definition ignore :: "'a res \<Rightarrow> unit res" where "ignore m = bindR m (\<lambda>_. Inr ())"

definition protocol_is :: "string \<Rightarrow> json option \<Rightarrow> bool" where
  "protocol_is p x \<longleftrightarrow> getk ''protocol'' x = Some (JStr p)"

definition chain_key_is :: "string \<Rightarrow> json option \<Rightarrow> bool" where
  "chain_key_is k x \<longleftrightarrow> map_option cn_key (strategyChain (getk ''chainId'' x)) = Some k"

definition has_v4 :: "json option \<Rightarrow> bool" where
  "has_v4 x \<longleftrightarrow> (case strategyChain (getk ''chainId'' x) of Some net \<Rightarrow> cn_V4_PM net \<noteq> None | None \<Rightarrow> False)"

definition identity_checks :: "js_env \<Rightarrow> json option \<Rightarrow> unit res list" where
  "identity_checks e x =
    [required (is_object x) (cfg ''strategy must be an object''),
     required (getk ''version'' x = Some (JNum 1)) (cfg ''unsupported strategy version''),
     required (is_text (getk ''id'' x) \<and> text_of (getk ''id'' x) \<noteq> []) (cfg ''strategy id missing''),
     required (is_text (getk ''name'' x) \<and> js_trim (text_of (getk ''name'' x)) \<noteq> []) (cfg ''strategy name missing''),
     required (one_of presetValues (getk ''preset'' x) \<and> one_of presetValues (getk ''sourcePreset'' x)) (cfg ''invalid preset''),
     required (strategyChain (getk ''chainId'' x) \<noteq> None) (StrategyError E_CHAIN ''unsupported strategy chain''),
     required (one_of protocols (getk ''protocol'' x)) (cfg ''invalid protocol''),
     required (\<not> (\<not> chain_key_is ''bsc'' x \<and> protocol_is ''pancakeswap-v3'' x)) (cfg ''PancakeSwap v3 is only available on BSC''),
     required (\<not> (\<not> chain_key_is ''robinhood'' x \<and> protocol_is ''up33'' x)) (cfg ''UP33 is only available on Robinhood Chain''),
     required (\<not> (protocol_is ''univ4'' x \<and> \<not> has_v4 x)) (cfg ''Uniswap v4 is not configured on this chain''),
     required (\<not> (protocol_is ''univ4'' x \<and> \<not> (is_text (getk ''poolId'' x) \<and> je_hexSize e (text_of (getk ''poolId'' x)) = Some 32)))
       (cfg ''Uniswap v4 strategy requires a bytes32 poolId''),
     required (is_bool (getk ''enabled'' x)) (cfg ''enabled must be boolean'')]"

definition range_checks :: "js_env \<Rightarrow> json option \<Rightarrow> unit res list" where
  "range_checks e r =
    [required (js_truthy r \<and> one_of range_modes (getk ''mode'' r)) (cfg ''invalid range''),
     ignore (finite_in e ''lowerPct'' (fl (1 / 1000)) 99 (getk ''lowerPct'' r)),
     ignore (finite_in e ''upperPct'' (fl (1 / 1000)) 500 (getk ''upperPct'' r)),
     required (\<not> (getk ''mode'' r = Some (JStr ''fixed_ticks'') \<and>
                  (\<not> is_int_number (getk ''tickLower'' r) \<or> \<not> is_int_number (getk ''tickUpper'' r))))
       (cfg ''fixed tick range requires ticks''),
     required (\<not> (case (getk ''tickLower'' r, getk ''tickUpper'' r) of (Some a, Some b) \<Rightarrow> js_ge e a b | _ \<Rightarrow> False))
       (cfg ''tickLower must be below tickUpper'')]"

definition section_checks :: "json option \<Rightarrow> unit res list" where
  "section_checks x =
    [required (js_truthy (getk ''trigger'' x) \<and> one_of sources (getk ''source'' (getk ''trigger'' x))) (cfg ''invalid trigger''),
     required (js_truthy (getk ''boundary'' x) \<and> js_truthy (getk ''lower'' (getk ''boundary'' x)) \<and>
               js_truthy (getk ''upper'' (getk ''boundary'' x))) (cfg ''boundary missing''),
     required (js_truthy (getk ''fees'' x) \<and> one_of handlings (getk ''handling'' (getk ''fees'' x))) (cfg ''invalid fee handling''),
     required (one_of timings (getk ''timing'' (getk ''fees'' x))) (cfg ''invalid fee timing''),
     required (js_truthy (getk ''safeguards'' x) \<and> is_bool (getk ''enabled'' (getk ''safeguards'' x))) (cfg ''invalid safeguards''),
     required (js_truthy (getk ''execution'' x) \<and> one_of modes (getk ''mode'' (getk ''execution'' x))) (cfg ''invalid execution'')]"

definition pre_checks :: "js_env \<Rightarrow> json option \<Rightarrow> unit res" where
  "pre_checks e x = in_order (identity_checks e x @ range_checks e (getk ''range'' x) @ section_checks x)"

section \<open>The object\<close>

definition MAX_SAFE_NUMBER :: rat where "MAX_SAFE_NUMBER = 9007199254740991"

definition zero_address :: string where "zero_address = ''0x'' @ replicate 40 (CHR ''0'')"

definition trimmed :: reader where
  "trimmed v = (case v of Some (JStr s) \<Rightarrow> Inr (Some (JStr (js_trim s))) | _ \<Rightarrow> Inl (JsError ''TypeError''))"

definition only_if :: "bool \<Rightarrow> reader \<Rightarrow> reader" where
  "only_if b f v = (if b then f v else Inr None)"

definition hooks_of :: "js_env \<Rightarrow> reader" where
  "hooks_of e v = address e ''hooks'' (if nullish v then Some (JStr zero_address) else v)"

definition token_id :: "js_env \<Rightarrow> reader" where
  "token_id e v = Inr (Some (if nullish v then JNull else JStr (js_string e (the v))))"

definition reward_token :: "js_env \<Rightarrow> chain_net \<Rightarrow> reader" where
  "reward_token e net v =
     (case v of
        None \<Rightarrow> (case cn_UP net of None \<Rightarrow> Inl (cfg ''staking is unavailable on this chain'') | Some up \<Rightarrow> Inr (Some (JStr up)))
      | Some _ \<Rightarrow> address e ''staking.rewardToken'' v)"

definition reward_quote :: "js_env \<Rightarrow> json option \<Rightarrow> reader" where
  "reward_quote e quote v =
     (case v of None \<Rightarrow> address e ''quoteToken'' quote | Some _ \<Rightarrow> address e ''staking.rewardQuoteToken'' v)"

definition reward_handling :: reader where
  "reward_handling v = Inr (Some (case v of None \<Rightarrow> JStr ''convert_to_quote_hold'' | Some j \<Rightarrow> j))"

definition staking_spec :: "js_env \<Rightarrow> chain_net \<Rightarrow> json option \<Rightarrow> (string \<times> reader) list" where
  "staking_spec e net quote =
    [(''enabled'', fixed_value (JBool True)),
     (''gauge'', address e ''staking.gauge''),
     (''rewardToken'', reward_token e net),
     (''rewardQuoteToken'', reward_quote e quote),
     (''rewardHandling'', reward_handling)]"

definition staking_of :: "js_env \<Rightarrow> chain_net \<Rightarrow> json option \<Rightarrow> reader" where
  "staking_of e net quote v =
     (if js_truthy (getk ''enabled'' v) then nested (staking_spec e net quote) v
      else nested [(''enabled'', fixed_value (JBool False))] v)"

definition range_spec :: "js_env \<Rightarrow> (string \<times> reader) list" where
  "range_spec e =
    [(''mode'', as_is),
     (''lowerPct'', finite_in e ''lowerPct'' (fl (1 / 1000)) 99),
     (''upperPct'', finite_in e ''upperPct'' (fl (1 / 1000)) 500),
     (''tickLower'', as_is),
     (''tickUpper'', as_is),
     (''defensiveLowerPct'', optional_finite e ''defensiveLowerPct'' (fl (1 / 1000)) 99),
     (''defensiveUpperPct'', optional_finite e ''defensiveUpperPct'' (fl (1 / 1000)) 500)]"

definition trigger_spec :: "js_env \<Rightarrow> (string \<times> reader) list" where
  "trigger_spec e =
    [(''source'', as_is),
     (''pollSeconds'', finite_in e ''pollSeconds'' 1 60),
     (''confirmationSeconds'', finite_in e ''confirmationSeconds'' 0 3600),
     (''cooldownMinutes'', finite_in e ''cooldownMinutes'' 0 1440)]"

definition policy :: "string \<Rightarrow> reader" where
  "policy side = nested
    [(''condition'', name_in conditions (cfg (''invalid '' @ side @ '' boundary condition''))),
     (''action'', name_in actions (cfg (''invalid '' @ side @ '' boundary action'')))]"

definition fees_spec :: "js_env \<Rightarrow> (string \<times> reader) list" where
  "fees_spec e =
    [(''handling'', as_is),
     (''timing'', as_is),
     (''thresholdQuote'', optional_decimal ''thresholdQuote'' False),
     (''intervalMinutes'', optional_finite e ''intervalMinutes'' 1 10080)]"

definition on_unless_false :: reader where
  "on_unless_false v = Inr (Some (JBool (v \<noteq> Some (JBool False))))"

definition capital_spec :: "(string \<times> reader) list" where
  "capital_spec =
    [(''enabled'', on_unless_false),
     (''profitThresholdUsdg'', with_default (JStr ''10'') (optional_decimal ''profitThresholdUsdg'' False))]"

definition adaptive_field :: "js_env \<Rightarrow> string \<Rightarrow> rat \<Rightarrow> rat \<Rightarrow> rat \<Rightarrow> string \<times> reader" where
  "adaptive_field e k lo hi d = (k, with_default (JNum d) (optional_finite e (''adaptiveRange.'' @ k) lo hi))"

definition adaptive_spec :: "js_env \<Rightarrow> (string \<times> reader) list" where
  "adaptive_spec e =
    [(''enabled'', on_unless_false),
     adaptive_field e ''targetMinutes'' 1 10080 120,
     adaptive_field e ''maxMultiplier'' 1 20 4,
     adaptive_field e ''recoveryDecay'' 0 1 (1 / 2),
     adaptive_field e ''contractionReviewMinutes'' 1 10080 360,
     adaptive_field e ''contractionStabilityMinutes'' 1 1440 120,
     adaptive_field e ''contractionMaxVolatilityBps'' 1 10000 250,
     adaptive_field e ''contractionFeeCoverage'' 1 10 (5 / 4)]"

definition optional_limits :: "(string \<times> rat \<times> rat) list" where
  "optional_limits =
    [(''minCrossingMinutes'', 0, 10080), (''minNetAprPct'', 0, 1000000), (''minCycleFeeCoverage'', 0, 100),
     (''economicsHoldMinutes'', 1, 1440), (''maxRebalancesPerDay'', 1, 1000), (''maxConsecutiveLowerBreaks'', 1, 1000),
     (''lowerBreakWindowMinutes'', 1, 10080), (''maxRiskAssetPct'', 0, 100), (''maxSwapImpactBps'', 0, 10000),
     (''volatilityWindowSeconds'', 10, 3600), (''maxVolatilityBps'', 1, 10000), (''maxSpotTwapDeviationBps'', 1, 10000),
     (''stableMarketSeconds'', 0, 3600), (''burstWindowMinutes'', 1, 1440), (''burstTriggerCount'', 2, 1000),
     (''burstCooldownMinutes'', 1, 1440)]"

definition safeguards_spec :: "js_env \<Rightarrow> (string \<times> reader) list" where
  "safeguards_spec e =
    (''enabled'', as_is) # map (\<lambda>(k, lo, hi). (k, optional_finite e k lo hi)) optional_limits @
    [(''maxSlippageBps'', finite_in e ''maxSlippageBps'' 0 1000),
     (''maxPlanAgeSeconds'', finite_in e ''maxPlanAgeSeconds'' 1 300)]"

definition signer_of :: "js_env \<Rightarrow> reader" where
  "signer_of e v = (if v = None then Inr None else address e ''signerAddress'' v)"

definition is_true :: reader where "is_true v = Inr (Some (JBool (v = Some (JBool True))))"

definition execution_spec :: "js_env \<Rightarrow> (string \<times> reader) list" where
  "execution_spec e =
    [(''mode'', as_is),
     (''executorId'', optional_text e),
     (''walletId'', optional_text e),
     (''signerAddress'', signer_of e),
     (''dryRun'', check is_bool (cfg ''dryRun must be boolean'')),
     (''maxGasPriceWei'', optional_decimal ''maxGasPriceWei'' True),
     (''maxGasQuotePerTx'', optional_decimal ''maxGasQuotePerTx'' False),
     (''maxDailyTurnoverQuote'', optional_decimal ''maxDailyTurnoverQuote'' False),
     (''gasReserveMultiplier'', finite_in e ''gasReserveMultiplier'' 1 10),
     (''lowTransactionMode'', is_true)]"

definition config_spec :: "js_env \<Rightarrow> chain_net \<Rightarrow> bool \<Rightarrow> json option \<Rightarrow> (string \<times> reader) list" where
  "config_spec e net v4 quote =
    [(''version'', fixed_value (JNum 1)),
     (''id'', as_is),
     (''name'', trimmed),
     (''preset'', as_is),
     (''sourcePreset'', as_is),
     (''enabled'', as_is),
     (''chainId'', as_is),
     (''owner'', address e ''owner''),
     (''protocol'', as_is),
     (''pool'', address e ''pool''),
     (''poolId'', only_if v4 as_is),
     (''hooks'', only_if v4 (hooks_of e)),
     (''positionManager'', address e ''positionManager''),
     (''activeTokenId'', token_id e),
     (''riskToken'', address e ''riskToken''),
     (''quoteToken'', address e ''quoteToken''),
     (''staking'', staking_of e net quote),
     (''range'', nested (range_spec e)),
     (''trigger'', nested (trigger_spec e)),
     (''boundary'', nested [(''lower'', policy ''lower''), (''upper'', policy ''upper'')]),
     (''fees'', nested (fees_spec e)),
     (''capitalProtection'', nested capital_spec),
     (''adaptiveRange'', nested (adaptive_spec e)),
     (''safeguards'', nested (safeguards_spec e)),
     (''execution'', nested (execution_spec e)),
     (''revision'', finite_in e ''revision'' 1 MAX_SAFE_NUMBER),
     (''createdAt'', finite_in e ''createdAt'' 0 MAX_SAFE_NUMBER),
     (''updatedAt'', finite_in e ''updatedAt'' 0 MAX_SAFE_NUMBER)]"

section \<open>The checks on the object\<close>

definition auto_mode :: "json option \<Rightarrow> bool" where
  "auto_mode c \<longleftrightarrow> getk ''mode'' (getk ''execution'' c) = Some (JStr ''executor_auto'')"

definition same_lower :: "json option \<Rightarrow> json option \<Rightarrow> bool" where
  "same_lower a b \<longleftrightarrow> map_option (\<lambda>_. toLower (text_of a)) a = map_option (\<lambda>_. toLower (text_of b)) b"

definition staking_checks :: "chain_net \<Rightarrow> json option \<Rightarrow> unit res list" where
  "staking_checks net c =
     (let st = getk ''staking'' c in
      if js_truthy (getk ''enabled'' st) then
       [required (cn_UP net \<noteq> None) (cfg ''staking is unavailable on this chain''),
        required (protocol_is ''up33'' c \<and> js_truthy (getk ''gauge'' st)) (cfg ''automatic staking requires an UP33 gauge''),
        required (same_lower (getk ''rewardToken'' st) (map_option JStr (cn_UP net)) \<and>
                  same_lower (getk ''rewardQuoteToken'' st) (getk ''quoteToken'' c) \<and>
                  getk ''rewardHandling'' st = Some (JStr ''convert_to_quote_hold''))
          (cfg ''automatic staking rewards must convert UP via WETH to the held quote token''),
        required (getk ''timing'' (getk ''fees'' c) = Some (JStr ''on_rebalance''))
          (cfg ''staked strategies currently harvest rewards on rebalance'')]
      else [])"

definition live :: "json option \<Rightarrow> bool" where
  "live c \<longleftrightarrow> js_truthy (getk ''enabled'' c) \<and> auto_mode c \<and> \<not> js_truthy (getk ''dryRun'' (getk ''execution'' c))"

definition post_checks :: "chain_net \<Rightarrow> json option \<Rightarrow> unit res" where
  "post_checks net c =
     (let ex = getk ''execution'' c; fee = getk ''fees'' c in in_order (
       [required (\<not> same_lower (getk ''riskToken'' c) (getk ''quoteToken'' c)) (cfg ''riskToken and quoteToken must differ''),
        bindR (positionManagerFor net (text_of (getk ''protocol'' c))) (\<lambda>pm.
          required (same_lower (getk ''positionManager'' c) (Some (JStr pm)))
            (StrategyError E_POOL_IDENTITY ''position manager is not the canonical deployment'')),
        required (auto_mode c \<longrightarrow> js_truthy (getk ''walletId'' ex) \<and> js_truthy (getk ''signerAddress'' ex))
          (cfg ''executor_auto requires walletId and signerAddress''),
        required (auto_mode c \<longrightarrow> same_lower (getk ''signerAddress'' ex) (getk ''owner'' c))
          (StrategyError E_OWNER ''executor signer must own the position'')] @
       staking_checks net c @
       [required (getk ''timing'' fee = Some (JStr ''threshold'') \<longrightarrow> js_truthy (getk ''thresholdQuote'' fee))
          (cfg ''threshold fee timing requires thresholdQuote''),
        required (getk ''timing'' fee = Some (JStr ''interval'') \<longrightarrow> getk ''intervalMinutes'' fee \<noteq> None)
          (cfg ''interval fee timing requires intervalMinutes''),
        required (live c \<longrightarrow> js_truthy (getk ''maxDailyTurnoverQuote'' ex)) (cfg ''live automation requires maxDailyTurnoverQuote''),
        required (live c \<longrightarrow> js_truthy (getk ''maxGasPriceWei'' ex) \<or> js_truthy (getk ''maxGasQuotePerTx'' ex))
          (cfg ''live automation requires a gas price or per-transaction gas cap'')]))"

definition parseStrategyConfig :: "js_env \<Rightarrow> json option \<Rightarrow> json res" where
  "parseStrategyConfig e x =
     bindR (pre_checks e x) (\<lambda>_.
       case strategyChain (getk ''chainId'' x) of
         None \<Rightarrow> Inl (JsError ''unsupported strategy chain'')
       | Some net \<Rightarrow>
           bindR (read_object (config_spec e net (protocol_is ''univ4'' x) (getk ''quoteToken'' x)) x) (\<lambda>c.
             bindR (post_checks net (Some c)) (\<lambda>_. Inr c)))"

section \<open>Reading a configuration again\<close>

text \<open>The repository's own constants are checksummed addresses.\<close>

definition checksummed_constants :: "js_env \<Rightarrow> bool" where
  "checksummed_constants e \<longleftrightarrow>
     list_all (\<lambda>net. case cn_UP net of None \<Rightarrow> True | Some up \<Rightarrow> je_isAddress e up \<and> je_getAddress e up = up) CHAINS"

lemma known_up:
  "checksummed_constants e \<Longrightarrow> strategyChain v = Some net \<Longrightarrow> cn_UP net = Some up \<Longrightarrow>
   je_isAddress e up \<and> je_getAddress e up = up"
  by (auto simp: strategyChain_def checksummed_constants_def list_all_iff find_Some_iff
      split: option.splits json.splits dest!: nth_mem)

definition stable_spec :: "(string \<times> reader) list \<Rightarrow> bool" where
  "stable_spec spec \<longleftrightarrow> distinct (map fst spec) \<and> (\<forall>f \<in> set (map snd spec). again f)"

lemma nested_stable: "stable_spec spec \<Longrightarrow> again (nested spec)"
  by (rule nested_again) (auto simp: stable_spec_def rev_image_eqI)

lemma again_small [reads_again]:
  "again (check p err)" "again on_unless_false" "again is_true" "again trimmed" "again (token_id e)"
  by (auto intro!: againI simp: check_def on_unless_false_def is_true_def trimmed_def token_id_def nullish_def trim_idem
      split: if_splits option.splits json.splits)

lemma again_only_if [reads_again]: "again f \<Longrightarrow> again (only_if b f)"
  by (auto simp: again_def only_if_def)

lemma address_result: "address e name v = Inr w \<Longrightarrow> checksums e \<Longrightarrow> \<exists>s. w = Some (JStr s) \<and> je_isAddress e s \<and> je_getAddress e s = s"
  by (auto simp: address_def checksums_def config_error_def split: option.splits json.splits if_splits)

lemma address_reread: "address e n v = Inr w \<Longrightarrow> checksums e \<Longrightarrow> address e m w = Inr w"
  by (drule (1) address_result) (auto simp: address_def)

lemma again_hooks [reads_again]: "checksums e \<Longrightarrow> again (hooks_of e)"
proof (rule againI)
  fix v w assume c: "checksums e" and "hooks_of e v = Inr w"
  then have a: "address e ''hooks'' (if nullish v then Some (JStr zero_address) else v) = Inr w" by (simp add: hooks_of_def)
  then have "\<not> nullish w" using address_result [OF a c] by (auto simp: nullish_def)
  then show "hooks_of e w = Inr w" using address_reread [OF a c] by (simp add: hooks_of_def)
qed

lemma again_signer [reads_again]: "checksums e \<Longrightarrow> again (signer_of e)"
  by (rule againI) (auto simp: signer_of_def split: if_splits dest: address_result address_reread)

lemma stable_policy [reads_again]: "again (policy side)"
  unfolding policy_def by (rule nested_stable) (simp add: stable_spec_def reads_again)

lemma stable_sections [reads_again]:
  "again (nested (range_spec e))" "again (nested (trigger_spec e))" "again (nested (fees_spec e))"
  "again (nested capital_spec)" "again (nested (adaptive_spec e))"
  by (rule nested_stable;
      simp add: stable_spec_def range_spec_def trigger_spec_def fees_spec_def capital_spec_def adaptive_spec_def
        adaptive_field_def reads_again optional_finite_def optional_decimal_def finite_in_def nullish_def Let_def
        decimal_text_def digits_def)+

lemma stable_safeguards [reads_again]: "again (nested (safeguards_spec e))"
  by (rule nested_stable) (simp add: stable_spec_def safeguards_spec_def optional_limits_def reads_again)

lemma stable_execution [reads_again]: "checksums e \<Longrightarrow> again (nested (execution_spec e))"
  by (rule nested_stable) (simp add: stable_spec_def execution_spec_def reads_again)

lemma stable_boundary [reads_again]: "again (nested [(''lower'', policy ''lower''), (''upper'', policy ''upper'')])"
  by (rule nested_stable) (simp add: stable_spec_def reads_again)

lemma reward_again:
  assumes "checksums e" "checksummed_constants e" "strategyChain x = Some net"
  shows "reward_token e net v = Inr w \<Longrightarrow> reward_token e net w = Inr w"
    and "reward_quote e q v = Inr w \<Longrightarrow> reward_quote e q' w = Inr w"
    and "reward_handling v = Inr w \<Longrightarrow> reward_handling w = Inr w"
proof -
  show "reward_token e net w = Inr w" if r: "reward_token e net v = Inr w"
  proof (cases v)
    case None
    with r obtain up where up: "cn_UP net = Some up" "w = Some (JStr up)"
      by (auto simp: reward_token_def split: option.splits)
    then show ?thesis using known_up [OF assms(2,3)] by (simp add: reward_token_def address_def)
  next
    case (Some j)
    with r have a: "address e ''staking.rewardToken'' v = Inr w" by (simp add: reward_token_def)
    then show ?thesis using address_result [OF a assms(1)] address_reread [OF a assms(1)] by (auto simp: reward_token_def)
  qed
  show "reward_quote e q v = Inr w \<Longrightarrow> reward_quote e q' w = Inr w"
    by (auto simp: reward_quote_def split: option.splits dest: address_result [OF _ assms(1)] address_reread [OF _ assms(1)])
  show "reward_handling v = Inr w \<Longrightarrow> reward_handling w = Inr w" by (auto simp: reward_handling_def)
qed

lemma staking_again:
  assumes "checksums e" "checksummed_constants e" "strategyChain x = Some net" "staking_of e net q v = Inr w"
  shows "staking_of e net q' w = Inr w"
proof (cases "js_truthy (getk ''enabled'' v)")
  case True
  let ?spec = "\<lambda>q. staking_spec e net q"
  obtain c where c: "read_object (?spec q) v = Inr c" "w = Some c"
    using assms(4) True by (auto simp: staking_of_def nested_def bindR_eq_Inr)
  have d: "distinct (map fst (?spec q))" by (simp add: staking_spec_def)
  have "read_object (?spec q') (Some c) = Inr c"
  proof (rule read_object_again [OF c(1) d])
    show "map fst (?spec q') = map fst (?spec q)" by (simp add: staking_spec_def)
    fix k f f' u assume "(k, f) \<in> set (?spec q)" "(k, f') \<in> set (?spec q')" "f (getk k v) = Inr u"
    then show "f' u = Inr u"
      by (auto simp: staking_spec_def fixed_value_def
          dest: reward_again(1) [OF assms(1-3)] reward_again(2) [OF assms(1-3)] reward_again(3) [OF assms(1-3)]
            address_reread [OF _ assms(1)])
  qed
  moreover have "getk ''enabled'' (Some c) = Some (JBool True)"
    using read_object_fields [OF c(1) d, of "''enabled''" "fixed_value (JBool True)"] by (simp add: staking_spec_def fixed_value_def)
  ultimately show ?thesis by (simp add: staking_of_def c(2) nested_def js_truthy_def)
next
  case False
  let ?spec = "[(''enabled'', fixed_value (JBool False))]"
  obtain c where c: "read_object ?spec v = Inr c" "w = Some c"
    using assms(4) False by (auto simp: staking_of_def nested_def bindR_eq_Inr)
  have "again (nested ?spec)" by (rule nested_stable) (simp add: stable_spec_def reads_again)
  moreover have "nested ?spec v = Inr w" by (simp add: nested_def c)
  ultimately have "nested ?spec w = Inr w" by (rule againD)
  moreover have "getk ''enabled'' (Some c) = Some (JBool False)"
    using read_object_fields [OF c(1), of "''enabled''" "fixed_value (JBool False)"] by (simp add: fixed_value_def)
  ultimately show ?thesis by (simp add: staking_of_def c(2) js_truthy_def)
qed

lemma config_distinct: "distinct (map fst (config_spec e net v4 q))"
  by (simp add: config_spec_def)

lemma config_others:
  assumes "checksums e" "(k, f) \<in> set (config_spec e net v4 q)" "k \<noteq> ''staking''"
  shows "(k, f) \<in> set (config_spec e net v4 q') \<and> again f"
proof -
  let ?rest = "\<lambda>q. filter (\<lambda>p. fst p \<noteq> ''staking'') (config_spec e net v4 q)"
  have same: "?rest q = ?rest q'" by (simp add: config_spec_def)
  have "list_all (\<lambda>p. again (snd p)) (?rest q)"
    using assms(1) by (simp add: config_spec_def reads_again)
  moreover have mem: "(k, f) \<in> set (?rest q)" using assms(2,3) by simp
  ultimately have "again f" by (auto simp: list_all_iff)
  then show ?thesis using mem unfolding same by simp
qed

lemma config_again:
  assumes "checksums e" "checksummed_constants e" "strategyChain x' = Some net"
    and "read_object (config_spec e net v4 q) x = Inr c"
  shows "read_object (config_spec e net v4 q') (Some c) = Inr c"
proof (rule read_object_again [OF assms(4) config_distinct])
  show "map fst (config_spec e net v4 q') = map fst (config_spec e net v4 q)" by (simp add: config_spec_def)
  fix k f f' w
  assume f: "(k, f) \<in> set (config_spec e net v4 q)" and f': "(k, f') \<in> set (config_spec e net v4 q')"
    and w: "f (getk k x) = Inr w"
  show "f' w = Inr w"
  proof (cases "k = ''staking''")
    case True
    then have "f = staking_of e net q" "f' = staking_of e net q'" using f f' by (auto simp: config_spec_def)
    then show ?thesis using staking_again [OF assms(1-3)] w by simp
  next
    case False
    have "f = f'"
      using config_others [OF assms(1) f False] f' config_distinct by (metis eq_key_imp_eq_value)
    then show ?thesis using config_others [OF assms(1) f False] w by (blast dest: againD)
  qed
qed

lemma nested_field:
  "nested spec v = Inr w \<Longrightarrow> distinct (map fst spec) \<Longrightarrow> (k, f) \<in> set spec \<Longrightarrow> f (getk k v) = Inr (getk k w)"
  by (auto simp: nested_def bindR_eq_Inr intro: read_object_fields)

lemma nested_truthy: "nested spec v = Inr w \<Longrightarrow> js_truthy w \<and> is_object w"
  by (auto simp: nested_def bindR_eq_Inr js_truthy_def is_object_def dest!: literal_keys simp: read_object_def)

lemma config_field:
  "read_object (config_spec e net v4 q) x = Inr c \<Longrightarrow> (k, f) \<in> set (config_spec e net v4 q) \<Longrightarrow>
   f (getk k x) = Inr (getk k (Some c))"
  by (rule read_object_fields [OF _ config_distinct])

lemma config_kept:
  assumes "read_object (config_spec e net v4 q) x = Inr c"
    and "k \<in> {''id'', ''preset'', ''sourcePreset'', ''enabled'', ''chainId'', ''protocol''}"
  shows "getk k (Some c) = getk k x"
proof -
  have "(k, as_is) \<in> set (config_spec e net v4 q)" using assms(2) by (auto simp: config_spec_def)
  from config_field [OF assms(1) this] show ?thesis by (simp add: as_is_def)
qed

lemma config_pool_id:
  "read_object (config_spec e net True q) x = Inr c \<Longrightarrow> getk ''poolId'' (Some c) = getk ''poolId'' x"
  using config_field [of e net True q x c "''poolId''" "only_if True as_is"]
  by (simp add: config_spec_def only_if_def as_is_def)

lemma config_section:
  assumes "read_object (config_spec e net v4 q) x = Inr c"
  shows "nested (range_spec e) (getk ''range'' x) = Inr (getk ''range'' (Some c))"
    and "nested (trigger_spec e) (getk ''trigger'' x) = Inr (getk ''trigger'' (Some c))"
    and "nested [(''lower'', policy ''lower''), (''upper'', policy ''upper'')] (getk ''boundary'' x) = Inr (getk ''boundary'' (Some c))"
    and "nested (fees_spec e) (getk ''fees'' x) = Inr (getk ''fees'' (Some c))"
    and "nested (safeguards_spec e) (getk ''safeguards'' x) = Inr (getk ''safeguards'' (Some c))"
    and "nested (execution_spec e) (getk ''execution'' x) = Inr (getk ''execution'' (Some c))"
  by (rule config_field [OF assms]; simp add: config_spec_def)+

lemma config_name:
  assumes "read_object (config_spec e net v4 q) x = Inr c" "js_trim (text_of (getk ''name'' x)) \<noteq> []"
  shows "is_text (getk ''name'' (Some c)) \<and> js_trim (text_of (getk ''name'' (Some c))) \<noteq> []"
proof -
  have "trimmed (getk ''name'' x) = Inr (getk ''name'' (Some c))"
    by (rule config_field [OF assms(1)]) (simp add: config_spec_def)
  then show ?thesis using assms(2)
    by (auto simp: trimmed_def is_text_def text_of_def trim_idem dest!: sym [of "Some _"] split: option.splits json.splits)
qed

lemma config_is_object: "read_object spec x = Inr c \<Longrightarrow> is_object (Some c)"
  by (auto simp: is_object_def read_object_def dest!: literal_keys)

lemma identity_checks_again:
  assumes R: "read_object (config_spec e net (protocol_is ''univ4'' x) q) x = Inr c"
    and "list_all (\<lambda>m. m = Inr ()) (identity_checks e x)"
  shows "list_all (\<lambda>m. m = Inr ()) (identity_checks e (Some c))"
proof -
  have kept: "getk ''id'' (Some c) = getk ''id'' x" "getk ''preset'' (Some c) = getk ''preset'' x"
    "getk ''sourcePreset'' (Some c) = getk ''sourcePreset'' x" "getk ''enabled'' (Some c) = getk ''enabled'' x"
    "getk ''chainId'' (Some c) = getk ''chainId'' x" "getk ''protocol'' (Some c) = getk ''protocol'' x"
    by (simp_all add: config_kept [OF R])
  have v: "getk ''version'' (Some c) = Some (JNum 1)"
    using config_field [OF R, of "''version''" "fixed_value (JNum 1)"] by (simp add: config_spec_def fixed_value_def)
  have same: "protocol_is p (Some c) = protocol_is p x" "chain_key_is k (Some c) = chain_key_is k x"
    "has_v4 (Some c) = has_v4 x" for p k
    by (simp_all add: protocol_is_def chain_key_is_def has_v4_def kept)
  have pool: "getk ''poolId'' (Some c) = getk ''poolId'' x" if "protocol_is ''univ4'' x"
    using R that by (simp add: config_pool_id)
  show ?thesis
    using assms(2) config_name [OF R] config_is_object [OF R] pool
    unfolding identity_checks_def list.pred_inject required_Inr v kept same
    by (cases "protocol_is ''univ4'' x") simp_all
qed

lemma range_checks_again:
  assumes R: "nested (range_spec e) r = Inr w" and "list_all (\<lambda>m. m = Inr ()) (range_checks e r)"
  shows "list_all (\<lambda>m. m = Inr ()) (range_checks e w)"
proof -
  have d: "distinct (map fst (range_spec e))" by (simp add: range_spec_def)
  have "(''mode'', as_is) \<in> set (range_spec e)" "(''tickLower'', as_is) \<in> set (range_spec e)"
    "(''tickUpper'', as_is) \<in> set (range_spec e)"
    unfolding range_spec_def by (rule list.set_intros(1) | rule list.set_intros(2))+
  from this [THEN nested_field [OF R d]]
  have kept: "getk ''mode'' w = getk ''mode'' r" "getk ''tickLower'' w = getk ''tickLower'' r"
    "getk ''tickUpper'' w = getk ''tickUpper'' r"
    by (simp_all add: as_is_def)
  have pct: "finite_in e ''lowerPct'' (fl (1 / 1000)) 99 (getk ''lowerPct'' w) = Inr (getk ''lowerPct'' w)"
    "finite_in e ''upperPct'' (fl (1 / 1000)) 500 (getk ''upperPct'' w) = Inr (getk ''upperPct'' w)"
  proof -
    have "(''lowerPct'', finite_in e ''lowerPct'' (fl (1 / 1000)) 99) \<in> set (range_spec e)"
      "(''upperPct'', finite_in e ''upperPct'' (fl (1 / 1000)) 500) \<in> set (range_spec e)"
      unfolding range_spec_def by (rule list.set_intros(1) | rule list.set_intros(2))+
    then show "finite_in e ''lowerPct'' (fl (1 / 1000)) 99 (getk ''lowerPct'' w) = Inr (getk ''lowerPct'' w)"
      "finite_in e ''upperPct'' (fl (1 / 1000)) 500 (getk ''upperPct'' w) = Inr (getk ''upperPct'' w)"
      by (blast intro: againD [OF again_finite] nested_field [OF R d])+
  qed
  show ?thesis
    using assms(2) nested_truthy [OF R]
    unfolding range_checks_def by (simp add: required_Inr ignore_def kept pct)
qed

lemma section_checks_again:
  assumes R: "read_object (config_spec e net v4 q) x = Inr c" and "list_all (\<lambda>m. m = Inr ()) (section_checks x)"
  shows "list_all (\<lambda>m. m = Inr ()) (section_checks (Some c))"
proof -
  note S = config_section [OF R]
  note f = nested_field [of _ _ _ _ as_is]
  have kept: "getk ''source'' (getk ''trigger'' (Some c)) = getk ''source'' (getk ''trigger'' x)"
    "getk ''handling'' (getk ''fees'' (Some c)) = getk ''handling'' (getk ''fees'' x)"
    "getk ''timing'' (getk ''fees'' (Some c)) = getk ''timing'' (getk ''fees'' x)"
    "getk ''enabled'' (getk ''safeguards'' (Some c)) = getk ''enabled'' (getk ''safeguards'' x)"
    "getk ''mode'' (getk ''execution'' (Some c)) = getk ''mode'' (getk ''execution'' x)"
    using f [OF S(2), of "''source''"] f [OF S(4), of "''handling''"] f [OF S(4), of "''timing''"]
      f [OF S(5), of "''enabled''"] f [OF S(6), of "''mode''"]
    by (simp_all add: trigger_spec_def fees_spec_def safeguards_spec_def optional_limits_def execution_spec_def as_is_def)
  have "policy ''lower'' (getk ''lower'' (getk ''boundary'' x)) = Inr (getk ''lower'' (getk ''boundary'' (Some c)))"
    "policy ''upper'' (getk ''upper'' (getk ''boundary'' x)) = Inr (getk ''upper'' (getk ''boundary'' (Some c)))"
    by (rule nested_field [OF S(3)]; simp)+
  then have sides: "js_truthy (getk ''lower'' (getk ''boundary'' (Some c)))" "js_truthy (getk ''upper'' (getk ''boundary'' (Some c)))"
    unfolding policy_def by (blast dest: nested_truthy)+
  show ?thesis
    using assms(2) nested_truthy [OF S(2)] nested_truthy [OF S(3)] nested_truthy [OF S(4)] nested_truthy [OF S(5)]
      nested_truthy [OF S(6)] sides
    unfolding section_checks_def by (simp add: required_Inr kept)
qed

text \<open>What the validator answers, spelled out.\<close>

lemma parse_Inr:
  "parseStrategyConfig e x = Inr c \<longleftrightarrow>
    pre_checks e x = Inr () \<and>
    (\<exists>net. strategyChain (getk ''chainId'' x) = Some net \<and>
       read_object (config_spec e net (protocol_is ''univ4'' x) (getk ''quoteToken'' x)) x = Inr c \<and>
       post_checks net (Some c) = Inr ())"
  by (auto simp: parseStrategyConfig_def bindR_eq_Inr split: option.splits)

section \<open>A sample\<close>

definition sample_env :: js_env where
  "sample_env = \<lparr>je_isAddress = (\<lambda>s. size s = 42), je_getAddress = (\<lambda>s. s),
     je_hexSize = (\<lambda>s. if size s = 66 then Some 32 else None), je_ntext = (\<lambda>_. []), je_tonum = (\<lambda>_. None)\<rparr>"

definition sample_address :: "char \<Rightarrow> json" where
  "sample_address c = JStr (''0x'' @ replicate 40 c)"

definition sample_strategy :: json where
  "sample_strategy = JObj
    [(''version'', JNum 1), (''id'', JStr ''s1''), (''name'', JStr ''one''), (''preset'', JStr ''original''),
     (''sourcePreset'', JStr ''original''), (''enabled'', JBool True), (''chainId'', JNum 4663),
     (''owner'', sample_address (CHR ''a'')), (''protocol'', JStr ''univ3''), (''pool'', sample_address (CHR ''b'')),
     (''positionManager'', JStr (cn_V3_NPM robinhoodConfig)), (''activeTokenId'', JNull),
     (''riskToken'', sample_address (CHR ''c'')), (''quoteToken'', sample_address (CHR ''d'')),
     (''staking'', JObj [(''enabled'', JBool False)]),
     (''range'', JObj [(''mode'', JStr ''fixed_ticks''), (''lowerPct'', JNum 5), (''upperPct'', JNum 5),
        (''tickLower'', JNum (- 100)), (''tickUpper'', JNum 100)]),
     (''trigger'', JObj [(''source'', JStr ''spot''), (''pollSeconds'', JNum 4), (''confirmationSeconds'', JNum 0),
        (''cooldownMinutes'', JNum 0)]),
     (''boundary'', JObj [(''lower'', JObj [(''condition'', JStr ''always''), (''action'', JStr ''recenter'')]),
        (''upper'', JObj [(''condition'', JStr ''always''), (''action'', JStr ''recenter'')])]),
     (''fees'', JObj [(''handling'', JStr ''reinvest''), (''timing'', JStr ''on_rebalance'')]),
     (''capitalProtection'', JObj [(''enabled'', JBool True), (''profitThresholdUsdg'', JStr ''10'')]),
     (''adaptiveRange'', JObj [(''enabled'', JBool True), (''targetMinutes'', JNum 120), (''maxMultiplier'', JNum 4),
        (''recoveryDecay'', JNum (1 / 2)), (''contractionReviewMinutes'', JNum 360), (''contractionStabilityMinutes'', JNum 120),
        (''contractionMaxVolatilityBps'', JNum 250), (''contractionFeeCoverage'', JNum (5 / 4))]),
     (''safeguards'', JObj [(''enabled'', JBool False), (''maxSlippageBps'', JNum 100), (''maxPlanAgeSeconds'', JNum 30)]),
     (''execution'', JObj [(''mode'', JStr ''executor_auto''), (''walletId'', JStr ''w''), (''signerAddress'', sample_address (CHR ''a'')),
        (''dryRun'', JBool False), (''maxGasPriceWei'', JStr ''9''), (''maxDailyTurnoverQuote'', JStr ''500''),
        (''gasReserveMultiplier'', JNum (3 / 2)), (''lowTransactionMode'', JBool False)]),
     (''revision'', JNum 1), (''createdAt'', JNum 100), (''updatedAt'', JNum 100)]"

lemma sample_checksums: "checksums sample_env" "checksummed_constants sample_env"
  by (simp_all add: checksums_def checksummed_constants_def sample_env_def CHAINS_def bscConfig_def robinhoodConfig_def)

lemma sample_pre: "pre_checks sample_env (Some sample_strategy) = Inr ()"
  by code_simp

lemma sample_read: "read_object (config_spec sample_env robinhoodConfig False (Some (sample_address (CHR ''d'')))) (Some sample_strategy) = Inr sample_strategy"
  by code_simp

lemma sample_post: "post_checks robinhoodConfig (Some sample_strategy) = Inr ()"
  by code_simp

lemma sample_accepted: "parseStrategyConfig sample_env (Some sample_strategy) = Inr sample_strategy"
proof -
  have "strategyChain (getk ''chainId'' (Some sample_strategy)) = Some robinhoodConfig"
    "protocol_is ''univ4'' (Some sample_strategy) = False"
    "getk ''quoteToken'' (Some sample_strategy) = Some (sample_address (CHR ''d''))"
    by (simp_all add: sample_strategy_def getk_def protocol_is_def strategyChain_def CHAINS_def bscConfig_def robinhoodConfig_def)
  then show ?thesis unfolding parse_Inr using sample_pre sample_read sample_post by metis
qed


text \<open>
  C13. A validated strategy reloads as itself.  Whatever value is submitted, if the validator
  accepts it, then the object it answers, which is what is stored as JSON, is accepted again and
  answered unchanged, so every later read of the store sees the configuration that was saved.
\<close>

theorem parsed_config_reloads:
  assumes "checksums e" "checksummed_constants e" "parseStrategyConfig e x = Inr c"
  shows "parseStrategyConfig e (Some c) = Inr c"
proof -
  from assms(3) obtain net where pre: "pre_checks e x = Inr ()" and net: "strategyChain (getk ''chainId'' x) = Some net"
    and R: "read_object (config_spec e net (protocol_is ''univ4'' x) (getk ''quoteToken'' x)) x = Inr c"
    and post: "post_checks net (Some c) = Inr ()"
    by (auto simp: parse_Inr)
  have "pre_checks e (Some c) = Inr ()"
    using pre identity_checks_again [OF R] range_checks_again [OF config_section(1) [OF R]] section_checks_again [OF R]
    unfolding pre_checks_def in_order_Inr by simp
  moreover have "strategyChain (getk ''chainId'' (Some c)) = Some net" "protocol_is ''univ4'' (Some c) = protocol_is ''univ4'' x"
    using config_kept [OF R] net by (simp_all add: protocol_is_def)
  ultimately show ?thesis
    using post config_again [OF assms(1,2) net R] by (simp add: parse_Inr)
qed

lemma parsed_config_reloads_witness:
  "parseStrategyConfig sample_env (Some sample_strategy) = Inr sample_strategy"
  by (rule parsed_config_reloads [OF sample_checksums sample_accepted])

end
