(* ===== verification/SchemaTypes.thy ===== *)
theory SchemaTypes
  imports Schema
begin

text \<open>
  What an accepted strategy is: the type of \<open>StrategyConfig\<close> with the documented bounds, the
  invariants across its sections.
\<close>

section \<open>The type of a configuration\<close>

definition pct_type :: "rat \<Rightarrow> jtype" where "pct_type hi = TNum (fl (1 / 1000)) hi"

definition staking_type :: jtype where
  "staking_type = TRec [(''enabled'', TBool), (''gauge'', TOpt TAddr), (''rewardToken'', TOpt TAddr),
     (''rewardQuoteToken'', TOpt TAddr), (''rewardHandling'', TOpt TAny)]"

definition range_type :: jtype where
  "range_type = TRec [(''mode'', TOneOf range_modes), (''lowerPct'', pct_type 99), (''upperPct'', pct_type 500),
     (''tickLower'', TOpt TAny), (''tickUpper'', TOpt TAny),
     (''defensiveLowerPct'', TOpt (pct_type 99)), (''defensiveUpperPct'', TOpt (pct_type 500))]"

definition trigger_type :: jtype where
  "trigger_type = TRec [(''source'', TOneOf sources), (''pollSeconds'', TNum 1 60), (''confirmationSeconds'', TNum 0 3600),
     (''cooldownMinutes'', TNum 0 1440)]"

definition policy_type :: jtype where
  "policy_type = TRec [(''condition'', TOneOf conditions), (''action'', TOneOf actions)]"

definition fees_type :: jtype where
  "fees_type = TRec [(''handling'', TOneOf handlings), (''timing'', TOneOf timings),
     (''thresholdQuote'', TOpt (TDecimal False)), (''intervalMinutes'', TOpt (TNum 1 10080))]"

definition capital_type :: jtype where
  "capital_type = TRec [(''enabled'', TBool), (''profitThresholdUsdg'', TDecimal False)]"

definition adaptive_type :: jtype where
  "adaptive_type = TRec [(''enabled'', TBool), (''targetMinutes'', TNum 1 10080), (''maxMultiplier'', TNum 1 20),
     (''recoveryDecay'', TNum 0 1), (''contractionReviewMinutes'', TNum 1 10080),
     (''contractionStabilityMinutes'', TNum 1 1440), (''contractionMaxVolatilityBps'', TNum 1 10000),
     (''contractionFeeCoverage'', TNum 1 10)]"

definition safeguards_type :: jtype where
  "safeguards_type = TRec ((''enabled'', TBool) # map (\<lambda>(k, lo, hi). (k, TOpt (TNum lo hi))) optional_limits @
     [(''maxSlippageBps'', TNum 0 1000), (''maxPlanAgeSeconds'', TNum 1 300)])"

definition execution_type :: jtype where
  "execution_type = TRec [(''mode'', TOneOf modes), (''executorId'', TOpt TStr), (''walletId'', TOpt TStr),
     (''signerAddress'', TOpt TAddr), (''dryRun'', TBool), (''maxGasPriceWei'', TOpt (TDecimal True)),
     (''maxGasQuotePerTx'', TOpt (TDecimal False)), (''maxDailyTurnoverQuote'', TOpt (TDecimal False)),
     (''gasReserveMultiplier'', TNum 1 10), (''lowTransactionMode'', TBool)]"

definition strategy_type :: "(string \<times> jtype) list" where
  "strategy_type =
    [(''version'', TConst (JNum 1)), (''id'', TStr), (''name'', TStr), (''preset'', TOneOf presetValues),
     (''sourcePreset'', TOneOf presetValues), (''enabled'', TBool), (''chainId'', TNumIn [56, 4663]), (''owner'', TAddr),
     (''protocol'', TOneOf protocols), (''pool'', TAddr), (''poolId'', TOpt TStr), (''hooks'', TOpt TAddr),
     (''positionManager'', TAddr), (''activeTokenId'', TNull TStr), (''riskToken'', TAddr), (''quoteToken'', TAddr),
     (''staking'', staking_type), (''range'', range_type), (''trigger'', trigger_type),
     (''boundary'', TRec [(''lower'', policy_type), (''upper'', policy_type)]), (''fees'', fees_type),
     (''capitalProtection'', capital_type), (''adaptiveRange'', adaptive_type), (''safeguards'', safeguards_type),
     (''execution'', execution_type), (''revision'', TNum 1 MAX_SAFE_NUMBER), (''createdAt'', TNum 0 MAX_SAFE_NUMBER),
     (''updatedAt'', TNum 0 MAX_SAFE_NUMBER)]"

lemma yields_opt_address: "checksums e \<Longrightarrow> yields e (TOpt TAddr) (address e name v)"
  using yields_address [of e name v] by (simp add: yields_def)

lemma yields_small [yield_rules]:
  "yields e TBool (on_unless_false v)" "yields e TBool (is_true v)" "yields e TStr (trimmed v)" "yields e (TNull TStr) (token_id e v)"
  by (auto simp: yields_def on_unless_false_def is_true_def is_bool_def trimmed_def token_id_def split: option.splits json.splits)

lemma yields_signer [yield_rules]: "checksums e \<Longrightarrow> yields e (TOpt TAddr) (signer_of e v)"
  using yields_address [of e "''signerAddress''" v] by (auto simp: yields_def signer_of_def)

lemma yields_hooks [yield_rules]: "checksums e \<Longrightarrow> yields e (TOpt TAddr) (only_if b (hooks_of e) v)"
  using yields_address [of e "''hooks''" "if nullish v then Some (JStr zero_address) else v"]
  by (auto simp: yields_def only_if_def hooks_of_def simp del: has_type.simps) (simp_all)

lemma yields_policy [yield_rules]: "yields e policy_type (policy side v)"
  unfolding policy_type_def policy_def by (rule yields_nested) (simp add: typed_spec_def yield_rules)

lemma yields_sections [yield_rules]:
  "yields e capital_type (nested capital_spec v)" "yields e adaptive_type (nested (adaptive_spec e) v)"
  "yields e (TRec [(''lower'', policy_type), (''upper'', policy_type)]) (nested [(''lower'', policy ''lower''), (''upper'', policy ''upper'')] v)"
  unfolding capital_type_def adaptive_type_def
  by (rule yields_nested;
      simp add: typed_spec_def capital_spec_def adaptive_spec_def adaptive_field_def yield_rules decimal_text_def digits_def)+

lemma yields_range [yield_rules]:
  "one_of range_modes (getk ''mode'' v) \<Longrightarrow> yields e range_type (nested (range_spec e) v)"
  unfolding range_type_def pct_type_def by (rule yields_nested) (auto simp: typed_spec_def range_spec_def yield_rules)

lemma yields_trigger [yield_rules]:
  "one_of sources (getk ''source'' v) \<Longrightarrow> yields e trigger_type (nested (trigger_spec e) v)"
  unfolding trigger_type_def by (rule yields_nested) (simp add: typed_spec_def trigger_spec_def yield_rules)

lemma yields_fees [yield_rules]:
  "one_of handlings (getk ''handling'' v) \<Longrightarrow> one_of timings (getk ''timing'' v) \<Longrightarrow> yields e fees_type (nested (fees_spec e) v)"
  unfolding fees_type_def by (rule yields_nested) (simp add: typed_spec_def fees_spec_def yield_rules)

lemma yields_safeguards [yield_rules]:
  "is_bool (getk ''enabled'' v) \<Longrightarrow> yields e safeguards_type (nested (safeguards_spec e) v)"
  unfolding safeguards_type_def
  by (rule yields_nested) (simp add: typed_spec_def safeguards_spec_def optional_limits_def yield_rules)

lemma yields_execution [yield_rules]:
  "checksums e \<Longrightarrow> one_of modes (getk ''mode'' v) \<Longrightarrow> yields e execution_type (nested (execution_spec e) v)"
  unfolding execution_type_def by (rule yields_nested) (simp add: typed_spec_def execution_spec_def yield_rules)

lemma has_type_decided:
  "is_bool v \<Longrightarrow> has_type e TBool v" "one_of names v \<Longrightarrow> has_type e (TOneOf names) v" "is_text v \<Longrightarrow> has_type e TStr v"
  by (simp_all add: is_text_def split: option.splits json.splits)

lemma yields_staking:
  assumes "checksums e" "checksummed_constants e" "strategyChain x = Some net"
  shows "yields e staking_type (staking_of e net q v)"
proof (cases "js_truthy (getk ''enabled'' v)")
  case True
  have token: "yields e (TOpt TAddr) (reward_token e net u)" for u
    using known_up [OF assms(2,3)] yields_opt_address [OF assms(1), of "''staking.rewardToken''" u]
    by (auto simp: reward_token_def yields_def split: option.splits)
  have quote: "yields e (TOpt TAddr) (reward_quote e q u)" for u
    using yields_opt_address [OF assms(1)] by (simp add: reward_quote_def split: option.splits)
  have "typed_spec e v (staking_spec e net q)
      [(''enabled'', TBool), (''gauge'', TOpt TAddr), (''rewardToken'', TOpt TAddr), (''rewardQuoteToken'', TOpt TAddr),
       (''rewardHandling'', TOpt TAny)]"
    using yields_opt_address [OF assms(1)] token quote
    by (simp add: typed_spec_def staking_spec_def) (simp add: yields_def fixed_value_def is_bool_def reward_handling_def)
  then show ?thesis using True by (simp add: staking_of_def staking_type_def yields_nested del: has_type.simps)
next
  case False
  have "has_type e staking_type w" if r: "nested [(''enabled'', fixed_value (JBool False))] v = Inr w" for w
  proof -
    obtain c where c: "read_object [(''enabled'', fixed_value (JBool False))] v = Inr c" "w = Some c"
      using r by (auto simp: nested_def bindR_eq_Inr)
    then show ?thesis
      by (auto simp: read_object_def literal_def fixed_value_def obj_def List.map_filter_simps staking_type_def is_bool_def)
  qed
  then show ?thesis using False by (simp add: staking_of_def yields_def del: has_type.simps)
qed

lemma strategyChain_id: "strategyChain v = Some net \<Longrightarrow> has_type e (TNumIn [56, 4663]) v"
  by (auto simp: strategyChain_def CHAINS_def bscConfig_def robinhoodConfig_def split: option.splits json.splits if_splits)

text \<open>The facts the checks before the object establish.\<close>

lemma pre_facts:
  assumes "pre_checks e x = Inr ()"
  shows "is_text (getk ''id'' x)" "one_of presetValues (getk ''preset'' x)" "one_of presetValues (getk ''sourcePreset'' x)"
    "one_of protocols (getk ''protocol'' x)" "is_bool (getk ''enabled'' x)"
    "protocol_is ''univ4'' x \<Longrightarrow> is_text (getk ''poolId'' x)"
    "one_of range_modes (getk ''mode'' (getk ''range'' x))" "one_of sources (getk ''source'' (getk ''trigger'' x))"
    "one_of handlings (getk ''handling'' (getk ''fees'' x))" "one_of timings (getk ''timing'' (getk ''fees'' x))"
    "is_bool (getk ''enabled'' (getk ''safeguards'' x))" "one_of modes (getk ''mode'' (getk ''execution'' x))"
  using assms
  unfolding pre_checks_def in_order_Inr identity_checks_def range_checks_def section_checks_def append.simps
    list.pred_inject required_Inr by blast+

text \<open>
  C5. The validator is sound for the declared type.  Whatever value is submitted, an accepted
  configuration has every field of a strategy and no other, each of its declared type and
  within its bounds: enumerations from their lists, checksummed addresses, positive decimal texts,
  numbers between the documented limits, optional ones absent or so.  (The explicit ticks and the
  reward handling are the fields the type leaves open: they are passed through as they came.)
\<close>

theorem parsed_config_typed:
  assumes "checksums e" "checksummed_constants e" "parseStrategyConfig e x = Inr c"
  shows "has_type e (TRec strategy_type) (Some c)"
proof -
  from assms(3) obtain net where pre: "pre_checks e x = Inr ()" and net: "strategyChain (getk ''chainId'' x) = Some net"
    and R: "read_object (config_spec e net (protocol_is ''univ4'' x) (getk ''quoteToken'' x)) x = Inr c"
    by (auto simp: parse_Inr)
  have pool: "yields e (TOpt TStr) (only_if (protocol_is ''univ4'' x) as_is (getk ''poolId'' x))"
    using has_type_decided(3) [OF pre_facts(6) [OF pre]] by (simp add: only_if_def yields_def as_is_def)
  show ?thesis
    using yields_staking [OF assms(1,2) net] strategyChain_id [OF net]
    by (intro read_object_type [OF R])
      (simp add: typed_spec_def config_distinct, simp add: config_spec_def strategy_type_def yield_rules assms(1) pool
        pre_facts [OF pre] is_text_def [symmetric])
qed

lemma parsed_config_typed_witness: "has_type sample_env (TRec strategy_type) (Some sample_strategy)"
  by (rule parsed_config_typed [OF sample_checksums sample_accepted])

section \<open>What every accepted strategy guarantees\<close>

lemma js_ge_numbers: "js_ge e (JNum a) (JNum b) \<longleftrightarrow> b \<le> a"
  by (simp add: js_ge_def js_number_def)

lemma range_facts:
  assumes "list_all (\<lambda>m. m = Inr ()) (range_checks e r)" "getk ''mode'' r = Some (JStr ''fixed_ticks'')"
  shows "\<exists>a b :: int. getk ''tickLower'' r = Some (JNum (of_int a)) \<and> getk ''tickUpper'' r = Some (JNum (of_int b)) \<and> a < b"
proof -
  have "is_int_number (getk ''tickLower'' r)" "is_int_number (getk ''tickUpper'' r)"
    and ge: "\<not> (case (getk ''tickLower'' r, getk ''tickUpper'' r) of (Some a, Some b) \<Rightarrow> js_ge e a b | _ \<Rightarrow> False)"
    using assms unfolding range_checks_def list.pred_inject required_Inr by blast+
  then obtain p q where pq: "getk ''tickLower'' r = Some (JNum p)" "getk ''tickUpper'' r = Some (JNum q)"
      "of_int \<lfloor>p\<rfloor> = p" "of_int \<lfloor>q\<rfloor> = q"
    by (auto simp: is_int_number_def is_integer_def split: option.splits json.splits)
  then have "p < q" using ge by (simp add: js_ge_numbers)
  then have "\<lfloor>p\<rfloor> < \<lfloor>q\<rfloor>" using pq(3,4) by (metis of_int_less_iff)
  then show ?thesis using pq by metis
qed

lemma post_facts:
  assumes "post_checks net c = Inr ()"
  shows "\<not> same_lower (getk ''riskToken'' c) (getk ''quoteToken'' c)"
    and "\<exists>pm. positionManagerFor net (text_of (getk ''protocol'' c)) = Inr pm \<and> same_lower (getk ''positionManager'' c) (Some (JStr pm))"
    and "auto_mode c \<Longrightarrow> js_truthy (getk ''walletId'' (getk ''execution'' c)) \<and>
           same_lower (getk ''signerAddress'' (getk ''execution'' c)) (getk ''owner'' c)"
    and "live c \<Longrightarrow> js_truthy (getk ''maxDailyTurnoverQuote'' (getk ''execution'' c))"
    and "live c \<Longrightarrow> js_truthy (getk ''maxGasPriceWei'' (getk ''execution'' c)) \<or> js_truthy (getk ''maxGasQuotePerTx'' (getk ''execution'' c))"
    and "js_truthy (getk ''enabled'' (getk ''staking'' c)) \<Longrightarrow> protocol_is ''up33'' c \<and> js_truthy (getk ''gauge'' (getk ''staking'' c)) \<and>
           getk ''rewardHandling'' (getk ''staking'' c) = Some (JStr ''convert_to_quote_hold'')"
  using assms
  unfolding post_checks_def Let_def in_order_Inr staking_checks_def list_all_append list.pred_inject required_Inr bindR_eq_Inr
  by (auto simp: required_def split: if_splits)

text \<open>
  C6. What an accepted strategy guarantees before anything runs on it.  Its two tokens differ; its
  position manager is the canonical deployment of its protocol on its chain; fixed ticks are integers in
  order; an automatic strategy names a wallet and a signer that is the owner; one that is also
  enabled and not a dry run has a daily turnover limit and a gas cap; and staking, when on, is
  UP33 with a gauge and rewards converted to the quote token.
\<close>

theorem accepted_strategy_guarded:
  assumes "parseStrategyConfig e x = Inr c"
  defines "ex \<equiv> getk ''execution'' (Some c)" and "rg \<equiv> getk ''range'' (Some c)" and "st \<equiv> getk ''staking'' (Some c)"
  shows "\<not> same_lower (getk ''riskToken'' (Some c)) (getk ''quoteToken'' (Some c)) \<and>
    (\<exists>net pm. strategyChain (getk ''chainId'' (Some c)) = Some net \<and>
       positionManagerFor net (text_of (getk ''protocol'' (Some c))) = Inr pm \<and>
       same_lower (getk ''positionManager'' (Some c)) (Some (JStr pm))) \<and>
    (getk ''mode'' rg = Some (JStr ''fixed_ticks'') \<longrightarrow>
       (\<exists>a b :: int. getk ''tickLower'' rg = Some (JNum (of_int a)) \<and> getk ''tickUpper'' rg = Some (JNum (of_int b)) \<and> a < b)) \<and>
    (auto_mode (Some c) \<longrightarrow> js_truthy (getk ''walletId'' ex) \<and> same_lower (getk ''signerAddress'' ex) (getk ''owner'' (Some c))) \<and>
    (live (Some c) \<longrightarrow> js_truthy (getk ''maxDailyTurnoverQuote'' ex) \<and>
       (js_truthy (getk ''maxGasPriceWei'' ex) \<or> js_truthy (getk ''maxGasQuotePerTx'' ex))) \<and>
    (js_truthy (getk ''enabled'' st) \<longrightarrow> protocol_is ''up33'' (Some c) \<and> js_truthy (getk ''gauge'' st) \<and>
       getk ''rewardHandling'' st = Some (JStr ''convert_to_quote_hold''))"
proof -
  from assms(1) obtain net where pre: "pre_checks e x = Inr ()" and net: "strategyChain (getk ''chainId'' x) = Some net"
    and R: "read_object (config_spec e net (protocol_is ''univ4'' x) (getk ''quoteToken'' x)) x = Inr c"
    and post: "post_checks net (Some c) = Inr ()"
    by (auto simp: parse_Inr)
  have "list_all (\<lambda>m. m = Inr ()) (range_checks e (getk ''range'' x))"
    using pre unfolding pre_checks_def in_order_Inr list_all_append by blast
  from range_facts [OF range_checks_again [OF config_section(1) [OF R] this]]
  have "getk ''mode'' rg = Some (JStr ''fixed_ticks'') \<Longrightarrow>
      \<exists>a b :: int. getk ''tickLower'' rg = Some (JNum (of_int a)) \<and> getk ''tickUpper'' rg = Some (JNum (of_int b)) \<and> a < b"
    unfolding rg_def .
  moreover have "strategyChain (getk ''chainId'' (Some c)) = Some net" using config_kept [OF R] net by simp
  ultimately show ?thesis using post_facts [OF post] unfolding ex_def st_def by blast
qed

lemma accepted_strategy_guarded_witness:
  "(\<exists>a b :: int. getk ''tickLower'' (getk ''range'' (Some sample_strategy)) = Some (JNum (of_int a)) \<and>
      getk ''tickUpper'' (getk ''range'' (Some sample_strategy)) = Some (JNum (of_int b)) \<and> a < b) \<and>
   js_truthy (getk ''maxDailyTurnoverQuote'' (getk ''execution'' (Some sample_strategy))) \<and>
   same_lower (getk ''signerAddress'' (getk ''execution'' (Some sample_strategy))) (getk ''owner'' (Some sample_strategy))"
proof -
  have "getk ''mode'' (getk ''range'' (Some sample_strategy)) = Some (JStr ''fixed_ticks'')"
    "auto_mode (Some sample_strategy)" "live (Some sample_strategy)"
    by (simp_all add: sample_strategy_def getk_def auto_mode_def live_def js_truthy_def)
  then show ?thesis using accepted_strategy_guarded [OF sample_accepted] by blast
qed

end
