(* ===== verification/StrategyDraft.thy ===== *)
theory StrategyDraft
  imports SchemaTypes JsRounding
begin

text \<open>
  What the quick flow of \<open>shared/strategy/schema.ts\<close> proposes: the original draft of five per cent either side and the
  safeguards scaled to its band.  Both are accepted by the validator, the draft unchanged.
\<close>

section \<open>The draft\<close>

record draft_args =
  da_chainId :: "int option"
  da_owner :: string
  da_protocol :: string
  da_pool :: string
  da_poolId :: "string option"
  da_hooks :: "string option"
  da_positionManager :: string
  da_activeTokenId :: "string option"
  da_riskToken :: string
  da_quoteToken :: string
  da_name :: "string option"
  da_staking :: "(bool \<times> string option) option"

text \<open>viem's \<open>getAddress\<close> throws on a text that is not an address.\<close>

definition getAddress_of :: "js_env \<Rightarrow> string \<Rightarrow> json option res" where
  "getAddress_of e s = (if je_isAddress e s then Inr (Some (JStr (je_getAddress e s))) else Inl (JsError ''InvalidAddressError''))"

definition value_of :: "json \<Rightarrow> json option res" where "value_of j = Inr (Some j)"

definition default_name :: string where "default_name = ''Original '' @ char_of (177 :: nat) # ''5%''"

definition draft_staking :: "js_env \<Rightarrow> chain_net \<Rightarrow> draft_args \<Rightarrow> json res" where
  "draft_staking e net a =
     (case (cn_UP net, da_staking a) of
        (Some up, Some (True, gauge)) \<Rightarrow> literal
          [(''enabled'', value_of (JBool True)),
           (''gauge'', case gauge of None \<Rightarrow> Inr None | Some g \<Rightarrow> getAddress_of e g),
           (''rewardToken'', value_of (JStr up)),
           (''rewardQuoteToken'', getAddress_of e (da_quoteToken a)),
           (''rewardHandling'', value_of (JStr ''convert_to_quote_hold''))]
      | _ \<Rightarrow> Inr (obj [(''enabled'', Some (JBool False))]))"

definition draft_fixed :: "(string \<times> json) list" where
  "draft_fixed =
    [(''range'', JObj [(''mode'', JStr ''symmetric''), (''lowerPct'', JNum 5), (''upperPct'', JNum 5)]),
     (''trigger'', JObj [(''source'', JStr ''spot''), (''pollSeconds'', JNum 4), (''confirmationSeconds'', JNum 0),
        (''cooldownMinutes'', JNum 0)]),
     (''boundary'', JObj [(''lower'', JObj [(''condition'', JStr ''always''), (''action'', JStr ''recenter'')]),
        (''upper'', JObj [(''condition'', JStr ''always''), (''action'', JStr ''recenter'')])]),
     (''fees'', JObj [(''handling'', JStr ''convert_to_quote''), (''timing'', JStr ''on_rebalance'')]),
     (''capitalProtection'', JObj [(''enabled'', JBool True), (''profitThresholdUsdg'', JStr ''10'')]),
     (''adaptiveRange'', JObj [(''enabled'', JBool True), (''targetMinutes'', JNum 120), (''maxMultiplier'', JNum 4),
        (''recoveryDecay'', JNum (1 / 2)), (''contractionReviewMinutes'', JNum 360), (''contractionStabilityMinutes'', JNum 120),
        (''contractionMaxVolatilityBps'', JNum 250), (''contractionFeeCoverage'', JNum (5 / 4))]),
     (''safeguards'', JObj [(''enabled'', JBool False), (''maxSlippageBps'', JNum 100), (''maxPlanAgeSeconds'', JNum 30)]),
     (''execution'', JObj [(''mode'', JStr ''notify_only''), (''dryRun'', JBool False), (''gasReserveMultiplier'', JNum (3 / 2)),
        (''lowTransactionMode'', JBool False)])]"

definition draft_entries :: "js_env \<Rightarrow> chain_net \<Rightarrow> int \<Rightarrow> string \<Rightarrow> int \<Rightarrow> draft_args \<Rightarrow> (string \<times> json option res) list" where
  "draft_entries e net cid uuid ts a =
    [(''version'', value_of (JNum 1)),
     (''id'', value_of (JStr (''strategy-'' @ uuid))),
     (''name'', value_of (JStr (case da_name a of Some n \<Rightarrow> n | None \<Rightarrow> default_name))),
     (''preset'', value_of (JStr ''original'')),
     (''sourcePreset'', value_of (JStr ''original'')),
     (''enabled'', value_of (JBool False)),
     (''chainId'', value_of (JNum (of_int cid))),
     (''owner'', getAddress_of e (da_owner a)),
     (''protocol'', value_of (JStr (da_protocol a))),
     (''pool'', getAddress_of e (da_pool a)),
     (''poolId'', Inr (map_option JStr (da_poolId a))),
     (''hooks'', if da_protocol a = ''univ4''
                 then getAddress_of e (case da_hooks a of Some h \<Rightarrow> h | None \<Rightarrow> zero_address) else Inr None),
     (''positionManager'', getAddress_of e (da_positionManager a)),
     (''activeTokenId'', value_of (case da_activeTokenId a of Some i \<Rightarrow> JStr i | None \<Rightarrow> JNull)),
     (''riskToken'', getAddress_of e (da_riskToken a)),
     (''quoteToken'', getAddress_of e (da_quoteToken a)),
     (''staking'', bindR (draft_staking e net a) (\<lambda>s. Inr (Some s)))] @
    map (\<lambda>(k, j). (k, value_of j)) draft_fixed @
    [(''revision'', value_of (JNum 1)), (''createdAt'', value_of (JNum (of_int ts))), (''updatedAt'', value_of (JNum (of_int ts)))]"

definition originalStrategyDraft :: "js_env \<Rightarrow> int \<Rightarrow> string \<Rightarrow> int \<Rightarrow> draft_args \<Rightarrow> json res" where
  "originalStrategyDraft e CHAIN_ID uuid ts a =
     (let cid = (case da_chainId a of Some i \<Rightarrow> i | None \<Rightarrow> CHAIN_ID) in
      case strategyChain (Some (JNum (of_int cid))) of
        None \<Rightarrow> Inl (JsError (''unsupported strategy chain '' @ big_to_string cid))
      | Some net \<Rightarrow> literal (draft_entries e net cid uuid ts a))"

section \<open>Recommended safeguards\<close>

definition recommendedSafeguards :: "rat option \<Rightarrow> json" where
  "recommendedSafeguards bandPct =
     (let band = min (max (case bandPct of Some b \<Rightarrow> b | None \<Rightarrow> 5) (fl (1 / 1000))) 99;
          bandBps = math_round (nmul band 100)
      in obj [(''enabled'', Some (JBool True)),
        (''minCrossingMinutes'', Some (JNum 5)),
        (''maxRebalancesPerDay'', Some (JNum (of_int (min 12 (max 4 (math_round (nmul band (fl (16 / 10))))))))),
        (''maxConsecutiveLowerBreaks'', Some (JNum 4)),
        (''lowerBreakWindowMinutes'', Some (JNum 1440)),
        (''maxRiskAssetPct'', Some (JNum 60)),
        (''maxSwapImpactBps'', Some (JNum 150)),
        (''volatilityWindowSeconds'', Some (JNum 300)),
        (''maxVolatilityBps'', Some (JNum (of_int (min 10000 (max 1 (math_round (nmul (of_int bandBps) 2))))))),
        (''maxSpotTwapDeviationBps'', Some (JNum (of_int (min 10000 (max 100 (math_round (nmul (of_int bandBps) (fl (6 / 10))))))))),
        (''stableMarketSeconds'', Some (JNum 600)),
        (''burstWindowMinutes'', Some (JNum 60)),
        (''burstTriggerCount'', Some (JNum 3)),
        (''burstCooldownMinutes'', Some (JNum 60)),
        (''maxSlippageBps'', Some (JNum 100)),
        (''maxPlanAgeSeconds'', Some (JNum 30))])"

section \<open>The draft is accepted unchanged\<close>

lemma literal_field:
  assumes "literal fs = Inr c" "distinct (map fst fs)" "(k, m) \<in> set fs"
  shows "m = Inr (getk k (Some c))"
proof -
  have "read_object (map (\<lambda>(k, m). (k, \<lambda>_. m)) fs) None = Inr c"
    using assms(1) by (simp add: read_object_def comp_def case_prod_unfold)
  from read_object_fields [OF this, of k "\<lambda>_. m"] show ?thesis
    using assms(2,3) by (force simp: comp_def case_prod_unfold)
qed

lemma literal_read:
  assumes "literal fs = Inr c" "distinct (map fst fs)" "map fst spec = map fst fs"
    and "list_all (\<lambda>(k, f). f (getk k (Some c)) = Inr (getk k (Some c))) spec"
  shows "read_object spec (Some c) = Inr c"
proof -
  let ?s = "map (\<lambda>(k, m). (k, \<lambda>_. m)) fs"
  have r: "read_object ?s None = Inr c"
    using assms(1) by (simp add: read_object_def comp_def case_prod_unfold)
  have keys: "map fst ?s = map fst fs" by (simp add: comp_def case_prod_unfold)
  have d: "distinct (map fst ?s)" using assms(2) unfolding keys .
  show ?thesis
  proof (rule read_object_again [OF r d])
    show "map fst spec = map fst ?s" using assms(3) by (simp only: keys)
    fix k f f' w assume "(k, f) \<in> set ?s" "(k, f') \<in> set spec" "f (getk k None) = Inr w"
    then show "f' w = Inr w"
      using read_object_fields [OF r d, of k f] assms(4) by (auto simp: list_all_iff)
  qed
qed

lemma draft_distinct: "distinct (map fst (draft_entries e net i uuid ts a))"
  by (simp add: draft_entries_def draft_fixed_def)

lemma draft_keys: "map fst (config_spec e net b q) = map fst (draft_entries e' net' i uuid ts a)"
  by (simp add: draft_entries_def draft_fixed_def config_spec_def)

lemma draft_field:
  "literal (draft_entries e net i uuid ts a) = Inr c \<Longrightarrow> (k, m) \<in> set (draft_entries e net i uuid ts a) \<Longrightarrow>
   m = Inr (getk k (Some c))"
  by (rule literal_field [OF _ draft_distinct])

lemma draft_fixed_field:
  "literal (draft_entries e net i uuid ts a) = Inr c \<Longrightarrow> (k, j) \<in> set draft_fixed \<Longrightarrow> getk k (Some c) = Some j"
proof -
  assume l: "literal (draft_entries e net i uuid ts a) = Inr c" and j: "(k, j) \<in> set draft_fixed"
  have "(k, value_of j) \<in> set (map (\<lambda>(k, j). (k, value_of j)) draft_fixed)" using j by (auto intro: rev_image_eqI)
  then have "(k, value_of j) \<in> set (draft_entries e net i uuid ts a)"
    unfolding draft_entries_def set_append by blast
  from draft_field [OF l this] show "getk k (Some c) = Some j" by (simp add: value_of_def)
qed

lemma draft_value:
  "literal (draft_entries e net i uuid ts a) = Inr c \<Longrightarrow> (k, value_of j) \<in> set (draft_entries e net i uuid ts a) \<Longrightarrow>
   getk k (Some c) = Some j"
  using draft_field [of e net i uuid ts a c k "value_of j"] by (simp add: value_of_def)

lemma draft_plain:
  assumes "literal (draft_entries e net i uuid ts a) = Inr c"
  shows "getk ''version'' (Some c) = Some (JNum 1)" "getk ''id'' (Some c) = Some (JStr (''strategy-'' @ uuid))"
    "getk ''name'' (Some c) = Some (JStr (case da_name a of Some n \<Rightarrow> n | None \<Rightarrow> default_name))"
    "getk ''preset'' (Some c) = Some (JStr ''original'')" "getk ''sourcePreset'' (Some c) = Some (JStr ''original'')"
    "getk ''enabled'' (Some c) = Some (JBool False)" "getk ''chainId'' (Some c) = Some (JNum (of_int i))"
    "getk ''protocol'' (Some c) = Some (JStr (da_protocol a))"
    "getk ''activeTokenId'' (Some c) = Some (case da_activeTokenId a of Some i \<Rightarrow> JStr i | None \<Rightarrow> JNull)"
    "getk ''revision'' (Some c) = Some (JNum 1)" "getk ''createdAt'' (Some c) = Some (JNum (of_int ts))"
    "getk ''updatedAt'' (Some c) = Some (JNum (of_int ts))"
  by (rule draft_value [OF assms]; simp add: draft_entries_def)+

lemma draft_poolId:
  "literal (draft_entries e net i uuid ts a) = Inr c \<Longrightarrow> getk ''poolId'' (Some c) = map_option JStr (da_poolId a)"
  using draft_field [of e net i uuid ts a c "''poolId''" "Inr (map_option JStr (da_poolId a))"] by (simp add: draft_entries_def)

lemma draft_addresses:
  assumes "literal (draft_entries e net i uuid ts a) = Inr c"
  shows "getAddress_of e (da_owner a) = Inr (getk ''owner'' (Some c))"
    "getAddress_of e (da_pool a) = Inr (getk ''pool'' (Some c))"
    "(if da_protocol a = ''univ4'' then getAddress_of e (case da_hooks a of Some h \<Rightarrow> h | None \<Rightarrow> zero_address) else Inr None)
       = Inr (getk ''hooks'' (Some c))"
    "getAddress_of e (da_positionManager a) = Inr (getk ''positionManager'' (Some c))"
    "getAddress_of e (da_riskToken a) = Inr (getk ''riskToken'' (Some c))"
    "getAddress_of e (da_quoteToken a) = Inr (getk ''quoteToken'' (Some c))"
    "bindR (draft_staking e net a) (\<lambda>s. Inr (Some s)) = Inr (getk ''staking'' (Some c))"
  by (rule draft_field [OF assms]; simp add: draft_entries_def)+

lemma draft_sections:
  assumes "literal (draft_entries e net i uuid ts a) = Inr c"
  shows "list_all (\<lambda>(k, j). getk k (Some c) = Some j) draft_fixed"
  using draft_fixed_field [OF assms] by (auto simp: list_all_iff)


definition draft_ready :: "js_env \<Rightarrow> chain_net \<Rightarrow> int \<Rightarrow> draft_args \<Rightarrow> bool" where
  "draft_ready e net ts a \<longleftrightarrow>
     (case da_name a of Some n \<Rightarrow> n \<noteq> [] \<and> js_trim n = n | None \<Rightarrow> True) \<and>
     (case positionManagerFor net (da_protocol a) of Inr pm \<Rightarrow> toLower (da_positionManager a) = toLower pm | Inl _ \<Rightarrow> False) \<and>
     toLower (da_riskToken a) \<noteq> toLower (da_quoteToken a) \<and>
     (if da_protocol a = ''univ4'' then (case da_poolId a of Some p \<Rightarrow> je_hexSize e p = Some 32 | None \<Rightarrow> False) else da_poolId a = None) \<and>
     (case (cn_UP net, da_staking a) of (Some _, Some (True, g)) \<Rightarrow> g \<noteq> None \<and> g \<noteq> Some [] \<and> da_protocol a = ''up33'' | _ \<Rightarrow> True) \<and>
     0 \<le> ts \<and> ts \<le> 9007199254740991"

lemma manager_protocol:
  assumes "positionManagerFor net p = Inr pm"
  shows "p \<in> set protocols" "p = ''pancakeswap-v3'' \<Longrightarrow> cn_key net = ''bsc''" "p = ''up33'' \<Longrightarrow> cn_key net = ''robinhood''"
    "p = ''univ4'' \<Longrightarrow> cn_V4_PM net \<noteq> None"
  using assms by (auto simp: positionManagerFor_def v3PositionManager_def protocols_def split: if_splits option.splits)

lemma band_default: "fl (1 / 1000) \<le> 5"
  using fl_mono [of "1 / 1000" 5] fl_int [of 5] by simp

lemma section_reads:
  "nested (range_spec e) (map_of draft_fixed ''range'') = Inr (map_of draft_fixed ''range'')"
  "nested (trigger_spec e) (map_of draft_fixed ''trigger'') = Inr (map_of draft_fixed ''trigger'')"
  "nested [(''lower'', policy ''lower''), (''upper'', policy ''upper'')] (map_of draft_fixed ''boundary'') = Inr (map_of draft_fixed ''boundary'')"
  "nested (fees_spec e) (map_of draft_fixed ''fees'') = Inr (map_of draft_fixed ''fees'')"
  "nested capital_spec (map_of draft_fixed ''capitalProtection'') = Inr (map_of draft_fixed ''capitalProtection'')"
  "nested (adaptive_spec e) (map_of draft_fixed ''adaptiveRange'') = Inr (map_of draft_fixed ''adaptiveRange'')"
  "nested (safeguards_spec e) (map_of draft_fixed ''safeguards'') = Inr (map_of draft_fixed ''safeguards'')"
  "nested (execution_spec e) (map_of draft_fixed ''execution'') = Inr (map_of draft_fixed ''execution'')"
  using band_default
  by (simp_all add: draft_fixed_def nested_def read_object_def literal_def obj_def List.map_filter_simps getk_def as_is_def
      range_spec_def finite_in_def Let_def optional_finite_def nullish_def trigger_spec_def policy_def name_in_def one_of_def
      conditions_def actions_def fees_spec_def optional_decimal_def capital_spec_def on_unless_false_def with_default_def
      decimal_text_def digits_def adaptive_spec_def adaptive_field_def safeguards_spec_def optional_limits_def
      execution_spec_def optional_text_def signer_of_def check_def is_bool_def is_true_def)

lemma draft_section_of:
  "literal (draft_entries e net i uuid ts a) = Inr c \<Longrightarrow> k \<in> fst ` set draft_fixed \<Longrightarrow> getk k (Some c) = map_of draft_fixed k"
  by (frule draft_fixed_field [of e net i uuid ts a c k "the (map_of draft_fixed k)"])
    (auto simp: draft_fixed_def)

lemma draft_section_values:
  assumes "literal (draft_entries e net i uuid ts a) = Inr c"
  shows "getk ''range'' (Some c) = Some (JObj [(''mode'', JStr ''symmetric''), (''lowerPct'', JNum 5), (''upperPct'', JNum 5)])"
    "getk ''trigger'' (Some c) = Some (JObj [(''source'', JStr ''spot''), (''pollSeconds'', JNum 4), (''confirmationSeconds'', JNum 0),
       (''cooldownMinutes'', JNum 0)])"
    "getk ''boundary'' (Some c) = Some (JObj [(''lower'', JObj [(''condition'', JStr ''always''), (''action'', JStr ''recenter'')]),
       (''upper'', JObj [(''condition'', JStr ''always''), (''action'', JStr ''recenter'')])])"
    "getk ''fees'' (Some c) = Some (JObj [(''handling'', JStr ''convert_to_quote''), (''timing'', JStr ''on_rebalance'')])"
    "getk ''safeguards'' (Some c) = Some (JObj [(''enabled'', JBool False), (''maxSlippageBps'', JNum 100), (''maxPlanAgeSeconds'', JNum 30)])"
    "getk ''execution'' (Some c) = Some (JObj [(''mode'', JStr ''notify_only''), (''dryRun'', JBool False),
       (''gasReserveMultiplier'', JNum (3 / 2)), (''lowTransactionMode'', JBool False)])"
  by (rule draft_fixed_field [OF assms]; simp add: draft_fixed_def)+

lemma getAddress_reread:
  "getAddress_of e s = Inr v \<Longrightarrow> checksums e \<Longrightarrow> address e n v = Inr v \<and> v = Some (JStr (je_getAddress e s)) \<and>
     toLower (je_getAddress e s) = toLower s"
  by (auto simp: getAddress_of_def checksums_def address_def split: if_splits)

definition staked :: "js_env \<Rightarrow> string \<Rightarrow> string \<Rightarrow> string \<Rightarrow> json" where
  "staked e up h q = JObj [(''enabled'', JBool True), (''gauge'', JStr (je_getAddress e h)), (''rewardToken'', JStr up),
     (''rewardQuoteToken'', JStr (je_getAddress e q)), (''rewardHandling'', JStr ''convert_to_quote_hold'')]"

lemma draft_staking_cases:
  assumes "draft_staking e net a = Inr s" "draft_ready e net ts a"
  obtains (off) "s = obj [(''enabled'', Some (JBool False))]"
  | (on) up h where "cn_UP net = Some up" "s = staked e up h (da_quoteToken a)" "h \<noteq> []" "da_protocol a = ''up33''"
      "je_isAddress e h" "je_isAddress e (da_quoteToken a)"
proof (cases "\<exists>up g. cn_UP net = Some up \<and> da_staking a = Some (True, g)")
  case True
  then obtain up g where u: "cn_UP net = Some up" "da_staking a = Some (True, g)" by blast
  obtain h where h: "g = Some h" "h \<noteq> []" "da_protocol a = ''up33''" using assms(2) u by (auto simp: draft_ready_def)
  have "s = staked e up h (da_quoteToken a) \<and> je_isAddress e h \<and> je_isAddress e (da_quoteToken a)"
    using assms(1) u h(1)
    by (auto simp: draft_staking_def staked_def literal_def bindR_eq_Inr getAddress_of_def value_of_def obj_def
        List.map_filter_simps split: if_splits)
  then show thesis using on [OF u(1)] h by blast
next
  case False
  then have "s = obj [(''enabled'', Some (JBool False))]"
    using assms(1) by (auto simp: draft_staking_def split: option.splits prod.splits bool.splits)
  then show thesis by (rule off)
qed

lemma draft_staking_reread:
  assumes "draft_staking e net a = Inr s" "checksums e" "checksummed_constants e" "strategyChain x = Some net"
    and "draft_ready e net ts a"
  shows "staking_of e net q (Some s) = Inr (Some s)"
  using assms(1,5)
proof (cases rule: draft_staking_cases)
  case off
  then show ?thesis
    by (simp add: staking_of_def nested_def read_object_def literal_def obj_def List.map_filter_simps getk_def js_truthy_def fixed_value_def)
next
  case (on up h)
  let ?h = "je_getAddress e h" and ?q = "je_getAddress e (da_quoteToken a)"
  have ad: "je_isAddress e up" "je_getAddress e up = up" using known_up [OF assms(3,4) on(1)] by simp_all
  have ck: "je_isAddress e ?h" "je_getAddress e ?h = ?h" "je_isAddress e ?q" "je_getAddress e ?q = ?q"
    using assms(2) on(5,6) by (auto simp: checksums_def)
  show ?thesis
    by (simp add: on(2) staked_def staking_of_def nested_def read_object_def literal_def obj_def List.map_filter_simps
        staking_spec_def getk_def js_truthy_def fixed_value_def address_def reward_token_def reward_quote_def reward_handling_def ad ck)
qed

lemma draft_name:
  assumes "draft_ready e net ts a"
  defines "nm \<equiv> (case da_name a of Some n \<Rightarrow> n | None \<Rightarrow> default_name)"
  shows "js_trim nm = nm" "nm \<noteq> []"
proof -
  have "js_trim default_name = default_name" "default_name \<noteq> []"
    by (simp_all add: default_name_def js_trim_def white_def)
  then show "js_trim nm = nm" "nm \<noteq> []" using assms(1) unfolding nm_def draft_ready_def by (auto split: option.splits)
qed

lemma draft_pre_checks:
  assumes L: "literal (draft_entries e net i uuid ts a) = Inr c" and net: "strategyChain (Some (JNum (of_int i))) = Some net"
    and ok: "draft_ready e net ts a"
  shows "pre_checks e (Some c) = Inr ()"
proof -
  note P = draft_plain [OF L] draft_poolId [OF L]
  obtain pm where pm: "positionManagerFor net (da_protocol a) = Inr pm" using ok by (auto simp: draft_ready_def split: sum.splits)
  have keys: "chain_key_is k (Some c) \<longleftrightarrow> cn_key net = k" "has_v4 (Some c) \<longleftrightarrow> cn_V4_PM net \<noteq> None"
    "protocol_is p (Some c) \<longleftrightarrow> da_protocol a = p" for k p
    by (simp_all add: chain_key_is_def has_v4_def protocol_is_def P net)
  note name = draft_name [OF ok]
  have obj: "is_object (Some c)" using L by (auto simp: is_object_def dest!: literal_keys)
  have pid: "da_protocol a = ''univ4'' \<Longrightarrow> \<exists>p. da_poolId a = Some p \<and> je_hexSize e p = Some 32"
    using ok by (auto simp: draft_ready_def split: option.splits)
  have "list_all (\<lambda>m. m = Inr ()) (identity_checks e (Some c))"
    using manager_protocol [OF pm] name net obj pid unfolding identity_checks_def list.pred_inject required_Inr P keys
    by (auto simp: is_text_def text_of_def one_of_def presetValues_def is_bool_def)
  moreover have "list_all (\<lambda>m. m = Inr ()) (range_checks e (getk ''range'' (Some c)))"
    using band_default unfolding draft_section_values [OF L]
    by (simp add: range_checks_def required_Inr ignore_def js_truthy_def one_of_def range_modes_def getk_def finite_in_def bindR_def)
  moreover have "list_all (\<lambda>m. m = Inr ()) (section_checks (Some c))"
    unfolding section_checks_def list.pred_inject required_Inr draft_section_values [OF L]
    by (simp add: js_truthy_def one_of_def getk_def sources_def handlings_def timings_def modes_def is_bool_def)
  ultimately show ?thesis unfolding pre_checks_def in_order_Inr list_all_append by blast
qed

lemma draft_read:
  assumes L: "literal (draft_entries e net i uuid ts a) = Inr c" and net: "strategyChain (Some (JNum (of_int i))) = Some net"
    and ok: "draft_ready e net ts a" and e: "checksums e" "checksummed_constants e"
  shows "read_object (config_spec e net (da_protocol a = ''univ4'') q) (Some c) = Inr c"
proof (rule literal_read [OF L draft_distinct draft_keys])
  note P = draft_plain [OF L] draft_poolId [OF L]
  note A = draft_addresses [OF L]
  have ts: "0 \<le> ts" "ts \<le> 9007199254740991" "da_protocol a = ''univ4'' \<or> da_poolId a = None"
    using ok by (auto simp: draft_ready_def split: if_splits)
  have r: "finite_in e n 1 MAX_SAFE_NUMBER (Some (JNum 1)) = Inr (Some (JNum 1))"
    "finite_in e n 0 MAX_SAFE_NUMBER (Some (JNum (of_int ts))) = Inr (Some (JNum (of_int ts)))" for n
    using ts(1,2) by (simp_all add: finite_in_def MAX_SAFE_NUMBER_def Let_def)
  have adr: "address e n (getk k (Some c)) = Inr (getk k (Some c))"
    if "k \<in> {''owner'', ''pool'', ''positionManager'', ''riskToken'', ''quoteToken''}" for n k
    using that A(1,2,4,5,6) e(1) by (auto dest: getAddress_reread)
  have hooks: "only_if (da_protocol a = ''univ4'') (hooks_of e) (getk ''hooks'' (Some c)) = Inr (getk ''hooks'' (Some c))"
    using A(3) e(1) by (auto simp: only_if_def hooks_of_def nullish_def dest!: getAddress_reread split: if_splits)
  obtain s where s: "draft_staking e net a = Inr s" "getk ''staking'' (Some c) = Some s" using A(7) by (auto simp: bindR_eq_Inr)
  have stk: "staking_of e net q (getk ''staking'' (Some c)) = Inr (getk ''staking'' (Some c))"
    unfolding s(2) by (rule draft_staking_reread [OF s(1) e net ok])
  have pid: "only_if (da_protocol a = ''univ4'') as_is (getk ''poolId'' (Some c)) = Inr (getk ''poolId'' (Some c))"
    using ts(3) by (auto simp: only_if_def as_is_def P)
  have tok: "token_id e (getk ''activeTokenId'' (Some c)) = Inr (getk ''activeTokenId'' (Some c))"
    by (auto simp: token_id_def nullish_def P split: option.splits)
  have nm: "trimmed (getk ''name'' (Some c)) = Inr (getk ''name'' (Some c))"
    using draft_name(1) [OF ok] by (simp add: trimmed_def P)
  have m: "k \<in> fst ` set draft_fixed"
    if "k \<in> {''range'', ''trigger'', ''boundary'', ''fees'', ''capitalProtection'', ''adaptiveRange'', ''safeguards'', ''execution''}" for k
    using that by (auto simp: draft_fixed_def)
  have sec: "getk k (Some c) = map_of draft_fixed k"
    if "k \<in> {''range'', ''trigger'', ''boundary'', ''fees'', ''capitalProtection'', ''adaptiveRange'', ''safeguards'', ''execution''}" for k
    by (rule draft_section_of [OF L m [OF that]])
  show "list_all (\<lambda>(k, f). f (getk k (Some c)) = Inr (getk k (Some c))) (config_spec e net (da_protocol a = ''univ4'') q)"
    unfolding config_spec_def list.pred_inject case_prod_conv
    by (simp add: sec section_reads adr hooks stk pid [unfolded P] tok [unfolded P] nm [unfolded P] as_is_def fixed_value_def P r)
qed

lemma draft_post_checks:
  assumes L: "literal (draft_entries e net i uuid ts a) = Inr c" and net: "strategyChain (Some (JNum (of_int i))) = Some net"
    and ok: "draft_ready e net ts a" and e: "checksums e" "checksummed_constants e"
  shows "post_checks net (Some c) = Inr ()"
proof -
  note P = draft_plain [OF L]
  note A = draft_addresses [OF L]
  have risk: "\<not> same_lower (getk ''riskToken'' (Some c)) (getk ''quoteToken'' (Some c))"
    using getAddress_reread [OF A(5) e(1)] getAddress_reread [OF A(6) e(1)] ok
    by (auto simp: same_lower_def text_of_def draft_ready_def)
  obtain pm where pm: "positionManagerFor net (da_protocol a) = Inr pm" "toLower (da_positionManager a) = toLower pm"
    using ok by (auto simp: draft_ready_def split: sum.splits)
  have mgr: "same_lower (getk ''positionManager'' (Some c)) (Some (JStr pm))"
    using getAddress_reread [OF A(4) e(1)] pm(2) by (auto simp: same_lower_def text_of_def)
  have off: "\<not> auto_mode (Some c)" "\<not> live (Some c)"
    "getk ''timing'' (getk ''fees'' (Some c)) = Some (JStr ''on_rebalance'')"
    unfolding auto_mode_def live_def draft_section_values [OF L] P by (simp_all add: getk_def js_truthy_def)
  obtain s where s: "draft_staking e net a = Inr s" "getk ''staking'' (Some c) = Some s" using A(7) by (auto simp: bindR_eq_Inr)
  from s(1) ok have "list_all (\<lambda>m. m = Inr ()) (staking_checks net (Some c))"
  proof (cases rule: draft_staking_cases)
    case off
    then show ?thesis unfolding staking_checks_def Let_def s(2)
      by (simp add: obj_def List.map_filter_simps getk_def js_truthy_def)
  next
    case (on up h)
    have "je_getAddress e h \<noteq> []" using e(1) on(3,5) by (force simp: checksums_def toLower_def)
    moreover have "getk ''quoteToken'' (Some c) = Some (JStr (je_getAddress e (da_quoteToken a)))"
      using getAddress_reread [OF A(6) e(1)] by blast
    moreover have "protocol_is ''up33'' (Some c)" by (simp add: protocol_is_def P on(4))
    ultimately show ?thesis
      using on(1) off(3) unfolding staking_checks_def Let_def s(2) on(2) staked_def
      by (simp add: getk_def js_truthy_def same_lower_def text_of_def required_def)
  qed
  then show ?thesis
    unfolding post_checks_def Let_def in_order_Inr list_all_append list.pred_inject required_Inr
    using risk mgr pm(1) off by (simp add: bindR_def required_Inr P text_of_def)
qed


definition sample_args :: draft_args where
  "sample_args = \<lparr>da_chainId = Some 4663, da_owner = text_of (Some (sample_address (CHR ''a''))), da_protocol = ''up33'',
     da_pool = text_of (Some (sample_address (CHR ''b''))), da_poolId = None, da_hooks = None,
     da_positionManager = cn_CL_PM robinhoodConfig, da_activeTokenId = Some ''7'',
     da_riskToken = text_of (Some (sample_address (CHR ''c''))), da_quoteToken = text_of (Some (sample_address (CHR ''d''))),
     da_name = None, da_staking = Some (True, Some (text_of (Some (sample_address (CHR ''f'')))))\<rparr>"


text \<open>
  A stored or submitted \<open>walletId: null\<close> becomes the text \<open>''null''\<close>, so the later check that an automatic
  strategy names a wallet passes; and outside fixed ticks the explicit ticks may be any value.
\<close>

lemma null_wallet_is_named: "optional_text e (Some JNull) = Inr (Some (JStr ''null'')) \<and> js_truthy (Some (JStr ''null''))"
  by (simp add: optional_text_def js_truthy_def)

lemma loose_ticks_accepted:
  "list_all (\<lambda>m. m = Inr ()) (range_checks e (Some (JObj [(''mode'', JStr ''symmetric''), (''lowerPct'', JNum 5), (''upperPct'', JNum 5),
     (''tickLower'', JObj [])])))"
  using band_default
  by (simp add: range_checks_def required_Inr ignore_def js_truthy_def one_of_def range_modes_def getk_def finite_in_def bindR_def)

section \<open>The safeguards are accepted\<close>

text \<open>The daily cap follows the band between 4 and 12; every recommended limit is within its bounds.\<close>

lemma recommended_safeguards_accepted:
  "nested (safeguards_spec e) (Some (recommendedSafeguards b)) = Inr (Some (recommendedSafeguards b)) \<and>
   (\<exists>n :: int. getk ''maxRebalancesPerDay'' (Some (recommendedSafeguards b)) = Some (JNum (of_int n)) \<and> 4 \<le> n \<and> n \<le> 12)"
proof -
  define x where "x = min (max (case b of Some b \<Rightarrow> b | None \<Rightarrow> 5) (fl (1 / 1000))) 99"
  define d where "d = min 12 (max 4 (math_round (nmul x (fl (16 / 10)))))"
  define v where "v = min 10000 (max 1 (math_round (nmul (of_int (math_round (nmul x 100))) 2)))"
  define t where "t = min 10000 (max 100 (math_round (nmul (of_int (math_round (nmul x 100))) (fl (6 / 10)))))"
  have b: "4 \<le> d" "d \<le> 12" "1 \<le> v" "v \<le> 10000" "100 \<le> t" "t \<le> 10000" by (simp_all add: d_def v_def t_def)
  have r: "recommendedSafeguards b = JObj [(''enabled'', JBool True), (''minCrossingMinutes'', JNum 5),
      (''maxRebalancesPerDay'', JNum (of_int d)), (''maxConsecutiveLowerBreaks'', JNum 4), (''lowerBreakWindowMinutes'', JNum 1440),
      (''maxRiskAssetPct'', JNum 60), (''maxSwapImpactBps'', JNum 150), (''volatilityWindowSeconds'', JNum 300),
      (''maxVolatilityBps'', JNum (of_int v)), (''maxSpotTwapDeviationBps'', JNum (of_int t)), (''stableMarketSeconds'', JNum 600),
      (''burstWindowMinutes'', JNum 60), (''burstTriggerCount'', JNum 3), (''burstCooldownMinutes'', JNum 60),
      (''maxSlippageBps'', JNum 100), (''maxPlanAgeSeconds'', JNum 30)]"
    unfolding recommendedSafeguards_def Let_def x_def [symmetric] d_def [symmetric] v_def [symmetric] t_def [symmetric]
    by (simp add: obj_def List.map_filter_simps)
  show ?thesis unfolding r using b
    by (simp add: nested_def read_object_def literal_def obj_def List.map_filter_simps getk_def as_is_def safeguards_spec_def
        optional_limits_def optional_finite_def nullish_def finite_in_def Let_def)
qed

end
