(* ===== verification/FeeTax.thy ===== *)
theory FeeTax
  imports Rebalance
begin

text \<open>
  \<open>executor/fee-tax.ts\<close>: the tenth of a cycle's income that is retained in the owner's wallet.
  The quotes come from the aggregator and are a parameter that threads the world; the network's
  settlement token, wrapped native token and decimals are read from the configuration.
\<close>

definition INCOME_RETENTION_BPS :: int where "INCOME_RETENTION_BPS = 1000"
definition FEE_TAX_THRESHOLD_USDG :: int where "FEE_TAX_THRESHOLD_USDG = 1000000"
definition FEE_TAX_BPS :: int where "FEE_TAX_BPS = INCOME_RETENTION_BPS"

record tax_net =
  tn_chainId :: int
  tn_settlement :: string
  tn_wrapped :: string
  tn_decimals :: nat

datatype income_kind = IncomeFee0 | IncomeFee1 | IncomeReward

record income_source =
  is_kind :: income_kind
  is_token :: string
  is_amount :: int
  is_value :: int

record 'r fee_tax_plan =
  ft_applied :: bool
  ft_totalIncomeUsdg :: int
  ft_totalFeeUsdg :: int
  ft_tax0 :: int
  ft_tax1 :: int
  ft_rewardTax :: int
  ft_fee0AfterTax :: int
  ft_fee1AfterTax :: int
  ft_rewardAfterTax :: int
  ft_retainedUsdg :: int
  ft_swaps :: "'r swap_intent list"

definition same_token :: "string \<Rightarrow> string \<Rightarrow> bool" where
  "same_token a b \<longleftrightarrow> toLower a = toLower b"

definition valueInUsdg :: "tax_net \<Rightarrow> ('w, 'r) quote \<Rightarrow> string \<Rightarrow> int \<Rightarrow> 'w \<Rightarrow> (int \<times> 'w) res" where
  "valueInUsdg net quote tok amt w =
     (if amt = 0 then Inr (0, w)
      else if same_token tok (tn_settlement net) then Inr (amt, w)
      else bindR (quote tok (tn_settlement net) amt w) (\<lambda>((out, _), w). Inr (out, w)))"

definition tax_threshold :: "tax_net \<Rightarrow> int" where
  "tax_threshold net = (if tn_chainId net = 4663 then FEE_TAX_THRESHOLD_USDG else 10 ^ tn_decimals net)"

definition larger :: "income_source \<Rightarrow> income_source \<Rightarrow> income_source" where
  "larger best item = (if is_value item > is_value best then item else best)"

definition largest :: "income_source list \<Rightarrow> income_source" where
  "largest ss = foldl larger (hd ss) (tl ss)"

definition preferred :: "income_source list \<Rightarrow> string \<Rightarrow> income_source option" where
  "preferred sufficient tok =
     foldl (\<lambda>best item. case best of None \<Rightarrow> Some item | Some b \<Rightarrow> Some (larger b item)) None
       (filter (\<lambda>i. same_token (is_token i) tok) sufficient)"

definition tax_source :: "tax_net \<Rightarrow> int \<Rightarrow> income_source list \<Rightarrow> income_source" where
  "tax_source net target ss =
     (let sufficient = filter (\<lambda>i. is_value i \<ge> target \<and> is_amount i > 0) ss in
      case preferred sufficient (tn_settlement net) of
        Some s \<Rightarrow> s
      | None \<Rightarrow> (case preferred sufficient (tn_wrapped net) of Some s \<Rightarrow> s | None \<Rightarrow> largest ss))"

definition raw_tax :: "tax_net \<Rightarrow> int \<Rightarrow> income_source \<Rightarrow> int res" where
  "raw_tax net target s =
     (if same_token (is_token s) (tn_settlement net) then Inr target
      else bdiv (is_amount s * target + is_value s - 1) (is_value s))"

text \<open>The legs to settle: what is already in the settlement token is retained, the rest is swapped.\<close>

fun tax_swaps :: "tax_net \<Rightarrow> ('w, 'r) quote \<Rightarrow> (string \<times> int) list \<Rightarrow> 'w \<Rightarrow> ((int \<times> 'r swap_intent list) \<times> 'w) res" where
  "tax_swaps net quote [] w = Inr ((0, []), w)"
| "tax_swaps net quote ((tok, amt) # legs) w =
     (if amt = 0 then tax_swaps net quote legs w
      else if same_token tok (tn_settlement net) then
        bindR (tax_swaps net quote legs w) (\<lambda>((kept, sw), w). Inr ((amt + kept, sw), w))
      else bindR (quote tok (tn_settlement net) amt w) (\<lambda>((out, route), w).
        bindR (tax_swaps net quote legs w) (\<lambda>((kept, sw), w).
          Inr ((kept, \<lparr>sw_tokenIn = tok, sw_tokenOut = tn_settlement net, sw_amountIn = amt, principalIn = 0, feeIn = amt,
                       quotedOut = out, routeSummary = route\<rparr> # sw), w))))"

definition planFeeTax ::
  "tax_net \<Rightarrow> string \<Rightarrow> string \<Rightarrow> int \<Rightarrow> int \<Rightarrow> string option \<Rightarrow> int option \<Rightarrow> ('w, 'r) quote \<Rightarrow> 'w \<Rightarrow> ('r fee_tax_plan \<times> 'w) res" where
  "planFeeTax net t0 t1 fee0 fee1 rewardTok rewardAmt quote w =
     (let rtok = (case rewardTok of Some t \<Rightarrow> t | None \<Rightarrow> tn_wrapped net);
          ramt = (case rewardAmt of Some a \<Rightarrow> a | None \<Rightarrow> 0)
      in if fee0 < 0 \<or> fee1 < 0 \<or> ramt < 0 then Inl (JsError ''E_FEE_TAX_AMOUNT'')
         else bindR (valueInUsdg net quote t0 fee0 w) (\<lambda>(value0, w).
              bindR (valueInUsdg net quote t1 fee1 w) (\<lambda>(value1, w).
              bindR (valueInUsdg net quote rtok ramt w) (\<lambda>(rvalue, w).
                let total = value0 + value1 + rvalue in
                if total \<le> tax_threshold net then
                  Inr (\<lparr>ft_applied = False, ft_totalIncomeUsdg = total, ft_totalFeeUsdg = total, ft_tax0 = 0, ft_tax1 = 0,
                        ft_rewardTax = 0, ft_fee0AfterTax = fee0, ft_fee1AfterTax = fee1, ft_rewardAfterTax = ramt,
                        ft_retainedUsdg = 0, ft_swaps = []\<rparr>, w)
                else
                  bindR (bdiv (total * FEE_TAX_BPS) 10000) (\<lambda>target.
                  let s = tax_source net target
                        [\<lparr>is_kind = IncomeFee0, is_token = t0, is_amount = fee0, is_value = value0\<rparr>,
                         \<lparr>is_kind = IncomeFee1, is_token = t1, is_amount = fee1, is_value = value1\<rparr>,
                         \<lparr>is_kind = IncomeReward, is_token = rtok, is_amount = ramt, is_value = rvalue\<rparr>]
                  in if is_value s \<le> 0 \<or> is_amount s \<le> 0 \<or> target \<le> 0 then Inl (JsError ''E_FEE_TAX_AMOUNT'')
                     else bindR (raw_tax net target s) (\<lambda>raw.
                       let tax0 = (if is_kind s = IncomeFee0 then raw else 0);
                           tax1 = (if is_kind s = IncomeFee1 then raw else 0);
                           rtax = (if is_kind s = IncomeReward then raw else 0)
                       in bindR (tax_swaps net quote [(t0, tax0), (t1, tax1), (rtok, rtax)] w) (\<lambda>((kept, sw), w).
                            Inr (\<lparr>ft_applied = True, ft_totalIncomeUsdg = total, ft_totalFeeUsdg = total, ft_tax0 = tax0,
                                  ft_tax1 = tax1, ft_rewardTax = rtax, ft_fee0AfterTax = fee0 - tax0,
                                  ft_fee1AfterTax = fee1 - tax1, ft_rewardAfterTax = ramt - rtax,
                                  ft_retainedUsdg = kept, ft_swaps = sw\<rparr>, w))))))))"

section \<open>The chosen leg\<close>

lemma foldl_larger: "foldl larger b ss \<in> set (b # ss) \<and> (\<forall>s \<in> set (b # ss). is_value s \<le> is_value (foldl larger b ss))"
proof (induction ss arbitrary: b)
  case (Cons s ss)
  have b: "larger b s \<in> {b, s}" "is_value b \<le> is_value (larger b s)" "is_value s \<le> is_value (larger b s)"
    by (simp_all add: larger_def)
  show ?case using Cons.IH [of "larger b s"] b by (auto intro: order_trans)
qed simp

lemma largest_in: "ss \<noteq> [] \<Longrightarrow> largest ss \<in> set ss"
  using foldl_larger [of "hd ss" "tl ss"] by (cases ss) (auto simp: largest_def)

lemma largest_max: "s \<in> set ss \<Longrightarrow> is_value s \<le> is_value (largest ss)"
  using foldl_larger [of "hd ss" "tl ss"] by (cases ss) (auto simp: largest_def)

lemma preferred_in: "preferred ss tok = Some s \<Longrightarrow> s \<in> set ss \<and> same_token (is_token s) tok"
proof -
  have "foldl (\<lambda>best item. case best of None \<Rightarrow> Some item | Some b \<Rightarrow> Some (larger b item)) b xs = Some s \<Longrightarrow>
      s \<in> set xs \<or> b = Some s" for b xs
  proof (induction xs arbitrary: b)
    case (Cons x xs)
    then show ?case by (cases b) (force simp: larger_def split: if_splits)+
  qed simp
  then show "preferred ss tok = Some s \<Longrightarrow> s \<in> set ss \<and> same_token (is_token s) tok"
    unfolding preferred_def by fastforce
qed

text \<open>The leg that pays can always pay: three legs share the total, the target is a tenth of it.\<close>

lemma tax_source_pays:
  assumes "ss \<noteq> []" "target \<le> is_value (largest ss)"
  shows "tax_source net target ss \<in> set ss" "target \<le> is_value (tax_source net target ss)"
  using assms largest_in [OF assms(1)]
  by (auto simp: tax_source_def Let_def split: option.splits dest!: preferred_in)

lemma raw_tax_exact:
  assumes "raw_tax net target s = Inr raw" "0 < target" "target \<le> is_value s" "0 < is_amount s"
    and "same_token (is_token s) (tn_settlement net) \<Longrightarrow> is_value s = is_amount s"
  shows "0 < raw" "raw \<le> is_amount s" "is_amount s * target \<le> raw * is_value s" "(raw - 1) * is_value s < is_amount s * target"
proof -
  let ?v = "is_value s" and ?a = "is_amount s"
  have v: "0 < ?v" using assms(2,3) by linarith
  have at: "0 < ?a * target" using assms(2,4) by simp
  have "0 < raw \<and> raw \<le> ?a \<and> ?a * target \<le> raw * ?v \<and> (raw - 1) * ?v < ?a * target"
  proof (cases "same_token (is_token s) (tn_settlement net)")
    case True
    then have "raw = target" "?v = ?a" using assms(1,5) by (simp_all add: raw_tax_def)
    then show ?thesis using assms(2,3,4) by (simp add: algebra_simps)
  next
    case False
    then have r: "raw = (?a * target + ?v - 1) div ?v" using assms(1) v at by (simp add: raw_tax_def bdiv_pos)
    have up: "(raw - 1) * ?v < ?a * target" using div_mult_le [OF v, of "?a * target + ?v - 1"] unfolding r by (simp add: left_diff_distrib)
    have lo: "?a * target \<le> raw * ?v" using div_mult_gt [OF v, of "?a * target + ?v - 1"] unfolding r by (simp add: distrib_right)
    have "0 < raw" using lo at v by (metis leI mult_nonpos_nonneg order_le_less_trans order_less_imp_le order_less_irrefl)
    moreover have "raw \<le> ?a"
    proof (rule ccontr)
      assume "\<not> raw \<le> ?a"
      then have "?a * ?v \<le> (raw - 1) * ?v" using v by (intro mult_right_mono) simp_all
      moreover have "?a * target \<le> ?a * ?v" using assms(3,4) by (intro mult_left_mono) simp_all
      ultimately show False using up by linarith
    qed
    ultimately show ?thesis using lo up by blast
  qed
  then show "0 < raw" "raw \<le> is_amount s" "is_amount s * target \<le> raw * is_value s" "(raw - 1) * is_value s < is_amount s * target"
    by simp_all
qed

section \<open>What a plan takes\<close>

text \<open>The legs of a plan: token, amount before the tax, tax.\<close>

definition tax_legs :: "tax_net \<Rightarrow> string \<Rightarrow> string \<Rightarrow> int \<Rightarrow> int \<Rightarrow> string option \<Rightarrow> int option \<Rightarrow> 'r fee_tax_plan \<Rightarrow> (string \<times> int \<times> int) list" where
  "tax_legs net t0 t1 fee0 fee1 rt ra p =
     [(t0, fee0, ft_tax0 p), (t1, fee1, ft_tax1 p),
      (case rt of Some t \<Rightarrow> t | None \<Rightarrow> tn_wrapped net, case ra of Some a \<Rightarrow> a | None \<Rightarrow> 0, ft_rewardTax p)]"

text \<open>
  The leg \<open>tok\<close> of \<open>amt\<close> units, worth \<open>value\<close>, pays \<open>tax\<close>: the least number of units worth the
  target at that quote; it is kept when it is the settlement token and swapped into it otherwise.
\<close>

definition pays :: "tax_net \<Rightarrow> ('w, 'r) quote \<Rightarrow> 'r fee_tax_plan \<Rightarrow> string \<Rightarrow> int \<Rightarrow> int \<Rightarrow> bool" where
  "pays net quote p tok amt tax \<longleftrightarrow>
     0 < tax \<and> tax \<le> amt \<and>
     (\<exists>value w w'. valueInUsdg net quote tok amt w = Inr (value, w') \<and>
        amt * (ft_totalIncomeUsdg p div 10) \<le> tax * value \<and> (tax - 1) * value < amt * (ft_totalIncomeUsdg p div 10)) \<and>
     (if same_token tok (tn_settlement net) then ft_retainedUsdg p = tax \<and> tax = ft_totalIncomeUsdg p div 10 \<and> ft_swaps p = []
      else ft_retainedUsdg p = 0 \<and>
        (\<exists>out route. ft_swaps p = [\<lparr>sw_tokenIn = tok, sw_tokenOut = tn_settlement net, sw_amountIn = tax, principalIn = 0,
                                     feeIn = tax, quotedOut = out, routeSummary = route\<rparr>]))"

lemma tax_swaps_single:
  assumes "tax_swaps net quote legs w = Inr ((kept, sw), w')" "filter (\<lambda>l. snd l \<noteq> 0) legs = [(tok, amt)]"
  shows "if same_token tok (tn_settlement net) then kept = amt \<and> sw = []
    else kept = 0 \<and> (\<exists>out route. sw = [\<lparr>sw_tokenIn = tok, sw_tokenOut = tn_settlement net, sw_amountIn = amt,
           principalIn = 0, feeIn = amt, quotedOut = out, routeSummary = route\<rparr>])"
proof -
  have none: "tax_swaps net quote legs w = Inr ((0, []), w)" if "filter (\<lambda>l. snd l \<noteq> 0) legs = []" for legs w
    using that by (induction legs) (auto split: if_splits)
  show ?thesis using assms
  proof (induction legs arbitrary: w kept sw)
    case (Cons l legs)
    then show ?case
    proof (cases "snd l = 0")
      case True
      then show ?thesis using Cons by (cases l) auto
    next
      case False
      then have "l = (tok, amt)" "filter (\<lambda>l. snd l \<noteq> 0) legs = []" using Cons.prems(2) by auto
      then show ?thesis using Cons.prems(1) False none [of legs] by (auto simp: bindR_eq_Inr split: if_splits)
    qed
  qed simp
qed

lemma value_settlement: "valueInUsdg net quote tok amt w = Inr (v, w') \<Longrightarrow> same_token tok (tn_settlement net) \<Longrightarrow> v = amt"
  by (auto simp: valueInUsdg_def split: if_splits)

lemma threshold_pos: "0 < tax_threshold net"
  by (simp add: tax_threshold_def FEE_TAX_THRESHOLD_USDG_def)

lemma target_due:
  assumes "0 < v0 + v1 + v2" "bdiv ((v0 + v1 + v2) * FEE_TAX_BPS) 10000 = Inr target"
  shows "target = (v0 + v1 + v2) div 10"
proof -
  let ?t = "v0 + v1 + v2"
  have "target = ?t * 1000 div (10 * 1000)" using assms by (simp add: bdiv_pos FEE_TAX_BPS_def INCOME_RETENTION_BPS_def)
  also have "\<dots> = ?t div 10" by (rule div_mult_mult2) simp
  finally show ?thesis .
qed

lemma fee_tax_facts:
  assumes "planFeeTax net t0 t1 fee0 fee1 rt ra quote w = Inr (p, w')"
  shows "ft_fee0AfterTax p = fee0 - ft_tax0 p \<and> ft_fee1AfterTax p = fee1 - ft_tax1 p \<and>
    ft_rewardAfterTax p = (case ra of Some a \<Rightarrow> a | None \<Rightarrow> 0) - ft_rewardTax p \<and>
    0 \<le> fee0 \<and> 0 \<le> fee1 \<and> 0 \<le> (case ra of Some a \<Rightarrow> a | None \<Rightarrow> 0) \<and>
    (ft_applied p \<longleftrightarrow> tax_threshold net < ft_totalIncomeUsdg p) \<and>
    (if ft_applied p then \<exists>tok amt tax. filter (\<lambda>(_, _, tax). tax \<noteq> 0) (tax_legs net t0 t1 fee0 fee1 rt ra p) = [(tok, amt, tax)] \<and>
         pays net quote p tok amt tax
     else ft_tax0 p = 0 \<and> ft_tax1 p = 0 \<and> ft_rewardTax p = 0 \<and> ft_retainedUsdg p = 0 \<and> ft_swaps p = [])"
proof -
  define rtok where "rtok = (case rt of Some t \<Rightarrow> t | None \<Rightarrow> tn_wrapped net)"
  define ramt where "ramt = (case ra of Some a \<Rightarrow> a | None \<Rightarrow> 0)"
  note plan = assms [unfolded planFeeTax_def Let_def rtok_def [symmetric] ramt_def [symmetric]]
  from plan have nn: "0 \<le> fee0" "0 \<le> fee1" "0 \<le> ramt" by (auto split: if_splits)
  from plan nn obtain v0 w0 v1 w1 v2 w2 where
    v: "valueInUsdg net quote t0 fee0 w = Inr (v0, w0)" "valueInUsdg net quote t1 fee1 w0 = Inr (v1, w1)"
       "valueInUsdg net quote rtok ramt w1 = Inr (v2, w2)"
    by (auto simp: bindR_eq_Inr)
  let ?T = "v0 + v1 + v2"
  show ?thesis
  proof (cases "?T \<le> tax_threshold net")
    case True
    then have "p = \<lparr>ft_applied = False, ft_totalIncomeUsdg = ?T, ft_totalFeeUsdg = ?T, ft_tax0 = 0, ft_tax1 = 0,
        ft_rewardTax = 0, ft_fee0AfterTax = fee0, ft_fee1AfterTax = fee1, ft_rewardAfterTax = ramt,
        ft_retainedUsdg = 0, ft_swaps = []\<rparr>"
      using plan nn v by simp
    then show ?thesis using True nn unfolding ramt_def by simp
  next
    case False
    let ?ss = "[\<lparr>is_kind = IncomeFee0, is_token = t0, is_amount = fee0, is_value = v0\<rparr>,
       \<lparr>is_kind = IncomeFee1, is_token = t1, is_amount = fee1, is_value = v1\<rparr>,
       \<lparr>is_kind = IncomeReward, is_token = rtok, is_amount = ramt, is_value = v2\<rparr>]"
    from plan nn v False obtain target where target: "bdiv (?T * FEE_TAX_BPS) 10000 = Inr target"
      by (auto simp: bindR_eq_Inr)
    define s where "s = tax_source net target ?ss"
    from plan nn v False target have ok: "0 < is_value s" "0 < is_amount s" "0 < target"
      by (auto simp: s_def [symmetric] split: if_splits)
    from plan nn v False target ok obtain raw where raw: "raw_tax net target s = Inr raw"
      by (auto simp: s_def [symmetric] bindR_eq_Inr)
    define x0 x1 x2 where x: "x0 = (if is_kind s = IncomeFee0 then raw else 0)" "x1 = (if is_kind s = IncomeFee1 then raw else 0)"
      "x2 = (if is_kind s = IncomeReward then raw else 0)"
    from plan nn v False target ok raw obtain kept sw where
      sw: "tax_swaps net quote [(t0, x0), (t1, x1), (rtok, x2)] w2 = Inr ((kept, sw), w')"
      and p: "p = \<lparr>ft_applied = True, ft_totalIncomeUsdg = ?T, ft_totalFeeUsdg = ?T, ft_tax0 = x0, ft_tax1 = x1,
        ft_rewardTax = x2, ft_fee0AfterTax = fee0 - x0, ft_fee1AfterTax = fee1 - x1, ft_rewardAfterTax = ramt - x2,
        ft_retainedUsdg = kept, ft_swaps = sw\<rparr>"
      by (auto simp: s_def [symmetric] bindR_eq_Inr x)
    have T: "0 < ?T" using False threshold_pos [of net] by linarith
    have td: "target = ?T div 10" by (rule target_due [OF T target])
    have "?T \<le> 3 * is_value (largest ?ss)"
      using largest_max [of "?ss ! 0" ?ss] largest_max [of "?ss ! 1" ?ss] largest_max [of "?ss ! 2" ?ss] by simp
    then have "target \<le> is_value (largest ?ss)" unfolding td using T by linarith
    from tax_source_pays [OF _ this, of net] have s: "s \<in> set ?ss" "target \<le> is_value s" by (simp_all add: s_def)
    obtain u u' where u: "valueInUsdg net quote (is_token s) (is_amount s) u = Inr (is_value s, u')" using s(1) v by auto
    have settled: "is_value s = is_amount s" if "same_token (is_token s) (tn_settlement net)" using value_settlement [OF u that] .
    note r = raw_tax_exact [OF raw ok(3) s(2) ok(2) settled]
    have one: "filter (\<lambda>l. snd l \<noteq> 0) [(t0, x0), (t1, x1), (rtok, x2)] = [(is_token s, raw)]"
      and leg: "filter (\<lambda>(_, _, tax). tax \<noteq> 0) (tax_legs net t0 t1 fee0 fee1 rt ra p) = [(is_token s, is_amount s, raw)]"
      using s(1) r(1) by (auto simp: x tax_legs_def p rtok_def [symmetric] ramt_def [symmetric])
    have "pays net quote p (is_token s) (is_amount s) raw"
      using tax_swaps_single [OF sw one] r u raw unfolding pays_def p by (auto simp: td raw_tax_def split: if_splits)
    then show ?thesis using leg nn False unfolding ramt_def [symmetric] by (auto simp: p)
  qed
qed

section \<open>A plan always comes out\<close>

definition quotes_answer :: "('w, 'r) quote \<Rightarrow> bool" where
  "quotes_answer quote \<longleftrightarrow> (\<forall>tin tout amt w. isInr (quote tin tout amt w))"

lemma quote_answers: "quotes_answer quote \<Longrightarrow> \<exists>out route w'. quote tin tout amt w = Inr ((out, route), w')"
  by (metis quotes_answer_def isInr_iff prod.collapse)

lemma value_answers: "quotes_answer quote \<Longrightarrow> \<exists>v w'. valueInUsdg net quote tok amt w = Inr (v, w')"
  using quote_answers [of quote tok "tn_settlement net" amt w] by (auto simp: valueInUsdg_def)

lemma swaps_answer: "quotes_answer quote \<Longrightarrow> \<exists>r w'. tax_swaps net quote legs w = Inr (r, w')"
proof (induction legs arbitrary: w)
  case (Cons l legs)
  obtain tok amt where l: "l = (tok, amt)" by (cases l)
  obtain out route w1 where "quote tok (tn_settlement net) amt w = Inr ((out, route), w1)" using quote_answers [OF Cons.prems] by blast
  moreover obtain k0 s0 u0 where "tax_swaps net quote legs w = Inr ((k0, s0), u0)" using Cons by (metis surj_pair)
  moreover obtain k1 s1 u1 where "tax_swaps net quote legs w1 = Inr ((k1, s1), u1)" using Cons by (metis surj_pair)
  ultimately show ?case by (simp add: l)
qed simp

lemma fee_tax_answers:
  assumes "quotes_answer quote" "0 \<le> fee0" "0 \<le> fee1" "0 \<le> (case ra of Some a \<Rightarrow> a | None \<Rightarrow> 0)" "0 < tn_decimals net"
  shows "isInr (planFeeTax net t0 t1 fee0 fee1 rt ra quote w)"
proof -
  define rtok where "rtok = (case rt of Some t \<Rightarrow> t | None \<Rightarrow> tn_wrapped net)"
  define ramt where "ramt = (case ra of Some a \<Rightarrow> a | None \<Rightarrow> 0)"
  have nn: "0 \<le> ramt" using assms(4) by (simp add: ramt_def)
  obtain v0 w0 v1 w1 v2 w2 where
    v: "valueInUsdg net quote t0 fee0 w = Inr (v0, w0)" "valueInUsdg net quote t1 fee1 w0 = Inr (v1, w1)"
       "valueInUsdg net quote rtok ramt w1 = Inr (v2, w2)"
    using value_answers [OF assms(1)] by metis
  let ?T = "v0 + v1 + v2"
  show ?thesis
  proof (cases "?T \<le> tax_threshold net")
    case True
    then show ?thesis unfolding planFeeTax_def Let_def rtok_def [symmetric] ramt_def [symmetric] using assms nn v by simp
  next
    case False
    let ?ss = "[\<lparr>is_kind = IncomeFee0, is_token = t0, is_amount = fee0, is_value = v0\<rparr>,
       \<lparr>is_kind = IncomeFee1, is_token = t1, is_amount = fee1, is_value = v1\<rparr>,
       \<lparr>is_kind = IncomeReward, is_token = rtok, is_amount = ramt, is_value = v2\<rparr>]"
    have "(10::int) \<le> 10 ^ tn_decimals net" using assms(5) power_increasing [of 1 "tn_decimals net" "10::int"] by simp
    then have th: "10 \<le> tax_threshold net" by (simp add: tax_threshold_def FEE_TAX_THRESHOLD_USDG_def)
    obtain target where target: "bdiv (?T * FEE_TAX_BPS) 10000 = Inr target" by (simp add: bdiv_def)
    have T: "0 < ?T" using False th by linarith
    have td: "target = ?T div 10" by (rule target_due [OF T target])
    then have tpos: "0 < target" using False th by linarith
    have "?T \<le> 3 * is_value (largest ?ss)"
      using largest_max [of "?ss ! 0" ?ss] largest_max [of "?ss ! 1" ?ss] largest_max [of "?ss ! 2" ?ss] by simp
    then have "target \<le> is_value (largest ?ss)" unfolding td using T by linarith
    define s where "s = tax_source net target ?ss"
    have s: "s \<in> set ?ss" "target \<le> is_value s"
      using tax_source_pays [OF _ \<open>target \<le> is_value (largest ?ss)\<close>, of net] by (simp_all add: s_def)
    have "is_amount s \<noteq> 0" using s tpos v by (auto simp: valueInUsdg_def)
    then have ok: "0 < is_value s" "0 < is_amount s" using s tpos assms(2,3) nn by auto
    obtain raw where raw: "raw_tax net target s = Inr raw" using ok(1) by (cases "same_token (is_token s) (tn_settlement net)") (auto simp: raw_tax_def bdiv_nonzero)
    obtain kept sw w' where
      "tax_swaps net quote [(t0, if is_kind s = IncomeFee0 then raw else 0), (t1, if is_kind s = IncomeFee1 then raw else 0),
        (rtok, if is_kind s = IncomeReward then raw else 0)] w2 = Inr ((kept, sw), w')"
      using swaps_answer [OF assms(1)] by (metis surj_pair)
    then show ?thesis
      unfolding planFeeTax_def Let_def rtok_def [symmetric] ramt_def [symmetric]
      using assms nn v False target raw ok tpos by (simp add: s_def [symmetric])
  qed
qed


text \<open>A cycle that earned 30 units of the wrapped token, worth 300, and 2 units of the settlement token
  pays with 3 units of the first, the least number worth a tenth of 302.\<close>

definition sample_tax_net :: tax_net where
  "sample_tax_net = \<lparr>tn_chainId = 56, tn_settlement = ''0xs'', tn_wrapped = ''0xw'', tn_decimals = 1\<rparr>"

definition sample_tax_quote :: "(unit, unit) quote" where
  "sample_tax_quote tin tout amt w = Inr ((10 * amt, ()), w)"


end
