(* ===== verification/Signer.thy ===== *)
theory Signer
  imports RecoveryPolicy StoreLedger Planner
begin

text \<open>
  \<open>executor/signer.ts\<close>, the executor's only transaction sender, with the gas facts it records
  (\<open>executor/gas-accounting.ts\<close>) and the gas price it bids (\<open>src/lib/gasPrice.ts\<close>).

  The chain, the clock, viem's signing and hashing and the aggregator's quotes are parameters that
  thread a world \<open>'w\<close>.  An action returns the thrown error or its value with the state; a thrown
  error keeps what was written before it.  \<open>sd_sent\<close> is a history variable: every raw
  transaction handed to the network, with its hash and the database at that moment.
\<close>

section \<open>Actions\<close>

record legacy_tx =
  lx_chainId :: int
  lx_to :: string
  lx_data :: string
  lx_value :: int
  lx_nonce :: int
  lx_gasPrice :: int
  lx_gas :: int

record 'w sender =
  sd_db :: db
  sd_world :: 'w
  sd_sent :: "(legacy_tx \<times> string \<times> db) list"

type_synonym ('w, 'a) act = "'w sender \<Rightarrow> (thrown + 'a) \<times> 'w sender"

definition answer :: "'a \<Rightarrow> ('w, 'a) act" where "answer x s = (Inr x, s)"

definition throw :: "thrown \<Rightarrow> ('w, 'a) act" where "throw e s = (Inl e, s)"

definition andThen :: "('w, 'a) act \<Rightarrow> ('a \<Rightarrow> ('w, 'b) act) \<Rightarrow> ('w, 'b) act" where
  "andThen m f s = (case m s of (Inl e, s) \<Rightarrow> (Inl e, s) | (Inr x, s) \<Rightarrow> f x s)"

definition attemptA :: "('w, 'a) act \<Rightarrow> (thrown \<Rightarrow> ('w, 'b) act) \<Rightarrow> ('a \<Rightarrow> ('w, 'b) act) \<Rightarrow> ('w, 'b) act" where
  "attemptA m h f s = (case m s of (Inl e, s) \<Rightarrow> h e s | (Inr x, s) \<Rightarrow> f x s)"

definition new_error :: "string \<Rightarrow> thrown" where
  "new_error m = \<lparr>th_is_error = True, th_code = m, th_chain =
     [\<lparr>er_message = Some m, er_shortMessage = None, er_details = None, er_status = None, er_statusCode = None, er_code = []\<rparr>]\<rparr>"

definition fail :: "string \<Rightarrow> ('w, 'a) act" where "fail m = throw (new_error m)"

definition ensure :: "bool \<Rightarrow> string \<Rightarrow> ('w, unit) act" where
  "ensure b m = (if b then answer () else fail m)"

definition rpc :: "('w \<Rightarrow> (thrown + 'a) \<times> 'w) \<Rightarrow> ('w, 'a) act" where
  "rpc f s = (let (r, w) = f (sd_world s) in (r, s\<lparr>sd_world := w\<rparr>))"

text \<open>A statement on the store; SQLite's exceptions become errors.\<close>

definition sql_error :: "js_error \<Rightarrow> thrown" where
  "sql_error e = new_error (case e of JsError m \<Rightarrow> m | StrategyError _ m \<Rightarrow> m | RangeError \<Rightarrow> ''Division by zero''
     | UniqueFailed \<Rightarrow> ''UNIQUE constraint failed'' | ForeignKeyFailed \<Rightarrow> ''FOREIGN KEY constraint failed'')"

definition store :: "(db \<Rightarrow> db res) \<Rightarrow> ('w, unit) act" where
  "store f s = (case f (sd_db s) of Inl e \<Rightarrow> (Inl (sql_error e), s) | Inr d \<Rightarrow> (Inr (), s\<lparr>sd_db := d\<rparr>))"

section \<open>The environment\<close>

record safe_tx =
  tx_to :: string
  tx_data :: string
  tx_value :: "int option"

record receipt =
  rc_hash :: string
  rc_success :: bool
  rc_block :: int
  rc_gasUsed :: int
  rc_gasPrice :: int

record 'w chain_env =
  ev_chainId :: "'w \<Rightarrow> (thrown + int) \<times> 'w"
  ev_nonce :: "string \<Rightarrow> 'w \<Rightarrow> (thrown + int) \<times> 'w"
  ev_estimateGas :: "string \<Rightarrow> safe_tx \<Rightarrow> 'w \<Rightarrow> (thrown + int) \<times> 'w"
  ev_fees :: "'w \<Rightarrow> (thrown + int \<times> int option) \<times> 'w"
  ev_sendRaw :: "string \<Rightarrow> 'w \<Rightarrow> (thrown + string) \<times> 'w"
  ev_getTransaction :: "string \<Rightarrow> 'w \<Rightarrow> (thrown + unit) \<times> 'w"
  ev_waitReceipt :: "string \<Rightarrow> 'w \<Rightarrow> (thrown + receipt) \<times> 'w"
  ev_quote :: "string \<Rightarrow> string \<Rightarrow> int \<Rightarrow> 'w \<Rightarrow> (thrown + int) \<times> 'w"
  ev_now :: "'w \<Rightarrow> int"
  ev_sleep :: "int \<Rightarrow> 'w \<Rightarrow> 'w"
  ev_account :: "string \<Rightarrow> string"
  ev_sign :: "string \<Rightarrow> legacy_tx \<Rightarrow> string"
  ev_keccak :: "string \<Rightarrow> string"
  ev_parseUnits :: "string \<Rightarrow> int \<Rightarrow> thrown + int"
  ev_expectedChain :: int
  ev_wrapped :: string
  ev_settlement :: string
  ev_retryCount :: nat
  ev_retryDelayMs :: int

definition seconds :: "('w chain_env) \<Rightarrow> 'w sender \<Rightarrow> int" where
  "seconds env s = ev_now env (sd_world s) div 1000"

definition sleep :: "'w chain_env \<Rightarrow> int \<Rightarrow> ('w, unit) act" where
  "sleep env ms s = (Inr (), s\<lparr>sd_world := ev_sleep env ms (sd_world s)\<rparr>)"

section \<open>The gas price\<close>

definition bufferedLegacyGasPrice :: "int \<Rightarrow> int option \<Rightarrow> int option \<Rightarrow> int" where
  "bufferedLegacyGasPrice suggested baseFee previous =
     (let reference = foldl (\<lambda>highest v. if v > highest then v else highest) 0
            [suggested, case baseFee of Some b \<Rightarrow> b | None \<Rightarrow> 0, case previous of Some p \<Rightarrow> p | None \<Rightarrow> 0]
      in (reference * 125 + 99) sdiv 100)"

definition isRetryableFeeRejection :: "thrown \<Rightarrow> bool" where
  "isRetryableFeeRejection e =
     list_ex (\<lambda>p. contains p (toLower (th_code e)))
       [''max fee per gas less than block base fee'', ''fee cap less than block base fee'', ''transaction underpriced'']"

section \<open>Gas facts\<close>

definition receipt_gas :: "receipt \<Rightarrow> int" where "receipt_gas r = rc_gasUsed r * rc_gasPrice r"

definition baseMark :: "'w chain_env \<Rightarrow> strategy_config \<Rightarrow> string \<Rightarrow> receipt \<Rightarrow> int \<Rightarrow> gas_mark" where
  "baseMark env c j r now =
     \<lparr>gm_txHash = rc_hash r, gm_strategyId = cfg_id c, gm_jobId = j, gm_blockNumber = big_to_string (rc_block r),
      gm_observedAt = now, gm_gasWei = receipt_gas r, gm_quoteToken = quoteToken c, gm_quoteValue = None,
      gm_settlementToken = ev_settlement env, gm_settlementValue = None, gm_version = 1,
      gm_quoteSource = None, gm_settlementSource = None, gm_error = None\<rparr>"

definition recordConfirmedGasReceipt :: "'w chain_env \<Rightarrow> strategy_config \<Rightarrow> string \<Rightarrow> receipt \<Rightarrow> ('w, gas_mark option) act" where
  "recordConfirmedGasReceipt env c j r s =
     (let base = baseMark env c j r (seconds env s) in
      case recordGasReceipt base (sd_db s) of
        Inl _ \<Rightarrow> (Inr None, s)
      | Inr d \<Rightarrow> (Inr (gasValuation (gm_txHash base) d), s\<lparr>sd_db := d\<rparr>))"

text \<open>viem's \<open>zeroAddress\<close>, the native currency of v4 pools.\<close>

definition native_address :: string where "native_address = ''0x'' @ replicate 40 (CHR ''0'')"

definition valueAtConfirmation :: "'w chain_env \<Rightarrow> string \<Rightarrow> int \<Rightarrow> ('w, int \<times> string) act" where
  "valueAtConfirmation env tok wei =
     (if toLower tok = toLower (ev_wrapped env) \<or> toLower tok = native_address then answer (wei, ''exact_native'')
      else andThen (rpc (ev_quote env (ev_wrapped env) tok wei)) (\<lambda>v. answer (v, ''confirmation_quote'')))"

definition price_error :: "string \<Rightarrow> thrown \<Rightarrow> string" where
  "price_error which e = which @ '': '' @ (if th_is_error e then take 120 (th_code e) else ''unavailable'')"

text \<open>A valuation or the reason there is none.\<close>

definition priced :: "'w chain_env \<Rightarrow> string \<Rightarrow> string \<Rightarrow> int \<Rightarrow> ('w, (int \<times> string) option \<times> string list) act" where
  "priced env which tok wei =
     attemptA (valueAtConfirmation env tok wei) (\<lambda>e. answer (None, [price_error which e])) (\<lambda>v. answer (Some v, []))"

definition captureConfirmedGasValuation :: "'w chain_env \<Rightarrow> strategy_config \<Rightarrow> string \<Rightarrow> receipt \<Rightarrow> ('w, unit) act" where
  "captureConfirmedGasValuation env c j r =
     andThen (recordConfirmedGasReceipt env c j r) (\<lambda>base. case base of None \<Rightarrow> answer () | Some b \<Rightarrow>
       if gm_strategyId b \<noteq> cfg_id c \<or> gm_jobId b \<noteq> j \<or> gm_blockNumber b \<noteq> big_to_string (rc_block r) \<or>
          gm_gasWei b \<noteq> receipt_gas r \<or> toLower (gm_quoteToken b) \<noteq> toLower (quoteToken c) \<or>
          toLower (gm_settlementToken b) \<noteq> toLower (ev_settlement env) then answer ()
       else
         andThen (priced env ''quote'' (quoteToken c) (gm_gasWei b)) (\<lambda>(quote, errs).
         andThen (if toLower (quoteToken c) = toLower (ev_settlement env) \<and> quote \<noteq> None then answer (quote, [])
                  else priced env ''settlement'' (ev_settlement env) (gm_gasWei b)) (\<lambda>(settlement, errs').
           store (\<lambda>d. Inr (completeGasValuation
             (b\<lparr>gm_quoteValue := map_option fst quote, gm_settlementValue := map_option fst settlement,
                gm_quoteSource := map_option snd quote, gm_settlementSource := map_option snd settlement,
                gm_error := (if errs @ errs' = [] then None else Some (take 300 (join_with ''; '' (errs @ errs'))))\<rparr>) d)))))"

section \<open>Sending\<close>

text \<open>\<open>retryPreflightRpc\<close>: reads before signing, at most \<open>n\<close> attempts, the k-th failure waits \<open>250 * 2 ^ k\<close>.\<close>

fun preflight_from :: "nat \<Rightarrow> nat \<Rightarrow> 'w chain_env \<Rightarrow> ('w, 'a) act \<Rightarrow> ('w, 'a) act" where
  "preflight_from k 0 env read = fail ''undefined''"
| "preflight_from k (Suc n) env read =
     attemptA read
       (\<lambda>e. if n = 0 then throw e
            else andThen (sleep env (250 * 2 ^ k)) (\<lambda>_. preflight_from (Suc k) n env read))
       answer"

definition retryPreflightRpc :: "'w chain_env \<Rightarrow> ('w, 'a) act \<Rightarrow> ('w, 'a) act" where
  "retryPreflightRpc env read = preflight_from 0 3 env read"

text \<open>One \<open>sendRawTransaction\<close>, recorded in the history before the node answers.\<close>

definition send_raw :: "'w chain_env \<Rightarrow> legacy_tx \<Rightarrow> string \<Rightarrow> string \<Rightarrow> ('w, string) act" where
  "send_raw env tx ser h s = rpc (ev_sendRaw env ser) (s\<lparr>sd_sent := sd_sent s @ [(tx, h, sd_db s)]\<rparr>)"

fun broadcast_from :: "nat \<Rightarrow> nat \<Rightarrow> 'w chain_env \<Rightarrow> legacy_tx \<Rightarrow> string \<Rightarrow> string \<Rightarrow> ('w, string) act" where
  "broadcast_from k 0 env tx ser h = fail ''E_BROADCAST''"
| "broadcast_from k (Suc n) env tx ser h =
     attemptA (andThen (send_raw env tx ser h)
                 (\<lambda>returned. andThen (ensure (toLower returned = toLower h) ''E_BROADCAST_HASH'') (\<lambda>_. answer h)))
       (\<lambda>e. attemptA (rpc (ev_getTransaction env h))
          (\<lambda>_. if n = 0 \<or> \<not> isTransientRpcFailure e then throw e
               else andThen (sleep env (retryDelay (ev_retryDelayMs env) k)) (\<lambda>_. broadcast_from (Suc k) n env tx ser h))
          (\<lambda>_. answer h))
       answer"

definition broadcastExact :: "'w chain_env \<Rightarrow> legacy_tx \<Rightarrow> string \<Rightarrow> string \<Rightarrow> ('w, string) act" where
  "broadcastExact env tx ser h = broadcast_from 0 (Suc (ev_retryCount env)) env tx ser h"

fun receipt_from :: "nat \<Rightarrow> nat \<Rightarrow> thrown option \<Rightarrow> int \<Rightarrow> 'w chain_env \<Rightarrow> string \<Rightarrow> ('w, receipt) act" where
  "receipt_from k 0 prior deadline env h = fail ''undefined''"
| "receipt_from k (Suc n) prior deadline env h = (\<lambda>s.
     if ev_now env (sd_world s) < deadline then
       attemptA (rpc (ev_waitReceipt env h))
         (\<lambda>e. if \<not> isTransientRpcFailure e \<or> n = 0 then throw e
              else andThen (sleep env (retryDelay (ev_retryDelayMs env) (Suc k)))
                     (\<lambda>_. receipt_from (Suc k) n (Some e) deadline env h))
         answer s
     else (case prior of
             Some e \<Rightarrow> if th_is_error e then throw e s else fail (''E_RECEIPT_TIMEOUT '' @ h) s
           | None \<Rightarrow> fail (''E_RECEIPT_TIMEOUT '' @ h) s))"

definition waitForReceiptTolerant :: "'w chain_env \<Rightarrow> string \<Rightarrow> ('w, receipt) act" where
  "waitForReceiptTolerant env h s = receipt_from 0 9 None (ev_now env (sd_world s) + 300000) env h s"

record send_args =
  sa_config :: strategy_config
  sa_jobId :: string
  sa_stepIndex :: int
  sa_txIndex :: "int option"
  sa_privateKey :: string
  sa_tx :: safe_tx

definition tx_index :: "send_args \<Rightarrow> int" where
  "tx_index a = (case sa_txIndex a of Some i \<Rightarrow> i | None \<Rightarrow> 0)"

definition calldata_hash :: "'w chain_env \<Rightarrow> send_args \<Rightarrow> string" where
  "calldata_hash env a = ev_keccak env (tx_data (sa_tx a))"

definition no_marks :: mark_args where
  "no_marks = \<lparr>m_state = Sending, m_nonce = None, m_txHash = None, m_txTo = None, m_calldataHash = None,
     m_blockNumber = None, m_result = None, m_errorCode = None\<rparr>"

text \<open>\<open>markStep\<close> and then \<open>markTransaction\<close> with the same facts.\<close>

definition mark :: "'w chain_env \<Rightarrow> send_args \<Rightarrow> mark_args \<Rightarrow> ('w, unit) act" where
  "mark env a m s =
     andThen (store (\<lambda>d. Inr (markStep (sa_jobId a) (sa_stepIndex a) m (seconds env s) d)))
       (\<lambda>_. store (markTransaction (sa_jobId a) (sa_stepIndex a) (tx_index a) (tx_to (sa_tx a)) (calldata_hash env a) m
              (seconds env s))) s"

definition sending_marks :: "'w chain_env \<Rightarrow> send_args \<Rightarrow> int \<Rightarrow> string option \<Rightarrow> tx_state \<Rightarrow> mark_args" where
  "sending_marks env a n h st = no_marks\<lparr>m_state := st, m_nonce := Some n, m_txHash := h,
     m_txTo := Some (tx_to (sa_tx a)), m_calldataHash := Some (calldata_hash env a)\<rparr>"

text \<open>The caps the owner put on a transaction; an empty text counts as no cap.\<close>

definition gas_caps :: "'w chain_env \<Rightarrow> strategy_config \<Rightarrow> int \<Rightarrow> int \<Rightarrow> ('w, unit) act" where
  "gas_caps env c gas gasPrice =
     andThen (case maxGasPriceWei (execution c) of
         Some (ch # t) \<Rightarrow> (case big_of_string (ch # t) of
             None \<Rightarrow> fail ''Cannot convert to a BigInt''
           | Some m \<Rightarrow> ensure (gasPrice \<le> m) ''E_GAS_PRICE_LIMIT'')
       | _ \<Rightarrow> answer ()) (\<lambda>_.
     case maxGasQuotePerTx (execution c) of
       Some (ch # t) \<Rightarrow>
         andThen (ensure (toLower (quoteToken c) = toLower (ev_wrapped env) \<or> toLower (quoteToken c) = native_address) ''E_LIMIT_PRICE'')
           (\<lambda>_. case ev_parseUnits env (ch # t) 18 of
                  Inl e \<Rightarrow> throw e
                | Inr m \<Rightarrow> ensure (gas * gasPrice \<le> m) ''E_GAS_LIMIT'')
     | _ \<Rightarrow> answer ())"

text \<open>The signing loop: \<open>n\<close> attempts left, the previous price.\<close>

fun sign_from :: "nat \<Rightarrow> int option \<Rightarrow> 'w chain_env \<Rightarrow> send_args \<Rightarrow> int \<Rightarrow> int \<Rightarrow> ('w, string) act" where
  "sign_from 0 previous env a n gas = fail ''E_BROADCAST''"
| "sign_from (Suc left) previous env a n gas =
     andThen (retryPreflightRpc env (rpc (ev_fees env))) (\<lambda>(suggested, baseFee).
     let gasPrice = bufferedLegacyGasPrice suggested baseFee previous in
     andThen (gas_caps env (sa_config a) gas gasPrice) (\<lambda>_.
     let tx = \<lparr>lx_chainId = ev_expectedChain env, lx_to = tx_to (sa_tx a), lx_data = tx_data (sa_tx a),
               lx_value = (case tx_value (sa_tx a) of Some v \<Rightarrow> v | None \<Rightarrow> 0), lx_nonce = n,
               lx_gasPrice = gasPrice, lx_gas = gas\<rparr>;
         ser = ev_sign env (sa_privateKey a) tx;
         h = ev_keccak env ser
     in andThen (mark env a (sending_marks env a n (Some h) Sending)) (\<lambda>_.
        attemptA (broadcastExact env tx ser h)
          (\<lambda>e. if left = 0 \<or> \<not> isRetryableFeeRejection e then throw e
               else sign_from left (Some gasPrice) env a n gas)
          answer)))"

definition settle :: "'w chain_env \<Rightarrow> send_args \<Rightarrow> string \<Rightarrow> receipt \<Rightarrow> ('w, receipt) act" where
  "settle env a h r =
     (if \<not> rc_success r then
        andThen (mark env a (no_marks\<lparr>m_state := FailedTx, m_txHash := Some h, m_blockNumber := Some (rc_block r),
                                       m_errorCode := Some ''E_TX_REVERTED''\<rparr>)) (\<lambda>_. fail ''E_TX_REVERTED'')
      else
        andThen (recordConfirmedGasReceipt env (sa_config a) (sa_jobId a) r) (\<lambda>_.
        andThen (mark env a (no_marks\<lparr>m_state := Confirmed, m_txHash := Some h, m_blockNumber := Some (rc_block r),
                    m_result := Some (JObj [(''gasUsed'', JStr (big_to_string (rc_gasUsed r)))])\<rparr>)) (\<lambda>_.
        andThen (captureConfirmedGasValuation env (sa_config a) (sa_jobId a) r) (\<lambda>_. answer r))))"

definition sendTracked :: "'w chain_env \<Rightarrow> send_args \<Rightarrow> ('w, receipt) act" where
  "sendTracked env a s =
     (let account = ev_account env (sa_privateKey a) in
      andThen (ensure (\<not> executorPaused (sd_db s)) ''E_EXECUTOR_PAUSED'') (\<lambda>_.
      andThen (ensure (toLower account = toLower (owner (sa_config a))) ''E_OWNER'') (\<lambda>_.
      andThen (retryPreflightRpc env (rpc (ev_chainId env))) (\<lambda>chain.
      andThen (ensure (chain = ev_expectedChain env) ''E_CHAIN'') (\<lambda>_.
      andThen (retryPreflightRpc env (rpc (ev_nonce env account))) (\<lambda>n.
      andThen (retryPreflightRpc env (rpc (ev_estimateGas env account (sa_tx a)))) (\<lambda>estimated.
      let gas = (estimated * 120 + 99) sdiv 100 in
      andThen (mark env a (sending_marks env a n None Sending)) (\<lambda>_.
      andThen (sign_from 3 None env a n gas) (\<lambda>h.
      andThen (mark env a (sending_marks env a n (Some h) Sent)) (\<lambda>_.
      andThen (waitForReceiptTolerant env h) (settle env a h))))))))))
     s)"

section \<open>What an action may touch\<close>

named_theorems act_cases \<open>the two ways an action ends\<close>

lemma andThen_cases [act_cases]:
  "andThen m f s = (r, s') \<longleftrightarrow>
     (\<exists>e. m s = (Inl e, s') \<and> r = Inl e) \<or> (\<exists>x t. m s = (Inr x, t) \<and> f x t = (r, s'))"
  by (auto simp: andThen_def split: prod.splits sum.splits)

lemma attemptA_cases [act_cases]:
  "attemptA m h f s = (r, s') \<longleftrightarrow>
     (\<exists>e t. m s = (Inl e, t) \<and> h e t = (r, s')) \<or> (\<exists>x t. m s = (Inr x, t) \<and> f x t = (r, s'))"
  by (auto simp: attemptA_def split: prod.splits sum.splits)

lemma answer_cases [act_cases]: "answer x s = (r, s') \<longleftrightarrow> r = Inr x \<and> s' = s"
  by (auto simp: answer_def)

lemma throw_cases [act_cases]: "throw e s = (r, s') \<longleftrightarrow> r = Inl e \<and> s' = s"
  by (auto simp: throw_def)

lemma fail_cases [act_cases]: "fail m s = (r, s') \<longleftrightarrow> r = Inl (new_error m) \<and> s' = s"
  by (auto simp: fail_def throw_def)

lemma ensure_cases [act_cases]: "ensure b m s = (r, s') \<longleftrightarrow> s' = s \<and> r = (if b then Inr () else Inl (new_error m))"
  by (auto simp: ensure_def act_cases)

text \<open>An action that leaves the database and the history alone: it talks to the chain and waits.\<close>

definition outside :: "('w, 'a) act \<Rightarrow> bool" where
  "outside m \<longleftrightarrow> (\<forall>s. sd_db (snd (m s)) = sd_db s \<and> sd_sent (snd (m s)) = sd_sent s)"

lemma outsideD: "outside m \<Longrightarrow> m s = (r, s') \<Longrightarrow> sd_db s' = sd_db s \<and> sd_sent s' = sd_sent s"
  by (metis outside_def snd_conv)

lemma outsideI: "(\<And>s r s'. m s = (r, s') \<Longrightarrow> sd_db s' = sd_db s \<and> sd_sent s' = sd_sent s) \<Longrightarrow> outside m"
  unfolding outside_def by (metis prod.collapse)

named_theorems stays_outside \<open>actions that leave the database and the history alone\<close>

lemma outside_basic [stays_outside]:
  "outside (rpc f)" "outside (sleep env ms)" "outside (answer x)" "outside (throw e)" "outside (fail m)" "outside (ensure b m)"
  by (auto intro!: outsideI simp: act_cases rpc_def sleep_def Let_def split: prod.splits)

lemma outside_andThen [stays_outside]: "outside m \<Longrightarrow> (\<And>x. outside (f x)) \<Longrightarrow> outside (andThen m f)"
proof (rule outsideI)
  fix s r s' assume m: "outside m" and f: "\<And>x. outside (f x)" and "andThen m f s = (r, s')"
  then consider e where "m s = (Inl e, s')" | x t where "m s = (Inr x, t)" "f x t = (r, s')"
    unfolding andThen_cases by blast
  then show "sd_db s' = sd_db s \<and> sd_sent s' = sd_sent s"
  proof cases
    case 1
    show ?thesis by (rule outsideD [OF m 1])
  next
    case 2
    then show ?thesis using outsideD [OF m 2(1)] outsideD [OF f 2(2)] by simp
  qed
qed

lemma outside_attempt [stays_outside]:
  "outside m \<Longrightarrow> (\<And>e. outside (h e)) \<Longrightarrow> (\<And>x. outside (f x)) \<Longrightarrow> outside (attemptA m h f)"
proof (rule outsideI)
  fix s r s' assume m: "outside m" and h: "\<And>e. outside (h e)" and f: "\<And>x. outside (f x)" and "attemptA m h f s = (r, s')"
  then consider e t where "m s = (Inl e, t)" "h e t = (r, s')" | x t where "m s = (Inr x, t)" "f x t = (r, s')"
    unfolding attemptA_cases by blast
  then show "sd_db s' = sd_db s \<and> sd_sent s' = sd_sent s"
  proof cases
    case 1
    then show ?thesis using outsideD [OF m 1(1)] outsideD [OF h 1(2)] by simp
  next
    case 2
    then show ?thesis using outsideD [OF m 2(1)] outsideD [OF f 2(2)] by simp
  qed
qed

lemma outside_preflight [stays_outside]: "outside read \<Longrightarrow> outside (preflight_from k n env read)"
  by (induction n arbitrary: k) (auto intro!: stays_outside)

lemma outside_retry [stays_outside]: "outside read \<Longrightarrow> outside (retryPreflightRpc env read)"
  by (simp add: retryPreflightRpc_def stays_outside)

lemma outside_receipt_from: "outside (receipt_from k n prior deadline env h)"
proof (induction n arbitrary: k prior)
  case (Suc n)
  have "outside (attemptA (rpc (ev_waitReceipt env h))
         (\<lambda>e. if \<not> isTransientRpcFailure e \<or> n = 0 then throw e
              else andThen (sleep env (retryDelay (ev_retryDelayMs env) (Suc k)))
                     (\<lambda>_. receipt_from (Suc k) n (Some e) deadline env h)) answer)"
    by (auto intro!: stays_outside Suc)
  note inner = this
  show ?case
  proof (rule outsideI)
    fix s r s' assume r: "receipt_from k (Suc n) prior deadline env h s = (r, s')"
    show "sd_db s' = sd_db s \<and> sd_sent s' = sd_sent s"
    proof (cases "ev_now env (sd_world s) < deadline")
      case True
      then show ?thesis using r outsideD [OF inner] by (simp del: attemptA_cases)
    next
      case False
      then show ?thesis using r by (auto simp: act_cases split: option.splits if_splits)
    qed
  qed
qed (simp add: stays_outside)

lemma outside_wait [stays_outside]: "outside (waitForReceiptTolerant env h)"
  by (rule outsideI) (simp add: waitForReceiptTolerant_def outsideD [OF outside_receipt_from])

lemma outside_caps [stays_outside]: "outside (gas_caps env c gas p)"
  unfolding gas_caps_def
  by (intro outside_andThen) (auto intro!: stays_outside split: option.splits list.splits sum.splits)

section \<open>The slot of a transaction\<close>

definition slot :: "send_args \<Rightarrow> db \<Rightarrow> tx_row option" where
  "slot a d = get_where (\<lambda>r. tx_key r = (sa_jobId a, sa_stepIndex a, tx_index a)) (job_transactions d)"

definition slot_hash :: "send_args \<Rightarrow> db \<Rightarrow> string option" where
  "slot_hash a d = (case slot a d of None \<Rightarrow> None | Some r \<Rightarrow> t_tx_hash r)"

definition slot_is :: "'w chain_env \<Rightarrow> send_args \<Rightarrow> tx_state \<Rightarrow> int \<Rightarrow> string option \<Rightarrow> db \<Rightarrow> bool" where
  "slot_is env a st n h d \<longleftrightarrow> (\<exists>r. slot a d = Some r \<and> t_state r = st \<and> t_nonce r = Some n \<and> t_tx_hash r = h \<and>
     t_tx_to r = tx_to (sa_tx a) \<and> t_calldata_hash r = calldata_hash env a)"

lemma slot_markTransaction:
  assumes "markTransaction (sa_jobId a) (sa_stepIndex a) (tx_index a) to cd m now d = Inr d'"
  shows "\<exists>r. slot a d' = Some r \<and> t_state r = m_state m \<and> t_tx_to r = to \<and> t_calldata_hash r = cd \<and>
    t_nonce r = coalesce (m_nonce m) (case slot a d of None \<Rightarrow> None | Some q \<Rightarrow> t_nonce q) \<and>
    t_tx_hash r = coalesce (m_txHash m) (slot_hash a d)"
proof -
  define f where "f = (\<lambda>r :: tx_row. r\<lparr>t_state := m_state m, t_nonce := coalesce (m_nonce m) (t_nonce r),
      t_tx_hash := coalesce (m_txHash m) (t_tx_hash r), t_tx_to := to, t_calldata_hash := cd,
      t_sent_at := coalesce (if m_state m = Sent then Some now else None) (t_sent_at r),
      t_confirmed_at := coalesce (if m_state m = Confirmed then Some now else None) (t_confirmed_at r),
      t_block_number := coalesce (m_blockNumber m) (t_block_number r), t_result := coalesce (m_result m) (t_result r),
      t_error := (if m_state m = FailedTx then coalesce (m_errorCode m) (t_error r) else None)\<rparr>)"
  define row where "row = \<lparr>t_job_id = sa_jobId a, t_step_index = sa_stepIndex a, t_tx_index = tx_index a, t_state = m_state m,
      t_nonce = m_nonce m, t_tx_hash = m_txHash m, t_tx_to = to, t_calldata_hash = cd,
      t_sent_at = (if m_state m = Sent then Some now else None), t_confirmed_at = (if m_state m = Confirmed then Some now else None),
      t_block_number = m_blockNumber m, t_result = m_result m, t_error = m_errorCode m\<rparr>"
  have t: "job_transactions d' = upsert tx_key f row (job_transactions d)"
    using assms by (auto simp: markTransaction_def Let_def fk_def write_txs_def f_def row_def split: if_splits)
  have key: "tx_key (f r) = tx_key r" for r by (simp add: tx_key_def f_def)
  have row: "tx_key row = (sa_jobId a, sa_stepIndex a, tx_index a)" by (simp add: tx_key_def row_def)
  have "slot a d' = Some (case slot a d of None \<Rightarrow> row | Some q \<Rightarrow> f q)"
    unfolding slot_def t get_upsert [of tx_key f, OF key] row by (simp split: option.splits)
  then show ?thesis by (cases "slot a d") (simp_all add: f_def row_def slot_hash_def coalesce_def split: option.splits)
qed

lemma slot_markStep: "slot a (markStep j i m now d) = slot a d"
  by (simp add: slot_def markStep_def)

lemma store_cases: "store f s = (r, s') \<longleftrightarrow>
    (\<exists>e. f (sd_db s) = Inl e \<and> r = Inl (sql_error e) \<and> s' = s) \<or> (\<exists>d. f (sd_db s) = Inr d \<and> r = Inr () \<and> s' = s\<lparr>sd_db := d\<rparr>)"
  by (auto simp: store_def split: sum.splits)

lemma mark_ends:
  assumes "mark env a m s = (r, s')"
  shows "sd_sent s' = sd_sent s"
    and "r = Inr () \<Longrightarrow> \<exists>q. slot a (sd_db s') = Some q \<and> t_state q = m_state m \<and> t_tx_to q = tx_to (sa_tx a) \<and>
      t_calldata_hash q = calldata_hash env a \<and>
      t_nonce q = coalesce (m_nonce m) (case slot a (sd_db s) of None \<Rightarrow> None | Some q \<Rightarrow> t_nonce q) \<and>
      t_tx_hash q = coalesce (m_txHash m) (slot_hash a (sd_db s))"
    and "r = Inl e \<Longrightarrow> slot a (sd_db s') = slot a (sd_db s)"
proof -
  let ?d1 = "markStep (sa_jobId a) (sa_stepIndex a) m (seconds env s) (sd_db s)"
  let ?M = "markTransaction (sa_jobId a) (sa_stepIndex a) (tx_index a) (tx_to (sa_tx a)) (calldata_hash env a) m (seconds env s) ?d1"
  from assms consider e where "?M = Inl e" "r = Inl (sql_error e)" "s' = s\<lparr>sd_db := ?d1\<rparr>"
    | d where "?M = Inr d" "r = Inr ()" "s' = s\<lparr>sd_db := d\<rparr>"
    unfolding mark_def andThen_cases store_cases by auto
  note c = this
  show "sd_sent s' = sd_sent s" using c by cases simp_all
  have h: "slot_hash a ?d1 = slot_hash a (sd_db s)" by (simp add: slot_hash_def slot_markStep)
  show "\<exists>q. slot a (sd_db s') = Some q \<and> t_state q = m_state m \<and> t_tx_to q = tx_to (sa_tx a) \<and>
      t_calldata_hash q = calldata_hash env a \<and>
      t_nonce q = coalesce (m_nonce m) (case slot a (sd_db s) of None \<Rightarrow> None | Some q \<Rightarrow> t_nonce q) \<and>
      t_tx_hash q = coalesce (m_txHash m) (slot_hash a (sd_db s))" if "r = Inr ()"
    using c
  proof cases
    case 2
    from slot_markTransaction [OF 2(1)] 2(3) show ?thesis by (simp add: slot_markStep h)
  qed (use that in simp)
  show "r = Inl e \<Longrightarrow> slot a (sd_db s') = slot a (sd_db s)" for e
    using c by cases (simp_all add: slot_markStep)
qed

section \<open>Broadcasting\<close>

lemma send_raw_ends:
  "send_raw env tx ser h s = (r, s') \<Longrightarrow> sd_db s' = sd_db s \<and> sd_sent s' = sd_sent s @ [(tx, h, sd_db s)]"
  by (auto simp: send_raw_def rpc_def Let_def split: prod.splits)

text \<open>Every attempt sends the same transaction; the database does not move meanwhile.\<close>

lemma broadcast_from_ends:
  assumes "broadcast_from k n env tx ser h s = (r, s')"
  shows "sd_db s' = sd_db s \<and> (\<exists>i \<le> n. sd_sent s' = sd_sent s @ replicate i (tx, h, sd_db s) \<and> (0 < n \<longrightarrow> 0 < i)) \<and>
    (\<forall>x. r = Inr x \<longrightarrow> x = h)"
  using assms
proof (induction n arbitrary: k s)
  case 0
  then show ?case by (simp add: act_cases)
next
  case (Suc n)
  let ?once = "andThen (send_raw env tx ser h)
    (\<lambda>returned. andThen (ensure (toLower returned = toLower h) ''E_BROADCAST_HASH'') (\<lambda>_. answer h))"
  obtain r1 t where t: "?once s = (r1, t)" by (cases "?once s")
  have sent: "sd_db t = sd_db s" "sd_sent t = sd_sent s @ [(tx, h, sd_db s)]" and r1: "\<And>x. r1 = Inr x \<Longrightarrow> x = h"
    using t by (auto simp: act_cases dest: send_raw_ends split: if_splits)
  show ?case
  proof (cases r1)
    case (Inr x)
    then show ?thesis using Suc.prems t sent r1 by (auto simp: act_cases intro!: exI [of _ 1])
  next
    case (Inl e)
    obtain r2 u where u: "rpc (ev_getTransaction env h) t = (r2, u)" by (cases "rpc (ev_getTransaction env h) t")
    have same: "sd_db u = sd_db t" "sd_sent u = sd_sent t" using outsideD [OF outside_basic(1) u] by simp_all
    show ?thesis
    proof (cases "\<exists>v. r2 = Inr v \<or> n = 0 \<or> \<not> isTransientRpcFailure e")
      case True
      then have "s' = u \<and> (\<forall>x. r = Inr x \<longrightarrow> x = h)"
        using Suc.prems t Inl u by (auto simp: act_cases split: if_splits)
      then show ?thesis using sent same by (auto intro!: exI [of _ 1])
    next
      case False
      then obtain e2 where e2: "r2 = Inl e2" "n \<noteq> 0" "isTransientRpcFailure e" by (cases r2) auto
      obtain w where w: "sleep env (retryDelay (ev_retryDelayMs env) k) u = (Inr (), w)" by (simp add: sleep_def)
      have "broadcast_from (Suc k) n env tx ser h w = (r, s')"
        using Suc.prems t Inl u e2 w by (auto simp: act_cases)
      from Suc.IH [OF this] obtain i where i: "sd_db s' = sd_db w" "i \<le> n"
        "sd_sent s' = sd_sent w @ replicate i (tx, h, sd_db w)" "\<forall>x. r = Inr x \<longrightarrow> x = h" by blast
      moreover have "sd_db w = sd_db u" "sd_sent w = sd_sent u" using outsideD [OF outside_basic(2) w] by simp_all
      ultimately show ?thesis using sent same by (auto intro!: exI [of _ "Suc i"])
    qed
  qed
qed

lemma broadcast_ends:
  assumes "broadcastExact env tx ser h s = (r, s')"
  shows "sd_db s' = sd_db s" "\<exists>i. 0 < i \<and> i \<le> Suc (ev_retryCount env) \<and> sd_sent s' = sd_sent s @ replicate i (tx, h, sd_db s)"
    "r = Inr x \<Longrightarrow> x = h"
  using broadcast_from_ends [OF assms [unfolded broadcastExact_def]] by auto

section \<open>What is signed\<close>

definition within_caps :: "'w chain_env \<Rightarrow> strategy_config \<Rightarrow> int \<Rightarrow> int \<Rightarrow> bool" where
  "within_caps env c gas price \<longleftrightarrow>
     (case maxGasPriceWei (execution c) of
        Some (ch # t) \<Rightarrow> (case big_of_string (ch # t) of Some m \<Rightarrow> price \<le> m | None \<Rightarrow> False)
      | _ \<Rightarrow> True) \<and>
     (case maxGasQuotePerTx (execution c) of
        Some (ch # t) \<Rightarrow> (toLower (quoteToken c) = toLower (ev_wrapped env) \<or> toLower (quoteToken c) = native_address) \<and>
          (case ev_parseUnits env (ch # t) 18 of Inr m \<Rightarrow> gas * price \<le> m | Inl _ \<Rightarrow> False)
      | _ \<Rightarrow> True)"

lemma caps_checked: "gas_caps env c gas price s = (Inr u, s') \<Longrightarrow> within_caps env c gas price"
  by (auto simp: gas_caps_def within_caps_def act_cases split: option.splits list.splits sum.splits if_splits)

text \<open>A transaction as it must be when it reaches the network: the requested call at one nonce, within
  the caps, signed and hashed, and its hash already in its slot of the database.\<close>

definition sent_ok :: "'w chain_env \<Rightarrow> send_args \<Rightarrow> int \<Rightarrow> int \<Rightarrow> legacy_tx \<times> string \<times> db \<Rightarrow> bool" where
  "sent_ok env a n gas x \<longleftrightarrow> (case x of (tx, h, d) \<Rightarrow>
     lx_chainId tx = ev_expectedChain env \<and> lx_to tx = tx_to (sa_tx a) \<and> lx_data tx = tx_data (sa_tx a) \<and>
     lx_value tx = (case tx_value (sa_tx a) of Some v \<Rightarrow> v | None \<Rightarrow> 0) \<and> lx_nonce tx = n \<and> lx_gas tx = gas \<and>
     h = ev_keccak env (ev_sign env (sa_privateKey a) tx) \<and>
     within_caps env (sa_config a) gas (lx_gasPrice tx) \<and> slot_is env a Sending n (Some h) d)"

lemma mark_sending:
  assumes "mark env a (sending_marks env a n (Some h) st) s = (Inr (), s')"
  shows "slot_is env a st n (Some h) (sd_db s')" "slot_hash a (sd_db s') = Some h" "sd_sent s' = sd_sent s"
  using mark_ends [OF assms] by (auto simp: slot_is_def slot_hash_def sending_marks_def no_marks_def)

lemma slot_hash_is: "slot_is env a st n h d \<Longrightarrow> slot_hash a d = h"
  by (auto simp: slot_is_def slot_hash_def)

text \<open>What a run of sends leaves: a bounded number of them, each in order, the last one's hash in the slot.\<close>

definition sent_run :: "'w chain_env \<Rightarrow> send_args \<Rightarrow> int \<Rightarrow> int \<Rightarrow> nat \<Rightarrow> 'w sender \<Rightarrow> 'w sender \<Rightarrow> (legacy_tx \<times> string \<times> db) list \<Rightarrow> bool" where
  "sent_run env a n gas most s s' new \<longleftrightarrow>
     sd_sent s' = sd_sent s @ new \<and> length new \<le> most \<and> list_all (sent_ok env a n gas) new \<and>
     slot_hash a (sd_db s') = (if new = [] then slot_hash a (sd_db s) else Some (fst (snd (last new))))"

lemma andThen_step: "m s = (Inr x, t) \<Longrightarrow> andThen m f s = f x t"
  by (simp add: andThen_def)

lemma sign_from_ends:
  assumes "sign_from left previous env a n gas s = (r, s')"
  shows "\<exists>new. sent_run env a n gas (left * Suc (ev_retryCount env)) s s' new \<and>
    (\<forall>h. r = Inr h \<longrightarrow> new \<noteq> [] \<and> h = fst (snd (last new)))"
  using assms
proof (induction left arbitrary: previous s)
  case 0
  then show ?case by (auto simp: act_cases sent_run_def)
next
  case (Suc left)
  have none: ?case if "sd_sent s' = sd_sent s" "slot_hash a (sd_db s') = slot_hash a (sd_db s)" "\<nexists>h. r = Inr h"
    using that by (auto simp: sent_run_def intro!: exI [of _ "[]"])
  obtain r1 s1 where r1: "retryPreflightRpc env (rpc (ev_fees env)) s = (r1, s1)" by (meson surj_pair)
  have q1: "sd_db s1 = sd_db s" "sd_sent s1 = sd_sent s"
    using outsideD [OF outside_retry [OF outside_basic(1)] r1] by simp_all
  show ?case
  proof (cases r1)
    case (Inl e)
    then show ?thesis using Suc.prems r1 q1 by (intro none) (auto simp: act_cases)
  next
    case (Inr fees)
    obtain suggested baseFee where fees: "fees = (suggested, baseFee)" by (cases fees)
    define price where "price = bufferedLegacyGasPrice suggested baseFee previous"
    obtain r2 s2 where r2: "gas_caps env (sa_config a) gas price s1 = (r2, s2)" by (meson surj_pair)
    have q2: "sd_db s2 = sd_db s" "sd_sent s2 = sd_sent s" using outsideD [OF outside_caps r2] q1 by simp_all
    show ?thesis
    proof (cases r2)
      case (Inl e)
      then show ?thesis using Suc.prems r1 Inr fees r2 q2 by (intro none) (auto simp: act_cases price_def Let_def)
    next
      case r2R: (Inr u)
      define tx where "tx = \<lparr>lx_chainId = ev_expectedChain env, lx_to = tx_to (sa_tx a), lx_data = tx_data (sa_tx a),
        lx_value = (case tx_value (sa_tx a) of Some v \<Rightarrow> v | None \<Rightarrow> 0), lx_nonce = n, lx_gasPrice = price, lx_gas = gas\<rparr>"
      define h where "h = ev_keccak env (ev_sign env (sa_privateKey a) tx)"
      obtain r3 s3 where r3: "mark env a (sending_marks env a n (Some h) Sending) s2 = (r3, s3)" by (meson surj_pair)
      have tail: "andThen (mark env a (sending_marks env a n (Some h) Sending)) (\<lambda>_.
          attemptA (broadcastExact env tx (ev_sign env (sa_privateKey a) tx) h)
            (\<lambda>e. if left = 0 \<or> \<not> isRetryableFeeRejection e then throw e else sign_from left (Some price) env a n gas) answer) s2 = (r, s')"
        using Suc.prems
        unfolding sign_from.simps andThen_step [of "retryPreflightRpc env (rpc (ev_fees env))" s "(suggested, baseFee)" s1, OF r1 [unfolded Inr fees]] Let_def prod.case price_def [symmetric]
          andThen_step [of "gas_caps env (sa_config a) gas price" s1 u s2, OF r2 [unfolded r2R]] tx_def [symmetric] h_def [symmetric] .
      show ?thesis
      proof (cases r3)
        case (Inl e)
        then show ?thesis
          using tail r3 q2 mark_ends(1) [OF r3] mark_ends(3) [OF r3] by (intro none) (auto simp: act_cases slot_hash_def)
      next
        case r3R: (Inr v)
        have r3': "mark env a (sending_marks env a n (Some h) Sending) s2 = (Inr (), s3)" using r3 r3R by simp
        note m = mark_sending [OF r3']
        obtain r4 s4 where r4: "broadcastExact env tx (ev_sign env (sa_privateKey a) tx) h s3 = (r4, s4)" by (meson surj_pair)
        obtain i where i: "0 < i" "i \<le> Suc (ev_retryCount env)" "sd_sent s4 = sd_sent s3 @ replicate i (tx, h, sd_db s3)"
          using broadcast_ends(2) [OF r4] by blast
        have d4: "sd_db s4 = sd_db s3" by (rule broadcast_ends(1) [OF r4])
        have ok: "sent_ok env a n gas (tx, h, sd_db s3)"
          using caps_checked [OF r2 [unfolded r2R]] m(1) by (simp add: sent_ok_def tx_def h_def)
        let ?one = "replicate i (tx, h, sd_db s3)"
        have one: "list_all (sent_ok env a n gas) ?one" "?one \<noteq> []" "fst (snd (last ?one)) = h"
          using ok i(1) by (simp_all add: list_all_iff)
        have sent4: "sd_sent s4 = sd_sent s @ ?one" using i(3) m(3) q2 by simp
        have end4: "attemptA (broadcastExact env tx (ev_sign env (sa_privateKey a) tx) h)
            (\<lambda>e. if left = 0 \<or> \<not> isRetryableFeeRejection e then throw e else sign_from left (Some price) env a n gas) answer s3 = (r, s')"
          using tail unfolding andThen_step [of "mark env a (sending_marks env a n (Some h) Sending)" s2 "()" s3, OF r3'] .
        have stop: ?thesis if "s' = s4" "\<forall>g. r = Inr g \<longrightarrow> g = h"
          using that sent4 one i(2) d4 m(2) by (intro exI [of _ ?one]) (auto simp: sent_run_def)
        show ?thesis
        proof (cases "\<exists>e. r4 = Inl e \<and> left \<noteq> 0 \<and> isRetryableFeeRejection e")
          case False
          then show ?thesis
            using end4 r4 broadcast_ends(3) [OF r4] by (intro stop) (auto simp: act_cases split: if_splits)
        next
          case True
          then have "sign_from left (Some price) env a n gas s4 = (r, s')" using end4 r4 by (auto simp: act_cases)
          from Suc.IH [OF this] obtain new where new: "sent_run env a n gas (left * Suc (ev_retryCount env)) s4 s' new"
            "\<forall>g. r = Inr g \<longrightarrow> new \<noteq> [] \<and> g = fst (snd (last new))" by blast
          show ?thesis
            using new one sent4 i(2) d4 m(2) by (intro exI [of _ "?one @ new"]) (auto simp: sent_run_def)
        qed
      qed
    qed
  qed
qed

section \<open>The whole send\<close>

text \<open>An action that leaves the transactions and the history alone: accounting.\<close>

definition accounting :: "('w, 'a) act \<Rightarrow> bool" where
  "accounting m \<longleftrightarrow> (\<forall>s. job_transactions (sd_db (snd (m s))) = job_transactions (sd_db s) \<and> sd_sent (snd (m s)) = sd_sent s)"

lemma accountingI:
  "(\<And>s r s'. m s = (r, s') \<Longrightarrow> job_transactions (sd_db s') = job_transactions (sd_db s) \<and> sd_sent s' = sd_sent s) \<Longrightarrow> accounting m"
  unfolding accounting_def by (metis prod.collapse)

lemma accountingD:
  "accounting m \<Longrightarrow> m s = (r, s') \<Longrightarrow> job_transactions (sd_db s') = job_transactions (sd_db s) \<and> sd_sent s' = sd_sent s"
  by (metis accounting_def snd_conv)

named_theorems accounts \<open>actions that leave the transactions and the history alone\<close>

lemma accounting_outside [accounts]: "outside m \<Longrightarrow> accounting m"
  by (rule accountingI) (drule (1) outsideD, simp)

lemma accounting_andThen [accounts]:
  assumes m: "accounting m" and f: "\<And>x. accounting (f x)"
  shows "accounting (andThen m f)"
proof (rule accountingI)
  fix s r s' assume "andThen m f s = (r, s')"
  then consider e where "m s = (Inl e, s')" | x t where "m s = (Inr x, t)" "f x t = (r, s')"
    unfolding andThen_cases by blast
  then show "job_transactions (sd_db s') = job_transactions (sd_db s) \<and> sd_sent s' = sd_sent s"
  proof cases
    case 1
    show ?thesis by (rule accountingD [OF m 1])
  next
    case 2
    then show ?thesis using accountingD [OF m 2(1)] accountingD [OF f 2(2)] by simp
  qed
qed

lemma accounting_record [accounts]: "accounting (recordConfirmedGasReceipt env c j r)"
proof (rule accountingI)
  fix s q s' assume q: "recordConfirmedGasReceipt env c j r s = (q, s')"
  have "recordGasReceipt m d = Inr d' \<Longrightarrow> job_transactions d' = job_transactions d" for m d d'
    by (auto simp: recordGasReceipt_def fk_def split: if_splits)
  then show "job_transactions (sd_db s') = job_transactions (sd_db s) \<and> sd_sent s' = sd_sent s"
    using q by (auto simp: recordConfirmedGasReceipt_def Let_def split: sum.splits)
qed

lemma accounting_complete [accounts]: "accounting (store (\<lambda>d. Inr (completeGasValuation m d)))"
  by (rule accountingI) (auto simp: store_cases completeGasValuation_def)

lemma outside_priced [stays_outside]: "outside (priced env which tok wei)"
  unfolding priced_def valueAtConfirmation_def by (intro outside_attempt) (auto intro!: stays_outside)

lemma accounting_quiet: "accounting (priced env which tok wei)" "accounting (answer x)"
  by (auto intro!: accounting_outside stays_outside)

lemma accounting_capture [accounts]: "accounting (captureConfirmedGasValuation env c j r)"
  unfolding captureConfirmedGasValuation_def
  by (intro accounting_andThen accounting_record)
    (auto intro!: accounting_andThen accounting_complete accounting_quiet split: option.split)

lemma slot_same: "job_transactions d' = job_transactions d \<Longrightarrow> slot a d' = slot a d"
  by (simp add: slot_def)

lemma mark_keeps_hash:
  assumes "mark env a m s = (r, s')" "slot_hash a (sd_db s) = Some h" "m_txHash m = Some h"
  shows "slot_hash a (sd_db s') = Some h"
proof (cases r)
  case (Inl e)
  then show ?thesis using mark_ends(3) [OF assms(1)] assms(2) by (simp add: slot_hash_def)
next
  case (Inr u)
  then show ?thesis using mark_ends(2) [OF assms(1)] assms(3) by (auto simp: slot_hash_def)
qed

lemma settle_ends:
  assumes "settle env a h rc s = (r, s')" "slot_hash a (sd_db s) = Some h"
  shows "sd_sent s' = sd_sent s" "slot_hash a (sd_db s') = Some h"
    "r = Inr q \<Longrightarrow> q = rc \<and> rc_success rc \<and> (\<exists>t. slot a (sd_db s') = Some t \<and> t_state t = Confirmed \<and> t_tx_hash t = Some h)"
proof -
  let ?failed = "no_marks\<lparr>m_state := FailedTx, m_txHash := Some h, m_blockNumber := Some (rc_block rc), m_errorCode := Some ''E_TX_REVERTED''\<rparr>"
  let ?done = "no_marks\<lparr>m_state := Confirmed, m_txHash := Some h, m_blockNumber := Some (rc_block rc),
                    m_result := Some (JObj [(''gasUsed'', JStr (big_to_string (rc_gasUsed rc)))])\<rparr>"
  have "sd_sent s' = sd_sent s \<and> slot_hash a (sd_db s') = Some h \<and>
    (\<forall>q. r = Inr q \<longrightarrow> q = rc \<and> rc_success rc \<and> (\<exists>t. slot a (sd_db s') = Some t \<and> t_state t = Confirmed \<and> t_tx_hash t = Some h))"
  proof (cases "rc_success rc")
    case False
    obtain r1 s1 where m: "mark env a ?failed s = (r1, s1)" by (meson surj_pair)
    have "andThen (mark env a ?failed) (\<lambda>_. fail ''E_TX_REVERTED'') s = (r, s')" using assms(1) False by (simp add: settle_def)
    then have "s' = s1 \<and> (\<exists>e. r = Inl e)" unfolding andThen_cases m fail_cases by auto
    then show ?thesis using mark_ends(1) [OF m] mark_keeps_hash [OF m assms(2)] by (auto simp: no_marks_def)
  next
    case True
    obtain r1 s1 where g: "recordConfirmedGasReceipt env (sa_config a) (sa_jobId a) rc s = (r1, s1)" by (meson surj_pair)
    obtain r2 s2 where m: "mark env a ?done s1 = (r2, s2)" by (meson surj_pair)
    obtain r3 s3 where v: "captureConfirmedGasValuation env (sa_config a) (sa_jobId a) rc s2 = (r3, s3)" by (meson surj_pair)
    note g1 = accountingD [OF accounting_record g] and v1 = accountingD [OF accounting_capture v]
    have h1: "slot_hash a (sd_db s1) = Some h" using g1 assms(2) by (simp add: slot_hash_def slot_same [of "sd_db s1" "sd_db s"])
    have h2: "slot_hash a (sd_db s2) = Some h" by (rule mark_keeps_hash [OF m h1]) simp
    have sent: "sd_sent s1 = sd_sent s" "sd_sent s2 = sd_sent s1" "sd_sent s3 = sd_sent s2"
      using g1 mark_ends(1) [OF m] v1 by simp_all
    have same: "slot a (sd_db s3) = slot a (sd_db s2)" by (rule slot_same) (use v1 in simp)
    obtain u where u: "r1 = Inr u" using g by (auto simp: recordConfirmedGasReceipt_def Let_def split: sum.splits)
    have "andThen (mark env a ?done) (\<lambda>_. andThen (captureConfirmedGasValuation env (sa_config a) (sa_jobId a) rc) (\<lambda>_. answer rc)) s1
        = (r, s')"
      using assms(1) True unfolding settle_def
      by (simp add: andThen_step [of "recordConfirmedGasReceipt env (sa_config a) (sa_jobId a) rc" s u s1, OF g [unfolded u]])
    then consider e where "r2 = Inl e" "s' = s2" "r = Inl e"
      | e where "r2 = Inr ()" "s' = s3" "r = Inl e" | "r2 = Inr ()" "s' = s3" "r = Inr rc"
      unfolding andThen_cases m answer_cases by (auto simp: v)
    then show ?thesis
    proof cases
      case 3
      then show ?thesis using mark_ends(2) [OF m] sent same True h1 by (auto simp: slot_hash_def)
    qed (use sent h2 same in \<open>auto simp: slot_hash_def\<close>)
  qed
  then show "sd_sent s' = sd_sent s" "slot_hash a (sd_db s') = Some h"
    "r = Inr q \<Longrightarrow> q = rc \<and> rc_success rc \<and> (\<exists>t. slot a (sd_db s') = Some t \<and> t_state t = Confirmed \<and> t_tx_hash t = Some h)"
    by auto
qed


definition tracked :: "'w chain_env \<Rightarrow> send_args \<Rightarrow> 'w sender \<Rightarrow> (thrown + receipt) \<times> 'w sender \<Rightarrow> bool" where
  "tracked env a s o1 \<longleftrightarrow> (\<exists>n gas new.
     sd_sent (snd o1) = sd_sent s @ new \<and> length new \<le> 3 * Suc (ev_retryCount env) \<and> list_all (sent_ok env a n gas) new \<and>
     (new \<noteq> [] \<longrightarrow> \<not> executorPaused (sd_db s) \<and> toLower (ev_account env (sa_privateKey a)) = toLower (owner (sa_config a)) \<and>
        slot_hash a (sd_db (snd o1)) = Some (fst (snd (last new)))) \<and>
     (\<forall>rc. fst o1 = Inr rc \<longrightarrow> new \<noteq> [] \<and> rc_success rc \<and>
        (\<exists>t. slot a (sd_db (snd o1)) = Some t \<and> t_state t = Confirmed \<and> t_tx_hash t = Some (fst (snd (last new))))))"

lemma tracked_nothing: "sd_sent s' = sd_sent s \<Longrightarrow> tracked env a s (Inl e, s')"
  by (auto simp: tracked_def intro!: exI [of _ "[]"])

lemma tracked_andThen:
  assumes "outside m" "\<And>x t. m s = (Inr x, t) \<Longrightarrow> sd_db t = sd_db s \<Longrightarrow> tracked env a t (f x t)"
  shows "tracked env a s (andThen m f s)"
proof -
  obtain r t where m: "m s = (r, t)" by (meson surj_pair)
  note o = outsideD [OF assms(1) m]
  show ?thesis
  proof (cases r)
    case (Inl e)
    then show ?thesis using m o by (simp add: andThen_def tracked_nothing)
  next
    case (Inr x)
    then show ?thesis using assms(2) [of x t] m o by (simp add: andThen_def tracked_def)
  qed
qed

lemma tracked_tail:
  assumes "\<not> executorPaused (sd_db s)" "toLower (ev_account env (sa_privateKey a)) = toLower (owner (sa_config a))"
  shows "tracked env a s (andThen (mark env a (sending_marks env a n None Sending)) (\<lambda>_.
      andThen (sign_from 3 None env a n gas) (\<lambda>h.
      andThen (mark env a (sending_marks env a n (Some h) Sent)) (\<lambda>_.
      andThen (waitForReceiptTolerant env h) (settle env a h)))) s)"
proof -
  obtain r1 s1 where m1: "mark env a (sending_marks env a n None Sending) s = (r1, s1)" by (meson surj_pair)
  note q1 = mark_ends(1) [OF m1]
  obtain r2 s2 where sg: "sign_from 3 None env a n gas s1 = (r2, s2)" by (meson surj_pair)
  from sign_from_ends [OF sg] obtain new where new: "sent_run env a n gas (3 * Suc (ev_retryCount env)) s1 s2 new"
    and h: "\<forall>h. r2 = Inr h \<longrightarrow> new \<noteq> [] \<and> h = fst (snd (last new))" by blast
  have run: "sd_sent s2 = sd_sent s @ new" "length new \<le> 3 * Suc (ev_retryCount env)" "list_all (sent_ok env a n gas) new"
    "new \<noteq> [] \<Longrightarrow> slot_hash a (sd_db s2) = Some (fst (snd (last new)))"
    using new q1 by (auto simp: sent_run_def)
  have stop: "tracked env a s (r, s')"
    if "sd_sent s' = sd_sent s2" "new \<noteq> [] \<Longrightarrow> slot_hash a (sd_db s') = Some (fst (snd (last new)))"
      "\<And>rc. r = Inr rc \<Longrightarrow> new \<noteq> [] \<and> rc_success rc \<and>
         (\<exists>t. slot a (sd_db s') = Some t \<and> t_state t = Confirmed \<and> t_tx_hash t = Some (fst (snd (last new))))" for r s'
    unfolding tracked_def using that run assms by (intro exI [of _ n] exI [of _ gas] exI [of _ new]) auto
  show ?thesis
  proof (cases r1)
    case (Inl e)
    then show ?thesis using m1 q1 by (simp add: andThen_def tracked_nothing)
  next
    case r1: (Inr u1)
    show ?thesis
    proof (cases r2)
      case (Inl e)
      have "tracked env a s (Inl e, s2)" by (rule stop) (simp_all add: run(4))
      then show ?thesis using m1 r1 sg Inl by (simp add: andThen_def)
    next
      case r2: (Inr h)
      have nh: "new \<noteq> []" "h = fst (snd (last new))" using h r2 by simp_all
      obtain r3 s3 where m3: "mark env a (sending_marks env a n (Some h) Sent) s2 = (r3, s3)" by (meson surj_pair)
      have h3: "slot_hash a (sd_db s3) = Some h"
        by (rule mark_keeps_hash [OF m3]) (use run(4) nh in \<open>simp_all add: sending_marks_def\<close>)
      obtain r4 s4 where w: "waitForReceiptTolerant env h s3 = (r4, s4)" by (meson surj_pair)
      note q3 = mark_ends(1) [OF m3] and q4 = outsideD [OF outside_wait w]
      show ?thesis
      proof (cases r3)
        case (Inl e)
        have "tracked env a s (Inl e, s3)" by (rule stop) (use q3 h3 nh in simp_all)
        then show ?thesis using m1 r1 sg r2 m3 Inl by (simp add: andThen_def)
      next
        case r3: (Inr u3)
        show ?thesis
        proof (cases r4)
          case (Inl e)
          have "tracked env a s (Inl e, s4)" by (rule stop) (use q3 q4 h3 nh in simp_all)
          then show ?thesis using m1 r1 sg r2 m3 r3 w Inl by (simp add: andThen_def)
        next
          case r4: (Inr rc)
          obtain r5 s5 where st: "settle env a h rc s4 = (r5, s5)" by (meson surj_pair)
          have h4: "slot_hash a (sd_db s4) = Some h" using h3 q4 by simp
          have e5: "sd_sent s5 = sd_sent s2" "slot_hash a (sd_db s5) = Some h" using settle_ends(1,2) [OF st h4] q3 q4 by simp_all
          have "tracked env a s (r5, s5)"
            using e5 settle_ends(3) [OF st h4] nh by (intro stop) auto
          then show ?thesis using m1 r1 sg r2 m3 r3 w r4 st by (simp add: andThen_def)
        qed
      qed
    qed
  qed
qed

lemma sendTracked_tracked: "tracked env a s (sendTracked env a s)"
proof -
  have step: "tracked env a s (andThen m f s)"
    if "outside m" "\<And>x t. m s = (Inr x, t) \<Longrightarrow> sd_db t = sd_db s \<Longrightarrow> tracked env a t (f x t)" for m f s
    by (rule tracked_andThen [OF that])
  show ?thesis
    unfolding sendTracked_def Let_def
    by (rule step [OF outside_basic(6)] step [OF outside_retry [OF outside_basic(1)]], (unfold ensure_cases)?)+
      (auto intro!: tracked_tail split: if_splits)
qed

text \<open>
  C2. Nothing is broadcast that the database does not already know.  Whatever the node, the
  clock and the quotes do, and whether the call returns or throws: the raw transactions it
  hands to the network are at most three signings of each at most the configured number of
  attempts; every one is the requested call on the expected chain at one nonce and gas limit, within the
  owner's gas price and gas cost caps, and at the moment it is handed over its slot in the database
  already is sending with that nonce, calldata hash and transaction hash.  None is sent when the executor is
  paused or the key is not the owner's; afterwards the slot holds the hash of the last one.  A
  receipt is answered only after a send, only when it succeeded, with the slot confirmed.
\<close>

theorem tracked_sends_are_durable:
  "\<exists>n gas new. sd_sent (snd (sendTracked env a s)) = sd_sent s @ new \<and>
     length new \<le> 3 * Suc (ev_retryCount env) \<and>
     list_all (sent_ok env a n gas) new \<and>
     (if new = [] then \<not> isInr (fst (sendTracked env a s))
      else \<not> executorPaused (sd_db s) \<and> toLower (ev_account env (sa_privateKey a)) = toLower (owner (sa_config a)) \<and>
        slot_hash a (sd_db (snd (sendTracked env a s))) = Some (fst (snd (last new)))) \<and>
     (case fst (sendTracked env a s) of
        Inl _ \<Rightarrow> True
      | Inr rc \<Rightarrow> rc_success rc \<and> (\<exists>t. slot a (sd_db (snd (sendTracked env a s))) = Some t \<and> t_state t = Confirmed \<and>
          t_tx_hash t = Some (fst (snd (last new)))))"
proof -
  obtain n gas new where t: "sd_sent (snd (sendTracked env a s)) = sd_sent s @ new" "length new \<le> 3 * Suc (ev_retryCount env)"
    "list_all (sent_ok env a n gas) new"
    and some: "new \<noteq> [] \<Longrightarrow> \<not> executorPaused (sd_db s) \<and> toLower (ev_account env (sa_privateKey a)) = toLower (owner (sa_config a)) \<and>
        slot_hash a (sd_db (snd (sendTracked env a s))) = Some (fst (snd (last new)))"
    and ok: "\<And>rc. fst (sendTracked env a s) = Inr rc \<Longrightarrow> new \<noteq> [] \<and> rc_success rc \<and>
        (\<exists>t. slot a (sd_db (snd (sendTracked env a s))) = Some t \<and> t_state t = Confirmed \<and> t_tx_hash t = Some (fst (snd (last new))))"
    using sendTracked_tracked [of env a s] unfolding tracked_def by blast
  have "if new = [] then \<not> isInr (fst (sendTracked env a s))
      else \<not> executorPaused (sd_db s) \<and> toLower (ev_account env (sa_privateKey a)) = toLower (owner (sa_config a)) \<and>
        slot_hash a (sd_db (snd (sendTracked env a s))) = Some (fst (snd (last new)))"
    using some ok by (auto simp: isInr_iff)
  moreover have "case fst (sendTracked env a s) of Inl _ \<Rightarrow> True
      | Inr rc \<Rightarrow> rc_success rc \<and> (\<exists>t. slot a (sd_db (snd (sendTracked env a s))) = Some t \<and> t_state t = Confirmed \<and>
          t_tx_hash t = Some (fst (snd (last new))))"
    using ok by (simp split: sum.split)
  ultimately show ?thesis using t by blast
qed

section \<open>Two runs\<close>

text \<open>
  A node that loses its first answer, then refuses the price, then accepts: the world counts
  the raw sends.  The price of the first signing was 1250, the second is a quarter higher.
\<close>

definition lossy_env :: "nat chain_env" where
  "lossy_env = \<lparr>ev_chainId = (\<lambda>w. (Inr 4663, w)), ev_nonce = (\<lambda>_ w. (Inr 7, w)), ev_estimateGas = (\<lambda>_ _ w. (Inr 100, w)),
     ev_fees = (\<lambda>w. (Inr (1000, Some 900), w)),
     ev_sendRaw = (\<lambda>ser w. (if w = 0 then Inl (new_error ''timeout'') else if w = 1 then Inl (new_error ''transaction underpriced'')
        else Inr (''h'' @ ser), Suc w)),
     ev_getTransaction = (\<lambda>_ w. (Inl (new_error ''not found''), w)),
     ev_waitReceipt = (\<lambda>h w. (Inr \<lparr>rc_hash = h, rc_success = True, rc_block = 11, rc_gasUsed = 90, rc_gasPrice = 1000\<rparr>, w)),
     ev_quote = (\<lambda>_ _ _ w. (Inl (new_error ''down''), w)), ev_now = (\<lambda>w. 1000000), ev_sleep = (\<lambda>_ w. w),
     ev_account = (\<lambda>_. ''0xAA''), ev_sign = (\<lambda>_ tx. nat_text (lx_gasPrice tx)), ev_keccak = (\<lambda>x. ''h'' @ x),
     ev_parseUnits = (\<lambda>_ _. Inr 0), ev_expectedChain = 4663, ev_wrapped = ''0xq'', ev_settlement = ''0xu'',
     ev_retryCount = 5, ev_retryDelayMs = 400\<rparr>"

definition sample_send :: send_args where
  "sample_send = \<lparr>sa_config = sample_config, sa_jobId = ''j1'', sa_stepIndex = 2, sa_txIndex = None, sa_privateKey = ''k'',
     sa_tx = \<lparr>tx_to = ''0xnpm'', tx_data = ''0x01'', tx_value = None\<rparr>\<rparr>"

definition sent_hashes :: "'w sender \<Rightarrow> string list" where
  "sent_hashes s = map (\<lambda>(_, h, _). h) (sd_sent s)"

lemma sample_send_confirms:
  "let out = sendTracked lossy_env sample_send \<lparr>sd_db = busy_db, sd_world = 2, sd_sent = []\<rparr> in
   isInr (fst out) \<and> sent_hashes (snd out) = [''h1250''] \<and>
   map_option t_state (slot sample_send (sd_db (snd out))) = Some Confirmed"
  by code_simp

text \<open>
  The first send is ambiguous: its answer is lost, it may be in a mempool.  Resending it meets
  a refusal of the price, which is taken as proof that it was never admitted, so the same nonce is signed
  again at a higher price and the database forgets the hash of the first one.
\<close>

lemma ambiguous_send_is_forgotten:
  "let out = sendTracked lossy_env sample_send \<lparr>sd_db = busy_db, sd_world = 0, sd_sent = []\<rparr> in
   sent_hashes (snd out) = [''h1250'', ''h1250'', ''h1563''] \<and>
   slot_hash sample_send (sd_db (snd out)) = Some ''h1563'' \<and>
   list_all (\<lambda>r. t_tx_hash r \<noteq> Some ''h1250'') (job_transactions (sd_db (snd out)))"
  by code_simp

end
