(* ===== verification/Spec2Isabelle.thy ===== *)
theory Spec2Isabelle
  imports LiquidityMath TickPrice Accounting Rebalance Triggers Redaction JobLifecycle Turnover
    StoreLedger StoreMonitor Allocations StoreCommit FablesCycle FablesLifecycle Supervisor
    WalletLock ResponseCache Coalescing AdaptiveLogs GuardReport MonitorSafety
    EmergingReplay EmergingSignals EmergingScan StrategyDraft FeeTax Signer
begin

text \<open>
  lp-terminal manages concentrated-liquidity positions on Uniswap v3/v4 style pools and in the
  Fables share vault.  Three programs share one TypeScript code base: the executor
  (\<open>executor/\<close>), a service that watches the owners' positions and moves their money; the indexer
  (\<open>indexer/\<close>), which collects pool data; and the browser application (\<open>src/\<close>).  The rules of a
  strategy, used by all of them, are in \<open>shared/\<close>.  This development models the parts of them that decide, account and
  remember; paths below are relative to the repository.

  \<^bold>\<open>How the parts work together.\<close>  A strategy is a JSON configuration that
  \<open>shared/strategy/schema.ts\<close> validates before \<open>executor/store.ts\<close> keeps it in SQLite.
  \<open>executor/monitor.ts\<close> polls every strategy that is due: it reads a snapshot from the chain, asks the
  rules of \<open>shared/strategy/\<close> (trigger, entry, market guard, caps, economics) and, when all of them agree,
  lets \<open>planner.ts\<close> build a plan and the store create one planned job, which owns the strategy's wallet.
  The runner then walks through the plan under the lock of \<open>wallet-lock.ts\<close>, reserves its turnover, sends
  each transaction through \<open>signer.ts\<close>, which records it before it is broadcast, and commits the cycle.
  A job that is interrupted goes to \<open>supervisor.ts\<close>, which compares every recorded transaction with
  the chain (\<open>recovery.ts\<close>) and restarts, retries or quarantines it.  The Fables engine repeats this
  over its own tables; the two engines exclude each other on a wallet.  The indexer's emerging-pool
  pipeline discovers young pools, walks their events and gates them, without any key or wallet.

  \<^bold>\<open>Conventions.\<close>  A thrown exception is \<open>Inl\<close> of a \<open>js_error\<close> (Prelude).  A BigInt is an \<open>int\<close>
  with truncating division that throws on zero.  A JavaScript number that only holds integers is an
  \<open>int\<close>; one that computes with fractions is a rational with every operation rounded to 53 bits
  (JsNumber, JsRounding).  Database operations map the record \<open>db\<close> to the next one; \<open>Inl\<close> means that
  the SQL transaction was rolled back (Sqlite, StoreState).  What is not in the repository is an
  argument: the chain's reads, viem's hashing, signing and addresses, the aggregator's quotes,
  \<open>Math.log\<close> and \<open>Math.pow\<close>, fresh identifiers and the clock.  An argument that answers differently over time
  threads a world \<open>'w\<close>; nothing is assumed of it unless a theorem says so.

  \<^bold>\<open>Which theory models which code, and what its lemmas show.\<close>

  \<^item> Foundations.  Prelude (errors, BigInt quotients, text), BigText (\<open>BigInt(string)\<close>), Sqlite
    (the statements the stores use), Transition (the interfaces \<open>invariant_system\<close>, \<open>budget\<close> and
    \<open>backoff\<close>, each interpreted where the code provides it: WalletLock, Coalescing, Turnover,
    FablesLifecycle, RecoveryRetry), Types (\<open>shared/strategy/types.ts\<close>).

  \<^item> Liquidity mathematics.  ClMath (\<open>src/lib/clmath.ts\<close>); TickPrice shows that \<open>getSqrtRatioAtTick\<close>
    is strictly increasing between the protocol's limits and fails exactly outside; LiquidityMath, that
    amounts, liquidity, deposits and slippage minimums never overspend and never divide by zero.

  \<^item> Money rules.  Accounting (\<open>accounting.ts\<close>, \<open>capital.ts\<close>): conservation of each attribution.
    Rebalance (both \<open>rebalance.ts\<close>): swap sizes stay within their funds and each execution is split
    exactly.  FeeTax (\<open>executor/fee-tax.ts\<close>, \<open>income-retention.ts\<close>): the retained tenth of the income.
    Risk (\<open>risk.ts\<close>, \<open>capital-policy.ts\<close>, \<open>limits.ts\<close>): pool conversions and the capital cap.

  \<^item> Decisions.  Triggers (\<open>range\<close>, \<open>trigger\<close>, \<open>entry-trigger\<close>, \<open>economics-gate\<close>,
    \<open>cycle-caps\<close>, \<open>market-guard\<close>, \<open>adaptive-range\<close>, \<open>calendar\<close>, \<open>cost-basis\<close>), Planner (\<open>planner.ts\<close>: what
    a plan may contain and for which snapshot), GuardReport (\<open>guard-report.ts\<close>: the report explains
    every wait and agrees with the rule it mirrors).

  \<^item> Configuration.  JsonReader (untyped values and the operators the validator applies to them), Schema
    (\<open>schema.ts\<close> field by field, and \<open>config/networks.ts\<close>; validating an accepted value again changes
    nothing), SchemaTypes (an accepted value has the declared type, the bounds and the cross-field
    guards), StrategyDraft (the quick flow's draft and safeguards pass the validator).

  \<^item> Executor store (\<open>store.ts\<close>).  StoreState (tables, keys, indexes, redaction), Redaction, StoreJobs
    and JobLifecycle (one open job, no failure with a broadcast in flight), Turnover (daily limits),
    StoreLedger (append-only facts), StoreMonitor (marks, monitor rows, cycles), Allocations (who
    owns what in a wallet), StoreCommit (a cycle is committed exactly once, whole).

  \<^item> Fables engine.  FablesStore (\<open>fablesStore.ts\<close>, \<open>fablesJobs.ts\<close>), FablesCycle (\<open>fablesTrigger\<close>,
    \<open>fablesCycle\<close>, \<open>fablesLimits\<close>), FablesLifecycle (exclusive creation, atomic completion, failure only
    before a mutation, the turnover budget).

  \<^item> Sending and recovery.  WalletLock (the promise chain as interleaved steps), Signer (\<open>signer.ts\<close>,
    \<open>gas-accounting.ts\<close>, \<open>lib/gasPrice.ts\<close>: whatever reaches the network was recorded first),
    RecoveryPolicy (\<open>recovery.ts\<close>, \<open>recovery-nonce.ts\<close>, \<open>recovery-policy.ts\<close>, \<open>rpc-retry.ts\<close>: verdicts rest on
    evidence), RecoveryRetry (\<open>retry-state.ts\<close>, \<open>swap-escalation.ts\<close>: back-off, quarantine), Supervisor
    (\<open>supervisor.ts\<close>, one pass).

  \<^item> Monitor.  Monitor has one definition for each phase of the pass over a strategy; MonitorSafety
    shows that a pass is confined to what it polls, plans only when every guard is clear, and that
    a throw defers one strategy and plans nothing.

  \<^item> Indexer.  ResponseCache, Coalescing and AdaptiveLogs (\<open>responseCache\<close>, \<open>coalescingScheduler\<close>,
    \<open>adaptiveLogs\<close>); EmergingLedger (\<open>emergingCore.ts\<close>, the sweep of \<open>emerging.ts\<close>), EmergingScan
    (\<open>emergingScan.ts\<close>, \<open>emergingStore.ts\<close>: a cursor leaves no gap and catches up), EmergingReplay
    (\<open>emergingReplayCore.ts\<close>, \<open>emergingReplay.ts\<close>), EmergingMetrics, EmergingGates (\<open>emergingPolicy\<close>,
    \<open>emergingReduction\<close>, \<open>emergingGates\<close>: fail closed), EmergingSignals.

  \<^bold>\<open>Loops and bounds.\<close>  Bounds of the model are those of the code: the swap walk of a
  replay throws after 10 000 spans; a send makes at most three signings of as many broadcast attempts
  as configured and nine receipt reads; a balance swap is
  quoted at most three times while it is sized.  The log scan has no
  bound in the code: its loop is a partial function, and that it returns is a theorem.  A page
  walk ends because each round spends requests of its budget; the walk back after a reorganization
  looks at 32 headers at most.  Fuel is nowhere an argument of the model's own making.

  \<^bold>\<open>Not modelled.\<close>  The runners (\<open>runner.ts\<close>, \<open>recovery-runner.ts\<close>, \<open>fablesRunner.ts\<close>) and HTTP handlers, which
  sequence RPC calls around the operations above; allowance transactions, calldata and ABI
  encoding, the vault and the RPC clients; schema migrations and read-only screens of the store;
  \<open>fablesSchema.ts\<close> (its parser is an argument), strategy names and the simulator; the recommendation
  model (floating-point statistics); of the indexer the data collection, ranking, minute
  aggregation, actor ledger, archive and API; of the browser everything but \<open>clmath.ts\<close>,
  \<open>gasPrice.ts\<close> and the network tables; scripts.  The manifest lists them with the reason.
\<close>

end
